(* ===== verification/Ptp_Prelude.thy ===== *)
theory Ptp_Prelude
  imports Main "HOL-Library.Word" "HOL-Library.Signed_Division" "HOL-Library.Multiset"
begin

text \<open>
  Shared vocabulary of the linuxptp development: the C integer types as machine words, C
  division, the C idiom of returning 0 or a negative errno, and the generic list and word
  lemmas that the component theories use.
  The collections \<open>swap_simps\<close> (byte-order conversion) and \<open>fsm_simps\<close> (state-machine
  transition functions) are extended by the components and consumed by their proofs.
\<close>

named_theorems fsm_simps \<open>equations of the transition functions\<close>
named_theorems swap_simps \<open>byte-order conversions and their inverses\<close>
named_theorems len_simps \<open>operations that keep the length of a buffer or an array\<close>

section \<open>Machine integers\<close>

type_synonym u8 = "8 word"
type_synonym u16 = "16 word"
type_synonym u32 = "32 word"
type_synonym u64 = "64 word"
type_synonym i64 = "64 word" \<comment> \<open>read with \<open>sint\<close>: two's complement\<close>

text \<open>C truth values: an \<open>int\<close> is true when it is not zero.\<close>

abbreviation truthy :: "int \<Rightarrow> bool" where
  "truthy i \<equiv> i \<noteq> 0"

section \<open>Errors\<close>

text \<open>The negative errno values that the modelled functions return.\<close>

datatype errno = EBADMSG | EPROTO | ENOMEM | EINVAL

section \<open>Lists\<close>

lemma list_update_swap_involutive [simp]:
  assumes "i < length xs" and "j < length xs"
  shows "(xs[i := xs ! j, j := xs ! i])[i := (xs[i := xs ! j, j := xs ! i]) ! j,
     j := (xs[i := xs ! j, j := xs ! i]) ! i] = xs"
  using assms by (intro nth_equalityI) (auto simp: nth_list_update)

lemma mset_swap_nth:
  assumes "i < length xs" and "j < length xs"
  shows "mset (xs[i := xs ! j, j := xs ! i]) = mset xs"
  using assms mset_swap [of j xs i] by (simp add: list_update_swap)

lemma take_update_beyond [simp]: "n \<le> i \<Longrightarrow> take n (xs[i := x]) = take n xs"
  by (simp add: take_update_cancel)

section \<open>Words\<close>

lemma sint64_range: "- (2 ^ 63) \<le> sint (x :: i64) \<and> sint x < 2 ^ 63"
  using sint_ge [of x] sint_lt [of x] by simp

lemma sint64_word_of_int:
  "- (2 ^ 63) \<le> i \<Longrightarrow> i < 2 ^ 63 \<Longrightarrow> sint (word_of_int i :: i64) = i"
  by (simp add: signed_of_int signed_take_bit_int_eq_self)

lemma word64_eq_iff_sint: "(x :: i64) = y \<longleftrightarrow> sint x = sint y"
  by (auto intro: signed_word_eqI)

lemma sint64_add:
  assumes "- (2 ^ 63) \<le> sint a + sint b" and "sint a + sint b < 2 ^ 63"
  shows "sint (a + b :: i64) = sint a + sint b"
proof -
  have "a + b = word_of_int (sint a + sint b)" by simp
  then show ?thesis using sint64_word_of_int [OF assms] by metis
qed

lemma unat64_sint_nonneg:
  assumes "0 \<le> sint (x :: i64)"
  shows "int (unat x) = sint x"
proof -
  have "uint x = take_bit 64 (sint x)" using uint_sint [of x] by simp
  also have "\<dots> = sint x" using assms sint64_range [of x] by (simp add: take_bit_int_eq_self)
  finally show ?thesis by simp
qed

section \<open>C division\<close>

lemma sdiv_pos_bounds:
  assumes "0 < (d::int)"
  shows "min a 0 \<le> a sdiv d \<and> a sdiv d \<le> max a 0"
proof -
  have "0 \<le> \<bar>a\<bar> div d" and "\<bar>a\<bar> div d \<le> \<bar>a\<bar>"
    using assms zdiv_mono2 [of "\<bar>a\<bar>" 1 d] by (simp_all add: pos_imp_zdiv_nonneg_iff)
  then show ?thesis using assms by (auto simp: signed_divide_int_def sgn_if)
qed

lemma sdiv_2_error: "\<bar>2 * (i sdiv 2) - i\<bar> \<le> (1 :: int)"
proof (cases "0 \<le> i")
  case True
  then have "i sdiv 2 = i div 2" by (simp add: signed_divide_int_def sgn_if)
  then show ?thesis by linarith
next
  case False
  then have "i sdiv 2 = - (- i div 2)" by (simp add: signed_divide_int_def sgn_if)
  then show ?thesis by linarith
qed

end
