(* ===== verification/Wire.thy ===== *)
theory Wire
  imports Ptp_Prelude "HOL-Library.Monad_Syntax"
begin

text \<open>
  Messages as byte buffers and the byte-order conversions on them. The code converts in place:
  a \<open>struct\<close> is laid over the received octets and each multi-octet field is replaced by
  its \<open>ntohs\<close>, \<open>ntohl\<close> or \<open>net2host64\<close>. On the little-endian hosts that the model fixes, each of
  these reverses the octets of the field, whatever its alignment, so a field is a pair of an
  offset and a width, and \<open>swaps base fs\<close> converts the fields \<open>fs\<close> of a struct at \<open>base\<close> in
  the order of the code. A result \<open>None\<close> is an access outside the buffer.
\<close>

type_synonym buf = "u8 list"
type_synonym field = "nat \<times> nat" \<comment> \<open>offset and width in octets\<close>

section \<open>Reading and swapping fields\<close>

definition rd8 :: "buf \<Rightarrow> nat \<Rightarrow> u8 option" where
  "rd8 b i = (if i < length b then Some (b ! i) else None)"

text \<open>The value of a two-octet field as the host reads it.\<close>

definition rd16 :: "buf \<Rightarrow> nat \<Rightarrow> u16 option" where
  "rd16 b i = (if i + 2 \<le> length b then Some (ucast (b ! Suc i) * 256 + ucast (b ! i)) else None)"

definition swp :: "nat \<Rightarrow> nat \<Rightarrow> buf \<Rightarrow> buf" where
  "swp i w b = take i b @ rev (take w (drop i b)) @ drop (i + w) b"

definition swap_at :: "nat \<Rightarrow> nat \<Rightarrow> buf \<Rightarrow> buf option" where
  "swap_at i w b = (if i + w \<le> length b then Some (swp i w b) else None)"

fun swaps :: "nat \<Rightarrow> field list \<Rightarrow> buf \<Rightarrow> buf option" where
  "swaps base [] b = Some b"
| "swaps base ((i, w) # fs) b = do { b \<leftarrow> swap_at (base + i) w b; swaps base fs b }"

lemma length_swp [simp]: "i + w \<le> length b \<Longrightarrow> length (swp i w b) = length b"
  by (simp add: swp_def)

lemma nth_swp:
  assumes "i + w \<le> length b" and "k < length b"
  shows "swp i w b ! k = (if i \<le> k \<and> k < i + w then b ! (2 * i + w - 1 - k) else b ! k)"
proof -
  have len: "length (take w (drop i b)) = w" using assms(1) by simp
  consider "k < i" | "i \<le> k" "k < i + w" | "i + w \<le> k" by linarith
  then show ?thesis
  proof cases
    case 1
    then show ?thesis using assms by (simp add: swp_def nth_append)
  next
    case 2
    then have "swp i w b ! k = rev (take w (drop i b)) ! (k - i)"
      using assms by (simp add: swp_def nth_append)
    also have "\<dots> = take w (drop i b) ! (w - 1 - (k - i))"
      using 2 len by (subst rev_nth) simp_all
    also have "\<dots> = b ! (2 * i + w - 1 - k)"
    proof -
      have lt: "w - 1 - (k - i) < w" and eq: "i + (w - 1 - (k - i)) = 2 * i + w - 1 - k"
        using 2 by linarith+
      have "take w (drop i b) ! (w - 1 - (k - i)) = b ! (i + (w - 1 - (k - i)))"
        using assms(1) by (subst nth_take [OF lt], subst nth_drop) simp_all
      then show ?thesis by (simp only: eq)
    qed
    finally show ?thesis using 2 by simp
  next
    case 3
    then have "\<not> k - i < w" and "\<not> k < i" by linarith+
    with 3 show ?thesis using assms by (simp add: swp_def nth_append nth_drop)
  qed
qed

lemma swp_swp:
  assumes "i + w \<le> length b"
  shows "swp i w (swp i w b) = b"
proof (rule nth_equalityI)
  fix k
  assume "k < length (swp i w (swp i w b))"
  then have k: "k < length b" using assms by simp
  show "swp i w (swp i w b) ! k = b ! k"
  proof (cases "i \<le> k \<and> k < i + w")
    case True
    let ?j = "2 * i + w - 1 - k"
    have j: "i \<le> ?j" "?j < i + w" "?j < length b" "2 * i + w - 1 - ?j = k"
      using True assms by linarith+
    show ?thesis using True j k assms by (simp add: nth_swp)
  next
    case False
    then show ?thesis using k assms by (auto simp: nth_swp)
  qed
qed (use assms in simp)

lemma swp_commute:
  assumes "i + w \<le> length b" and "j + v \<le> length b" and "i + w \<le> j \<or> j + v \<le> i"
  shows "swp i w (swp j v b) = swp j v (swp i w b)"
proof (rule nth_equalityI)
  fix k
  assume "k < length (swp i w (swp j v b))"
  then have k: "k < length b" using assms by simp
  consider "i \<le> k" "k < i + w" | "j \<le> k" "k < j + v" "\<not> (i \<le> k \<and> k < i + w)"
    | "\<not> (i \<le> k \<and> k < i + w)" "\<not> (j \<le> k \<and> k < j + v)" by blast
  then show "swp i w (swp j v b) ! k = swp j v (swp i w b) ! k"
  proof cases
    case 1
    have "2 * i + w - 1 - k < i + w" "i \<le> 2 * i + w - 1 - k" using 1 by linarith+
    with 1 k assms show ?thesis by (auto simp: nth_swp)
  next
    case 2
    have "2 * j + v - 1 - k < j + v" "j \<le> 2 * j + v - 1 - k" using 2 by linarith+
    with 2 k assms show ?thesis by (auto simp: nth_swp)
  next
    case 3
    with k assms show ?thesis by (auto simp: nth_swp)
  qed
qed (use assms in simp)

section \<open>Sequences of fields\<close>

definition in_buf :: "nat \<Rightarrow> field list \<Rightarrow> buf \<Rightarrow> bool" where
  "in_buf base fs b \<longleftrightarrow> (\<forall>(i, w) \<in> set fs. base + i + w \<le> length b)"

definition touches :: "nat \<Rightarrow> field list \<Rightarrow> nat set" where
  "touches base fs = (\<Union>(i, w) \<in> set fs. {base + i ..< base + i + w})"

fun swl :: "nat \<Rightarrow> field list \<Rightarrow> buf \<Rightarrow> buf" where
  "swl base [] b = b"
| "swl base ((i, w) # fs) b = swl base fs (swp (base + i) w b)"

lemma in_buf_simps [simp]:
  "in_buf base [] b" "in_buf base ((i, w) # fs) b \<longleftrightarrow> base + i + w \<le> length b \<and> in_buf base fs b"
  by (auto simp: in_buf_def)

lemma touches_simps [simp]:
  "touches base [] = {}" "touches base ((i, w) # fs) = {base + i ..< base + i + w} \<union> touches base fs"
  by (auto simp: touches_def)

lemma touches_append [simp]: "touches base (fs @ gs) = touches base fs \<union> touches base gs"
  by (auto simp: touches_def)

lemma in_buf_length: "length b = length b' \<Longrightarrow> in_buf base fs b = in_buf base fs b'"
  by (simp add: in_buf_def)

lemma in_buf_append [simp]: "in_buf base (fs @ gs) b \<longleftrightarrow> in_buf base fs b \<and> in_buf base gs b"
  by (auto simp: in_buf_def)

lemma length_swl [simp]: "in_buf base fs b \<Longrightarrow> length (swl base fs b) = length b"
  by (induction base fs b rule: swl.induct) (auto simp: in_buf_length [OF length_swp])

lemma swaps_swl: "swaps base fs b = (if in_buf base fs b then Some (swl base fs b) else None)"
  by (induction base fs b rule: swaps.induct)
    (auto simp: swap_at_def in_buf_length [OF length_swp])

lemma swl_append: "swl base (fs @ gs) b = swl base gs (swl base fs b)"
  by (induction base fs b rule: swl.induct) auto

lemma nth_swl_untouched:
  assumes "in_buf base fs b" and "k \<notin> touches base fs" and "k < length b"
  shows "swl base fs b ! k = b ! k"
  using assms
  by (induction base fs b rule: swl.induct) (auto simp: nth_swp in_buf_length [OF length_swp])

text \<open>Fields that do not overlap: converting twice restores the buffer.\<close>

fun disjoint_fields :: "field list \<Rightarrow> bool" where
  "disjoint_fields [] = True"
| "disjoint_fields ((i, w) # fs) = ((\<forall>(j, v) \<in> set fs. i + w \<le> j \<or> j + v \<le> i) \<and> disjoint_fields fs)"

lemma swl_swp_commute:
  assumes "in_buf base fs b" and "base + i + w \<le> length b"
    and "\<forall>(j, v) \<in> set fs. i + w \<le> j \<or> j + v \<le> i"
  shows "swl base fs (swp (base + i) w b) = swp (base + i) w (swl base fs b)"
  using assms
proof (induction base fs b rule: swl.induct)
  case (2 base j v fs b)
  have "swp (base + j) v (swp (base + i) w b) = swp (base + i) w (swp (base + j) v b)"
    using "2.prems" by (intro swp_commute) auto
  then show ?case
    using 2 by (auto simp: in_buf_length [OF length_swp])
qed simp

lemma swl_swl [swap_simps]:
  assumes "in_buf base fs b" and "disjoint_fields fs"
  shows "swl base fs (swl base fs b) = b"
  using assms
proof (induction base fs b rule: swl.induct)
  case (2 base i w fs b)
  let ?b = "swp (base + i) w b"
  have in_fs: "in_buf base fs ?b" and len: "base + i + w \<le> length ?b"
    using "2.prems" by (simp_all add: in_buf_length [OF length_swp])
  have "swl base ((i, w) # fs) (swl base ((i, w) # fs) b) =
      swl base fs (swp (base + i) w (swl base fs ?b))"
    by simp
  also have "\<dots> = swp (base + i) w (swl base fs (swl base fs ?b))"
    using in_fs len "2.prems"(2) by (intro swl_swp_commute) (simp_all add: in_buf_length [OF length_swl])
  also have "\<dots> = b"
    using 2 in_fs by (simp add: swp_swp)
  finally show ?case .
qed simp

lemma rd16_untouched:
  assumes "in_buf base fs b" and "k \<notin> touches base fs" and "Suc k \<notin> touches base fs"
  shows "rd16 (swl base fs b) k = rd16 b k"
  using assms by (auto simp: rd16_def nth_swl_untouched)

lemma rd8_untouched:
  assumes "in_buf base fs b" and "k \<notin> touches base fs"
  shows "rd8 (swl base fs b) k = rd8 b k"
  using assms by (auto simp: rd8_def nth_swl_untouched)


section \<open>Struct layouts\<close>

text \<open>A packed struct is the list of its members with their widths in the order of the
  declaration. The members of an embedded struct carry its name as a prefix.\<close>

type_synonym layout = "(string \<times> nat) list"

definition sub :: "string \<Rightarrow> layout \<Rightarrow> layout" where
  "sub s l = map (\<lambda>(n, w). (s @ ''.'' @ n, w)) l"

fun sizeof :: "layout \<Rightarrow> nat" where
  "sizeof [] = 0"
| "sizeof ((n, w) # l) = w + sizeof l"

text \<open>The offset and the width of a member. The base of a struct embedded at offset \<open>o\<close> is
  added by \<open>nest\<close>.\<close>

fun fld :: "layout \<Rightarrow> string \<Rightarrow> field" where
  "fld [] s = (0, 0)"
| "fld ((n, w) # l) s = (if n = s then (0, w) else (case fld l s of (i, v) \<Rightarrow> (w + i, v)))"

abbreviation offsetof :: "layout \<Rightarrow> string \<Rightarrow> nat" where
  "offsetof l s \<equiv> fst (fld l s)"

definition nest :: "nat \<Rightarrow> field list \<Rightarrow> field list" where
  "nest o' fs = map (\<lambda>(i, w). (o' + i, w)) fs"

lemma nest_simps [simp]:
  "nest k [] = []" "nest k ((i, w) # fs) = (k + i, w) # nest k fs"
  "nest k (fs @ gs) = nest k fs @ nest k gs"
  by (simp_all add: nest_def)

lemma swl_nest: "swl base fs b = swl 0 (nest base fs) b"
  by (induction base fs b rule: swl.induct) auto

lemma swaps_nest: "swaps base fs b = swaps 0 (nest base fs) b"
  by (induction base fs b rule: swaps.induct) (auto split: bind_split)

lemma in_buf_nest: "in_buf base fs b = in_buf 0 (nest base fs) b"
  by (auto simp: in_buf_def nest_def add.assoc)

lemma disjoint_fields_nest: "disjoint_fields (nest k fs) = disjoint_fields fs"
  by (induction fs rule: disjoint_fields.induct) (auto simp: nest_def)

section \<open>Conversions confined to a range\<close>

definition within :: "nat \<Rightarrow> nat \<Rightarrow> field list \<Rightarrow> bool" where
  "within lo hi fs \<longleftrightarrow> (\<forall>(i, w) \<in> set fs. lo \<le> i \<and> i + w \<le> hi)"

definition agree :: "nat \<Rightarrow> nat \<Rightarrow> buf \<Rightarrow> buf \<Rightarrow> bool" where
  "agree lo hi b c \<longleftrightarrow> length c = length b \<and> (\<forall>k. lo \<le> k \<and> k < hi \<and> k < length b \<longrightarrow> c ! k = b ! k)"

definition frame :: "nat \<Rightarrow> nat \<Rightarrow> buf \<Rightarrow> buf \<Rightarrow> bool" where
  "frame lo hi b c \<longleftrightarrow> length c = length b \<and> (\<forall>k < length b. k < lo \<or> hi \<le> k \<longrightarrow> c ! k = b ! k)"

text \<open>
  \<open>conv lo hi b b' pre\<close>: the step from \<open>b\<close> to \<open>b'\<close> reverses some pairwise disjoint fields inside
  \<open>[lo, hi)\<close>, and \<open>pre\<close> reverses exactly the same fields of every buffer that agrees with \<open>b'\<close> on
  that range, whatever the rest of the buffer holds.
\<close>

definition conv :: "nat \<Rightarrow> nat \<Rightarrow> buf \<Rightarrow> buf \<Rightarrow> (buf \<Rightarrow> buf option) \<Rightarrow> bool" where
  "conv lo hi b b' pre \<longleftrightarrow>
    (\<exists>fs. within lo hi fs \<and> disjoint_fields fs \<and> b' = swl 0 fs b \<and>
       (\<forall>c. agree lo hi b' c \<longrightarrow> pre c = Some (swl 0 fs c)))"

text \<open>
  \<open>safe lo hi b r pre\<close>: the conversion with result \<open>r\<close> makes no access outside the buffer, changes
  octets of \<open>[lo, hi)\<close> only, whether it accepts or rejects, and if it accepts then \<open>pre\<close>
  undoes it.
\<close>

definition safe ::
  "nat \<Rightarrow> nat \<Rightarrow> buf \<Rightarrow> (errno option \<times> buf \<times> 'x) option \<Rightarrow> ('x \<Rightarrow> buf \<Rightarrow> buf option) \<Rightarrow> bool" where
  "safe lo hi b r pre \<longleftrightarrow>
    (\<exists>e b' x. r = Some (e, b', x) \<and> frame lo hi b b' \<and> (e = None \<longrightarrow> conv lo hi b b' (pre x)))"

lemma within_simps [simp]:
  "within lo hi []" "within lo hi ((i, w) # fs) \<longleftrightarrow> lo \<le> i \<and> i + w \<le> hi \<and> within lo hi fs"
  "within lo hi (fs @ gs) \<longleftrightarrow> within lo hi fs \<and> within lo hi gs"
  by (auto simp: within_def)

lemma within_in_buf: "within lo hi fs \<Longrightarrow> hi \<le> length b \<Longrightarrow> in_buf 0 fs b"
  by (fastforce simp: within_def in_buf_def)

lemma within_mono: "within lo hi fs \<Longrightarrow> lo' \<le> lo \<Longrightarrow> hi \<le> hi' \<Longrightarrow> within lo' hi' fs"
  by (fastforce simp: within_def)

lemma within_touches: "within lo hi fs \<Longrightarrow> touches 0 fs \<subseteq> {lo..<hi}"
  by (fastforce simp: within_def touches_def)

lemma frame_refl [simp]: "frame lo hi b b"
  by (simp add: frame_def)

lemma frame_trans: "frame lo hi a b \<Longrightarrow> frame lo hi b c \<Longrightarrow> frame lo hi a c"
  by (auto simp: frame_def)

lemma frame_mono: "frame lo hi b c \<Longrightarrow> lo' \<le> lo \<Longrightarrow> hi \<le> hi' \<Longrightarrow> frame lo' hi' b c"
  by (auto simp: frame_def)

lemma frame_length: "frame lo hi b c \<Longrightarrow> length c = length b"
  by (simp add: frame_def)

lemma frame_agree: "frame lo hi b c \<Longrightarrow> hi' \<le> lo \<or> hi \<le> lo' \<Longrightarrow> agree lo' hi' b c"
  by (fastforce simp: frame_def agree_def)

lemma agree_refl [simp]: "agree lo hi b b"
  by (simp add: agree_def)

lemma agree_trans: "agree lo hi a b \<Longrightarrow> agree lo hi b c \<Longrightarrow> agree lo hi a c"
  by (auto simp: agree_def)

lemma agree_sym: "agree lo hi a b \<Longrightarrow> agree lo hi b a"
  by (auto simp: agree_def)

lemma agree_mono: "agree lo hi b c \<Longrightarrow> lo \<le> lo' \<Longrightarrow> hi' \<le> hi \<Longrightarrow> agree lo' hi' b c"
  by (auto simp: agree_def)

lemma agree_length: "agree lo hi b c \<Longrightarrow> length c = length b"
  by (simp add: agree_def)

lemma agree_rd16: "agree lo hi b c \<Longrightarrow> lo \<le> k \<Longrightarrow> k + 2 \<le> hi \<Longrightarrow> rd16 c k = rd16 b k"
  by (auto simp: agree_def rd16_def)

lemma agree_rd8: "agree lo hi b c \<Longrightarrow> lo \<le> k \<Longrightarrow> k < hi \<Longrightarrow> rd8 c k = rd8 b k"
  by (auto simp: agree_def rd8_def)

lemma frame_swl: "within lo hi fs \<Longrightarrow> hi \<le> length b \<Longrightarrow> frame lo hi b (swl 0 fs b)"
  unfolding frame_def
proof (intro conjI allI impI)
  assume w: "within lo hi fs" and hi: "hi \<le> length b"
  note ib = within_in_buf [OF w hi]
  show "length (swl 0 fs b) = length b" by (simp add: ib)
  fix k
  assume "k < length b" and "k < lo \<or> hi \<le> k"
  then show "swl 0 fs b ! k = b ! k"
    using within_touches [OF w] by (intro nth_swl_untouched [OF ib]) auto
qed

lemma mirror_range:
  "s \<le> k \<Longrightarrow> k < s + w \<Longrightarrow> lo \<le> s \<Longrightarrow> s + w \<le> hi \<Longrightarrow>
    lo \<le> 2 * s + w - 1 - k \<and> 2 * s + w - 1 - k < (hi :: nat)"
  by arith

lemma agree_swl:
  assumes "agree lo hi b c" and "within lo hi fs" and "hi \<le> length b"
  shows "agree lo hi (swl 0 fs b) (swl 0 fs c)"
proof -
  have "agree lo hi (swl base fs b) (swl base fs c)"
    if "agree lo hi b c" "\<forall>(i, w) \<in> set fs. lo \<le> base + i \<and> base + i + w \<le> hi" "hi \<le> length b" for base
    using that
  proof (induction base fs b arbitrary: c rule: swl.induct)
    case (2 base i w fs b)
    have i: "lo \<le> base + i" "base + i + w \<le> hi" using "2.prems" by auto
    have "agree lo hi (swp (base + i) w b) (swp (base + i) w c)"
      unfolding agree_def
    proof (intro conjI allI impI)
      show "length (swp (base + i) w c) = length (swp (base + i) w b)"
        using "2.prems" i by (simp add: agree_def)
    next
      fix k
      assume "lo \<le> k \<and> k < hi \<and> k < length (swp (base + i) w b)"
      then have k: "lo \<le> k" "k < hi" "k < length b" using "2.prems" i by simp_all
      have len: "base + i + w \<le> length c" "k < length c" "base + i + w \<le> length b"
        using "2.prems" i k by (auto simp: agree_def)
      have "lo \<le> 2 * (base + i) + w - 1 - k \<and> 2 * (base + i) + w - 1 - k < hi"
        if "base + i \<le> k" "k < base + i + w"
        using mirror_range that i by blast
      then show "swp (base + i) w c ! k = swp (base + i) w b ! k"
        using "2.prems"(1,3) k len by (auto simp: nth_swp agree_def)
    qed
    then show ?case using 2 i by (auto simp: swp_def)
  qed simp
  from this [of 0] show ?thesis using assms by (auto simp: within_def)
qed


lemma disjoint_fields_append:
  "within lo mid fs \<Longrightarrow> within mid hi gs \<Longrightarrow> disjoint_fields fs \<Longrightarrow> disjoint_fields gs \<Longrightarrow>
    disjoint_fields (fs @ gs)"
  by (induction fs rule: disjoint_fields.induct) (fastforce simp: within_def)+

lemma swl_commute:
  assumes "within lo mid fs" and "within mid hi gs" and "hi \<le> length b" and "mid \<le> length b"
  shows "swl 0 fs (swl 0 gs b) = swl 0 gs (swl 0 fs b)"
  using assms
proof (induction gs arbitrary: b)
  case (Cons g gs)
  obtain j v where g: "g = (j, v)" by fastforce
  have "swl 0 fs (swp (0 + j) v b) = swp (0 + j) v (swl 0 fs b)"
    using Cons.prems g
    by (intro swl_swp_commute) (fastforce simp: within_def in_buf_def)+
  then show ?case using Cons g by (simp add: within_def)
qed simp

lemma conv_refl: "conv lo hi b b Some"
  unfolding conv_def by (intro exI [of _ "[]"]) simp

lemma conv_mono: "conv lo hi b b' p \<Longrightarrow> lo' \<le> lo \<Longrightarrow> hi \<le> hi' \<Longrightarrow> conv lo' hi' b b' p"
  unfolding conv_def by (elim exE, rule exI) (auto intro: agree_mono within_mono)

lemma conv_cong:
  assumes "conv lo hi b b' p" and "\<And>c. agree lo hi b' c \<Longrightarrow> q c = p c"
  shows "conv lo hi b b' q"
  using assms unfolding conv_def by fastforce

lemma conv_frame: "conv lo hi b b' p \<Longrightarrow> hi \<le> length b \<Longrightarrow> frame lo hi b b'"
  unfolding conv_def using frame_swl by blast

lemma conv_inverse:
  assumes "conv lo hi b b' p" and "hi \<le> length b"
  shows "p b' = Some b"
proof -
  from assms(1) obtain fs where fs: "within lo hi fs" "disjoint_fields fs" "b' = swl 0 fs b"
    and p: "p b' = Some (swl 0 fs b')"
    unfolding conv_def by auto
  have "in_buf 0 fs b" using fs(1) assms(2) by (rule within_in_buf)
  then show ?thesis using p fs by (simp add: swl_swl)
qed

lemma conv_swaps:
  assumes "within lo hi (nest base fs)" and "disjoint_fields fs" and "hi \<le> length b"
  shows "conv lo hi b (swl base fs b) (swaps base fs)"
  unfolding conv_def
proof (intro exI [of _ "nest base fs"] conjI allI impI)
  fix c
  assume "agree lo hi (swl base fs b) c"
  moreover have "length (swl base fs b) = length b"
    using assms within_in_buf [of lo hi "nest base fs" b] by (simp add: in_buf_nest [of base])
  ultimately have "hi \<le> length c" using assms(3) by (simp add: agree_def)
  then have "in_buf base fs c" using assms(1) by (subst in_buf_nest) (rule within_in_buf)
  then show "swaps base fs c = Some (swl 0 (nest base fs) c)"
    by (simp add: swaps_swl swl_nest [of base])
qed (use assms in \<open>simp_all add: disjoint_fields_nest swl_nest [of base]\<close>)

text \<open>Two conversions of adjacent ranges make one, and may be undone in either order.\<close>

lemma conv_seq:
  assumes p: "conv lo mid b b1 p" and q: "conv mid hi b1 b2 q"
    and len: "hi \<le> length b" "lo \<le> mid" "mid \<le> hi"
  shows "conv lo hi b b2 (\<lambda>c. do { c \<leftarrow> p c; q c })"
    and "conv lo hi b b2 (\<lambda>c. do { c \<leftarrow> q c; p c })"
proof -
  from p obtain fs where fs: "within lo mid fs" "disjoint_fields fs" and b1: "b1 = swl 0 fs b"
    and pf: "\<And>c. agree lo mid b1 c \<Longrightarrow> p c = Some (swl 0 fs c)" unfolding conv_def by blast
  from q obtain gs where gs: "within mid hi gs" "disjoint_fields gs" and b2: "b2 = swl 0 gs b1"
    and qf: "\<And>c. agree mid hi b2 c \<Longrightarrow> q c = Some (swl 0 gs c)" unfolding conv_def by blast
  have f1: "frame lo mid b b1" using fs(1) len b1 by (simp add: frame_swl)
  then have l1: "length b1 = length b" by (rule frame_length)
  have f2: "frame mid hi b1 b2" using gs(1) len l1 b2 by (simp add: frame_swl)
  then have l2: "length b2 = length b" using l1 by (simp add: frame_length)
  have a12: "agree lo mid b1 b2" using f2 by (rule frame_agree) simp
  have w: "within lo hi (fs @ gs)" using fs(1) gs(1) len by (auto intro: within_mono)
  have d: "disjoint_fields (fs @ gs)" using fs gs by (intro disjoint_fields_append)
  have pq: "(do { c \<leftarrow> p c; q c }) = Some (swl 0 (fs @ gs) c)"
    and qp: "(do { c \<leftarrow> q c; p c }) = Some (swl 0 (fs @ gs) c)" if c: "agree lo hi b2 c" for c
  proof -
    have lc: "length c = length b" using c l2 by (simp add: agree_def)
    have "agree lo mid b2 c" using c len by (auto intro: agree_mono)
    with a12 have pc: "p c = Some (swl 0 fs c)" by (intro pf) (rule agree_trans)
    have "frame lo mid c (swl 0 fs c)" using fs(1) lc len by (intro frame_swl) simp_all
    then have "agree mid hi c (swl 0 fs c)" by (rule frame_agree) simp
    moreover have m: "agree mid hi b2 c" using c len by (auto intro: agree_mono)
    ultimately have "q (swl 0 fs c) = Some (swl 0 gs (swl 0 fs c))"
      by (intro qf) (rule agree_trans)
    with pc show "(do { c \<leftarrow> p c; q c }) = Some (swl 0 (fs @ gs) c)" by (simp add: swl_append)
    have qc: "q c = Some (swl 0 gs c)" using m by (rule qf)
    have "frame mid hi c (swl 0 gs c)" using gs(1) lc len by (intro frame_swl) simp_all
    then have "agree lo mid c (swl 0 gs c)" by (rule frame_agree) simp
    with a12 \<open>agree lo mid b2 c\<close> have "p (swl 0 gs c) = Some (swl 0 fs (swl 0 gs c))"
      by (intro pf) (blast intro: agree_trans)
    moreover have "swl 0 fs (swl 0 gs c) = swl 0 gs (swl 0 fs c)"
      using fs(1) gs(1) lc len by (intro swl_commute [of lo mid fs hi gs]) simp_all
    ultimately show "(do { c \<leftarrow> q c; p c }) = Some (swl 0 (fs @ gs) c)"
      using qc by (simp add: swl_append)
  qed
  show "conv lo hi b b2 (\<lambda>c. do { c \<leftarrow> p c; q c })"
    and "conv lo hi b b2 (\<lambda>c. do { c \<leftarrow> q c; p c })"
    unfolding conv_def using w d b1 b2 pq qp
    by (intro exI [of _ "fs @ gs"]; simp add: swl_append)+
qed

section \<open>Rules for \<open>safe\<close>\<close>

lemma safe_if:
  "(P \<Longrightarrow> safe lo hi b r p) \<Longrightarrow> (\<not> P \<Longrightarrow> safe lo hi b s p) \<Longrightarrow> safe lo hi b (if P then r else s) p"
  by simp

lemma safe_reject: "frame lo hi b b' \<Longrightarrow> safe lo hi b (Some (Some e, b', x)) p"
  by (simp add: safe_def)

lemma safe_accept: "conv lo hi b b' (p x) \<Longrightarrow> hi \<le> length b \<Longrightarrow> safe lo hi b (Some (None, b', x)) p"
  by (auto simp: safe_def intro: conv_frame)

lemma safe_mono: "safe lo hi b r p \<Longrightarrow> lo' \<le> lo \<Longrightarrow> hi \<le> hi' \<Longrightarrow> safe lo' hi' b r p"
  unfolding safe_def by (blast intro: conv_mono frame_mono)

lemma safe_cong:
  assumes "safe lo hi b r p"
    and "\<And>b' x c. r = Some (None, b', x) \<Longrightarrow> agree lo hi b' c \<Longrightarrow> q x c = p x c"
  shows "safe lo hi b r q"
proof -
  from assms(1) obtain e b' x where r: "r = Some (e, b', x)" "frame lo hi b b'"
    and c: "e = None \<Longrightarrow> conv lo hi b b' (p x)" unfolding safe_def by blast
  have "conv lo hi b b' (q x)" if "e = None"
    using c [OF that] assms(2) r that by (auto intro: conv_cong)
  with r show ?thesis unfolding safe_def by blast
qed

text \<open>The range of \<open>safe\<close> may grow downwards over octets that only the inverse reads.\<close>

definition conv_at :: "nat \<Rightarrow> nat \<Rightarrow> nat \<Rightarrow> buf \<Rightarrow> buf \<Rightarrow> (buf \<Rightarrow> buf option) \<Rightarrow> bool" where
  "conv_at mid lo hi b b' pre \<longleftrightarrow>
    (\<exists>fs. within mid hi fs \<and> disjoint_fields fs \<and> b' = swl 0 fs b \<and>
       (\<forall>c. agree lo hi b' c \<longrightarrow> pre c = Some (swl 0 fs c)))"

definition safe_at ::
  "nat \<Rightarrow> nat \<Rightarrow> nat \<Rightarrow> buf \<Rightarrow> (errno option \<times> buf \<times> 'x) option \<Rightarrow> ('x \<Rightarrow> buf \<Rightarrow> buf option) \<Rightarrow> bool" where
  "safe_at mid lo hi b r pre \<longleftrightarrow>
    (\<exists>e b' x. r = Some (e, b', x) \<and> frame mid hi b b' \<and> (e = None \<longrightarrow> conv_at mid lo hi b b' (pre x)))"

lemma safe_at_reject: "safe_at mid lo hi b (Some (Some e, b, x)) p"
  by (simp add: safe_at_def)

lemma safe_at_outer:
  assumes "safe mid hi b r p" and "lo \<le> mid" and "mid \<le> hi"
    and "\<And>b' x c. r = Some (None, b', x) \<Longrightarrow> agree lo mid b c \<Longrightarrow> agree mid hi b' c \<Longrightarrow> q x c = p x c"
  shows "safe_at mid lo hi b r q"
proof -
  from assms(1) obtain e b' x where r: "r = Some (e, b', x)" and fr: "frame mid hi b b'"
    and c: "e = None \<Longrightarrow> conv mid hi b b' (p x)" unfolding safe_def by blast
  have "conv_at mid lo hi b b' (q x)" if e: "e = None"
  proof -
    from c [OF e] obtain fs where fs: "within mid hi fs" "disjoint_fields fs" "b' = swl 0 fs b"
      and p: "\<And>c. agree mid hi b' c \<Longrightarrow> p x c = Some (swl 0 fs c)" unfolding conv_def by blast
    have "q x c = Some (swl 0 fs c)" if c: "agree lo hi b' c" for c
    proof -
      have "agree lo mid b b'" using fr by (rule frame_agree) simp
      moreover have a: "agree lo mid b' c" "agree mid hi b' c"
        using c assms(2,3) by (auto intro: agree_mono)
      ultimately have "q x c = p x c" using r e by (intro assms(4)) (blast intro: agree_trans)+
      then show ?thesis using p [OF a(2)] by simp
    qed
    then show ?thesis using fs unfolding conv_at_def by blast
  qed
  then show ?thesis unfolding safe_at_def using r fr by blast
qed

lemma conv_at_conv: "conv_at mid lo hi b b' p \<Longrightarrow> lo \<le> mid \<Longrightarrow> conv lo hi b b' p"
  unfolding conv_at_def conv_def by (elim exE, rule exI) (auto intro: within_mono)

lemma safe_at_safe: "safe_at mid lo hi b r p \<Longrightarrow> lo \<le> mid \<Longrightarrow> safe lo hi b r p"
  unfolding safe_at_def safe_def by (auto intro: conv_at_conv frame_mono)

lemma safe_outer:
  assumes "safe mid hi b r p" and "lo \<le> mid" and "mid \<le> hi"
    and "\<And>b' x c. r = Some (None, b', x) \<Longrightarrow> agree lo mid b c \<Longrightarrow> agree mid hi b' c \<Longrightarrow> q x c = p x c"
  shows "safe lo hi b r q"
  using safe_at_outer [OF assms] assms(2) by (rule safe_at_safe)

text \<open>A header conversion followed by a conversion whose inverse reads the converted header.\<close>

lemma conv_at_seq:
  assumes p: "conv lo mid b b1 p" and q: "conv_at mid lo hi b1 b2 q"
    and len: "hi \<le> length b" "lo \<le> mid" "mid \<le> hi"
  shows "conv lo hi b b2 (\<lambda>c. do { c \<leftarrow> q c; p c })"
proof -
  from p obtain fs where fs: "within lo mid fs" "disjoint_fields fs" and b1: "b1 = swl 0 fs b"
    and pf: "\<And>c. agree lo mid b1 c \<Longrightarrow> p c = Some (swl 0 fs c)" unfolding conv_def by blast
  from q obtain gs where gs: "within mid hi gs" "disjoint_fields gs" and b2: "b2 = swl 0 gs b1"
    and qf: "\<And>c. agree lo hi b2 c \<Longrightarrow> q c = Some (swl 0 gs c)" unfolding conv_at_def by blast
  have "frame lo mid b b1" using frame_swl [OF fs(1)] len b1 by simp
  then have l1: "length b1 = length b" by (rule frame_length)
  have f2: "frame mid hi b1 b2" using gs(1) len l1 b2 by (simp add: frame_swl)
  then have l2: "length b2 = length b" using l1 by (simp add: frame_length)
  have a12: "agree lo mid b1 b2" using f2 by (rule frame_agree) simp
  have qp: "(do { c \<leftarrow> q c; p c }) = Some (swl 0 (fs @ gs) c)" if c: "agree lo hi b2 c" for c
  proof -
    have lc: "length c = length b" using c l2 by (simp add: agree_def)
    have "frame mid hi c (swl 0 gs c)" using gs(1) lc len by (intro frame_swl) simp_all
    then have "agree lo mid c (swl 0 gs c)" by (rule frame_agree) simp
    moreover have "agree lo mid b2 c" using c len by (auto intro: agree_mono)
    ultimately have "p (swl 0 gs c) = Some (swl 0 fs (swl 0 gs c))"
      using a12 by (intro pf) (blast intro: agree_trans)
    moreover have "swl 0 fs (swl 0 gs c) = swl 0 gs (swl 0 fs c)"
      using fs(1) gs(1) lc len by (intro swl_commute [of lo mid fs hi gs]) simp_all
    ultimately show ?thesis using qf [OF c] by (simp add: swl_append)
  qed
  have "within lo hi (fs @ gs)" and "disjoint_fields (fs @ gs)"
    using fs gs len by (auto intro: within_mono disjoint_fields_append)
  then show ?thesis
    unfolding conv_def using b1 b2 qp by (intro exI [of _ "fs @ gs"]) (simp add: swl_append)
qed

text \<open>Two conversions with a gap between them: if the gap is converted as well between their
  inverses, it is all that changes.\<close>

lemma conv_gap:
  assumes p: "conv lo m1 b b1 p" and q: "conv m2 hi b1 b2 q" and gs: "within m1 m2 gs"
    and le: "lo \<le> m1" "m1 \<le> m2" "m2 \<le> hi" "hi \<le> length b"
  shows "(do { c \<leftarrow> p b2; c \<leftarrow> swaps 0 gs c; q c }) = Some (swl 0 gs b)"
proof -
  from p obtain fs where fs: "within lo m1 fs" "disjoint_fields fs" and b1: "b1 = swl 0 fs b"
    and pf: "\<And>c. agree lo m1 b1 c \<Longrightarrow> p c = Some (swl 0 fs c)" unfolding conv_def by blast
  from q obtain hs where hs: "within m2 hi hs" "disjoint_fields hs" and b2: "b2 = swl 0 hs b1"
    and qf: "\<And>c. agree m2 hi b2 c \<Longrightarrow> q c = Some (swl 0 hs c)" unfolding conv_def by blast
  have l1: "length b1 = length b"
    using frame_length [OF frame_swl [OF fs(1), of b]] le b1 by simp
  have f2: "frame m2 hi b1 b2" unfolding b2 using hs(1) le l1 by (intro frame_swl) simp_all
  then have l2: "length b2 = length b" using l1 by (simp add: frame_length)
  have pb: "p b2 = Some (swl 0 fs b2)" using pf [OF frame_agree [OF f2]] le by simp
  let ?c1 = "swl 0 fs b2" and ?c2 = "swl 0 gs (swl 0 fs b2)"
  have g1: "frame lo m1 b2 ?c1" using fs(1) le l2 by (intro frame_swl) simp_all
  then have l3: "length ?c1 = length b" using l2 by (simp add: frame_length)
  have g2: "frame m1 m2 ?c1 ?c2" using gs le l3 by (intro frame_swl) simp_all
  have "agree m2 hi b2 ?c1" using g1 by (rule frame_agree) (use le in simp)
  moreover have "agree m2 hi ?c1 ?c2" using g2 by (rule frame_agree) simp
  ultimately have qc: "q ?c2 = Some (swl 0 hs ?c2)" by (intro qf) (rule agree_trans)
  have sw: "swaps 0 gs ?c1 = Some ?c2"
    using within_in_buf [OF gs, of ?c1] le l3 by (simp add: swaps_swl)
  have "swl 0 hs ?c2 = swl 0 gs (swl 0 hs ?c1)"
    using swl_commute [OF gs hs(1), of ?c1] le l3 by simp
  also have "swl 0 hs ?c1 = swl 0 fs (swl 0 hs b2)"
    using swl_commute [of lo m2 fs hi hs b2] within_mono [OF fs(1)] hs(1) le l2 by simp
  also have "swl 0 hs b2 = b1"
    unfolding b2 using within_in_buf [OF hs(1), of b1] hs(2) le l1 by (intro swl_swl) simp_all
  also have "swl 0 fs b1 = b"
    unfolding b1 using within_in_buf [OF fs(1), of b] fs(2) le by (intro swl_swl) simp_all
  finally show ?thesis using pb sw qc by simp
qed

end
