(* ===== verification/Layout.thy ===== *)
theory Layout
  imports Wire
begin

text \<open>
  The packed structs of \<open>ddt.h\<close>, \<open>ds.h\<close>, \<open>tlv.h\<close> and \<open>msg.h\<close> that are laid over the octets
  of a message, member by member, with the evaluated sizes and offsets that the conversions of
  \<open>tlv.c\<close> and \<open>msg.c\<close> rely on (collection \<open>layout_simps\<close>). Zero-length trailing arrays have no
  entry. An array of octets or of 64-bit counters is one entry with its total width.
\<close>

named_theorems layout_simps \<open>sizes of the structs and offsets of their members\<close>

section \<open>ddt.h\<close>

definition Timestamp_layout :: layout where
  "Timestamp_layout =
     [(''seconds_msb'', 2), (''seconds_lsb'', 4), (''nanoseconds'', 4)]"

definition ClockIdentity_layout :: layout where
  "ClockIdentity_layout =
     [(''id'', 8)]"

definition PortIdentity_layout :: layout where
  "PortIdentity_layout =
     sub ''clockIdentity'' ClockIdentity_layout @
     [(''portNumber'', 2)]"

definition PortAddress_layout :: layout where
  "PortAddress_layout =
     [(''networkProtocol'', 2), (''addressLength'', 2)]"

definition PhysicalAddress_layout :: layout where
  "PhysicalAddress_layout =
     [(''length'', 2)]"

definition ClockQuality_layout :: layout where
  "ClockQuality_layout =
     [(''clockClass'', 1), (''clockAccuracy'', 1), (''offsetScaledLogVariance'', 2)]"

definition TLV_layout :: layout where
  "TLV_layout =
     [(''type'', 2), (''length'', 2)]"

definition PTPText_layout :: layout where
  "PTPText_layout =
     [(''length'', 1)]"

definition PortStats_layout :: layout where
  "PortStats_layout =
     [(''rxMsgType'', 128), (''txMsgType'', 128)]"

definition PortServiceStats_layout :: layout where
  "PortServiceStats_layout =
     [(''announce_timeout'', 8), (''sync_timeout'', 8), (''delay_timeout'', 8),
      (''unicast_service_timeout'', 8), (''unicast_request_timeout'', 8),
      (''master_announce_timeout'', 8), (''master_sync_timeout'', 8),
      (''qualification_timeout'', 8), (''sync_mismatch'', 8), (''followup_mismatch'', 8)]"

definition unicast_master_entry_layout :: layout where
  "unicast_master_entry_layout =
     sub ''port_identity'' PortIdentity_layout @
     sub ''clock_quality'' ClockQuality_layout @
     [(''selected'', 1), (''port_state'', 1), (''priority1'', 1), (''priority2'', 1)] @
     sub ''address'' PortAddress_layout"

section \<open>ds.h\<close>

definition defaultDS_layout :: layout where
  "defaultDS_layout =
     [(''flags'', 1), (''reserved1'', 1), (''numberPorts'', 2), (''priority1'', 1)] @
     sub ''clockQuality'' ClockQuality_layout @
     [(''priority2'', 1)] @
     sub ''clockIdentity'' ClockIdentity_layout @
     [(''domainNumber'', 1), (''reserved2'', 1)]"

definition currentDS_layout :: layout where
  "currentDS_layout =
     [(''stepsRemoved'', 2), (''offsetFromMaster'', 8), (''meanPathDelay'', 8)]"

definition parentDS_layout :: layout where
  "parentDS_layout =
     sub ''parentPortIdentity'' PortIdentity_layout @
     [(''parentStats'', 1), (''reserved'', 1), (''observedParentOffsetScaledLogVariance'', 2),
      (''observedParentClockPhaseChangeRate'', 4), (''grandmasterPriority1'', 1)] @
     sub ''grandmasterClockQuality'' ClockQuality_layout @
     [(''grandmasterPriority2'', 1)] @
     sub ''grandmasterIdentity'' ClockIdentity_layout"

definition timePropertiesDS_layout :: layout where
  "timePropertiesDS_layout =
     [(''currentUtcOffset'', 2), (''flags'', 1), (''timeSource'', 1)]"

definition portDS_layout :: layout where
  "portDS_layout =
     sub ''portIdentity'' PortIdentity_layout @
     [(''portState'', 1), (''logMinDelayReqInterval'', 1), (''peerMeanPathDelay'', 8),
      (''logAnnounceInterval'', 1), (''announceReceiptTimeout'', 1), (''logSyncInterval'', 1),
      (''delayMechanism'', 1), (''logMinPdelayReqInterval'', 1), (''versionNumber'', 1)]"

section \<open>tlv.h\<close>

definition ScaledNs_layout :: layout where
  "ScaledNs_layout =
     [(''nanoseconds_msb'', 2), (''nanoseconds_lsb'', 8), (''fractional_nanoseconds'', 2)]"

definition ack_cancel_unicast_xmit_tlv_layout :: layout where
  "ack_cancel_unicast_xmit_tlv_layout =
     [(''type'', 2), (''length'', 2), (''message_type_flags'', 1), (''reserved'', 1)]"

definition cancel_unicast_xmit_tlv_layout :: layout where
  "cancel_unicast_xmit_tlv_layout =
     [(''type'', 2), (''length'', 2), (''message_type_flags'', 1), (''reserved'', 1)]"

definition grant_unicast_xmit_tlv_layout :: layout where
  "grant_unicast_xmit_tlv_layout =
     [(''type'', 2), (''length'', 2), (''message_type'', 1), (''logInterMessagePeriod'', 1),
      (''durationField'', 4), (''reserved'', 1), (''flags'', 1)]"

definition alternate_time_offset_indicator_tlv_layout :: layout where
  "alternate_time_offset_indicator_tlv_layout =
     [(''type'', 2), (''length'', 2), (''keyField'', 1), (''currentOffset'', 4),
      (''jumpSeconds'', 4)] @
     sub ''timeOfNextJump'' [(''seconds_msb'', 2), (''seconds_lsb'', 4)] @
     sub ''displayName'' PTPText_layout"

definition alternate_time_offset_name_layout :: layout where
  "alternate_time_offset_name_layout =
     [(''keyField'', 1)] @
     sub ''displayName'' PTPText_layout"

definition alternate_time_offset_properties_layout :: layout where
  "alternate_time_offset_properties_layout =
     [(''keyField'', 1), (''currentOffset'', 4), (''jumpSeconds'', 4)] @
     sub ''timeOfNextJump'' [(''seconds_msb'', 2), (''seconds_lsb'', 4)] @
     [(''pad'', 1)]"

definition management_tlv_layout :: layout where
  "management_tlv_layout =
     [(''type'', 2), (''length'', 2), (''id'', 2)]"

definition management_error_status_layout :: layout where
  "management_error_status_layout =
     [(''type'', 2), (''length'', 2), (''error'', 2), (''id'', 2), (''reserved'', 4)]"

definition authentication_tlv_layout :: layout where
  "authentication_tlv_layout =
     [(''type'', 2), (''length'', 2), (''spp'', 1), (''secParamIndicator'', 1), (''keyID'', 4)]"

definition nsm_resp_tlv_head_layout :: layout where
  "nsm_resp_tlv_head_layout =
     [(''type'', 2), (''length'', 2), (''port_state'', 1), (''reserved'', 1)] @
     sub ''parent_addr'' PortAddress_layout"

definition nsm_resp_tlv_foot_layout :: layout where
  "nsm_resp_tlv_foot_layout =
     sub ''parent'' parentDS_layout @
     sub ''current'' currentDS_layout @
     sub ''timeprop'' timePropertiesDS_layout @
     sub ''lastsync'' Timestamp_layout"

definition organization_tlv_layout :: layout where
  "organization_tlv_layout =
     [(''type'', 2), (''length'', 2), (''id'', 3), (''subtype'', 3)]"

definition request_unicast_xmit_tlv_layout :: layout where
  "request_unicast_xmit_tlv_layout =
     [(''type'', 2), (''length'', 2), (''message_type'', 1), (''logInterMessagePeriod'', 1),
      (''durationField'', 4)]"

definition slave_delay_timing_record_layout :: layout where
  "slave_delay_timing_record_layout =
     [(''sequenceId'', 2)] @
     sub ''delayOriginTimestamp'' Timestamp_layout @
     [(''totalCorrectionField'', 8)] @
     sub ''delayResponseTimestamp'' Timestamp_layout"

definition slave_delay_timing_data_tlv_layout :: layout where
  "slave_delay_timing_data_tlv_layout =
     [(''type'', 2), (''length'', 2)] @
     sub ''sourcePortIdentity'' PortIdentity_layout"

definition slave_rx_sync_timing_record_layout :: layout where
  "slave_rx_sync_timing_record_layout =
     [(''sequenceId'', 2)] @
     sub ''syncOriginTimestamp'' Timestamp_layout @
     [(''totalCorrectionField'', 8), (''scaledCumulativeRateOffset'', 4)] @
     sub ''syncEventIngressTimestamp'' Timestamp_layout"

definition slave_rx_sync_timing_data_tlv_layout :: layout where
  "slave_rx_sync_timing_data_tlv_layout =
     [(''type'', 2), (''length'', 2)] @
     sub ''sourcePortIdentity'' PortIdentity_layout"

definition cmlds_info_np_layout :: layout where
  "cmlds_info_np_layout =
     [(''meanLinkDelay'', 8), (''scaledNeighborRateRatio'', 4), (''as_capable'', 4)]"

definition follow_up_info_tlv_layout :: layout where
  "follow_up_info_tlv_layout =
     [(''type'', 2), (''length'', 2), (''id'', 3), (''subtype'', 3),
      (''cumulativeScaledRateOffset'', 4), (''gmTimeBaseIndicator'', 2)] @
     sub ''lastGmPhaseChange'' ScaledNs_layout @
     [(''scaledLastGmPhaseChange'', 4)]"

definition ieee_c37_238_2017_tlv_layout :: layout where
  "ieee_c37_238_2017_tlv_layout =
     [(''type'', 2), (''length'', 2), (''id'', 3), (''subtype'', 3), (''grandmasterID'', 2),
      (''reserved1'', 4), (''totalTimeInaccuracy'', 4), (''pad'', 2)]"

definition ieee_c37_238_settings_np_layout :: layout where
  "ieee_c37_238_settings_np_layout =
     [(''version'', 2), (''grandmasterID'', 2), (''grandmasterTimeInaccuracy'', 4),
      (''networkTimeInaccuracy'', 4), (''totalTimeInaccuracy'', 4)]"

definition msg_interval_req_tlv_layout :: layout where
  "msg_interval_req_tlv_layout =
     [(''type'', 2), (''length'', 2), (''id'', 3), (''subtype'', 3), (''linkDelayInterval'', 1),
      (''timeSyncInterval'', 1), (''announceInterval'', 1), (''flags'', 1), (''reserved'', 2)]"

definition time_status_np_layout :: layout where
  "time_status_np_layout =
     [(''master_offset'', 8), (''ingress_time'', 8), (''cumulativeScaledRateOffset'', 4),
      (''scaledLastGmPhaseChange'', 4), (''gmTimeBaseIndicator'', 2)] @
     sub ''lastGmPhaseChange'' ScaledNs_layout @
     [(''gmPresent'', 4)] @
     sub ''gmIdentity'' ClockIdentity_layout"

definition grandmaster_settings_np_layout :: layout where
  "grandmaster_settings_np_layout =
     sub ''clockQuality'' ClockQuality_layout @
     [(''utc_offset'', 2), (''time_flags'', 1), (''time_source'', 1)]"

definition port_ds_np_layout :: layout where
  "port_ds_np_layout =
     [(''neighborPropDelayThresh'', 4), (''asCapable'', 4)]"

definition subscribe_events_np_layout :: layout where
  "subscribe_events_np_layout =
     [(''duration'', 2), (''bitmask'', 64)]"

definition port_properties_np_layout :: layout where
  "port_properties_np_layout =
     sub ''portIdentity'' PortIdentity_layout @
     [(''port_state'', 1), (''timestamping'', 1)] @
     sub ''interface'' PTPText_layout"

definition port_hwclock_np_layout :: layout where
  "port_hwclock_np_layout =
     sub ''portIdentity'' PortIdentity_layout @
     [(''phc_index'', 4), (''flags'', 1), (''reserved'', 1)]"

definition port_stats_np_layout :: layout where
  "port_stats_np_layout =
     sub ''portIdentity'' PortIdentity_layout @
     sub ''stats'' PortStats_layout"

definition port_service_stats_np_layout :: layout where
  "port_service_stats_np_layout =
     sub ''portIdentity'' PortIdentity_layout @
     sub ''stats'' PortServiceStats_layout"

definition unicast_master_table_np_layout :: layout where
  "unicast_master_table_np_layout =
     [(''actual_table_size'', 2)]"

definition msg_interface_rate_tlv_layout :: layout where
  "msg_interface_rate_tlv_layout =
     [(''type'', 2), (''length'', 2), (''id'', 3), (''subtype'', 3), (''interfaceBitPeriod'', 8),
      (''numberOfBitsBeforeTimestamp'', 2), (''numberOfBitsAfterTimestamp'', 2)]"

section \<open>msg.h\<close>

definition ptp_header_layout :: layout where
  "ptp_header_layout =
     [(''tsmt'', 1), (''ver'', 1), (''messageLength'', 2), (''domainNumber'', 1),
      (''reserved1'', 1), (''flagField'', 2), (''correction'', 8), (''reserved2'', 4)] @
     sub ''sourcePortIdentity'' PortIdentity_layout @
     [(''sequenceId'', 2), (''control'', 1), (''logMessageInterval'', 1)]"

definition announce_msg_layout :: layout where
  "announce_msg_layout =
     sub ''hdr'' ptp_header_layout @
     sub ''originTimestamp'' Timestamp_layout @
     [(''currentUtcOffset'', 2), (''reserved'', 1), (''grandmasterPriority1'', 1)] @
     sub ''grandmasterClockQuality'' ClockQuality_layout @
     [(''grandmasterPriority2'', 1)] @
     sub ''grandmasterIdentity'' ClockIdentity_layout @
     [(''stepsRemoved'', 2), (''timeSource'', 1)]"

definition sync_msg_layout :: layout where
  "sync_msg_layout =
     sub ''hdr'' ptp_header_layout @
     sub ''originTimestamp'' Timestamp_layout"

definition delay_req_msg_layout :: layout where
  "delay_req_msg_layout =
     sub ''hdr'' ptp_header_layout @
     sub ''originTimestamp'' Timestamp_layout"

definition follow_up_msg_layout :: layout where
  "follow_up_msg_layout =
     sub ''hdr'' ptp_header_layout @
     sub ''preciseOriginTimestamp'' Timestamp_layout"

definition delay_resp_msg_layout :: layout where
  "delay_resp_msg_layout =
     sub ''hdr'' ptp_header_layout @
     sub ''receiveTimestamp'' Timestamp_layout @
     sub ''requestingPortIdentity'' PortIdentity_layout"

definition pdelay_req_msg_layout :: layout where
  "pdelay_req_msg_layout =
     sub ''hdr'' ptp_header_layout @
     sub ''originTimestamp'' Timestamp_layout @
     sub ''reserved'' PortIdentity_layout"

definition pdelay_resp_msg_layout :: layout where
  "pdelay_resp_msg_layout =
     sub ''hdr'' ptp_header_layout @
     sub ''requestReceiptTimestamp'' Timestamp_layout @
     sub ''requestingPortIdentity'' PortIdentity_layout"

definition pdelay_resp_fup_msg_layout :: layout where
  "pdelay_resp_fup_msg_layout =
     sub ''hdr'' ptp_header_layout @
     sub ''responseOriginTimestamp'' Timestamp_layout @
     sub ''requestingPortIdentity'' PortIdentity_layout"

definition signaling_msg_layout :: layout where
  "signaling_msg_layout =
     sub ''hdr'' ptp_header_layout @
     sub ''targetPortIdentity'' PortIdentity_layout"

definition management_msg_layout :: layout where
  "management_msg_layout =
     sub ''hdr'' ptp_header_layout @
     sub ''targetPortIdentity'' PortIdentity_layout @
     [(''startingBoundaryHops'', 1), (''boundaryHops'', 1), (''flags'', 1), (''reserved'', 1)]"


section \<open>Sizes and offsets\<close>

lemma sizes [layout_simps]:
  "sizeof Timestamp_layout = 10"
  "sizeof ClockIdentity_layout = 8"
  "sizeof PortIdentity_layout = 10"
  "sizeof PortAddress_layout = 4"
  "sizeof PhysicalAddress_layout = 2"
  "sizeof ClockQuality_layout = 4"
  "sizeof TLV_layout = 4"
  "sizeof PTPText_layout = 1"
  "sizeof PortStats_layout = 256"
  "sizeof PortServiceStats_layout = 80"
  "sizeof unicast_master_entry_layout = 22"
  "sizeof defaultDS_layout = 20"
  "sizeof currentDS_layout = 18"
  "sizeof parentDS_layout = 32"
  "sizeof timePropertiesDS_layout = 4"
  "sizeof portDS_layout = 26"
  "sizeof ScaledNs_layout = 12"
  "sizeof ack_cancel_unicast_xmit_tlv_layout = 6"
  "sizeof cancel_unicast_xmit_tlv_layout = 6"
  "sizeof grant_unicast_xmit_tlv_layout = 12"
  "sizeof alternate_time_offset_indicator_tlv_layout = 20"
  "sizeof alternate_time_offset_name_layout = 2"
  "sizeof alternate_time_offset_properties_layout = 16"
  "sizeof management_tlv_layout = 6"
  "sizeof management_error_status_layout = 12"
  "sizeof authentication_tlv_layout = 10"
  "sizeof nsm_resp_tlv_head_layout = 10"
  "sizeof nsm_resp_tlv_foot_layout = 64"
  "sizeof organization_tlv_layout = 10"
  "sizeof request_unicast_xmit_tlv_layout = 10"
  "sizeof slave_delay_timing_record_layout = 30"
  "sizeof slave_delay_timing_data_tlv_layout = 14"
  "sizeof slave_rx_sync_timing_record_layout = 34"
  "sizeof slave_rx_sync_timing_data_tlv_layout = 14"
  "sizeof cmlds_info_np_layout = 16"
  "sizeof follow_up_info_tlv_layout = 32"
  "sizeof ieee_c37_238_2017_tlv_layout = 22"
  "sizeof ieee_c37_238_settings_np_layout = 16"
  "sizeof msg_interval_req_tlv_layout = 16"
  "sizeof time_status_np_layout = 50"
  "sizeof grandmaster_settings_np_layout = 8"
  "sizeof port_ds_np_layout = 8"
  "sizeof subscribe_events_np_layout = 66"
  "sizeof port_properties_np_layout = 13"
  "sizeof port_hwclock_np_layout = 16"
  "sizeof port_stats_np_layout = 266"
  "sizeof port_service_stats_np_layout = 90"
  "sizeof unicast_master_table_np_layout = 2"
  "sizeof msg_interface_rate_tlv_layout = 22"
  "sizeof ptp_header_layout = 34"
  "sizeof announce_msg_layout = 64"
  "sizeof sync_msg_layout = 44"
  "sizeof delay_req_msg_layout = 44"
  "sizeof follow_up_msg_layout = 44"
  "sizeof delay_resp_msg_layout = 54"
  "sizeof pdelay_req_msg_layout = 54"
  "sizeof pdelay_resp_msg_layout = 54"
  "sizeof pdelay_resp_fup_msg_layout = 54"
  "sizeof signaling_msg_layout = 44"
  "sizeof management_msg_layout = 48"
  by code_simp+

lemma fld_defaultDS [layout_simps]:
  "fld defaultDS_layout ''numberPorts'' = (2, 2)"
  "fld defaultDS_layout ''clockQuality.offsetScaledLogVariance'' = (7, 2)"
  by code_simp+

lemma fld_currentDS [layout_simps]:
  "fld currentDS_layout ''stepsRemoved'' = (0, 2)"
  "fld currentDS_layout ''offsetFromMaster'' = (2, 8)"
  "fld currentDS_layout ''meanPathDelay'' = (10, 8)"
  by code_simp+

lemma fld_parentDS [layout_simps]:
  "fld parentDS_layout ''parentPortIdentity.portNumber'' = (8, 2)"
  "fld parentDS_layout ''observedParentOffsetScaledLogVariance'' = (12, 2)"
  "fld parentDS_layout ''observedParentClockPhaseChangeRate'' = (14, 4)"
  "fld parentDS_layout ''grandmasterClockQuality.offsetScaledLogVariance'' = (21, 2)"
  by code_simp+

lemma fld_timePropertiesDS [layout_simps]:
  "fld timePropertiesDS_layout ''currentUtcOffset'' = (0, 2)"
  by code_simp+

lemma fld_portDS [layout_simps]:
  "fld portDS_layout ''portIdentity.portNumber'' = (8, 2)"
  "fld portDS_layout ''peerMeanPathDelay'' = (12, 8)"
  by code_simp+

lemma fld_PortAddress [layout_simps]:
  "fld PortAddress_layout ''networkProtocol'' = (0, 2)"
  "fld PortAddress_layout ''addressLength'' = (2, 2)"
  by code_simp+

lemma fld_PhysicalAddress [layout_simps]:
  "fld PhysicalAddress_layout ''length'' = (0, 2)"
  by code_simp+

lemma fld_PTPText [layout_simps]:
  "fld PTPText_layout ''length'' = (0, 1)"
  by code_simp+

lemma fld_TLV [layout_simps]:
  "fld TLV_layout ''type'' = (0, 2)"
  "fld TLV_layout ''length'' = (2, 2)"
  by code_simp+

lemma fld_Timestamp [layout_simps]:
  "fld Timestamp_layout ''seconds_lsb'' = (2, 4)"
  "fld Timestamp_layout ''seconds_msb'' = (0, 2)"
  "fld Timestamp_layout ''nanoseconds'' = (6, 4)"
  by code_simp+

lemma fld_ScaledNs [layout_simps]:
  "fld ScaledNs_layout ''nanoseconds_msb'' = (0, 2)"
  "fld ScaledNs_layout ''nanoseconds_lsb'' = (2, 8)"
  "fld ScaledNs_layout ''fractional_nanoseconds'' = (10, 2)"
  by code_simp+

lemma fld_unicast_master_entry [layout_simps]:
  "fld unicast_master_entry_layout ''port_identity.portNumber'' = (8, 2)"
  "fld unicast_master_entry_layout ''clock_quality.offsetScaledLogVariance'' = (12, 2)"
  "fld unicast_master_entry_layout ''address.networkProtocol'' = (18, 2)"
  "fld unicast_master_entry_layout ''address.addressLength'' = (20, 2)"
  by code_simp+

lemma fld_alternate_time_offset_indicator_tlv [layout_simps]:
  "fld alternate_time_offset_indicator_tlv_layout ''currentOffset'' = (5, 4)"
  "fld alternate_time_offset_indicator_tlv_layout ''jumpSeconds'' = (9, 4)"
  "fld alternate_time_offset_indicator_tlv_layout ''timeOfNextJump.seconds_msb'' = (13, 2)"
  "fld alternate_time_offset_indicator_tlv_layout ''timeOfNextJump.seconds_lsb'' = (15, 4)"
  "fld alternate_time_offset_indicator_tlv_layout ''displayName.length'' = (19, 1)"
  by code_simp+

lemma fld_alternate_time_offset_properties [layout_simps]:
  "fld alternate_time_offset_properties_layout ''currentOffset'' = (1, 4)"
  "fld alternate_time_offset_properties_layout ''jumpSeconds'' = (5, 4)"
  "fld alternate_time_offset_properties_layout ''timeOfNextJump.seconds_msb'' = (9, 2)"
  "fld alternate_time_offset_properties_layout ''timeOfNextJump.seconds_lsb'' = (11, 4)"
  by code_simp+

lemma fld_alternate_time_offset_name [layout_simps]:
  "fld alternate_time_offset_name_layout ''displayName.length'' = (1, 1)"
  by code_simp+

lemma fld_management_tlv [layout_simps]:
  "fld management_tlv_layout ''id'' = (4, 2)"
  by code_simp+

lemma fld_management_error_status [layout_simps]:
  "fld management_error_status_layout ''error'' = (4, 2)"
  "fld management_error_status_layout ''id'' = (6, 2)"
  by code_simp+

lemma fld_authentication_tlv [layout_simps]:
  "fld authentication_tlv_layout ''keyID'' = (6, 4)"
  by code_simp+

lemma fld_nsm_resp_tlv_head [layout_simps]:
  "fld nsm_resp_tlv_head_layout ''parent_addr.networkProtocol'' = (6, 2)"
  "fld nsm_resp_tlv_head_layout ''parent_addr.addressLength'' = (8, 2)"
  by code_simp+

lemma fld_nsm_resp_tlv_foot [layout_simps]:
  "fld nsm_resp_tlv_foot_layout ''parent.parentPortIdentity.portNumber'' = (8, 2)"
  "fld nsm_resp_tlv_foot_layout ''parent.observedParentOffsetScaledLogVariance'' = (12, 2)"
  "fld nsm_resp_tlv_foot_layout ''parent.observedParentClockPhaseChangeRate'' = (14, 4)"
  "fld nsm_resp_tlv_foot_layout ''parent.grandmasterClockQuality.offsetScaledLogVariance'' = (21, 2)"
  "fld nsm_resp_tlv_foot_layout ''current.stepsRemoved'' = (32, 2)"
  "fld nsm_resp_tlv_foot_layout ''current.offsetFromMaster'' = (34, 8)"
  "fld nsm_resp_tlv_foot_layout ''current.meanPathDelay'' = (42, 8)"
  "fld nsm_resp_tlv_foot_layout ''timeprop.currentUtcOffset'' = (50, 2)"
  "fld nsm_resp_tlv_foot_layout ''lastsync.seconds_lsb'' = (56, 4)"
  "fld nsm_resp_tlv_foot_layout ''lastsync.seconds_msb'' = (54, 2)"
  "fld nsm_resp_tlv_foot_layout ''lastsync.nanoseconds'' = (60, 4)"
  by code_simp+

lemma fld_organization_tlv [layout_simps]:
  "fld organization_tlv_layout ''id'' = (4, 3)"
  "fld organization_tlv_layout ''subtype'' = (7, 3)"
  by code_simp+

lemma fld_request_unicast_xmit_tlv [layout_simps]:
  "fld request_unicast_xmit_tlv_layout ''message_type'' = (4, 1)"
  "fld request_unicast_xmit_tlv_layout ''durationField'' = (6, 4)"
  by code_simp+

lemma fld_grant_unicast_xmit_tlv [layout_simps]:
  "fld grant_unicast_xmit_tlv_layout ''message_type'' = (4, 1)"
  "fld grant_unicast_xmit_tlv_layout ''durationField'' = (6, 4)"
  by code_simp+

lemma fld_cancel_unicast_xmit_tlv [layout_simps]:
  "fld cancel_unicast_xmit_tlv_layout ''message_type_flags'' = (4, 1)"
  by code_simp+

lemma fld_ack_cancel_unicast_xmit_tlv [layout_simps]:
  "fld ack_cancel_unicast_xmit_tlv_layout ''message_type_flags'' = (4, 1)"
  by code_simp+

lemma fld_slave_delay_timing_record [layout_simps]:
  "fld slave_delay_timing_record_layout ''sequenceId'' = (0, 2)"
  "fld slave_delay_timing_record_layout ''delayOriginTimestamp.seconds_msb'' = (2, 2)"
  "fld slave_delay_timing_record_layout ''totalCorrectionField'' = (12, 8)"
  "fld slave_delay_timing_record_layout ''delayResponseTimestamp.seconds_msb'' = (20, 2)"
  by code_simp+

lemma fld_slave_delay_timing_data_tlv [layout_simps]:
  "fld slave_delay_timing_data_tlv_layout ''sourcePortIdentity.portNumber'' = (12, 2)"
  by code_simp+

lemma fld_slave_rx_sync_timing_record [layout_simps]:
  "fld slave_rx_sync_timing_record_layout ''sequenceId'' = (0, 2)"
  "fld slave_rx_sync_timing_record_layout ''syncOriginTimestamp.seconds_msb'' = (2, 2)"
  "fld slave_rx_sync_timing_record_layout ''totalCorrectionField'' = (12, 8)"
  "fld slave_rx_sync_timing_record_layout ''scaledCumulativeRateOffset'' = (20, 4)"
  "fld slave_rx_sync_timing_record_layout ''syncEventIngressTimestamp.seconds_msb'' = (24, 2)"
  by code_simp+

lemma fld_slave_rx_sync_timing_data_tlv [layout_simps]:
  "fld slave_rx_sync_timing_data_tlv_layout ''sourcePortIdentity.portNumber'' = (12, 2)"
  by code_simp+

lemma fld_cmlds_info_np [layout_simps]:
  "fld cmlds_info_np_layout ''meanLinkDelay'' = (0, 8)"
  "fld cmlds_info_np_layout ''scaledNeighborRateRatio'' = (8, 4)"
  "fld cmlds_info_np_layout ''as_capable'' = (12, 4)"
  by code_simp+

lemma fld_follow_up_info_tlv [layout_simps]:
  "fld follow_up_info_tlv_layout ''cumulativeScaledRateOffset'' = (10, 4)"
  "fld follow_up_info_tlv_layout ''gmTimeBaseIndicator'' = (14, 2)"
  "fld follow_up_info_tlv_layout ''lastGmPhaseChange.nanoseconds_msb'' = (16, 2)"
  "fld follow_up_info_tlv_layout ''scaledLastGmPhaseChange'' = (28, 4)"
  by code_simp+

lemma fld_ieee_c37_238_2017_tlv [layout_simps]:
  "fld ieee_c37_238_2017_tlv_layout ''grandmasterID'' = (10, 2)"
  "fld ieee_c37_238_2017_tlv_layout ''reserved1'' = (12, 4)"
  "fld ieee_c37_238_2017_tlv_layout ''totalTimeInaccuracy'' = (16, 4)"
  by code_simp+

lemma fld_ieee_c37_238_settings_np [layout_simps]:
  "fld ieee_c37_238_settings_np_layout ''version'' = (0, 2)"
  "fld ieee_c37_238_settings_np_layout ''grandmasterID'' = (2, 2)"
  "fld ieee_c37_238_settings_np_layout ''grandmasterTimeInaccuracy'' = (4, 4)"
  "fld ieee_c37_238_settings_np_layout ''networkTimeInaccuracy'' = (8, 4)"
  "fld ieee_c37_238_settings_np_layout ''totalTimeInaccuracy'' = (12, 4)"
  by code_simp+

lemma fld_time_status_np [layout_simps]:
  "fld time_status_np_layout ''master_offset'' = (0, 8)"
  "fld time_status_np_layout ''ingress_time'' = (8, 8)"
  "fld time_status_np_layout ''cumulativeScaledRateOffset'' = (16, 4)"
  "fld time_status_np_layout ''scaledLastGmPhaseChange'' = (20, 4)"
  "fld time_status_np_layout ''gmTimeBaseIndicator'' = (24, 2)"
  "fld time_status_np_layout ''lastGmPhaseChange.nanoseconds_msb'' = (26, 2)"
  "fld time_status_np_layout ''gmPresent'' = (38, 4)"
  by code_simp+

lemma fld_grandmaster_settings_np [layout_simps]:
  "fld grandmaster_settings_np_layout ''clockQuality.offsetScaledLogVariance'' = (2, 2)"
  "fld grandmaster_settings_np_layout ''utc_offset'' = (4, 2)"
  by code_simp+

lemma fld_port_ds_np [layout_simps]:
  "fld port_ds_np_layout ''neighborPropDelayThresh'' = (0, 4)"
  "fld port_ds_np_layout ''asCapable'' = (4, 4)"
  by code_simp+

lemma fld_subscribe_events_np [layout_simps]:
  "fld subscribe_events_np_layout ''duration'' = (0, 2)"
  by code_simp+

lemma fld_port_properties_np [layout_simps]:
  "fld port_properties_np_layout ''portIdentity.portNumber'' = (8, 2)"
  "fld port_properties_np_layout ''interface.length'' = (12, 1)"
  by code_simp+

lemma fld_port_hwclock_np [layout_simps]:
  "fld port_hwclock_np_layout ''portIdentity.portNumber'' = (8, 2)"
  "fld port_hwclock_np_layout ''phc_index'' = (10, 4)"
  by code_simp+

lemma fld_port_stats_np [layout_simps]:
  "fld port_stats_np_layout ''portIdentity.portNumber'' = (8, 2)"
  by code_simp+

lemma fld_port_service_stats_np [layout_simps]:
  "fld port_service_stats_np_layout ''portIdentity.portNumber'' = (8, 2)"
  by code_simp+

lemma fld_unicast_master_table_np [layout_simps]:
  "fld unicast_master_table_np_layout ''actual_table_size'' = (0, 2)"
  by code_simp+

lemma fld_msg_interface_rate_tlv [layout_simps]:
  "fld msg_interface_rate_tlv_layout ''interfaceBitPeriod'' = (10, 8)"
  "fld msg_interface_rate_tlv_layout ''numberOfBitsBeforeTimestamp'' = (18, 2)"
  "fld msg_interface_rate_tlv_layout ''numberOfBitsAfterTimestamp'' = (20, 2)"
  by code_simp+

lemma fld_ptp_header [layout_simps]:
  "fld ptp_header_layout ''tsmt'' = (0, 1)"
  "fld ptp_header_layout ''ver'' = (1, 1)"
  "fld ptp_header_layout ''messageLength'' = (2, 2)"
  "fld ptp_header_layout ''flagField'' = (6, 2)"
  "fld ptp_header_layout ''correction'' = (8, 8)"
  "fld ptp_header_layout ''sourcePortIdentity.portNumber'' = (28, 2)"
  "fld ptp_header_layout ''sequenceId'' = (30, 2)"
  by code_simp+

lemma fld_announce_msg [layout_simps]:
  "fld announce_msg_layout ''originTimestamp.seconds_msb'' = (34, 2)"
  "fld announce_msg_layout ''currentUtcOffset'' = (44, 2)"
  "fld announce_msg_layout ''grandmasterClockQuality.offsetScaledLogVariance'' = (50, 2)"
  "fld announce_msg_layout ''stepsRemoved'' = (61, 2)"
  by code_simp+

lemma fld_sync_msg [layout_simps]:
  "fld sync_msg_layout ''originTimestamp.seconds_msb'' = (34, 2)"
  by code_simp+

lemma fld_follow_up_msg [layout_simps]:
  "fld follow_up_msg_layout ''preciseOriginTimestamp.seconds_msb'' = (34, 2)"
  by code_simp+

lemma fld_delay_resp_msg [layout_simps]:
  "fld delay_resp_msg_layout ''receiveTimestamp.seconds_msb'' = (34, 2)"
  "fld delay_resp_msg_layout ''requestingPortIdentity.portNumber'' = (52, 2)"
  by code_simp+

lemma fld_pdelay_resp_msg [layout_simps]:
  "fld pdelay_resp_msg_layout ''requestReceiptTimestamp.seconds_msb'' = (34, 2)"
  "fld pdelay_resp_msg_layout ''requestingPortIdentity.portNumber'' = (52, 2)"
  by code_simp+

lemma fld_pdelay_resp_fup_msg [layout_simps]:
  "fld pdelay_resp_fup_msg_layout ''responseOriginTimestamp.seconds_msb'' = (34, 2)"
  "fld pdelay_resp_fup_msg_layout ''requestingPortIdentity.portNumber'' = (52, 2)"
  by code_simp+

lemma fld_signaling_msg [layout_simps]:
  "fld signaling_msg_layout ''targetPortIdentity.portNumber'' = (42, 2)"
  by code_simp+

lemma fld_management_msg [layout_simps]:
  "fld management_msg_layout ''targetPortIdentity.portNumber'' = (42, 2)"
  "fld management_msg_layout ''flags'' = (46, 1)"
  by code_simp+

end
