(* ===== verification/Ptp_Types.thy ===== *)
theory Ptp_Types
  imports Ptp_Prelude
begin

text \<open>
  Identities, addresses and message types that several components share: \<open>ddt.h\<close>, \<open>address.h\<close>,
  the transport kinds of \<open>transport.h\<close>, the message types of \<open>msg.h\<close> and the comparison
  functions \<open>cid_eq\<close>, \<open>pid_eq\<close> and \<open>addreq\<close> of \<open>util.h\<close> and \<open>util.c\<close>.
\<close>

type_synonym ClockIdentity = "u8 list" \<comment> \<open>eight octets\<close>

record PortIdentity =
  clockIdentity :: ClockIdentity
  portNumber :: u16

definition cid_eq :: "ClockIdentity \<Rightarrow> ClockIdentity \<Rightarrow> bool" where
  "cid_eq a b \<longleftrightarrow> a = b"

definition pid_eq :: "PortIdentity \<Rightarrow> PortIdentity \<Rightarrow> bool" where
  "pid_eq a b \<longleftrightarrow> a = b"

datatype transport_type =
    TRANS_UDS | TRANS_UDP_IPV4 | TRANS_UDP_IPV6 | TRANS_IEEE_802_3 | TRANS_DEVICENET
  | TRANS_CONTROLNET | TRANS_PROFINET

text \<open>A socket address is the byte image of \<open>struct sockaddr_storage\<close>; its views
  \<open>sin.sin_addr\<close>, \<open>sin6.sin6_addr\<close> and \<open>sll.sll_addr\<close> are the byte ranges that the Linux
  ABI gives them.\<close>

record address =
  addr_len :: u32
  addr_ss :: "u8 list"

definition sin_addr :: "address \<Rightarrow> u8 list" where
  "sin_addr a = take 4 (drop 4 (addr_ss a))"

definition sin6_addr :: "address \<Rightarrow> u8 list" where
  "sin6_addr a = take 16 (drop 8 (addr_ss a))"

definition sll_addr :: "address \<Rightarrow> u8 list" where
  "sll_addr a = take 6 (drop 12 (addr_ss a))"

definition addreq :: "transport_type \<Rightarrow> address \<Rightarrow> address \<Rightarrow> bool" where
  "addreq ty a b =
    (case ty of
       TRANS_UDP_IPV4 \<Rightarrow> sin_addr a = sin_addr b
     | TRANS_UDP_IPV6 \<Rightarrow> sin6_addr a = sin6_addr b
     | TRANS_IEEE_802_3 \<Rightarrow> sll_addr a = sll_addr b
     | _ \<Rightarrow> False)"

lemma addreq_sym: "addreq ty a b \<Longrightarrow> addreq ty b a"
  by (auto simp: addreq_def split: transport_type.splits)

lemma addreq_trans: "addreq ty a b \<Longrightarrow> addreq ty b c \<Longrightarrow> addreq ty a c"
  by (auto simp: addreq_def split: transport_type.splits)

section \<open>Message types (msg.h)\<close>

abbreviation "SYNC \<equiv> 0x0 :: u8"
abbreviation "DELAY_REQ \<equiv> 0x1 :: u8"
abbreviation "PDELAY_REQ \<equiv> 0x2 :: u8"
abbreviation "PDELAY_RESP \<equiv> 0x3 :: u8"
abbreviation "FOLLOW_UP \<equiv> 0x8 :: u8"
abbreviation "DELAY_RESP \<equiv> 0x9 :: u8"
abbreviation "PDELAY_RESP_FOLLOW_UP \<equiv> 0xA :: u8"
abbreviation "ANNOUNCE \<equiv> 0xB :: u8"
abbreviation "SIGNALING \<equiv> 0xC :: u8"
abbreviation "MANAGEMENT \<equiv> 0xD :: u8"

end
