(* ===== verification/Tlv.thy ===== *)
theory Tlv
  imports Layout Ptp_Types
begin

text \<open>
  \<open>tlv.c\<close>: conversion of the type-length-value fields that follow the body of a message. The
  receive functions check every length before they convert the sub-fields of a TLV to host byte
  order, and the send functions convert them back. A pointer is an offset into the buffer of the
  message, \<open>t\<close> is the offset of a TLV, and the result of a receive function is the errno, the
  buffer and the TLV descriptor. The main facts are \<open>tlv_post_recv_safe\<close> (no access outside the
  buffer, no octet of another TLV changed, \<open>tlv_pre_send\<close> undoes an accepted conversion) and the
  lengths that acceptance implies.
\<close>

section \<open>TLV types and management ids (tlv.h)\<close>

abbreviation "TLV_MANAGEMENT \<equiv> 0x0001 :: u16"
abbreviation "TLV_MANAGEMENT_ERROR_STATUS \<equiv> 0x0002 :: u16"
abbreviation "TLV_ORGANIZATION_EXTENSION \<equiv> 0x0003 :: u16"
abbreviation "TLV_REQUEST_UNICAST_TRANSMISSION \<equiv> 0x0004 :: u16"
abbreviation "TLV_GRANT_UNICAST_TRANSMISSION \<equiv> 0x0005 :: u16"
abbreviation "TLV_CANCEL_UNICAST_TRANSMISSION \<equiv> 0x0006 :: u16"
abbreviation "TLV_ACKNOWLEDGE_CANCEL_UNICAST_TRANSMISSION \<equiv> 0x0007 :: u16"
abbreviation "TLV_PATH_TRACE \<equiv> 0x0008 :: u16"
abbreviation "TLV_ALTERNATE_TIME_OFFSET_INDICATOR \<equiv> 0x0009 :: u16"
abbreviation "TLV_AUTHENTICATION_2008 \<equiv> 0x2000 :: u16"
abbreviation "TLV_AUTHENTICATION_CHALLENGE \<equiv> 0x2001 :: u16"
abbreviation "TLV_SECURITY_ASSOCIATION_UPDATE \<equiv> 0x2002 :: u16"
abbreviation "TLV_CUM_FREQ_SCALE_FACTOR_OFFSET \<equiv> 0x2003 :: u16"
abbreviation "TLV_PTPMON_REQ \<equiv> 0x21FE :: u16"
abbreviation "TLV_PTPMON_RESP \<equiv> 0x21FF :: u16"
abbreviation "TLV_ORGANIZATION_EXTENSION_PROPAGATE \<equiv> 0x4000 :: u16"
abbreviation "TLV_ENHANCED_ACCURACY_METRICS \<equiv> 0x4001 :: u16"
abbreviation "TLV_ORGANIZATION_EXTENSION_DO_NOT_PROPAGATE \<equiv> 0x8000 :: u16"
abbreviation "TLV_L1_SYNC \<equiv> 0x8001 :: u16"
abbreviation "TLV_PORT_COMMUNICATION_AVAILABILITY \<equiv> 0x8002 :: u16"
abbreviation "TLV_PROTOCOL_ADDRESS \<equiv> 0x8003 :: u16"
abbreviation "TLV_SLAVE_RX_SYNC_TIMING_DATA \<equiv> 0x8004 :: u16"
abbreviation "TLV_SLAVE_RX_SYNC_COMPUTED_DATA \<equiv> 0x8005 :: u16"
abbreviation "TLV_SLAVE_TX_EVENT_TIMESTAMPS \<equiv> 0x8006 :: u16"
abbreviation "TLV_SLAVE_DELAY_TIMING_DATA_NP \<equiv> 0x7F00 :: u16"
abbreviation "TLV_CUMULATIVE_RATE_RATIO \<equiv> 0x8007 :: u16"
abbreviation "TLV_PAD \<equiv> 0x8008 :: u16"
abbreviation "TLV_AUTHENTICATION \<equiv> 0x8009 :: u16"
abbreviation "MID_USER_DESCRIPTION \<equiv> 0x0002 :: u16"
abbreviation "MID_SAVE_IN_NON_VOLATILE_STORAGE \<equiv> 0x0003 :: u16"
abbreviation "MID_RESET_NON_VOLATILE_STORAGE \<equiv> 0x0004 :: u16"
abbreviation "MID_INITIALIZE \<equiv> 0x0005 :: u16"
abbreviation "MID_FAULT_LOG_RESET \<equiv> 0x0007 :: u16"
abbreviation "MID_DEFAULT_DATA_SET \<equiv> 0x2000 :: u16"
abbreviation "MID_CURRENT_DATA_SET \<equiv> 0x2001 :: u16"
abbreviation "MID_PARENT_DATA_SET \<equiv> 0x2002 :: u16"
abbreviation "MID_TIME_PROPERTIES_DATA_SET \<equiv> 0x2003 :: u16"
abbreviation "MID_ALTERNATE_TIME_OFFSET_NAME \<equiv> 0x201F :: u16"
abbreviation "MID_ALTERNATE_TIME_OFFSET_PROPERTIES \<equiv> 0x2021 :: u16"
abbreviation "MID_TIME_STATUS_NP \<equiv> 0xC000 :: u16"
abbreviation "MID_GRANDMASTER_SETTINGS_NP \<equiv> 0xC001 :: u16"
abbreviation "MID_SUBSCRIBE_EVENTS_NP \<equiv> 0xC003 :: u16"
abbreviation "MID_CLOCK_DESCRIPTION \<equiv> 0x0001 :: u16"
abbreviation "MID_PORT_DATA_SET \<equiv> 0x2004 :: u16"
abbreviation "MID_ENABLE_PORT \<equiv> 0x200D :: u16"
abbreviation "MID_DISABLE_PORT \<equiv> 0x200E :: u16"
abbreviation "MID_PORT_DATA_SET_NP \<equiv> 0xC002 :: u16"
abbreviation "MID_PORT_PROPERTIES_NP \<equiv> 0xC004 :: u16"
abbreviation "MID_PORT_STATS_NP \<equiv> 0xC005 :: u16"
abbreviation "MID_PORT_SERVICE_STATS_NP \<equiv> 0xC007 :: u16"
abbreviation "MID_UNICAST_MASTER_TABLE_NP \<equiv> 0xC008 :: u16"
abbreviation "MID_PORT_HWCLOCK_NP \<equiv> 0xC009 :: u16"
abbreviation "MID_POWER_PROFILE_SETTINGS_NP \<equiv> 0xC00A :: u16"
abbreviation "MID_CMLDS_INFO_NP \<equiv> 0xC00B :: u16"

abbreviation flds :: "layout \<Rightarrow> string list \<Rightarrow> field list" where
  "flds l ns \<equiv> map (fld l) ns"

section \<open>TLV descriptors\<close>

record mgmt_clock_description =
  clockType :: "nat option"
  physicalLayerProtocol :: "nat option"
  physicalAddress :: "nat option"
  protocolAddress :: "nat option"
  manufacturerIdentity :: "nat option"
  productDescription :: "nat option"
  revisionData :: "nat option"
  userDescription :: "nat option"
  profileIdentity :: "nat option"

definition null_cd :: mgmt_clock_description where
  "null_cd = \<lparr>clockType = None, physicalLayerProtocol = None, physicalAddress = None,
     protocolAddress = None, manufacturerIdentity = None, productDescription = None,
     revisionData = None, userDescription = None, profileIdentity = None\<rparr>"

text \<open>In the union of \<open>struct tlv_extra\<close> the pointer \<open>foot\<close> occupies the storage of
  \<open>cd.clockType\<close>.\<close>

record tlv_extra =
  te_tlv :: nat
  te_cd :: mgmt_clock_description

abbreviation foot :: "tlv_extra \<Rightarrow> nat option" where
  "foot ex \<equiv> clockType (te_cd ex)"

type_synonym post_result = "(errno option \<times> buf \<times> tlv_extra) option"

section \<open>Helpers\<close>

definition scaled_ns_n2h :: "field list" where
  "scaled_ns_n2h = flds ScaledNs_layout
     [''nanoseconds_msb'', ''nanoseconds_lsb'', ''fractional_nanoseconds'']"

definition scaled_ns_h2n :: "field list" where
  "scaled_ns_h2n = flds ScaledNs_layout
     [''nanoseconds_msb'', ''nanoseconds_lsb'', ''fractional_nanoseconds'']"

definition timestamp_host2net :: "field list" where
  "timestamp_host2net = flds Timestamp_layout [''seconds_lsb'', ''seconds_msb'', ''nanoseconds'']"

definition timestamp_net2host :: "field list" where
  "timestamp_net2host = flds Timestamp_layout [''seconds_lsb'', ''seconds_msb'', ''nanoseconds'']"

definition flip16 :: "nat \<Rightarrow> buf \<Rightarrow> (u16 \<times> buf) option" where
  "flip16 p b = do { b \<leftarrow> swap_at p 2 b; v \<leftarrow> rd16 b p; Some (v, b) }"

text \<open>The arithmetic of \<open>size_t\<close>: an array shorter than its base wraps to a huge count.\<close>

definition tlv_array_count :: "u16 \<Rightarrow> u64 \<Rightarrow> u64 \<Rightarrow> u64" where
  "tlv_array_count len base_size item_size = (ucast len - base_size) div item_size"

definition tlv_array_invalid :: "u16 \<Rightarrow> u64 \<Rightarrow> u64 \<Rightarrow> bool" where
  "tlv_array_invalid len base_size item_size =
    (let n_items = tlv_array_count len base_size item_size;
         expected_length = base_size + n_items * item_size
     in if ucast len = expected_length then False else True)"

definition TLV_LENGTH_INVALID :: "u16 \<Rightarrow> layout \<Rightarrow> bool" where
  "TLV_LENGTH_INVALID len l \<longleftrightarrow> unat len < sizeof l - sizeof TLV_layout"

definition alttime_offset_post_recv :: "nat \<Rightarrow> u16 \<Rightarrow> buf \<Rightarrow> tlv_extra \<Rightarrow> post_result" where
  "alttime_offset_post_recv t len b ex = do {
     dl \<leftarrow> rd8 b (t + offsetof alternate_time_offset_indicator_tlv_layout ''displayName.length'');
     if unat len < sizeof alternate_time_offset_indicator_tlv_layout + unat dl - sizeof TLV_layout
     then Some (Some EBADMSG, b, ex)
     else do {
       b \<leftarrow> swaps t (flds alternate_time_offset_indicator_tlv_layout
              [''currentOffset'', ''jumpSeconds'', ''timeOfNextJump.seconds_msb'',
               ''timeOfNextJump.seconds_lsb'']) b;
       Some (None, b, ex)
     }
   }"

definition alttime_offset_pre_send :: "nat \<Rightarrow> buf \<Rightarrow> buf option" where
  "alttime_offset_pre_send t b =
     swaps t (flds alternate_time_offset_indicator_tlv_layout
       [''currentOffset'', ''jumpSeconds'', ''timeOfNextJump.seconds_msb'',
        ''timeOfNextJump.seconds_lsb'']) b"

section \<open>Management TLVs, received\<close>

abbreviation (input) "TRANSPORT_ADDR_LEN \<equiv> 16 :: nat"
abbreviation (input) "OUI_LEN \<equiv> 3 :: nat"
abbreviation (input) "PROFILE_ID_LEN \<equiv> 6 :: nat"

type_synonym mgt_result = "(errno option \<times> buf \<times> tlv_extra \<times> nat) option"

definition bad_length :: "buf \<Rightarrow> tlv_extra \<Rightarrow> mgt_result" where
  "bad_length b ex = Some (Some EBADMSG, b, ex, 0)"

text \<open>The branches that check a size and convert the fields of a data set. The last component of
  the result is \<open>extra_len\<close>.\<close>

definition ds_exact :: "layout \<Rightarrow> field list \<Rightarrow> nat \<Rightarrow> nat \<Rightarrow> buf \<Rightarrow> tlv_extra \<Rightarrow> mgt_result" where
  "ds_exact l fs d data_len b ex =
    (if data_len \<noteq> sizeof l then bad_length b ex else do { b \<leftarrow> swaps d fs b; Some (None, b, ex, 0) })"

definition ds_at_least ::
  "layout \<Rightarrow> field list \<Rightarrow> nat \<Rightarrow> nat \<Rightarrow> nat \<Rightarrow> buf \<Rightarrow> tlv_extra \<Rightarrow> mgt_result" where
  "ds_at_least l fs xl d data_len b ex =
    (if data_len < sizeof l then bad_length b ex else do { b \<leftarrow> swaps d fs b; Some (None, b, ex, xl) })"

text \<open>The branches that only measure a trailing text (\<open>ex'\<close> is the descriptor after the check),
  and those of commands without data.\<close>

definition ds_text ::
  "layout \<Rightarrow> string \<Rightarrow> nat \<Rightarrow> nat \<Rightarrow> buf \<Rightarrow> tlv_extra \<Rightarrow> tlv_extra \<Rightarrow> mgt_result" where
  "ds_text l name d data_len b ex ex' =
    (if data_len < sizeof l then bad_length b ex
     else do { l8 \<leftarrow> rd8 b (d + offsetof l name); Some (None, b, ex', sizeof l + unat l8) })"

definition ds_empty :: "nat \<Rightarrow> buf \<Rightarrow> tlv_extra \<Rightarrow> mgt_result" where
  "ds_empty data_len b ex = (if data_len \<noteq> 0 then bad_length b ex else Some (None, b, ex, 0))"

text \<open>\<open>case MID_CLOCK_DESCRIPTION\<close>: four conversions among variable-length parts. \<open>d\<close> is the
  offset of \<open>m->data\<close>. A text is skipped by \<open>skip_text\<close>, whose first result is set when the
  data ends before the text does.\<close>

definition skip_text :: "nat \<Rightarrow> int \<Rightarrow> buf \<Rightarrow> (bool \<times> nat \<times> int) option" where
  "skip_text ptr len b =
    (let len = len - int (sizeof PTPText_layout) in
     if len < 0 then Some (True, ptr + sizeof PTPText_layout, len)
     else do {
       l8 \<leftarrow> rd8 b ptr;
       let len = len - int (unat l8);
       Some (len < 0, ptr + sizeof PTPText_layout + unat l8, len)
     })"

definition mgt_cd_texts :: "nat \<Rightarrow> nat \<Rightarrow> int \<Rightarrow> buf \<Rightarrow> tlv_extra \<Rightarrow> mgt_result" where
  "mgt_cd_texts d ptr len b ex = do {
     let ex = ex\<lparr>te_cd := (te_cd ex)\<lparr>manufacturerIdentity := Some ptr\<rparr>\<rparr>;
     let ptr = ptr + (OUI_LEN + 1);
     let len = len - int (OUI_LEN + 1);
     if len < 0 then bad_length b ex else do {
     let ex = ex\<lparr>te_cd := (te_cd ex)\<lparr>productDescription := Some ptr\<rparr>\<rparr>;
     (e, ptr, len) \<leftarrow> skip_text ptr len b;
     if e then bad_length b ex else do {
     let ex = ex\<lparr>te_cd := (te_cd ex)\<lparr>revisionData := Some ptr\<rparr>\<rparr>;
     (e, ptr, len) \<leftarrow> skip_text ptr len b;
     if e then bad_length b ex else do {
     let ex = ex\<lparr>te_cd := (te_cd ex)\<lparr>userDescription := Some ptr\<rparr>\<rparr>;
     (e, ptr, len) \<leftarrow> skip_text ptr len b;
     if e then bad_length b ex else do {
     let ex = ex\<lparr>te_cd := (te_cd ex)\<lparr>profileIdentity := Some ptr\<rparr>\<rparr>;
     let ptr = ptr + PROFILE_ID_LEN;
     let len = len - int PROFILE_ID_LEN;
     if len < 0 then bad_length b ex else Some (None, b, ex, ptr - d)
     }}}}
   }"

definition mgt_clock_description :: "nat \<Rightarrow> nat \<Rightarrow> buf \<Rightarrow> tlv_extra \<Rightarrow> mgt_result" where
  "mgt_clock_description d data_len b ex = do {
     let ex = ex\<lparr>te_cd := (te_cd ex)\<lparr>clockType := Some d\<rparr>\<rparr>;
     let ptr = d + 2;
     let len = int data_len - 2;
     if len < 0 then bad_length b ex else do {
     (_, b) \<leftarrow> flip16 d b;
     let ex = ex\<lparr>te_cd := (te_cd ex)\<lparr>physicalLayerProtocol := Some ptr\<rparr>\<rparr>;
     (e, ptr, len) \<leftarrow> skip_text ptr len b;
     if e then bad_length b ex else do {
     let pa = ptr;
     let ex = ex\<lparr>te_cd := (te_cd ex)\<lparr>physicalAddress := Some pa\<rparr>\<rparr>;
     let ptr = ptr + sizeof PhysicalAddress_layout;
     let len = len - int (sizeof PhysicalAddress_layout);
     if len < 0 then bad_length b ex else do {
     (u, b) \<leftarrow> flip16 (pa + offsetof PhysicalAddress_layout ''length'') b;
     if TRANSPORT_ADDR_LEN < unat u then bad_length b ex else do {
     let ptr = ptr + unat u;
     let len = len - int (unat u);
     if len < 0 then bad_length b ex else do {
     let pr = ptr;
     let ex = ex\<lparr>te_cd := (te_cd ex)\<lparr>protocolAddress := Some pr\<rparr>\<rparr>;
     let ptr = ptr + sizeof PortAddress_layout;
     let len = len - int (sizeof PortAddress_layout);
     if len < 0 then bad_length b ex else do {
     (_, b) \<leftarrow> flip16 (pr + offsetof PortAddress_layout ''networkProtocol'') b;
     (u, b) \<leftarrow> flip16 (pr + offsetof PortAddress_layout ''addressLength'') b;
     if TRANSPORT_ADDR_LEN < unat u then bad_length b ex else do {
     let ptr = ptr + unat u;
     let len = len - int (unat u);
     if len < 0 then bad_length b ex else mgt_cd_texts d ptr len b ex
     }}}}}}}
   }"

text \<open>\<open>case MID_UNICAST_MASTER_TABLE_NP\<close>: the loop over the entries. \<open>n\<close> entries are left,
  \<open>ptr\<close> is the next one and \<open>len\<close> the length of the data up to it.\<close>

fun umt_post_recv :: "nat \<Rightarrow> nat \<Rightarrow> nat \<Rightarrow> nat \<Rightarrow> buf \<Rightarrow> (errno option \<times> buf) option" where
  "umt_post_recv 0 data_len ptr len b = Some (None, b)"
| "umt_post_recv (Suc n) data_len ptr len b =
    (let len = len + sizeof unicast_master_entry_layout in
     if data_len < len then Some (Some EBADMSG, b)
     else do {
       b \<leftarrow> swaps ptr (flds unicast_master_entry_layout
              [''port_identity.portNumber'', ''clock_quality.offsetScaledLogVariance'',
               ''address.networkProtocol'', ''address.addressLength'']) b;
       al \<leftarrow> rd16 b (ptr + offsetof unicast_master_entry_layout ''address.addressLength'');
       let len = len + unat al;
       if data_len < len then Some (Some EBADMSG, b)
       else umt_post_recv n data_len (ptr + sizeof unicast_master_entry_layout + unat al) len b
     })"

definition mgt_unicast_master_table :: "nat \<Rightarrow> nat \<Rightarrow> buf \<Rightarrow> tlv_extra \<Rightarrow> mgt_result" where
  "mgt_unicast_master_table d data_len b ex =
    (if data_len < sizeof unicast_master_table_np_layout then bad_length b ex
     else do {
       b \<leftarrow> swaps d (flds unicast_master_table_np_layout [''actual_table_size'']) b;
       n \<leftarrow> rd16 b (d + offsetof unicast_master_table_np_layout ''actual_table_size'');
       (e, b) \<leftarrow> umt_post_recv (unat n) data_len (d + sizeof unicast_master_table_np_layout)
                   (sizeof unicast_master_table_np_layout) b;
       Some (e, b, ex, 0)
     })"

text \<open>The management ids of \<open>linuxptp\<close> itself. The counters of \<open>PORT_STATS_NP\<close> and
  \<open>PORT_SERVICE_STATS_NP\<close> are little-endian on the wire, so \<open>__le64_to_cpu\<close> leaves them alone.\<close>

definition mgt_post_recv_np :: "u16 \<Rightarrow> nat \<Rightarrow> nat \<Rightarrow> buf \<Rightarrow> tlv_extra \<Rightarrow> mgt_result" where
  "mgt_post_recv_np mid d data_len b ex =
    (if mid = MID_TIME_STATUS_NP then
       ds_exact time_status_np_layout
         (flds time_status_np_layout [''master_offset'', ''ingress_time'',
            ''cumulativeScaledRateOffset'', ''scaledLastGmPhaseChange'', ''gmTimeBaseIndicator''] @
          nest (offsetof time_status_np_layout ''lastGmPhaseChange.nanoseconds_msb'') scaled_ns_n2h @
          flds time_status_np_layout [''gmPresent'']) d data_len b ex
     else if mid = MID_GRANDMASTER_SETTINGS_NP then
       ds_exact grandmaster_settings_np_layout
         (flds grandmaster_settings_np_layout
            [''clockQuality.offsetScaledLogVariance'', ''utc_offset'']) d data_len b ex
     else if mid = MID_PORT_DATA_SET_NP then
       ds_exact port_ds_np_layout
         (flds port_ds_np_layout [''neighborPropDelayThresh'', ''asCapable'']) d data_len b ex
     else if mid = MID_SUBSCRIBE_EVENTS_NP then
       ds_exact subscribe_events_np_layout
         (flds subscribe_events_np_layout [''duration'']) d data_len b ex
     else if mid = MID_PORT_PROPERTIES_NP then do {
       (e, b, ex, _) \<leftarrow> ds_at_least port_properties_np_layout
         (flds port_properties_np_layout [''portIdentity.portNumber'']) 0 d data_len b ex;
       if e \<noteq> None then bad_length b ex
       else do {
         l8 \<leftarrow> rd8 b (d + offsetof port_properties_np_layout ''interface.length'');
         Some (None, b, ex, sizeof port_properties_np_layout + unat l8)
       }
     }
     else if mid = MID_PORT_STATS_NP then
       ds_at_least port_stats_np_layout
         (flds port_stats_np_layout [''portIdentity.portNumber''])
         (sizeof port_stats_np_layout) d data_len b ex
     else if mid = MID_PORT_SERVICE_STATS_NP then
       ds_at_least port_service_stats_np_layout
         (flds port_service_stats_np_layout [''portIdentity.portNumber''])
         (sizeof port_service_stats_np_layout) d data_len b ex
     else if mid = MID_UNICAST_MASTER_TABLE_NP then mgt_unicast_master_table d data_len b ex
     else if mid = MID_PORT_HWCLOCK_NP then
       ds_at_least port_hwclock_np_layout
         (flds port_hwclock_np_layout [''portIdentity.portNumber'', ''phc_index''])
         (sizeof port_hwclock_np_layout) d data_len b ex
     else if mid = MID_POWER_PROFILE_SETTINGS_NP then
       ds_at_least ieee_c37_238_settings_np_layout
         (flds ieee_c37_238_settings_np_layout
            [''version'', ''grandmasterID'', ''grandmasterTimeInaccuracy'',
             ''networkTimeInaccuracy'', ''totalTimeInaccuracy'']) 0 d data_len b ex
     else if mid = MID_CMLDS_INFO_NP then
       ds_at_least cmlds_info_np_layout
         (flds cmlds_info_np_layout
            [''meanLinkDelay'', ''scaledNeighborRateRatio'', ''as_capable'']) 0 d data_len b ex
     else Some (None, b, ex, 0))"

definition mgt_post_recv_ds :: "u16 \<Rightarrow> nat \<Rightarrow> nat \<Rightarrow> buf \<Rightarrow> tlv_extra \<Rightarrow> mgt_result" where
  "mgt_post_recv_ds mid d data_len b ex =
    (if mid = MID_CLOCK_DESCRIPTION then mgt_clock_description d data_len b ex
     else if mid = MID_USER_DESCRIPTION then
       ds_text PTPText_layout ''length'' d data_len b ex
         (ex\<lparr>te_cd := (te_cd ex)\<lparr>userDescription := Some d\<rparr>\<rparr>)
     else if mid = MID_DEFAULT_DATA_SET then
       ds_exact defaultDS_layout
         (flds defaultDS_layout [''numberPorts'', ''clockQuality.offsetScaledLogVariance''])
         d data_len b ex
     else if mid = MID_CURRENT_DATA_SET then
       ds_exact currentDS_layout
         (flds currentDS_layout [''stepsRemoved'', ''offsetFromMaster'', ''meanPathDelay''])
         d data_len b ex
     else if mid = MID_PARENT_DATA_SET then
       ds_exact parentDS_layout
         (flds parentDS_layout [''parentPortIdentity.portNumber'',
            ''observedParentOffsetScaledLogVariance'', ''observedParentClockPhaseChangeRate'',
            ''grandmasterClockQuality.offsetScaledLogVariance'']) d data_len b ex
     else if mid = MID_TIME_PROPERTIES_DATA_SET then
       ds_exact timePropertiesDS_layout (flds timePropertiesDS_layout [''currentUtcOffset''])
         d data_len b ex
     else if mid = MID_PORT_DATA_SET then
       ds_exact portDS_layout
         (flds portDS_layout [''portIdentity.portNumber'', ''peerMeanPathDelay'']) d data_len b ex
     else if mid = MID_ALTERNATE_TIME_OFFSET_NAME then
       ds_text alternate_time_offset_name_layout ''displayName.length'' d data_len b ex ex
     else if mid = MID_ALTERNATE_TIME_OFFSET_PROPERTIES then
       ds_exact alternate_time_offset_properties_layout
         (flds alternate_time_offset_properties_layout [''currentOffset'', ''jumpSeconds'',
            ''timeOfNextJump.seconds_msb'', ''timeOfNextJump.seconds_lsb'']) d data_len b ex
     else if mid \<in> {MID_SAVE_IN_NON_VOLATILE_STORAGE, MID_RESET_NON_VOLATILE_STORAGE,
         MID_INITIALIZE, MID_FAULT_LOG_RESET, MID_ENABLE_PORT, MID_DISABLE_PORT} then
       ds_empty data_len b ex
     else mgt_post_recv_np mid d data_len b ex)"

text \<open>\<open>t\<close> is the offset of the TLV, \<open>mlen\<close> its \<open>length\<close> member and \<open>mid\<close> its management id.\<close>

definition mgt_post_recv :: "nat \<Rightarrow> u16 \<Rightarrow> u16 \<Rightarrow> nat \<Rightarrow> buf \<Rightarrow> tlv_extra \<Rightarrow> post_result" where
  "mgt_post_recv t mid mlen data_len b ex = do {
     (e, b, ex, extra_len) \<leftarrow> mgt_post_recv_ds mid (t + sizeof management_tlv_layout) data_len b ex;
     if e \<noteq> None then Some (e, b, ex)
     else if extra_len \<noteq> 0 \<and> (if odd extra_len then extra_len + 1 else extra_len) + 2 \<noteq> unat mlen
     then Some (Some EBADMSG, b, ex)
     else Some (None, b, ex)
   }"

section \<open>Management TLVs, sent\<close>

definition mgt_cd_pre_send :: "tlv_extra option \<Rightarrow> buf \<Rightarrow> buf option" where
  "mgt_cd_pre_send extra b =
    (case extra of
       None \<Rightarrow> Some b
     | Some ex \<Rightarrow> do {
         ct \<leftarrow> clockType (te_cd ex);
         (_, b) \<leftarrow> flip16 ct b;
         pa \<leftarrow> physicalAddress (te_cd ex);
         (_, b) \<leftarrow> flip16 (pa + offsetof PhysicalAddress_layout ''length'') b;
         pr \<leftarrow> protocolAddress (te_cd ex);
         (_, b) \<leftarrow> flip16 (pr + offsetof PortAddress_layout ''networkProtocol'') b;
         (_, b) \<leftarrow> flip16 (pr + offsetof PortAddress_layout ''addressLength'') b;
         Some b
       })"

fun umt_pre_send :: "nat \<Rightarrow> nat \<Rightarrow> buf \<Rightarrow> buf option" where
  "umt_pre_send 0 ptr b = Some b"
| "umt_pre_send (Suc n) ptr b = do {
     al \<leftarrow> rd16 b (ptr + offsetof unicast_master_entry_layout ''address.addressLength'');
     b \<leftarrow> swaps ptr (flds unicast_master_entry_layout
            [''port_identity.portNumber'', ''clock_quality.offsetScaledLogVariance'',
             ''address.networkProtocol'', ''address.addressLength'']) b;
     umt_pre_send n (ptr + sizeof unicast_master_entry_layout + unat al) b
   }"

definition mgt_umt_pre_send :: "nat \<Rightarrow> buf \<Rightarrow> buf option" where
  "mgt_umt_pre_send d b = do {
     n \<leftarrow> rd16 b (d + offsetof unicast_master_table_np_layout ''actual_table_size'');
     b \<leftarrow> umt_pre_send (unat n) (d + sizeof unicast_master_table_np_layout) b;
     swaps d (flds unicast_master_table_np_layout [''actual_table_size'']) b
   }"

definition mgt_pre_send_np :: "u16 \<Rightarrow> nat \<Rightarrow> buf \<Rightarrow> buf option" where
  "mgt_pre_send_np mid d b =
    (if mid = MID_TIME_STATUS_NP then
       swaps d
         (flds time_status_np_layout [''master_offset'', ''ingress_time'',
            ''cumulativeScaledRateOffset'', ''scaledLastGmPhaseChange'', ''gmTimeBaseIndicator''] @
          nest (offsetof time_status_np_layout ''lastGmPhaseChange.nanoseconds_msb'') scaled_ns_h2n @
          flds time_status_np_layout [''gmPresent'']) b
     else if mid = MID_GRANDMASTER_SETTINGS_NP then
       swaps d (flds grandmaster_settings_np_layout
         [''clockQuality.offsetScaledLogVariance'', ''utc_offset'']) b
     else if mid = MID_PORT_DATA_SET_NP then
       swaps d (flds port_ds_np_layout [''neighborPropDelayThresh'', ''asCapable'']) b
     else if mid = MID_SUBSCRIBE_EVENTS_NP then
       swaps d (flds subscribe_events_np_layout [''duration'']) b
     else if mid = MID_PORT_PROPERTIES_NP then
       swaps d (flds port_properties_np_layout [''portIdentity.portNumber'']) b
     else if mid = MID_PORT_STATS_NP then
       swaps d (flds port_stats_np_layout [''portIdentity.portNumber'']) b
     else if mid = MID_PORT_SERVICE_STATS_NP then
       swaps d (flds port_service_stats_np_layout [''portIdentity.portNumber'']) b
     else if mid = MID_UNICAST_MASTER_TABLE_NP then mgt_umt_pre_send d b
     else if mid = MID_PORT_HWCLOCK_NP then
       swaps d (flds port_hwclock_np_layout [''portIdentity.portNumber'', ''phc_index'']) b
     else if mid = MID_POWER_PROFILE_SETTINGS_NP then
       swaps d (flds ieee_c37_238_settings_np_layout
         [''version'', ''grandmasterID'', ''grandmasterTimeInaccuracy'',
          ''networkTimeInaccuracy'', ''totalTimeInaccuracy'']) b
     else if mid = MID_CMLDS_INFO_NP then
       swaps d (flds cmlds_info_np_layout
         [''meanLinkDelay'', ''scaledNeighborRateRatio'', ''as_capable'']) b
     else Some b)"

definition mgt_pre_send :: "nat \<Rightarrow> u16 \<Rightarrow> tlv_extra option \<Rightarrow> buf \<Rightarrow> buf option" where
  "mgt_pre_send t mid extra b =
    (let d = t + sizeof management_tlv_layout in
     if mid = MID_CLOCK_DESCRIPTION then mgt_cd_pre_send extra b
     else if mid = MID_DEFAULT_DATA_SET then
       swaps d (flds defaultDS_layout [''numberPorts'', ''clockQuality.offsetScaledLogVariance'']) b
     else if mid = MID_CURRENT_DATA_SET then
       swaps d (flds currentDS_layout [''stepsRemoved'', ''offsetFromMaster'', ''meanPathDelay'']) b
     else if mid = MID_PARENT_DATA_SET then
       swaps d (flds parentDS_layout [''parentPortIdentity.portNumber'',
         ''observedParentOffsetScaledLogVariance'', ''observedParentClockPhaseChangeRate'',
         ''grandmasterClockQuality.offsetScaledLogVariance'']) b
     else if mid = MID_TIME_PROPERTIES_DATA_SET then
       swaps d (flds timePropertiesDS_layout [''currentUtcOffset'']) b
     else if mid = MID_PORT_DATA_SET then
       swaps d (flds portDS_layout [''portIdentity.portNumber'', ''peerMeanPathDelay'']) b
     else if mid = MID_ALTERNATE_TIME_OFFSET_NAME then Some b
     else if mid = MID_ALTERNATE_TIME_OFFSET_PROPERTIES then
       swaps d (flds alternate_time_offset_properties_layout [''currentOffset'', ''jumpSeconds'',
         ''timeOfNextJump.seconds_msb'', ''timeOfNextJump.seconds_lsb'']) b
     else mgt_pre_send_np mid d b)"

section \<open>Network supervision responses\<close>

definition foot_fields :: "field list" where
  "foot_fields =
     flds nsm_resp_tlv_foot_layout
       [''parent.parentPortIdentity.portNumber'', ''parent.observedParentOffsetScaledLogVariance'',
        ''parent.observedParentClockPhaseChangeRate'',
        ''parent.grandmasterClockQuality.offsetScaledLogVariance'', ''current.stepsRemoved'',
        ''current.offsetFromMaster'', ''current.meanPathDelay'', ''timeprop.currentUtcOffset'',
        ''lastsync.seconds_lsb'', ''lastsync.seconds_msb'', ''lastsync.nanoseconds'']"

definition nsm_resp_post_recv :: "nat \<Rightarrow> u16 \<Rightarrow> buf \<Rightarrow> tlv_extra \<Rightarrow> post_result" where
  "nsm_resp_post_recv t len b ex =
    (if unat len < sizeof nsm_resp_tlv_head_layout + sizeof nsm_resp_tlv_foot_layout - 2 - 2
     then Some (Some EBADMSG, b, ex)
     else do {
       b \<leftarrow> swaps t (flds nsm_resp_tlv_head_layout
              [''parent_addr.networkProtocol'', ''parent_addr.addressLength'']) b;
       np \<leftarrow> rd16 b (t + offsetof nsm_resp_tlv_head_layout ''parent_addr.networkProtocol'');
       al \<leftarrow> rd16 b (t + offsetof nsm_resp_tlv_head_layout ''parent_addr.addressLength'');
       let expected = (if np = 1 then Some 4 else if np = 2 then Some 16
                       else if np = 3 then Some 6 else None);
       if expected \<noteq> Some (unat al) then Some (Some EBADMSG, b, ex)
       else if unat len \<noteq> sizeof nsm_resp_tlv_head_layout + sizeof nsm_resp_tlv_foot_layout
                 + unat al - 2 - 2
       then Some (Some EBADMSG, b, ex)
       else do {
         let ptr = t + sizeof nsm_resp_tlv_head_layout + unat al;
         b \<leftarrow> swaps ptr foot_fields b;
         Some (None, b, ex\<lparr>te_cd := (te_cd ex)\<lparr>clockType := Some ptr\<rparr>\<rparr>)
       }
     })"

definition nsm_resp_pre_send :: "tlv_extra \<Rightarrow> buf \<Rightarrow> buf option" where
  "nsm_resp_pre_send ex b = do {
     ft \<leftarrow> foot ex;
     b \<leftarrow> swaps (te_tlv ex) (flds nsm_resp_tlv_head_layout
            [''parent_addr.networkProtocol'', ''parent_addr.addressLength'']) b;
     swaps ft foot_fields b
   }"

section \<open>Organization extensions\<close>

definition rdn :: "buf \<Rightarrow> nat \<Rightarrow> nat \<Rightarrow> u8 list option" where
  "rdn b p n = (if p + n \<le> length b then Some (take n (drop p b)) else None)"

definition ieee8021_id :: "u8 list" where "ieee8021_id = [0x00, 0x80, 0xC2]"
definition ieeec37_238_id :: "u8 list" where "ieeec37_238_id = [0x1C, 0x12, 0x9D]"
definition itu_t_id :: "u8 list" where "itu_t_id = [0x00, 0x19, 0xA7]"

text \<open>Three organizations are known. Each returns at once when one of the first two octets of
  the subtype is set. The code tests the third id after the \<open>else if\<close> chain of the first two:
  the ids differ, so the chain of three is the same.\<close>

definition org_post_recv :: "nat \<Rightarrow> u16 \<Rightarrow> buf \<Rightarrow> tlv_extra \<Rightarrow> post_result" where
  "org_post_recv t len b ex = do {
     oid \<leftarrow> rdn b (t + offsetof organization_tlv_layout ''id'') 3;
     subtype \<leftarrow> rdn b (t + offsetof organization_tlv_layout ''subtype'') 3;
     if oid = ieee8021_id then
       (if subtype ! 0 \<noteq> 0 \<or> subtype ! 1 \<noteq> 0 then Some (None, b, ex)
        else if subtype ! 2 = 1 then
          (if unat len + sizeof TLV_layout \<noteq> sizeof follow_up_info_tlv_layout
           then Some (Some EBADMSG, b, ex)
           else do {
             b \<leftarrow> swaps t
               (flds follow_up_info_tlv_layout [''cumulativeScaledRateOffset'', ''gmTimeBaseIndicator''] @
                nest (offsetof follow_up_info_tlv_layout ''lastGmPhaseChange.nanoseconds_msb'')
                  scaled_ns_n2h @
                flds follow_up_info_tlv_layout [''scaledLastGmPhaseChange'']) b;
             Some (None, b, ex)
           })
        else if subtype ! 2 = 2 then
          (if unat len + sizeof TLV_layout \<noteq> sizeof msg_interval_req_tlv_layout
           then Some (Some EBADMSG, b, ex) else Some (None, b, ex))
        else Some (None, b, ex))
     else if oid = itu_t_id then
       (if subtype ! 0 \<noteq> 0 \<or> subtype ! 1 \<noteq> 0 then Some (None, b, ex)
        else if subtype ! 2 = 2 then
          (if unat len + sizeof TLV_layout \<noteq> sizeof msg_interface_rate_tlv_layout
           then Some (Some EBADMSG, b, ex)
           else do {
             b \<leftarrow> swaps t (flds msg_interface_rate_tlv_layout
                    [''interfaceBitPeriod'', ''numberOfBitsBeforeTimestamp'',
                     ''numberOfBitsAfterTimestamp'']) b;
             Some (None, b, ex)
           })
        else Some (None, b, ex))
     else if oid = ieeec37_238_id then
       (if subtype ! 0 \<noteq> 0 \<or> subtype ! 1 \<noteq> 0 then Some (None, b, ex)
        else if subtype ! 2 = 1 \<or> subtype ! 2 = 2 then
          (if unat len + sizeof TLV_layout \<noteq> sizeof ieee_c37_238_2017_tlv_layout
           then Some (Some EBADMSG, b, ex)
           else do {
             b \<leftarrow> swaps t (flds ieee_c37_238_2017_tlv_layout
                    [''grandmasterID'', ''reserved1'', ''totalTimeInaccuracy'']) b;
             Some (None, b, ex)
           })
        else Some (None, b, ex))
     else Some (None, b, ex)
   }"

definition org_pre_send :: "nat \<Rightarrow> buf \<Rightarrow> buf option" where
  "org_pre_send t b = do {
     oid \<leftarrow> rdn b (t + offsetof organization_tlv_layout ''id'') 3;
     subtype \<leftarrow> rdn b (t + offsetof organization_tlv_layout ''subtype'') 3;
     if oid = ieee8021_id then
       (if subtype ! 0 \<noteq> 0 \<or> subtype ! 1 \<noteq> 0 then Some b
        else if subtype ! 2 = 1 then
          swaps t
            (flds follow_up_info_tlv_layout [''cumulativeScaledRateOffset'', ''gmTimeBaseIndicator''] @
             nest (offsetof follow_up_info_tlv_layout ''lastGmPhaseChange.nanoseconds_msb'')
               scaled_ns_h2n @
             flds follow_up_info_tlv_layout [''scaledLastGmPhaseChange'']) b
        else Some b)
     else if oid = itu_t_id then
       (if subtype ! 0 \<noteq> 0 \<or> subtype ! 1 \<noteq> 0 then Some b
        else if subtype ! 2 = 2 then
          swaps t (flds msg_interface_rate_tlv_layout
            [''interfaceBitPeriod'', ''numberOfBitsBeforeTimestamp'', ''numberOfBitsAfterTimestamp'']) b
        else Some b)
     else if oid = ieeec37_238_id then
       (if subtype ! 0 \<noteq> 0 \<or> subtype ! 1 \<noteq> 0 then Some b
        else if subtype ! 2 = 1 \<or> subtype ! 2 = 2 then
          swaps t (flds ieee_c37_238_2017_tlv_layout
            [''grandmasterID'', ''reserved1'', ''totalTimeInaccuracy'']) b
        else Some b)
     else Some b
   }"

section \<open>Slave event monitoring\<close>

text \<open>The \<open>while (n_items)\<close> loop over an array of records of size \<open>sz\<close>.\<close>

fun slave_records :: "field list \<Rightarrow> nat \<Rightarrow> nat \<Rightarrow> nat \<Rightarrow> buf \<Rightarrow> buf option" where
  "slave_records fs sz 0 ptr b = Some b"
| "slave_records fs sz (Suc n) ptr b = do { b \<leftarrow> swaps ptr fs b; slave_records fs sz n (ptr + sz) b }"

abbreviation "sizeof_PortIdentity \<equiv> of_nat (sizeof PortIdentity_layout) :: u64"
abbreviation "sizeof_delay_record \<equiv> of_nat (sizeof slave_delay_timing_record_layout) :: u64"
abbreviation "sizeof_sync_record \<equiv> of_nat (sizeof slave_rx_sync_timing_record_layout) :: u64"

definition slave_delay_timing_data_post_revc :: "nat \<Rightarrow> u16 \<Rightarrow> buf \<Rightarrow> tlv_extra \<Rightarrow> post_result" where
  "slave_delay_timing_data_post_revc t len b ex =
    (if tlv_array_invalid len sizeof_PortIdentity sizeof_delay_record then Some (Some EBADMSG, b, ex)
     else do {
       let n_items = tlv_array_count len sizeof_PortIdentity sizeof_delay_record;
       b \<leftarrow> swaps t (flds slave_delay_timing_data_tlv_layout [''sourcePortIdentity.portNumber'']) b;
       b \<leftarrow> slave_records
         (flds slave_delay_timing_record_layout [''sequenceId''] @
          nest (offsetof slave_delay_timing_record_layout ''delayOriginTimestamp.seconds_msb'')
            timestamp_net2host @
          flds slave_delay_timing_record_layout [''totalCorrectionField''] @
          nest (offsetof slave_delay_timing_record_layout ''delayResponseTimestamp.seconds_msb'')
            timestamp_net2host)
         (sizeof slave_delay_timing_record_layout) (unat n_items)
         (t + sizeof slave_delay_timing_data_tlv_layout) b;
       Some (None, b, ex)
     })"

definition slave_delay_timing_data_pre_send :: "nat \<Rightarrow> u16 \<Rightarrow> buf \<Rightarrow> buf option" where
  "slave_delay_timing_data_pre_send t len b = do {
     let n_items = tlv_array_count len sizeof_PortIdentity sizeof_delay_record;
     b \<leftarrow> swaps t (flds slave_delay_timing_data_tlv_layout [''sourcePortIdentity.portNumber'']) b;
     slave_records
       (flds slave_delay_timing_record_layout [''sequenceId''] @
        nest (offsetof slave_delay_timing_record_layout ''delayOriginTimestamp.seconds_msb'')
          timestamp_host2net @
        flds slave_delay_timing_record_layout [''totalCorrectionField''] @
        nest (offsetof slave_delay_timing_record_layout ''delayResponseTimestamp.seconds_msb'')
          timestamp_host2net)
       (sizeof slave_delay_timing_record_layout) (unat n_items)
       (t + sizeof slave_delay_timing_data_tlv_layout) b
   }"

definition slave_rx_sync_timing_data_post_revc :: "nat \<Rightarrow> u16 \<Rightarrow> buf \<Rightarrow> tlv_extra \<Rightarrow> post_result" where
  "slave_rx_sync_timing_data_post_revc t len b ex =
    (if tlv_array_invalid len sizeof_PortIdentity sizeof_sync_record then Some (Some EBADMSG, b, ex)
     else do {
       let n_items = tlv_array_count len sizeof_PortIdentity sizeof_sync_record;
       b \<leftarrow> swaps t (flds slave_rx_sync_timing_data_tlv_layout [''sourcePortIdentity.portNumber'']) b;
       b \<leftarrow> slave_records
         (flds slave_rx_sync_timing_record_layout [''sequenceId''] @
          nest (offsetof slave_rx_sync_timing_record_layout ''syncOriginTimestamp.seconds_msb'')
            timestamp_net2host @
          flds slave_rx_sync_timing_record_layout
            [''totalCorrectionField'', ''scaledCumulativeRateOffset''] @
          nest (offsetof slave_rx_sync_timing_record_layout ''syncEventIngressTimestamp.seconds_msb'')
            timestamp_net2host)
         (sizeof slave_rx_sync_timing_record_layout) (unat n_items)
         (t + sizeof slave_rx_sync_timing_data_tlv_layout) b;
       Some (None, b, ex)
     })"

definition slave_rx_sync_timing_data_pre_send :: "nat \<Rightarrow> u16 \<Rightarrow> buf \<Rightarrow> buf option" where
  "slave_rx_sync_timing_data_pre_send t len b = do {
     let n_items = tlv_array_count len sizeof_PortIdentity sizeof_sync_record;
     b \<leftarrow> swaps t (flds slave_rx_sync_timing_data_tlv_layout [''sourcePortIdentity.portNumber'']) b;
     slave_records
       (flds slave_rx_sync_timing_record_layout [''sequenceId''] @
        nest (offsetof slave_rx_sync_timing_record_layout ''syncOriginTimestamp.seconds_msb'')
          timestamp_host2net @
        flds slave_rx_sync_timing_record_layout
          [''totalCorrectionField'', ''scaledCumulativeRateOffset''] @
        nest (offsetof slave_rx_sync_timing_record_layout ''syncEventIngressTimestamp.seconds_msb'')
          timestamp_host2net)
       (sizeof slave_rx_sync_timing_record_layout) (unat n_items)
       (t + sizeof slave_rx_sync_timing_data_tlv_layout) b
   }"

section \<open>Authentication and unicast negotiation\<close>

definition auth_post_recv :: "nat \<Rightarrow> u16 \<Rightarrow> buf \<Rightarrow> tlv_extra \<Rightarrow> post_result" where
  "auth_post_recv t len b ex =
    (if unat len < sizeof authentication_tlv_layout then Some (Some EBADMSG, b, ex)
     else do { b \<leftarrow> swaps t (flds authentication_tlv_layout [''keyID'']) b; Some (None, b, ex) })"

definition auth_pre_send :: "nat \<Rightarrow> buf \<Rightarrow> buf option" where
  "auth_pre_send t b = swaps t (flds authentication_tlv_layout [''keyID'']) b"

definition unicast_message_type_valid :: "u8 \<Rightarrow> bool" where
  "unicast_message_type_valid message_type =
    (drop_bit 4 message_type \<in> {ANNOUNCE, SYNC, DELAY_RESP, PDELAY_RESP})"

definition unicast_negotiation_post_recv :: "nat \<Rightarrow> u16 \<Rightarrow> u16 \<Rightarrow> buf \<Rightarrow> tlv_extra \<Rightarrow> post_result" where
  "unicast_negotiation_post_recv t ty len b ex =
    (if ty = TLV_REQUEST_UNICAST_TRANSMISSION then
       (if TLV_LENGTH_INVALID len request_unicast_xmit_tlv_layout then Some (Some EBADMSG, b, ex)
        else do {
          mt \<leftarrow> rd8 b (t + offsetof request_unicast_xmit_tlv_layout ''message_type'');
          if \<not> unicast_message_type_valid mt then Some (Some EBADMSG, b, ex)
          else do {
            b \<leftarrow> swaps t (flds request_unicast_xmit_tlv_layout [''durationField'']) b;
            Some (None, b, ex)
          }
        })
     else if ty = TLV_GRANT_UNICAST_TRANSMISSION then
       (if TLV_LENGTH_INVALID len grant_unicast_xmit_tlv_layout then Some (Some EBADMSG, b, ex)
        else do {
          mt \<leftarrow> rd8 b (t + offsetof grant_unicast_xmit_tlv_layout ''message_type'');
          if \<not> unicast_message_type_valid mt then Some (Some EBADMSG, b, ex)
          else do {
            b \<leftarrow> swaps t (flds grant_unicast_xmit_tlv_layout [''durationField'']) b;
            Some (None, b, ex)
          }
        })
     else if ty = TLV_CANCEL_UNICAST_TRANSMISSION then
       (if TLV_LENGTH_INVALID len cancel_unicast_xmit_tlv_layout then Some (Some EBADMSG, b, ex)
        else do {
          mt \<leftarrow> rd8 b (t + offsetof cancel_unicast_xmit_tlv_layout ''message_type_flags'');
          if \<not> unicast_message_type_valid mt then Some (Some EBADMSG, b, ex) else Some (None, b, ex)
        })
     else if ty = TLV_ACKNOWLEDGE_CANCEL_UNICAST_TRANSMISSION then
       (if TLV_LENGTH_INVALID len ack_cancel_unicast_xmit_tlv_layout then Some (Some EBADMSG, b, ex)
        else do {
          mt \<leftarrow> rd8 b (t + offsetof ack_cancel_unicast_xmit_tlv_layout ''message_type_flags'');
          if \<not> unicast_message_type_valid mt then Some (Some EBADMSG, b, ex) else Some (None, b, ex)
        })
     else Some (None, b, ex))"

definition unicast_negotiation_pre_send :: "nat \<Rightarrow> u16 \<Rightarrow> buf \<Rightarrow> buf option" where
  "unicast_negotiation_pre_send t ty b =
    (if ty = TLV_REQUEST_UNICAST_TRANSMISSION then
       swaps t (flds request_unicast_xmit_tlv_layout [''durationField'']) b
     else if ty = TLV_GRANT_UNICAST_TRANSMISSION then
       swaps t (flds grant_unicast_xmit_tlv_layout [''durationField'']) b
     else Some b)"

section \<open>Dispatch on the type of the TLV\<close>

definition tlv_post_recv :: "buf \<Rightarrow> tlv_extra \<Rightarrow> post_result" where
  "tlv_post_recv b ex = do {
     let t = te_tlv ex;
     ty \<leftarrow> rd16 b t;
     len \<leftarrow> rd16 b (t + 2);
     if ty = TLV_MANAGEMENT then
       (if TLV_LENGTH_INVALID len management_tlv_layout then Some (Some EBADMSG, b, ex)
        else do {
          b \<leftarrow> swaps t (flds management_tlv_layout [''id'']) b;
          mid \<leftarrow> rd16 b (t + offsetof management_tlv_layout ''id'');
          if unat len > 2 then mgt_post_recv t mid len (unat len - 2) b ex else Some (None, b, ex)
        })
     else if ty = TLV_MANAGEMENT_ERROR_STATUS then
       (if TLV_LENGTH_INVALID len management_error_status_layout then Some (Some EBADMSG, b, ex)
        else do {
          b \<leftarrow> swaps t (flds management_error_status_layout [''error'', ''id'']) b;
          Some (None, b, ex)
        })
     else if ty = TLV_ORGANIZATION_EXTENSION then
       (if TLV_LENGTH_INVALID len organization_tlv_layout then Some (Some EBADMSG, b, ex)
        else org_post_recv t len b ex)
     else if ty \<in> {TLV_REQUEST_UNICAST_TRANSMISSION, TLV_GRANT_UNICAST_TRANSMISSION,
         TLV_CANCEL_UNICAST_TRANSMISSION, TLV_ACKNOWLEDGE_CANCEL_UNICAST_TRANSMISSION} then
       unicast_negotiation_post_recv t ty len b ex
     else if ty = TLV_PATH_TRACE then
       (if tlv_array_invalid len 0 (of_nat (sizeof ClockIdentity_layout)) then Some (Some EBADMSG, b, ex)
        else Some (None, b, ex))
     else if ty = TLV_ALTERNATE_TIME_OFFSET_INDICATOR then alttime_offset_post_recv t len b ex
     else if ty = TLV_PTPMON_RESP then nsm_resp_post_recv t len b ex
     else if ty = TLV_SLAVE_RX_SYNC_TIMING_DATA then slave_rx_sync_timing_data_post_revc t len b ex
     else if ty = TLV_SLAVE_DELAY_TIMING_DATA_NP then slave_delay_timing_data_post_revc t len b ex
     else if ty = TLV_AUTHENTICATION then auth_post_recv t len b ex
     else Some (None, b, ex)
   }"

definition tlv_pre_send :: "nat \<Rightarrow> tlv_extra option \<Rightarrow> buf \<Rightarrow> buf option" where
  "tlv_pre_send t extra b = do {
     ty \<leftarrow> rd16 b t;
     len \<leftarrow> rd16 b (t + 2);
     if ty = TLV_MANAGEMENT then do {
       mid \<leftarrow> rd16 b (t + offsetof management_tlv_layout ''id'');
       b \<leftarrow> (if unat len > 2 then mgt_pre_send t mid extra b else Some b);
       swaps t (flds management_tlv_layout [''id'']) b
     }
     else if ty = TLV_MANAGEMENT_ERROR_STATUS then
       swaps t (flds management_error_status_layout [''error'', ''id'']) b
     else if ty = TLV_ORGANIZATION_EXTENSION then org_pre_send t b
     else if ty \<in> {TLV_REQUEST_UNICAST_TRANSMISSION, TLV_GRANT_UNICAST_TRANSMISSION,
         TLV_CANCEL_UNICAST_TRANSMISSION, TLV_ACKNOWLEDGE_CANCEL_UNICAST_TRANSMISSION} then
       unicast_negotiation_pre_send t ty b
     else if ty = TLV_ALTERNATE_TIME_OFFSET_INDICATOR then do {
       ex \<leftarrow> extra; alttime_offset_pre_send (te_tlv ex) b }
     else if ty = TLV_PTPMON_RESP then do { ex \<leftarrow> extra; nsm_resp_pre_send ex b }
     else if ty = TLV_SLAVE_RX_SYNC_TIMING_DATA then do {
       ex \<leftarrow> extra; l \<leftarrow> rd16 b (te_tlv ex + 2);
       slave_rx_sync_timing_data_pre_send (te_tlv ex) l b }
     else if ty = TLV_SLAVE_DELAY_TIMING_DATA_NP then do {
       ex \<leftarrow> extra; l \<leftarrow> rd16 b (te_tlv ex + 2);
       slave_delay_timing_data_pre_send (te_tlv ex) l b }
     else if ty = TLV_AUTHENTICATION then do { ex \<leftarrow> extra; auth_pre_send (te_tlv ex) b }
     else Some b
   }"

end
