(* ===== verification/Tlv_Safety.thy ===== *)
theory Tlv_Safety
  imports Tlv
begin

text \<open>
  Safety and invertibility of the TLV conversions of \<open>tlv.c\<close>. Each receive function is shown
  \<open>safe\<close> on the octets of its TLV with the matching send function as its inverse, from the simple
  data sets up to the dispatcher \<open>tlv_post_recv\<close>.
\<close>

section \<open>Arrays\<close>

lemma tlv_array_invalid_iff:
  "tlv_array_invalid len base item \<longleftrightarrow> (ucast len - base) mod item \<noteq> 0"
proof -
  let ?x = "ucast len - base"
  have "?x div item * item + ?x mod item = ?x" by (rule div_mult_mod_eq)
  then have "ucast len = base + ?x div item * item + ?x mod item" by (simp add: algebra_simps)
  then have "ucast len = base + ?x div item * item \<longleftrightarrow> ?x mod item = 0"
    by (metis add.right_neutral add_left_cancel)
  then show ?thesis by (simp add: tlv_array_invalid_def tlv_array_count_def Let_def)
qed

lemma unat_ucast16_64 [simp]: "unat (ucast (len :: u16) :: u64) = unat len"
proof -
  have "unat len < 2 ^ 64" using unsigned_less [of len, where ?'a = nat] by simp
  then show ?thesis by (simp add: unsigned_ucast_eq take_bit_nat_eq_self)
qed

text \<open>A length shorter than the base wraps, but the wrapped value is no multiple of the record
  size, so it is refused.\<close>

lemma array_length:
  assumes "\<not> tlv_array_invalid len 10 item" and "item = 30 \<or> item = 34"
  shows "unat len = 10 + unat item * unat (tlv_array_count len 10 item)"
proof -
  let ?x = "ucast len - 10 :: u64"
  have "unat (?x mod item) = 0" using assms(1) by (simp add: tlv_array_invalid_iff)
  then have dvd: "unat ?x mod unat item = 0" by (simp add: unat_mod)
  have x: "unat ?x = (if 10 \<le> unat len then unat len - 10 else 2 ^ 64 + unat len - 10)"
    by (simp add: unat_sub_if_size word_size word_le_nat_alt)
  have "10 \<le> unat len"
  proof (rule ccontr)
    assume "\<not> 10 \<le> unat len"
    then have "(18446744073709551606 + unat len) mod unat item = 0" "unat len < 10"
      using x dvd by simp_all
    moreover have "unat item = 30 \<or> unat item = 34" using assms(2) by auto
    ultimately show False by (elim disjE; simp only:; presburger)
  qed
  then have "unat len = 10 + unat ?x" using x by simp
  moreover have "unat ?x = unat item * (unat ?x div unat item)"
    using dvd mult_div_mod_eq [of "unat item" "unat ?x"] by simp
  ultimately show ?thesis by (simp add: tlv_array_count_def unat_div)
qed

section \<open>Data sets\<close>

lemma within_nest: "within 0 n fs \<Longrightarrow> d + n \<le> hi \<Longrightarrow> within d hi (nest d fs)"
  by (fastforce simp: within_def nest_def)

lemma swaps_in:
  assumes "within 0 n fs" and "d + n \<le> length b"
  shows "swaps d fs b = Some (swl d fs b)"
proof -
  have "within d (d + n) (nest d fs)" using assms(1) by (rule within_nest) simp
  then have "in_buf d fs b" using assms(2) by (subst in_buf_nest) (rule within_in_buf)
  then show ?thesis by (simp add: swaps_swl)
qed

lemma conv_swaps_in:
  assumes "within 0 n fs" and "disjoint_fields fs" and "lo \<le> d" and "d + n \<le> hi" and "hi \<le> length b"
  shows "conv lo hi b (swl d fs b) (swaps d fs)"
proof -
  have "within d hi (nest d fs)" using assms by (intro within_nest)
  then have "conv d hi b (swl d fs b) (swaps d fs)" using assms by (intro conv_swaps)
  then show ?thesis using assms(3) by (rule conv_mono) simp
qed

lemma safe_swaps:
  assumes "within 0 n fs" and "disjoint_fields fs" and "lo \<le> d" and "d + n \<le> hi" and "hi \<le> length b"
  shows "safe lo hi b (do { b \<leftarrow> swaps d fs b; Some (None, b, x) }) (\<lambda>_. swaps d fs)"
proof -
  have "swaps d fs b = Some (swl d fs b)" using assms by (intro swaps_in [of n]) simp_all
  then show ?thesis
    using conv_swaps_in [OF assms] assms(5) by (simp add: safe_accept)
qed

lemma safe_ds_exact:
  assumes "within 0 (sizeof l) fs" and "disjoint_fields fs" and "d + data_len \<le> length b"
  shows "safe d (d + data_len) b (ds_exact l fs d data_len b ex) (\<lambda>_. swaps d fs)"
  unfolding ds_exact_def bad_length_def
  using assms by (intro safe_if safe_reject safe_swaps [of "sizeof l"]) simp_all

lemma safe_ds_at_least:
  assumes "within 0 (sizeof l) fs" and "disjoint_fields fs" and "d + data_len \<le> length b"
  shows "safe d (d + data_len) b (ds_at_least l fs xl d data_len b ex) (\<lambda>_. swaps d fs)"
  unfolding ds_at_least_def bad_length_def
  using assms by (intro safe_if safe_reject safe_swaps [of "sizeof l"]) simp_all

lemma safe_keep: "hi \<le> length b \<Longrightarrow> safe lo hi b (Some (None, b, x)) (\<lambda>_. Some)"
  by (intro safe_accept conv_refl)

section \<open>The unicast master table\<close>

lemma umt_safe:
  assumes "d + data_len \<le> length b" and "ptr = d + len"
  shows "safe ptr (d + data_len) b
    (do { (e, b) \<leftarrow> umt_post_recv n data_len ptr len b; Some (e, b, x) })
    (\<lambda>_. umt_pre_send n ptr)"
  using assms
proof (induction n data_len ptr len b rule: umt_post_recv.induct)
  case (1 data_len ptr len b)
  then show ?case using safe_keep by simp
next
  case (2 n data_len ptr len b)
  let ?fs = "flds unicast_master_entry_layout
    [''port_identity.portNumber'', ''clock_quality.offsetScaledLogVariance'',
     ''address.networkProtocol'', ''address.addressLength'']"
  let ?hi = "d + data_len"
  show ?case
  proof (cases "data_len < len + 22")
    case True
    then show ?thesis by (simp add: layout_simps safe_reject)
  next
    case False
    have w: "within 0 22 ?fs" and dj: "disjoint_fields ?fs" by (simp_all add: layout_simps)
    let ?b1 = "swl ptr ?fs b"
    have sw: "swaps ptr ?fs b = Some ?b1"
      using 2(2,3) False w by (intro swaps_in [of 22]) simp_all
    have c1: "conv ptr (ptr + 22) b ?b1 (swaps ptr ?fs)"
      using 2(2,3) False w dj by (intro conv_swaps_in [of 22]) simp_all
    have f1: "frame ptr (ptr + 22) b ?b1"
      using c1 by (rule conv_frame) (use 2(2,3) False in simp)
    then have l1: "length ?b1 = length b" by (rule frame_length)
    have "ptr + 22 \<le> length ?b1" using 2(2,3) False l1 by simp
    then obtain al where al: "rd16 ?b1 (ptr + 20) = Some al" by (simp add: rd16_def)
    show ?thesis
    proof (cases "data_len < len + 22 + unat al")
      case True
      then show ?thesis
        using False sw al f1 2(2,3)
        by (auto simp: layout_simps intro!: safe_reject intro: frame_mono)
    next
      case ok: False
      let ?p = "ptr + 22 + unat al"
      have "safe ?p ?hi ?b1
          (do { (e, b) \<leftarrow> umt_post_recv n data_len ?p (len + 22 + unat al) ?b1; Some (e, b, x) })
          (\<lambda>_. umt_pre_send n ?p)"
        using "2.IH" False sw al ok 2(2,3) l1 by (simp add: layout_simps)
      then obtain e b2 where r: "umt_post_recv n data_len ?p (len + 22 + unat al) ?b1 = Some (e, b2)"
        and f2: "frame ?p ?hi ?b1 b2"
        and c2: "e = None \<Longrightarrow> conv ?p ?hi ?b1 b2 (umt_pre_send n ?p)"
        unfolding safe_def by (auto split: bind_splits)
      have eq: "umt_post_recv (Suc n) data_len ptr len b = Some (e, b2)"
        using False sw al ok r by (simp add: layout_simps)
      have fr: "frame ptr ?hi b b2"
      proof (rule frame_trans)
        show "frame ptr ?hi b ?b1" using f1 by (rule frame_mono) (use 2(3) False in simp_all)
        show "frame ptr ?hi ?b1 b2" using f2 by (rule frame_mono) simp_all
      qed
      have "conv ptr ?hi b b2 (umt_pre_send (Suc n) ptr)" if e: "e = None"
      proof -
        have "conv ptr ?p b ?b1 (swaps ptr ?fs)" using c1 by (rule conv_mono) simp_all
        from this c2 [OF e]
        have "conv ptr ?hi b b2 (\<lambda>c. do { c \<leftarrow> swaps ptr ?fs c; umt_pre_send n ?p c })"
          by (rule conv_seq(1)) (use 2(2,3) ok in linarith)+
        then show ?thesis
        proof (rule conv_cong)
          fix c
          assume "agree ptr ?hi b2 c"
          then have "rd16 c (ptr + 20) = rd16 b2 (ptr + 20)"
            by (rule agree_rd16) (use 2(2,3) False in linarith)+
          also have "\<dots> = rd16 ?b1 (ptr + 20)"
            by (rule agree_rd16 [OF frame_agree [OF f2, of "ptr + 22" ptr]]) simp_all
          finally show "umt_pre_send (Suc n) ptr c =
              (do { c \<leftarrow> swaps ptr ?fs c; umt_pre_send n ?p c })"
            using al by (simp add: layout_simps)
        qed
      qed
      then show ?thesis unfolding safe_def using eq fr by simp
    qed
  qed
qed

section \<open>Clock descriptions\<close>

lemma skip_text_in:
  assumes "int ptr + len \<le> int (length b)"
  shows "\<exists>e p l. skip_text ptr len b = Some (e, p, l) \<and> (\<not> e \<longrightarrow> ptr < p \<and> int p + l = int ptr + len \<and> 0 \<le> l)"
proof (cases "len \<le> 0")
  case True
  then show ?thesis by (auto simp: skip_text_def layout_simps)
next
  case False
  then have "ptr < length b" using assms by linarith
  then show ?thesis using False by (auto simp: skip_text_def layout_simps rd8_def Let_def)
qed

lemma mgt_cd_texts_in:
  assumes "int ptr + len \<le> int (length b)"
  shows "\<exists>e ex' xl. mgt_cd_texts d ptr len b ex = Some (e, b, ex', xl) \<and>
    clockType (te_cd ex') = clockType (te_cd ex) \<and> te_tlv ex' = te_tlv ex \<and>
    physicalAddress (te_cd ex') = physicalAddress (te_cd ex) \<and>
    protocolAddress (te_cd ex') = protocolAddress (te_cd ex)"
proof (cases "len < 4")
  case True
  then show ?thesis by (simp add: mgt_cd_texts_def bad_length_def)
next
  case False
  have a: "int (ptr + 4) + (len - 4) \<le> int (length b)" using assms by simp
  obtain e1 p1 l1 where s1: "skip_text (ptr + 4) (len - 4) b = Some (e1, p1, l1)"
    "\<not> e1 \<longrightarrow> int p1 + l1 = int (ptr + 4) + (len - 4)"
    using skip_text_in [OF a] by blast
  show ?thesis
  proof (cases e1)
    case True
    then show ?thesis using s1 False by (simp add: mgt_cd_texts_def bad_length_def)
  next
    case e1: False
    then have b: "int p1 + l1 \<le> int (length b)" using s1 assms by simp
    obtain e2 p2 l2 where s2: "skip_text p1 l1 b = Some (e2, p2, l2)"
      "\<not> e2 \<longrightarrow> int p2 + l2 = int p1 + l1"
      using skip_text_in [OF b] by blast
    show ?thesis
    proof (cases e2)
      case True
      then show ?thesis using s1 s2 e1 False by (simp add: mgt_cd_texts_def bad_length_def)
    next
      case e2: False
      then have c: "int p2 + l2 \<le> int (length b)" using s2 b by simp
      obtain e3 p3 l3 where s3: "skip_text p2 l2 b = Some (e3, p3, l3)"
        using skip_text_in [OF c] by blast
      show ?thesis
        using s1 s2 s3 e1 e2 False by (simp add: mgt_cd_texts_def bad_length_def Let_def)
    qed
  qed
qed

lemma flip16_in: "p + 2 \<le> length b \<Longrightarrow> \<exists>v. flip16 p b = Some (v, swp p 2 b)"
  by (simp add: flip16_def swap_at_def rd16_def)

lemma flip16_bind: "(do { (_, c) \<leftarrow> flip16 p c; k c }) = (do { c \<leftarrow> swap_at p 2 c; k c })"
  by (simp add: flip16_def swap_at_def rd16_def)

lemma frame_swp: "lo \<le> p \<Longrightarrow> p + w \<le> hi \<Longrightarrow> hi \<le> length b \<Longrightarrow> frame lo hi b (swp p w b)"
  using frame_swl [of lo hi "[(p, w)]" b] by simp

lemma swaps_fun:
  "swaps base [] = Some" "swaps base ((i, w) # fs) = (\<lambda>b. do { b \<leftarrow> swap_at (base + i) w b; swaps base fs b })"
  by (simp_all add: fun_eq_iff)

lemma cd_pre_send_swaps:
  assumes "clockType (te_cd ex) = Some ct" and "physicalAddress (te_cd ex) = Some pa"
    and "protocolAddress (te_cd ex) = Some pr"
  shows "mgt_cd_pre_send (Some ex) c = swaps 0 [(ct, 2), (pa, 2), (pr, 2), (pr + 2, 2)] c"
  using assms by (simp add: mgt_cd_pre_send_def flip16_bind layout_simps swaps_fun)

lemma mgt_clock_description_safe:
  assumes "d + data_len \<le> length b"
  shows "safe d (d + data_len) b (mgt_clock_description d data_len b ex)
    (\<lambda>(ex, _). mgt_cd_pre_send (Some ex))"
proof (cases "data_len < 2")
  case True
  then show ?thesis by (simp add: mgt_clock_description_def bad_length_def safe_reject)
next
  case len2: False
  let ?hi = "d + data_len"
  let ?b1 = "swp d 2 b"
  note cd = mgt_clock_description_def bad_length_def layout_simps Let_def
  obtain v1 where f1: "flip16 d b = Some (v1, ?b1)" using flip16_in [of d b] assms len2 by auto
  have fr1: "frame d ?hi b ?b1" using len2 assms by (intro frame_swp) simp_all
  then have l1: "length ?b1 = length b" by (rule frame_length)
  have "int (d + 2) + (int data_len - 2) \<le> int (length ?b1)" using assms l1 by simp
  then obtain e pa l where t: "skip_text (d + 2) (int data_len - 2) ?b1 = Some (e, pa, l)"
    and pa: "\<not> e \<longrightarrow> d + 2 < pa \<and> int pa + l = int (d + 2) + (int data_len - 2)"
    using skip_text_in by blast
  show ?thesis
  proof (cases "e \<or> l < 2")
    case True
    then show ?thesis using t f1 len2 fr1 by (auto simp: cd intro: safe_reject)
  next
    case pa2: False
    let ?b2 = "swp pa 2 ?b1"
    have pain: "pa + 2 \<le> ?hi" "d + 2 < pa" using pa pa2 by linarith+
    obtain u where f2: "flip16 pa ?b1 = Some (u, ?b2)"
      using flip16_in [of pa ?b1] l1 pain assms by auto
    have fr2: "frame d ?hi b ?b2"
      using fr1 by (rule frame_trans) (rule frame_swp, use pain l1 assms in simp_all)
    then have l2: "length ?b2 = length b" by (rule frame_length)
    let ?pr = "pa + 2 + unat u"
    show ?thesis
    proof (cases "16 < unat u \<or> l - 2 - int (unat u) < 4")
      case True
      then show ?thesis using t f1 f2 len2 pa2 fr2 by (auto simp: cd intro: safe_reject)
    next
      case pr4: False
      have prin: "?pr + 4 \<le> ?hi" using pa pa2 pr4 by linarith
      let ?b3 = "swp ?pr 2 ?b2" and ?b4 = "swp (?pr + 2) 2 (swp ?pr 2 ?b2)"
      obtain v3 where f3: "flip16 ?pr ?b2 = Some (v3, ?b3)"
        using flip16_in [of ?pr ?b2] l2 prin assms by auto
      obtain v4 where f4: "flip16 (?pr + 2) ?b3 = Some (v4, ?b4)"
        using flip16_in [of "?pr + 2" ?b3] l2 prin assms by auto
      let ?fs = "[(d, 2), (pa, 2), (?pr, 2), (?pr + 2, 2)]"
      have w: "within d ?hi ?fs" using pain prin by simp
      have dj: "disjoint_fields ?fs" using pain by auto
      have b4: "?b4 = swl 0 ?fs b" by simp
      have fr4: "frame d ?hi b ?b4" using w assms by (subst b4) (rule frame_swl)
      then have l4: "length ?b4 = length b" by (rule frame_length)
      let ?p = "?pr + 4 + unat v4" and ?l = "l - 2 - int (unat u) - 4 - int (unat v4)"
      show ?thesis
      proof (cases "16 < unat v4 \<or> ?l < 0")
        case True
        then show ?thesis
          using t f1 f2 f3 f4 len2 pa2 pr4 fr4 by (auto simp: cd intro: safe_reject)
      next
        case False
        let ?ex = "ex\<lparr>te_cd := te_cd ex\<lparr>clockType := Some d, physicalLayerProtocol := Some (d + 2),
          physicalAddress := Some pa, protocolAddress := Some ?pr\<rparr>\<rparr>"
        have r: "mgt_clock_description d data_len b ex = mgt_cd_texts d ?p ?l ?b4 ?ex"
          using t f1 f2 f3 f4 len2 pa2 pr4 False by (auto simp: cd)
        have "int ?p + ?l \<le> int (length ?b4)" using pa pa2 l4 assms by simp
        then obtain e' ex' xl where
          x: "mgt_cd_texts d ?p ?l ?b4 ?ex = Some (e', ?b4, ex', xl)"
          "clockType (te_cd ex') = Some d" "physicalAddress (te_cd ex') = Some pa"
          "protocolAddress (te_cd ex') = Some ?pr"
          using mgt_cd_texts_in [of ?p ?l ?b4 d ?ex] by auto
        have "conv d ?hi b (swl 0 ?fs b) (swaps 0 ?fs)"
          using w dj assms by (intro conv_swaps) simp_all
        then have "conv d ?hi b ?b4 (swaps 0 ?fs)" by (simp only: b4)
        then have "conv d ?hi b ?b4 (mgt_cd_pre_send (Some ex'))"
          by (rule conv_cong) (rule cd_pre_send_swaps [OF x(2,3,4)])
        then show ?thesis using r x(1) fr4 by (simp add: safe_def)
      qed
    qed
  qed
qed

section \<open>Management TLVs\<close>

lemmas ds_simps = layout_simps scaled_ns_n2h_def scaled_ns_h2n_def timestamp_net2host_def
  timestamp_host2net_def foot_fields_def

lemma mgt_unicast_master_table_safe:
  assumes "d + data_len \<le> length b"
  shows "safe d (d + data_len) b (mgt_unicast_master_table d data_len b ex) (\<lambda>_. mgt_umt_pre_send d)"
proof (cases "data_len < 2")
  case True
  then show ?thesis
    by (simp add: mgt_unicast_master_table_def bad_length_def layout_simps safe_reject)
next
  case False
  let ?fs = "[(0, 2)]" and ?hi = "d + data_len"
  let ?b1 = "swl d ?fs b"
  have w: "within 0 2 ?fs" and dj: "disjoint_fields ?fs" by simp_all
  have sw: "swaps d ?fs b = Some ?b1" using assms False by (intro swaps_in [OF w]) simp
  have c1: "conv d (d + 2) b ?b1 (swaps d ?fs)"
    using assms False by (intro conv_swaps_in [OF w dj]) simp_all
  have f1: "frame d (d + 2) b ?b1" using c1 by (rule conv_frame) (use assms False in simp)
  then have l1: "length ?b1 = length b" by (rule frame_length)
  obtain n where n: "rd16 ?b1 d = Some n" using l1 assms False by (simp add: rd16_def)
  have "?hi \<le> length ?b1" using l1 assms by simp
  from umt_safe [OF this refl, of 2 "unat n" "(ex, 0 :: nat)"]
  obtain e b2 where r: "umt_post_recv (unat n) data_len (d + 2) 2 ?b1 = Some (e, b2)"
    and f2: "frame (d + 2) ?hi ?b1 b2"
    and c2: "e = None \<Longrightarrow> conv (d + 2) ?hi ?b1 b2 (umt_pre_send (unat n) (d + 2))"
    unfolding safe_def by (auto split: bind_splits)
  have eq: "mgt_unicast_master_table d data_len b ex = Some (e, b2, ex, 0)"
    using False sw n r by (simp add: mgt_unicast_master_table_def layout_simps)
  have fr: "frame d ?hi b b2"
  proof (rule frame_trans)
    show "frame d ?hi b ?b1" using f1 by (rule frame_mono) (use False in simp_all)
    show "frame d ?hi ?b1 b2" using f2 by (rule frame_mono) simp_all
  qed
  have "conv d ?hi b b2 (mgt_umt_pre_send d)" if e: "e = None"
  proof -
    from c1 c2 [OF e]
    have "conv d ?hi b b2 (\<lambda>c. do { c \<leftarrow> umt_pre_send (unat n) (d + 2) c; swaps d ?fs c })"
      by (rule conv_seq(2)) (use assms False in linarith)+
    then show ?thesis
    proof (rule conv_cong)
      fix c
      assume "agree d ?hi b2 c"
      then have "rd16 c d = rd16 b2 d" by (rule agree_rd16) (use False in linarith)+
      also have "\<dots> = rd16 ?b1 d"
        by (rule agree_rd16 [OF frame_agree [OF f2, of "d + 2" d]]) simp_all
      finally show "mgt_umt_pre_send d c =
          (do { c \<leftarrow> umt_pre_send (unat n) (d + 2) c; swaps d ?fs c })"
        using n by (simp add: mgt_umt_pre_send_def layout_simps)
    qed
  qed
  then show ?thesis unfolding safe_def using eq fr by simp
qed

lemma port_properties_safe:
  assumes "d + data_len \<le> length b"
  shows "safe d (d + data_len) b
    (do { (e, b, ex, _) \<leftarrow> ds_at_least port_properties_np_layout [(8, 2)] 0 d data_len b ex;
          if e \<noteq> None then bad_length b ex
          else do { l8 \<leftarrow> rd8 b (d + 12); Some (None, b, ex, 13 + unat l8) } })
    (\<lambda>_. swaps d [(8, 2)])"
proof (cases "data_len < 13")
  case True
  then show ?thesis by (simp add: ds_at_least_def bad_length_def layout_simps safe_reject)
next
  case False
  have w: "within 0 13 [(8, 2)]" by simp
  have sw: "swaps d [(8, 2)] b = Some (swl d [(8, 2)] b)"
    using assms False by (intro swaps_in [OF w]) simp
  have c: "conv d (d + data_len) b (swl d [(8, 2)] b) (swaps d [(8, 2)])"
    using assms False by (intro conv_swaps_in [OF w]) simp_all
  have "length (swl d [(8, 2)] b) = length b"
    using conv_frame [OF c assms] by (rule frame_length)
  then obtain l8 where "rd8 (swl d [(8, 2)] b) (d + 12) = Some l8"
    using assms False by (simp add: rd8_def)
  then show ?thesis
    using sw c assms False by (simp add: ds_at_least_def layout_simps safe_accept)
qed

lemma mgt_post_recv_np_safe:
  assumes "d + data_len \<le> length b"
  shows "safe d (d + data_len) b (mgt_post_recv_np mid d data_len b ex) (\<lambda>_. mgt_pre_send_np mid d)"
  unfolding mgt_post_recv_np_def
  by (intro safe_if; rule safe_cong,
      (rule safe_ds_exact safe_ds_at_least mgt_unicast_master_table_safe safe_keep |
       simp only: ds_simps list.map fst_conv, rule port_properties_safe);
      (use assms in \<open>simp add: ds_simps mgt_pre_send_np_def\<close>)?)

lemma safe_ds_text:
  assumes "offsetof l name < sizeof l" and "d + data_len \<le> length b"
  shows "safe d (d + data_len) b (ds_text l name d data_len b ex ex') (\<lambda>_. Some)"
  unfolding ds_text_def bad_length_def
  by (intro safe_if safe_reject) (use assms in \<open>auto simp: rd8_def intro: safe_keep\<close>)

lemma safe_ds_empty:
  "d + data_len \<le> length b \<Longrightarrow> safe d (d + data_len) b (ds_empty data_len b ex) (\<lambda>_. Some)"
  unfolding ds_empty_def bad_length_def by (intro safe_if safe_reject safe_keep) simp_all

lemma mgt_post_recv_ds_safe:
  assumes "d + data_len \<le> length b" and "d = t + sizeof management_tlv_layout"
  shows "safe d (d + data_len) b (mgt_post_recv_ds mid d data_len b ex)
    (\<lambda>(ex, _). mgt_pre_send t mid (Some ex))"
  unfolding mgt_post_recv_ds_def
  by (intro safe_if; rule safe_cong,
      rule safe_ds_exact mgt_clock_description_safe safe_ds_text safe_ds_empty mgt_post_recv_np_safe;
      (use assms in \<open>auto simp: ds_simps mgt_pre_send_def mgt_pre_send_np_def Let_def\<close>)?)

lemma mgt_post_recv_safe:
  assumes "t + 6 + data_len \<le> length b"
  shows "safe (t + 6) (t + 6 + data_len) b (mgt_post_recv t mid len data_len b ex)
    (\<lambda>ex. mgt_pre_send t mid (Some ex))"
proof -
  have "safe (t + 6) (t + 6 + data_len) b (mgt_post_recv_ds mid (t + 6) data_len b ex)
      (\<lambda>(ex, _). mgt_pre_send t mid (Some ex))"
    using assms by (intro mgt_post_recv_ds_safe) (simp_all add: layout_simps)
  then obtain e b' x where r: "mgt_post_recv_ds mid (t + 6) data_len b ex = Some (e, b', x)"
    and f: "frame (t + 6) (t + 6 + data_len) b b'"
    and c: "e = None \<longrightarrow> conv (t + 6) (t + 6 + data_len) b b' (case x of (ex, _) \<Rightarrow> mgt_pre_send t mid (Some ex))"
    unfolding safe_def by blast
  obtain ex' xl where x: "x = (ex', xl)" by fastforce
  show ?thesis
    using r f c x by (simp add: mgt_post_recv_def layout_simps safe_def)
qed

section \<open>The other TLVs\<close>

lemma alttime_safe:
  assumes "t + 4 + unat len \<le> length b" and "t + 20 \<le> length b"
  shows "safe (t + 4) (t + 4 + unat len) b (alttime_offset_post_recv t len b ex)
    (\<lambda>_. alttime_offset_pre_send t)"
proof -
  let ?fs = "[(5, 4), (9, 4), (13, 2), (15, 4)] :: field list"
  obtain dl where dl: "rd8 b (t + 19) = Some dl" using assms by (simp add: rd8_def)
  show ?thesis
  proof (cases "unat len < 16 + unat dl")
    case True
    then show ?thesis using dl by (simp add: alttime_offset_post_recv_def layout_simps safe_reject)
  next
    case False
    have "within (t + 4) (t + 4 + unat len) (nest t ?fs)" and "disjoint_fields ?fs" using False by simp_all
    then have c: "conv (t + 4) (t + 4 + unat len) b (swl t ?fs b) (swaps t ?fs)"
      using assms by (intro conv_swaps)
    have "within 0 19 ?fs" by simp
    then have "swaps t ?fs b = Some (swl t ?fs b)" using assms by (intro swaps_in [of 19]) simp_all
    then show ?thesis
      using c False dl assms
      by (simp add: alttime_offset_post_recv_def alttime_offset_pre_send_def [abs_def] layout_simps
          safe_accept del: swaps.simps swl.simps)
  qed
qed

text \<open>A conversion at fixed offsets behind the header of a TLV.\<close>

lemma safe_fixed:
  assumes "within k n fs" and "disjoint_fields fs" and "n \<le> 4 + len" and "t + 4 + len \<le> length b"
  shows "safe (t + k) (t + 4 + len) b (do { b \<leftarrow> swaps t fs b; Some (None, b, x) }) (\<lambda>_. swaps t fs)"
proof -
  have "within (t + k) (t + 4 + len) (nest t fs)"
    using assms(1,3) by (fastforce simp: within_def nest_def)
  then have c: "conv (t + k) (t + 4 + len) b (swl t fs b) (swaps t fs)"
    using assms by (intro conv_swaps)
  have "within 0 n fs" using assms(1) by (rule within_mono) simp_all
  then have "swaps t fs b = Some (swl t fs b)" using assms by (intro swaps_in [of n]) simp_all
  then show ?thesis using c assms(4) by (simp add: safe_accept)
qed

lemma auth_safe:
  assumes "t + 4 + unat len \<le> length b"
  shows "safe (t + 4) (t + 4 + unat len) b (auth_post_recv t len b ex) (\<lambda>_. auth_pre_send t)"
  unfolding auth_post_recv_def auth_pre_send_def [abs_def]
  by (intro safe_if safe_reject safe_fixed [of 4 10]) (use assms in \<open>simp_all add: layout_simps\<close>)

lemma unicast_negotiation_safe:
  assumes "t + 4 + unat len \<le> length b"
  shows "safe (t + 4) (t + 4 + unat len) b (unicast_negotiation_post_recv t ty len b ex)
    (\<lambda>_. unicast_negotiation_pre_send t ty)"
proof -
  have rd: "rd8 b (t + 4) = Some (b ! (t + 4))" if "1 \<le> unat len"
    using that assms by (simp add: rd8_def)
  have sw: "safe (t + 4) (t + 4 + unat len) b
      (do { b \<leftarrow> swaps t [(6, 4)] b; Some (None, b, ex) }) (\<lambda>_. swaps t [(6, 4)])" if "6 \<le> unat len"
    using that assms by (intro safe_fixed [of 4 10]) simp_all
  show ?thesis
    unfolding unicast_negotiation_post_recv_def
    using assms sw rd
    by (auto simp: layout_simps TLV_LENGTH_INVALID_def unicast_negotiation_pre_send_def [abs_def]
        swaps_fun
        intro!: safe_if safe_reject safe_keep)
qed

lemma agree_rdn: "agree lo hi b c \<Longrightarrow> lo \<le> p \<Longrightarrow> p + n \<le> hi \<Longrightarrow> rdn c p n = rdn b p n"
  unfolding rdn_def agree_def by (auto intro!: nth_equalityI)

lemma org_safe_leaf:
  assumes "safe (t + 10) hi b r (\<lambda>_. p)" and "t + 10 \<le> hi"
    and "rdn b (t + 4) 3 = Some oid" and "rdn b (t + 7) 3 = Some st"
    and "\<And>c. rdn c (t + 4) 3 = Some oid \<Longrightarrow> rdn c (t + 7) 3 = Some st \<Longrightarrow> org_pre_send t c = p c"
  shows "safe (t + 4) hi b r (\<lambda>_. org_pre_send t)"
  using assms(1)
proof (rule safe_outer)
  fix b' x c
  assume "agree (t + 4) (t + 10) b c"
  then show "org_pre_send t c = p c"
    using assms(3,4,5) agree_rdn [of "t + 4" "t + 10" b c] by simp
qed (use assms(2) in simp_all)

lemma org_safe:
  assumes "t + 4 + unat len \<le> length b" and "6 \<le> unat len"
  shows "safe (t + 4) (t + 4 + unat len) b (org_post_recv t len b ex) (\<lambda>_. org_pre_send t)"
proof -
  obtain oid st where o: "rdn b (t + 4) 3 = Some oid" "rdn b (t + 7) 3 = Some st"
    using assms by (simp add: rdn_def)
  show ?thesis
    unfolding org_post_recv_def
    by (simp only: o layout_simps fst_conv Option.bind.bind_lunit, intro safe_if;
        (rule safe_reject, rule frame_refl |
         rule org_safe_leaf [OF _ _ o],
         rule safe_fixed [where n = 32] safe_fixed [where n = 22] safe_keep;
         (use assms in \<open>simp add: org_pre_send_def ds_simps\<close>)?))
qed

lemma slave_records_conv:
  assumes "within 0 sz fs" and "disjoint_fields fs" and "ptr + n * sz \<le> length b"
  shows "\<exists>b'. slave_records fs sz n ptr b = Some b' \<and>
    conv ptr (ptr + n * sz) b b' (slave_records fs sz n ptr)"
  using assms(3)
proof (induction n arbitrary: ptr b)
  case 0
  have "slave_records fs sz 0 ptr = Some" by (simp add: fun_eq_iff)
  then show ?case using conv_refl by simp
next
  case (Suc n)
  let ?b1 = "swl ptr fs b"
  have sw: "swaps ptr fs b = Some ?b1" using assms Suc.prems by (intro swaps_in [of sz]) simp_all
  have c1: "conv ptr (ptr + sz) b ?b1 (swaps ptr fs)"
    using assms Suc.prems by (intro conv_swaps_in [of sz]) simp_all
  have "length ?b1 = length b"
    using conv_frame [OF c1] Suc.prems by (simp add: frame_length)
  then obtain b' where b': "slave_records fs sz n (ptr + sz) ?b1 = Some b'"
    and c2: "conv (ptr + sz) (ptr + sz + n * sz) ?b1 b' (slave_records fs sz n (ptr + sz))"
    using Suc.IH [of "ptr + sz" ?b1] Suc.prems by auto
  from c1 c2 have "conv ptr (ptr + sz + n * sz) b b'
      (\<lambda>c. do { c \<leftarrow> swaps ptr fs c; slave_records fs sz n (ptr + sz) c })"
    by (rule conv_seq(1)) (use Suc.prems in \<open>simp_all add: add.assoc\<close>)
  then show ?case using sw b' by (simp add: add.assoc fun_eq_iff)
qed

text \<open>The source port identity and the records behind it.\<close>

lemma slave_data_safe:
  assumes "within 0 sz fs" and "disjoint_fields fs" and "len = 10 + sz * n" and "t + 4 + len \<le> length b"
  shows "safe (t + 4) (t + 4 + len) b
    (do { b \<leftarrow> swaps t [(12, 2)] b; b \<leftarrow> slave_records fs sz n (t + 14) b; Some (None, b, ex) })
    (\<lambda>_ c. do { c \<leftarrow> swaps t [(12, 2)] c; slave_records fs sz n (t + 14) c })"
proof -
  let ?b1 = "swl t [(12, 2)] b"
  have w: "within 0 14 [(12, 2)]" by simp
  have sw: "swaps t [(12, 2)] b = Some ?b1" using assms by (intro swaps_in [OF w]) simp
  have "within (t + 4) (t + 14) (nest t [(12, 2)])" by simp
  then have c1: "conv (t + 4) (t + 14) b ?b1 (swaps t [(12, 2)])"
    using assms by (intro conv_swaps) simp_all
  have "length ?b1 = length b" using conv_frame [OF c1] assms by (simp add: frame_length)
  then obtain b' where b': "slave_records fs sz n (t + 14) ?b1 = Some b'"
    and c2: "conv (t + 14) (t + 14 + n * sz) ?b1 b' (slave_records fs sz n (t + 14))"
    using slave_records_conv [OF assms(1,2), of "t + 14" n ?b1] assms by (auto simp: mult.commute)
  have hi: "t + 14 + n * sz = t + 4 + len" using assms(3) by (simp add: mult.commute)
  from c1 c2 have "conv (t + 4) (t + 4 + len) b b'
      (\<lambda>c. do { c \<leftarrow> swaps t [(12, 2)] c; slave_records fs sz n (t + 14) c })"
    unfolding hi by (rule conv_seq(1)) (use assms in simp_all)
  then show ?thesis using sw b' assms(4) by (simp add: safe_accept del: swaps.simps swl.simps)
qed

lemma slave_delay_safe:
  assumes "t + 4 + unat len \<le> length b"
  shows "safe (t + 4) (t + 4 + unat len) b (slave_delay_timing_data_post_revc t len b ex)
    (\<lambda>_. slave_delay_timing_data_pre_send t len)"
proof (cases "tlv_array_invalid len 10 30")
  case True
  then show ?thesis
    by (simp add: slave_delay_timing_data_post_revc_def layout_simps safe_reject)
next
  case False
  let ?fs = "[(0, 2), (4, 4), (2, 2), (8, 4), (12, 8), (22, 4), (20, 2), (26, 4)] :: field list"
  have "within 0 30 ?fs" and "disjoint_fields ?fs"
    and "unat len = 10 + 30 * unat (tlv_array_count len 10 30)"
    using array_length [OF False] by simp_all
  from slave_data_safe [OF this] assms False show ?thesis
    by (simp add: slave_delay_timing_data_post_revc_def slave_delay_timing_data_pre_send_def [abs_def]
        ds_simps del: swaps.simps)
qed

lemma slave_rx_sync_safe:
  assumes "t + 4 + unat len \<le> length b"
  shows "safe (t + 4) (t + 4 + unat len) b (slave_rx_sync_timing_data_post_revc t len b ex)
    (\<lambda>_. slave_rx_sync_timing_data_pre_send t len)"
proof (cases "tlv_array_invalid len 10 34")
  case True
  then show ?thesis
    by (simp add: slave_rx_sync_timing_data_post_revc_def layout_simps safe_reject)
next
  case False
  let ?fs = "[(0, 2), (4, 4), (2, 2), (8, 4), (12, 8), (20, 4), (26, 4), (24, 2), (30, 4)] :: field list"
  have "within 0 34 ?fs" and "disjoint_fields ?fs"
    and "unat len = 10 + 34 * unat (tlv_array_count len 10 34)"
    using array_length [OF False] by simp_all
  from slave_data_safe [OF this] assms False show ?thesis
    by (simp add: slave_rx_sync_timing_data_post_revc_def
        slave_rx_sync_timing_data_pre_send_def [abs_def] ds_simps del: swaps.simps)
qed

lemma foot_fields_in: "within 0 64 foot_fields" and foot_fields_disjoint: "disjoint_fields foot_fields"
  by (simp_all add: ds_simps)

lemma nsm_resp_safe:
  assumes "t + 4 + unat len \<le> length b" and "te_tlv ex = t"
  shows "safe (t + 4) (t + 4 + unat len) b (nsm_resp_post_recv t len b ex) nsm_resp_pre_send"
proof (cases "unat len < 70")
  case True
  then show ?thesis by (simp add: nsm_resp_post_recv_def layout_simps safe_reject)
next
  case len: False
  let ?fs = "[(6, 2), (8, 2)] :: field list" and ?hi = "t + 4 + unat len"
  let ?b1 = "swl t ?fs b"
  have w: "within 0 10 ?fs" and dj: "disjoint_fields ?fs" by simp_all
  have sw: "swaps t ?fs b = Some ?b1" using assms len by (intro swaps_in [OF w]) simp
  have "within (t + 4) (t + 10) (nest t ?fs)" by simp
  then have c1: "conv (t + 4) (t + 10) b ?b1 (swaps t ?fs)"
    using dj assms len by (intro conv_swaps) simp_all
  have f1: "frame (t + 4) (t + 10) b ?b1" using c1 by (rule conv_frame) (use assms len in simp)
  then have l1: "length ?b1 = length b" by (rule frame_length)
  have f1': "frame (t + 4) ?hi b ?b1" using f1 by (rule frame_mono) (use len in simp_all)
  obtain np al where rd: "rd16 ?b1 (t + 6) = Some np" "rd16 ?b1 (t + 8) = Some al"
    using l1 assms len by (simp add: rd16_def)
  let ?ex = "if np = 1 then Some 4 else if np = 2 then Some 16 else if np = 3 then Some 6 else None"
  show ?thesis
  proof (cases "?ex = Some (unat al) \<and> unat len = 70 + unat al")
    case False
    then show ?thesis
      using sw rd f1' len
      by (auto simp: nsm_resp_post_recv_def layout_simps Let_def intro: safe_reject
          simp del: swaps.simps swl.simps)
  next
    case True
    let ?p = "t + 10 + unat al"
    let ?b2 = "swl ?p foot_fields ?b1"
    have sw2: "swaps ?p foot_fields ?b1 = Some ?b2"
      using assms True l1 by (intro swaps_in [OF foot_fields_in]) simp
    have c2: "conv (t + 10) ?hi ?b1 ?b2 (swaps ?p foot_fields)"
      using assms True l1 by (intro conv_swaps_in [OF foot_fields_in foot_fields_disjoint]) simp_all
    from c1 c2 have c: "conv (t + 4) ?hi b ?b2
        (\<lambda>c. do { c \<leftarrow> swaps t ?fs c; swaps ?p foot_fields c })"
      by (rule conv_seq(1)) (use assms len in simp_all)
    let ?x = "ex\<lparr>te_cd := te_cd ex\<lparr>clockType := Some ?p\<rparr>\<rparr>"
    have "nsm_resp_post_recv t len b ex = Some (None, ?b2, ?x)"
      using sw rd len True sw2
      by (simp add: nsm_resp_post_recv_def layout_simps Let_def add.assoc [symmetric] del: swaps.simps swl.simps)
    moreover have "nsm_resp_pre_send ?x = (\<lambda>c. do { c \<leftarrow> swaps t ?fs c; swaps ?p foot_fields c })"
      by (simp add: nsm_resp_pre_send_def [abs_def] layout_simps assms(2) del: swaps.simps)
    ultimately show ?thesis using c assms(1) by (simp add: safe_accept)
  qed
qed

section \<open>The dispatcher\<close>

text \<open>No receive function moves the descriptor to another TLV.\<close>

definition keeps :: "('x \<Rightarrow> nat) \<Rightarrow> nat \<Rightarrow> (errno option \<times> buf \<times> 'x) option \<Rightarrow> bool" where
  "keeps te t r \<longleftrightarrow> (\<forall>e b x. r = Some (e, b, x) \<longrightarrow> te x = t)"

lemma keeps_some: "te x = t \<Longrightarrow> keeps te t (Some (e, b, x))"
  by (simp add: keeps_def)

lemma keeps_bad: "te_tlv ex = t \<Longrightarrow> keeps (\<lambda>(ex, _). te_tlv ex) t (bad_length b ex)"
  by (simp add: bad_length_def keeps_def)

lemma keeps_if: "(P \<Longrightarrow> keeps te t r) \<Longrightarrow> (\<not> P \<Longrightarrow> keeps te t s) \<Longrightarrow> keeps te t (if P then r else s)"
  by simp

lemma keeps_bind: "(\<And>y. keeps te t (k y)) \<Longrightarrow> keeps te t (m \<bind> k)"
  by (cases m) (simp_all add: keeps_def)

lemma keeps_bind_post:
  "keeps te' t m \<Longrightarrow> (\<And>e b x. te' x = t \<Longrightarrow> keeps te t (k (e, b, x))) \<Longrightarrow> keeps te t (m \<bind> k)"
  by (cases m) (auto simp add: keeps_def)

lemma keeps_split: "(\<And>a b. keeps te t (f a b)) \<Longrightarrow> keeps te t (case p of (a, b) \<Rightarrow> f a b)"
  by (cases p) simp

lemmas keeps_intros = keeps_if keeps_bad keeps_split keeps_bind keeps_some

lemma mgt_cd_keeps:
  assumes "te_tlv ex = t"
  shows "keeps (\<lambda>(ex, _). te_tlv ex) t (mgt_clock_description d data_len b ex)"
  unfolding mgt_clock_description_def mgt_cd_texts_def Let_def
  by (intro keeps_intros) (simp_all add: assms)

lemma mgt_np_keeps:
  assumes "te_tlv ex = t"
  shows "keeps (\<lambda>(ex, _). te_tlv ex) t (mgt_post_recv_np mid d data_len b ex)"
proof -
  have ds: "keeps (\<lambda>(ex, _). te_tlv ex) t (ds_at_least l fs xl d data_len b ex)"
    "keeps (\<lambda>(ex, _). te_tlv ex) t (ds_exact l fs d data_len b ex)"
    "keeps (\<lambda>(ex, _). te_tlv ex) t (mgt_unicast_master_table d data_len b ex)" for l fs xl
    unfolding ds_at_least_def ds_exact_def mgt_unicast_master_table_def
    by (intro keeps_intros; simp add: assms)+
  have "keeps (\<lambda>(ex, _). te_tlv ex) t
      (do { (e, b, ex, _) \<leftarrow> ds_at_least l fs xl d data_len b ex; if e \<noteq> None then bad_length b ex
            else do { l8 \<leftarrow> rd8 b p; Some (None, b, ex, n + unat l8) } })" for l fs xl p n
    by (rule keeps_bind_post [OF ds(1)]) (auto simp: rd8_def keeps_def bad_length_def split: if_splits)
  then show ?thesis
    unfolding mgt_post_recv_np_def by (intro keeps_if ds keeps_some) (simp_all add: assms)
qed

lemma mgt_post_recv_keeps:
  assumes "te_tlv ex = t"
  shows "keeps te_tlv t (mgt_post_recv p mid mlen data_len b ex)"
proof -
  have ds: "keeps (\<lambda>(ex, _). te_tlv ex) t (ds_exact l fs d data_len b ex)"
    "keeps (\<lambda>(ex, _). te_tlv ex) t (ds_empty data_len b ex)"
    "te_tlv ex' = t \<Longrightarrow> keeps (\<lambda>(ex, _). te_tlv ex) t (ds_text l name d data_len b ex ex')"
    for l fs name d ex'
    unfolding ds_exact_def ds_empty_def ds_text_def by (intro keeps_intros; simp add: assms)+
  have "keeps (\<lambda>(ex, _). te_tlv ex) t (mgt_post_recv_ds mid d data_len b ex)" for d
    unfolding mgt_post_recv_ds_def
    by (intro keeps_if ds mgt_cd_keeps mgt_np_keeps) (simp_all add: assms)
  then show ?thesis
    unfolding mgt_post_recv_def
    by (rule keeps_bind_post) (auto simp: keeps_def split: if_splits)
qed

lemma tlv_post_recv_keeps: "keeps te_tlv (te_tlv ex) (tlv_post_recv b ex)"
  unfolding tlv_post_recv_def org_post_recv_def unicast_negotiation_post_recv_def
    alttime_offset_post_recv_def nsm_resp_post_recv_def slave_rx_sync_timing_data_post_revc_def
    slave_delay_timing_data_post_revc_def auth_post_recv_def Let_def
  by (intro keeps_if keeps_split mgt_post_recv_keeps keeps_bind keeps_some) simp_all

lemma tlv_post_recv_te_tlv: "tlv_post_recv b ex = Some (e, b', ex') \<Longrightarrow> te_tlv ex' = te_tlv ex"
  using tlv_post_recv_keeps [of ex b] by (simp add: keeps_def)

text \<open>A management TLV: the id first, then the data behind it.\<close>

lemma management_safe:
  assumes "t + 4 + unat len \<le> length b" and "2 \<le> unat len"
  shows "safe (t + 4) (t + 4 + unat len) b
    (do { b \<leftarrow> swaps t [(4, 2)] b;
          mid \<leftarrow> rd16 b (t + 4);
          if unat len > 2 then mgt_post_recv t mid len (unat len - 2) b ex else Some (None, b, ex) })
    (\<lambda>ex c. do { mid \<leftarrow> rd16 c (t + 4);
          c \<leftarrow> (if unat len > 2 then mgt_pre_send t mid (Some ex) c else Some c);
          swaps t [(4, 2)] c })"
proof -
  let ?b1 = "swl t [(4, 2)] b" and ?hi = "t + 4 + unat len"
  have w: "within 0 6 [(4, 2)]" by simp
  have sw: "swaps t [(4, 2)] b = Some ?b1" using assms by (intro swaps_in [OF w]) simp
  have "within (t + 4) (t + 6) (nest t [(4, 2)])" by simp
  then have c1: "conv (t + 4) (t + 6) b ?b1 (swaps t [(4, 2)])"
    using assms by (intro conv_swaps) simp_all
  have f1: "frame (t + 4) (t + 6) b ?b1" using c1 by (rule conv_frame) (use assms in simp)
  then have l1: "length ?b1 = length b" by (rule frame_length)
  obtain mid where mid: "rd16 ?b1 (t + 4) = Some mid" using l1 assms by (simp add: rd16_def)
  let ?r = "if unat len > 2 then mgt_post_recv t mid len (unat len - 2) ?b1 ex else Some (None, ?b1, ex)"
  let ?q = "\<lambda>ex c. if unat len > 2 then mgt_pre_send t mid (Some ex) c else Some c"
  have "safe (t + 6) ?hi ?b1 ?r ?q"
  proof (cases "unat len > 2")
    case True
    then have hi: "t + 6 + (unat len - 2) = ?hi" by simp
    then have "safe (t + 6) ?hi ?b1 (mgt_post_recv t mid len (unat len - 2) ?b1 ex)
        (\<lambda>ex. mgt_pre_send t mid (Some ex))"
      using mgt_post_recv_safe [of t "unat len - 2" ?b1 mid len ex] assms l1 by (simp only: hi)
    then show ?thesis using True by (simp only: if_True)
  next
    case False
    then show ?thesis using safe_keep [of ?hi ?b1 "t + 6" ex] assms l1 by simp
  qed
  then obtain e b2 x where r: "?r = Some (e, b2, x)" and f2: "frame (t + 6) ?hi ?b1 b2"
    and c2: "e = None \<Longrightarrow> conv (t + 6) ?hi ?b1 b2 (?q x)" unfolding safe_def by blast
  have fr: "frame (t + 4) ?hi b b2"
  proof (rule frame_trans)
    show "frame (t + 4) ?hi b ?b1" using f1 by (rule frame_mono) (use assms in simp_all)
    show "frame (t + 4) ?hi ?b1 b2" using f2 by (rule frame_mono) simp_all
  qed
  have "conv (t + 4) ?hi b b2 (\<lambda>c. do { mid \<leftarrow> rd16 c (t + 4);
      c \<leftarrow> (if unat len > 2 then mgt_pre_send t mid (Some x) c else Some c); swaps t [(4, 2)] c })"
    if e: "e = None"
  proof -
    from c1 c2 [OF e] have "conv (t + 4) ?hi b b2 (\<lambda>c. do { c \<leftarrow> ?q x c; swaps t [(4, 2)] c })"
      by (rule conv_seq(2)) (use assms in simp_all)
    then show ?thesis
    proof (rule conv_cong)
      fix c
      assume "agree (t + 4) ?hi b2 c"
      then have "rd16 c (t + 4) = rd16 b2 (t + 4)" by (rule agree_rd16) (use assms in simp_all)
      also have "\<dots> = rd16 ?b1 (t + 4)"
        by (rule agree_rd16 [OF frame_agree [OF f2, of "t + 6" "t + 4"]]) simp_all
      finally show "(do { mid \<leftarrow> rd16 c (t + 4);
          c \<leftarrow> (if unat len > 2 then mgt_pre_send t mid (Some x) c else Some c); swaps t [(4, 2)] c }) =
          (do { c \<leftarrow> ?q x c; swaps t [(4, 2)] c })"
        using mid by simp
    qed
  qed
  then show ?thesis unfolding safe_def using sw mid r fr by (simp del: swaps.simps swl.simps)
qed

lemma tlv_leaf:
  assumes "safe (t + 4) hi b (tlv_post_recv b ex) p" and "te_tlv ex = t" and "t + 4 \<le> hi"
    and "rd16 b t = Some ty" and "rd16 b (t + 2) = Some len"
    and "\<And>x c. rd16 c t = Some ty \<Longrightarrow> rd16 c (t + 2) = Some len \<Longrightarrow> te_tlv x = t \<Longrightarrow>
      tlv_pre_send t (Some x) c = p x c"
  shows "safe_at (t + 4) t hi b (tlv_post_recv b ex) (\<lambda>x. tlv_pre_send t (Some x))"
  using assms(1)
proof (rule safe_at_outer)
  fix b' x c
  assume r: "tlv_post_recv b ex = Some (None, b', x)" and a: "agree t (t + 4) b c"
  show "tlv_pre_send t (Some x) c = p x c"
    using assms(2,4,5) tlv_post_recv_te_tlv [OF r] agree_rd16 [OF a, of t]
      agree_rd16 [OF a, of "t + 2"]
    by (intro assms(6)) simp_all
qed (use assms(3) in simp_all)

abbreviation "unicast_types \<equiv> {TLV_REQUEST_UNICAST_TRANSMISSION, TLV_GRANT_UNICAST_TRANSMISSION,
  TLV_CANCEL_UNICAST_TRANSMISSION, TLV_ACKNOWLEDGE_CANCEL_UNICAST_TRANSMISSION}"

lemma tlv_post_recv_safe_at:
  assumes t: "te_tlv ex = t" and ty: "rd16 b t = Some ty" and len: "rd16 b (t + 2) = Some len"
    and hi: "t + 4 + unat len \<le> length b" and room: "ty = TLV_ALTERNATE_TIME_OFFSET_INDICATOR \<Longrightarrow> t + 20 \<le> length b"
  shows "safe_at (t + 4) t (t + 4 + unat len) b (tlv_post_recv b ex) (\<lambda>x. tlv_pre_send t (Some x))"
proof -
  let ?hi = "t + 4 + unat len"
  note leaf = tlv_leaf [OF _ t _ ty len]
  have len2: "rd16 b (Suc (Suc t)) = Some len" using len by simp
  note post = tlv_post_recv_def t ty len2 Let_def layout_simps
  note pre = tlv_pre_send_def layout_simps
  consider "ty = TLV_MANAGEMENT" | "ty = TLV_MANAGEMENT_ERROR_STATUS"
    | "ty = TLV_ORGANIZATION_EXTENSION" | "ty \<in> unicast_types"
    | "ty = TLV_PATH_TRACE" | "ty = TLV_ALTERNATE_TIME_OFFSET_INDICATOR" | "ty = TLV_PTPMON_RESP"
    | "ty = TLV_SLAVE_RX_SYNC_TIMING_DATA" | "ty = TLV_SLAVE_DELAY_TIMING_DATA_NP"
    | "ty = TLV_AUTHENTICATION"
    | "ty \<notin> {TLV_MANAGEMENT, TLV_MANAGEMENT_ERROR_STATUS, TLV_ORGANIZATION_EXTENSION} \<union> unicast_types
        \<union> {TLV_PATH_TRACE, TLV_ALTERNATE_TIME_OFFSET_INDICATOR, TLV_PTPMON_RESP,
           TLV_SLAVE_RX_SYNC_TIMING_DATA, TLV_SLAVE_DELAY_TIMING_DATA_NP, TLV_AUTHENTICATION}"
    by blast
  then show ?thesis
  proof cases
    case 1
    show ?thesis
    proof (cases "unat len < 2")
      case True
      with 1 show ?thesis by (simp add: post TLV_LENGTH_INVALID_def safe_at_reject)
    next
      case False
      then show ?thesis
        using management_safe [OF hi, of ex] 1
        by (intro leaf, simp_all add: post pre TLV_LENGTH_INVALID_def del: swaps.simps)
    qed
  next
    case 2
    show ?thesis
    proof (cases "unat len < 8")
      case True
      with 2 show ?thesis by (simp add: post TLV_LENGTH_INVALID_def safe_at_reject)
    next
      case False
      have "safe (t + 4) ?hi b (do { b \<leftarrow> swaps t [(4, 2), (6, 2)] b; Some (None, b, ex) })
          (\<lambda>_. swaps t [(4, 2), (6, 2)])"
        using False hi by (intro safe_fixed [of 4 8]) simp_all
      then show ?thesis
        using False 2 by (intro leaf, simp_all add: post pre TLV_LENGTH_INVALID_def del: swaps.simps)
    qed
  next
    case 3
    show ?thesis
    proof (cases "unat len < 6")
      case True
      with 3 show ?thesis by (simp add: post TLV_LENGTH_INVALID_def safe_at_reject)
    next
      case False
      with 3 show ?thesis
        using org_safe [OF hi] by (intro leaf) (auto simp: post pre TLV_LENGTH_INVALID_def)
    qed
  next
    case 4
    then show ?thesis
      using unicast_negotiation_safe [OF hi]
      by (intro leaf) (auto simp: post pre TLV_LENGTH_INVALID_def)
  next
    case 5
    show ?thesis
    proof (cases "tlv_array_invalid len 0 8")
      case True
      with 5 show ?thesis by (simp add: post safe_at_reject)
    next
      case False
      with 5 show ?thesis using safe_keep [OF hi] by (intro leaf) (auto simp: post pre)
    qed
  next
    case 6
    then show ?thesis
      using alttime_safe [OF hi room [OF 6]] by (intro leaf) (auto simp: post pre)
  next
    case 7
    then show ?thesis
      using nsm_resp_safe [OF hi t] by (intro leaf) (auto simp: post pre)
  next
    case 8
    then show ?thesis
      using slave_rx_sync_safe [OF hi] by (intro leaf) (auto simp: post pre)
  next
    case 9
    then show ?thesis
      using slave_delay_safe [OF hi] by (intro leaf) (auto simp: post pre)
  next
    case 10
    then show ?thesis
      using auth_safe [OF hi] by (intro leaf) (auto simp: post pre)
  next
    case 11
    then show ?thesis
      using safe_keep [OF hi] by (intro leaf) (auto simp: post pre)
  qed
qed

section \<open>Properties\<close>

text \<open>The conversions of a TLV are inverse to each other: for every type, if \<open>tlv_post_recv\<close>
  accepts a TLV that lies inside the buffer then \<open>tlv_pre_send\<close> on the converted buffer, with the
  descriptor that reception filled in, restores every octet.\<close>

theorem tlv_pre_send_post_recv:
  assumes "rd16 b (te_tlv ex + 2) = Some len" and "te_tlv ex + 4 + unat len \<le> length b"
    and "te_tlv ex + 20 \<le> length b" and "tlv_post_recv b ex = Some (None, b', ex')"
  shows "tlv_pre_send (te_tlv ex) (Some ex') b' = Some b"
proof -
  obtain ty where "rd16 b (te_tlv ex) = Some ty" using assms(2) by (simp add: rd16_def)
  from tlv_post_recv_safe_at [OF refl this assms(1,2)] assms(3)
  have "conv (te_tlv ex) (te_tlv ex + 4 + unat len) b b' (tlv_pre_send (te_tlv ex) (Some ex'))"
    using assms(4) by (auto simp: safe_at_def intro: conv_at_conv)
  then show ?thesis using assms(2) by (rule conv_inverse)
qed

text \<open>A response with the description of a clock: five variable-length parts.\<close>

definition clock_description_example :: buf where
  "clock_description_example = [1, 0, 36, 0, 0, 1] @ [0x80, 0] @ [2, 65, 66] @ [0, 2, 7, 8] @
     [0, 1, 0, 4, 192, 168, 0, 1] @ [1, 2, 3, 0] @ [1, 67] @ [1, 68] @ [2, 69, 70] @ [0, 1, 2, 3, 4, 5]"

theorem tlv_pre_send_post_recv_witness:
  "\<exists>b' ex'. tlv_post_recv clock_description_example \<lparr>te_tlv = 0, te_cd = null_cd\<rparr> = Some (None, b', ex') \<and>
    b' \<noteq> clock_description_example \<and> tlv_pre_send 0 (Some ex') b' = Some clock_description_example"
proof -
  let ?b = clock_description_example and ?ex = "\<lparr>te_tlv = 0, te_cd = null_cd\<rparr>"
  have "(case tlv_post_recv ?b ?ex of Some (e, b', _) \<Rightarrow> e = None \<and> b' \<noteq> ?b | None \<Rightarrow> False)" by code_simp
  then obtain b' ex' where r: "tlv_post_recv ?b ?ex = Some (None, b', ex')" and ne: "b' \<noteq> ?b"
    by (auto split: option.splits)
  have "rd16 ?b (te_tlv ?ex + 2) = Some 36" by code_simp
  then have "tlv_pre_send (te_tlv ?ex) (Some ex') b' = Some ?b"
    using tlv_pre_send_post_recv [OF _ _ _ r] by (simp add: clock_description_example_def)
  then show ?thesis using r ne by auto
qed

definition data_sets :: "(u16 \<times> layout) list" where
  "data_sets = [(MID_DEFAULT_DATA_SET, defaultDS_layout), (MID_CURRENT_DATA_SET, currentDS_layout),
     (MID_PARENT_DATA_SET, parentDS_layout), (MID_TIME_PROPERTIES_DATA_SET, timePropertiesDS_layout),
     (MID_PORT_DATA_SET, portDS_layout),
     (MID_ALTERNATE_TIME_OFFSET_PROPERTIES, alternate_time_offset_properties_layout),
     (MID_TIME_STATUS_NP, time_status_np_layout),
     (MID_GRANDMASTER_SETTINGS_NP, grandmaster_settings_np_layout),
     (MID_PORT_DATA_SET_NP, port_ds_np_layout), (MID_SUBSCRIBE_EVENTS_NP, subscribe_events_np_layout)]"

lemma data_sets_exact:
  assumes "(mid, l) \<in> set data_sets"
  shows "\<exists>fs. (\<forall>d n b ex. mgt_post_recv_ds mid d n b ex = ds_exact l fs d n b ex) \<and> within 0 (sizeof l) fs"
  using assms unfolding data_sets_def mgt_post_recv_ds_def mgt_post_recv_np_def
  by (auto simp: ds_simps)

text \<open>The length of a management data set is checked exactly: a management TLV with the id of one
  of the ten data sets of fixed size is accepted if and only if its length is that of the id
  and of the data set.\<close>

theorem management_data_set_length:
  assumes "(mid, l) \<in> set data_sets" and "te_tlv ex + 6 \<le> length b"
    and "rd16 b (te_tlv ex) = Some TLV_MANAGEMENT" and "rd16 b (te_tlv ex + 2) = Some len"
    and "te_tlv ex + 4 + unat len \<le> length b" and "2 < unat len"
    and "rd16 (swp (te_tlv ex + 4) 2 b) (te_tlv ex + 4) = Some mid"
  shows "\<exists>e b' ex'. tlv_post_recv b ex = Some (e, b', ex') \<and> (e = None \<longleftrightarrow> unat len = 2 + sizeof l)"
proof -
  let ?t = "te_tlv ex" and ?b1 = "swp (te_tlv ex + 4) 2 b"
  have l1: "length ?b1 = length b" using assms(2) by (intro length_swp) simp
  have sw: "swaps ?t [(4, 2)] b = Some ?b1" using assms(2) by (simp add: swap_at_def)
  have "tlv_post_recv b ex = mgt_post_recv ?t mid len (unat len - 2) ?b1 ex"
    using assms(3,4,6,7) sw
    by (simp add: tlv_post_recv_def TLV_LENGTH_INVALID_def layout_simps Let_def del: swaps.simps)
  moreover obtain fs where ds: "mgt_post_recv_ds mid (?t + 6) (unat len - 2) ?b1 ex =
      ds_exact l fs (?t + 6) (unat len - 2) ?b1 ex" and w: "within 0 (sizeof l) fs"
    using data_sets_exact [OF assms(1)] by blast
  have "swaps (?t + 6) fs ?b1 = Some (swl (?t + 6) fs ?b1)" if "unat len - 2 = sizeof l"
    by (intro swaps_in [OF w]) (use that assms(5,6) l1 in linarith)
  ultimately show ?thesis
    using ds assms(6) by (auto simp: mgt_post_recv_def layout_simps ds_exact_def bad_length_def)
qed

theorem management_data_set_length_witness:
  "\<exists>b' ex'. tlv_post_recv [1, 0, 6, 0, 0x20, 0x03, 0, 37, 0x3C, 0x20] \<lparr>te_tlv = 0, te_cd = null_cd\<rparr> =
    Some (None, b', ex')"
proof -
  let ?b = "[1, 0, 6, 0, 0x20, 0x03, 0, 37, 0x3C, 0x20] :: buf" and ?ex = "\<lparr>te_tlv = 0, te_cd = null_cd\<rparr>"
  have h: "(MID_TIME_PROPERTIES_DATA_SET, timePropertiesDS_layout) \<in> set data_sets"
    by (simp add: data_sets_def)
  have rd: "rd16 ?b (te_tlv ?ex) = Some TLV_MANAGEMENT" "rd16 ?b (te_tlv ?ex + 2) = Some 6"
    "rd16 (swp (te_tlv ?ex + 4) 2 ?b) (te_tlv ?ex + 4) = Some MID_TIME_PROPERTIES_DATA_SET" by code_simp+
  from management_data_set_length [OF h _ rd(1,2) _ _ rd(3)]
  obtain e b' ex' where "tlv_post_recv ?b ?ex = Some (e, b', ex')" "e = None"
    by (auto simp: layout_simps)
  then show ?thesis by blast
qed

end
