(* ===== verification/Tmv.thy ===== *)
theory Tmv
  imports Ptp_Prelude
begin

unbundle bit_operations_syntax

text \<open>
  Time values: the inline functions of \<open>tmv.h\<close> and the time stamp structures of \<open>ddt.h\<close>.
  A \<open>tmv_t\<close> is one signed 64-bit count of nanoseconds, modelled as a 64-bit word that is
  read with \<open>sint\<close>; sums and differences go through \<open>uint64_t\<close> in the code and therefore
  wrap. Quotients of signed values truncate towards zero (\<open>sdiv\<close>, \<open>smod\<close>).
  The functions on \<open>double\<close> are in the theory of the time stamp processor.
\<close>

type_synonym tmv_t = i64

record Timestamp =
  seconds_msb :: u16
  seconds_lsb :: u32
  nanoseconds :: u32

record timestamp =
  sec :: u64
  nsec :: u32

record timespec =
  tv_sec :: i64
  tv_nsec :: i64

record ptp_clock_time =
  pct_sec :: i64
  pct_nsec :: u32

definition NS_PER_SEC :: i64 where
  "NS_PER_SEC = 1000000000"

definition MIN_TMV_TO_TIMEINTERVAL :: i64 where
  "MIN_TMV_TO_TIMEINTERVAL = 0xFFFF800000000000"

definition MAX_TMV_TO_TIMEINTERVAL :: i64 where
  "MAX_TMV_TO_TIMEINTERVAL = 0x00007FFFFFFFFFFF"

definition tmv_add :: "tmv_t \<Rightarrow> tmv_t \<Rightarrow> tmv_t" where
  "tmv_add a b = a + b"

definition tmv_sub :: "tmv_t \<Rightarrow> tmv_t \<Rightarrow> tmv_t" where
  "tmv_sub a b = a - b"

definition tmv_div :: "tmv_t \<Rightarrow> int \<Rightarrow> tmv_t" where
  "tmv_div a divisor = word_of_int (sint a sdiv divisor)"

definition tmv_cmp :: "tmv_t \<Rightarrow> tmv_t \<Rightarrow> int" where
  "tmv_cmp a b = (if sint a = sint b then 0 else if sint a > sint b then 1 else -1)"

definition tmv_sign :: "tmv_t \<Rightarrow> int" where
  "tmv_sign x = (if sint x = 0 then 0 else if sint x > 0 then 1 else -1)"

definition tmv_is_zero :: "tmv_t \<Rightarrow> bool" where
  "tmv_is_zero x \<longleftrightarrow> sint x = 0"

definition tmv_zero :: tmv_t where
  "tmv_zero = 0"

definition correction_to_tmv :: "i64 \<Rightarrow> tmv_t" where
  "correction_to_tmv c = signed_drop_bit 16 c"

definition tmv_to_nanoseconds :: "tmv_t \<Rightarrow> i64" where
  "tmv_to_nanoseconds x = x"

definition nanoseconds_to_tmv :: "i64 \<Rightarrow> tmv_t" where
  "nanoseconds_to_tmv ns = ns"

definition tmv_to_TimeInterval :: "tmv_t \<Rightarrow> i64" where
  "tmv_to_TimeInterval x =
    (if sint x < sint MIN_TMV_TO_TIMEINTERVAL then push_bit 16 MIN_TMV_TO_TIMEINTERVAL
     else if sint x > sint MAX_TMV_TO_TIMEINTERVAL then push_bit 16 MAX_TMV_TO_TIMEINTERVAL
     else push_bit 16 x)"

text \<open>The divisor \<open>1000000000ULL\<close> makes the C division unsigned.\<close>

definition tmv_to_Timestamp :: "tmv_t \<Rightarrow> Timestamp" where
  "tmv_to_Timestamp x =
    (let s = x div 1000000000; ns = x mod 1000000000
     in \<lparr>seconds_msb = ucast (drop_bit 32 s AND 0xFFFF),
         seconds_lsb = ucast (s AND 0xFFFFFFFF),
         nanoseconds = ucast ns\<rparr>)"

definition timespec_to_tmv :: "timespec \<Rightarrow> tmv_t" where
  "timespec_to_tmv ts = tv_sec ts * NS_PER_SEC + tv_nsec ts"

definition tmv_to_timespec :: "tmv_t \<Rightarrow> timespec" where
  "tmv_to_timespec t =
    \<lparr>tv_sec = word_of_int (sint t sdiv sint NS_PER_SEC),
     tv_nsec = word_of_int (sint t smod sint NS_PER_SEC)\<rparr>"

definition timestamp_to_tmv :: "timestamp \<Rightarrow> tmv_t" where
  "timestamp_to_tmv ts = sec ts * NS_PER_SEC + ucast (nsec ts)"

definition pct_to_tmv :: "ptp_clock_time \<Rightarrow> tmv_t" where
  "pct_to_tmv pct = pct_sec pct * NS_PER_SEC + ucast (pct_nsec pct)"

section \<open>Algebra of time values\<close>

lemma tmv_add_sub_cancel [simp]: "tmv_sub (tmv_add a b) b = a"
  by (simp add: tmv_add_def tmv_sub_def)

lemma tmv_sub_add_cancel [simp]: "tmv_add (tmv_sub a b) b = a"
  by (simp add: tmv_add_def tmv_sub_def)

lemma tmv_is_zero_iff [simp]: "tmv_is_zero x \<longleftrightarrow> x = 0"
  by (simp add: tmv_is_zero_def word64_eq_iff_sint)

lemma tmv_cmp_le_0: "tmv_cmp a b \<le> 0 \<longleftrightarrow> sint a \<le> sint b"
  by (auto simp: tmv_cmp_def)

lemma tmv_cmp_antisym: "tmv_cmp b a = - tmv_cmp a b"
  by (auto simp: tmv_cmp_def)

lemma tmv_sign_pos: "tmv_sign x > 0 \<longleftrightarrow> sint x > 0"
  by (auto simp: tmv_sign_def)

lemma tmv_sign_cmp: "tmv_sign x = tmv_cmp x tmv_zero"
  by (simp add: tmv_sign_def tmv_cmp_def tmv_zero_def)

lemma sint_tmv_div:
  assumes "0 < d"
  shows "sint (tmv_div a d) = sint a sdiv d"
  using sdiv_pos_bounds [OF assms, of "sint a"] sint64_range [of a]
  unfolding tmv_div_def by (intro sint64_word_of_int) linarith+

section \<open>Conversions\<close>

definition clampi :: "int \<Rightarrow> int \<Rightarrow> int \<Rightarrow> int" where
  "clampi lo hi x = max lo (min hi x)"

lemma sint_MIN [simp]: "sint MIN_TMV_TO_TIMEINTERVAL = - (2 ^ 47)"
  and sint_MAX [simp]: "sint MAX_TMV_TO_TIMEINTERVAL = 2 ^ 47 - 1"
  by (simp_all add: MIN_TMV_TO_TIMEINTERVAL_def MAX_TMV_TO_TIMEINTERVAL_def)

lemma push_bit_16_word_of_int:
  "push_bit 16 (x :: i64) = word_of_int (sint x * 2 ^ 16)"
  by (simp add: push_bit_eq_mult mult.commute)

lemma sint_TimeInterval:
  "sint (tmv_to_TimeInterval x) = clampi (- (2 ^ 47)) (2 ^ 47 - 1) (sint x) * 2 ^ 16"
proof -
  have "tmv_to_TimeInterval x =
      word_of_int (clampi (- (2 ^ 47)) (2 ^ 47 - 1) (sint x) * 2 ^ 16)"
    by (auto simp: tmv_to_TimeInterval_def push_bit_16_word_of_int clampi_def)
  moreover have "clampi (- (2 ^ 47)) (2 ^ 47 - 1) (sint x) \<in> {- (2 ^ 47) .. 2 ^ 47 - 1}"
    by (auto simp: clampi_def)
  ultimately show ?thesis
    using sint64_word_of_int [of "clampi (- (2 ^ 47)) (2 ^ 47 - 1) (sint x) * 2 ^ 16"] by auto
qed

lemma sint_correction_to_tmv: "sint (correction_to_tmv c) = sint c div 2 ^ 16"
  by (simp add: correction_to_tmv_def sint_signed_drop_bit_eq drop_bit_eq_div)

text \<open>Converting a time value to the wire format \<open>TimeInterval\<close> (nanoseconds scaled by
  \<open>2^16\<close> in a signed 64-bit integer) saturates instead of overflowing: the signed result is
  exactly the value clamped to 48 bits, times \<open>2^16\<close>, and reading it back as a correction gives
  the clamped value.\<close>

theorem tmv_TimeInterval_roundtrip:
  "sint (tmv_to_TimeInterval x) = clampi (- (2 ^ 47)) (2 ^ 47 - 1) (sint x) * 2 ^ 16 \<and>
   sint (correction_to_tmv (tmv_to_TimeInterval x)) = clampi (- (2 ^ 47)) (2 ^ 47 - 1) (sint x)"
  by (simp add: sint_TimeInterval sint_correction_to_tmv)

lemma sint_NS_PER_SEC [simp]: "sint NS_PER_SEC = 1000000000"
  by (simp add: NS_PER_SEC_def)

text \<open>Splitting any time value, negative ones included, into seconds and nanoseconds of a
  \<open>struct timespec\<close> loses nothing, and both parts carry the sign of the value with the
  nanoseconds below one second.\<close>

theorem tmv_timespec_roundtrip:
  "timespec_to_tmv (tmv_to_timespec t) = t \<and>
   \<bar>sint (tv_nsec (tmv_to_timespec t))\<bar> < 1000000000"
proof -
  let ?q = "sint t sdiv 1000000000" and ?r = "sint t smod 1000000000"
  have eq: "?q * 1000000000 + ?r = sint t"
    by (rule sdiv_mult_smod_eq)
  have "timespec_to_tmv (tmv_to_timespec t) = word_of_int (?q * 1000000000 + ?r)"
    by (simp add: timespec_to_tmv_def tmv_to_timespec_def NS_PER_SEC_def)
  moreover have "sint (word_of_int ?r :: i64) = ?r" and "\<bar>?r\<bar> < 1000000000"
    using smod_int_range [of 1000000000 "sint t"] by (auto intro!: sint64_word_of_int)
  ultimately show ?thesis using eq by (simp add: tmv_to_timespec_def)
qed

definition Timestamp_value :: "Timestamp \<Rightarrow> nat" where
  "Timestamp_value T = (unat (seconds_msb T) * 2 ^ 32 + unat (seconds_lsb T)) * 1000000000 +
     unat (nanoseconds T)"

lemma unat_low32: "unat (ucast (s AND 0xFFFFFFFF :: u64) :: u32) = unat s mod 2 ^ 32"
proof -
  have "(s AND 0xFFFFFFFF) = take_bit 32 s"
    by (simp add: take_bit_eq_mask mask_eq_exp_minus_1)
  then show ?thesis
    by (simp add: unsigned_ucast_eq take_bit_eq_mod unat_mod)
qed

lemma unat_high16:
  "unat (ucast (drop_bit 32 s AND 0xFFFF :: u64) :: u16) = unat s div 2 ^ 32 mod 2 ^ 16"
proof -
  have "(drop_bit 32 s AND 0xFFFF) = take_bit 16 (drop_bit 32 s)"
    by (simp add: take_bit_eq_mask mask_eq_exp_minus_1)
  then show ?thesis
    by (simp add: unsigned_ucast_eq take_bit_eq_mod drop_bit_eq_div unat_mod unat_div)
qed

text \<open>The wire time stamp of a time value denotes the 64-bit value itself, with the
  nanoseconds below one second; for a value that is not negative this is its signed reading,
  so no bit of the seconds is lost in the 16 + 32 bit split.\<close>

theorem tmv_to_Timestamp_value:
  "Timestamp_value (tmv_to_Timestamp x) = unat x \<and>
   unat (nanoseconds (tmv_to_Timestamp x)) < 1000000000 \<and>
   (0 \<le> sint x \<longrightarrow> int (Timestamp_value (tmv_to_Timestamp x)) = sint x)"
proof -
  let ?s = "unat x div 1000000000"
  have "unat x < 2 ^ 64" using unsigned_less [of x] by simp
  then have s: "?s < 2 ^ 48" by (simp add: less_mult_imp_div_less)
  then have hi: "?s div 2 ^ 32 mod 2 ^ 16 = ?s div 2 ^ 32"
    by (simp add: less_mult_imp_div_less)
  have ns: "unat (ucast (x mod 1000000000) :: u32) = unat x mod 1000000000"
    by (simp add: unsigned_ucast_eq unat_mod take_bit_eq_mod)
  have "Timestamp_value (tmv_to_Timestamp x) = ?s * 1000000000 + unat x mod 1000000000"
    using hi ns div_mult_mod_eq [of ?s "2 ^ 32"]
    by (simp add: Timestamp_value_def tmv_to_Timestamp_def Let_def unat_low32 unat_high16 unat_div
        del: div_mult_mod_eq)
  moreover have "0 \<le> sint x \<longrightarrow> int (unat x) = sint x"
    using unat64_sint_nonneg [of x] by blast
  ultimately show ?thesis using ns by (simp add: tmv_to_Timestamp_def Let_def)
qed

theorem tmv_to_Timestamp_value_witness:
  "0 \<le> sint (3000000007 :: tmv_t) \<and>
   int (Timestamp_value (tmv_to_Timestamp 3000000007)) = 3000000007"
  using tmv_to_Timestamp_value [of 3000000007] by simp

end
