(* ===== verification/Msg.thy ===== *)
theory Msg
  imports Tlv_Safety Tmv
begin

text \<open>
  \<open>msg.c\<close> and the inline functions of \<open>msg.h\<close>: the conversion of whole messages between network
  and host byte order. A message keeps its octets in \<open>m_buf\<close> (the union of the packed structs, up
  to \<open>tail_room\<close>) and the descriptors of its TLVs in \<open>m_tlv_list\<close>. The clock reading of
  \<open>clock_gettime\<close> and the number of TLV descriptors that can be allocated are arguments. The
  reference counts and the pool of free messages are in \<open>Msg_Pool\<close>.
\<close>

unbundle bit_operations_syntax

section \<open>Messages\<close>

record ptp_message =
  m_buf :: buf
  m_refcnt :: int
  m_pdu :: timestamp
  m_host :: timespec
  m_hwts_ts :: i64
  m_tlv_list :: "tlv_extra list"

abbreviation "PTP_MAJOR_VERSION \<equiv> 2 :: u8"
abbreviation "MAJOR_VERSION_MASK \<equiv> 0x0f :: u8"
abbreviation "TWO_STEP \<equiv> 2 :: u8"
abbreviation "UNICAST \<equiv> 4 :: u8"

definition msg_type :: "buf \<Rightarrow> u8 option" where
  "msg_type b = do { tsmt \<leftarrow> rd8 b (offsetof ptp_header_layout ''tsmt''); Some (tsmt AND 0x0f) }"

definition msg_transport_specific :: "buf \<Rightarrow> u8 option" where
  "msg_transport_specific b = do { tsmt \<leftarrow> rd8 b (offsetof ptp_header_layout ''tsmt''); Some (tsmt AND 0xf0) }"

definition management_action :: "buf \<Rightarrow> u8 option" where
  "management_action b = do { f \<leftarrow> rd8 b (offsetof management_msg_layout ''flags''); Some (f AND 0x0f) }"

definition field_is_set :: "buf \<Rightarrow> nat \<Rightarrow> u8 \<Rightarrow> bool option" where
  "field_is_set b index msk = do {
     f \<leftarrow> rd8 b (offsetof ptp_header_layout ''flagField'' + index); Some (f AND msk \<noteq> 0) }"

definition msg_unicast :: "buf \<Rightarrow> bool option" where
  "msg_unicast b = field_is_set b 0 UNICAST"

definition one_step :: "bool \<Rightarrow> buf \<Rightarrow> bool option" where
  "one_step assume_two_step b =
    (if assume_two_step then Some False else do { s \<leftarrow> field_is_set b 0 TWO_STEP; Some (\<not> s) })"

definition msg_sots_valid :: "ptp_message \<Rightarrow> bool" where
  "msg_sots_valid m = (\<not> tmv_is_zero (m_hwts_ts m))"

definition msg_sots_missing :: "ptp_message \<Rightarrow> bool option" where
  "msg_sots_missing m = do {
     ty \<leftarrow> msg_type (m_buf m);
     Some (if ty \<in> {SYNC, DELAY_REQ, PDELAY_REQ, PDELAY_RESP} then \<not> msg_sots_valid m else False)
   }"

definition msg_type_string :: "u8 \<Rightarrow> string" where
  "msg_type_string ty =
    (if ty = SYNC then ''SYNC'' else if ty = DELAY_REQ then ''DELAY_REQ''
     else if ty = PDELAY_REQ then ''PDELAY_REQ'' else if ty = PDELAY_RESP then ''PDELAY_RESP''
     else if ty = FOLLOW_UP then ''FOLLOW_UP'' else if ty = DELAY_RESP then ''DELAY_RESP''
     else if ty = PDELAY_RESP_FOLLOW_UP then ''PDELAY_RESP_FOLLOW_UP''
     else if ty = ANNOUNCE then ''ANNOUNCE'' else if ty = SIGNALING then ''SIGNALING''
     else if ty = MANAGEMENT then ''MANAGEMENT'' else ''unknown'')"

section \<open>Headers and bodies\<close>

definition announce_pre_send :: "buf \<Rightarrow> buf option" where
  "announce_pre_send b = swaps 0 (flds announce_msg_layout
     [''currentUtcOffset'', ''grandmasterClockQuality.offsetScaledLogVariance'', ''stepsRemoved'']) b"

definition announce_post_recv :: "buf \<Rightarrow> buf option" where
  "announce_post_recv b = swaps 0 (flds announce_msg_layout
     [''currentUtcOffset'', ''grandmasterClockQuality.offsetScaledLogVariance'', ''stepsRemoved'']) b"

definition hdr_post_recv :: "buf \<Rightarrow> (errno option \<times> buf) option" where
  "hdr_post_recv b = do {
     ver \<leftarrow> rd8 b (offsetof ptp_header_layout ''ver'');
     if ver AND MAJOR_VERSION_MASK \<noteq> PTP_MAJOR_VERSION then Some (Some EPROTO, b)
     else do {
       b \<leftarrow> swaps 0 (flds ptp_header_layout
              [''messageLength'', ''correction'', ''sourcePortIdentity.portNumber'', ''sequenceId'']) b;
       Some (None, b)
     }
   }"

definition hdr_pre_send :: "buf \<Rightarrow> buf option" where
  "hdr_pre_send b = swaps 0 (flds ptp_header_layout
     [''messageLength'', ''correction'', ''sourcePortIdentity.portNumber'', ''sequenceId'']) b"

text \<open>The offset of the \<open>suffix\<close> member.\<close>

definition msg_suffix :: "u8 \<Rightarrow> nat option" where
  "msg_suffix ty =
    (if ty = SYNC then Some (sizeof sync_msg_layout)
     else if ty = DELAY_REQ then Some (sizeof delay_req_msg_layout)
     else if ty = PDELAY_REQ then Some (sizeof pdelay_req_msg_layout)
     else if ty = PDELAY_RESP then Some (sizeof pdelay_resp_msg_layout)
     else if ty = FOLLOW_UP then Some (sizeof follow_up_msg_layout)
     else if ty = DELAY_RESP then Some (sizeof delay_resp_msg_layout)
     else if ty = PDELAY_RESP_FOLLOW_UP then Some (sizeof pdelay_resp_fup_msg_layout)
     else if ty = ANNOUNCE then Some (sizeof announce_msg_layout)
     else if ty = SIGNALING then Some (sizeof signaling_msg_layout)
     else if ty = MANAGEMENT then Some (sizeof management_msg_layout)
     else None)"

text \<open>\<open>p\<close> is the offset of the \<open>portNumber\<close> member.\<close>

definition port_id_post_recv :: "nat \<Rightarrow> buf \<Rightarrow> buf option" where
  "port_id_post_recv p b = swap_at p 2 b"

definition port_id_pre_send :: "nat \<Rightarrow> buf \<Rightarrow> buf option" where
  "port_id_pre_send p b = swap_at p 2 b"

text \<open>The value of a field in network byte order.\<close>

definition rd_net :: "buf \<Rightarrow> field \<Rightarrow> nat \<Rightarrow> nat option" where
  "rd_net b f base =
    (case f of (i, w) \<Rightarrow>
       if base + i + w \<le> length b
       then Some (foldl (\<lambda>a x. a * 256 + unat x) 0 (take w (drop (base + i) b))) else None)"

text \<open>\<open>timestamp_post_recv\<close> reads the time stamp into \<open>ts.pdu\<close> and leaves the octets alone.\<close>

definition timestamp_post_recv :: "nat \<Rightarrow> buf \<Rightarrow> timestamp option" where
  "timestamp_post_recv ts b = do {
     lsb \<leftarrow> rd_net b (fld Timestamp_layout ''seconds_lsb'') ts;
     msb \<leftarrow> rd_net b (fld Timestamp_layout ''seconds_msb'') ts;
     ns \<leftarrow> rd_net b (fld Timestamp_layout ''nanoseconds'') ts;
     Some \<lparr>sec = of_nat lsb OR push_bit 32 (of_nat msb), nsec = of_nat ns\<rparr>
   }"

definition timestamp_pre_send :: "nat \<Rightarrow> buf \<Rightarrow> buf option" where
  "timestamp_pre_send ts b = swaps ts (flds Timestamp_layout [''seconds_lsb'', ''seconds_msb'', ''nanoseconds'']) b"

section \<open>The TLVs of a message\<close>

text \<open>The descriptors come from a pool and then from \<open>calloc\<close>: \<open>mem\<close> of them can be had.
  \<open>tlv_extra_recycle\<close> clears a descriptor, so a new one points nowhere.\<close>

definition tlv_extra_alloc :: "nat \<Rightarrow> tlv_extra option" where
  "tlv_extra_alloc mem = (if mem = 0 then None else Some \<lparr>te_tlv = 0, te_cd = null_cd\<rparr>)"

definition msg_tlv_attach :: "tlv_extra list \<Rightarrow> tlv_extra \<Rightarrow> tlv_extra list" where
  "msg_tlv_attach l extra = l @ [extra]"

text \<open>The loop of \<open>suffix_post_recv\<close>: \<open>len\<close> octets are left at \<open>ptr\<close>, \<open>l\<close> is the list of TLVs
  so far. The result is an errno or the length of the TLVs read.\<close>

function suffix_post_recv_loop ::
  "nat \<Rightarrow> nat \<Rightarrow> nat \<Rightarrow> nat \<Rightarrow> buf \<Rightarrow> tlv_extra list \<Rightarrow> ((errno + nat) \<times> buf \<times> tlv_extra list) option"
where
  "suffix_post_recv_loop mem ptr len suffix_len b l =
    (if len < sizeof TLV_layout then Some (Inr suffix_len, b, l)
     else case tlv_extra_alloc mem of
       None \<Rightarrow> Some (Inl ENOMEM, b, l)
     | Some extra \<Rightarrow> do {
         let extra = extra\<lparr>te_tlv := ptr\<rparr>;
         b \<leftarrow> swaps ptr (flds TLV_layout [''type'', ''length'']) b;
         tl \<leftarrow> rd16 b (ptr + offsetof TLV_layout ''length'');
         if odd (unat tl) then Some (Inl EBADMSG, b, l)
         else if len - sizeof TLV_layout < unat tl then Some (Inl EBADMSG, b, l)
         else do {
           (err, b, extra) \<leftarrow> tlv_post_recv b extra;
           case err of
             Some e \<Rightarrow> Some (Inl e, b, l)
           | None \<Rightarrow> suffix_post_recv_loop (mem - 1) (ptr + sizeof TLV_layout + unat tl)
               (len - sizeof TLV_layout - unat tl) (suffix_len + sizeof TLV_layout + unat tl) b
               (msg_tlv_attach l extra)
         }
       })"
  by pat_completeness auto
termination
  by (relation "measure (\<lambda>(mem, ptr, len, suffix_len, b, l). len)") (auto simp: layout_simps)

declare suffix_post_recv_loop.simps [simp del]

definition suffix_post_recv ::
  "nat \<Rightarrow> u8 \<Rightarrow> nat \<Rightarrow> buf \<Rightarrow> tlv_extra list \<Rightarrow> ((errno + nat) \<times> buf \<times> tlv_extra list) option" where
  "suffix_post_recv mem ty len b l =
    (case msg_suffix ty of
       None \<Rightarrow> Some (Inr 0, b, l)
     | Some ptr \<Rightarrow> suffix_post_recv_loop mem ptr len 0 b [])"

fun suffix_pre_send :: "tlv_extra list \<Rightarrow> buf \<Rightarrow> buf option" where
  "suffix_pre_send [] b = Some b"
| "suffix_pre_send (extra # l) b = do {
     let tlv = te_tlv extra;
     b \<leftarrow> tlv_pre_send tlv (Some extra) b;
     b \<leftarrow> swaps tlv (flds TLV_layout [''type'', ''length'']) b;
     suffix_pre_send l b
   }"

section \<open>Whole messages\<close>

definition body_post_recv :: "u8 \<Rightarrow> timespec \<Rightarrow> ptp_message \<Rightarrow> ptp_message option" where
  "body_post_recv ty now m =
    (if ty = SYNC then do {
       ts \<leftarrow> timestamp_post_recv (offsetof sync_msg_layout ''originTimestamp.seconds_msb'') (m_buf m);
       Some (m\<lparr>m_pdu := ts\<rparr>) }
     else if ty = DELAY_REQ then Some m
     else if ty = PDELAY_REQ then Some m
     else if ty = PDELAY_RESP then do {
       ts \<leftarrow> timestamp_post_recv (offsetof pdelay_resp_msg_layout ''requestReceiptTimestamp.seconds_msb'') (m_buf m);
       b \<leftarrow> port_id_post_recv (offsetof pdelay_resp_msg_layout ''requestingPortIdentity.portNumber'') (m_buf m);
       Some (m\<lparr>m_pdu := ts, m_buf := b\<rparr>) }
     else if ty = FOLLOW_UP then do {
       ts \<leftarrow> timestamp_post_recv (offsetof follow_up_msg_layout ''preciseOriginTimestamp.seconds_msb'') (m_buf m);
       Some (m\<lparr>m_pdu := ts\<rparr>) }
     else if ty = DELAY_RESP then do {
       ts \<leftarrow> timestamp_post_recv (offsetof delay_resp_msg_layout ''receiveTimestamp.seconds_msb'') (m_buf m);
       b \<leftarrow> port_id_post_recv (offsetof delay_resp_msg_layout ''requestingPortIdentity.portNumber'') (m_buf m);
       Some (m\<lparr>m_pdu := ts, m_buf := b\<rparr>) }
     else if ty = PDELAY_RESP_FOLLOW_UP then do {
       ts \<leftarrow> timestamp_post_recv (offsetof pdelay_resp_fup_msg_layout ''responseOriginTimestamp.seconds_msb'') (m_buf m);
       b \<leftarrow> port_id_post_recv (offsetof pdelay_resp_fup_msg_layout ''requestingPortIdentity.portNumber'') (m_buf m);
       Some (m\<lparr>m_pdu := ts, m_buf := b\<rparr>) }
     else if ty = ANNOUNCE then do {
       ts \<leftarrow> timestamp_post_recv (offsetof announce_msg_layout ''originTimestamp.seconds_msb'') (m_buf m);
       b \<leftarrow> announce_post_recv (m_buf m);
       Some (m\<lparr>m_host := now, m_pdu := ts, m_buf := b\<rparr>) }
     else if ty = SIGNALING then do {
       b \<leftarrow> port_id_post_recv (offsetof signaling_msg_layout ''targetPortIdentity.portNumber'') (m_buf m);
       Some (m\<lparr>m_buf := b\<rparr>) }
     else if ty = MANAGEMENT then do {
       b \<leftarrow> port_id_post_recv (offsetof management_msg_layout ''targetPortIdentity.portNumber'') (m_buf m);
       Some (m\<lparr>m_buf := b\<rparr>) }
     else Some m)"

text \<open>\<open>cnt\<close> is an \<open>int\<close>: the first comparison converts it to \<open>size_t\<close>, the second does not.
  \<open>pdulen\<close> of the code is the offset of the suffix.\<close>

definition msg_post_recv :: "timespec \<Rightarrow> nat \<Rightarrow> ptp_message \<Rightarrow> int \<Rightarrow> (errno option \<times> ptp_message) option" where
  "msg_post_recv now mem m cnt =
    (if (word_of_int cnt :: u64) < of_nat (sizeof ptp_header_layout) then Some (Some EBADMSG, m)
     else do {
       (err, b) \<leftarrow> hdr_post_recv (m_buf m);
       let m = m\<lparr>m_buf := b\<rparr>;
       if err \<noteq> None then Some (err, m)
       else do {
         ty \<leftarrow> msg_type (m_buf m);
         case msg_suffix ty of
           None \<Rightarrow> Some (Some EBADMSG, m)
         | Some pdulen \<Rightarrow>
             if cnt < int pdulen then Some (Some EBADMSG, m)
             else do {
               m \<leftarrow> body_post_recv ty now m;
               (r, b, l) \<leftarrow> suffix_post_recv mem ty (nat (cnt - int pdulen)) (m_buf m) (m_tlv_list m);
               let m = m\<lparr>m_buf := b, m_tlv_list := l\<rparr>;
               case r of
                 Inl e \<Rightarrow> Some (Some e, m)
               | Inr suffix_len \<Rightarrow> do {
                   messageLength \<leftarrow> rd16 (m_buf m) (offsetof ptp_header_layout ''messageLength'');
                   if pdulen + suffix_len \<noteq> unat messageLength then Some (Some EBADMSG, m)
                   else Some (None, m)
                 }
             }
       }
     })"

definition body_pre_send :: "u8 \<Rightarrow> buf \<Rightarrow> buf option" where
  "body_pre_send ty b =
    (if ty = SYNC then Some b
     else if ty = DELAY_REQ then Some b
     else if ty = PDELAY_REQ then Some b
     else if ty = PDELAY_RESP then do {
       b \<leftarrow> timestamp_pre_send (offsetof pdelay_resp_msg_layout ''requestReceiptTimestamp.seconds_msb'') b;
       port_id_pre_send (offsetof pdelay_resp_msg_layout ''requestingPortIdentity.portNumber'') b }
     else if ty = FOLLOW_UP then
       timestamp_pre_send (offsetof follow_up_msg_layout ''preciseOriginTimestamp.seconds_msb'') b
     else if ty = DELAY_RESP then do {
       b \<leftarrow> timestamp_pre_send (offsetof delay_resp_msg_layout ''receiveTimestamp.seconds_msb'') b;
       swaps 0 (flds delay_resp_msg_layout [''requestingPortIdentity.portNumber'']) b }
     else if ty = PDELAY_RESP_FOLLOW_UP then do {
       b \<leftarrow> timestamp_pre_send (offsetof pdelay_resp_fup_msg_layout ''responseOriginTimestamp.seconds_msb'') b;
       port_id_pre_send (offsetof pdelay_resp_fup_msg_layout ''requestingPortIdentity.portNumber'') b }
     else if ty = ANNOUNCE then announce_pre_send b
     else if ty = SIGNALING then
       port_id_pre_send (offsetof signaling_msg_layout ''targetPortIdentity.portNumber'') b
     else if ty = MANAGEMENT then
       port_id_pre_send (offsetof management_msg_layout ''targetPortIdentity.portNumber'') b
     else None)"

text \<open>The result is the return value and the message. \<open>body_pre_send\<close> is only reached for the ten
  message types.\<close>

definition msg_pre_send :: "timespec \<Rightarrow> ptp_message \<Rightarrow> (int \<times> ptp_message) option" where
  "msg_pre_send now m = do {
     b \<leftarrow> hdr_pre_send (m_buf m);
     ty \<leftarrow> msg_type b;
     if msg_suffix ty = None then Some (- 1, m\<lparr>m_buf := b\<rparr>)
     else do {
       let m = (if ty = DELAY_REQ then m\<lparr>m_host := now\<rparr> else m);
       b \<leftarrow> body_pre_send ty b;
       b \<leftarrow> suffix_pre_send (m_tlv_list m) b;
       Some (0, m\<lparr>m_buf := b\<rparr>)
     }
   }"

section \<open>Appending TLVs\<close>

abbreviation "tail_room \<equiv> 1500 :: nat" \<comment> \<open>\<open>sizeof(struct message_data)\<close>\<close>

text \<open>\<open>length\<close> is an \<open>int\<close>: the end of the new TLV is computed from it without a check that it
  is not negative.\<close>

definition msg_tlv_prepare :: "nat \<Rightarrow> ptp_message \<Rightarrow> int \<Rightarrow> tlv_extra option option" where
  "msg_tlv_prepare mem m len = do {
     ty \<leftarrow> msg_type (m_buf m);
     case msg_suffix ty of
       None \<Rightarrow> Some None
     | Some ptr \<Rightarrow> do {
         ptr \<leftarrow> (if m_tlv_list m = [] then Some ptr
                 else do {
                   let tmp = last (m_tlv_list m);
                   tl \<leftarrow> rd16 (m_buf m) (te_tlv tmp + offsetof TLV_layout ''length'');
                   Some (te_tlv tmp + 2 + 2 + unat tl)
                 });
         if int ptr + len > int tail_room then Some None
         else case tlv_extra_alloc mem of
           None \<Rightarrow> Some None
         | Some extra \<Rightarrow> Some (Some (extra\<lparr>te_tlv := ptr\<rparr>))
       }
   }"

definition wr16 :: "nat \<Rightarrow> u16 \<Rightarrow> buf \<Rightarrow> buf" where
  "wr16 i v b = b[i := ucast v, Suc i := ucast (drop_bit 8 v)]"

definition msg_tlv_append :: "nat \<Rightarrow> ptp_message \<Rightarrow> int \<Rightarrow> (tlv_extra option \<times> ptp_message) option" where
  "msg_tlv_append mem m len = do {
     r \<leftarrow> msg_tlv_prepare mem m len;
     case r of
       None \<Rightarrow> Some (None, m)
     | Some extra \<Rightarrow> do {
         ml \<leftarrow> rd16 (m_buf m) (offsetof ptp_header_layout ''messageLength'');
         Some (Some extra,
           m\<lparr>m_buf := wr16 (offsetof ptp_header_layout ''messageLength'') (ml + word_of_int len) (m_buf m),
             m_tlv_list := msg_tlv_attach (m_tlv_list m) extra\<rparr>)
       }
   }"

definition msg_tlv_count :: "ptp_message \<Rightarrow> nat" where
  "msg_tlv_count m = foldl (\<lambda>count _. count + 1) 0 (m_tlv_list m)"

text \<open>\<open>msg_tlv_copy\<close>: \<open>dup\<close> is still in network byte order, its descriptors point to the same
  offsets.\<close>

definition msg_tlv_copy :: "ptp_message \<Rightarrow> ptp_message \<Rightarrow> (int \<times> ptp_message) option" where
  "msg_tlv_copy m dup = do {
     ty \<leftarrow> msg_type (m_buf m);
     ty' \<leftarrow> msg_type (m_buf dup);
     if ty \<noteq> ty' then Some (- 1, dup)
     else do {
       ml \<leftarrow> rd16 (m_buf m) (offsetof ptp_header_layout ''messageLength'');
       dml \<leftarrow> rd_net (m_buf dup) (fld ptp_header_layout ''messageLength'') 0;
       if unat ml \<noteq> dml then Some (- 1, dup)
       else Some (0, dup\<lparr>m_tlv_list := foldl msg_tlv_attach (m_tlv_list dup)
              (map (\<lambda>extra. \<lparr>te_tlv = te_tlv extra, te_cd = null_cd\<rparr>) (m_tlv_list m))\<rparr>)
     }
   }"

end
