(* ===== verification/Msg_Safety.thy ===== *)
theory Msg_Safety
  imports Msg
begin

text \<open>
  Safety of \<open>msg_post_recv\<close> and its round trip with \<open>msg_pre_send\<close>, built on the TLV theory.
\<close>

section \<open>Suffixes\<close>

text \<open>The descriptors \<open>l\<close> describe, one after the other and without gaps, TLVs of even length
  (in host byte order) that fill the octets from \<open>p\<close> to \<open>q\<close>.\<close>

fun tiles :: "nat \<Rightarrow> nat \<Rightarrow> buf \<Rightarrow> tlv_extra list \<Rightarrow> bool" where
  "tiles p q b [] \<longleftrightarrow> p = q"
| "tiles p q b (x # l) \<longleftrightarrow> te_tlv x = p \<and>
    (case rd16 b (p + 2) of None \<Rightarrow> False
     | Some ln \<Rightarrow> even (unat ln) \<and> tiles (p + 4 + unat ln) q b l)"

lemma tiles_le: "tiles p q b l \<Longrightarrow> p \<le> q"
  by (induction p q b l rule: tiles.induct) (auto split: option.splits)

lemma tlv_header_conv:
  assumes "ptr + 4 \<le> length b"
  shows "swaps ptr [(0, 2), (2, 2)] b = Some (swl ptr [(0, 2), (2, 2)] b)"
    and "conv ptr (ptr + 4) b (swl ptr [(0, 2), (2, 2)] b) (swaps ptr [(0, 2), (2, 2)])"
proof -
  have w: "within 0 4 [(0, 2), (2, 2)]" and d: "disjoint_fields [(0, 2), (2, 2)]" by simp_all
  show "swaps ptr [(0, 2), (2, 2)] b = Some (swl ptr [(0, 2), (2, 2)] b)"
    using assms by (intro swaps_in [OF w])
  show "conv ptr (ptr + 4) b (swl ptr [(0, 2), (2, 2)] b) (swaps ptr [(0, 2), (2, 2)])"
    using assms by (intro conv_swaps_in [OF w d]) simp_all
qed

text \<open>One TLV of the suffix: the header and the value behind it. The header of an alternate time offset TLV must not be so near to
  the end of the buffer that the length of its display name is outside: the octets at \<open>t\<close> are those of the type 9.\<close>

lemma octets_of_16:
  assumes "ucast (x :: u8) * 256 + ucast (y :: u8) = (n :: u16)"
  shows "unat x * 256 + unat y = unat n"
proof -
  have b: "unat x < 256" "unat y < 256" using unsigned_less [of x, where ?'a = nat] unsigned_less [of y, where ?'a = nat] by simp_all
  have "n = of_nat (unat x * 256 + unat y)" using assms by (simp add: of_nat_unat flip: assms)
  then have "unat n = unat (of_nat (unat x * 256 + unat y) :: u16)" by (rule arg_cong)
  also have "\<dots> = unat x * 256 + unat y" using b by (subst unsigned_of_nat) (simp add: take_bit_nat_eq_self)
  finally show ?thesis by simp
qed

lemma tlv_type_9:
  assumes "ptr + 4 \<le> length b" and "rd16 (swl ptr [(0, 2), (2, 2)] b) ptr = Some 9"
  shows "b ! ptr = 0 \<and> b ! (ptr + 1) = 9"
proof -
  have "swl ptr [(0, 2), (2, 2)] b ! Suc ptr = b ! ptr" "swl ptr [(0, 2), (2, 2)] b ! ptr = b ! (ptr + 1)"
    using assms(1) by (simp_all add: nth_swp mult_2)
  then have "ucast (b ! ptr) * 256 + ucast (b ! (ptr + 1)) = (9 :: u16)"
    using assms by (simp add: rd16_def del: swl.simps)
  from octets_of_16 [OF this] have "unat (b ! ptr) * 256 + unat (b ! (ptr + 1)) = 9" by simp
  moreover from this have "unat (b ! ptr) = 0" by linarith
  ultimately have "unat (b ! ptr) = 0" "unat (b ! (ptr + 1)) = 9" by simp_all
  then have "unat (b ! ptr) = unat (0 :: u8)" "unat (b ! (ptr + 1)) = unat (9 :: u8)" by simp_all
  then show ?thesis by (simp only: word_unat_eq_iff)
qed

definition alttime_at_end :: "buf \<Rightarrow> nat \<Rightarrow> nat \<Rightarrow> bool" where
  "alttime_at_end b lo hi \<longleftrightarrow> (\<exists>t. lo \<le> t \<and> t + 4 \<le> hi \<and> length b < t + 20 \<and> b ! t = 0 \<and> b ! (t + 1) = 9)"

lemma alttime_frame:
  assumes "frame lo' p b c" "alttime_at_end c p hi" "hi \<le> length b" "lo \<le> p"
  shows "alttime_at_end b lo hi"
proof -
  obtain t where t: "p \<le> t" "t + 4 \<le> hi" "length c < t + 20" "c ! t = 0" "c ! (t + 1) = 9"
    using assms(2) by (auto simp: alttime_at_end_def)
  have "b ! t = c ! t" "b ! (t + 1) = c ! (t + 1)" "length c = length b" using assms(1,3) t(1,2) by (simp_all add: frame_def)
  then show ?thesis using t assms(4) unfolding alttime_at_end_def by (intro exI [of _ t]) simp
qed

text \<open>The authentication TLVs of a message have room for their fixed fields.\<close>

definition auth_lengths :: "buf \<Rightarrow> tlv_extra list \<Rightarrow> bool" where
  "auth_lengths b l \<longleftrightarrow> list_all (\<lambda>x. rd16 b (te_tlv x) = Some TLV_AUTHENTICATION \<longrightarrow>
     (\<exists>ln. rd16 b (te_tlv x + 2) = Some ln \<and> 10 \<le> unat ln)) l"

lemma auth_accept_length:
  assumes "tlv_post_recv b ex = Some (None, b', ex')" and "rd16 b (te_tlv ex) = Some TLV_AUTHENTICATION"
    and "rd16 b (te_tlv ex + 2) = Some ln"
  shows "10 \<le> unat ln"
  using assms by (simp add: tlv_post_recv_def auth_post_recv_def layout_simps Let_def split: if_splits)

lemma alttime_inside:
  assumes "tlv_post_recv b ex \<noteq> None" "rd16 b (te_tlv ex) = Some TLV_ALTERNATE_TIME_OFFSET_INDICATOR"
  shows "te_tlv ex + 20 \<le> length b"
  using assms by (auto simp: tlv_post_recv_def alttime_offset_post_recv_def layout_simps Let_def rd8_def split: Option.bind_splits if_splits)

lemma suffix_step:
  assumes "ptr + len \<le> length b" and "4 \<le> len" and safe: "\<not> alttime_at_end b ptr (ptr + len) \<or> tlv_post_recv b1 ex \<noteq> None"
    and b1: "b1 = swl ptr [(0, 2), (2, 2)] b" and ln: "rd16 b1 (ptr + 2) = Some ln"
    and "unat ln \<le> len - 4" and ex: "te_tlv ex = ptr"
  shows "\<exists>e b2 ex2. tlv_post_recv b1 ex = Some (e, b2, ex2) \<and> te_tlv ex2 = ptr \<and>
    rd16 b2 (ptr + 2) = Some ln \<and> frame ptr (ptr + 4 + unat ln) b b2 \<and>
    (e = None \<longrightarrow> rd16 b2 ptr = Some TLV_AUTHENTICATION \<longrightarrow> 10 \<le> unat ln) \<and>
    (e = None \<longrightarrow> conv ptr (ptr + 4 + unat ln) b b2
      (\<lambda>c. do { c \<leftarrow> tlv_pre_send ptr (Some ex2) c; swaps ptr [(0, 2), (2, 2)] c }))"
proof -
  let ?hi = "ptr + 4 + unat ln"
  have c1: "conv ptr (ptr + 4) b b1 (swaps ptr [(0, 2), (2, 2)])"
    unfolding b1 using assms(1,2) by (intro tlv_header_conv(2)) simp
  have f1: "frame ptr (ptr + 4) b b1" using c1 by (rule conv_frame) (use assms in simp)
  then have l1: "length b1 = length b" by (rule frame_length)
  obtain ty where ty: "rd16 b1 ptr = Some ty" using l1 assms(1,2) by (simp add: rd16_def)
  have "safe_at (ptr + 4) ptr ?hi b1 (tlv_post_recv b1 ex) (\<lambda>x. tlv_pre_send ptr (Some x))"
  proof (rule tlv_post_recv_safe_at [OF ex ty ln])
    show "ptr + 4 + unat ln \<le> length b1" using l1 assms by simp
    assume "ty = TLV_ALTERNATE_TIME_OFFSET_INDICATOR"
    then have "b ! ptr = 0 \<and> b ! (ptr + 1) = 9" "tlv_post_recv b1 ex \<noteq> None \<Longrightarrow> ptr + 20 \<le> length b1"
      using tlv_type_9 [of ptr b] ty assms(1,2) ex ln alttime_inside [of b1 ex] unfolding b1 by simp_all
    then show "ptr + 20 \<le> length b1"
      using safe l1 assms(2) unfolding alttime_at_end_def by (metis add_le_cancel_left le_refl not_less)
  qed
  then obtain e b2 x where r: "tlv_post_recv b1 ex = Some (e, b2, x)"
    and f2: "frame (ptr + 4) ?hi b1 b2"
    and c2: "e = None \<Longrightarrow> conv_at (ptr + 4) ptr ?hi b1 b2 (tlv_pre_send ptr (Some x))"
    unfolding safe_at_def by blast
  have "frame ptr ?hi b b2"
  proof (rule frame_trans)
    show "frame ptr ?hi b b1" using f1 by (rule frame_mono) simp_all
    show "frame ptr ?hi b1 b2" using f2 by (rule frame_mono) simp_all
  qed
  moreover have "rd16 b2 ptr = rd16 b1 ptr"
    using agree_rd16 [OF frame_agree [OF f2, of "ptr + 4" ptr], of ptr] by simp
  then have "rd16 b2 ptr = Some TLV_AUTHENTICATION \<longrightarrow> 10 \<le> unat ln" if "e = None"
    using auth_accept_length [of b1 ex b2 x ln] r ex ln that by auto
  moreover have "rd16 b2 (ptr + 2) = Some ln"
    using agree_rd16 [OF frame_agree [OF f2, of "ptr + 4" ptr], of "ptr + 2"] ln by simp
  moreover have "conv ptr ?hi b b2 (\<lambda>c. do { c \<leftarrow> tlv_pre_send ptr (Some x) c;
      swaps ptr [(0, 2), (2, 2)] c })" if "e = None"
    using c1 c2 [OF that] by (rule conv_at_seq) (use assms in simp_all)
  ultimately show ?thesis using r tlv_post_recv_te_tlv [OF r] ex by blast
qed

lemma suffix_loop_safe:
  assumes "ptr + len \<le> length b" and "\<not> alttime_at_end b ptr (ptr + len) \<or> suffix_post_recv_loop mem ptr len sl b l \<noteq> None"
  shows "\<exists>r b' l'. suffix_post_recv_loop mem ptr len sl b l = Some (r, b', l') \<and>
    frame ptr (ptr + len) b b' \<and>
    (\<forall>n. r = Inr n \<longrightarrow> (\<exists>l2. l' = l @ l2 \<and> sl \<le> n \<and> n - sl \<le> len \<and> len - (n - sl) < 4 \<and>
      tiles ptr (ptr + (n - sl)) b' l2 \<and> auth_lengths b' l2 \<and> conv ptr (ptr + len) b b' (suffix_pre_send l2)))"
  using assms
proof (induction len arbitrary: mem ptr sl b l rule: less_induct)
  case (less len)
  note unf = suffix_post_recv_loop.simps [of mem ptr len sl b l]
  have nil: "suffix_pre_send [] = Some" by (simp add: fun_eq_iff)
  consider "len < 4" | "4 \<le> len" "mem = 0" | "4 \<le> len" "mem \<noteq> 0" by linarith
  then show ?case
  proof cases
    case 1
    then show ?thesis unfolding unf by (simp add: layout_simps nil conv_refl auth_lengths_def)
  next
    case 2
    then show ?thesis unfolding unf by (simp add: layout_simps tlv_extra_alloc_def)
  next
    case 3
    let ?b1 = "swl ptr [(0, 2), (2, 2)] b" and ?ex = "\<lparr>te_tlv = ptr, te_cd = null_cd\<rparr>"
    have len4: "ptr + 4 \<le> length b" using less.prems 3 by simp
    note hdr = tlv_header_conv [OF len4]
    have f1: "frame ptr (ptr + 4) b ?b1" using hdr(2) len4 by (rule conv_frame)
    then have l1: "length ?b1 = length b" by (rule frame_length)
    obtain ln where ln: "rd16 ?b1 (ptr + 2) = Some ln" using l1 len4 by (simp add: rd16_def)
    have loop: "suffix_post_recv_loop mem ptr len sl b l =
       (if odd (unat ln) then Some (Inl EBADMSG, ?b1, l)
        else if len - 4 < unat ln then Some (Inl EBADMSG, ?b1, l)
        else do {
          (err, b, extra) \<leftarrow> tlv_post_recv ?b1 ?ex;
          case err of Some e \<Rightarrow> Some (Inl e, b, l)
          | None \<Rightarrow> suffix_post_recv_loop (mem - 1) (ptr + 4 + unat ln) (len - 4 - unat ln)
              (sl + 4 + unat ln) b (l @ [extra])
        })"
      using 3 hdr(1) ln
      by (simp add: unf layout_simps tlv_extra_alloc_def msg_tlv_attach_def cong: option.case_cong
          del: swaps.simps swl.simps)
    show ?thesis
    proof (cases "odd (unat ln) \<or> len - 4 < unat ln")
      case True
      moreover have "frame ptr (ptr + len) b ?b1" using f1 by (rule frame_mono) (use 3 in simp_all)
      ultimately show ?thesis by (auto simp: loop simp del: swl.simps)
    next
      case ok: False
      then have "\<not> len - 4 < unat ln" by simp
      with 3 have le: "4 + unat ln \<le> len" by linarith
      have loop_even: "even (unat ln)" using ok by simp
      have "suffix_post_recv_loop mem ptr len sl b l = None" if "tlv_post_recv ?b1 ?ex = None"
        using ok that by (simp add: loop del: swl.simps)
      then have safe: "\<not> alttime_at_end b ptr (ptr + len) \<or> tlv_post_recv ?b1 ?ex \<noteq> None" using less.prems(2) by blast
      let ?p = "ptr + 4 + unat ln"
      obtain e b2 x where r: "tlv_post_recv ?b1 ?ex = Some (e, b2, x)" and x: "te_tlv x = ptr"
        and rd: "rd16 b2 (ptr + 2) = Some ln" and f2: "frame ptr ?p b b2"
        and al: "e = None \<Longrightarrow> rd16 b2 ptr = Some TLV_AUTHENTICATION \<Longrightarrow> 10 \<le> unat ln"
        and c2: "e = None \<Longrightarrow> conv ptr ?p b b2
          (\<lambda>c. do { c \<leftarrow> tlv_pre_send ptr (Some x) c; swaps ptr [(0, 2), (2, 2)] c })"
        using suffix_step [OF less.prems(1) 3(1) safe refl ln] ok by auto
      have f2': "frame ptr (ptr + len) b b2" using f2 by (rule frame_mono) (use le in simp_all)
      show ?thesis
      proof (cases e)
        case (Some err)
        then show ?thesis using ok r f2' by (simp add: loop del: swl.simps)
      next
        case None
        have l2: "length b2 = length b" using f2 by (rule frame_length)
        have "?p + (len - 4 - unat ln) \<le> length b2" using less.prems(1) l2 le by simp
        moreover have "suffix_post_recv_loop mem ptr len sl b l =
            suffix_post_recv_loop (mem - 1) ?p (len - 4 - unat ln) (sl + 4 + unat ln) b2 (l @ [x])"
          using ok r None by (simp add: loop del: swl.simps)
        then have "\<not> alttime_at_end b2 ?p (?p + (len - 4 - unat ln)) \<or>
            suffix_post_recv_loop (mem - 1) ?p (len - 4 - unat ln) (sl + 4 + unat ln) b2 (l @ [x]) \<noteq> None"
          using alttime_frame [OF f2, of "ptr + len" ptr] less.prems le by auto
        ultimately
        obtain r' b' l' where
          loop': "suffix_post_recv_loop (mem - 1) ?p (len - 4 - unat ln) (sl + 4 + unat ln) b2 (l @ [x]) =
            Some (r', b', l')"
          and f3: "frame ?p (?p + (len - 4 - unat ln)) b2 b'"
          and ok': "\<And>n. r' = Inr n \<Longrightarrow> \<exists>l2. l' = (l @ [x]) @ l2 \<and> sl + 4 + unat ln \<le> n \<and>
            n - (sl + 4 + unat ln) \<le> len - 4 - unat ln \<and>
            len - 4 - unat ln - (n - (sl + 4 + unat ln)) < 4 \<and>
            tiles ?p (?p + (n - (sl + 4 + unat ln))) b' l2 \<and> auth_lengths b' l2 \<and>
            conv ?p (?p + (len - 4 - unat ln)) b2 b' (suffix_pre_send l2)"
          using less.IH [of "len - 4 - unat ln" ?p b2] 3 by fastforce
        have hi: "?p + (len - 4 - unat ln) = ptr + len" using le by simp
        have "frame ptr (ptr + len) b2 b'" using f3 unfolding hi by (rule frame_mono) simp_all
        with f2' have fr: "frame ptr (ptr + len) b b'" by (rule frame_trans)
        have "\<exists>l2. l' = l @ l2 \<and> sl \<le> n \<and> n - sl \<le> len \<and> len - (n - sl) < 4 \<and>
            tiles ptr (ptr + (n - sl)) b' l2 \<and> auth_lengths b' l2 \<and>
            conv ptr (ptr + len) b b' (suffix_pre_send l2)" if n: "r' = Inr n" for n
        proof -
          from ok' [OF n] obtain l2 where l2: "l' = l @ x # l2" "sl + 4 + unat ln \<le> n"
            "n - (sl + 4 + unat ln) \<le> len - 4 - unat ln"
            "len - 4 - unat ln - (n - (sl + 4 + unat ln)) < 4"
            and til: "tiles ?p (?p + (n - (sl + 4 + unat ln))) b' l2" and als: "auth_lengths b' l2"
            and c3: "conv ?p (ptr + len) b2 b' (suffix_pre_send l2)" unfolding hi by auto
          from c2 [OF None] c3
          have "conv ptr (ptr + len) b b' (\<lambda>c. do { c \<leftarrow> (do { c \<leftarrow> tlv_pre_send ptr (Some x) c;
              swaps ptr [(0, 2), (2, 2)] c }); suffix_pre_send l2 c })"
            by (rule conv_seq(1)) (use less.prems le in simp_all)
          then have "conv ptr (ptr + len) b b' (suffix_pre_send (x # l2))"
            by (rule conv_cong) (simp add: x layout_simps del: swaps.simps)
          moreover have "tiles ptr (ptr + (n - sl)) b' (x # l2)"
          proof -
            have "rd16 b' (ptr + 2) = Some ln"
              using agree_rd16 [OF frame_agree [OF f3, of ?p ptr], of "ptr + 2"] rd by simp
            moreover have "?p + (n - (sl + 4 + unat ln)) = ptr + (n - sl)" using l2 by simp
            ultimately show ?thesis using til x loop_even by simp
          qed
          moreover have "rd16 b' ptr = rd16 b2 ptr" "rd16 b' (ptr + 2) = Some ln"
            using agree_rd16 [OF frame_agree [OF f3, of ?p ptr], of "ptr + 2"] agree_rd16 [OF frame_agree [OF f3, of ?p ptr], of ptr] rd
            by simp_all
          then have "auth_lengths b' (x # l2)" using als al [OF None] x by (simp add: auth_lengths_def)
          ultimately show ?thesis using l2 le by (intro exI [of _ "x # l2"]) auto
        qed
        then show ?thesis using ok r None loop' fr by (simp add: loop del: swl.simps)
      qed
    qed
  qed
qed

section \<open>Headers and bodies\<close>

text \<open>The four messages whose time stamp \<open>msg_pre_send\<close> converts. Reception reads it into \<open>ts.pdu\<close>
  and leaves its octets in network byte order.\<close>

definition sent_timestamp :: "u8 \<Rightarrow> field list" where
  "sent_timestamp ty =
    (if ty \<in> {PDELAY_RESP, FOLLOW_UP, DELAY_RESP, PDELAY_RESP_FOLLOW_UP}
     then [(2, 4), (0, 2), (6, 4)] else [])"

definition body_rest :: "u8 \<Rightarrow> field list" where
  "body_rest ty =
    (if ty \<in> {PDELAY_RESP, DELAY_RESP, PDELAY_RESP_FOLLOW_UP} then [(52, 2)]
     else if ty = ANNOUNCE then [(44, 2), (50, 2), (61, 2)]
     else if ty \<in> {SIGNALING, MANAGEMENT} then [(42, 2)] else [])"

abbreviation "body_start ty \<equiv> if sent_timestamp ty = [] then 34 else 44 :: nat"

lemma msg_suffix_cases:
  assumes "msg_suffix ty = Some pl"
  obtains "ty = SYNC" "pl = 44" | "ty = DELAY_REQ" "pl = 44" | "ty = PDELAY_REQ" "pl = 54"
    | "ty = PDELAY_RESP" "pl = 54" | "ty = FOLLOW_UP" "pl = 44" | "ty = DELAY_RESP" "pl = 54"
    | "ty = PDELAY_RESP_FOLLOW_UP" "pl = 54" | "ty = ANNOUNCE" "pl = 64"
    | "ty = SIGNALING" "pl = 44" | "ty = MANAGEMENT" "pl = 48"
  using assms unfolding msg_suffix_def by (auto simp: layout_simps split: if_splits)

lemma timestamp_post_recv_in:
  "ts + 10 \<le> length b \<Longrightarrow> \<exists>t. timestamp_post_recv ts b = Some t"
  by (simp add: timestamp_post_recv_def rd_net_def layout_simps)

lemma body_safe:
  assumes sfx: "msg_suffix ty = Some pl" and len: "pl \<le> length (m_buf m)"
  shows "\<exists>m'. body_post_recv ty now m = Some m' \<and> m_tlv_list m' = m_tlv_list m \<and>
    m_buf m' = swl 0 (body_rest ty) (m_buf m)"
  using sfx
proof (cases rule: msg_suffix_cases)
qed (use timestamp_post_recv_in [of 34 "m_buf m"] len in
    \<open>auto simp: body_post_recv_def body_rest_def layout_simps port_id_post_recv_def
      announce_post_recv_def swap_at_def\<close>)

lemma body_rest_conv:
  assumes sfx: "msg_suffix ty = Some pl" and len: "pl \<le> length b"
  shows "conv (body_start ty) pl b (swl 0 (body_rest ty) b) (swaps 0 (body_rest ty))"
proof -
  have "within (body_start ty) pl (nest 0 (body_rest ty))" and "disjoint_fields (body_rest ty)"
    using sfx by (cases rule: msg_suffix_cases; simp add: body_rest_def sent_timestamp_def)+
  then show ?thesis using len by (intro conv_swaps)
qed

lemma body_pre_send_split:
  assumes "msg_suffix ty = Some pl"
  shows "body_pre_send ty c = (do { c \<leftarrow> swaps 34 (sent_timestamp ty) c; swaps 0 (body_rest ty) c })"
  using assms
  by (cases rule: msg_suffix_cases)
    (simp_all add: body_pre_send_def body_rest_def sent_timestamp_def timestamp_pre_send_def
      port_id_pre_send_def [abs_def] announce_pre_send_def layout_simps swaps_fun)

definition hdr_fields :: "field list" where
  "hdr_fields = [(2, 2), (8, 8), (28, 2), (30, 2)]"

lemma hdr_pre_send_swaps: "hdr_pre_send = swaps 0 hdr_fields"
  by (simp add: fun_eq_iff hdr_pre_send_def hdr_fields_def layout_simps)

lemma hdr_conv:
  assumes "34 \<le> length b"
  shows "swaps 0 hdr_fields b = Some (swl 0 hdr_fields b)"
    and "conv 0 34 b (swl 0 hdr_fields b) hdr_pre_send"
proof -
  have w: "within 0 34 hdr_fields" and d: "disjoint_fields hdr_fields" by (simp_all add: hdr_fields_def)
  show "swaps 0 hdr_fields b = Some (swl 0 hdr_fields b)" using assms by (intro swaps_in [OF w]) simp
  show "conv 0 34 b (swl 0 hdr_fields b) hdr_pre_send"
    unfolding hdr_pre_send_swaps using assms by (intro conv_swaps_in [OF w d]) simp_all
qed

lemma msg_type_hdr: "34 \<le> length b \<Longrightarrow> msg_type (swl 0 hdr_fields b) = msg_type b"
  by (simp add: msg_type_def layout_simps rd8_def hdr_fields_def nth_swp)

lemma hdr_post_recv_in:
  assumes "34 \<le> length b"
  shows "hdr_post_recv b =
    (if b ! 1 AND MAJOR_VERSION_MASK \<noteq> PTP_MAJOR_VERSION then Some (Some EPROTO, b)
     else Some (None, swl 0 hdr_fields b))"
  using assms hdr_conv(1) [OF assms]
  by (simp add: hdr_post_recv_def layout_simps rd8_def hdr_fields_def)

lemma size_t_test: "\<not> (word_of_int cnt :: u64) < 34 \<Longrightarrow> cnt < 0 \<or> 34 \<le> cnt"
proof (rule ccontr)
  assume a: "\<not> (word_of_int cnt :: u64) < 34" and "\<not> (cnt < 0 \<or> 34 \<le> cnt)"
  then have "0 \<le> cnt" "cnt < 34" by simp_all
  then have "uint (word_of_int cnt :: u64) = cnt" by (simp add: unsigned_of_int take_bit_int_eq_self)
  then show False using a \<open>cnt < 34\<close> by (simp add: word_less_def)
qed

section \<open>Whole messages\<close>

text \<open>\<open>msg_post_recv\<close> once the header is converted and the body is known to be complete.\<close>

definition msg_post_recv_rest ::
  "timespec \<Rightarrow> nat \<Rightarrow> ptp_message \<Rightarrow> nat \<Rightarrow> u8 \<Rightarrow> nat \<Rightarrow> (errno option \<times> ptp_message) option" where
  "msg_post_recv_rest now mem m cnt ty pdulen = do {
     m \<leftarrow> body_post_recv ty now m;
     (r, b, l) \<leftarrow> suffix_post_recv mem ty (cnt - pdulen) (m_buf m) (m_tlv_list m);
     let m = m\<lparr>m_buf := b, m_tlv_list := l\<rparr>;
     case r of
       Inl e \<Rightarrow> Some (Some e, m)
     | Inr suffix_len \<Rightarrow> do {
         messageLength \<leftarrow> rd16 (m_buf m) (offsetof ptp_header_layout ''messageLength'');
         if pdulen + suffix_len \<noteq> unat messageLength then Some (Some EBADMSG, m) else Some (None, m)
       }
   }"

lemma msg_post_recv_cases:
  assumes "64 \<le> length (m_buf m)"
  obtains (short) "msg_post_recv now mem m cnt = Some (Some EBADMSG, m)"
  | (version) "msg_post_recv now mem m cnt = Some (Some EPROTO, m)"
  | (bad) "msg_post_recv now mem m cnt = Some (Some EBADMSG, m\<lparr>m_buf := swl 0 hdr_fields (m_buf m)\<rparr>)"
  | (rest) ty pdulen where "ty = m_buf m ! 0 AND 15" "msg_suffix ty = Some pdulen" "int pdulen \<le> cnt"
      "msg_post_recv now mem m cnt =
        msg_post_recv_rest now mem (m\<lparr>m_buf := swl 0 hdr_fields (m_buf m)\<rparr>) (nat cnt) ty pdulen"
proof -
  let ?ty = "m_buf m ! 0 AND 15"
  have hdr: "34 \<le> length (m_buf m)" using assms by simp
  have "msg_type (m_buf m) = Some ?ty"
    using assms by (auto simp: msg_type_def layout_simps rd8_def)
  then have ty: "msg_type (swl 0 hdr_fields (m_buf m)) = Some ?ty" by (simp only: msg_type_hdr [OF hdr])
  note unf = msg_post_recv_def layout_simps hdr_post_recv_in [OF hdr] ty
  show thesis
  proof (cases "(word_of_int cnt :: u64) < 34")
    case True
    then show thesis by (intro short) (simp add: unf)
  next
    case long: False
    show thesis
    proof (cases "m_buf m ! 1 AND MAJOR_VERSION_MASK \<noteq> PTP_MAJOR_VERSION")
      case True
      then show thesis using long by (intro version) (simp add: unf)
    next
      case ver: False
      show thesis
      proof (cases "msg_suffix ?ty")
        case None
        then show thesis using long ver by (intro bad) (simp add: unf)
      next
        case (Some pl)
        show thesis
        proof (cases "cnt < int pl")
          case True
          then show thesis using long ver Some by (intro bad) (simp add: unf)
        next
          case False
          then have "nat (cnt - int pl) = nat cnt - pl" by simp
          then show thesis
            using long ver Some False
            by (intro rest [OF refl Some]) (simp_all add: unf msg_post_recv_rest_def)
        qed
      qed
    qed
  qed
qed

text \<open>The rest of a reception: what it changes, and what acceptance gives.\<close>

lemma msg_post_recv_rest_safe:
  assumes sfx: "msg_suffix ty = Some pl" and len: "64 \<le> length (m_buf m)" "cnt \<le> length (m_buf m)"
    and cnt: "pl \<le> cnt" and safe: "\<not> alttime_at_end (m_buf m) pl cnt \<or> msg_post_recv_rest now mem m cnt ty pl \<noteq> None"
  shows "\<exists>e m'. msg_post_recv_rest now mem m cnt ty pl = Some (e, m') \<and>
    frame (body_start ty) cnt (m_buf m) (m_buf m') \<and>
    (e = None \<longrightarrow> (\<exists>ml. rd16 (m_buf m') 2 = Some ml \<and> pl \<le> unat ml \<and> unat ml \<le> cnt \<and>
      cnt < unat ml + 4 \<and> tiles pl (unat ml) (m_buf m') (m_tlv_list m') \<and> auth_lengths (m_buf m') (m_tlv_list m') \<and>
      conv (body_start ty) cnt (m_buf m) (m_buf m')
        (\<lambda>c. do { c \<leftarrow> swaps 0 (body_rest ty) c; suffix_pre_send (m_tlv_list m') c })))"
proof -
  have pl: "pl \<le> length (m_buf m)" and st: "body_start ty \<le> pl"
    using len cnt sfx by (auto elim: msg_suffix_cases simp: sent_timestamp_def)
  obtain m1 where m1: "body_post_recv ty now m = Some m1" "m_buf m1 = swl 0 (body_rest ty) (m_buf m)"
    using body_safe [OF sfx pl] by blast
  have c1: "conv (body_start ty) pl (m_buf m) (m_buf m1) (swaps 0 (body_rest ty))"
    unfolding m1(2) by (rule body_rest_conv [OF sfx pl])
  then have f1: "frame (body_start ty) pl (m_buf m) (m_buf m1)" using pl by (rule conv_frame)
  then have l1: "length (m_buf m1) = length (m_buf m)" by (rule frame_length)
  have pc: "pl + (cnt - pl) = cnt" using cnt by simp
  have "pl + (cnt - pl) \<le> length (m_buf m1)" using cnt len l1 by simp
  moreover have "msg_post_recv_rest now mem m cnt ty pl = None" if "suffix_post_recv_loop mem pl (cnt - pl) 0 (m_buf m1) [] = None"
    using m1(1) sfx that unfolding msg_post_recv_rest_def by (simp add: suffix_post_recv_def)
  then have "\<not> alttime_at_end (m_buf m1) pl (pl + (cnt - pl)) \<or> suffix_post_recv_loop mem pl (cnt - pl) 0 (m_buf m1) [] \<noteq> None"
    using alttime_frame [OF f1, of cnt pl] safe len(2) unfolding pc by blast
  note suffix_loop_safe [OF calculation this, unfolded pc]
  then
  obtain r b' l where sl: "suffix_post_recv_loop mem pl (cnt - pl) 0 (m_buf m1) [] = Some (r, b', l)"
    and f2: "frame pl cnt (m_buf m1) b'"
    and ok: "\<And>n. r = Inr n \<Longrightarrow> n \<le> cnt - pl \<and> cnt - pl - n < 4 \<and> tiles pl (pl + n) b' l \<and> auth_lengths b' l \<and>
      conv pl cnt (m_buf m1) b' (suffix_pre_send l)"
    by auto
  have fr: "frame (body_start ty) cnt (m_buf m) b'"
  proof (rule frame_trans)
    show "frame (body_start ty) cnt (m_buf m) (m_buf m1)" using f1 by (rule frame_mono) (use cnt in simp_all)
    show "frame (body_start ty) cnt (m_buf m1) b'" using f2 by (rule frame_mono) (use st in simp_all)
  qed
  have l2: "length b' = length (m_buf m)" using fr by (rule frame_length)
  obtain ml where ml: "rd16 b' 2 = Some ml" using l2 len by (simp add: rd16_def)
  let ?m' = "m1\<lparr>m_buf := b', m_tlv_list := l\<rparr>"
  have rest: "msg_post_recv_rest now mem m cnt ty pl =
      (case r of Inl e \<Rightarrow> Some (Some e, ?m')
       | Inr n \<Rightarrow> if pl + n \<noteq> unat ml then Some (Some EBADMSG, ?m') else Some (None, ?m'))"
    using m1(1) sl ml sfx
    by (simp add: msg_post_recv_rest_def suffix_post_recv_def layout_simps split: sum.splits)
  show ?thesis
  proof (cases r)
    case (Inl e)
    then show ?thesis using rest fr by simp
  next
    case (Inr n)
    from ok [OF this] have c2: "conv pl cnt (m_buf m1) b' (suffix_pre_send l)" by simp
    from c1 c2 have "conv (body_start ty) cnt (m_buf m) b'
        (\<lambda>c. do { c \<leftarrow> swaps 0 (body_rest ty) c; suffix_pre_send l c })"
      by (rule conv_seq(1)) (use len st cnt in simp_all)
    then show ?thesis using rest fr ml ok [OF Inr] Inr cnt by (auto split: if_splits)
  qed
qed

lemma msg_accept:
  assumes len: "64 \<le> length (m_buf m)" "cnt \<le> int (length (m_buf m))"
    and acc: "msg_post_recv now mem m cnt = Some (None, m')"
  obtains ty pl ml where "ty = m_buf m ! 0 AND 15" "msg_suffix ty = Some pl" "int pl \<le> cnt"
    "rd16 (m_buf m') 2 = Some ml" "pl \<le> unat ml" "unat ml \<le> nat cnt" "nat cnt < unat ml + 4"
    "tiles pl (unat ml) (m_buf m') (m_tlv_list m')" "auth_lengths (m_buf m') (m_tlv_list m')"
    "frame (body_start ty) (nat cnt) (swl 0 hdr_fields (m_buf m)) (m_buf m')"
    "conv (body_start ty) (nat cnt) (swl 0 hdr_fields (m_buf m)) (m_buf m')
       (\<lambda>c. do { c \<leftarrow> swaps 0 (body_rest ty) c; suffix_pre_send (m_tlv_list m') c })"
proof -
  let ?m1 = "m\<lparr>m_buf := swl 0 hdr_fields (m_buf m)\<rparr>"
  have hdr: "34 \<le> length (m_buf m)" using len by simp
  have l1: "length (m_buf ?m1) = length (m_buf m)"
    using frame_length [OF conv_frame [OF hdr_conv(2) [OF hdr] hdr]] by simp
  from len(1) show thesis
  proof (cases rule: msg_post_recv_cases [of m now mem cnt])
    case (rest ty pl)
    have "pl \<le> nat cnt" "64 \<le> length (m_buf ?m1)" "nat cnt \<le> length (m_buf ?m1)"
      using rest(3) len l1 by simp_all
    moreover have "msg_post_recv_rest now mem ?m1 (nat cnt) ty pl \<noteq> None" using acc unfolding rest(4) by simp
    ultimately show thesis
      using msg_post_recv_rest_safe [OF rest(2), of ?m1 "nat cnt" now mem] rest acc
      by (auto intro!: that)
  qed (use acc in simp_all)
qed

section \<open>Properties\<close>

text \<open>A received signaling message that requests unicast announce messages, in a buffer with
  sixteen octets to spare, and a follow-up message with the 802.1AS information TLV.\<close>

definition message :: "buf \<Rightarrow> ptp_message" where
  "message b = \<lparr>m_buf = b, m_refcnt = 1, m_pdu = \<lparr>sec = 0, nsec = 0\<rparr>,
     m_host = \<lparr>tv_sec = 0, tv_nsec = 0\<rparr>, m_hwts_ts = 0, m_tlv_list = []\<rparr>"

definition signaling_example :: ptp_message where
  "signaling_example = message ([0x0C, 0x02, 0, 54] @ replicate 40 0 @
     [0, 4, 0, 6, 0xB0, 0, 0, 0, 1, 44] @ replicate 16 0)"

definition follow_up_example :: ptp_message where
  "follow_up_example = message ([0x18, 0x02, 0, 76] @ replicate 30 0 @
     [0, 0, 0, 0, 0, 7, 0, 0, 0, 9] @
     [0, 3, 0, 28, 0x00, 0x80, 0xC2, 0, 0, 1, 1, 2, 3, 4, 5, 6] @ replicate 16 0 @ replicate 16 0)"

text \<open>C1. Receiving a message is memory safe, with one exception. Whatever the octets, as long as the announced count fits into the
  buffer and so does the largest body, \<open>msg_post_recv\<close> returns, makes no access outside the buffer, and changes no octet behind the
  header and the announced count, whether it accepts or rejects the message. The exception is an alternate time offset TLV
  whose header is in the last nineteen octets of the buffer; a message that is sixteen octets shorter than the buffer has none.\<close>

theorem msg_post_recv_memory_safe:
  assumes "64 \<le> length (m_buf m)" and "cnt \<le> int (length (m_buf m))"
    and "\<And>t. 44 \<le> t \<Longrightarrow> int t + 4 \<le> cnt \<Longrightarrow> length (m_buf m) < t + 20 \<Longrightarrow> \<not> (m_buf m ! t = 0 \<and> m_buf m ! (t + 1) = 9)"
  shows "\<exists>err m'. msg_post_recv now mem m cnt = Some (err, m') \<and>
    length (m_buf m') = length (m_buf m) \<and>
    (\<forall>i < length (m_buf m). 34 \<le> i \<and> cnt \<le> int i \<longrightarrow> m_buf m' ! i = m_buf m ! i)"
proof -
  let ?b1 = "swl 0 hdr_fields (m_buf m)"
  have hdr: "34 \<le> length (m_buf m)" and b64: "64 \<le> length (m_buf m)" using assms by simp_all
  have f1: "frame 0 34 (m_buf m) ?b1" using conv_frame [OF hdr_conv(2) [OF hdr] hdr] .
  from b64 show ?thesis
  proof (cases rule: msg_post_recv_cases [of m now mem cnt])
    case bad
    then show ?thesis using f1 assms by (auto simp: frame_def)
  next
    case (rest ty pl)
    have c: "pl \<le> nat cnt" "64 \<le> length ?b1" "nat cnt \<le> length ?b1" "44 \<le> pl"
      using rest(2,3) assms frame_length [OF f1] by (auto elim: msg_suffix_cases)
    have "\<not> alttime_at_end (m_buf m) pl (nat cnt)"
    proof
      assume "alttime_at_end (m_buf m) pl (nat cnt)"
      then obtain t where t: "pl \<le> t" "t + 4 \<le> nat cnt" "length (m_buf m) < t + 20" "m_buf m ! t = 0" "m_buf m ! (t + 1) = 9"
        unfolding alttime_at_end_def by blast
      then have "44 \<le> t" "int t + 4 \<le> cnt" using c(4) by linarith+
      then show False using assms(3) [of t] t by blast
    qed
    moreover have "frame 0 pl (m_buf m) ?b1" "nat cnt \<le> length (m_buf m)" using frame_mono [OF f1, of 0 pl] c(4) assms(2) by simp_all
    ultimately have "\<not> alttime_at_end ?b1 pl (nat cnt)" using alttime_frame by blast
    then obtain e m' where r: "msg_post_recv now mem m cnt = Some (e, m')"
      and f2: "frame (body_start ty) (nat cnt) ?b1 (m_buf m')"
      using msg_post_recv_rest_safe [OF rest(2), of "m\<lparr>m_buf := ?b1\<rparr>" "nat cnt" now mem] rest(4) c by auto
    show ?thesis
      using r f1 f2 assms rest(3) by (intro exI [of _ e] exI [of _ m']) (auto simp: frame_def nat_le_iff)
  qed (use assms in simp_all)
qed

theorem msg_post_recv_memory_safe_witness:
  "\<exists>err m'. msg_post_recv \<lparr>tv_sec = 0, tv_nsec = 0\<rparr> 8 signaling_example 54 = Some (err, m') \<and>
    m_buf m' ! 60 = 0"
proof -
  have len: "length (m_buf signaling_example) = 70" by (simp add: signaling_example_def message_def)
  have "m_buf signaling_example ! 60 = 0" by code_simp
  then show ?thesis
    using msg_post_recv_memory_safe [of signaling_example 54 "\<lparr>tv_sec = 0, tv_nsec = 0\<rparr>" 8] len by auto
qed

text \<open>C2. Sending back what was received. If a message is accepted then \<open>msg_pre_send\<close> succeeds on
  it, and the octets that go out are the octets that came in, except that the time stamp of the
  four messages that carry one of the sender is converted once more: reception leaves it in network
  byte order, so a forwarded message must be given its time stamp afresh.\<close>

theorem msg_pre_send_post_recv:
  assumes "64 \<le> length (m_buf m)" and "cnt \<le> int (length (m_buf m))"
    and "msg_post_recv now mem m cnt = Some (None, m')"
  shows "\<exists>m''. msg_pre_send now' m' = Some (0, m'') \<and>
    m_buf m'' = swl 34 (sent_timestamp (m_buf m ! 0 AND 15)) (m_buf m)"
proof -
  let ?b1 = "swl 0 hdr_fields (m_buf m)"
  have len: "64 \<le> length (m_buf m)" "cnt \<le> int (length (m_buf m))"
    and hdr: "34 \<le> length (m_buf m)" using assms by simp_all
  from len assms(3) obtain ty pl ml where ty: "ty = m_buf m ! 0 AND 15" and sfx: "msg_suffix ty = Some pl"
    and cnt: "int pl \<le> cnt"
    and fr: "frame (body_start ty) (nat cnt) ?b1 (m_buf m')"
    and c: "conv (body_start ty) (nat cnt) ?b1 (m_buf m')
       (\<lambda>c. do { c \<leftarrow> swaps 0 (body_rest ty) c; suffix_pre_send (m_tlv_list m') c })"
    by (rule msg_accept)
  have st: "34 \<le> body_start ty" "body_start ty \<le> nat cnt" "nat cnt \<le> length (m_buf m)"
    using sfx cnt assms(1,2) by (auto elim: msg_suffix_cases simp: sent_timestamp_def)
  have gap: "within 34 (body_start ty) (nest 34 (sent_timestamp ty))"
    by (simp add: sent_timestamp_def)
  have send: "(do { c \<leftarrow> hdr_pre_send (m_buf m'); c \<leftarrow> swaps 0 (nest 34 (sent_timestamp ty)) c;
      c \<leftarrow> swaps 0 (body_rest ty) c; suffix_pre_send (m_tlv_list m') c }) =
      Some (swl 0 (nest 34 (sent_timestamp ty)) (m_buf m))"
    using conv_gap [OF hdr_conv(2) [OF hdr] c gap _ st] by simp
  have f1: "frame 0 34 (m_buf m) ?b1" using conv_frame [OF hdr_conv(2) [OF hdr] hdr] .
  have l': "length (m_buf m') = length (m_buf m)"
    using frame_length [OF fr] frame_length [OF f1] by simp
  then have h': "hdr_pre_send (m_buf m') = Some (swl 0 hdr_fields (m_buf m'))"
    using hdr_conv(1) [of "m_buf m'"] hdr by (simp add: hdr_pre_send_swaps)
  have "0 < body_start ty" and "0 < length ?b1" using st hdr frame_length [OF f1] by auto
  then have "m_buf m' ! 0 = ?b1 ! 0" using fr unfolding frame_def by blast
  also have "\<dots> = m_buf m ! 0"
  proof -
    have "m_buf m \<noteq> []" using hdr by auto
    then show ?thesis using hdr by (simp add: hdr_fields_def nth_swp)
  qed
  finally have type: "msg_type (swl 0 hdr_fields (m_buf m')) = Some ty"
    using msg_type_hdr [of "m_buf m'"] hdr l' ty by (auto simp: msg_type_def layout_simps rd8_def)
  from send h' have "(do { c \<leftarrow> body_pre_send ty (swl 0 hdr_fields (m_buf m'));
      suffix_pre_send (m_tlv_list m') c }) = Some (swl 34 (sent_timestamp ty) (m_buf m))"
    by (simp add: body_pre_send_split [OF sfx] swaps_nest [of 34] swl_nest [of 34])
  then obtain b3 where "body_pre_send ty (swl 0 hdr_fields (m_buf m')) = Some b3"
    "suffix_pre_send (m_tlv_list m') b3 = Some (swl 34 (sent_timestamp ty) (m_buf m))"
    by (auto split: bind_splits)
  then show ?thesis using h' type sfx ty by (simp add: msg_pre_send_def)
qed

theorem msg_pre_send_post_recv_witness:
  "\<exists>m' m''. msg_post_recv \<lparr>tv_sec = 0, tv_nsec = 0\<rparr> 8 follow_up_example 76 = Some (None, m') \<and>
    msg_pre_send \<lparr>tv_sec = 0, tv_nsec = 0\<rparr> m' = Some (0, m'') \<and>
    m_buf m'' = swl 34 [(2, 4), (0, 2), (6, 4)] (m_buf follow_up_example)"
proof -
  let ?now = "\<lparr>tv_sec = 0, tv_nsec = 0\<rparr>"
  have len: "length (m_buf follow_up_example) = 92" by (simp add: follow_up_example_def message_def)
  have "map_option fst (msg_post_recv ?now 8 follow_up_example 76) = Some None" by code_simp
  then obtain m' where m': "msg_post_recv ?now 8 follow_up_example 76 = Some (None, m')" by auto
  have ts: "sent_timestamp (m_buf follow_up_example ! 0 AND 15) = [(2, 4), (0, 2), (6, 4)]" by code_simp
  show ?thesis
    using msg_pre_send_post_recv [OF _ _ m', of ?now] len m' ts by auto
qed

text \<open>C3. The lengths of an accepted message are consistent: its body is complete, the announced
  \<open>messageLength\<close> is the number of octets received up to less than a TLV header, and the TLV
  descriptors attached to it describe consecutive TLVs of even length that exactly fill the octets
  from the end of the body to \<open>messageLength\<close>.\<close>

theorem msg_post_recv_lengths:
  assumes "64 \<le> length (m_buf m)" and "cnt \<le> int (length (m_buf m))"
    and "msg_post_recv now mem m cnt = Some (None, m')"
  shows "\<exists>pdulen ml. msg_suffix (m_buf m ! 0 AND 15) = Some pdulen \<and>
    rd16 (m_buf m') (offsetof ptp_header_layout ''messageLength'') = Some ml \<and>
    pdulen \<le> unat ml \<and> unat ml \<le> nat cnt \<and> nat cnt < unat ml + 4 \<and>
    tiles pdulen (unat ml) (m_buf m') (m_tlv_list m')"
proof -
  have len: "64 \<le> length (m_buf m)" "cnt \<le> int (length (m_buf m))" using assms by simp_all
  from len assms(3) show ?thesis
    by (rule msg_accept) (auto simp: layout_simps)
qed

theorem msg_post_recv_lengths_witness:
  "\<exists>m'. msg_post_recv \<lparr>tv_sec = 0, tv_nsec = 0\<rparr> 8 signaling_example 54 = Some (None, m') \<and>
    tiles 44 54 (m_buf m') (m_tlv_list m')"
proof -
  let ?now = "\<lparr>tv_sec = 0, tv_nsec = 0\<rparr>"
  have len: "length (m_buf signaling_example) = 70" by (simp add: signaling_example_def message_def)
  have "map_option (\<lambda>(e, m). (e, rd16 (m_buf m) 2)) (msg_post_recv ?now 8 signaling_example 54) =
    Some (None, Some 54)" by code_simp
  then obtain m' where m': "msg_post_recv ?now 8 signaling_example 54 = Some (None, m')"
    and ml: "rd16 (m_buf m') 2 = Some 54" by auto
  have "msg_suffix (m_buf signaling_example ! 0 AND 15) = Some 44" by code_simp
  then show ?thesis
    using msg_post_recv_lengths [OF _ _ m'] len m' ml by (auto simp: layout_simps)
qed

text \<open>The steps of the suffix over a TLV of a type that is not converted, and over an empty alternate time offset TLV at the end.\<close>

lemma header_octets:
  assumes "ptr + 4 \<le> length b"
  shows "rd16 (swl ptr [(0, 2), (2, 2)] b) ptr = Some (ucast (b ! ptr) * 256 + ucast (b ! (ptr + 1)))"
    and "rd16 (swl ptr [(0, 2), (2, 2)] b) (ptr + 2) = Some (ucast (b ! (ptr + 2)) * 256 + ucast (b ! (ptr + 3)))"
  using assms by (simp_all add: rd16_def nth_swp mult_2 numeral_3_eq_3)

lemma loop_pad:
  assumes "ptr + len \<le> length b" "b ! ptr = 0x80" "b ! (ptr + 1) = 8" "ucast (b ! (ptr + 2)) * 256 + ucast (b ! (ptr + 3)) = (ln :: u16)"
    and "even (unat ln)" "4 + unat ln \<le> len" "mem \<noteq> 0"
  shows "suffix_post_recv_loop mem ptr len sl b l =
    suffix_post_recv_loop (mem - 1) (ptr + 4 + unat ln) (len - 4 - unat ln) (sl + 4 + unat ln) (swl ptr [(0, 2), (2, 2)] b)
      (l @ [\<lparr>te_tlv = ptr, te_cd = null_cd\<rparr>])"
proof -
  have len4: "ptr + 4 \<le> length b" using assms by simp
  note h = header_octets [OF len4] tlv_header_conv(1) [OF len4]
  have "tlv_post_recv (swl ptr [(0, 2), (2, 2)] b) \<lparr>te_tlv = ptr, te_cd = null_cd\<rparr> =
      Some (None, swl ptr [(0, 2), (2, 2)] b, \<lparr>te_tlv = ptr, te_cd = null_cd\<rparr>)"
    using h assms(2-4) by (simp add: tlv_post_recv_def Let_def del: swl.simps)
  moreover have "\<not> len - 4 < unat ln" "\<not> len < 4" using assms(6) by linarith+
  ultimately show ?thesis
    using h assms by (subst suffix_post_recv_loop.simps)
      (simp add: layout_simps tlv_extra_alloc_def msg_tlv_attach_def del: swaps.simps swl.simps)
qed

lemma loop_alttime:
  assumes "ptr + 4 = length b" "b ! ptr = 0" "b ! (ptr + 1) = 9" "b ! (ptr + 2) = 0" "b ! (ptr + 3) = 0" "mem \<noteq> 0"
  shows "suffix_post_recv_loop mem ptr 4 sl b l = None"
proof -
  have len4: "ptr + 4 \<le> length b" using assms by simp
  note h = header_octets [OF len4] tlv_header_conv(1) [OF len4]
  have "length (swl ptr [(0, 2), (2, 2)] b) = ptr + 4" using assms(1) by simp
  then have "tlv_post_recv (swl ptr [(0, 2), (2, 2)] b) \<lparr>te_tlv = ptr, te_cd = null_cd\<rparr> = None"
    using h assms(2-5) by (simp add: tlv_post_recv_def Let_def alttime_offset_post_recv_def layout_simps rd8_def del: swl.simps)
  then show ?thesis
    using h assms by (subst suffix_post_recv_loop.simps)
      (simp add: layout_simps tlv_extra_alloc_def del: swaps.simps swl.simps)
qed

text \<open>C39. The exception is real: whatever its other octets, a signaling message that fills the buffer with a padding TLV and ends in an
  empty \<open>ALTERNATE_TIME_OFFSET_INDICATOR\<close> TLV makes \<open>msg_post_recv\<close> read outside the buffer: \<open>alttime_offset_post_recv\<close> reads the
  length of the display name, sixteen octets behind the TLV, before it has checked that the TLV is long enough.\<close>

theorem alttime_reads_outside:
  assumes "length (m_buf m) = tail_room" and "m_buf m ! 0 AND 15 = SIGNALING" and "m_buf m ! 1 AND MAJOR_VERSION_MASK = PTP_MAJOR_VERSION"
    and "take 4 (drop 44 (m_buf m)) = [0x80, 8, 5, 0xA8]" and "drop 1496 (m_buf m) = [0, 9, 0, 0]" and "2 \<le> mem"
  shows "msg_post_recv now mem m (int tail_room) = None"
proof -
  let ?b1 = "swl 0 hdr_fields (m_buf m)"
  have hdr: "34 \<le> length (m_buf m)" and l: "length (m_buf m) = 1500" using assms(1) by simp_all
  have f1: "frame 0 34 (m_buf m) ?b1" using conv_frame [OF hdr_conv(2) [OF hdr] hdr] .
  have l1: "length ?b1 = 1500" using frame_length [OF f1] l by simp
  let ?b2 = "swp 42 2 ?b1"
  have o: "?b2 ! k = m_buf m ! k" if "44 \<le> k" "k < 1500" for k
    using f1 that l l1 by (simp add: nth_swp frame_def)
  have p: "m_buf m ! 44 = 0x80" "m_buf m ! 45 = 8" "m_buf m ! 46 = 5" "m_buf m ! 47 = 0xA8"
    using arg_cong [OF assms(4), of "\<lambda>x. x ! 0"] arg_cong [OF assms(4), of "\<lambda>x. x ! 1"] arg_cong [OF assms(4), of "\<lambda>x. x ! 2"]
      arg_cong [OF assms(4), of "\<lambda>x. x ! 3"] l by simp_all
  have q: "m_buf m ! 1496 = 0" "m_buf m ! 1497 = 9" "m_buf m ! 1498 = 0" "m_buf m ! 1499 = 0"
    using arg_cong [OF assms(5), of "\<lambda>x. x ! 0"] arg_cong [OF assms(5), of "\<lambda>x. x ! 1"] arg_cong [OF assms(5), of "\<lambda>x. x ! 2"]
      arg_cong [OF assms(5), of "\<lambda>x. x ! 3"] l by simp_all
  let ?c = "swl 44 [(0, 2), (2, 2)] ?b2"
  have c: "?c ! k = ?b2 ! k" if "48 \<le> k" "k < 1500" for k using that l1 by (simp add: nth_swp)
  have lc: "length ?c = 1500" using l1 by simp
  have "suffix_post_recv_loop mem 44 1456 0 ?b2 t = suffix_post_recv_loop (mem - 1) 1496 4 1452 ?c (t @ [\<lparr>te_tlv = 44, te_cd = null_cd\<rparr>])" for t
  proof -
    have "?b2 ! 44 = 0x80" "?b2 ! 45 = 8" "?b2 ! 46 = 5" "?b2 ! 47 = 0xA8" "length ?b2 = 1500" using o p l1 by simp_all
    then show ?thesis using loop_pad [of 44 1456 ?b2 1448 mem 0 t] assms(6) by (simp del: swl.simps)
  qed
  moreover have "suffix_post_recv_loop (mem - 1) 1496 4 1452 ?c t = None" for t
  proof -
    have "?c ! 1496 = 0" "?c ! 1497 = 9" "?c ! 1498 = 0" "?c ! 1499 = 0" using o c q by (simp_all del: swl.simps)
    then show ?thesis using loop_alttime [of 1496 ?c "mem - 1" 1452 t] lc assms(6) by (simp del: swl.simps)
  qed
  ultimately have loop: "suffix_post_recv_loop mem 44 1456 0 ?b2 t = None" for t by simp
  have sfx: "msg_suffix SIGNALING = Some 44" by (simp add: msg_suffix_def layout_simps)
  have body: "body_post_recv SIGNALING now (m\<lparr>m_buf := ?b1\<rparr>) = Some (m\<lparr>m_buf := ?b2\<rparr>)"
    using l1 by (simp add: body_post_recv_def layout_simps port_id_post_recv_def swap_at_def)
  have ty: "msg_type ?b1 = Some SIGNALING"
    unfolding msg_type_hdr [OF hdr] using assms(2) l by (auto simp: msg_type_def layout_simps rd8_def)
  show ?thesis
    using hdr_post_recv_in [OF hdr] assms(3) ty sfx body loop l
    by (simp add: msg_post_recv_def suffix_post_recv_def layout_simps)
qed

theorem alttime_reads_outside_witness:
  "msg_post_recv \<lparr>tv_sec = 0, tv_nsec = 0\<rparr> 8
     (message ([0x0C, 0x02, 5, 220] @ replicate 40 0 @ [0x80, 8, 5, 0xA8] @ replicate 1448 0 @ [0, 9, 0, 0])) (int tail_room) = None"
  by (rule alttime_reads_outside) (simp_all add: message_def nth_append)

section \<open>Time stamps and appended TLVs\<close>

lemma foldl_be_bound: "foldl (\<lambda>a x. a * 256 + unat x) n (xs :: u8 list) < (n + 1) * 256 ^ length xs"
proof (induction xs arbitrary: n)
  case (Cons x xs)
  have "unat x < 256" using unsigned_less [of x, where ?'a = nat] by simp
  then have "n * 256 + unat x + 1 \<le> (n + 1) * 256" by simp
  then have "(n * 256 + unat x + 1) * 256 ^ length xs \<le> (n + 1) * 256 * 256 ^ length xs"
    by (rule mult_right_mono) simp
  with Cons [of "n * 256 + unat x"] show ?case by (simp add: mult.assoc [symmetric])
qed simp

lemma foldl_be_append:
  "foldl (\<lambda>a x. a * 256 + unat x) n (xs :: u8 list) =
    n * 256 ^ length xs + foldl (\<lambda>a x. a * 256 + unat x) 0 xs"
proof (induction xs arbitrary: n)
  case (Cons x xs)
  show ?case
    using Cons [of "n * 256 + unat x"] Cons [of "unat x"] by (simp add: algebra_simps)
qed simp

lemma or_push_bit_unat:
  assumes "l < 2 ^ 32" and "h < 2 ^ 16"
  shows "unat (of_nat l OR push_bit 32 (of_nat h) :: u64) = l + h * 2 ^ 32"
proof -
  have "(of_nat l OR push_bit 32 (of_nat h) :: u64) = of_nat l + push_bit 32 (of_nat h)"
  proof (rule disjunctive_add [symmetric])
    fix n
    show "\<not> bit (of_nat l :: u64) n \<or> \<not> bit (push_bit 32 (of_nat h) :: u64) n"
    proof (cases "n < 32")
      case False
      then have "l < 2 ^ n" using assms(1) power_increasing [of 32 n "2::nat"] by simp
      then have "\<not> bit l n" by (simp add: bit_nat_def)
      then show ?thesis by (simp add: bit_of_nat_iff)
    qed (simp add: bit_push_bit_iff)
  qed
  also have "\<dots> = of_nat (l + h * 2 ^ 32)" by (simp add: push_bit_eq_mult)
  also have "unat (of_nat (l + h * 2 ^ 32) :: u64) = l + h * 2 ^ 32"
    by (subst unsigned_of_nat) (use assms in \<open>simp add: take_bit_nat_eq_self\<close>)
  finally show ?thesis .
qed

text \<open>The time stamp of a received message is read exactly: \<open>timestamp_post_recv\<close> stores the
  value of the 48-bit big-endian seconds field and of the 32-bit nanoseconds field, for all octets.\<close>

theorem timestamp_post_recv_value:
  assumes "ts + 10 \<le> length b"
  shows "\<exists>t. timestamp_post_recv ts b = Some t \<and> rd_net b (0, 6) ts = Some (unat (sec t)) \<and>
    rd_net b (6, 4) ts = Some (unat (nsec t))"
proof -
  let ?be = "foldl (\<lambda>a x. a * 256 + unat (x :: u8)) 0"
  let ?hi = "take 2 (drop ts b)" and ?lo = "take 4 (drop (ts + 2) b)" and ?ns = "take 4 (drop (ts + 6) b)"
  have len: "length ?hi = 2" "length ?lo = 4" "length ?ns = 4" using assms by simp_all
  have bounds: "?be ?hi < 2 ^ 16" "?be ?lo < 2 ^ 32" "?be ?ns < 2 ^ 32"
    using foldl_be_bound [of 0 ?hi] foldl_be_bound [of 0 ?lo] foldl_be_bound [of 0 ?ns] len by simp_all
  have "take 6 (drop ts b) = ?hi @ ?lo" using take_add [of 2 4 "drop ts b"] by (simp add: add.commute)
  then have six: "?be (take 6 (drop ts b)) = ?be ?lo + ?be ?hi * 2 ^ 32"
    using foldl_be_append [of "?be ?hi" ?lo] len by simp
  let ?t = "\<lparr>sec = of_nat (?be ?lo) OR push_bit 32 (of_nat (?be ?hi)), nsec = of_nat (?be ?ns)\<rparr> :: timestamp"
  have "timestamp_post_recv ts b = Some ?t"
    using assms by (simp add: timestamp_post_recv_def rd_net_def layout_simps)
  moreover have "unat (sec ?t) = ?be (take 6 (drop ts b))"
    using or_push_bit_unat [OF bounds(2,1)] six by simp
  moreover have "unat (nsec ?t) = ?be ?ns"
    using bounds(3) by (simp add: unsigned_of_nat take_bit_nat_eq_self)
  ultimately show ?thesis using assms by (simp add: rd_net_def)
qed

theorem timestamp_post_recv_value_witness:
  "\<exists>t. timestamp_post_recv 34 (m_buf follow_up_example) = Some t \<and> unat (sec t) = 7 \<and> unat (nsec t) = 9"
proof -
  have "34 + 10 \<le> length (m_buf follow_up_example)" by (simp add: follow_up_example_def message_def)
  moreover have "rd_net (m_buf follow_up_example) (0, 6) 34 = Some 7"
    "rd_net (m_buf follow_up_example) (6, 4) 34 = Some 9" by code_simp+
  ultimately show ?thesis using timestamp_post_recv_value [of 34 "m_buf follow_up_example"] by auto
qed

lemma rd16_wr16:
  assumes "i + 2 \<le> length b"
  shows "rd16 (wr16 i v b) i = Some v"
proof -
  have "ucast (ucast (drop_bit 8 v) :: u8) * 256 + ucast (ucast v :: u8) = v"
  proof -
    have "(ucast (ucast (drop_bit 8 v) :: u8) :: u16) = drop_bit 8 v"
      by (rule bit_word_eqI) (auto simp: bit_simps dest: bit_imp_le_length)
    moreover have "(ucast (ucast v :: u8) :: u16) = take_bit 8 v"
      by (rule bit_word_eqI) (auto simp: bit_simps)
    moreover have "drop_bit 8 v * 256 = push_bit 8 (drop_bit 8 v)" by (simp add: push_bit_eq_mult)
    ultimately show ?thesis by (simp add: bits_ident)
  qed
  then show ?thesis using assms by (simp add: rd16_def wr16_def)
qed

text \<open>Where the next TLV of a message goes: behind the last one.\<close>

lemma tiles_last:
  assumes "tiles p q b l" and "l \<noteq> []"
  shows "\<exists>ln. rd16 b (te_tlv (last l) + 2) = Some ln \<and> te_tlv (last l) + 4 + unat ln = q"
  using assms
proof (induction p q b l rule: tiles.induct)
  case (2 p q b x l)
  then show ?case by (cases l) (auto split: option.splits)
qed simp

text \<open>Appending a TLV: on a message whose descriptors tile the octets from its body to \<open>q\<close>,
  \<open>msg_tlv_append\<close> either leaves the message alone, which it does if and only if the new TLV does
  not fit below \<open>tail_room\<close> or no descriptor is left, or it attaches one descriptor that points
  exactly to \<open>q\<close> and adds the length to \<open>messageLength\<close>, modulo \<open>2^16\<close>.\<close>

theorem msg_tlv_append_correct:
  assumes "4 \<le> length (m_buf m)" and "msg_suffix (m_buf m ! 0 AND 15) = Some p"
    and "tiles p q (m_buf m) (m_tlv_list m)" and "rd16 (m_buf m) 2 = Some ml"
  shows "\<exists>r m'. msg_tlv_append mem m len = Some (r, m') \<and>
    (if int q + len > int tail_room \<or> mem = 0 then r = None \<and> m' = m
     else \<exists>x. r = Some x \<and> te_tlv x = q \<and> m_tlv_list m' = m_tlv_list m @ [x] \<and>
       rd16 (m_buf m') 2 = Some (ml + word_of_int len) \<and> length (m_buf m') = length (m_buf m))"
proof -
  have ty: "msg_type (m_buf m) = Some (m_buf m ! 0 AND 15)"
    using assms(1) by (auto simp: msg_type_def layout_simps rd8_def)
  have prep: "msg_tlv_prepare mem m len =
     (if int q + len > int tail_room \<or> mem = 0 then Some None
      else Some (Some \<lparr>te_tlv = q, te_cd = null_cd\<rparr>))"
  proof (cases "m_tlv_list m = []")
    case True
    then show ?thesis using assms(2,3) ty by (simp add: msg_tlv_prepare_def tlv_extra_alloc_def)
  next
    case False
    from tiles_last [OF assms(3) this] obtain ln where
      "rd16 (m_buf m) (te_tlv (last (m_tlv_list m)) + 2) = Some ln"
      and q: "q = te_tlv (last (m_tlv_list m)) + 4 + unat ln" by blast
    then show ?thesis
      unfolding q using False assms(2) ty
      by (simp add: msg_tlv_prepare_def tlv_extra_alloc_def layout_simps add.assoc)
  qed
  have rw: "rd16 (wr16 2 v (m_buf m)) 2 = Some v" for v
    using assms(1) rd16_wr16 [of 2 "m_buf m" v] by simp
  show ?thesis
    using prep assms(4) rw by (auto simp: msg_tlv_append_def layout_simps msg_tlv_attach_def wr16_def)
qed

theorem msg_tlv_append_correct_witness:
  "\<exists>x m'. msg_tlv_append 1 (message ([0x0C, 0x02, 44, 0] @ replicate 60 0)) 10 = Some (Some x, m') \<and>
    te_tlv x = 44 \<and> rd16 (m_buf m') 2 = Some 54"
proof -
  let ?m = "message ([0x0C, 0x02, 44, 0] @ replicate 60 0)"
  have "4 \<le> length (m_buf ?m)" "tiles 44 44 (m_buf ?m) (m_tlv_list ?m)" by (simp_all add: message_def)
  moreover have "msg_suffix (m_buf ?m ! 0 AND 15) = Some 44" "rd16 (m_buf ?m) 2 = Some 44" by code_simp+
  ultimately show ?thesis using msg_tlv_append_correct [of ?m 44 44 44 1 10] by auto
qed

end
