(* ===== verification/Filters.thy ===== *)
theory Filters
  imports Tmv
begin

text \<open>
  The delay filters of \<open>mave.c\<close> (moving average), \<open>mmedian.c\<close> (moving median) and \<open>filter.c\<close>
  (dispatch). Both keep the last \<open>len\<close> samples in a circular buffer. Their contract is the locale
  \<open>window_filter\<close>: a filter represents a window of samples, a new sample slides the window, and
  the value returned is a function of the window alone. Both filters are interpretations of it.
\<close>

section \<open>Moving average (mave.c)\<close>

record mave =
  ma_cnt :: nat
  ma_len :: nat
  ma_index :: nat
  ma_sum :: tmv_t
  ma_val :: "tmv_t list"

definition mave_accumulate :: "mave \<Rightarrow> tmv_t \<Rightarrow> tmv_t \<times> mave" where
  "mave_accumulate m val =
    (let m = m\<lparr>ma_sum := tmv_sub (ma_sum m) (ma_val m ! ma_index m)\<rparr>;
         m = m\<lparr>ma_val := (ma_val m)[ma_index m := val]\<rparr>;
         m = m\<lparr>ma_index := (1 + ma_index m) mod ma_len m\<rparr>;
         m = m\<lparr>ma_sum := tmv_add (ma_sum m) val\<rparr>;
         m = (if ma_cnt m < ma_len m then m\<lparr>ma_cnt := ma_cnt m + 1\<rparr> else m)
     in (tmv_div (ma_sum m) (int (ma_cnt m)), m))"

definition mave_reset :: "mave \<Rightarrow> mave" where
  "mave_reset m = m\<lparr>ma_cnt := 0, ma_index := 0, ma_sum := tmv_zero, ma_val := replicate (ma_len m) 0\<rparr>"

text \<open>\<open>mem\<close> and \<open>mem_val\<close> tell whether the two allocations succeed.\<close>

definition mave_create :: "bool \<Rightarrow> bool \<Rightarrow> nat \<Rightarrow> mave option" where
  "mave_create mem mem_val len =
    (if \<not> mem then None else if \<not> mem_val then None
     else Some \<lparr>ma_cnt = 0, ma_len = len, ma_index = 0, ma_sum = 0, ma_val = replicate len 0\<rparr>)"

section \<open>Moving median (mmedian.c)\<close>

record mmedian =
  mm_cnt :: nat
  mm_len :: nat
  mm_index :: nat
  mm_order :: "nat list"
  mm_samples :: "tmv_t list"

text \<open>The three loops of \<open>mmedian_sample\<close>: find the index of the replaced value in \<open>order\<close>, close
  the gap, and insert the new index from the right.\<close>

function mm_find :: "nat list \<Rightarrow> nat \<Rightarrow> nat \<Rightarrow> nat \<Rightarrow> nat" where
  "mm_find order index cnt i = (if i < cnt \<and> order ! i \<noteq> index then mm_find order index cnt (Suc i) else i)"
  by pat_completeness auto
termination by (relation "measure (\<lambda>(order, index, cnt, i). cnt - i)") auto

function mm_shift :: "nat list \<Rightarrow> nat \<Rightarrow> nat \<Rightarrow> nat list" where
  "mm_shift order cnt i =
    (if i + 1 < cnt then mm_shift (order[i := order ! (i + 1)]) cnt (Suc i) else order)"
  by pat_completeness auto
termination by (relation "measure (\<lambda>(order, cnt, i). cnt - i)") auto

fun mm_insert :: "tmv_t list \<Rightarrow> nat \<Rightarrow> nat list \<Rightarrow> nat \<Rightarrow> nat list" where
  "mm_insert samples index order 0 = order[0 := index]"
| "mm_insert samples index order (Suc i) =
    (if tmv_cmp (samples ! (order ! i)) (samples ! index) \<le> 0 then order[Suc i := index]
     else mm_insert samples index (order[Suc i := order ! i]) i)"

declare mm_find.simps [simp del] mm_shift.simps [simp del]

definition mmedian_sample :: "mmedian \<Rightarrow> tmv_t \<Rightarrow> tmv_t \<times> mmedian" where
  "mmedian_sample m sample =
    (let m = m\<lparr>mm_samples := (mm_samples m)[mm_index m := sample]\<rparr>;
         m = (if mm_cnt m < mm_len m then m\<lparr>mm_cnt := mm_cnt m + 1\<rparr>
              else m\<lparr>mm_order := mm_shift (mm_order m) (mm_cnt m)
                       (mm_find (mm_order m) (mm_index m) (mm_cnt m) 0)\<rparr>);
         m = m\<lparr>mm_order := mm_insert (mm_samples m) (mm_index m) (mm_order m) (mm_cnt m - 1)\<rparr>;
         m = m\<lparr>mm_index := (1 + mm_index m) mod mm_len m\<rparr>;
         value = (if odd (mm_cnt m) then mm_samples m ! (mm_order m ! (mm_cnt m div 2))
                  else tmv_div (tmv_add (mm_samples m ! (mm_order m ! (mm_cnt m div 2 - 1)))
                                        (mm_samples m ! (mm_order m ! (mm_cnt m div 2)))) 2)
     in (value, m))"

definition mmedian_reset :: "mmedian \<Rightarrow> mmedian" where
  "mmedian_reset m = m\<lparr>mm_cnt := 0, mm_index := 0\<rparr>"

definition mmedian_create :: "bool \<Rightarrow> bool \<Rightarrow> bool \<Rightarrow> int \<Rightarrow> mmedian option" where
  "mmedian_create mem mem_order mem_samples len =
    (if len < 1 then None else if \<not> mem then None else if \<not> mem_order then None
     else if \<not> mem_samples then None
     else Some \<lparr>mm_cnt = 0, mm_len = nat len, mm_index = 0, mm_order = replicate (nat len) 0,
                mm_samples = replicate (nat len) 0\<rparr>)"

section \<open>Dispatch (filter.c)\<close>

datatype filter_type = FILTER_MOVING_AVERAGE | FILTER_MOVING_MEDIAN

text \<open>The function pointers of \<open>struct filter\<close> select the implementation.\<close>

datatype filter = Mave mave | Mmedian mmedian

definition filter_create :: "bool \<Rightarrow> bool \<Rightarrow> bool \<Rightarrow> filter_type \<Rightarrow> int \<Rightarrow> filter option" where
  "filter_create mem1 mem2 mem3 ty len =
    (case ty of
       FILTER_MOVING_AVERAGE \<Rightarrow> map_option Mave (mave_create mem1 mem2 (nat len))
     | FILTER_MOVING_MEDIAN \<Rightarrow> map_option Mmedian (mmedian_create mem1 mem2 mem3 len))"

definition filter_sample :: "filter \<Rightarrow> tmv_t \<Rightarrow> tmv_t \<times> filter" where
  "filter_sample f sample =
    (case f of
       Mave m \<Rightarrow> map_prod (\<lambda>x. x) Mave (mave_accumulate m sample)
     | Mmedian m \<Rightarrow> map_prod (\<lambda>x. x) Mmedian (mmedian_sample m sample))"

definition filter_reset :: "filter \<Rightarrow> filter" where
  "filter_reset f = (case f of Mave m \<Rightarrow> Mave (mave_reset m) | Mmedian m \<Rightarrow> Mmedian (mmedian_reset m))"

section \<open>The contract of a filter\<close>

definition lastn :: "nat \<Rightarrow> 'a list \<Rightarrow> 'a list" where
  "lastn n xs = drop (length xs - n) xs"

lemma lastn_lastn_snoc: "0 < n \<Longrightarrow> lastn n (lastn n xs @ [x]) = lastn n (xs @ [x])"
  by (cases "n \<le> length xs") (auto simp: lastn_def Suc_diff_le)

text \<open>\<open>window f\<close> is the list of the samples that count, oldest first, at most \<open>cap f\<close> of them.\<close>

locale window_filter =
  fixes sample :: "'f \<Rightarrow> tmv_t \<Rightarrow> tmv_t \<times> 'f"
    and reset :: "'f \<Rightarrow> 'f"
    and inv :: "'f \<Rightarrow> bool"
    and window :: "'f \<Rightarrow> tmv_t list"
    and cap :: "'f \<Rightarrow> nat"
    and spec :: "tmv_t list \<Rightarrow> tmv_t"
  assumes cap_pos: "inv f \<Longrightarrow> 0 < cap f"
    and window_cap: "inv f \<Longrightarrow> length (window f) \<le> cap f"
    and sample_inv: "inv f \<Longrightarrow> inv (snd (sample f x))"
    and sample_cap: "inv f \<Longrightarrow> cap (snd (sample f x)) = cap f"
    and sample_window: "inv f \<Longrightarrow> window (snd (sample f x)) = lastn (cap f) (window f @ [x])"
    and sample_value: "inv f \<Longrightarrow> fst (sample f x) = spec (window (snd (sample f x)))"
    and reset_inv: "inv f \<Longrightarrow> inv (reset f)"
    and reset_cap: "inv f \<Longrightarrow> cap (reset f) = cap f"
    and reset_window: "inv f \<Longrightarrow> window (reset f) = []"
begin

definition feed :: "'f \<Rightarrow> tmv_t list \<Rightarrow> 'f" where
  "feed f xs = foldl (\<lambda>f x. snd (sample f x)) f xs"

lemma feed_window:
  assumes "inv f"
  shows "inv (feed f xs) \<and> cap (feed f xs) = cap f \<and> window (feed f xs) = lastn (cap f) (window f @ xs)"
proof (induction xs rule: rev_induct)
  case Nil
  show ?case using assms window_cap by (simp add: feed_def lastn_def)
next
  case (snoc x xs)
  then show ?case
    using cap_pos [OF assms] sample_inv sample_cap sample_window
      lastn_lastn_snoc [of "cap f" "window f @ xs" x]
    by (simp add: feed_def)
qed

text \<open>After a reset, the value depends on the last \<open>cap\<close> samples since then, and on nothing else.\<close>

lemma reset_feed_value:
  assumes "inv f"
  shows "fst (sample (feed (reset f) xs) x) = spec (lastn (cap f) (xs @ [x]))"
proof -
  have "inv (reset f)" "cap (reset f) = cap f" "window (reset f) = []"
    using assms reset_inv reset_cap reset_window by simp_all
  then have "inv (feed (reset f) xs)" "cap (feed (reset f) xs) = cap f"
    "window (feed (reset f) xs) = lastn (cap f) xs" using feed_window [of "reset f" xs] by simp_all
  then show ?thesis
    using sample_value sample_window lastn_lastn_snoc [OF cap_pos [OF assms], of xs x] by simp
qed

end

section \<open>Circular buffers\<close>

text \<open>The samples of a circular buffer, oldest first: \<open>cnt\<close> of them, the next one goes to \<open>index\<close>.\<close>

definition ring :: "nat \<Rightarrow> nat \<Rightarrow> nat \<Rightarrow> 'a list \<Rightarrow> 'a list" where
  "ring cnt len index xs = (if cnt < len then take cnt xs else drop index xs @ take index xs)"

definition ring_inv :: "nat \<Rightarrow> nat \<Rightarrow> nat \<Rightarrow> 'a list \<Rightarrow> bool" where
  "ring_inv cnt len index xs \<longleftrightarrow> 0 < len \<and> length xs = len \<and> cnt \<le> len \<and> index < len \<and>
     (cnt < len \<longrightarrow> index = cnt)"

abbreviation ring_cnt :: "nat \<Rightarrow> nat \<Rightarrow> nat" where
  "ring_cnt cnt len \<equiv> if cnt < len then Suc cnt else cnt"

lemma length_ring: "ring_inv cnt len index xs \<Longrightarrow> length (ring cnt len index xs) = cnt"
  by (auto simp: ring_inv_def ring_def)

lemma mset_ring: "ring_inv cnt len index xs \<Longrightarrow> mset (ring cnt len index xs) = mset (take cnt xs)"
  by (auto simp: ring_inv_def ring_def) (metis append_take_drop_id mset_append union_commute)

lemma ring_step:
  assumes "ring_inv cnt len index xs"
  shows "ring_inv (ring_cnt cnt len) len (Suc index mod len) (xs[index := x])"
    and "ring (ring_cnt cnt len) len (Suc index mod len) (xs[index := x]) =
      lastn len (ring cnt len index xs @ [x])"
proof -
  from assms have len: "0 < len" "length xs = len" "cnt \<le> len" "index < len"
    and idx: "cnt < len \<Longrightarrow> index = cnt" by (auto simp: ring_inv_def)
  show "ring_inv (ring_cnt cnt len) len (Suc index mod len) (xs[index := x])"
    using len idx by (auto simp: ring_inv_def)
  have last: "lastn len (ring cnt len index xs @ [x]) =
      (if cnt < len then take cnt xs @ [x] else drop (Suc index) xs @ take index xs @ [x])"
    using len idx by (auto simp: lastn_def ring_def Suc_diff_le)
  have upd: "take (Suc index) (xs[index := x]) = take index xs @ [x]"
    using len by (simp add: take_Suc_conv_app_nth)
  show "ring (ring_cnt cnt len) len (Suc index mod len) (xs[index := x]) =
      lastn len (ring cnt len index xs @ [x])"
  proof (cases "Suc index = len")
    case True
    then have "xs[index := x] = take index xs @ [x]" using upd len by (metis length_list_update order_refl take_all)
    then show ?thesis using True len idx last by (auto simp: ring_def)
  next
    case False
    then have "Suc index < len" using len by simp
    then show ?thesis using len idx last upd by (auto simp: ring_def)
  qed
qed

section \<open>The moving average meets the contract\<close>

definition mave_inv :: "mave \<Rightarrow> bool" where
  "mave_inv m \<longleftrightarrow> ring_inv (ma_cnt m) (ma_len m) (ma_index m) (ma_val m) \<and>
     (\<forall>i. ma_cnt m \<le> i \<and> i < ma_len m \<longrightarrow> ma_val m ! i = 0) \<and> ma_sum m = sum_list (ma_val m)"

definition mave_window :: "mave \<Rightarrow> tmv_t list" where
  "mave_window m = ring (ma_cnt m) (ma_len m) (ma_index m) (ma_val m)"

text \<open>The sum of the samples, with the wrap-around of \<open>tmv_t\<close>, divided by their number.\<close>

definition average :: "tmv_t list \<Rightarrow> tmv_t" where
  "average xs = tmv_div (sum_list xs) (int (length xs))"

lemma sum_list_zeros: "(\<And>i. n \<le> i \<Longrightarrow> i < length xs \<Longrightarrow> xs ! i = 0) \<Longrightarrow> sum_list (take n xs) = sum_list (xs :: tmv_t list)"
proof -
  assume z: "\<And>i. n \<le> i \<Longrightarrow> i < length xs \<Longrightarrow> xs ! i = 0"
  have "x = 0" if "x \<in> set (drop n xs)" for x
    using that z by (auto simp: in_set_conv_nth)
  then have "drop n xs = replicate (length xs - n) 0" by (intro replicate_eqI) auto
  then have "sum_list (drop n xs) = 0" by (simp add: sum_list_replicate)
  then show ?thesis using sum_list_append [of "take n xs" "drop n xs"] by simp
qed

lemma sum_list_update_word: "k < length xs \<Longrightarrow> sum_list (xs[k := x]) = sum_list (xs :: tmv_t list) - xs ! k + x"
  by (induction xs arbitrary: k) (auto split: nat.splits simp: algebra_simps)

lemma mave_window_sum:
  assumes "mave_inv m"
  shows "ma_sum m = sum_list (mave_window m)"
proof -
  have "mset (mave_window m) = mset (take (ma_cnt m) (ma_val m))"
    using assms mset_ring by (auto simp: mave_inv_def mave_window_def)
  then have "sum_list (mave_window m) = sum_list (take (ma_cnt m) (ma_val m))"
    by (metis sum_mset_sum_list)
  also have "\<dots> = sum_list (ma_val m)"
    using assms by (intro sum_list_zeros) (auto simp: mave_inv_def ring_inv_def)
  finally show ?thesis using assms by (simp add: mave_inv_def)
qed

lemma mave_accumulate_eq:
  "mave_accumulate m x =
    (let m' = \<lparr>ma_cnt = ring_cnt (ma_cnt m) (ma_len m), ma_len = ma_len m,
               ma_index = Suc (ma_index m) mod ma_len m,
               ma_sum = ma_sum m - ma_val m ! ma_index m + x, ma_val = (ma_val m)[ma_index m := x]\<rparr>
     in (tmv_div (ma_sum m') (int (ma_cnt m')), m'))"
  by (simp add: mave_accumulate_def Let_def tmv_sub_def tmv_add_def)

lemma mave_step:
  assumes "mave_inv m"
  shows "mave_inv (snd (mave_accumulate m x))"
    and "mave_window (snd (mave_accumulate m x)) = lastn (ma_len m) (mave_window m @ [x])"
    and "ma_len (snd (mave_accumulate m x)) = ma_len m"
    and "fst (mave_accumulate m x) = average (mave_window (snd (mave_accumulate m x)))"
proof -
  have r: "ring_inv (ma_cnt m) (ma_len m) (ma_index m) (ma_val m)" using assms by (simp add: mave_inv_def)
  then have i: "ma_index m < length (ma_val m)" by (simp add: ring_inv_def)
  show inv: "mave_inv (snd (mave_accumulate m x))"
    using assms ring_step(1) [OF r, of x] i sum_list_update_word [OF i, of x]
    by (auto simp: mave_inv_def mave_accumulate_eq Let_def nth_list_update ring_inv_def)
  show "mave_window (snd (mave_accumulate m x)) = lastn (ma_len m) (mave_window m @ [x])"
    using ring_step(2) [OF r, of x] by (simp add: mave_window_def mave_accumulate_eq Let_def)
  show "ma_len (snd (mave_accumulate m x)) = ma_len m" by (simp add: mave_accumulate_eq Let_def)
  have "length (mave_window (snd (mave_accumulate m x))) = ma_cnt (snd (mave_accumulate m x))"
    using inv length_ring by (auto simp: mave_inv_def mave_window_def)
  then show "fst (mave_accumulate m x) = average (mave_window (snd (mave_accumulate m x)))"
    using mave_window_sum [OF inv] by (simp add: average_def mave_accumulate_eq Let_def)
qed

interpretation mave: window_filter mave_accumulate mave_reset mave_inv mave_window ma_len average
proof
  fix f x
  assume inv: "mave_inv f"
  show "0 < ma_len f" using inv by (simp add: mave_inv_def ring_inv_def)
  have r: "ring_inv (ma_cnt f) (ma_len f) (ma_index f) (ma_val f)" using inv by (simp add: mave_inv_def)
  show "length (mave_window f) \<le> ma_len f"
    using length_ring [OF r] r by (simp add: mave_window_def ring_inv_def)
  show "mave_inv (snd (mave_accumulate f x))" "ma_len (snd (mave_accumulate f x)) = ma_len f"
    "mave_window (snd (mave_accumulate f x)) = lastn (ma_len f) (mave_window f @ [x])"
    "fst (mave_accumulate f x) = average (mave_window (snd (mave_accumulate f x)))"
    using mave_step [OF inv] by simp_all
  show "mave_inv (mave_reset f)" "ma_len (mave_reset f) = ma_len f" "mave_window (mave_reset f) = []"
    using inv by (auto simp: mave_reset_def mave_inv_def ring_inv_def mave_window_def ring_def
        sum_list_replicate tmv_zero_def)
qed

section \<open>The moving median meets the contract\<close>

abbreviation by_value :: "tmv_t list \<Rightarrow> nat list \<Rightarrow> bool" where
  "by_value s js \<equiv> sorted (map (\<lambda>j. sint (s ! j)) js)"

definition mmedian_inv :: "mmedian \<Rightarrow> bool" where
  "mmedian_inv m \<longleftrightarrow> ring_inv (mm_cnt m) (mm_len m) (mm_index m) (mm_samples m) \<and>
     length (mm_order m) = mm_len m \<and>
     distinct (take (mm_cnt m) (mm_order m)) \<and> set (take (mm_cnt m) (mm_order m)) = {..<mm_cnt m} \<and>
     by_value (mm_samples m) (take (mm_cnt m) (mm_order m))"

definition mmedian_window :: "mmedian \<Rightarrow> tmv_t list" where
  "mmedian_window m = ring (mm_cnt m) (mm_len m) (mm_index m) (mm_samples m)"

definition median :: "tmv_t list \<Rightarrow> tmv_t" where
  "median xs =
    (let s = sort_key sint xs; n = length xs
     in if odd n then s ! (n div 2) else tmv_div (tmv_add (s ! (n div 2 - 1)) (s ! (n div 2))) 2)"

text \<open>The loops: removing an index from \<open>order\<close>.\<close>

lemma mm_find_correct:
  "k < cnt \<Longrightarrow> order ! k = index \<Longrightarrow> i \<le> k \<Longrightarrow>
    order ! mm_find order index cnt i = index \<and> mm_find order index cnt i < cnt"
proof (induction order index cnt i rule: mm_find.induct)
  case (1 order index cnt i)
  show ?case
  proof (cases "order ! i = index")
    case True
    then show ?thesis using 1 by (simp add: mm_find.simps)
  next
    case False
    then have "i < k" using 1 by (cases "i = k") auto
    then show ?thesis using 1 False by (subst (1 2) mm_find.simps) auto
  qed
qed

lemma mm_shift_correct:
  assumes "i < cnt" and "cnt \<le> length order"
  shows "take (cnt - 1) (mm_shift order cnt i) = take i order @ drop (Suc i) (take cnt order) \<and>
    length (mm_shift order cnt i) = length order"
  using assms
proof (induction order cnt i rule: mm_shift.induct)
  case (1 order cnt i)
  show ?case
  proof (cases "i + 1 < cnt")
    case True
    let ?o = "order[i := order ! (i + 1)]"
    have "take (Suc i) ?o = take i order @ [order ! (i + 1)]"
      using True 1 by (simp add: take_Suc_conv_app_nth)
    moreover have "drop (Suc (Suc i)) (take cnt ?o) = drop (Suc (Suc i)) (take cnt order)"
      by (simp add: drop_take)
    moreover have "drop (Suc i) (take cnt order) = order ! (i + 1) # drop (Suc (Suc i)) (take cnt order)"
      using True 1 by (subst Cons_nth_drop_Suc [symmetric]) simp_all
    ultimately show ?thesis using True 1 by (subst (1 2) mm_shift.simps) simp
  next
    case False
    then have "i = cnt - 1" using 1 by simp
    then show ?thesis using False 1 by (subst (1 2) mm_shift.simps) simp
  qed
qed

lemma mm_insert_above: "n < j \<Longrightarrow> mm_insert s x order n ! j = order ! j"
  by (induction n arbitrary: order) auto

text \<open>Inserting an index: into a prefix that is in order, from the right.\<close>

lemma mm_insert_correct:
  assumes "n < length order" and "by_value s (take n order)"
  shows "\<exists>k \<le> n. take (Suc n) (mm_insert s x order n) = take k order @ x # drop k (take n order) \<and>
    by_value s (take (Suc n) (mm_insert s x order n)) \<and> length (mm_insert s x order n) = length order"
  using assms
proof (induction n arbitrary: order)
  case 0
  then show ?case by (cases order) auto
next
  case (Suc n)
  have srt: "by_value s (take n order)" and below: "\<forall>j \<in> set (take n order). sint (s ! j) \<le> sint (s ! (order ! n))"
    using Suc.prems by (auto simp: take_Suc_conv_app_nth sorted_append)
  show ?case
  proof (cases "tmv_cmp (s ! (order ! n)) (s ! x) \<le> 0")
    case True
    then have le: "sint (s ! (order ! n)) \<le> sint (s ! x)" by (auto simp: tmv_cmp_def split: if_splits)
    have "take (Suc (Suc n)) (order[Suc n := x]) = take (Suc n) order @ [x]"
      using Suc.prems by (simp add: take_Suc_conv_app_nth [of "Suc n"])
    moreover have "by_value s (take (Suc n) order @ [x])"
      using Suc.prems below le by (auto simp: sorted_append take_Suc_conv_app_nth)
    ultimately show ?thesis using True by (intro exI [of _ "Suc n"]) simp
  next
    case False
    then have gt: "sint (s ! x) < sint (s ! (order ! n))" by (auto simp: tmv_cmp_def split: if_splits)
    let ?o = "order[Suc n := order ! n]"
    have "take n ?o = take n order" by simp
    then obtain k where k: "k \<le> n" "take (Suc n) (mm_insert s x ?o n) = take k order @ x # drop k (take n order)"
      "by_value s (take (Suc n) (mm_insert s x ?o n))" "length (mm_insert s x ?o n) = length order"
      using Suc.IH [of ?o] Suc.prems srt by auto
    have keep: "mm_insert s x ?o n ! Suc n = order ! n"
      using mm_insert_above [of n "Suc n" s x ?o] Suc.prems by simp
    have eq: "take (Suc (Suc n)) (mm_insert s x ?o n) = take k order @ x # drop k (take (Suc n) order)"
      using k Suc.prems keep by (simp add: take_Suc_conv_app_nth [of "Suc n"] take_Suc_conv_app_nth [of n order])
    have "by_value s (take (Suc (Suc n)) (mm_insert s x ?o n))"
    proof -
      have "take (Suc (Suc n)) (mm_insert s x ?o n) = take (Suc n) (mm_insert s x ?o n) @ [order ! n]"
        using k Suc.prems keep by (simp add: take_Suc_conv_app_nth [of "Suc n"])
      moreover have "\<forall>j \<in> set (take (Suc n) (mm_insert s x ?o n)). sint (s ! j) \<le> sint (s ! (order ! n))"
        using below gt k(1,2) by (auto dest: in_set_takeD in_set_dropD simp: set_take_subset_set_take [THEN subsetD])
      ultimately show ?thesis using k(3) by (auto simp: sorted_append)
    qed
    then show ?thesis using False eq k by (intro exI [of _ k]) simp
  qed
qed

text \<open>Before the insertion: the indices of the other samples, in order.\<close>

definition mm_removed :: "mmedian \<Rightarrow> nat list" where
  "mm_removed m = (if mm_cnt m < mm_len m then mm_order m
     else mm_shift (mm_order m) (mm_cnt m) (mm_find (mm_order m) (mm_index m) (mm_cnt m) 0))"

lemma mm_removed_correct:
  assumes inv: "mmedian_inv m" and n: "n = ring_cnt (mm_cnt m) (mm_len m) - 1"
  shows "n < mm_len m" and "length (mm_removed m) = mm_len m"
    and "distinct (take n (mm_removed m))"
    and "set (take n (mm_removed m)) = {..n} - {mm_index m}"
    and "by_value (mm_samples m) (take n (mm_removed m))"
proof -
  let ?c = "mm_cnt m" and ?o = "mm_order m"
  have r: "0 < mm_len m" "?c \<le> mm_len m" "mm_index m < mm_len m" "?c < mm_len m \<longrightarrow> mm_index m = ?c"
    "length ?o = mm_len m"
    using inv by (auto simp: mmedian_inv_def ring_inv_def)
  have o: "distinct (take ?c ?o)" "set (take ?c ?o) = {..<?c}" "by_value (mm_samples m) (take ?c ?o)"
    using inv by (auto simp: mmedian_inv_def)
  show "n < mm_len m" using r n by auto
  have "length (mm_removed m) = mm_len m \<and> distinct (take n (mm_removed m)) \<and>
      set (take n (mm_removed m)) = {..n} - {mm_index m} \<and> by_value (mm_samples m) (take n (mm_removed m))"
  proof (cases "?c < mm_len m")
    case True
    then have "n = ?c" "mm_index m = ?c" "mm_removed m = ?o" using r n by (simp_all add: mm_removed_def)
    moreover have "{..<?c} = {..?c} - {?c}" by auto
    ultimately show ?thesis using r o by simp
  next
    case False
    then have full: "?c = mm_len m" using r by simp
    let ?i = "mm_find ?o (mm_index m) ?c 0"
    have "mm_index m \<in> set (take ?c ?o)" using o(2) r full by simp
    then obtain k where "k < ?c" "?o ! k = mm_index m" using r full by (auto simp: in_set_conv_nth)
    then have i: "?o ! ?i = mm_index m" "?i < ?c" using mm_find_correct [of k ?c ?o "mm_index m" 0] by auto
    have tk: "take n (mm_removed m) = take ?i ?o @ drop (Suc ?i) (take ?c ?o)"
      and len: "length (mm_removed m) = mm_len m"
      using mm_shift_correct [of ?i ?c ?o] i r full n by (simp_all add: mm_removed_def)
    have split: "take ?c ?o = take ?i ?o @ mm_index m # drop (Suc ?i) (take ?c ?o)"
      using i r full id_take_nth_drop [of ?i "take ?c ?o"] by (simp add: min_def)
    have "distinct (take ?i ?o @ mm_index m # drop (Suc ?i) (take ?c ?o))" using o(1) split by simp
    moreover have "{..n} = insert (mm_index m) (set (take n (mm_removed m)))"
    proof -
      have "{..n} = {..<?c}" using n full r by auto
      then show ?thesis using o(2) split tk by (metis (no_types, lifting) Un_insert_right list.simps(15) set_append)
    qed
    moreover have "by_value (mm_samples m) (take ?i ?o @ mm_index m # drop (Suc ?i) (take ?c ?o))"
      using o(3) split by simp
    ultimately show ?thesis unfolding tk using len by (auto simp: sorted_append)
  qed
  then show "length (mm_removed m) = mm_len m" "distinct (take n (mm_removed m))"
    "set (take n (mm_removed m)) = {..n} - {mm_index m}"
    "by_value (mm_samples m) (take n (mm_removed m))" by simp_all
qed

lemma by_value_update: "k \<notin> set js \<Longrightarrow> by_value (s[k := x]) js = by_value s js"
proof -
  assume "k \<notin> set js"
  then have "map (\<lambda>j. sint (s[k := x] ! j)) js = map (\<lambda>j. sint (s ! j)) js"
    by (intro map_cong refl) (metis nth_list_update_neq)
  then show ?thesis by (simp only:)
qed

lemma mmedian_sample_eq:
  "mmedian_sample m x =
    (let c = ring_cnt (mm_cnt m) (mm_len m); s = (mm_samples m)[mm_index m := x];
         o' = mm_insert s (mm_index m) (mm_removed m) (c - 1)
     in (if odd c then s ! (o' ! (c div 2))
         else tmv_div (tmv_add (s ! (o' ! (c div 2 - 1))) (s ! (o' ! (c div 2)))) 2,
         \<lparr>mm_cnt = c, mm_len = mm_len m, mm_index = Suc (mm_index m) mod mm_len m,
          mm_order = o', mm_samples = s\<rparr>))"
  by (simp add: mmedian_sample_def Let_def mm_removed_def)

lemma mmedian_step:
  assumes inv: "mmedian_inv m"
  shows "mmedian_inv (snd (mmedian_sample m x))"
    and "mmedian_window (snd (mmedian_sample m x)) = lastn (mm_len m) (mmedian_window m @ [x])"
    and "fst (mmedian_sample m x) = median (mmedian_window (snd (mmedian_sample m x)))"
proof -
  let ?c = "ring_cnt (mm_cnt m) (mm_len m)" and ?s = "(mm_samples m)[mm_index m := x]"
  let ?n = "?c - 1"
  let ?o = "mm_insert ?s (mm_index m) (mm_removed m) ?n" and ?m' = "snd (mmedian_sample m x)"
  have r: "ring_inv (mm_cnt m) (mm_len m) (mm_index m) (mm_samples m)" using inv by (simp add: mmedian_inv_def)
  have c: "Suc ?n = ?c" "?c \<le> mm_len m" "mm_index m \<le> ?n" using r by (auto simp: ring_inv_def)
  note rm = mm_removed_correct [OF inv refl]
  have "by_value ?s (take ?n (mm_removed m))" using rm(4,5) by (subst by_value_update) auto
  with mm_insert_correct [of ?n "mm_removed m" ?s "mm_index m"] rm(1,2)
  obtain k where k: "take ?c ?o = take k (mm_removed m) @ mm_index m # drop k (take ?n (mm_removed m))"
    "k \<le> ?n" "by_value ?s (take ?c ?o)" "length ?o = mm_len m" unfolding c(1) by auto
  have split: "take k (mm_removed m) @ drop k (take ?n (mm_removed m)) = take ?n (mm_removed m)"
    using append_take_drop_id [of k "take ?n (mm_removed m)"] k(2) by (simp add: min_def)
  have ms: "mset (take ?c ?o) = add_mset (mm_index m) (mset (take ?n (mm_removed m)))"
    unfolding k(1) by (subst split [symmetric]) simp
  have "distinct (mm_index m # take ?n (mm_removed m))" using rm(3,4) by simp
  then have dist: "distinct (take ?c ?o)" using ms by (metis mset.simps(2) mset_eq_imp_distinct_iff)
  have set: "set (take ?c ?o) = {..<?c}"
    using arg_cong [OF ms, of set_mset] rm(4) c by auto
  note r' = ring_step [OF r, of x]
  show inv': "mmedian_inv ?m'"
    using r'(1) k(3,4) dist set by (simp add: mmedian_inv_def mmedian_sample_eq Let_def)
  show win: "mmedian_window ?m' = lastn (mm_len m) (mmedian_window m @ [x])"
    using r'(2) by (simp add: mmedian_window_def mmedian_sample_eq Let_def)
  have wr: "mmedian_window ?m' = ring ?c (mm_len m) (Suc (mm_index m) mod mm_len m) ?s"
    by (simp add: mmedian_window_def mmedian_sample_eq Let_def)
  have "mset (mmedian_window ?m') = mset (take ?c ?s)" unfolding wr by (rule mset_ring [OF r'(1)])
  also have "take ?c ?s = map ((!) ?s) [0..<?c]"
    using r'(1) by (intro nth_equalityI) (auto simp: ring_inv_def)
  also have "mset \<dots> = image_mset ((!) ?s) (mset (take ?c ?o))"
  proof -
    have "mset [0..<?c] = mset (take ?c ?o)"
      using dist set set_eq_iff_mset_eq_distinct [of "[0..<?c]" "take ?c ?o"] by (simp add: atLeast0LessThan)
    then show ?thesis by (simp only: mset_map)
  qed
  finally have "mset (mmedian_window ?m') = mset (map ((!) ?s) (take ?c ?o))" by simp
  moreover have "sorted (map sint (map ((!) ?s) (take ?c ?o)))" using k(3) by (simp add: comp_def)
  ultimately have srt: "sort_key sint (mmedian_window ?m') = map ((!) ?s) (take ?c ?o)"
    by (intro sort_key_inj_key_eq) (auto intro: inj_onI signed_word_eqI)
  have lw: "length (mmedian_window ?m') = ?c" unfolding wr by (rule length_ring [OF r'(1)])
  have nth: "sort_key sint (mmedian_window ?m') ! j = ?s ! (?o ! j)" if "j < ?c" for j
    unfolding srt using that k(4) c by simp
  show "fst (mmedian_sample m x) = median (mmedian_window ?m')"
    unfolding median_def lw Let_def using nth c(1) by (simp add: mmedian_sample_eq Let_def)
qed

interpretation mmedian: window_filter mmedian_sample mmedian_reset mmedian_inv mmedian_window mm_len median
proof
  fix f x
  assume inv: "mmedian_inv f"
  have r: "ring_inv (mm_cnt f) (mm_len f) (mm_index f) (mm_samples f)" using inv by (simp add: mmedian_inv_def)
  show "0 < mm_len f" using r by (simp add: ring_inv_def)
  show "length (mmedian_window f) \<le> mm_len f"
    using length_ring [OF r] r by (simp add: mmedian_window_def ring_inv_def)
  show "mmedian_inv (snd (mmedian_sample f x))"
    "mmedian_window (snd (mmedian_sample f x)) = lastn (mm_len f) (mmedian_window f @ [x])"
    "fst (mmedian_sample f x) = median (mmedian_window (snd (mmedian_sample f x)))"
    using mmedian_step [OF inv] by simp_all
  show "mm_len (snd (mmedian_sample f x)) = mm_len f" by (simp add: mmedian_sample_eq Let_def)
  show "mmedian_inv (mmedian_reset f)" "mm_len (mmedian_reset f) = mm_len f" "mmedian_window (mmedian_reset f) = []"
    using inv r by (auto simp: mmedian_reset_def mmedian_inv_def ring_inv_def mmedian_window_def ring_def)
qed

section \<open>Properties\<close>

definition filter_feed :: "filter \<Rightarrow> tmv_t list \<Rightarrow> filter" where
  "filter_feed f xs = foldl (\<lambda>f x. snd (filter_sample f x)) f xs"

definition filter_spec :: "filter_type \<Rightarrow> tmv_t list \<Rightarrow> tmv_t" where
  "filter_spec ty = (case ty of FILTER_MOVING_AVERAGE \<Rightarrow> average | FILTER_MOVING_MEDIAN \<Rightarrow> median)"

lemma filter_feed_Mave: "filter_feed (Mave m) xs = Mave (mave.feed m xs)"
  by (induction xs rule: rev_induct) (simp_all add: filter_feed_def mave.feed_def filter_sample_def)

lemma filter_feed_Mmedian: "filter_feed (Mmedian m) xs = Mmedian (mmedian.feed m xs)"
  by (induction xs rule: rev_induct) (simp_all add: filter_feed_def mmedian.feed_def filter_sample_def)

lemma mave_create_inv: "mave_create a b n = Some m \<Longrightarrow> 0 < n \<Longrightarrow> mave_inv m \<and> ma_len m = n"
  by (auto simp: mave_create_def mave_inv_def ring_inv_def sum_list_replicate split: if_splits)

lemma mmedian_create_inv: "mmedian_create a b c n = Some m \<Longrightarrow> mmedian_inv m \<and> mm_len m = nat n"
  by (auto simp: mmedian_create_def mmedian_inv_def ring_inv_def split: if_splits)

lemma filter_feed_value:
  assumes "filter_create mem1 mem2 mem3 ty len = Some f" and "1 \<le> len"
  shows "fst (filter_sample (filter_feed (filter_reset (filter_feed f ys)) xs) x) =
    filter_spec ty (lastn (nat len) (xs @ [x]))"
proof (cases ty)
  case FILTER_MOVING_AVERAGE
  then obtain m where f: "f = Mave m" and m: "mave_inv m" "ma_len m = nat len"
    using assms mave_create_inv by (auto simp: filter_create_def)
  have "fst (mave_accumulate (mave.feed (mave_reset (mave.feed m ys)) xs) x) =
      average (lastn (nat len) (xs @ [x]))"
    using mave.reset_feed_value [of "mave.feed m ys" xs x] mave.feed_window [OF m(1), of ys] m(2) by simp
  then show ?thesis
    using FILTER_MOVING_AVERAGE f
    by (simp add: filter_feed_Mave filter_reset_def filter_sample_def filter_spec_def)
next
  case FILTER_MOVING_MEDIAN
  then obtain m where f: "f = Mmedian m" and m: "mmedian_inv m" "mm_len m = nat len"
    using assms mmedian_create_inv by (auto simp: filter_create_def)
  have "fst (mmedian_sample (mmedian.feed (mmedian_reset (mmedian.feed m ys)) xs) x) =
      median (lastn (nat len) (xs @ [x]))"
    using mmedian.reset_feed_value [of "mmedian.feed m ys" xs x] mmedian.feed_window [OF m(1), of ys] m(2)
    by simp
  then show ?thesis
    using FILTER_MOVING_MEDIAN f
    by (simp add: filter_feed_Mmedian filter_reset_def filter_sample_def filter_spec_def)
qed

lemma filter_create_reset:
  "filter_create mem1 mem2 mem3 ty len = Some f \<Longrightarrow> filter_reset f = f"
  by (cases ty)
    (auto simp: filter_create_def mave_create_def mmedian_create_def filter_reset_def mave_reset_def
      mmedian_reset_def tmv_zero_def split: if_splits)

text \<open>C40. The delay filters compute what they are named for: on a filter of length \<open>n\<close>, whatever was
  sampled before the last reset, the value returned for a sample is the average, or the median,
  of that sample and the at most \<open>n - 1\<close> samples before it since the reset. The average is
  kept as a running sum and the median as a sorted array of indices.\<close>

theorem filter_sample_value:
  assumes "filter_create mem1 mem2 mem3 ty len = Some f" and "1 \<le> len"
  shows "fst (filter_sample (filter_feed (filter_reset (filter_feed f ys)) xs) x) =
    filter_spec ty (lastn (nat len) (xs @ [x]))"
  using assms by (rule filter_feed_value)

theorem filter_sample_value_witness:
  "\<exists>f. filter_create True True True FILTER_MOVING_MEDIAN 3 = Some f \<and>
    fst (filter_sample (filter_feed (filter_reset (filter_feed f [100])) [9, 1, 7]) 4) = 4"
proof -
  obtain f where f: "filter_create True True True FILTER_MOVING_MEDIAN 3 = Some f"
    by (simp add: filter_create_def mmedian_create_def)
  have "filter_spec FILTER_MOVING_MEDIAN (lastn (nat 3) ([9, 1, 7] @ [4])) = 4" by code_simp
  then show ?thesis using filter_sample_value [OF f, of "[100]" "[9, 1, 7]" 4] f by auto
qed

lemma sint_sum_list:
  "- (2 ^ 63) \<le> sum_list (map sint xs) \<Longrightarrow> sum_list (map sint xs) < 2 ^ 63 \<Longrightarrow>
    sint (sum_list (xs :: tmv_t list)) = sum_list (map sint xs)"
proof -
  have "sum_list xs = word_of_int (sum_list (map sint xs))"
    by (induction xs) simp_all
  then show "- (2 ^ 63) \<le> sum_list (map sint xs) \<Longrightarrow> sum_list (map sint xs) < 2 ^ 63 \<Longrightarrow> ?thesis"
    by (simp add: sint64_word_of_int)
qed

lemma average_exact:
  assumes "xs \<noteq> []" and "- (2 ^ 63) \<le> sum_list (map sint xs)" and "sum_list (map sint xs) < 2 ^ 63"
  shows "sint (average xs) = sum_list (map sint xs) sdiv int (length xs)"
proof -
  let ?s = "sum_list (map sint xs)"
  have "min ?s 0 \<le> ?s sdiv int (length xs) \<and> ?s sdiv int (length xs) \<le> max ?s 0"
    using assms(1) by (intro sdiv_pos_bounds) simp
  then have "- (2 ^ 63) \<le> ?s sdiv int (length xs)" "?s sdiv int (length xs) < 2 ^ 63"
    using assms(2,3) by linarith+
  then show ?thesis
    using sint_sum_list [OF assms(2,3)] by (simp add: average_def tmv_div_def sint64_word_of_int)
qed

text \<open>The moving average is exact unless the sum of the window leaves the range of 64 bits: then,
  and only by truncation of the quotient towards zero, does it differ from the mean.\<close>

theorem mave_accumulate_exact:
  assumes "mave_inv m" and "w = mave_window (snd (mave_accumulate m x))"
    and "- (2 ^ 63) \<le> sum_list (map sint w)" and "sum_list (map sint w) < 2 ^ 63"
  shows "sint (fst (mave_accumulate m x)) = sum_list (map sint w) sdiv int (length w)"
proof -
  have "w = lastn (ma_len m) (mave_window m @ [x])" using mave_step(2) [OF assms(1)] assms(2) by simp
  moreover have "0 < ma_len m" using assms(1) by (rule mave.cap_pos)
  ultimately have "w \<noteq> []" by (simp add: lastn_def)
  then show ?thesis using average_exact [OF _ assms(3,4)] mave_step(4) [OF assms(1)] assms(2) by simp
qed

theorem mave_accumulate_exact_witness:
  "\<exists>m. mave_create True True 2 = Some m \<and> sint (fst (mave_accumulate m (word_of_int (-7)))) = -7"
proof -
  obtain m where m: "mave_create True True 2 = Some m" by (simp add: mave_create_def)
  have inv: "mave_inv m" and w: "mave_window (snd (mave_accumulate m (word_of_int (-7)))) = [word_of_int (-7)]"
    using mave_create_inv [OF m] mave_step(2) [of m "word_of_int (-7)"] m
    by (auto simp: mave_create_def mave_window_def ring_def lastn_def)
  have "sint (word_of_int (-7) :: tmv_t) = -7" by (simp add: sint64_word_of_int)
  then show ?thesis
    using mave_accumulate_exact [OF inv w [symmetric]] m by (auto simp: signed_divide_int_def)
qed

end
