(* ===== verification/Tsproc.thy ===== *)
theory Tsproc
  imports Filters Complex_Main
begin

text \<open>
  \<open>tsproc.c\<close>, the time stamp processor: from the four time stamps of a delay measurement it
  computes the path delay and the offset from the master. A \<open>double\<close> is the rational number it
  denotes, and an operation on doubles is the exact operation followed by \<open>rnd64\<close>, the rounding of
  IEEE 754 binary64 to the nearest value, ties to even, for numbers in the normal range (the
  processor multiplies and divides nanosecond counts below \<open>2^63\<close> by ratios near one, so it
  neither overflows nor underflows). NaN and infinities are not represented.
\<close>

section \<open>Doubles\<close>

fun bitlen :: "nat \<Rightarrow> nat" where
  "bitlen n = (if n = 0 then 0 else Suc (bitlen (n div 2)))"

declare bitlen.simps [simp del]

text \<open>\<open>pow2 e\<close> is \<open>2^e\<close> for an integer exponent, \<open>exponent x\<close> the exponent of a non-zero rational.\<close>

definition pow2 :: "int \<Rightarrow> rat" where
  "pow2 e = (if 0 \<le> e then 2 ^ nat e else 1 / 2 ^ nat (- e))"

definition exponent :: "rat \<Rightarrow> int" where
  "exponent x =
    (case quotient_of \<bar>x\<bar> of (n, d) \<Rightarrow>
       let k = int (bitlen (nat n)) - int (bitlen (nat d))
       in if \<bar>x\<bar> < pow2 k then k - 1 else k)"

definition round_half_even :: "rat \<Rightarrow> int" where
  "round_half_even x =
    (let f = \<lfloor>x\<rfloor>; r = x - of_int f
     in if r < 1 / 2 then f else if r > 1 / 2 then f + 1 else if even f then f else f + 1)"

definition rnd64 :: "rat \<Rightarrow> rat" where
  "rnd64 x = (if x = 0 then 0
     else let u = pow2 (exponent x - 52) in of_int (round_half_even (x / u)) * u)"

definition tmv_dbl :: "tmv_t \<Rightarrow> rat" where
  "tmv_dbl x = rnd64 (of_int (sint x))"

text \<open>The conversion of a \<open>double\<close> to \<open>int64_t\<close> truncates towards zero.\<close>

definition dbl_tmv :: "rat \<Rightarrow> tmv_t" where
  "dbl_tmv x = word_of_int (if 0 \<le> x then \<lfloor>x\<rfloor> else \<lceil>x\<rceil>)"

section \<open>The processor\<close>

datatype tsproc_mode = TSPROC_FILTER | TSPROC_RAW | TSPROC_FILTER_WEIGHT | TSPROC_RAW_WEIGHT

record tsproc =
  tsp_mode :: tsproc_mode
  clock_rate_ratio :: rat
  t1 :: tmv_t
  t2 :: tmv_t
  t3 :: tmv_t
  t4 :: tmv_t
  filtered_delay :: tmv_t
  filtered_delay_valid :: bool
  delay_filter :: filter

definition weighting :: "tsproc \<Rightarrow> bool" where
  "weighting tsp = (case tsp_mode tsp of
     TSPROC_FILTER \<Rightarrow> False | TSPROC_RAW \<Rightarrow> False
   | TSPROC_FILTER_WEIGHT \<Rightarrow> True | TSPROC_RAW_WEIGHT \<Rightarrow> True)"

definition tsproc_create ::
  "bool \<Rightarrow> bool \<Rightarrow> bool \<Rightarrow> bool \<Rightarrow> tsproc_mode \<Rightarrow> filter_type \<Rightarrow> int \<Rightarrow> tsproc option" where
  "tsproc_create mem mem1 mem2 mem3 mode ty len =
    (if \<not> mem then None
     else case filter_create mem1 mem2 mem3 ty len of
       None \<Rightarrow> None
     | Some f \<Rightarrow> Some \<lparr>tsp_mode = mode, clock_rate_ratio = 1, t1 = 0, t2 = 0, t3 = 0, t4 = 0,
         filtered_delay = 0, filtered_delay_valid = False, delay_filter = f\<rparr>)"

definition tsproc_down_ts :: "tsproc \<Rightarrow> tmv_t \<Rightarrow> tmv_t \<Rightarrow> tsproc" where
  "tsproc_down_ts tsp remote_ts local_ts = tsp\<lparr>t1 := remote_ts, t2 := local_ts\<rparr>"

definition tsproc_up_ts :: "tsproc \<Rightarrow> tmv_t \<Rightarrow> tmv_t \<Rightarrow> tsproc" where
  "tsproc_up_ts tsp local_ts remote_ts = tsp\<lparr>t3 := local_ts, t4 := remote_ts\<rparr>"

definition tsproc_set_clock_rate_ratio :: "tsproc \<Rightarrow> rat \<Rightarrow> tsproc" where
  "tsproc_set_clock_rate_ratio tsp ratio = tsp\<lparr>clock_rate_ratio := ratio\<rparr>"

definition tsproc_set_delay :: "tsproc \<Rightarrow> tmv_t \<Rightarrow> tsproc" where
  "tsproc_set_delay tsp delay = tsp\<lparr>filtered_delay := delay, filtered_delay_valid := True\<rparr>"

definition get_raw_delay :: "tsproc \<Rightarrow> tmv_t" where
  "get_raw_delay tsp =
    (let t23 = tmv_sub (t2 tsp) (t3 tsp);
         t23 = (if clock_rate_ratio tsp \<noteq> 1
                then dbl_tmv (rnd64 (tmv_dbl t23 * clock_rate_ratio tsp)) else t23);
         t41 = tmv_sub (t4 tsp) (t1 tsp)
     in tmv_div (tmv_add t23 t41) 2)"

text \<open>The result is the return value, the delay if one is stored through the pointer (\<open>want\<close>: the
  pointer is not \<open>NULL\<close>), and the new state.\<close>

definition tsproc_update_delay :: "tsproc \<Rightarrow> bool \<Rightarrow> int \<times> tmv_t option \<times> tsproc" where
  "tsproc_update_delay tsp want =
    (if tmv_is_zero (t2 tsp) \<or> tmv_is_zero (t3 tsp) then (-1, None, tsp)
     else let raw_delay = get_raw_delay tsp;
              (fd, f) = filter_sample (delay_filter tsp) raw_delay;
              tsp = tsp\<lparr>delay_filter := f, filtered_delay := fd, filtered_delay_valid := True\<rparr>
          in if \<not> want then (0, None, tsp)
             else case tsp_mode tsp of
                 TSPROC_FILTER \<Rightarrow> (0, Some (filtered_delay tsp), tsp)
               | TSPROC_FILTER_WEIGHT \<Rightarrow> (0, Some (filtered_delay tsp), tsp)
               | TSPROC_RAW \<Rightarrow> (0, Some raw_delay, tsp)
               | TSPROC_RAW_WEIGHT \<Rightarrow> (0, Some raw_delay, tsp))"

definition offset_weight :: "tsproc \<Rightarrow> tmv_t \<Rightarrow> rat" where
  "offset_weight tsp raw_delay =
    (if weighting tsp \<and> tmv_sign (filtered_delay tsp) > 0 \<and> tmv_sign raw_delay > 0
     then let weight = rnd64 (tmv_dbl (filtered_delay tsp) / tmv_dbl raw_delay)
          in if weight > 1 then 1 else weight
     else 1)"

text \<open>\<open>None\<close> is the return value \<open>-1\<close>; otherwise the offset and, if wanted, the weight.\<close>

definition tsproc_update_offset :: "tsproc \<Rightarrow> bool \<Rightarrow> (tmv_t \<times> rat option) option" where
  "tsproc_update_offset tsp want =
    (if tmv_is_zero (t1 tsp) \<or> tmv_is_zero (t2 tsp) then None
     else let finish = (\<lambda>delay raw_delay.
                Some (tmv_sub (tmv_sub (t2 tsp) (t1 tsp)) delay,
                      if want then Some (offset_weight tsp raw_delay) else None))
          in case tsp_mode tsp of
               TSPROC_FILTER \<Rightarrow>
                 if \<not> filtered_delay_valid tsp then None else finish (filtered_delay tsp) tmv_zero
             | TSPROC_RAW \<Rightarrow>
                 if tmv_is_zero (t3 tsp) then None else finish (get_raw_delay tsp) (get_raw_delay tsp)
             | TSPROC_RAW_WEIGHT \<Rightarrow>
                 if tmv_is_zero (t3 tsp) then None else finish (get_raw_delay tsp) (get_raw_delay tsp)
             | TSPROC_FILTER_WEIGHT \<Rightarrow>
                 if tmv_is_zero (t3 tsp) \<or> \<not> filtered_delay_valid tsp then None
                 else finish (filtered_delay tsp) (get_raw_delay tsp))"

definition tsproc_reset :: "tsproc \<Rightarrow> bool \<Rightarrow> tsproc" where
  "tsproc_reset tsp full =
    (let tsp = tsp\<lparr>t1 := tmv_zero, t2 := tmv_zero, t3 := tmv_zero, t4 := tmv_zero\<rparr>
     in if full then tsp\<lparr>clock_rate_ratio := 1, delay_filter := filter_reset (delay_filter tsp),
                         filtered_delay_valid := False\<rparr>
        else tsp)"

section \<open>Error of the rounding\<close>

lemma bitlen_bounds: "0 < n \<Longrightarrow> 2 ^ (bitlen n - 1) \<le> n \<and> n < 2 ^ bitlen n \<and> 0 < bitlen n"
proof (induction n rule: bitlen.induct)
  case (1 n)
  show ?case
  proof (cases "n div 2 = 0")
    case True
    then have "n = 1" using 1(2) by linarith
    then show ?thesis by (simp add: bitlen.simps)
  next
    case False
    then have ih: "2 ^ (bitlen (n div 2) - 1) \<le> n div 2" "n div 2 < 2 ^ bitlen (n div 2)" "0 < bitlen (n div 2)"
      using 1 by auto
    have b: "bitlen n = Suc (bitlen (n div 2))" using 1(2) by (subst bitlen.simps) simp
    have "(2::nat) ^ bitlen (n div 2) = 2 * 2 ^ (bitlen (n div 2) - 1)" using ih(3) by (cases "bitlen (n div 2)") auto
    then have "2 ^ bitlen (n div 2) \<le> n" "n < 2 * 2 ^ bitlen (n div 2)" using ih(1,2) by linarith+
    then show ?thesis using b by simp
  qed
qed

lemma pow2_pos [simp]: "0 < pow2 e" and pow2_nz [simp]: "pow2 e \<noteq> 0"
  by (simp_all add: pow2_def)

lemma pow2_power_int: "pow2 e = 2 powi e"
  by (auto simp: pow2_def power_int_def field_simps)

lemma pow2_add: "pow2 (a + b) = pow2 a * pow2 b"
  by (simp add: pow2_power_int power_int_add)

lemma bitlen_bounds_rat:
  assumes "0 < n"
  shows "2 ^ bitlen (nat n) / 2 \<le> (of_int n :: rat)" and "of_int n < (2 :: rat) ^ bitlen (nat n)"
proof -
  have b: "2 ^ (bitlen (nat n) - 1) \<le> nat n" "nat n < 2 ^ bitlen (nat n)" "0 < bitlen (nat n)"
    using bitlen_bounds [of "nat n"] assms by auto
  have "(of_nat (2 ^ (bitlen (nat n) - 1)) :: rat) \<le> of_nat (nat n)" using b(1) by (rule of_nat_mono)
  moreover have "(2 :: rat) ^ bitlen (nat n) = 2 * 2 ^ (bitlen (nat n) - 1)"
    using b(3) by (cases "bitlen (nat n)") auto
  ultimately show "2 ^ bitlen (nat n) / 2 \<le> (of_int n :: rat)" using assms by simp
  have "(of_nat (nat n) :: rat) < of_nat (2 ^ bitlen (nat n))" using b(2) by (simp only: of_nat_less_iff)
  then show "of_int n < (2 :: rat) ^ bitlen (nat n)" using assms by simp
qed

lemma exponent_bounds:
  assumes "x \<noteq> 0"
  shows "pow2 (exponent x) \<le> \<bar>x\<bar>" and "\<bar>x\<bar> < 2 * pow2 (exponent x)"
proof -
  obtain n d where q: "quotient_of \<bar>x\<bar> = (n, d)" by force
  then have d: "0 < d" and x: "\<bar>x\<bar> = of_int n / of_int d"
    using quotient_of_denom_pos quotient_of_div by blast+
  moreover have "0 < \<bar>x\<bar>" using assms by simp
  ultimately have n: "0 < n" by (simp add: zero_less_divide_iff)
  define a where "a = bitlen (nat n)"
  define b where "b = bitlen (nat d)"
  note A = bitlen_bounds_rat [OF n, folded a_def] and B = bitlen_bounds_rat [OF d, folded b_def]
  have k: "pow2 (int a - int b) = 2 ^ a / 2 ^ b"
    by (simp add: pow2_power_int power_int_diff)
  have "(2 ^ a / 2) / 2 ^ b \<le> \<bar>x\<bar>" unfolding x using A B n d by (intro frac_le) auto
  then have lo: "pow2 (int a - int b) / 2 \<le> \<bar>x\<bar>" by (simp add: k)
  have "\<bar>x\<bar> < 2 ^ a / (2 ^ b / 2)" unfolding x using A B n by (intro frac_less) auto
  then have hi: "\<bar>x\<bar> < 2 * pow2 (int a - int b)" by (simp add: k mult.commute)
  have e: "exponent x = (if \<bar>x\<bar> < pow2 (int a - int b) then int a - int b - 1 else int a - int b)"
    by (simp add: exponent_def q a_def b_def Let_def)
  have half: "pow2 (int a - int b - 1) = pow2 (int a - int b) / 2"
    by (simp add: pow2_power_int power_int_diff)
  show "pow2 (exponent x) \<le> \<bar>x\<bar>" "\<bar>x\<bar> < 2 * pow2 (exponent x)"
    using lo hi half by (auto simp: e)
qed

lemma round_half_even_error: "\<bar>of_int (round_half_even x) - x\<bar> \<le> 1 / 2"
  using floor_correct [of x] by (auto simp: round_half_even_def Let_def)

lemma round_half_even_of_int [simp]: "round_half_even (of_int i) = i"
  by (simp add: round_half_even_def)

text \<open>Rounding changes a number by at most half a unit in the last of 53 binary places.\<close>

lemma rnd64_error: "\<bar>rnd64 x - x\<bar> \<le> \<bar>x\<bar> / 2 ^ 53"
proof (cases "x = 0")
  case False
  define u where "u = pow2 (exponent x - 52)"
  have u: "0 < u" by (simp add: u_def)
  have "rnd64 x - x = (of_int (round_half_even (x / u)) - x / u) * u"
    using False by (simp add: rnd64_def u_def Let_def left_diff_distrib)
  then have "\<bar>rnd64 x - x\<bar> = \<bar>of_int (round_half_even (x / u)) - x / u\<bar> * u"
    using u by (simp add: abs_mult)
  also have "\<dots> \<le> 1 / 2 * u" using u round_half_even_error by (intro mult_right_mono) auto
  also have "u = pow2 (exponent x) / 2 ^ 52" by (simp add: u_def pow2_power_int power_int_diff)
  finally show ?thesis using exponent_bounds(1) [OF False] by simp
qed (simp add: rnd64_def)

lemma rnd64_nonneg: "0 \<le> x \<Longrightarrow> 0 \<le> rnd64 x"
  by (auto simp: rnd64_def Let_def round_half_even_def zero_le_mult_iff pow2_pos less_imp_le)

lemma exponent_of_int:
  assumes "\<bar>i\<bar> < 2 ^ 53" and "i \<noteq> 0"
  shows "exponent (of_int i) < 53"
proof (rule ccontr)
  let ?x = "of_int i :: rat"
  assume "\<not> exponent ?x < 53"
  then have "pow2 53 * 1 \<le> pow2 53 * pow2 (exponent ?x - 53)"
    by (intro mult_left_mono) (simp_all add: pow2_def)
  also have "\<dots> = pow2 (exponent ?x)" by (simp flip: pow2_add)
  also have "\<dots> \<le> \<bar>?x\<bar>" using assms(2) exponent_bounds(1) [of ?x] by simp
  finally have "(of_int (2 ^ 53) :: rat) \<le> of_int \<bar>i\<bar>" by (simp add: pow2_def)
  then have "2 ^ 53 \<le> \<bar>i\<bar>" by (simp only: of_int_le_iff)
  then show False using assms(1) by simp
qed

lemma rnd64_of_int:
  assumes "\<bar>i\<bar> < 2 ^ 53"
  shows "rnd64 (of_int i) = of_int i"
proof (cases "i = 0")
  case False
  define k where "k = nat (52 - exponent (of_int i :: rat))"
  have e: "exponent (of_int i :: rat) - 52 = - int k"
    using exponent_of_int [OF assms False] by (simp add: k_def)
  have p: "pow2 (- int k) = 1 / 2 ^ k" by (auto simp: pow2_def)
  have "round_half_even (of_int (i * 2 ^ k)) = i * 2 ^ k" by (rule round_half_even_of_int)
  then show ?thesis using False by (simp add: rnd64_def Let_def e p)
qed (simp add: rnd64_def)

section \<open>Delay and offset\<close>

text \<open>A measurement: both time stamps of a Sync and of a delay request, then the delay update.\<close>

type_synonym measurement = "tmv_t \<times> tmv_t \<times> tmv_t \<times> tmv_t"

fun tsproc_stamps :: "tsproc \<Rightarrow> measurement \<Rightarrow> tsproc" where
  "tsproc_stamps tsp (a, b, c, d) = tsproc_up_ts (tsproc_down_ts tsp a b) c d"

fun stamps_delay :: "measurement \<Rightarrow> tmv_t" where
  "stamps_delay (a, b, c, d) = tmv_div ((b - c) + (d - a)) 2"

fun stamps_present :: "measurement \<Rightarrow> bool" where
  "stamps_present (a, b, c, d) \<longleftrightarrow> b \<noteq> 0 \<and> c \<noteq> 0"

definition tsproc_feed :: "tsproc \<Rightarrow> measurement list \<Rightarrow> tsproc" where
  "tsproc_feed tsp ms = foldl (\<lambda>tsp m. snd (snd (tsproc_update_delay (tsproc_stamps tsp m) True))) tsp ms"

lemma tmv_div_2_double:
  assumes "- (2 ^ 62) \<le> sint d" and "sint d < 2 ^ 62"
  shows "tmv_div (d + d) 2 = d"
proof -
  have "sint (d + d) = 2 * sint d" using assms sint64_add [of d d] by simp
  then have "sint (d + d) sdiv 2 = sint d" by (simp add: signed_divide_int_def abs_mult sgn_mult sgn_if)
  then show ?thesis by (simp add: tmv_div_def)
qed

lemma raw_delay_stamps:
  "clock_rate_ratio tsp = 1 \<Longrightarrow> get_raw_delay (tsproc_stamps tsp m) = stamps_delay m"
  by (cases m) (simp add: get_raw_delay_def tsproc_up_ts_def tsproc_down_ts_def tmv_sub_def tmv_add_def Let_def)

text \<open>The purpose of the protocol: when the local clock is ahead of the master's by \<open>off\<close> and
  the network takes the same time \<open>d\<close> in both directions, then the time stamps of one exchange
  yield exactly \<open>d\<close> as the raw delay, and in the raw modes exactly \<open>off\<close> as the offset. In the
  filter modes the offset is off by as much as the filtered delay is. The arithmetic may wrap.\<close>

theorem tsproc_symmetric_path:
  assumes "clock_rate_ratio tsp = 1" and "- (2 ^ 62) \<le> sint d" and "sint d < 2 ^ 62"
    and "s = tsproc_up_ts (tsproc_down_ts tsp a (a + d + off)) c (c - off + d)"
    and "a \<noteq> 0" and "a + d + off \<noteq> 0" and "c \<noteq> 0"
  shows "get_raw_delay s = d \<and> fst (tsproc_update_delay s True) = 0 \<and>
    (if tsp_mode tsp \<in> {TSPROC_RAW, TSPROC_RAW_WEIGHT}
     then fst (snd (tsproc_update_delay s True)) = Some d \<and>
          map_option fst (tsproc_update_offset s want) = Some off
     else map_option fst (tsproc_update_offset s want) =
          (if filtered_delay_valid tsp then Some (off + d - filtered_delay tsp) else None))"
proof -
  have "stamps_delay (a, a + d + off, c, c - off + d) = d"
    using tmv_div_2_double [OF assms(2,3)] by (simp add: algebra_simps)
  then have raw: "get_raw_delay s = d"
    using raw_delay_stamps [OF assms(1), of "(a, a + d + off, c, c - off + d)"] assms(4) by simp
  have f: "t1 s = a" "t2 s = a + d + off" "t3 s = c" "tsp_mode s = tsp_mode tsp"
    "filtered_delay s = filtered_delay tsp" "filtered_delay_valid s = filtered_delay_valid tsp"
    using assms(4) by (simp_all add: tsproc_up_ts_def tsproc_down_ts_def)
  show ?thesis
    using raw f assms(5-7)
    by (cases "tsp_mode tsp")
      (auto simp: tsproc_update_delay_def tsproc_update_offset_def Let_def tmv_sub_def split: prod.splits)
qed

theorem tsproc_symmetric_path_witness:
  "\<exists>tsp. tsproc_create True True True True TSPROC_RAW FILTER_MOVING_MEDIAN 10 = Some tsp \<and>
    map_option fst (tsproc_update_offset (tsproc_up_ts (tsproc_down_ts tsp 1000 1350) 2000 1750) True) = Some 300"
proof -
  obtain tsp where t: "tsproc_create True True True True TSPROC_RAW FILTER_MOVING_MEDIAN 10 = Some tsp"
    and m: "clock_rate_ratio tsp = 1" "tsp_mode tsp = TSPROC_RAW"
    by (simp add: tsproc_create_def filter_create_def mmedian_create_def)
  show ?thesis
    using tsproc_symmetric_path [OF m(1) _ _ refl, of 50 1000 300 2000 True] t m(2) by auto
qed

lemma update_delay_stamps:
  assumes "clock_rate_ratio tsp = 1" and "stamps_present m"
    and "f = filter_sample (delay_filter tsp) (stamps_delay m)"
  shows "tsproc_update_delay (tsproc_stamps tsp m) True =
    (0, Some (if tsp_mode tsp \<in> {TSPROC_FILTER, TSPROC_FILTER_WEIGHT} then fst f else stamps_delay m),
     (tsproc_stamps tsp m)\<lparr>delay_filter := snd f, filtered_delay := fst f, filtered_delay_valid := True\<rparr>)"
proof -
  obtain a b c d where m: "m = (a, b, c, d)" by (cases m)
  show ?thesis
    using assms raw_delay_stamps [OF assms(1), of m]
    by (auto simp: m tsproc_update_delay_def tsproc_up_ts_def tsproc_down_ts_def Let_def
        split: prod.splits tsproc_mode.splits)
qed

lemma update_delay_state:
  assumes "clock_rate_ratio tsp = 1" and "stamps_present m"
    and "tsp' = snd (snd (tsproc_update_delay (tsproc_stamps tsp m) True))"
  shows "clock_rate_ratio tsp' = 1 \<and> tsp_mode tsp' = tsp_mode tsp \<and>
    delay_filter tsp' = snd (filter_sample (delay_filter tsp) (stamps_delay m))"
  using update_delay_stamps [OF assms(1,2) refl] assms(1,3)
  by (cases m) (simp add: tsproc_up_ts_def tsproc_down_ts_def)

lemma tsproc_feed_state:
  assumes "clock_rate_ratio tsp = 1" and "list_all stamps_present ms"
  shows "clock_rate_ratio (tsproc_feed tsp ms) = 1 \<and> tsp_mode (tsproc_feed tsp ms) = tsp_mode tsp \<and>
    delay_filter (tsproc_feed tsp ms) = filter_feed (delay_filter tsp) (map stamps_delay ms)"
  using assms(2)
proof (induction ms rule: rev_induct)
  case (snoc m ms)
  then show ?case
    using update_delay_state [of "tsproc_feed tsp ms" m] by (simp add: tsproc_feed_def filter_feed_def)
qed (simp add: tsproc_feed_def filter_feed_def assms(1))

text \<open>The filtered delay: on a new processor, or after a full reset, in a filter mode and after any
  complete measurements \<open>ms\<close>, the next one returns the average or the median of the raw delays of the
  last \<open>len\<close> measurements, itself included; older ones, and those before the reset, do not matter.\<close>

theorem tsproc_filtered_delay:
  assumes "tsproc_create mem mem1 mem2 mem3 mode ty len = Some tsp" and "1 \<le> len"
    and "mode \<in> {TSPROC_FILTER, TSPROC_FILTER_WEIGHT}"
    and "list_all stamps_present ms0" and "list_all stamps_present (ms @ [m])"
  shows "fst (snd (tsproc_update_delay (tsproc_stamps
      (tsproc_feed (tsproc_reset (tsproc_feed tsp ms0) True) ms) m) True)) =
    Some (filter_spec ty (lastn (nat len) (map stamps_delay (ms @ [m]))))"
proof -
  obtain f where f: "filter_create mem1 mem2 mem3 ty len = Some f"
    and t: "clock_rate_ratio tsp = 1" "tsp_mode tsp = mode" "delay_filter tsp = f"
    using assms(1) by (auto simp: tsproc_create_def split: if_splits option.splits)
  define r where "r = tsproc_reset (tsproc_feed tsp ms0) True"
  have r: "clock_rate_ratio r = 1" "tsp_mode r = mode"
    "delay_filter r = filter_reset (filter_feed f (map stamps_delay ms0))"
    using tsproc_feed_state [OF t(1) assms(4)] t by (simp_all add: r_def tsproc_reset_def Let_def)
  have p: "stamps_present m" "list_all stamps_present ms" using assms(5) by simp_all
  note s = tsproc_feed_state [OF r(1) p(2)]
  have "fst (snd (tsproc_update_delay (tsproc_stamps (tsproc_feed r ms) m) True)) =
      Some (fst (filter_sample (delay_filter (tsproc_feed r ms)) (stamps_delay m)))"
    using assms(3) r(2) s p(1) by (subst update_delay_stamps) auto
  also have "\<dots> = Some (filter_spec ty (lastn (nat len) (map stamps_delay ms @ [stamps_delay m])))"
    using filter_feed_value [OF f assms(2)] s r(3) by simp
  finally show ?thesis by (simp add: r_def)
qed

theorem tsproc_filtered_delay_witness:
  "\<exists>tsp. tsproc_create True True True True TSPROC_FILTER FILTER_MOVING_MEDIAN 3 = Some tsp \<and>
    fst (snd (tsproc_update_delay (tsproc_stamps (tsproc_feed (tsproc_reset (tsproc_feed tsp [(1, 9, 5, 7)]) True)
      [(100, 110, 200, 210), (100, 190, 200, 290)]) (100, 120, 200, 220)) True)) = Some 20"
proof -
  obtain tsp where t: "tsproc_create True True True True TSPROC_FILTER FILTER_MOVING_MEDIAN 3 = Some tsp"
    by (simp add: tsproc_create_def filter_create_def mmedian_create_def)
  have "filter_spec FILTER_MOVING_MEDIAN (lastn (nat 3) (map stamps_delay
      ([(100, 110, 200, 210), (100, 190, 200, 290)] @ [(100, 120, 200, 220)]))) = 20" by code_simp
  then show ?thesis
    using tsproc_filtered_delay [OF t, of "[(1, 9, 5, 7)]" "[(100, 110, 200, 210), (100, 190, 200, 290)]"
        "(100, 120, 200, 220)"] t by auto
qed

section \<open>The rate ratio\<close>

lemma trunc_error: "\<bar>of_int (if 0 \<le> x then \<lfloor>x\<rfloor> else \<lceil>x\<rceil>) - x\<bar> < (1 :: rat)"
  using floor_correct [of x] ceiling_correct [of x] by auto

text \<open>Scaling an interval below \<open>2^50\<close> nanoseconds (13 days) by a ratio below 2: one rounding and one
  truncation, hence an error of at most a nanosecond and a quarter.\<close>

lemma scale_error:
  assumes "\<bar>sint t\<bar> \<le> 2 ^ 50" and "0 \<le> r" and "r \<le> 2"
  defines "s \<equiv> sint (dbl_tmv (rnd64 (tmv_dbl t * r)))"
  shows "\<bar>of_int s - of_int (sint t) * r\<bar> < 5 / 4" and "\<bar>s\<bar> \<le> 2 ^ 52"
proof -
  define x where "x = of_int (sint t) * r"
  have "(of_int \<bar>sint t\<bar> :: rat) \<le> of_int (2 ^ 50)" using assms(1) by (simp only: of_int_le_iff)
  then have "\<bar>of_int (sint t) :: rat\<bar> \<le> 2 ^ 50" by simp
  then have x: "\<bar>x\<bar> \<le> 2 ^ 50 * 2"
    using assms(2,3) unfolding x_def abs_mult by (intro mult_mono) auto
  have e: "\<bar>rnd64 x - x\<bar> \<le> 1 / 4" using rnd64_error [of x] x by simp
  define k where "k = (if 0 \<le> rnd64 x then \<lfloor>rnd64 x\<rfloor> else \<lceil>rnd64 x\<rceil>)"
  have k: "\<bar>of_int k - x\<bar> < 5 / 4" using trunc_error [of "rnd64 x"] e unfolding k_def by linarith
  then have "\<bar>of_int k :: rat\<bar> < of_int (2 ^ 52)"
    using x abs_triangle_ineq [of "of_int k - x" x] by simp
  then have kb: "\<bar>k\<bar> < 2 ^ 52" by (simp only: of_int_abs [symmetric] of_int_less_iff)
  have "tmv_dbl t = of_int (sint t)" unfolding tmv_dbl_def using assms(1) by (intro rnd64_of_int) simp
  then have "s = sint (word_of_int k :: tmv_t)" by (simp add: s_def dbl_tmv_def k_def x_def)
  also have "\<dots> = k" using kb by (intro sint64_word_of_int) (simp_all add: abs_less_iff)
  finally show "\<bar>of_int s - of_int (sint t) * r\<bar> < 5 / 4" "\<bar>s\<bar> \<le> 2 ^ 52"
    using k kb by (simp_all add: x_def)
qed

lemma half_error: "\<bar>2 * g - (t + u)\<bar> \<le> 1 \<Longrightarrow> \<bar>t - x\<bar> < 5 / 4 \<Longrightarrow> \<bar>g - (x + u) / 2\<bar> < (9 / 8 :: rat)"
  by (auto simp: abs_if field_simps split: if_splits)

text \<open>With a rate ratio other than 1, the raw delay is computed through doubles. For intervals of at
  most \<open>2^50\<close> nanoseconds, which is 13 days, and a ratio of at most 2, the result is within 9/8 of a
  nanosecond of the formula in the comment, \<open>((t2 - t3) * rr + (t4 - t1)) / 2\<close>, in exact arithmetic:
  the roundings of the conversions and of the product, the truncation to an integer and the
  division by two do not add up to more.\<close>

theorem get_raw_delay_accuracy:
  assumes "\<bar>sint (t2 tsp - t3 tsp)\<bar> \<le> 2 ^ 50" and "\<bar>sint (t4 tsp - t1 tsp)\<bar> \<le> 2 ^ 50"
    and "0 \<le> clock_rate_ratio tsp" and "clock_rate_ratio tsp \<le> 2"
  shows "\<bar>of_int (sint (get_raw_delay tsp)) -
    (of_int (sint (t2 tsp - t3 tsp)) * clock_rate_ratio tsp + of_int (sint (t4 tsp - t1 tsp))) / 2\<bar> < 9 / 8"
proof -
  let ?t = "t2 tsp - t3 tsp" and ?u = "sint (t4 tsp - t1 tsp)" and ?r = "clock_rate_ratio tsp"
  define t23 where "t23 = (if ?r \<noteq> 1 then dbl_tmv (rnd64 (tmv_dbl ?t * ?r)) else ?t)"
  have e: "\<bar>of_int (sint t23) - of_int (sint ?t) * ?r\<bar> < 5 / 4" and b: "\<bar>sint t23\<bar> \<le> 2 ^ 52"
    using scale_error [OF assms(1,3,4)] assms(1) by (auto simp: t23_def)
  have s: "sint (t23 + (t4 tsp - t1 tsp)) = sint t23 + ?u"
    using b assms(2) by (intro sint64_add) (simp_all add: abs_le_iff)
  have d: "sint (get_raw_delay tsp) = (sint t23 + ?u) sdiv 2"
    using s by (simp add: get_raw_delay_def Let_def t23_def tmv_sub_def tmv_add_def sint_tmv_div)
  have "(of_int \<bar>2 * sint (get_raw_delay tsp) - (sint t23 + ?u)\<bar> :: rat) \<le> of_int 1"
    unfolding d of_int_le_iff by (rule sdiv_2_error)
  then have "\<bar>2 * of_int (sint (get_raw_delay tsp)) - (of_int (sint t23) + of_int ?u)\<bar> \<le> (1 :: rat)"
    unfolding of_int_abs of_int_diff of_int_add of_int_mult by simp
  then show ?thesis using e by (rule half_error)
qed

theorem get_raw_delay_accuracy_witness:
  "\<exists>tsp. clock_rate_ratio tsp = 3 / 2 \<and> sint (t2 tsp - t3 tsp) = 7 \<and> sint (t4 tsp - t1 tsp) = 30 \<and>
    \<bar>of_int (sint (get_raw_delay tsp)) - (of_int 7 * clock_rate_ratio tsp + of_int 30) / 2\<bar> < (9 / 8 :: rat)"
proof -
  obtain tsp0 where "tsproc_create True True True True TSPROC_RAW FILTER_MOVING_MEDIAN 10 = Some tsp0"
    by (simp add: tsproc_create_def filter_create_def mmedian_create_def)
  define tsp where
    "tsp = tsproc_set_clock_rate_ratio (tsproc_up_ts (tsproc_down_ts tsp0 100 207) 200 130) (3 / 2)"
  have "t1 tsp = 100" "t2 tsp = 207" "t3 tsp = 200" "t4 tsp = 130" "clock_rate_ratio tsp = 3 / 2"
    by (simp_all add: tsp_def tsproc_set_clock_rate_ratio_def tsproc_up_ts_def tsproc_down_ts_def)
  then have "sint (t2 tsp - t3 tsp) = 7" "sint (t4 tsp - t1 tsp) = 30" "clock_rate_ratio tsp = 3 / 2" by simp_all
  then show ?thesis
    using get_raw_delay_accuracy [of tsp] by (intro exI [of _ tsp] conjI) (simp_all only:, simp)
qed

lemma tmv_dbl_nonneg: "0 \<le> sint x \<Longrightarrow> 0 \<le> tmv_dbl x"
  unfolding tmv_dbl_def by (intro rnd64_nonneg) (simp only: of_int_0_le_iff)

text \<open>Processing is all or nothing: without the time stamps it needs, a delay update fails and changes
  nothing; an offset update fails exactly when the Sync time stamps are missing, or the mode needs a
  filtered delay and there is none, or needs a delay request and there is none; and
  a weight is between 0 and 1, and is 1 in the modes that do not weigh.\<close>

theorem tsproc_update_guards:
  "(fst (tsproc_update_delay tsp want) = -1 \<longleftrightarrow> t2 tsp = 0 \<or> t3 tsp = 0) \<and>
   (fst (tsproc_update_delay tsp want) = -1 \<longrightarrow> tsproc_update_delay tsp want = (-1, None, tsp)) \<and>
   (tsproc_update_offset tsp want = None \<longleftrightarrow>
     t1 tsp = 0 \<or> t2 tsp = 0 \<or>
     (tsp_mode tsp \<noteq> TSPROC_FILTER \<and> t3 tsp = 0) \<or>
     (tsp_mode tsp \<in> {TSPROC_FILTER, TSPROC_FILTER_WEIGHT} \<and> \<not> filtered_delay_valid tsp)) \<and>
   (tsproc_update_offset tsp want = Some (off, Some w) \<longrightarrow>
     0 \<le> w \<and> w \<le> 1 \<and> (\<not> weighting tsp \<longrightarrow> w = 1))"
proof -
  have "0 \<le> offset_weight tsp d \<and> offset_weight tsp d \<le> 1 \<and> (\<not> weighting tsp \<longrightarrow> offset_weight tsp d = 1)" for d
    using rnd64_nonneg [OF divide_nonneg_nonneg, OF tmv_dbl_nonneg tmv_dbl_nonneg, of "filtered_delay tsp" d]
    by (auto simp: offset_weight_def tmv_sign_pos Let_def)
  moreover have "fst (tsproc_update_delay tsp want) = -1 \<longleftrightarrow> t2 tsp = 0 \<or> t3 tsp = 0"
    by (auto simp: tsproc_update_delay_def Let_def split: prod.splits tsproc_mode.splits)
  moreover have "t2 tsp = 0 \<or> t3 tsp = 0 \<Longrightarrow> tsproc_update_delay tsp want = (-1, None, tsp)"
    by (auto simp: tsproc_update_delay_def)
  ultimately show ?thesis
    by (cases "tsp_mode tsp") (auto simp: tsproc_update_offset_def Let_def split: if_splits)
qed

theorem tsproc_update_guards_witness:
  "\<exists>tsp. tsproc_create True True True True TSPROC_FILTER FILTER_MOVING_MEDIAN 3 = Some tsp \<and>
    tsproc_update_delay tsp True = (-1, None, tsp) \<and> tsproc_update_offset tsp True = None"
proof -
  obtain tsp where "tsproc_create True True True True TSPROC_FILTER FILTER_MOVING_MEDIAN 3 = Some tsp"
    and "t2 tsp = 0"
    by (simp add: tsproc_create_def filter_create_def mmedian_create_def)
  then show ?thesis using tsproc_update_guards [of tsp True] by (intro exI [of _ tsp]) simp
qed

end
