(* ===== verification/Pqueue.thy ===== *)
theory Pqueue
  imports Ptp_Prelude
begin

text \<open>
  The priority queue of \<open>pqueue.c\<close>: a binary heap in an array, largest element at index 0,
  ordered by the comparison function given to \<open>pqueue_create\<close>. The array is a list, the
  pointer type of its elements is \<open>'a\<close> with a distinguished \<open>NULL\<close>, and the result of every
  allocation is an argument. Indices and lengths, C \<open>int\<close>s that never become negative, are
  naturals. The locale \<open>pq_order\<close> states what the queue relies on from the comparison.
\<close>

record 'a pqueue =
  pq_len :: nat
  pq_max :: nat
  pq_cmp :: "'a \<Rightarrow> 'a \<Rightarrow> int"
  pq_data :: "'a list"

definition parent :: "nat \<Rightarrow> nat" where
  "parent x = (1 + x) div 2 - 1"

definition left :: "nat \<Rightarrow> nat" where
  "left x = 2 * (1 + x) - 1"

definition right :: "nat \<Rightarrow> nat" where
  "right x = 2 * (1 + x)"

definition pq_greater :: "'a pqueue \<Rightarrow> nat \<Rightarrow> nat \<Rightarrow> bool" where
  "pq_greater q a b \<longleftrightarrow> pq_cmp q (pq_data q ! a) (pq_data q ! b) > 0"

text \<open>The index \<open>i_max\<close> that \<open>heapify\<close> computes before it swaps.\<close>

definition heapify_max :: "'a pqueue \<Rightarrow> nat \<Rightarrow> nat" where
  "heapify_max q index =
    (let i_max = (if left index < pq_len q \<and> pq_greater q (left index) index
                  then left index else index)
     in if right index < pq_len q \<and> pq_greater q (right index) i_max then right index else i_max)"

lemma heapify_max_cases:
  "heapify_max q index = index \<or>
   index < heapify_max q index \<and> heapify_max q index < pq_len q \<and>
   (heapify_max q index = left index \<or> heapify_max q index = right index)"
  by (auto simp: heapify_max_def Let_def left_def right_def)

function heapify :: "'a pqueue \<Rightarrow> nat \<Rightarrow> 'a pqueue" where
  "heapify q index =
    (let i_max = heapify_max q index
     in if i_max \<noteq> index
        then heapify (q\<lparr>pq_data := (pq_data q)[index := pq_data q ! i_max,
                                               i_max := pq_data q ! index]\<rparr>) i_max
        else q)"
  by pat_completeness auto
termination
proof (relation "measure (\<lambda>(q, i). pq_len q - i)")
  fix q :: "'a pqueue" and index i_max
  assume "i_max = heapify_max q index" and "i_max \<noteq> index"
  then show "((q\<lparr>pq_data := (pq_data q)[index := pq_data q ! i_max,
       i_max := pq_data q ! index]\<rparr>, i_max), (q, index)) \<in> measure (\<lambda>(q, i). pq_len q - i)"
    using heapify_max_cases [of q index] by auto
qed simp

declare heapify.simps [simp del]

definition pqueue_create ::
  "bool \<Rightarrow> bool \<Rightarrow> 'a \<Rightarrow> nat \<Rightarrow> ('a \<Rightarrow> 'a \<Rightarrow> int) \<Rightarrow> 'a pqueue option" where
  "pqueue_create mem_q mem_data NULL max_length compare =
    (if \<not> mem_q then None
     else if \<not> mem_data then None
     else Some \<lparr>pq_len = 0, pq_max = max_length, pq_cmp = compare,
                pq_data = replicate max_length NULL\<rparr>)"

definition pqueue_extract :: "'a pqueue \<Rightarrow> 'a option \<times> 'a pqueue" where
  "pqueue_extract q =
    (if pq_len q = 0 then (None, q)
     else let data = pq_data q ! 0;
              q1 = q\<lparr>pq_data := (pq_data q)[0 := pq_data q ! (pq_len q - 1)],
                     pq_len := pq_len q - 1\<rparr>
          in (Some data, heapify q1 0))"

text \<open>In \<open>pqueue_insert\<close> the memory that \<open>realloc\<close> adds holds the arbitrary value \<open>fill\<close>.
  The loop of \<open>pqueue_insert\<close>: move parents down until \<open>d\<close> fits.\<close>

function insert_loop :: "('a \<Rightarrow> 'a \<Rightarrow> int) \<Rightarrow> 'a list \<Rightarrow> nat \<Rightarrow> 'a \<Rightarrow> 'a list" where
  "insert_loop cmp data index d =
    (if index \<noteq> 0 \<and> cmp (data ! parent index) d < 0
     then insert_loop cmp (data[index := data ! parent index]) (parent index) d
     else data[index := d])"
  by pat_completeness auto
termination
  by (relation "measure (\<lambda>(cmp, data, index, d). index)") (auto simp: parent_def)

declare insert_loop.simps [simp del]

definition pqueue_insert :: "bool \<Rightarrow> 'a \<Rightarrow> 'a pqueue \<Rightarrow> 'a \<Rightarrow> errno option \<times> 'a pqueue" where
  "pqueue_insert mem fill q d =
    (if pq_len q \<ge> pq_max q \<and> \<not> mem then (Some ENOMEM, q)
     else let q1 = (if pq_len q \<ge> pq_max q
                    then q\<lparr>pq_data := pq_data q @ replicate (2 * pq_max q - length (pq_data q)) fill,
                           pq_max := 2 * pq_max q\<rparr>
                    else q);
              index = pq_len q1
          in (None, q1\<lparr>pq_len := pq_len q1 + 1,
                       pq_data := insert_loop (pq_cmp q1) (pq_data q1) index d\<rparr>))"

definition pqueue_length :: "'a pqueue \<Rightarrow> nat" where
  "pqueue_length q = pq_len q"

definition pqueue_peek :: "'a pqueue \<Rightarrow> 'a option" where
  "pqueue_peek q = (if pq_len q \<noteq> 0 then Some (pq_data q ! 0) else None)"

section \<open>Index arithmetic and sizes\<close>

lemma parent_less: "0 < i \<Longrightarrow> parent i < i"
  by (auto simp: parent_def)

lemma parent_eq_iff: "0 < i \<Longrightarrow> parent i = j \<longleftrightarrow> i = left j \<or> i = right j"
  by (auto simp: parent_def left_def right_def)

lemma left_right_distinct [simp]: "left i \<noteq> right i" "right i \<noteq> left i"
  by (auto simp: left_def right_def)

lemma length_insert_loop [len_simps]: "length (insert_loop cmp data i d) = length data"
  by (induction cmp data i d rule: insert_loop.induct) (subst insert_loop.simps, simp)

lemma heapify_fields [len_simps]:
  "pq_len (heapify q i) = pq_len q" "pq_max (heapify q i) = pq_max q"
  "pq_cmp (heapify q i) = pq_cmp q" "length (pq_data (heapify q i)) = length (pq_data q)"
  by (induction q i rule: heapify.induct; subst heapify.simps; simp add: Let_def)+

text \<open>The elements of a queue, and the array invariant: the live part fits the allocation.\<close>

definition pq_elems :: "'a pqueue \<Rightarrow> 'a multiset" where
  "pq_elems q = mset (take (pq_len q) (pq_data q))"

definition pq_wf :: "'a pqueue \<Rightarrow> bool" where
  "pq_wf q \<longleftrightarrow> pq_len q \<le> pq_max q \<and> length (pq_data q) = pq_max q \<and> 0 < pq_max q"

definition pq_heap :: "'a pqueue \<Rightarrow> bool" where
  "pq_heap q \<longleftrightarrow> (\<forall>i. 0 < i \<and> i < pq_len q \<longrightarrow>
     pq_cmp q (pq_data q ! parent i) (pq_data q ! i) \<ge> 0)"

section \<open>The heap property\<close>

lemma mset_take_swap:
  assumes "i < n" and "j < n" and "n \<le> length xs"
  shows "mset (take n (xs[i := xs ! j, j := xs ! i])) = mset (take n xs)"
proof -
  have "take n (xs[i := xs ! j, j := xs ! i]) =
      (take n xs)[i := take n xs ! j, j := take n xs ! i]"
    using assms by (simp add: take_update_swap)
  then show ?thesis using assms mset_swap_nth [of i "take n xs" j] by simp
qed

lemma heapify_elems:
  assumes "pq_len q \<le> length (pq_data q)"
  shows "pq_elems (heapify q i) = pq_elems q"
  using assms
proof (induction q i rule: heapify.induct)
  case (1 q i)
  show ?case
  proof (cases "heapify_max q i = i")
    case True
    then show ?thesis by (subst heapify.simps) (simp add: Let_def)
  next
    case False
    let ?m = "heapify_max q i"
    let ?q = "q\<lparr>pq_data := (pq_data q)[i := pq_data q ! ?m, ?m := pq_data q ! i]\<rparr>"
    have "pq_elems (heapify ?q ?m) = pq_elems ?q"
      using "1.IH" [OF refl False] "1.prems" by simp
    moreover have "pq_elems ?q = pq_elems q"
      using mset_take_swap [of i "pq_len q" ?m "pq_data q"] False "1.prems"
        heapify_max_cases [of q i] by (auto simp: pq_elems_def)
    ultimately show ?thesis
      using False by (subst heapify.simps) (simp add: Let_def)
  qed
qed

text \<open>
  What a comparison function must satisfy: its sign is antisymmetric, and "not smaller" is
  transitive. \<open>compare_timeout\<close> of the unicast service meets it.
\<close>

locale pq_order =
  fixes cmp :: "'a \<Rightarrow> 'a \<Rightarrow> int"
  assumes cmp_swap: "cmp a b > 0 \<longleftrightarrow> cmp b a < 0"
    and cmp_trans: "cmp a b \<ge> 0 \<Longrightarrow> cmp b c \<ge> 0 \<Longrightarrow> cmp a c \<ge> 0"
begin

lemma cmp_refl: "cmp a a \<ge> 0"
  using cmp_swap [of a a] by auto

lemma cmp_not_less: "\<not> cmp a b > 0 \<Longrightarrow> cmp b a \<ge> 0"
  using cmp_swap [of a b] by auto

lemma heapify_max_children:
  assumes "pq_cmp q = cmp" and "0 < i" and "i < pq_len q" and "parent i = index"
  shows "cmp (pq_data q ! heapify_max q index) (pq_data q ! i) \<ge> 0"
  using assms parent_eq_iff [of i index] cmp_swap cmp_trans cmp_not_less cmp_refl
  unfolding heapify_max_def pq_greater_def Let_def by (smt (verit))

lemma heapify_heap:
  assumes "pq_cmp q = cmp" and "pq_len q \<le> length (pq_data q)"
    and "\<And>i. 0 < i \<Longrightarrow> i < pq_len q \<Longrightarrow> parent i \<noteq> index \<Longrightarrow>
      cmp (pq_data q ! parent i) (pq_data q ! i) \<ge> 0"
    and "\<And>i. 0 < index \<Longrightarrow> 0 < i \<Longrightarrow> i < pq_len q \<Longrightarrow> parent i = index \<Longrightarrow>
      cmp (pq_data q ! parent index) (pq_data q ! i) \<ge> 0"
  shows "pq_heap (heapify q index)"
  using assms
proof (induction q index rule: heapify.induct)
  case (1 q index)
  let ?m = "heapify_max q index" and ?D = "pq_data q"
  show ?case
  proof (cases "?m = index")
    case True
    have "cmp (?D ! parent i) (?D ! i) \<ge> 0" if "0 < i" "i < pq_len q" for i
      using that True "1.prems"(1,3) heapify_max_children [OF "1.prems"(1) that refl]
      by (cases "parent i = index") auto
    then show ?thesis
      using True "1.prems"(1) by (subst heapify.simps) (simp add: Let_def pq_heap_def)
  next
    case False
    let ?D' = "?D[index := ?D ! ?m, ?m := ?D ! index]"
    have m: "index < ?m" "?m < pq_len q" "parent ?m = index"
      using False heapify_max_cases [of q index] parent_eq_iff [of ?m index] by auto
    have len: "?m < length ?D" "index < length ?D" using m "1.prems"(2) by auto
    have D': "?D' ! k = (if k = ?m then ?D ! index else if k = index then ?D ! ?m else ?D ! k)"
      if "k < length ?D" for k
      using that len m by (auto simp: nth_list_update)
    have child: "cmp (?D ! ?m) (?D ! i) \<ge> 0" if "0 < i" "i < pq_len q" "parent i = index" for i
      using "1.prems"(1) that by (rule heapify_max_children)
    have top: "cmp (?D ! ?m) (?D ! index) \<ge> 0"
      using False "1.prems"(1) unfolding heapify_max_def pq_greater_def Let_def
      using cmp_trans [of "?D ! right index" "?D ! left index" "?D ! index"]
      by (auto split: if_splits)
    have ok: "cmp (?D' ! parent i) (?D' ! i) \<ge> 0"
      if i: "0 < i" "i < pq_len q" "parent i \<noteq> ?m" for i
    proof -
      have pi: "parent i < i" using i(1) by (rule parent_less)
      then have "parent i < length ?D" "i < length ?D" using i "1.prems"(2) by auto
      then show ?thesis
        using D' [of i] D' [of "parent i"] pi i m top child [OF i(1,2)] "1.prems"(3) [OF i(1,2)]
          "1.prems"(4) [OF _ _ m(2,3)]
        by (cases "i = ?m"; cases "i = index"; cases "parent i = index") auto
    qed
    have gp: "cmp (?D' ! parent ?m) (?D' ! i) \<ge> 0"
      if i: "0 < i" "i < pq_len q" "parent i = ?m" for i
    proof -
      have "?m < i" using parent_less [OF i(1)] i(3) by simp
      then show ?thesis
        using D' [of i] D' [of index] i m "1.prems"(2) "1.prems"(3) [OF i(1,2)] len by auto
    qed
    have "pq_heap (heapify (q\<lparr>pq_data := ?D'\<rparr>) ?m)"
      using "1.IH" [OF refl False] "1.prems"(1,2) ok gp by auto
    then show ?thesis using False by (subst heapify.simps) (simp add: Let_def)
  qed
qed

lemma heap_root:
  assumes "pq_heap q" and "pq_cmp q = cmp" and "i < pq_len q"
  shows "cmp (pq_data q ! 0) (pq_data q ! i) \<ge> 0"
  using assms(3)
proof (induction i rule: less_induct)
  case (less i)
  show ?case
  proof (cases "i = 0")
    case False
    then have "parent i < i" by (simp add: parent_less)
    with less have "cmp (pq_data q ! 0) (pq_data q ! parent i) \<ge> 0" by simp
    moreover have "cmp (pq_data q ! parent i) (pq_data q ! i) \<ge> 0"
      using False less.prems assms(1,2) by (auto simp: pq_heap_def)
    ultimately show ?thesis by (rule cmp_trans)
  qed (simp add: cmp_refl)
qed

lemma insert_loop_correct:
  assumes "index < n" and "n \<le> length data"
    and "\<And>i. 0 < i \<Longrightarrow> i < n \<Longrightarrow> i \<noteq> index \<Longrightarrow> parent i \<noteq> index \<Longrightarrow>
      cmp (data ! parent i) (data ! i) \<ge> 0"
    and "\<And>i. 0 < i \<Longrightarrow> i < n \<Longrightarrow> parent i = index \<Longrightarrow> cmp d (data ! i) \<ge> 0"
    and "\<And>i. 0 < index \<Longrightarrow> 0 < i \<Longrightarrow> i < n \<Longrightarrow> parent i = index \<Longrightarrow>
      cmp (data ! parent index) (data ! i) \<ge> 0"
  shows "(\<forall>i. 0 < i \<and> i < n \<longrightarrow> cmp (insert_loop cmp data index d ! parent i)
       (insert_loop cmp data index d ! i) \<ge> 0) \<and>
     mset (take n (insert_loop cmp data index d)) = mset (take n (data[index := d]))"
  using assms
proof (induction index arbitrary: data rule: less_induct)
  case (less index)
  note ok = less.prems(3) and ch = less.prems(4) and gp = less.prems(5)
  show ?case
  proof (cases "index \<noteq> 0 \<and> cmp (data ! parent index) d < 0")
    case True
    let ?p = "parent index" and ?data = "data[index := data ! parent index]"
    have p: "?p < index" "?p < n" "0 < index" "index < length data"
      using True parent_less [of index] less.prems(1,2) by auto
    have nth: "?data ! k = (if k = index then data ! ?p else data ! k)" for k
      using p by (auto simp: nth_list_update)
    have dp: "cmp d (data ! ?p) \<ge> 0" using True cmp_swap [of d "data ! ?p"] by auto
    have p_ok: "cmp (data ! parent ?p) (data ! ?p) \<ge> 0" if "0 < ?p"
      using ok [of ?p] that p parent_less [OF that] by auto
    have sib: "cmp (data ! ?p) (data ! i) \<ge> 0"
      if "0 < i" "i < n" "parent i = ?p" "i \<noteq> index" for i
      using ok [of i] that p by auto
    have IH: "(\<forall>i. 0 < i \<and> i < n \<longrightarrow> cmp (insert_loop cmp ?data ?p d ! parent i)
         (insert_loop cmp ?data ?p d ! i) \<ge> 0) \<and>
       mset (take n (insert_loop cmp ?data ?p d)) = mset (take n (?data[?p := d]))"
    proof (rule less.IH [OF p(1,2)])
      fix i
      assume i: "0 < i" "i < n"
      show "cmp (?data ! parent i) (?data ! i) \<ge> 0" if "i \<noteq> ?p" "parent i \<noteq> ?p"
        using that i ok [of i] gp [of i] p parent_less [of i] by (auto simp: nth)
      show "cmp d (?data ! i) \<ge> 0" if "parent i = ?p"
        using that i dp sib [of i] cmp_trans [OF dp, of "data ! i"] by (auto simp: nth)
      show "cmp (?data ! parent ?p) (?data ! i) \<ge> 0" if "0 < ?p" "parent i = ?p"
        using that i p p_ok sib [of i] cmp_trans [OF p_ok, of "data ! i"] parent_less [of ?p]
        by (auto simp: nth)
    qed (use less.prems(2) in simp)
    have "mset (take n (?data[?p := d])) = mset (take n (data[index := d]))"
      using mset_take_swap [of index n ?p "data[index := d]"] p less.prems(1,2) by simp
    with IH True show ?thesis by (subst (1 2 3) insert_loop.simps) simp
  next
    case False
    then have "insert_loop cmp data index d = data[index := d]"
      by (subst insert_loop.simps) auto
    moreover have "cmp (data[index := d] ! parent i) (data[index := d] ! i) \<ge> 0"
      if i: "0 < i" "i < n" for i
      using i False ok [OF i] ch [OF i] less.prems(1,2) parent_less [OF i(1)]
      by (auto simp: nth_list_update)
    ultimately show ?thesis by simp
  qed
qed

text \<open>Every operation keeps the invariant and acts on the multiset of elements as a priority
  queue does.\<close>

lemma insert_correct:
  assumes "pq_wf q" and "pq_heap q" and "pq_cmp q = cmp" and "pqueue_insert mem fill q d = (None, q')"
  shows "pq_wf q' \<and> pq_heap q' \<and> pq_cmp q' = cmp \<and> pq_elems q' = add_mset d (pq_elems q)"
proof -
  define q1 where "q1 = (if pq_len q \<ge> pq_max q
     then q\<lparr>pq_data := pq_data q @ replicate (2 * pq_max q - length (pq_data q)) fill,
            pq_max := 2 * pq_max q\<rparr> else q)"
  let ?n = "pq_len q1" and ?D = "insert_loop cmp (pq_data q1) (pq_len q1) d"
  have q1: "?n = pq_len q" "pq_cmp q1 = cmp" "?n < pq_max q1" "length (pq_data q1) = pq_max q1"
    "take ?n (pq_data q1) = take ?n (pq_data q)"
    and nth: "\<And>i. i < ?n \<Longrightarrow> pq_data q1 ! i = pq_data q ! i"
    using assms(1,3) by (auto simp: q1_def pq_wf_def nth_append)
  have q': "q' = q1\<lparr>pq_len := ?n + 1, pq_data := ?D\<rparr>"
    using assms(3,4) q1(2) by (auto simp: pqueue_insert_def Let_def q1_def split: if_splits)
  have "(\<forall>i. 0 < i \<and> i < ?n + 1 \<longrightarrow> cmp (?D ! parent i) (?D ! i) \<ge> 0) \<and>
     mset (take (?n + 1) ?D) = mset (take (?n + 1) ((pq_data q1)[?n := d]))"
  proof (rule insert_loop_correct)
    fix i
    assume i: "0 < i" "i < ?n + 1"
    show "cmp (pq_data q1 ! parent i) (pq_data q1 ! i) \<ge> 0" if "i \<noteq> ?n"
      using i that assms(2,3) q1(1) nth [of i] nth [of "parent i"] parent_less [of i]
      by (auto simp: pq_heap_def)
    show "cmp d (pq_data q1 ! i) \<ge> 0" if "parent i = ?n"
      using that i parent_less [of i] by simp
    show "cmp (pq_data q1 ! parent ?n) (pq_data q1 ! i) \<ge> 0" if "parent i = ?n"
      using that i parent_less [of i] by simp
  qed (use q1 in auto)
  moreover have "mset (take (?n + 1) ((pq_data q1)[?n := d])) = add_mset d (pq_elems q)"
    using q1 by (simp add: pq_elems_def take_Suc_conv_app_nth)
  ultimately show ?thesis
    using q1 by (auto simp: q' pq_wf_def pq_heap_def pq_elems_def len_simps)
qed

lemma extract_correct:
  assumes "pq_wf q" and "pq_heap q" and "pq_cmp q = cmp" and "pqueue_extract q = (Some x, q')"
  shows "pq_wf q' \<and> pq_heap q' \<and> pq_cmp q' = cmp \<and> x \<in># pq_elems q \<and>
    pq_elems q' = pq_elems q - {#x#} \<and> (\<forall>y \<in># pq_elems q. cmp x y \<ge> 0)"
proof -
  let ?D = "pq_data q" and ?n = "pq_len q"
  define q1 where "q1 = q\<lparr>pq_data := ?D[0 := ?D ! (?n - 1)], pq_len := ?n - 1\<rparr>"
  have n: "0 < ?n" "?n \<le> length ?D" and x: "x = ?D ! 0" and q': "q' = heapify q1 0"
    using assms(1,4) by (auto simp: pqueue_extract_def Let_def q1_def pq_wf_def split: if_splits)
  have "pq_heap q'"
    unfolding q'
  proof (rule heapify_heap)
    fix i
    assume i: "0 < i" "i < pq_len q1" "parent i \<noteq> 0"
    then show "cmp (pq_data q1 ! parent i) (pq_data q1 ! i) \<ge> 0"
      using assms(2,3) by (auto simp: q1_def pq_heap_def)
  qed (use assms(3) n in \<open>auto simp: q1_def\<close>)
  moreover have "pq_elems q' = pq_elems q - {#x#}"
  proof -
    have "pq_elems q' = pq_elems q1"
      unfolding q' using n by (intro heapify_elems) (auto simp: q1_def)
    also have "\<dots> = mset ((take (?n - 1) ?D)[0 := ?D ! (?n - 1)])"
      by (simp add: pq_elems_def q1_def take_update_swap)
    also have "\<dots> = mset (take (?n - 1) ?D @ [?D ! (?n - 1)]) - {#x#}"
      using n x nth_mem_mset [of 0 "take (?n - 1) ?D"]
      by (cases "?n = 1") (auto simp: mset_update insert_DiffM2 simp flip: add_mset_remove_trivial_If)
    also have "take (?n - 1) ?D @ [?D ! (?n - 1)] = take ?n ?D"
      using n take_Suc_conv_app_nth [of "?n - 1" ?D] by simp
    finally show ?thesis by (simp add: pq_elems_def)
  qed
  moreover have "cmp x y \<ge> 0" if "y \<in># pq_elems q" for y
    using that n heap_root [OF assms(2,3)] x by (auto simp: pq_elems_def in_set_conv_nth)
  moreover have "x \<in># pq_elems q"
    using n x by (auto simp: pq_elems_def in_set_conv_nth)
  ultimately show ?thesis
    using assms(1,3) by (auto simp: q' q1_def pq_wf_def len_simps)
qed

end

end
