(* ===== verification/Fsm.thy ===== *)
theory Fsm
  imports Ptp_Prelude
begin

text \<open>
  The port state machines of \<open>fsm.c\<close> and \<open>designated_fsm.c\<close> and the unicast client state
  machine of \<open>unicast_fsm.c\<close>. Each C \<open>switch\<close> is a \<open>case\<close> whose last branch is the C
  \<open>default\<close> (the state is kept). The locale \<open>port_fsm\<close> is the contract that the port code
  (\<open>port_state_update\<close> in \<open>port.c\<close>) relies on when it runs one of the four port machines
  through a function pointer; every machine interprets it.
\<close>

section \<open>States and events (fsm.h, unicast_fsm.h)\<close>

datatype port_state =
    PS_INITIALIZING | PS_FAULTY | PS_DISABLED | PS_LISTENING | PS_PRE_MASTER
  | PS_MASTER | PS_PASSIVE | PS_UNCALIBRATED | PS_SLAVE | PS_GRAND_MASTER

datatype fsm_event =
    EV_NONE | EV_POWERUP | EV_INITIALIZE | EV_DESIGNATED_ENABLED | EV_DESIGNATED_DISABLED
  | EV_FAULT_CLEARED | EV_FAULT_DETECTED | EV_STATE_DECISION_EVENT
  | EV_QUALIFICATION_TIMEOUT_EXPIRES | EV_ANNOUNCE_RECEIPT_TIMEOUT_EXPIRES
  | EV_SYNCHRONIZATION_FAULT | EV_MASTER_CLOCK_SELECTED | EV_INIT_COMPLETE
  | EV_RS_MASTER | EV_RS_GRAND_MASTER | EV_RS_SLAVE | EV_RS_PASSIVE

datatype unicast_state = UC_WAIT | UC_HAVE_ANN | UC_NEED_SYDY | UC_HAVE_SYDY

datatype unicast_event =
    UC_EV_GRANT_ANN | UC_EV_SELECTED | UC_EV_GRANT_SYDY | UC_EV_UNSELECTED | UC_EV_CANCEL

section \<open>The transition functions\<close>

definition ptp_fsm :: "port_state \<Rightarrow> fsm_event \<Rightarrow> int \<Rightarrow> port_state" where
  "ptp_fsm state event mdiff =
    (if event = EV_INITIALIZE \<or> event = EV_POWERUP then PS_INITIALIZING
     else case state of
       PS_INITIALIZING \<Rightarrow>
         (case event of
            EV_FAULT_DETECTED \<Rightarrow> PS_FAULTY
          | EV_INIT_COMPLETE \<Rightarrow> PS_LISTENING
          | _ \<Rightarrow> state)
     | PS_FAULTY \<Rightarrow>
         (case event of
            EV_DESIGNATED_DISABLED \<Rightarrow> PS_DISABLED
          | EV_FAULT_CLEARED \<Rightarrow> PS_INITIALIZING
          | _ \<Rightarrow> state)
     | PS_DISABLED \<Rightarrow>
         (if event = EV_DESIGNATED_ENABLED then PS_INITIALIZING else state)
     | PS_LISTENING \<Rightarrow>
         (case event of
            EV_DESIGNATED_DISABLED \<Rightarrow> PS_DISABLED
          | EV_FAULT_DETECTED \<Rightarrow> PS_FAULTY
          | EV_ANNOUNCE_RECEIPT_TIMEOUT_EXPIRES \<Rightarrow> PS_MASTER
          | EV_RS_MASTER \<Rightarrow> PS_PRE_MASTER
          | EV_RS_GRAND_MASTER \<Rightarrow> PS_GRAND_MASTER
          | EV_RS_SLAVE \<Rightarrow> PS_UNCALIBRATED
          | EV_RS_PASSIVE \<Rightarrow> PS_PASSIVE
          | _ \<Rightarrow> state)
     | PS_PRE_MASTER \<Rightarrow>
         (case event of
            EV_DESIGNATED_DISABLED \<Rightarrow> PS_DISABLED
          | EV_FAULT_DETECTED \<Rightarrow> PS_FAULTY
          | EV_QUALIFICATION_TIMEOUT_EXPIRES \<Rightarrow> PS_MASTER
          | EV_RS_SLAVE \<Rightarrow> PS_UNCALIBRATED
          | EV_RS_PASSIVE \<Rightarrow> PS_PASSIVE
          | _ \<Rightarrow> state)
     | PS_MASTER \<Rightarrow>
         (case event of
            EV_DESIGNATED_DISABLED \<Rightarrow> PS_DISABLED
          | EV_FAULT_DETECTED \<Rightarrow> PS_FAULTY
          | EV_RS_SLAVE \<Rightarrow> PS_UNCALIBRATED
          | EV_RS_PASSIVE \<Rightarrow> PS_PASSIVE
          | _ \<Rightarrow> state)
     | PS_GRAND_MASTER \<Rightarrow>
         (case event of
            EV_DESIGNATED_DISABLED \<Rightarrow> PS_DISABLED
          | EV_FAULT_DETECTED \<Rightarrow> PS_FAULTY
          | EV_RS_SLAVE \<Rightarrow> PS_UNCALIBRATED
          | EV_RS_PASSIVE \<Rightarrow> PS_PASSIVE
          | _ \<Rightarrow> state)
     | PS_PASSIVE \<Rightarrow>
         (case event of
            EV_DESIGNATED_DISABLED \<Rightarrow> PS_DISABLED
          | EV_FAULT_DETECTED \<Rightarrow> PS_FAULTY
          | EV_ANNOUNCE_RECEIPT_TIMEOUT_EXPIRES \<Rightarrow> PS_MASTER
          | EV_RS_MASTER \<Rightarrow> PS_PRE_MASTER
          | EV_RS_GRAND_MASTER \<Rightarrow> PS_GRAND_MASTER
          | EV_RS_SLAVE \<Rightarrow> PS_UNCALIBRATED
          | _ \<Rightarrow> state)
     | PS_UNCALIBRATED \<Rightarrow>
         (case event of
            EV_DESIGNATED_DISABLED \<Rightarrow> PS_DISABLED
          | EV_FAULT_DETECTED \<Rightarrow> PS_FAULTY
          | EV_ANNOUNCE_RECEIPT_TIMEOUT_EXPIRES \<Rightarrow> PS_MASTER
          | EV_MASTER_CLOCK_SELECTED \<Rightarrow> PS_SLAVE
          | EV_RS_MASTER \<Rightarrow> PS_PRE_MASTER
          | EV_RS_GRAND_MASTER \<Rightarrow> PS_GRAND_MASTER
          | EV_RS_SLAVE \<Rightarrow> PS_UNCALIBRATED
          | EV_RS_PASSIVE \<Rightarrow> PS_PASSIVE
          | _ \<Rightarrow> state)
     | PS_SLAVE \<Rightarrow>
         (case event of
            EV_DESIGNATED_DISABLED \<Rightarrow> PS_DISABLED
          | EV_FAULT_DETECTED \<Rightarrow> PS_FAULTY
          | EV_ANNOUNCE_RECEIPT_TIMEOUT_EXPIRES \<Rightarrow> PS_MASTER
          | EV_SYNCHRONIZATION_FAULT \<Rightarrow> PS_UNCALIBRATED
          | EV_RS_MASTER \<Rightarrow> PS_PRE_MASTER
          | EV_RS_GRAND_MASTER \<Rightarrow> PS_GRAND_MASTER
          | EV_RS_SLAVE \<Rightarrow> (if truthy mdiff then PS_UNCALIBRATED else state)
          | EV_RS_PASSIVE \<Rightarrow> PS_PASSIVE
          | _ \<Rightarrow> state))"

definition ptp_slave_fsm :: "port_state \<Rightarrow> fsm_event \<Rightarrow> int \<Rightarrow> port_state" where
  "ptp_slave_fsm state event mdiff =
    (if event = EV_INITIALIZE \<or> event = EV_POWERUP then PS_INITIALIZING
     else case state of
       PS_INITIALIZING \<Rightarrow>
         (case event of
            EV_FAULT_DETECTED \<Rightarrow> PS_FAULTY
          | EV_INIT_COMPLETE \<Rightarrow> PS_LISTENING
          | _ \<Rightarrow> state)
     | PS_FAULTY \<Rightarrow>
         (case event of
            EV_DESIGNATED_DISABLED \<Rightarrow> PS_DISABLED
          | EV_FAULT_CLEARED \<Rightarrow> PS_INITIALIZING
          | _ \<Rightarrow> state)
     | PS_DISABLED \<Rightarrow>
         (if event = EV_DESIGNATED_ENABLED then PS_INITIALIZING else state)
     | PS_LISTENING \<Rightarrow>
         (case event of
            EV_DESIGNATED_DISABLED \<Rightarrow> PS_DISABLED
          | EV_FAULT_DETECTED \<Rightarrow> PS_FAULTY
          | EV_ANNOUNCE_RECEIPT_TIMEOUT_EXPIRES \<Rightarrow> PS_LISTENING
          | EV_RS_MASTER \<Rightarrow> PS_LISTENING
          | EV_RS_GRAND_MASTER \<Rightarrow> PS_LISTENING
          | EV_RS_PASSIVE \<Rightarrow> PS_LISTENING
          | EV_RS_SLAVE \<Rightarrow> PS_UNCALIBRATED
          | _ \<Rightarrow> state)
     | PS_UNCALIBRATED \<Rightarrow>
         (case event of
            EV_DESIGNATED_DISABLED \<Rightarrow> PS_DISABLED
          | EV_FAULT_DETECTED \<Rightarrow> PS_FAULTY
          | EV_ANNOUNCE_RECEIPT_TIMEOUT_EXPIRES \<Rightarrow> PS_LISTENING
          | EV_RS_MASTER \<Rightarrow> PS_LISTENING
          | EV_RS_GRAND_MASTER \<Rightarrow> PS_LISTENING
          | EV_RS_PASSIVE \<Rightarrow> PS_LISTENING
          | EV_MASTER_CLOCK_SELECTED \<Rightarrow> PS_SLAVE
          | _ \<Rightarrow> state)
     | PS_SLAVE \<Rightarrow>
         (case event of
            EV_DESIGNATED_DISABLED \<Rightarrow> PS_DISABLED
          | EV_FAULT_DETECTED \<Rightarrow> PS_FAULTY
          | EV_ANNOUNCE_RECEIPT_TIMEOUT_EXPIRES \<Rightarrow> PS_LISTENING
          | EV_RS_MASTER \<Rightarrow> PS_LISTENING
          | EV_RS_GRAND_MASTER \<Rightarrow> PS_LISTENING
          | EV_RS_PASSIVE \<Rightarrow> PS_LISTENING
          | EV_SYNCHRONIZATION_FAULT \<Rightarrow> PS_UNCALIBRATED
          | EV_RS_SLAVE \<Rightarrow> (if truthy mdiff then PS_UNCALIBRATED else state)
          | _ \<Rightarrow> state)
     | _ \<Rightarrow> state)"

definition designated_master_fsm :: "port_state \<Rightarrow> fsm_event \<Rightarrow> int \<Rightarrow> port_state" where
  "designated_master_fsm state event mdiff =
    (if event = EV_INITIALIZE \<or> event = EV_POWERUP then PS_INITIALIZING
     else case state of
       PS_INITIALIZING \<Rightarrow>
         (case event of
            EV_FAULT_DETECTED \<Rightarrow> PS_FAULTY
          | EV_INIT_COMPLETE \<Rightarrow> PS_MASTER
          | _ \<Rightarrow> state)
     | PS_FAULTY \<Rightarrow> (if event = EV_FAULT_CLEARED then PS_INITIALIZING else state)
     | PS_MASTER \<Rightarrow> (if event = EV_FAULT_DETECTED then PS_FAULTY else state)
     | _ \<Rightarrow> state)"

definition designated_slave_fsm :: "port_state \<Rightarrow> fsm_event \<Rightarrow> int \<Rightarrow> port_state" where
  "designated_slave_fsm state event mdiff =
    (if event = EV_INITIALIZE \<or> event = EV_POWERUP then PS_INITIALIZING
     else case state of
       PS_INITIALIZING \<Rightarrow>
         (case event of
            EV_FAULT_DETECTED \<Rightarrow> PS_FAULTY
          | EV_INIT_COMPLETE \<Rightarrow> PS_SLAVE
          | _ \<Rightarrow> state)
     | PS_FAULTY \<Rightarrow> (if event = EV_FAULT_CLEARED then PS_INITIALIZING else state)
     | PS_SLAVE \<Rightarrow>
         (case event of
            EV_FAULT_DETECTED \<Rightarrow> PS_FAULTY
          | _ \<Rightarrow> state)
     | _ \<Rightarrow> state)"

definition unicast_fsm :: "unicast_state \<Rightarrow> unicast_event \<Rightarrow> unicast_state" where
  "unicast_fsm state ev =
    (case state of
       UC_WAIT \<Rightarrow>
         (case ev of
            UC_EV_GRANT_ANN \<Rightarrow> UC_HAVE_ANN
          | _ \<Rightarrow> state)
     | UC_HAVE_ANN \<Rightarrow>
         (case ev of
            UC_EV_SELECTED \<Rightarrow> UC_NEED_SYDY
          | UC_EV_CANCEL \<Rightarrow> UC_WAIT
          | _ \<Rightarrow> state)
     | UC_NEED_SYDY \<Rightarrow>
         (case ev of
            UC_EV_GRANT_SYDY \<Rightarrow> UC_HAVE_SYDY
          | UC_EV_UNSELECTED \<Rightarrow> UC_HAVE_ANN
          | UC_EV_CANCEL \<Rightarrow> UC_WAIT
          | _ \<Rightarrow> state)
     | UC_HAVE_SYDY \<Rightarrow>
         (case ev of
            UC_EV_UNSELECTED \<Rightarrow> UC_HAVE_ANN
          | UC_EV_CANCEL \<Rightarrow> UC_WAIT
          | _ \<Rightarrow> state))"

lemmas port_fsm_defs [fsm_simps] =
  ptp_fsm_def ptp_slave_fsm_def designated_master_fsm_def designated_slave_fsm_def

section \<open>Runs of a port state machine\<close>

text \<open>
  One step relation serves all four machines: the function pointer \<open>state_machine\<close> of
  \<open>struct port\<close> is the argument \<open>fsm\<close>, and an event arrives with an arbitrary \<open>mdiff\<close>.
\<close>

type_synonym port_machine = "port_state \<Rightarrow> fsm_event \<Rightarrow> int \<Rightarrow> port_state"

fun fsm_run :: "port_machine \<Rightarrow> port_state \<Rightarrow> (fsm_event \<times> int) list \<Rightarrow> port_state" where
  "fsm_run fsm s [] = s"
| "fsm_run fsm s ((e, d) # es) = fsm_run fsm (fsm s e d) es"

inductive fsm_reach :: "port_machine \<Rightarrow> port_state \<Rightarrow> bool" for fsm where
  fsm_reach_init: "fsm_reach fsm PS_INITIALIZING"
| fsm_reach_step: "fsm_reach fsm s \<Longrightarrow> fsm_reach fsm (fsm s e d)"

lemma fsm_run_append:
  "fsm_run fsm s (xs @ ys) = fsm_run fsm (fsm_run fsm s xs) ys"
  by (induction fsm s xs rule: fsm_run.induct) simp_all

lemma fsm_reach_run: "fsm_reach fsm s \<Longrightarrow> fsm_reach fsm (fsm_run fsm s es)"
  by (induction fsm s es rule: fsm_run.induct) (auto intro: fsm_reach_step)

lemma fsm_reach_invariant:
  assumes "fsm_reach fsm s" and "PS_INITIALIZING \<in> I" and "\<And>s e d. s \<in> I \<Longrightarrow> fsm s e d \<in> I"
  shows "s \<in> I"
  using assms by (induction rule: fsm_reach.induct) auto

text \<open>
  The contract of a port machine: a reset event always leads to \<open>PS_INITIALIZING\<close>, the idle
  event changes nothing, a fault in the initialising state or in an operational state leads
  to \<open>PS_FAULTY\<close>, a faulty port leaves its state only by being reset, cleared or disabled,
  and the states a machine can be in are closed under its steps.
\<close>

locale port_fsm =
  fixes fsm :: port_machine
    and dom :: "port_state set"
  assumes reset: "e = EV_INITIALIZE \<or> e = EV_POWERUP \<Longrightarrow> fsm s e d = PS_INITIALIZING"
    and idle: "fsm s EV_NONE d = s"
    and init_dom: "PS_INITIALIZING \<in> dom"
    and step_dom: "s \<in> dom \<Longrightarrow> fsm s e d \<in> dom"
    and fault: "s \<in> dom \<Longrightarrow> s \<noteq> PS_DISABLED \<Longrightarrow> fsm s EV_FAULT_DETECTED d = PS_FAULTY"
    and faulty: "fsm PS_FAULTY e d \<in> {PS_FAULTY, PS_INITIALIZING, PS_DISABLED}"
    and cleared: "fsm PS_FAULTY EV_FAULT_CLEARED d = PS_INITIALIZING"
begin

lemma reach_dom: "fsm_reach fsm s \<Longrightarrow> s \<in> dom"
  by (erule fsm_reach_invariant) (auto simp: init_dom step_dom)

lemma run_after_reset:
  assumes "e = EV_INITIALIZE \<or> e = EV_POWERUP"
  shows "fsm_run fsm s (xs @ (e, d) # ys) = fsm_run fsm PS_INITIALIZING ys"
  using assms by (simp add: fsm_run_append reset)

lemma run_idle:
  assumes "\<forall>(e, d) \<in> set es. e = EV_NONE"
  shows "fsm_run fsm s es = s"
  using assms by (induction es) (auto simp: idle)

lemma fault_recovers:
  assumes "fsm_reach fsm s" and "s \<noteq> PS_DISABLED"
  shows "fsm_run fsm s [(EV_FAULT_DETECTED, d), (EV_FAULT_CLEARED, d')] = PS_INITIALIZING"
  using assms by (simp add: fault reach_dom cleared)

text \<open>While no reset, clearing or disabling event arrives, a faulty port stays faulty.\<close>

lemma faulty_sticky:
  assumes "\<And>e d. (e, d) \<in> set es \<Longrightarrow> fsm PS_FAULTY e d = PS_FAULTY"
  shows "fsm_run fsm PS_FAULTY es = PS_FAULTY"
  using assms by (induction es) auto

end

abbreviation all_states :: "port_state set" where
  "all_states \<equiv> UNIV"

definition slave_states :: "port_state set" where
  "slave_states = {PS_INITIALIZING, PS_FAULTY, PS_DISABLED, PS_LISTENING, PS_UNCALIBRATED, PS_SLAVE}"

lemmas fsm_splits = port_state.splits fsm_event.splits if_splits

interpretation bc: port_fsm ptp_fsm all_states
  by unfold_locales (simp_all add: ptp_fsm_def split: port_state.split fsm_event.split)

interpretation so: port_fsm ptp_slave_fsm slave_states
  by unfold_locales
    (auto simp: ptp_slave_fsm_def slave_states_def split: port_state.split fsm_event.split)

interpretation dmaster: port_fsm designated_master_fsm "{PS_INITIALIZING, PS_FAULTY, PS_MASTER}"
  by unfold_locales (auto simp: designated_master_fsm_def split: port_state.split fsm_event.split)

interpretation dslave: port_fsm designated_slave_fsm "{PS_INITIALIZING, PS_FAULTY, PS_SLAVE}"
  by unfold_locales (auto simp: designated_slave_fsm_def split: port_state.split fsm_event.split)

text \<open>The machines a port can be configured with, and that each meets the contract.\<close>

definition port_machines :: "port_machine set" where
  "port_machines = {ptp_fsm, ptp_slave_fsm, designated_master_fsm, designated_slave_fsm}"

lemma port_machines_fsm:
  assumes "fsm \<in> port_machines"
  obtains dom where "port_fsm fsm dom"
proof -
  have "\<exists>dom. port_fsm fsm dom"
    using assms bc.port_fsm_axioms so.port_fsm_axioms dmaster.port_fsm_axioms
      dslave.port_fsm_axioms
    unfolding port_machines_def by (elim insertE emptyE) auto
  then show ?thesis using that by blast
qed

section \<open>Properties\<close>

text \<open>C4. A slave-only port never acts as a master: in every state that \<open>ptp_slave_fsm\<close> can
  reach from \<open>PS_INITIALIZING\<close>, whatever events arrive, the port is not in a master, pre-master,
  grand-master or passive state.\<close>

theorem ptp_slave_fsm_never_master:
  assumes "fsm_reach ptp_slave_fsm s"
  shows "s \<notin> {PS_PRE_MASTER, PS_MASTER, PS_GRAND_MASTER, PS_PASSIVE}"
  using so.reach_dom [OF assms] by (auto simp: slave_states_def)

theorem ptp_slave_fsm_never_master_witness:
  "fsm_run ptp_slave_fsm PS_INITIALIZING
     [(EV_INIT_COMPLETE, 0), (EV_RS_SLAVE, 0), (EV_MASTER_CLOCK_SELECTED, 0)] = PS_SLAVE \<and>
   PS_SLAVE \<notin> {PS_PRE_MASTER, PS_MASTER, PS_GRAND_MASTER, PS_PASSIVE}"
proof -
  have run: "fsm_run ptp_slave_fsm PS_INITIALIZING
     [(EV_INIT_COMPLETE, 0), (EV_RS_SLAVE, 0), (EV_MASTER_CLOCK_SELECTED, 0)] = PS_SLAVE"
    by (simp add: ptp_slave_fsm_def)
  have "fsm_reach ptp_slave_fsm PS_SLAVE"
    using fsm_reach_run [OF fsm_reach_init] run by metis
  from ptp_slave_fsm_never_master [OF this] run show ?thesis by simp
qed

text \<open>The slave-only machine is the general machine with every master-side target demoted
  to \<open>PS_LISTENING\<close>.\<close>

definition demote :: "port_state \<Rightarrow> port_state" where
  "demote s = (if s \<in> {PS_PRE_MASTER, PS_MASTER, PS_GRAND_MASTER, PS_PASSIVE}
     then PS_LISTENING else s)"

lemma ptp_slave_fsm_demote:
  "s \<in> slave_states \<Longrightarrow> ptp_slave_fsm s e d = demote (ptp_fsm s e d)"
  by (cases s; cases e) (simp_all add: slave_states_def ptp_slave_fsm_def ptp_fsm_def demote_def)

text \<open>C5. The slave-only machine refines the general one: on every state a slave-only port can
  reach, one step of \<open>ptp_slave_fsm\<close> is one step of \<open>ptp_fsm\<close> in which a move to a master-side
  state is replaced by a return to \<open>PS_LISTENING\<close>.\<close>

theorem ptp_slave_fsm_refines_ptp_fsm:
  assumes "fsm_reach ptp_slave_fsm s"
  shows "ptp_slave_fsm s e mdiff = demote (ptp_fsm s e mdiff)"
  using assms by (intro ptp_slave_fsm_demote so.reach_dom)

theorem ptp_slave_fsm_refines_ptp_fsm_witness:
  "ptp_slave_fsm PS_INITIALIZING EV_INIT_COMPLETE 0 = demote PS_LISTENING"
proof -
  have "ptp_slave_fsm PS_INITIALIZING EV_INIT_COMPLETE 0 =
      demote (ptp_fsm PS_INITIALIZING EV_INIT_COMPLETE 0)"
    by (rule ptp_slave_fsm_refines_ptp_fsm [OF fsm_reach_init])
  then show ?thesis by (simp add: ptp_fsm_def)
qed

lemma ptp_fsm_slave_entry:
  "ptp_fsm s e mdiff = PS_SLAVE \<longleftrightarrow>
     s = PS_UNCALIBRATED \<and> e = EV_MASTER_CLOCK_SELECTED \<or>
     s = PS_SLAVE \<and> e \<in> {EV_NONE, EV_DESIGNATED_ENABLED, EV_FAULT_CLEARED,
        EV_STATE_DECISION_EVENT, EV_QUALIFICATION_TIMEOUT_EXPIRES, EV_MASTER_CLOCK_SELECTED,
        EV_INIT_COMPLETE} \<or>
     s = PS_SLAVE \<and> e = EV_RS_SLAVE \<and> mdiff = 0"
  by (cases s; cases e) (simp_all add: ptp_fsm_def)

text \<open>A run of the general machine that ends in \<open>PS_SLAVE\<close> has passed through the events that
  the standard requires, in their order.\<close>

lemma ptp_fsm_uncalibrated_entry:
  assumes "ptp_fsm s e d = PS_UNCALIBRATED" and "s \<noteq> PS_UNCALIBRATED"
  shows "e = EV_RS_SLAVE \<or> s = PS_SLAVE"
  using assms by (cases s; cases e) (simp_all add: ptp_fsm_def)

lemma run_needs_rs_slave:
  assumes "fsm_run ptp_fsm s es \<in> {PS_UNCALIBRATED, PS_SLAVE}"
    and "s \<notin> {PS_UNCALIBRATED, PS_SLAVE}"
  shows "EV_RS_SLAVE \<in> fst ` set es"
  using assms
proof (induction es arbitrary: s)
  case (Cons x es)
  obtain e d where x: "x = (e, d)" by fastforce
  show ?case
  proof (cases "ptp_fsm s e d \<in> {PS_UNCALIBRATED, PS_SLAVE}")
    case True
    then show ?thesis
      using Cons.prems(2) x ptp_fsm_slave_entry [of s e d] ptp_fsm_uncalibrated_entry [of s e d]
      by (auto simp: image_iff)
  next
    case False
    with Cons.prems(1) x have "EV_RS_SLAVE \<in> fst ` set es"
      by (intro Cons.IH) auto
    then show ?thesis by auto
  qed
qed simp

text \<open>C6. A port that becomes a slave has been recommended as a slave and has then selected its
  master: in any run of \<open>ptp_fsm\<close> from the initialising state that ends in \<open>PS_SLAVE\<close>, the event
  \<open>EV_RS_SLAVE\<close> occurs, and after it \<open>EV_MASTER_CLOCK_SELECTED\<close> occurs; no other events lead
  there.\<close>

theorem ptp_fsm_slave_run:
  assumes "fsm_run ptp_fsm PS_INITIALIZING es = PS_SLAVE"
  shows "\<exists>xs d ys. es = xs @ (EV_MASTER_CLOCK_SELECTED, d) # ys \<and> EV_RS_SLAVE \<in> fst ` set xs \<and>
     fsm_run ptp_fsm PS_INITIALIZING xs = PS_UNCALIBRATED"
  using assms
proof (induction es rule: rev_induct)
  case (snoc x es)
  obtain e d where x: "x = (e, d)" by fastforce
  let ?s = "fsm_run ptp_fsm PS_INITIALIZING es"
  have step: "ptp_fsm ?s e d = PS_SLAVE"
    using snoc.prems x by (simp add: fsm_run_append)
  show ?case
  proof (cases "?s = PS_SLAVE")
    case True
    then obtain xs d' ys where "es = xs @ (EV_MASTER_CLOCK_SELECTED, d') # ys"
      "EV_RS_SLAVE \<in> fst ` set xs" "fsm_run ptp_fsm PS_INITIALIZING xs = PS_UNCALIBRATED"
      using snoc.IH by blast
    then show ?thesis by (intro exI [of _ xs] exI [of _ d'] exI [of _ "ys @ [x]"]) simp
  next
    case False
    with step have u: "?s = PS_UNCALIBRATED" "e = EV_MASTER_CLOCK_SELECTED"
      using ptp_fsm_slave_entry [of ?s e d] by auto
    moreover have "EV_RS_SLAVE \<in> fst ` set es"
      using run_needs_rs_slave [of PS_INITIALIZING es] u by simp
    ultimately show ?thesis using x by (intro exI [of _ es] exI [of _ d] exI [of _ "[]"]) simp
  qed
qed simp

theorem ptp_fsm_slave_run_witness:
  "\<exists>xs d ys. [(EV_INIT_COMPLETE, 0), (EV_RS_SLAVE, 1), (EV_MASTER_CLOCK_SELECTED, 0), (EV_NONE, 0)] =
       xs @ (EV_MASTER_CLOCK_SELECTED, d) # ys \<and> EV_RS_SLAVE \<in> fst ` set xs \<and>
     fsm_run ptp_fsm PS_INITIALIZING xs = PS_UNCALIBRATED"
  by (rule ptp_fsm_slave_run) (simp add: ptp_fsm_def)

text \<open>A reset discards history: whatever a port did before, after \<open>EV_INITIALIZE\<close> or
  \<open>EV_POWERUP\<close> each of the four port machines behaves as if freshly started.\<close>

theorem port_fsms_reset:
  assumes "e = EV_INITIALIZE \<or> e = EV_POWERUP"
    and "fsm \<in> port_machines"
  shows "fsm_run fsm s (xs @ (e, d) # ys) = fsm_run fsm PS_INITIALIZING ys"
  using assms(2) by (rule port_machines_fsm) (rule port_fsm.run_after_reset [OF _ assms(1)])

theorem port_fsms_reset_witness:
  "fsm_run ptp_fsm PS_SLAVE ([(EV_RS_MASTER, 0)] @ (EV_POWERUP, 0) # [(EV_INIT_COMPLETE, 0)]) =
     PS_LISTENING"
  using port_fsms_reset [of EV_POWERUP ptp_fsm PS_SLAVE "[(EV_RS_MASTER, 0)]" 0 "[(EV_INIT_COMPLETE, 0)]"]
  by (simp add: ptp_fsm_def port_machines_def)

text \<open>C7. A fault is never lost and can always be repaired: in every reachable state other than
  disabled, each of the four port machines goes to \<open>PS_FAULTY\<close> when a fault is detected, and
  back to \<open>PS_INITIALIZING\<close> once the fault is cleared.\<close>

theorem port_fsms_fault_recovery:
  assumes "fsm \<in> port_machines" and "fsm_reach fsm s" and "s \<noteq> PS_DISABLED"
  shows "fsm s EV_FAULT_DETECTED d = PS_FAULTY \<and>
    fsm_run fsm s [(EV_FAULT_DETECTED, d), (EV_FAULT_CLEARED, d')] = PS_INITIALIZING"
proof -
  obtain dom where m: "port_fsm fsm dom" using assms(1) by (rule port_machines_fsm)
  show ?thesis
    using port_fsm.fault_recovers [OF m assms(2,3)]
      port_fsm.fault [OF m port_fsm.reach_dom [OF m assms(2)] assms(3)] by blast
qed

theorem port_fsms_fault_recovery_witness:
  "designated_slave_fsm PS_INITIALIZING EV_FAULT_DETECTED 0 = PS_FAULTY \<and>
    fsm_run designated_slave_fsm PS_INITIALIZING
      [(EV_FAULT_DETECTED, 0), (EV_FAULT_CLEARED, 0)] = PS_INITIALIZING"
  by (rule port_fsms_fault_recovery [OF _ fsm_reach_init]) (simp_all add: port_machines_def)

section \<open>The unicast client machine\<close>

fun unicast_run :: "unicast_state \<Rightarrow> unicast_event list \<Rightarrow> unicast_state" where
  "unicast_run s [] = s"
| "unicast_run s (e # es) = unicast_run (unicast_fsm s e) es"

lemma unicast_run_append: "unicast_run s (xs @ ys) = unicast_run (unicast_run s xs) ys"
  by (induction s xs rule: unicast_run.induct) simp_all

text \<open>What a client still holds after a history of events: an announce contract while one was
  granted and not cancelled, and sync/delay service while, in addition, the master is
  selected and sync/delay was granted since it was selected.\<close>

fun has_ann :: "unicast_event list \<Rightarrow> bool"
  \<comment> \<open>history with the latest event first\<close>
where
  "has_ann [] = False"
| "has_ann (UC_EV_CANCEL # _) = False"
| "has_ann (UC_EV_GRANT_ANN # _) = True"
| "has_ann (_ # h) = has_ann h"

fun selected :: "unicast_event list \<Rightarrow> bool" where
  "selected [] = False"
| "selected (UC_EV_CANCEL # _) = False"
| "selected (UC_EV_UNSELECTED # _) = False"
| "selected (UC_EV_SELECTED # h) = (has_ann h)"
| "selected (_ # h) = selected h"

fun has_sydy :: "unicast_event list \<Rightarrow> bool" where
  "has_sydy [] = False"
| "has_sydy (UC_EV_CANCEL # _) = False"
| "has_sydy (UC_EV_UNSELECTED # _) = False"
| "has_sydy (UC_EV_GRANT_SYDY # h) = selected h"
| "has_sydy (_ # h) = has_sydy h"

definition unicast_spec :: "unicast_event list \<Rightarrow> unicast_state" where
  "unicast_spec h = (if has_sydy h then UC_HAVE_SYDY else if selected h then UC_NEED_SYDY
     else if has_ann h then UC_HAVE_ANN else UC_WAIT)"

lemma selected_has_ann: "selected h \<Longrightarrow> has_ann h"
  by (induction h rule: selected.induct) auto

lemma has_sydy_selected: "has_sydy h \<Longrightarrow> selected h"
  by (induction h rule: has_sydy.induct) (auto dest: selected_has_ann)

text \<open>C8. The unicast client machine implements its specification over histories: after any
  sequence of events from \<open>UC_WAIT\<close> the state is \<open>UC_HAVE_SYDY\<close> exactly when sync and delay
  service is held, \<open>UC_NEED_SYDY\<close> when the master is selected without it, \<open>UC_HAVE_ANN\<close> when
  only the announce contract is held, and \<open>UC_WAIT\<close> otherwise.\<close>

theorem unicast_fsm_refines_spec: "unicast_run UC_WAIT es = unicast_spec (rev es)"
proof (induction es rule: rev_induct)
  case (snoc e es)
  let ?h = "rev es"
  have "unicast_fsm (unicast_spec ?h) e = unicast_spec (e # ?h)"
    using selected_has_ann [of ?h] has_sydy_selected [of ?h]
    by (cases e) (auto simp: unicast_spec_def unicast_fsm_def)
  then show ?case using snoc by (simp add: unicast_run_append)
qed (simp add: unicast_spec_def)

end
