(* ===== verification/Unicast_Service.thy ===== *)
theory Unicast_Service
  imports Pqueue Ptp_Types Fsm
begin

unbundle bit_operations_syntax

text \<open>
  The unicast master service of \<open>unicast_service.c\<close>: contracts of unicast clients, grouped by
  message interval, and the timer that serves them in the order of their due times.

  Intervals live in memory (\<open>us_mem\<close>, a store from pointers to intervals), are linked in the
  list \<open>us_list\<close>, and their pointers are queued by due time in the priority queue
  \<open>us_queue\<close>; the comparison \<open>compare_timeout\<close> dereferences the pointers, so it is taken
  over the memory at the time of each queue operation. Times are mathematical integers
  (signed overflow is undefined in C). Clock readings, allocation results and the results of
  \<open>port_tx_announce\<close> and \<open>port_tx_sync\<close> are arguments; the messages sent are an output list.
\<close>

section \<open>Time specifications\<close>

record tspec =
  ts_sec :: int
  ts_nsec :: int

definition log_to_timespec :: "int \<Rightarrow> tspec" where
  "log_to_timespec log_seconds =
    (if log_seconds < 0
     then \<lparr>ts_sec = 0, ts_nsec = 500000000 div 2 ^ nat (- log_seconds - 1)\<rparr>
     else \<lparr>ts_sec = 2 ^ nat log_seconds, ts_nsec = 0\<rparr>)"

definition timespec_compare :: "tspec \<Rightarrow> tspec \<Rightarrow> int" where
  "timespec_compare a b =
    (if ts_sec a < ts_sec b then 1
     else if ts_sec b < ts_sec a then -1
     else if ts_nsec a < ts_nsec b then 1
     else if ts_nsec b < ts_nsec a then -1
     else 0)"

function timespec_normalize :: "tspec \<Rightarrow> tspec" where
  "timespec_normalize ts =
    (if ts_nsec ts \<ge> 1000000000
     then timespec_normalize \<lparr>ts_sec = ts_sec ts + 1, ts_nsec = ts_nsec ts - 1000000000\<rparr>
     else ts)"
  by pat_completeness auto
termination
  by (relation "measure (\<lambda>ts. nat (ts_nsec ts))") auto

declare timespec_normalize.simps [simp del]

section \<open>Clients, intervals and the service\<close>

record unicast_client_address =
  c_portIdentity :: PortIdentity
  c_seq_announce :: u16
  c_seq_sync :: u16
  c_message_types :: u32
  c_addr :: address
  c_grant_tmo :: int

record unicast_service_interval =
  i_clients :: "unicast_client_address list"
  i_incr :: tspec
  i_tmo :: tspec
  i_log_period :: int

type_synonym memory = "nat \<Rightarrow> unicast_service_interval"

record unicast_service =
  us_mem :: memory
  us_list :: "nat list"
  us_queue :: "nat pqueue"
  us_timer :: tspec

record request_unicast_xmit =
  rq_message_type :: u8
  rq_logInterMessagePeriod :: int
  rq_durationField :: u32

datatype service_result = SERVICE_GRANTED | SERVICE_DENIED | SERVICE_DISABLED

definition compare_timeout :: "memory \<Rightarrow> nat \<Rightarrow> nat \<Rightarrow> int" where
  "compare_timeout m a b = timespec_compare (i_tmo (m a)) (i_tmo (m b))"

text \<open>Queue operations run with the comparison over the current memory.\<close>

definition us_q :: "unicast_service \<Rightarrow> nat pqueue" where
  "us_q s = (us_queue s)\<lparr>pq_cmp := compare_timeout (us_mem s)\<rparr>"

definition initialize_interval :: "tspec \<Rightarrow> int \<Rightarrow> unicast_service_interval" where
  "initialize_interval now log_period =
    \<lparr>i_clients = [], i_incr = log_to_timespec log_period,
     i_tmo = timespec_normalize (now\<lparr>ts_nsec := ts_nsec now + 10000000\<rparr>),
     i_log_period = log_period\<rparr>"

definition interval_increment :: "unicast_service_interval \<Rightarrow> unicast_service_interval" where
  "interval_increment i = i\<lparr>i_tmo := timespec_normalize
     \<lparr>ts_sec = ts_sec (i_tmo i) + ts_sec (i_incr i),
      ts_nsec = ts_nsec (i_tmo i) + ts_nsec (i_incr i)\<rparr>\<rparr>"

section \<open>Serving clients\<close>

datatype transmission = TxAnnounce address u16 | TxSync address u16

type_synonym tx_result = "transmission \<Rightarrow> bool" \<comment> \<open>\<open>True\<close>: the C function returned an error\<close>

definition type_mask :: "u8 \<Rightarrow> u32" where
  "type_mask mtype = push_bit (unat mtype) 1"

fun unicast_service_clients_loop ::
  "tx_result \<Rightarrow> int \<Rightarrow> unicast_client_address list \<Rightarrow>
     unicast_client_address list \<times> bool \<times> transmission list" where
  "unicast_service_clients_loop tx now [] = ([], False, [])"
| "unicast_service_clients_loop tx now (c # cs) =
    (if now > c_grant_tmo c then unicast_service_clients_loop tx now cs
     else let ann = c_message_types c AND type_mask ANNOUNCE \<noteq> 0;
              syn = c_message_types c AND type_mask SYNC \<noteq> 0;
              out = (if ann then [TxAnnounce (c_addr c) (c_seq_announce c)] else []) @
                    (if syn then [TxSync (c_addr c) (c_seq_sync c)] else []);
              c' = c\<lparr>c_seq_announce := (if ann then c_seq_announce c + 1 else c_seq_announce c),
                     c_seq_sync := (if syn then c_seq_sync c + 1 else c_seq_sync c)\<rparr>;
              (cs', err, out') = unicast_service_clients_loop tx now cs
          in (c' # cs', list_ex tx out \<or> err, out @ out'))"

definition unicast_service_clients ::
  "tx_result \<Rightarrow> tspec option \<Rightarrow> unicast_client_address list \<Rightarrow>
     unicast_client_address list \<times> bool \<times> transmission list" where
  "unicast_service_clients tx now cs =
    (case now of
       None \<Rightarrow> (cs, True, [])
     | Some t \<Rightarrow> unicast_service_clients_loop tx (ts_sec t) cs)"

definition unicast_service_extend ::
  "tspec option \<Rightarrow> unicast_client_address \<Rightarrow> request_unicast_xmit \<Rightarrow> unicast_client_address" where
  "unicast_service_extend now client req =
    (case now of
       None \<Rightarrow> client
     | Some t \<Rightarrow>
         (let tmo = ts_sec t + uint (rq_durationField req)
          in if tmo > c_grant_tmo client then client\<lparr>c_grant_tmo := tmo\<rparr> else client))"

text \<open>\<open>unicast_service_rearm_timer\<close> sets the timer of the port, here the field \<open>us_timer\<close>. Zero
  stops the timer.\<close>

definition unicast_service_rearm_timer :: "unicast_service \<Rightarrow> unicast_service" where
  "unicast_service_rearm_timer s = s\<lparr>us_timer :=
    (case pqueue_peek (us_q s) of
       Some p \<Rightarrow> i_tmo (us_mem s p)
     | None \<Rightarrow> \<lparr>ts_sec = 0, ts_nsec = 0\<rparr>)\<rparr>"

section \<open>Adding and removing contracts\<close>

text \<open>The scan of one interval's clients when the interval is the one asked for: either a
  client already has the contract, or the last client with the same address is the one to
  use.\<close>

datatype scan = Unchanged nat | Candidate "nat option"

fun scan_interval ::
  "transport_type \<Rightarrow> address \<Rightarrow> u32 \<Rightarrow> nat \<Rightarrow> nat option \<Rightarrow> unicast_client_address list \<Rightarrow> scan" where
  "scan_interval ty a msk i cand [] = Candidate cand"
| "scan_interval ty a msk i cand (c # cs) =
    (if \<not> addreq ty (c_addr c) a then scan_interval ty a msk (Suc i) cand cs
     else if c_message_types c AND msk \<noteq> 0 then Unchanged i
     else scan_interval ty a msk (Suc i) (Some i) cs)"

text \<open>Any other interval: stale contracts for the address are cleared, and a client with no
  contract left is freed.\<close>

fun clear_stale ::
  "transport_type \<Rightarrow> address \<Rightarrow> u32 \<Rightarrow> unicast_client_address list \<Rightarrow> unicast_client_address list" where
  "clear_stale ty a msk [] = []"
| "clear_stale ty a msk (c # cs) =
    (if \<not> addreq ty (c_addr c) a then c # clear_stale ty a msk cs
     else let t = c_message_types c AND NOT msk
          in if t = 0 then clear_stale ty a msk cs
             else c\<lparr>c_message_types := t\<rparr> # clear_stale ty a msk cs)"

fun add_scan ::
  "transport_type \<Rightarrow> address \<Rightarrow> u32 \<Rightarrow> int \<Rightarrow> memory \<Rightarrow> nat list \<Rightarrow> nat option \<Rightarrow> (nat \<times> nat) option \<Rightarrow>
     memory \<times> ((nat \<times> nat) + nat option \<times> (nat \<times> nat) option)" where
  "add_scan ty a msk per m [] interval client = (m, Inr (interval, client))"
| "add_scan ty a msk per m (p # ps) interval client =
    (let interval = (if i_log_period (m p) = per then Some p else interval)
     in if interval = Some p
        then (case scan_interval ty a msk 0 None (i_clients (m p)) of
                Unchanged i \<Rightarrow> (m, Inl (p, i))
              | Candidate c \<Rightarrow>
                  add_scan ty a msk per m ps interval
                    (case c of Some i \<Rightarrow> Some (p, i) | None \<Rightarrow> client))
        else add_scan ty a msk per
               (m(p := (m p)\<lparr>i_clients := clear_stale ty a msk (i_clients (m p))\<rparr>)) ps interval client)"

definition update_client ::
  "memory \<Rightarrow> nat \<times> nat \<Rightarrow> (unicast_client_address \<Rightarrow> unicast_client_address) \<Rightarrow> memory" where
  "update_client m loc f =
    (let p = fst loc; i = snd loc; cs = i_clients (m p)
     in m(p := (m p)\<lparr>i_clients := cs[i := f (cs ! i)]\<rparr>))"

text \<open>The environment of \<open>unicast_service_add\<close>: two clock readings, whether the client can be
  allocated, the pointer of a new interval, whether the queue can grow, and the content of
  memory that \<open>realloc\<close> adds.\<close>

record add_env =
  ae_now :: "tspec option"
  ae_now_tmo :: tspec
  ae_client_ok :: bool
  ae_interval :: "nat option"
  ae_queue_ok :: bool
  ae_fill :: nat

text \<open>The part of \<open>unicast_service_add\<close> after the scan, given its result: the new memory and
  either the place of an unchanged contract or the interval and client to use.\<close>

definition add_finish ::
  "add_env \<Rightarrow> PortIdentity \<Rightarrow> address \<Rightarrow> request_unicast_xmit \<Rightarrow> u32 \<Rightarrow> unicast_service \<Rightarrow> memory \<Rightarrow>
     ((nat \<times> nat) + nat option \<times> (nat \<times> nat) option) \<Rightarrow> service_result \<times> unicast_service" where
  "add_finish env src a req msk s m r =
    (case r of
       Inl loc \<Rightarrow>
         (SERVICE_GRANTED,
          s\<lparr>us_mem := update_client m loc (\<lambda>c. unicast_service_extend (ae_now env) c req)\<rparr>)
     | Inr (interval, Some loc) \<Rightarrow>
         (SERVICE_GRANTED,
          s\<lparr>us_mem := update_client m loc (\<lambda>c. unicast_service_extend (ae_now env)
             (c\<lparr>c_message_types := c_message_types c OR msk\<rparr>) req)\<rparr>)
     | Inr (interval, None) \<Rightarrow>
         (let s1 = s\<lparr>us_mem := m\<rparr>;
              client = unicast_service_extend (ae_now env)
                \<lparr>c_portIdentity = src, c_seq_announce = 0, c_seq_sync = 0,
                 c_message_types = msk, c_addr = a, c_grant_tmo = 0\<rparr> req
          in if \<not> ae_client_ok env then (SERVICE_DENIED, s1)
             else case interval of
               Some p \<Rightarrow>
                 (SERVICE_GRANTED,
                  s1\<lparr>us_mem := m(p := (m p)\<lparr>i_clients := client # i_clients (m p)\<rparr>)\<rparr>)
             | None \<Rightarrow>
                 (case ae_interval env of
                    None \<Rightarrow> (SERVICE_DENIED, s1)
                  | Some p \<Rightarrow>
                      (let s2 = s1\<lparr>us_mem := m(p := initialize_interval (ae_now_tmo env)
                                     (rq_logInterMessagePeriod req)),
                                   us_list := p # us_list s1\<rparr>
                       in case pqueue_insert (ae_queue_ok env) (ae_fill env) (us_q s2) p of
                            (Some e, q) \<Rightarrow> (SERVICE_DENIED, s1)
                          | (None, q) \<Rightarrow>
                              (SERVICE_GRANTED,
                               (unicast_service_rearm_timer (s2\<lparr>us_queue := q\<rparr>))
                                 \<lparr>us_mem := (us_mem s2)(p := (us_mem s2 p)
                                    \<lparr>i_clients := client # i_clients (us_mem s2 p)\<rparr>)\<rparr>)))))"

definition unicast_service_add ::
  "add_env \<Rightarrow> transport_type \<Rightarrow> PortIdentity \<Rightarrow> address \<Rightarrow> request_unicast_xmit \<Rightarrow>
     unicast_service option \<Rightarrow> service_result \<times> unicast_service option" where
  "unicast_service_add env ty src a req us =
    (case us of
       None \<Rightarrow> (SERVICE_DISABLED, us)
     | Some s \<Rightarrow>
        (let mtype = drop_bit 4 (rq_message_type req); msk = type_mask mtype in
         if mtype = DELAY_RESP \<or> mtype = PDELAY_RESP then (SERVICE_GRANTED, us)
         else if \<not> (mtype = ANNOUNCE \<or> mtype = SYNC) then (SERVICE_DENIED, us)
         else if \<bar>rq_logInterMessagePeriod req\<bar> > 30 then (SERVICE_DENIED, us)
         else let (m, r) = add_scan ty a msk (rq_logInterMessagePeriod req) (us_mem s) (us_list s)
                             None None;
                  (res, s') = add_finish env src a req msk s m r
              in (res, Some s')))"

text \<open>\<open>unicast_service_remove\<close>: the first client with the address and the contract loses it.\<close>

fun remove_client ::
  "transport_type \<Rightarrow> address \<Rightarrow> u32 \<Rightarrow> unicast_client_address list \<Rightarrow> unicast_client_address list option" where
  "remove_client ty a msk [] = None"
| "remove_client ty a msk (c # cs) =
    (if addreq ty (c_addr c) a \<and> c_message_types c AND msk \<noteq> 0
     then let t = c_message_types c AND NOT msk
          in Some (if t = 0 then cs else c\<lparr>c_message_types := t\<rparr> # cs)
     else map_option ((#) c) (remove_client ty a msk cs))"

fun remove_scan ::
  "transport_type \<Rightarrow> address \<Rightarrow> u32 \<Rightarrow> memory \<Rightarrow> nat list \<Rightarrow> memory" where
  "remove_scan ty a msk m [] = m"
| "remove_scan ty a msk m (p # ps) =
    (case remove_client ty a msk (i_clients (m p)) of
       Some cs \<Rightarrow> m(p := (m p)\<lparr>i_clients := cs\<rparr>)
     | None \<Rightarrow> remove_scan ty a msk m ps)"

definition unicast_service_remove ::
  "transport_type \<Rightarrow> address \<Rightarrow> u8 \<Rightarrow> unicast_service option \<Rightarrow> unicast_service option" where
  "unicast_service_remove ty a message_type_flags us =
    (case us of
       None \<Rightarrow> None
     | Some s \<Rightarrow>
         (let mtype = drop_bit 4 message_type_flags; msk = type_mask mtype
          in if message_type_flags AND 1 \<noteq> 0 then us
             else if mtype = ANNOUNCE \<or> mtype = SYNC
             then Some (s\<lparr>us_mem := remove_scan ty a msk (us_mem s) (us_list s)\<rparr>)
             else us))"

definition unicast_service_initialize ::
  "bool \<Rightarrow> bool \<Rightarrow> bool \<Rightarrow> bool \<Rightarrow> bool \<Rightarrow> nat \<Rightarrow> memory \<Rightarrow> int \<times> unicast_service option" where
  "unicast_service_initialize unicast_listen set_hybrid_ok mem_us mem_q mem_data NULL m =
    (if \<not> unicast_listen then (0, None)
     else if \<not> set_hybrid_ok then (-1, None)
     else if \<not> mem_us then (-1, None)
     else case pqueue_create mem_q mem_data NULL 16 (compare_timeout m) of
            None \<Rightarrow> (-1, None)
          | Some q \<Rightarrow> (0, Some \<lparr>us_mem = m, us_list = [], us_queue = q,
                       us_timer = \<lparr>ts_sec = 0, ts_nsec = 0\<rparr>\<rparr>))"

section \<open>The timer\<close>

text \<open>One iteration of the loop of \<open>unicast_service_timer\<close>, after the interval at the head was
  found to be due.\<close>

definition service_step ::
  "bool \<Rightarrow> tx_result \<Rightarrow> tspec option \<Rightarrow> nat \<Rightarrow> unicast_service \<Rightarrow>
     unicast_service \<times> bool \<times> transmission list" where
  "service_step master tx clk fill s =
    (case pqueue_extract (us_q s) of
       (None, q) \<Rightarrow> (s, False, [])
     | (Some p, q) \<Rightarrow>
         (let i = us_mem s p;
              (cs, err, out) = (if master then unicast_service_clients tx clk (i_clients i)
                                else (i_clients i, False, []));
              i' = i\<lparr>i_clients := cs\<rparr>
          in if cs = []
             then (s\<lparr>us_mem := (us_mem s)(p := i'), us_queue := q, us_list := remove1 p (us_list s)\<rparr>,
                   err, out)
             else let s1 = s\<lparr>us_mem := (us_mem s)(p := interval_increment i'), us_queue := q\<rparr>
                  in (s1\<lparr>us_queue := snd (pqueue_insert True fill (us_q s1) p)\<rparr>, err, out)))"

text \<open>The loop has no bound of its own, so it is a partial function: \<open>None\<close> means that it never
  ends. \<open>clk k\<close> is the reading of the clock in iteration \<open>k\<close>.\<close>

partial_function (option) service_loop ::
  "bool \<Rightarrow> tx_result \<Rightarrow> tspec \<Rightarrow> (nat \<Rightarrow> tspec option) \<Rightarrow> nat \<Rightarrow> nat \<Rightarrow> unicast_service \<Rightarrow> bool \<Rightarrow>
     transmission list \<Rightarrow> (unicast_service \<times> bool \<times> transmission list) option" where
  "service_loop master tx now clk fill k s err out =
    (case pqueue_peek (us_q s) of
       None \<Rightarrow> Some (s, err, out)
     | Some p \<Rightarrow>
         if timespec_compare now (i_tmo (us_mem s p)) > 0 then Some (s, err, out)
         else let r = service_step master tx (clk k) fill s
              in service_loop master tx now clk fill (Suc k) (fst r) (err \<or> fst (snd r))
                   (out @ snd (snd r)))"

text \<open>\<open>tfd\<close> is set when \<open>timerfd_settime\<close> reports an error.\<close>

definition unicast_service_timer ::
  "bool \<Rightarrow> port_state \<Rightarrow> tx_result \<Rightarrow> tspec \<Rightarrow> (nat \<Rightarrow> tspec option) \<Rightarrow> nat \<Rightarrow> unicast_service option \<Rightarrow>
     (unicast_service option \<times> bool \<times> transmission list) option" where
  "unicast_service_timer tfd state tx now clk fill us =
    (case us of
       None \<Rightarrow> Some (None, False, [])
     | Some s \<Rightarrow>
         (let master = (state = PS_MASTER \<or> state = PS_GRAND_MASTER)
          in map_option (\<lambda>(s', err, out). (Some (unicast_service_rearm_timer s'), err \<or> tfd, out))
               (service_loop master tx now clk fill 0 s False [])))"

section \<open>Due times as numbers of nanoseconds\<close>

definition tns :: "tspec \<Rightarrow> int" where
  "tns ts = ts_sec ts * 1000000000 + ts_nsec ts"

definition ts_norm :: "tspec \<Rightarrow> bool" where
  "ts_norm ts \<longleftrightarrow> 0 \<le> ts_nsec ts \<and> ts_nsec ts < 1000000000"

lemma timespec_normalize_correct:
  "tns (timespec_normalize ts) = tns ts \<and>
   (0 \<le> ts_nsec ts \<longrightarrow> ts_norm (timespec_normalize ts))"
proof (induction ts rule: timespec_normalize.induct)
  case (1 ts)
  show ?case
    by (subst (1 2) timespec_normalize.simps)
      (use 1 in \<open>auto simp: tns_def ts_norm_def algebra_simps\<close>)
qed

lemma timespec_compare_tns:
  assumes "ts_norm a" and "ts_norm b"
  shows "timespec_compare a b > 0 \<longleftrightarrow> tns a < tns b"
    and "timespec_compare a b \<ge> 0 \<longleftrightarrow> tns a \<le> tns b"
  using assms by (auto simp: timespec_compare_def tns_def ts_norm_def)

text \<open>The comparison that \<open>unicast_service_initialize\<close> gives the queue is an order, for any
  content of memory.\<close>

interpretation tmo_order: pq_order "compare_timeout m" for m
  by unfold_locales (auto simp: compare_timeout_def timespec_compare_def split: if_splits)

lemma log_to_timespec_norm: "-30 \<le> l \<Longrightarrow> l \<le> 30 \<Longrightarrow> ts_norm (log_to_timespec l)"
proof -
  have "0 \<le> (500000000::int) div 2 ^ n \<and> (500000000::int) div 2 ^ n < 1000000000" for n
    using zdiv_mono2 [of 500000000 1 "2 ^ n"] by (auto simp: pos_imp_zdiv_nonneg_iff)
  then show ?thesis
    by (simp add: log_to_timespec_def ts_norm_def)
qed

lemma log_to_timespec_pos:
  assumes "-29 \<le> l" and "l \<le> 30"
  shows "0 < tns (log_to_timespec l)"
proof (cases "l < 0")
  case True
  have "(2::int) ^ nat (- l - 1) \<le> 2 ^ 28"
    using assms by (intro power_increasing) auto
  then have "0 < (500000000::int) div 2 ^ nat (- l - 1)"
    by (simp add: pos_imp_zdiv_pos_iff)
  with True show ?thesis by (simp add: log_to_timespec_def tns_def)
qed (simp add: log_to_timespec_def tns_def)

section \<open>The service invariant\<close>

abbreviation us_elems :: "unicast_service \<Rightarrow> nat multiset" where
  "us_elems s \<equiv> pq_elems (us_queue s)"

abbreviation us_tmo :: "unicast_service \<Rightarrow> nat \<Rightarrow> int" where
  "us_tmo s p \<equiv> tns (i_tmo (us_mem s p))"

definition us_wf :: "unicast_service \<Rightarrow> bool" where
  "us_wf s \<longleftrightarrow> pq_wf (us_q s) \<and> pq_heap (us_q s) \<and> (\<forall>p. count (us_elems s) p \<le> 1) \<and>
     (\<forall>p \<in># us_elems s. ts_norm (i_tmo (us_mem s p)) \<and> ts_norm (i_incr (us_mem s p)))"

lemma pq_cmp_update_simps [simp]:
  "pq_wf (q\<lparr>pq_cmp := c\<rparr>) = pq_wf q" "pq_elems (q\<lparr>pq_cmp := c\<rparr>) = pq_elems q"
  by (simp_all add: pq_wf_def pq_elems_def)

lemma us_q_simps [simp]:
  "pq_elems (us_q s) = us_elems s" "pq_len (us_q s) = pq_len (us_queue s)"
  "pq_cmp (us_q s) = compare_timeout (us_mem s)" "pq_data (us_q s) = pq_data (us_queue s)"
  "pq_wf (us_q s) = pq_wf (us_queue s)"
  by (simp_all add: us_q_def pq_elems_def pq_wf_def)

lemma us_heap_cong:
  assumes "pq_heap (q\<lparr>pq_cmp := compare_timeout m\<rparr>)" and "pq_wf q"
    and "\<And>p. p \<in># pq_elems q \<Longrightarrow> i_tmo (m p) = i_tmo (m' p)"
  shows "pq_heap (q\<lparr>pq_cmp := compare_timeout m'\<rparr>)"
proof -
  have eq: "i_tmo (m (pq_data q ! i)) = i_tmo (m' (pq_data q ! i))" if "i < pq_len q" for i
    using that assms(2,3) nth_mem [of i "take (pq_len q) (pq_data q)"]
    by (auto simp: pq_elems_def pq_wf_def)
  show ?thesis
    unfolding pq_heap_def
  proof (intro allI impI, elim conjE)
    fix i
    assume "0 < i" and "i < pq_len (q\<lparr>pq_cmp := compare_timeout m'\<rparr>)"
    then have "0 < i" "i < pq_len q" "parent i < pq_len q"
      using parent_less [of i] by simp_all
    moreover from this have "0 \<le> timespec_compare (i_tmo (m (pq_data q ! parent i)))
        (i_tmo (m (pq_data q ! i)))"
      using assms(1) by (simp add: pq_heap_def compare_timeout_def)
    ultimately show "pq_cmp (q\<lparr>pq_cmp := compare_timeout m'\<rparr>)
        (pq_data (q\<lparr>pq_cmp := compare_timeout m'\<rparr>) ! parent i)
        (pq_data (q\<lparr>pq_cmp := compare_timeout m'\<rparr>) ! i) \<ge> 0"
      using eq [of i] eq [of "parent i"] by (simp add: compare_timeout_def)
  qed
qed

lemma pq_cmp_update_id: "pq_cmp q = c \<Longrightarrow> (q :: 'a pqueue)\<lparr>pq_cmp := c\<rparr> = q"
  by (cases q) simp

lemma peek_extract:
  "pqueue_peek q = Some p \<Longrightarrow> \<exists>q'. pqueue_extract q = (Some p, q')"
  by (auto simp: pqueue_peek_def pqueue_extract_def Let_def split: if_splits)

lemma us_q_extract:
  assumes "us_wf s" and "pqueue_peek (us_q s) = Some p" and "pqueue_extract (us_q s) = (Some p, q)"
  shows "pq_wf q \<and> pq_heap q \<and> pq_cmp q = compare_timeout (us_mem s) \<and> p \<in># us_elems s \<and>
    p \<notin># pq_elems q \<and> us_elems s = add_mset p (pq_elems q) \<and>
    (\<forall>x \<in># us_elems s. us_tmo s p \<le> us_tmo s x)"
proof -
  have *: "pq_wf q \<and> pq_heap q \<and> pq_cmp q = compare_timeout (us_mem s) \<and> p \<in># us_elems s \<and>
      pq_elems q = us_elems s - {#p#} \<and> (\<forall>y \<in># us_elems s. compare_timeout (us_mem s) p y \<ge> 0)"
    using tmo_order.extract_correct [of "us_q s" "us_mem s" p q] assms by (simp add: us_wf_def)
  then have "count (pq_elems q) p = 0"
    using assms(1) by (simp add: us_wf_def)
  then have "p \<notin># pq_elems q" by (simp add: count_eq_zero_iff)
  moreover have "us_tmo s p \<le> us_tmo s x" if "x \<in># us_elems s" for x
    using that * assms(1) timespec_compare_tns(2) [of "i_tmo (us_mem s p)" "i_tmo (us_mem s x)"]
    by (simp add: us_wf_def compare_timeout_def)
  ultimately show ?thesis using * by simp
qed

text \<open>One iteration keeps the invariant and either retires the interval at the head or moves
  its due time on by its increment; nothing else changes.\<close>

lemma service_step_cases:
  assumes wf: "us_wf s" and peek: "pqueue_peek (us_q s) = Some p"
    and step: "fst (service_step master tx clk fill s) = s'"
  shows "us_wf s' \<and> (\<forall>x. x \<noteq> p \<longrightarrow> us_mem s' x = us_mem s x) \<and> p \<in># us_elems s \<and>
    i_incr (us_mem s' p) = i_incr (us_mem s p) \<and> i_log_period (us_mem s' p) = i_log_period (us_mem s p) \<and>
    (\<not> master \<longrightarrow> i_clients (us_mem s' p) = i_clients (us_mem s p)) \<and>
    (us_elems s' = us_elems s - {#p#} \<and> i_clients (us_mem s' p) = [] \<or>
     us_elems s' = us_elems s \<and> us_tmo s' p = us_tmo s p + tns (i_incr (us_mem s p)))"
proof -
  obtain q where q: "pqueue_extract (us_q s) = (Some p, q)"
    using peek_extract [OF peek] by (elim exE)
  note ex = us_q_extract [OF wf peek q]
  define cs where "cs = fst (if master then unicast_service_clients tx clk (i_clients (us_mem s p))
     else (i_clients (us_mem s p), False, []))"
  define i' where "i' = (us_mem s p)\<lparr>i_clients := cs\<rparr>"
  have norm: "ts_norm (i_tmo i')" "ts_norm (i_incr i')"
    using wf ex by (simp_all add: us_wf_def i'_def)
  have normq: "ts_norm (i_tmo (us_mem s x)) \<and> ts_norm (i_incr (us_mem s x))"
    if "x \<in># pq_elems q" for x
    using wf ex that by (simp add: us_wf_def)
  have keep: "pq_heap (q\<lparr>pq_cmp := compare_timeout ((us_mem s)(p := j))\<rparr>)" for j
  proof (rule us_heap_cong [where q = q and m = "us_mem s"])
    show "pq_heap (q\<lparr>pq_cmp := compare_timeout (us_mem s)\<rparr>)" using ex by (simp add: pq_cmp_update_id)
  qed (use ex in auto)
  have count: "count (pq_elems q) x \<le> 1" for x
  proof -
    have "count (us_elems s) x \<le> 1" using wf unfolding us_wf_def by blast
    moreover have "count (us_elems s) x = count (add_mset p (pq_elems q)) x" using ex by argo
    ultimately show ?thesis by (simp split: if_splits)
  qed
  show ?thesis
  proof (cases "cs = []")
    case True
    then have s': "s' = s\<lparr>us_mem := (us_mem s)(p := i'), us_queue := q, us_list := remove1 p (us_list s)\<rparr>"
      using step q by (auto simp: service_step_def cs_def i'_def Let_def split: prod.splits if_splits)
    show ?thesis
      using ex keep [of i'] normq count True by (auto simp: s' us_wf_def us_q_def i'_def cs_def)
  next
    case False
    define s1 where "s1 = s\<lparr>us_mem := (us_mem s)(p := interval_increment i'), us_queue := q\<rparr>"
    have s': "s' = s1\<lparr>us_queue := snd (pqueue_insert True fill (us_q s1) p)\<rparr>"
      using False step q
      by (auto simp: service_step_def cs_def i'_def s1_def Let_def split: prod.splits if_splits)
    obtain q2 where q2: "pqueue_insert True fill (us_q s1) p = (None, q2)"
      by (auto simp: pqueue_insert_def Let_def)
    have ins: "pq_wf q2 \<and> pq_heap q2 \<and> pq_cmp q2 = compare_timeout (us_mem s1) \<and>
        pq_elems q2 = add_mset p (us_elems s1)"
      using tmo_order.insert_correct [of "us_q s1" "us_mem s1" True fill p q2] q2 ex
        keep [of "interval_increment i'"]
      by (simp add: s1_def us_q_def pq_wf_def pq_elems_def)
    have inc: "tns (i_tmo (interval_increment i')) = tns (i_tmo i') + tns (i_incr i')"
      "ts_norm (i_tmo (interval_increment i'))"
      using timespec_normalize_correct [of "\<lparr>ts_sec = ts_sec (i_tmo i') + ts_sec (i_incr i'),
        ts_nsec = ts_nsec (i_tmo i') + ts_nsec (i_incr i')\<rparr>"] norm
      by (auto simp: interval_increment_def tns_def ts_norm_def algebra_simps)
    have s'2: "s' = s1\<lparr>us_queue := q2\<rparr>" using s' q2 by simp
    have usq: "us_q s' = q2"
      using ins by (simp add: us_q_def s'2 pq_cmp_update_id)
    have mem: "us_mem s' = (us_mem s)(p := interval_increment i')" and elems: "us_elems s' = us_elems s"
      using ins ex by (simp_all add: s'2 s1_def)
    have "us_wf s'"
      unfolding us_wf_def usq elems using ins ex inc norm normq count mem wf
      by (auto simp: us_wf_def interval_increment_def)
    moreover have "\<not> master \<longrightarrow> i_clients (us_mem s' p) = i_clients (us_mem s p)"
      by (simp add: mem i'_def interval_increment_def cs_def)
    ultimately show ?thesis
      using ex inc elems mem by (simp add: i'_def interval_increment_def)
  qed
qed

section \<open>Termination of the timer\<close>

text \<open>The work left before the time \<open>now\<close>: every due interval counts the nanoseconds by which
  it is late, plus one.\<close>

definition lateness :: "tspec \<Rightarrow> unicast_service \<Rightarrow> nat" where
  "lateness now s = (\<Sum>p \<in># us_elems s. nat (tns now - us_tmo s p + 1))"

lemma lateness_step:
  assumes wf: "us_wf s" and peek: "pqueue_peek (us_q s) = Some p"
    and due: "us_tmo s p \<le> tns now" and pos: "0 < tns (i_incr (us_mem s p))"
  shows "lateness now (fst (service_step master tx clk fill s)) < lateness now s"
proof -
  define s' where "s' = fst (service_step master tx clk fill s)"
  note st = service_step_cases [OF wf peek, of master tx clk fill s', OF s'_def [symmetric]]
  define E0 where "E0 = us_elems s - {#p#}"
  have E: "us_elems s = add_mset p E0" using st by (simp add: E0_def)
  have "count (us_elems s) p \<le> 1" using wf unfolding us_wf_def by blast
  then have "p \<notin># E0" by (simp add: E not_in_iff)
  then have same: "image_mset (\<lambda>x. nat (tns now - us_tmo s' x + 1)) E0 =
      image_mset (\<lambda>x. nat (tns now - us_tmo s x + 1)) E0"
    using st by (intro image_mset_cong) (metis (no_types, lifting))
  have "us_elems s' = E0 \<or> us_elems s' = add_mset p E0 \<and>
      us_tmo s' p = us_tmo s p + tns (i_incr (us_mem s p))"
    using st E0_def E by argo
  then show ?thesis
    using same E due pos unfolding s'_def [symmetric] lateness_def by (elim disjE) auto
qed

lemma service_loop_returns:
  assumes "us_wf s" and "ts_norm now"
    and "\<And>p. p \<in># us_elems s \<Longrightarrow> 0 < tns (i_incr (us_mem s p))"
  shows "\<exists>s' err' out'. service_loop master tx now clk fill k s err out = Some (s', err', out') \<and>
     us_wf s' \<and> set_mset (us_elems s') \<subseteq> set_mset (us_elems s) \<and>
     (\<forall>p \<in># us_elems s'. tns now < us_tmo s' p)"
  using assms(1,3)
proof (induction "lateness now s" arbitrary: s k err out rule: less_induct)
  case less
  show ?case
  proof (cases "pqueue_peek (us_q s)")
    case None
    then have "us_elems s = {#}" by (auto simp: pqueue_peek_def pq_elems_def split: if_splits)
    with None less.prems(1) show ?thesis by (subst service_loop.simps) simp
  next
    case (Some p)
    obtain q where q: "pqueue_extract (us_q s) = (Some p, q)"
      using peek_extract [OF Some] by (elim exE)
    note ex = us_q_extract [OF less.prems(1) Some q]
    have norm: "ts_norm (i_tmo (us_mem s p))" using less.prems(1) ex by (simp add: us_wf_def)
    show ?thesis
    proof (cases "timespec_compare now (i_tmo (us_mem s p)) > 0")
      case True
      then have "tns now < us_tmo s p" using timespec_compare_tns(1) [OF assms(2) norm] by simp
      then have "\<forall>x \<in># us_elems s. tns now < us_tmo s x"
        using ex by (metis (no_types, lifting) order.strict_trans2)
      with True Some less.prems(1) show ?thesis by (subst service_loop.simps) simp
    next
      case False
      then have due: "us_tmo s p \<le> tns now" using timespec_compare_tns(1) [OF assms(2) norm] by simp
      define r where "r = service_step master tx (clk k) fill s"
      note st = service_step_cases [OF less.prems(1) Some, of master tx "clk k" fill "fst r",
          OF r_def [symmetric, THEN arg_cong [of _ _ fst]]]
      have incr: "i_incr (us_mem (fst r) x) = i_incr (us_mem s x)" for x
        using st by (cases "x = p") auto
      have sub: "set_mset (us_elems (fst r)) \<subseteq> set_mset (us_elems s)"
        using st by (auto dest: in_diffD)
      have "lateness now (fst r) < lateness now s"
        using lateness_step [OF less.prems(1) Some due] less.prems(2) ex by (simp add: r_def)
      moreover have "us_wf (fst r)" using st by blast
      moreover have "0 < tns (i_incr (us_mem (fst r) x))" if "x \<in># us_elems (fst r)" for x
        using that sub incr [of x] less.prems(2) [of x] by auto
      ultimately have "\<exists>s' err' out'. service_loop master tx now clk fill (Suc k) (fst r) (err \<or> fst (snd r))
            (out @ snd (snd r)) = Some (s', err', out') \<and>
          us_wf s' \<and> set_mset (us_elems s') \<subseteq> set_mset (us_elems s) \<and>
          (\<forall>p \<in># us_elems s'. tns now < us_tmo s' p)"
        using less.hyps [of "fst r" "Suc k" "err \<or> fst (snd r)" "out @ snd (snd r)"] sub by blast
      moreover have "service_loop master tx now clk fill k s err out =
          service_loop master tx now clk fill (Suc k) (fst r) (err \<or> fst (snd r)) (out @ snd (snd r))"
        using Some False by (subst service_loop.simps) (simp add: r_def Let_def)
      ultimately show ?thesis by simp
    qed
  qed
qed

text \<open>With a zero increment the loop serves the same interval for ever, unless the port is a
  master and the clients expire.\<close>

definition us_stuck :: "tspec \<Rightarrow> nat \<Rightarrow> unicast_service \<Rightarrow> bool" where
  "us_stuck now p s \<longleftrightarrow> us_wf s \<and> us_elems s = {#p#} \<and> i_clients (us_mem s p) \<noteq> [] \<and>
     tns (i_incr (us_mem s p)) = 0 \<and> us_tmo s p \<le> tns now"

lemma stuck_peek:
  assumes "us_elems s = {#p#}" and "us_wf s"
  shows "pqueue_peek (us_q s) = Some p"
proof -
  have eq: "take (pq_len (us_queue s)) (pq_data (us_queue s)) = [p]"
    using assms(1) by (simp add: pq_elems_def)
  then have n: "0 < pq_len (us_queue s)" by (cases "pq_len (us_queue s)") simp_all
  have "pq_data (us_queue s) ! 0 = take (pq_len (us_queue s)) (pq_data (us_queue s)) ! 0"
    using n by simp
  then show ?thesis using n by (simp add: pqueue_peek_def eq)
qed

lemma stuck_step:
  assumes "us_stuck now p s"
  shows "us_stuck now p (fst (service_step False tx clk fill s))"
proof -
  have wf: "us_wf s" and "us_elems s = {#p#}" using assms by (simp_all add: us_stuck_def)
  from service_step_cases [OF wf stuck_peek [OF this(2) wf] refl, of False tx clk fill] this
  show ?thesis using assms by (auto simp: us_stuck_def)
qed

lemma service_loop_not_stuck:
  assumes ret: "service_loop master tx now clk fill k s err out = Some r"
  shows "\<not> (\<not> master \<and> ts_norm now \<and> us_stuck now p s)"
proof (rule service_loop.raw_induct
    [where P = "\<lambda>master tx now clk fill k s err out r.
       \<not> (\<not> master \<and> ts_norm now \<and> us_stuck now p s)", OF _ ret], rule notI, elim conjE)
  fix f master tx now clk fill k s err out r
  assume IH: "\<And>master tx now clk fill k s err out r. f master tx now clk fill k s err out = Some r \<Longrightarrow>
      \<not> (\<not> master \<and> ts_norm now \<and> us_stuck now p s)"
    and eq: "(case pqueue_peek (us_q s) of None \<Rightarrow> Some (s, err, out)
       | Some p \<Rightarrow> if timespec_compare now (i_tmo (us_mem s p)) > 0 then Some (s, err, out)
         else let r = service_step master tx (clk k) fill s
           in f master tx now clk fill (Suc k) (fst r) (err \<or> fst (snd r)) (out @ snd (snd r))) = Some r"
    and hyp: "\<not> master" "ts_norm now" "us_stuck now p s"
  have "pqueue_peek (us_q s) = Some p" and "ts_norm (i_tmo (us_mem s p))"
    using hyp(3) by (auto simp: us_stuck_def us_wf_def intro: stuck_peek)
  moreover from this have "\<not> timespec_compare now (i_tmo (us_mem s p)) > 0"
    using timespec_compare_tns(1) [OF hyp(2)] hyp(3) by (simp add: us_stuck_def)
  ultimately have "f master tx now clk fill (Suc k) (fst (service_step master tx (clk k) fill s))
      (err \<or> fst (snd (service_step master tx (clk k) fill s)))
      (out @ snd (snd (service_step master tx (clk k) fill s))) = Some r"
    using eq by (simp add: Let_def)
  from IH [OF this] hyp stuck_step [OF hyp(3)] show False by simp
qed

lemma service_loop_stuck:
  assumes "us_stuck now p s" and "ts_norm now"
  shows "service_loop False tx now clk fill k s err out = None"
  using assms service_loop_not_stuck [of False tx now clk fill k s err out _ p]
  by (cases "service_loop False tx now clk fill k s err out") auto

section \<open>The invariant of the whole service\<close>

text \<open>Besides the queue: the linked list and the queue hold the same intervals, each period
  within the accepted range occurs once, and each increment is the one of its period.\<close>

definition us_inv :: "unicast_service \<Rightarrow> bool" where
  "us_inv s \<longleftrightarrow> us_wf s \<and> distinct (us_list s) \<and> set (us_list s) = set_mset (us_elems s) \<and>
     inj_on (\<lambda>p. i_log_period (us_mem s p)) (set (us_list s)) \<and>
     (\<forall>p \<in> set (us_list s). \<bar>i_log_period (us_mem s p)\<bar> \<le> 30 \<and>
        i_incr (us_mem s p) = log_to_timespec (i_log_period (us_mem s p)))"

lemma us_rearm_simps [simp]:
  "us_mem (unicast_service_rearm_timer s) = us_mem s"
  "us_list (unicast_service_rearm_timer s) = us_list s"
  "us_queue (unicast_service_rearm_timer s) = us_queue s"
  "us_q (unicast_service_rearm_timer s) = us_q s"
  by (simp_all add: unicast_service_rearm_timer_def us_q_def)

lemma us_rearm_inv [simp]:
  "us_wf (unicast_service_rearm_timer s) = us_wf s" "us_inv (unicast_service_rearm_timer s) = us_inv s"
  by (simp_all add: us_wf_def us_inv_def)

text \<open>The timer is set to the earliest due time.\<close>

lemma us_rearm_earliest:
  assumes "us_wf s" and "p \<in># us_elems s"
  shows "tns (us_timer (unicast_service_rearm_timer s)) \<le> us_tmo s p"
proof -
  have len: "pq_len (us_q s) \<noteq> 0"
    using assms(2) by (cases "pq_len (us_queue s)") (auto simp: pq_elems_def us_q_def)
  obtain j where j: "j < pq_len (us_q s)" "p = pq_data (us_q s) ! j" "pq_len (us_q s) \<le> length (pq_data (us_q s))"
    using assms by (auto simp: pq_elems_def us_q_def us_wf_def pq_wf_def in_set_conv_nth)
  let ?r = "pq_data (us_q s) ! 0"
  have r: "?r \<in># us_elems s"
    using len j by (auto simp: pq_elems_def us_q_def in_set_conv_nth intro!: exI [of _ 0])
  have "compare_timeout (us_mem s) ?r p \<ge> 0"
    using tmo_order.heap_root [of "us_q s" "us_mem s"] assms(1) j by (simp add: us_wf_def us_q_def)
  then have "us_tmo s ?r \<le> us_tmo s p"
    using assms r timespec_compare_tns(2) by (simp add: us_wf_def compare_timeout_def)
  then show ?thesis using len by (simp add: unicast_service_rearm_timer_def pqueue_peek_def)
qed

lemma us_rearm_root:
  assumes "us_wf s"
  shows "if us_elems s = {#} then us_timer (unicast_service_rearm_timer s) = \<lparr>ts_sec = 0, ts_nsec = 0\<rparr>
    else \<exists>p \<in># us_elems s. us_timer (unicast_service_rearm_timer s) = i_tmo (us_mem s p)"
proof (cases "pq_len (us_q s) = 0")
  case True
  then show ?thesis by (simp add: unicast_service_rearm_timer_def pqueue_peek_def pq_elems_def us_q_def)
next
  case False
  moreover have "pq_len (us_q s) \<le> length (pq_data (us_q s))" using assms by (simp add: us_wf_def pq_wf_def)
  ultimately have "pq_data (us_q s) ! 0 \<in># us_elems s" by (auto simp: pq_elems_def us_q_def in_set_conv_nth intro!: exI [of _ 0])
  then show ?thesis using False by (auto simp: unicast_service_rearm_timer_def pqueue_peek_def)
qed

definition clients_only :: "memory \<Rightarrow> memory \<Rightarrow> bool" where
  "clients_only m m' \<longleftrightarrow> (\<forall>p. \<exists>cs. m' p = (m p)\<lparr>i_clients := cs\<rparr>)"

lemma clients_only_fields:
  assumes "clients_only m m'"
  shows "i_tmo (m' p) = i_tmo (m p)" "i_incr (m' p) = i_incr (m p)"
    "i_log_period (m' p) = i_log_period (m p)"
proof -
  obtain cs where "m' p = (m p)\<lparr>i_clients := cs\<rparr>" using assms unfolding clients_only_def by blast
  then show "i_tmo (m' p) = i_tmo (m p)" "i_incr (m' p) = i_incr (m p)"
    "i_log_period (m' p) = i_log_period (m p)" by simp_all
qed

lemma clients_only_refl [simp]: "clients_only m m"
proof -
  have "m p = (m p)\<lparr>i_clients := i_clients (m p)\<rparr>" for p by simp
  then show ?thesis unfolding clients_only_def by blast
qed

lemma clients_only_upd:
  assumes "clients_only m m'"
  shows "clients_only m (m'(p := (m' p)\<lparr>i_clients := cs\<rparr>))"
  unfolding clients_only_def
proof
  fix q
  obtain ds where "m' q = (m q)\<lparr>i_clients := ds\<rparr>" using assms unfolding clients_only_def by blast
  then show "\<exists>cs'. (m'(p := (m' p)\<lparr>i_clients := cs\<rparr>)) q = (m q)\<lparr>i_clients := cs'\<rparr>"
    by (cases "q = p") auto
qed

lemma update_client_clients_only:
  "clients_only m m' \<Longrightarrow> clients_only m (update_client m' loc f)"
  by (simp add: update_client_def Let_def clients_only_upd)

lemma us_inv_clients_only:
  assumes "us_inv s" and "clients_only (us_mem s) m'"
  shows "us_inv (s\<lparr>us_mem := m'\<rparr>)"
proof -
  note f = clients_only_fields [OF assms(2)]
  have "pq_heap (us_q (s\<lparr>us_mem := m'\<rparr>))"
    using assms(1) f us_heap_cong [where q = "us_queue s" and m = "us_mem s" and m' = m']
    by (simp add: us_inv_def us_wf_def us_q_def)
  then have "us_wf (s\<lparr>us_mem := m'\<rparr>)"
    using conjunct1 [OF assms(1) [unfolded us_inv_def]] f(1,2) unfolding us_wf_def by simp
  with assms(1) f(2,3) show ?thesis
    by (simp add: us_inv_def inj_on_def)
qed

lemma add_scan_correct:
  assumes "add_scan ty a msk per m ps iv cl = (m', r)"
  shows "clients_only m m' \<and>
    (\<forall>cl'. r = Inr (None, cl') \<longrightarrow> iv = None \<and> (\<forall>p \<in> set ps. i_log_period (m p) \<noteq> per))"
  using assms
proof (induction ps arbitrary: m iv cl)
  case (Cons p ps)
  let ?iv = "if i_log_period (m p) = per then Some p else iv"
  show ?case
  proof (cases "?iv = Some p")
    case True
    show ?thesis
    proof (cases "scan_interval ty a msk 0 None (i_clients (m p))")
      case (Unchanged i)
      with Cons.prems True show ?thesis by (auto simp: Let_def)
    next
      case (Candidate c)
      with Cons.prems True
      have "add_scan ty a msk per m ps (Some p) (case c of Some i \<Rightarrow> Some (p, i) | None \<Rightarrow> cl) = (m', r)"
        by (simp add: Let_def)
      from Cons.IH [OF this] show ?thesis by simp
    qed
  next
    case False
    let ?m = "m(p := (m p)\<lparr>i_clients := clear_stale ty a msk (i_clients (m p))\<rparr>)"
    have m: "clients_only m ?m" by (simp add: clients_only_upd)
    from Cons.prems False have "add_scan ty a msk per ?m ps ?iv cl = (m', r)"
      by (simp add: Let_def)
    from Cons.IH [OF this]
    have IH: "clients_only ?m m'"
      "\<forall>cl'. r = Inr (None, cl') \<longrightarrow> ?iv = None \<and> (\<forall>q \<in> set ps. i_log_period (?m q) \<noteq> per)"
      by blast+
    have "clients_only m m'"
      using IH(1) m unfolding clients_only_def by (metis unicast_service_interval.update_convs(1)
          unicast_service_interval.surjective)
    with IH(2) clients_only_fields(3) [OF m] show ?thesis by (auto split: if_splits)
  qed
qed auto

lemma us_inv_new_interval:
  assumes inv: "us_inv s" and fresh: "p \<notin> set (us_list s)" and per: "\<bar>per\<bar> \<le> 30"
    and new: "\<forall>q \<in> set (us_list s). i_log_period (us_mem s q) \<noteq> per"
    and now: "0 \<le> ts_nsec now" and iv: "iv = initialize_interval now per"
    and s2: "s2 = s\<lparr>us_mem := (us_mem s)(p := iv), us_list := p # us_list s\<rparr>"
    and ins: "pqueue_insert mem fill (us_q s2) p = (None, q)"
  shows "us_inv (s2\<lparr>us_queue := q\<rparr>)"
proof -
  have el: "set_mset (us_elems s) = set (us_list s)" using inv by (simp add: us_inv_def)
  have "pq_heap (us_q s2)"
    unfolding s2 us_q_def unicast_service.simps
    by (rule us_heap_cong [where m = "us_mem s"])
      (use inv fresh el in \<open>auto simp: us_inv_def us_wf_def us_q_def\<close>)
  moreover have "pq_wf (us_q s2)" using inv by (simp add: us_inv_def us_wf_def s2)
  ultimately have q: "pq_wf q" "pq_heap q" "pq_cmp q = compare_timeout (us_mem s2)"
    "pq_elems q = add_mset p (us_elems s)"
    using tmo_order.insert_correct [of "us_q s2" "us_mem s2" mem fill p q] ins by (simp_all add: s2)
  have usq: "us_q (s2\<lparr>us_queue := q\<rparr>) = q"
    using q(3) by (simp add: us_q_def pq_cmp_update_id)
  have norm: "ts_norm (i_tmo iv)" "ts_norm (i_incr iv)" "i_log_period iv = per"
    "i_incr iv = log_to_timespec per"
    using now per timespec_normalize_correct [of "now\<lparr>ts_nsec := ts_nsec now + 10000000\<rparr>"]
    by (auto simp: iv initialize_interval_def intro!: log_to_timespec_norm)
  have cnt: "count (us_elems s) x \<le> 1" for x using inv unfolding us_inv_def us_wf_def by blast
  have "count (us_elems s) p = 0" using fresh el by (simp add: count_eq_zero_iff)
  with cnt have cnt': "count (pq_elems q) x \<le> 1" for x by (cases "x = p") (simp_all add: q(4))
  have "us_wf (s2\<lparr>us_queue := q\<rparr>)"
    unfolding us_wf_def usq using q cnt' inv norm fresh el
    by (auto simp: s2 us_inv_def us_wf_def)
  with inv fresh new per norm q(4) show ?thesis
    by (auto simp: us_inv_def s2 inj_on_def)
qed

lemma add_finish_inv:
  assumes inv: "us_inv s" and co: "clients_only (us_mem s) m" and nsec: "0 \<le> ts_nsec (ae_now_tmo env)"
    and fresh: "\<And>p. ae_interval env = Some p \<Longrightarrow> p \<notin> set (us_list s)"
    and per: "\<bar>rq_logInterMessagePeriod req\<bar> \<le> 30"
    and new: "\<And>cl. r = Inr (None, cl) \<Longrightarrow>
      \<forall>p \<in> set (us_list s). i_log_period (us_mem s p) \<noteq> rq_logInterMessagePeriod req"
  shows "us_inv (snd (add_finish env src a req msk s m r))"
proof -
  have upd: "us_inv (s\<lparr>us_mem := m'\<rparr>)" if "clients_only (us_mem s) m'" for m'
    using inv that by (rule us_inv_clients_only)
  consider (unchanged) loc where "r = Inl loc" | (client) iv loc where "r = Inr (iv, Some loc)"
    | (interval) p where "r = Inr (Some p, None)" | (fresh) "r = Inr (None, None)"
    by (metis option.exhaust prod.exhaust sum.exhaust)
  then show ?thesis
  proof cases
    case unchanged
    then show ?thesis using upd update_client_clients_only [OF co] by (simp add: add_finish_def)
  next
    case client
    then show ?thesis using upd update_client_clients_only [OF co] by (simp add: add_finish_def)
  next
    case interval
    then show ?thesis
      using upd [OF co] upd [OF clients_only_upd [OF co]] by (simp add: add_finish_def Let_def)
  next
    case r: fresh
    show ?thesis
    proof (cases "ae_client_ok env \<and> ae_interval env \<noteq> None")
      case True
      then obtain p where p: "ae_interval env = Some p" by blast
      let ?per = "rq_logInterMessagePeriod req"
      define s1 where "s1 = s\<lparr>us_mem := m\<rparr>"
      define s2 where "s2 = s1\<lparr>us_mem := m(p := initialize_interval (ae_now_tmo env) ?per),
         us_list := p # us_list s1\<rparr>"
      have inv1: "us_inv s1" unfolding s1_def using co by (rule upd)
      obtain e q where ins: "pqueue_insert (ae_queue_ok env) (ae_fill env) (us_q s2) p = (e, q)"
        by fastforce
      have fin: "snd (add_finish env src a req msk s m r) =
          (if e = None then (unicast_service_rearm_timer (s2\<lparr>us_queue := q\<rparr>))
             \<lparr>us_mem := (us_mem s2)(p := (us_mem s2 p)
             \<lparr>i_clients := unicast_service_extend (ae_now env)
                \<lparr>c_portIdentity = src, c_seq_announce = 0, c_seq_sync = 0,
                 c_message_types = msk, c_addr = a, c_grant_tmo = 0\<rparr> req # i_clients (us_mem s2 p)\<rparr>)\<rparr>
           else s1)"
        using True r p ins by (auto simp: add_finish_def Let_def s1_def s2_def split: option.splits)
      have s2_inv: "us_inv (s2\<lparr>us_queue := q\<rparr>)" if "e = None"
      proof (rule us_inv_new_interval [OF inv1])
        show "\<forall>q \<in> set (us_list s1). i_log_period (us_mem s1 q) \<noteq> ?per"
          using new [OF r] clients_only_fields(3) [OF co] by (simp add: s1_def)
        show "s2 = s1\<lparr>us_mem := (us_mem s1)(p := initialize_interval (ae_now_tmo env) ?per),
            us_list := p # us_list s1\<rparr>" by (simp add: s2_def s1_def)
        show "pqueue_insert (ae_queue_ok env) (ae_fill env) (us_q s2) p = (None, q)"
          using ins that by simp
      qed (use fresh [OF p] per nsec in \<open>simp_all add: s1_def\<close>)
      have "us_inv (unicast_service_rearm_timer (s2\<lparr>us_queue := q\<rparr>))" if "e = None"
        using s2_inv [OF that] by simp
      from fin inv1 us_inv_clients_only [OF this clients_only_upd [OF clients_only_refl]]
      show ?thesis by (simp split: if_splits)
    qed (use r upd [OF co] in \<open>auto simp: add_finish_def Let_def\<close>)
  qed
qed

lemma unicast_service_add_us_inv:
  assumes "us_inv s" and "0 \<le> ts_nsec (ae_now_tmo env)"
    and "\<And>p. ae_interval env = Some p \<Longrightarrow> p \<notin> set (us_list s)"
    and "unicast_service_add env ty src a req (Some s) = (res, Some s')"
  shows "us_inv s'"
proof -
  define msk where "msk = type_mask (drop_bit 4 (rq_message_type req))"
  obtain m r where scan: "add_scan ty a msk (rq_logInterMessagePeriod req) (us_mem s) (us_list s)
      None None = (m, r)" by fastforce
  note sc = add_scan_correct [OF scan]
  have "s' = s \<or> \<bar>rq_logInterMessagePeriod req\<bar> \<le> 30 \<and> s' = snd (add_finish env src a req msk s m r)"
    using assms(4) scan
    by (auto simp: unicast_service_add_def Let_def msk_def split: if_splits prod.splits)
  then show ?thesis
    using assms(1-3) sc add_finish_inv [of s m env req r src a msk] by blast
qed

section \<open>Properties\<close>

text \<open>C35. The priority queue of unicast intervals is correct: from a well-formed heap,
  \<open>pqueue_extract\<close> returns an interval whose due time is not after that of any other, removes
  exactly that one, and leaves a well-formed heap; \<open>pqueue_insert\<close> adds exactly its argument
  and also keeps the heap, growing the array when it is full.\<close>

theorem unicast_pqueue_correct:
  assumes "pq_wf q" and "pq_heap q" and "pq_cmp q = compare_timeout m"
  shows "(\<forall>x q'. pqueue_extract q = (Some x, q') \<longrightarrow>
      pq_wf q' \<and> pq_heap q' \<and> x \<in># pq_elems q \<and> pq_elems q' = pq_elems q - {#x#} \<and>
      (\<forall>y \<in># pq_elems q. timespec_compare (i_tmo (m x)) (i_tmo (m y)) \<ge> 0)) \<and>
    (\<forall>mem fill d q'. pqueue_insert mem fill q d = (None, q') \<longrightarrow>
      pq_wf q' \<and> pq_heap q' \<and> pq_elems q' = add_mset d (pq_elems q))"
  using tmo_order.extract_correct [OF assms] tmo_order.insert_correct [OF assms]
  by (simp add: compare_timeout_def)

text \<open>Three intervals in a queue of two slots, the second due first.\<close>

definition demo_mem :: memory where
  "demo_mem p = \<lparr>i_clients = [], i_incr = \<lparr>ts_sec = 1, ts_nsec = 0\<rparr>,
     i_tmo = \<lparr>ts_sec = (if p = 2 then 1 else 5), ts_nsec = int p\<rparr>, i_log_period = 0\<rparr>"

definition demo_q :: "nat pqueue" where
  "demo_q = \<lparr>pq_len = 2, pq_max = 2, pq_cmp = compare_timeout demo_mem, pq_data = [2, 1]\<rparr>"

theorem unicast_pqueue_correct_witness:
  "pqueue_extract demo_q = (Some 2, demo_q\<lparr>pq_len := 1, pq_data := [1, 1]\<rparr>) \<and>
   pq_elems (demo_q\<lparr>pq_len := 1, pq_data := [1, 1]\<rparr>) = pq_elems demo_q - {#2#}"
proof -
  have wf: "pq_wf demo_q" by (simp add: demo_q_def pq_wf_def)
  have heap: "pq_heap demo_q"
    by (auto simp: demo_q_def demo_mem_def pq_heap_def parent_def compare_timeout_def
        timespec_compare_def less_Suc_eq numeral_2_eq_2)
  have ex: "pqueue_extract demo_q = (Some 2, demo_q\<lparr>pq_len := 1, pq_data := [1, 1]\<rparr>)"
    by (simp add: demo_q_def pqueue_extract_def Let_def heapify.simps heapify_max_def left_def right_def)
  show ?thesis
    using unicast_pqueue_correct [OF wf heap, of demo_mem] ex by (simp add: demo_q_def)
qed

text \<open>A freshly initialised service and a request for announce messages, for the examples.\<close>

definition demo_service :: unicast_service where
  "demo_service = \<lparr>us_mem = demo_mem, us_list = [],
     us_queue = \<lparr>pq_len = 0, pq_max = 16, pq_cmp = compare_timeout demo_mem,
                 pq_data = replicate 16 0\<rparr>, us_timer = \<lparr>ts_sec = 0, ts_nsec = 0\<rparr>\<rparr>"

definition demo_env :: add_env where
  "demo_env = \<lparr>ae_now = Some \<lparr>ts_sec = 100, ts_nsec = 0\<rparr>, ae_now_tmo = \<lparr>ts_sec = 100, ts_nsec = 0\<rparr>,
     ae_client_ok = True, ae_interval = Some 7, ae_queue_ok = True, ae_fill = 0\<rparr>"

definition demo_req :: "int \<Rightarrow> request_unicast_xmit" where
  "demo_req per = \<lparr>rq_message_type = 0xB0, rq_logInterMessagePeriod = per, rq_durationField = 300\<rparr>"

definition demo_pid :: PortIdentity where
  "demo_pid = \<lparr>clockIdentity = replicate 8 1, portNumber = 1\<rparr>"

definition demo_addr :: address where
  "demo_addr = \<lparr>addr_len = 16, addr_ss = replicate 128 0\<rparr>"

lemma demo_service_inv: "us_inv demo_service"
  by (simp add: us_inv_def us_wf_def demo_service_def pq_wf_def pq_heap_def us_q_def pq_elems_def)

lemma demo_initialized:
  "unicast_service_initialize True True True True True 0 demo_mem = (0, Some demo_service)"
  by (simp add: unicast_service_initialize_def pqueue_create_def demo_service_def)

text \<open>C36. The service invariant survives a request: starting from a consistent service, whatever
  the request, the clock readings and the allocation results, \<open>unicast_service_add\<close> leaves a
  consistent service (queue and list hold the same intervals, the heap is ordered by due time,
  each accepted period occurs once with its own increment).\<close>

theorem unicast_service_add_invariant:
  assumes "us_inv s" and "0 \<le> ts_nsec (ae_now_tmo env)"
    and "\<And>p. ae_interval env = Some p \<Longrightarrow> p \<notin> set (us_list s)"
    and "unicast_service_add env ty src a req (Some s) = (res, Some s')"
  shows "us_inv s'"
  using assms by (rule unicast_service_add_us_inv)

theorem unicast_service_add_invariant_witness:
  "\<exists>s'. unicast_service_add demo_env TRANS_UDP_IPV4 demo_pid demo_addr (demo_req 1)
       (Some demo_service) = (SERVICE_GRANTED, Some s') \<and> us_inv s'"
proof -
  obtain res s' where add: "unicast_service_add demo_env TRANS_UDP_IPV4 demo_pid demo_addr (demo_req 1)
      (Some demo_service) = (res, Some s')" and res: "res = SERVICE_GRANTED"
    by (simp add: unicast_service_add_def demo_req_def Let_def demo_service_def add_finish_def
        demo_env_def pqueue_insert_def us_q_def)
  have "us_inv s'"
    by (rule unicast_service_add_invariant [OF demo_service_inv _ _ add])
      (simp_all add: demo_env_def demo_service_def)
  with add res show ?thesis by blast
qed

text \<open>C37. The unicast timer returns and leaves nothing overdue: if every interval in service has
  a period of at least \<open>2^-29\<close> seconds, then, whatever the clients, the clock readings and the
  transmission results, \<open>unicast_service_timer\<close> terminates, keeps the queue well formed, every
  interval still queued is due strictly after the time at which the timer ran, and the timer is
  stopped when no interval is left, and set to the due time of an interval that is due first otherwise.\<close>

theorem unicast_service_timer_returns:
  assumes "us_inv s" and "ts_norm now"
    and "\<And>p. p \<in> set (us_list s) \<Longrightarrow> -29 \<le> i_log_period (us_mem s p)"
  shows "\<exists>s' err out. unicast_service_timer tfd state tx now clk fill (Some s) = Some (Some s', err, out) \<and>
     us_wf s' \<and> (\<forall>p \<in># us_elems s'. tns now < us_tmo s' p) \<and>
     (if us_elems s' = {#} then us_timer s' = \<lparr>ts_sec = 0, ts_nsec = 0\<rparr>
      else \<exists>p \<in># us_elems s'. us_timer s' = i_tmo (us_mem s' p) \<and> (\<forall>q \<in># us_elems s'. us_tmo s' p \<le> us_tmo s' q))"
proof -
  have "0 < tns (i_incr (us_mem s p))" if "p \<in># us_elems s" for p
    using that assms(1) assms(3) [of p] log_to_timespec_pos [of "i_log_period (us_mem s p)"]
    by (auto simp: us_inv_def abs_le_iff)
  moreover have "us_wf s" using assms(1) by (simp add: us_inv_def)
  ultimately obtain s' err out where
    "service_loop (state = PS_MASTER \<or> state = PS_GRAND_MASTER) tx now clk fill 0 s False [] =
       Some (s', err, out) \<and> us_wf s' \<and> (\<forall>p \<in># us_elems s'. tns now < us_tmo s' p)"
    using service_loop_returns [of s now "state = PS_MASTER \<or> state = PS_GRAND_MASTER" tx clk fill 0
        False "[]"] assms(2) by blast
  moreover from this have "if us_elems s' = {#} then us_timer (unicast_service_rearm_timer s') = \<lparr>ts_sec = 0, ts_nsec = 0\<rparr>
      else \<exists>p \<in># us_elems s'. us_timer (unicast_service_rearm_timer s') = i_tmo (us_mem s' p) \<and> (\<forall>q \<in># us_elems s'. us_tmo s' p \<le> us_tmo s' q)"
    using us_rearm_root [of s'] us_rearm_earliest [of s'] by (auto split: if_splits)
  ultimately show ?thesis by (simp add: unicast_service_timer_def)
qed

text \<open>A master serves an interval of two seconds with one client: the message is sent, and the timer is set again.\<close>

lemma demo_granted:
  "\<exists>s c. unicast_service_add demo_env TRANS_UDP_IPV4 demo_pid demo_addr (demo_req 1) (Some demo_service) = (SERVICE_GRANTED, Some s) \<and>
     us_list s = [7] \<and> pq_len (us_queue s) = 1 \<and> pq_max (us_queue s) = 16 \<and> pq_data (us_queue s) = (replicate 16 0)[0 := 7] \<and>
     us_mem s 7 = \<lparr>i_clients = [c], i_incr = \<lparr>ts_sec = 2, ts_nsec = 0\<rparr>, i_tmo = \<lparr>ts_sec = 100, ts_nsec = 10000000\<rparr>, i_log_period = 1\<rparr> \<and>
     c_message_types c = type_mask ANNOUNCE \<and> 101 \<le> c_grant_tmo c"
proof -
  have n: "timespec_normalize \<lparr>ts_sec = 100, ts_nsec = 10000000\<rparr> = \<lparr>ts_sec = 100, ts_nsec = 10000000\<rparr>"
    by (simp add: timespec_normalize.simps)
  have l: "log_to_timespec 1 = \<lparr>ts_sec = 2, ts_nsec = 0\<rparr>" by (simp add: log_to_timespec_def)
  show ?thesis
    by (simp add: unicast_service_add_def demo_req_def Let_def demo_service_def add_finish_def demo_env_def pqueue_insert_def us_q_def
        initialize_interval_def unicast_service_rearm_timer_def n l insert_loop.simps unicast_service_extend_def)
qed

lemma demo_served:
  assumes "pq_len (us_queue s) = 1" "pq_max (us_queue s) = 16" "pq_data (us_queue s) = (replicate 16 0)[0 := 7]"
    and "us_mem s 7 = \<lparr>i_clients = [c], i_incr = \<lparr>ts_sec = 2, ts_nsec = 0\<rparr>, i_tmo = \<lparr>ts_sec = 100, ts_nsec = 10000000\<rparr>, i_log_period = 1\<rparr>"
    and "c_message_types c = type_mask ANNOUNCE" "101 \<le> c_grant_tmo c"
  shows "\<exists>s' err out. service_loop True (\<lambda>_. False) \<lparr>ts_sec = 101, ts_nsec = 0\<rparr> (\<lambda>_. Some \<lparr>ts_sec = 101, ts_nsec = 0\<rparr>) 0 0 s False [] =
      Some (s', err, out) \<and> length out = 1 \<and> us_elems s' = {#7#} \<and> i_tmo (us_mem s' 7) = \<lparr>ts_sec = 102, ts_nsec = 10000000\<rparr>"
proof -
  have n: "timespec_normalize \<lparr>ts_sec = 102, ts_nsec = 10000000\<rparr> = \<lparr>ts_sec = 102, ts_nsec = 10000000\<rparr>"
    by (simp add: timespec_normalize.simps)
  have m: "type_mask ANNOUNCE \<noteq> 0" "take (Suc 0) ((replicate 16 (0 :: nat))[0 := 7]) = [7]" "type_mask ANNOUNCE AND type_mask SYNC = 0"
    by (simp add: type_mask_def, simp add: eval_nat_numeral, simp add: type_mask_def)
  show ?thesis
    using assms
    by (subst service_loop.simps, subst service_loop.simps)
      (simp add: pqueue_peek_def us_q_def timespec_compare_def service_step_def pqueue_extract_def Let_def heapify.simps heapify_max_def
        left_def right_def unicast_service_clients_def m interval_increment_def n pqueue_insert_def insert_loop.simps pq_elems_def, blast)
qed

theorem unicast_service_timer_returns_witness:
  "\<exists>s1 s2 err out. unicast_service_add demo_env TRANS_UDP_IPV4 demo_pid demo_addr (demo_req 1) (Some demo_service) = (SERVICE_GRANTED, Some s1) \<and>
     unicast_service_timer False PS_MASTER (\<lambda>_. False) \<lparr>ts_sec = 101, ts_nsec = 0\<rparr> (\<lambda>_. Some \<lparr>ts_sec = 101, ts_nsec = 0\<rparr>) 0 (Some s1) =
       Some (Some s2, err, out) \<and> length out = 1 \<and> us_elems s2 = {#7#} \<and> us_timer s2 = \<lparr>ts_sec = 102, ts_nsec = 10000000\<rparr>"
proof -
  let ?now = "\<lparr>ts_sec = 101, ts_nsec = 0\<rparr>" and ?clk = "\<lambda>_. Some \<lparr>ts_sec = 101, ts_nsec = 0\<rparr>"
  obtain s1 c where s1: "unicast_service_add demo_env TRANS_UDP_IPV4 demo_pid demo_addr (demo_req 1) (Some demo_service) = (SERVICE_GRANTED, Some s1)"
      "us_list s1 = [7]" "pq_len (us_queue s1) = 1" "pq_max (us_queue s1) = 16" "pq_data (us_queue s1) = (replicate 16 0)[0 := 7]"
      "us_mem s1 7 = \<lparr>i_clients = [c], i_incr = \<lparr>ts_sec = 2, ts_nsec = 0\<rparr>, i_tmo = \<lparr>ts_sec = 100, ts_nsec = 10000000\<rparr>, i_log_period = 1\<rparr>"
      "c_message_types c = type_mask ANNOUNCE" "101 \<le> c_grant_tmo c"
    using demo_granted by blast
  have inv: "us_inv s1"
    by (rule unicast_service_add_us_inv [OF demo_service_inv _ _ s1(1)]) (simp_all add: demo_env_def demo_service_def)
  obtain s' err out where l: "service_loop True (\<lambda>_. False) ?now ?clk 0 0 s1 False [] = Some (s', err, out)" "length out = 1"
      "us_elems s' = {#7#}" "i_tmo (us_mem s' 7) = \<lparr>ts_sec = 102, ts_nsec = 10000000\<rparr>"
    using demo_served [OF s1(3-8)] by blast
  obtain s2 err2 out2 where t: "unicast_service_timer False PS_MASTER (\<lambda>_. False) ?now ?clk 0 (Some s1) = Some (Some s2, err2, out2)"
      "if us_elems s2 = {#} then us_timer s2 = \<lparr>ts_sec = 0, ts_nsec = 0\<rparr>
       else \<exists>p \<in># us_elems s2. us_timer s2 = i_tmo (us_mem s2 p) \<and> (\<forall>q \<in># us_elems s2. us_tmo s2 p \<le> us_tmo s2 q)"
    using unicast_service_timer_returns [OF inv, of ?now False PS_MASTER "\<lambda>_. False" ?clk 0] s1(2,6) by (auto simp: ts_norm_def)
  then show ?thesis using s1(1) l by (auto simp: unicast_service_timer_def)
qed

text \<open>C38. A period of \<open>2^-30\<close> seconds, which \<open>unicast_service_add\<close> accepts, has the increment
  zero, and then the timer of a port that is not a master never returns: on a service that
  serves one such interval with a client, once the interval is due the loop of
  \<open>unicast_service_timer\<close> extracts and inserts it for ever.\<close>

theorem unicast_service_timer_hangs:
  assumes "us_inv s" and "us_list s = [p]" and "i_log_period (us_mem s p) = -30"
    and "i_clients (us_mem s p) \<noteq> []" and "us_tmo s p \<le> tns now" and "ts_norm now"
    and "state \<notin> {PS_MASTER, PS_GRAND_MASTER}"
  shows "unicast_service_timer tfd state tx now clk fill (Some s) = None"
proof -
  have wf: "us_wf s" and set: "set_mset (us_elems s) = {p}"
    and incr: "i_incr (us_mem s p) = log_to_timespec (-30)"
    using assms(1-3) by (simp_all add: us_inv_def)
  have "count (us_elems s) p \<le> 1" using wf unfolding us_wf_def by blast
  moreover obtain E where E: "us_elems s = add_mset p E" using set by (metis insertI1 mset_add)
  ultimately have "p \<notin># E" by (simp add: not_in_iff)
  with set E have elems: "us_elems s = {#p#}" by (metis add_mset_eq_single insert_iff set_mset_eq_empty_iff set_mset_add_mset_insert all_not_in_conv singletonD)
  have "tns (i_incr (us_mem s p)) = 0" by (simp add: incr log_to_timespec_def tns_def)
  then have "us_stuck now p s" using wf elems assms(4,5) by (simp add: us_stuck_def)
  from service_loop_stuck [OF this assms(6)] assms(7) show ?thesis
    by (simp add: unicast_service_timer_def)
qed

theorem unicast_service_timer_hangs_witness:
  "\<exists>s'. unicast_service_add demo_env TRANS_UDP_IPV4 demo_pid demo_addr (demo_req (-30))
       (Some demo_service) = (SERVICE_GRANTED, Some s') \<and>
     unicast_service_timer False PS_SLAVE (\<lambda>_. False) \<lparr>ts_sec = 200, ts_nsec = 0\<rparr> (\<lambda>_. None) 0 (Some s') = None"
proof -
  obtain res s' where add: "unicast_service_add demo_env TRANS_UDP_IPV4 demo_pid demo_addr
      (demo_req (-30)) (Some demo_service) = (res, Some s')" and res: "res = SERVICE_GRANTED"
    and s': "us_list s' = [7]" "i_log_period (us_mem s' 7) = -30" "i_clients (us_mem s' 7) \<noteq> []"
      "i_tmo (us_mem s' 7) = timespec_normalize \<lparr>ts_sec = 100, ts_nsec = 10000000\<rparr>"
    by (simp add: unicast_service_add_def demo_req_def Let_def demo_service_def add_finish_def
        demo_env_def pqueue_insert_def us_q_def initialize_interval_def)
  have inv: "us_inv s'"
    by (rule unicast_service_add_us_inv [OF demo_service_inv _ _ add])
      (simp_all add: demo_env_def demo_service_def)
  have tmo: "us_tmo s' 7 \<le> tns \<lparr>ts_sec = 200, ts_nsec = 0\<rparr>"
    by (simp add: s'(4) timespec_normalize_correct) (simp add: tns_def)
  have "unicast_service_timer False PS_SLAVE (\<lambda>_. False) \<lparr>ts_sec = 200, ts_nsec = 0\<rparr> (\<lambda>_. None) 0 (Some s') = None"
    by (rule unicast_service_timer_hangs [OF inv s'(1,2,3) tmo]) (simp_all add: ts_norm_def)
  with add res show ?thesis by blast
qed

end
