(* ===== verification/Port_Types.thy ===== *)
theory Port_Types
  imports Tsproc Unicast_Service
begin

text \<open>
  The data of a port (\<open>port_private.h\<close>, \<open>foreign.h\<close>, \<open>mtab.h\<close>, \<open>fault.h\<close>, \<open>fd.h\<close>, \<open>dm.h\<close>) and the
  world around it.

  A message is seen by value (\<open>pmsg\<close>): the fields of its header and body in host byte order and its
  TLVs decoded. The octets, and their conversion by \<open>msg_post_recv\<close> and \<open>msg_pre_send\<close>, are the
  subject of the theories \<open>Tlv\<close> and \<open>Msg\<close>; conversion and back is the identity there, so a field
  that \<open>port.c\<close> reads with \<open>ntohs\<close> from a message it has sent is the field itself here. Reference
  counts (\<open>msg_get\<close>, \<open>msg_put\<close>) do not show in a model by value.

  Everything outside the modelled code (the clock, whose sources are not in the tree, the sockets, the
  timers of the kernel) is reached through calls. A port keeps the log of its calls, and what
  a call returns is an arbitrary function of the log up to and including that call: the environment
  \<open>env\<close> is a parameter of every operation, and every theorem holds for all of them.
\<close>

section \<open>Enumerations\<close>

datatype timestamp_type = TS_SOFTWARE | TS_HARDWARE | TS_LEGACY_HW | TS_ONESTEP | TS_P2P1STEP

datatype transport_event = TRANS_GENERAL | TRANS_EVENT | TRANS_ONESTEP | TRANS_P2P1STEP | TRANS_DEFER_EVENT

datatype as_capable = NOT_CAPABLE | AS_CAPABLE | ALWAYS_CAPABLE

datatype fault_type = FT_UNSPECIFIED | FT_BAD_PEER_NETWORK | FT_SWITCH_PHC

datatype fault_tmo_type = FTMO_LINEAR_SECONDS | FTMO_LOG2_SECONDS | FTMO_CNT

datatype delay_mechanism = DM_AUTO | DM_E2E | DM_P2P | DM_COMMON_P2P | DM_NO_MECHANISM

datatype syfu_state = SF_EMPTY | SF_HAVE_SYNC | SF_HAVE_FUP

datatype syfu_event = SYNC_MISMATCH | SYNC_MATCH | FUP_MISMATCH | FUP_MATCH

datatype servo_state = SERVO_UNLOCKED | SERVO_JUMP | SERVO_LOCKED | SERVO_LOCKED_STABLE

datatype notification = NOTIFY_PORT_STATE | NOTIFY_TIME_SYNC | NOTIFY_PARENT_DATA_SET | NOTIFY_CMLDS

datatype bmca_select = BMCA_PTP | BMCA_NOOP

datatype clock_type = CLOCK_TYPE_ORDINARY | CLOCK_TYPE_BOUNDARY | CLOCK_TYPE_P2P | CLOCK_TYPE_E2E
  | CLOCK_TYPE_MANAGEMENT

datatype fd_index = FD_EVENT | FD_GENERAL | FD_DELAY_TIMER | FD_ANNOUNCE_TIMER | FD_SYNC_RX_TIMER
  | FD_QUALIFICATION_TIMER | FD_MANNO_TIMER | FD_SYNC_TX_TIMER | FD_UNICAST_REQ_TIMER
  | FD_UNICAST_SRV_TIMER | FD_CMLDS | FD_RTNL
  | FD_FAULT \<comment> \<open>\<open>fault_fd\<close>, which is not in the array\<close>

abbreviation "LINK_DOWN \<equiv> 1 :: u8"
abbreviation "LINK_UP \<equiv> 2 :: u8"
abbreviation "LINK_STATE_CHANGED \<equiv> 8 :: u8"
abbreviation "TS_LABEL_CHANGED \<equiv> 16 :: u8"

abbreviation "TS_IEEE_8021AS \<equiv> 0x10 :: u8"
abbreviation "TS_CMLDS \<equiv> 0x20 :: u8"
abbreviation "FLAG_TWO_STEP \<equiv> 2 :: u8"
abbreviation "FLAG_UNICAST \<equiv> 4 :: u8"
abbreviation "FRI_ASAP \<equiv> -128 :: int"
abbreviation "FOREIGN_MASTER_THRESHOLD \<equiv> 2 :: nat"
abbreviation "SIGNAL_NO_CHANGE \<equiv> -128 :: int"
abbreviation "SIGNAL_SET_INITIAL \<equiv> 126 :: int"

section \<open>Messages by value\<close>

record ClockQuality =
  clockClass :: u8
  clockAccuracy :: u8
  offsetScaledLogVariance :: u16

record dataset =
  ds_priority1 :: u8
  ds_identity :: ClockIdentity
  ds_quality :: ClockQuality
  ds_priority2 :: u8
  ds_localPriority :: u8
  ds_stepsRemoved :: u16
  ds_sender :: PortIdentity
  ds_receiver :: PortIdentity

record timePropertiesDS =
  tp_currentUtcOffset :: int
  tp_flags :: u8
  tp_timeSource :: u8

record announce_body =
  an_currentUtcOffset :: int
  an_grandmasterPriority1 :: u8
  an_grandmasterClockQuality :: ClockQuality
  an_grandmasterPriority2 :: u8
  an_grandmasterIdentity :: ClockIdentity
  an_stepsRemoved :: u16
  an_timeSource :: u8

record PortServiceStats =
  st_announce_timeout :: u64
  st_sync_timeout :: u64
  st_delay_timeout :: u64
  st_unicast_service_timeout :: u64
  st_unicast_request_timeout :: u64
  st_master_announce_timeout :: u64
  st_master_sync_timeout :: u64
  st_qualification_timeout :: u64
  st_sync_mismatch :: u64
  st_followup_mismatch :: u64

text \<open>The power profile settings of the port.\<close>

record ieee_c37_238_settings =
  pw_version :: nat
  pw_grandmasterID :: u16
  pw_grandmasterTimeInaccuracy :: u32
  pw_networkTimeInaccuracy :: u32
  pw_totalTimeInaccuracy :: u32

record parent_ds =
  pd_parentPortIdentity :: PortIdentity
  pd_grandmasterPriority1 :: u8
  pd_grandmasterClockQuality :: ClockQuality
  pd_grandmasterPriority2 :: u8
  pd_grandmasterIdentity :: ClockIdentity
  pd_ptl :: "ClockIdentity list"
  pd_path_length :: nat

record currentDS =
  cds_stepsRemoved :: u16
  cds_offsetFromMaster :: i64
  cds_meanPathDelay :: i64

section \<open>Management data\<close>

record portDS =
  pds_portIdentity :: PortIdentity
  pds_portState :: port_state
  pds_logMinDelayReqInterval :: int
  pds_peerMeanPathDelay :: i64
  pds_logAnnounceInterval :: int
  pds_announceReceiptTimeout :: u8
  pds_logSyncInterval :: int
  pds_delayMechanism :: delay_mechanism
  pds_logMinPdelayReqInterval :: int
  pds_versionNumber :: u8

record unicast_master_entry =
  ue_port_identity :: PortIdentity
  ue_clock_quality :: ClockQuality
  ue_selected :: bool
  ue_port_state :: unicast_state
  ue_priority1 :: u8
  ue_priority2 :: u8
  ue_networkProtocol :: transport_type
  ue_address :: "u8 list"

text \<open>The data of the management TLVs that a port answers with.\<close>

datatype mgmt_data =
    MD_EMPTY
  | MD_CLOCK_DESCRIPTION clock_type string "u8 list" transport_type "u8 list" "u8 list" string string string
      "u8 list"
  | MD_PORT_DS portDS
  | MD_DATUM int
  | MD_PORT_DS_NP u32 as_capable
  | MD_PORT_PROPERTIES PortIdentity port_state timestamp_type string
  | MD_PORT_STATS PortIdentity "u8 \<Rightarrow> u64" "u8 \<Rightarrow> u64"
  | MD_PORT_SERVICE_STATS PortIdentity PortServiceStats
  | MD_UNICAST_MASTERS "unicast_master_entry list"
  | MD_HWCLOCK PortIdentity int bool
  | MD_POWER ieee_c37_238_settings
  | MD_CMLDS i64 int as_capable

text \<open>The TLVs that \<open>port.c\<close>, \<open>port_signaling.c\<close> and the unicast code look into; the others keep
  their type and length.\<close>

datatype ptlv =
    TlvRequest (tlv_message_type: u8) (tlv_period: int) (tlv_duration: u32)
  | TlvGrant (tlv_message_type: u8) (tlv_period: int) (tlv_duration: u32) (tlv_flags: u8)
  | TlvCancel (tlv_flags: u8)
  | TlvAckCancel (tlv_flags: u8)
  | TlvPathTrace (tlv_length: nat) (tlv_path: "ClockIdentity list")
  | TlvOrg (tlv_do_not_propagate: bool) (tlv_org_id: "u8 list") (tlv_subtype: "u8 list") (tlv_data: "u8 list")
  | TlvPtpmonReq
  | TlvPtpmonResp port_state transport_type "u8 list" parent_ds currentDS timePropertiesDS Timestamp
  | TlvManagement (tlv_id: u16) (tlv_length: nat) (tlv_mgmt: mgmt_data)
  | TlvMgmtError (tlv_error: u16) (tlv_id: u16)
  | TlvOther (tlv_type: u16) (tlv_length: nat)

record pmsg =
  pm_tsmt :: u8
  pm_ver :: u8
  pm_domainNumber :: u8
  pm_flag0 :: u8
  pm_flag1 :: u8
  pm_correction :: i64
  pm_source :: PortIdentity
  pm_sequenceId :: u16
  pm_logMessageInterval :: int
  pm_stamp :: Timestamp \<comment> \<open>the \<open>Timestamp\<close> member of the body\<close>
  pm_portid :: PortIdentity \<comment> \<open>\<open>requestingPortIdentity\<close> or \<open>targetPortIdentity\<close>\<close>
  pm_announce :: announce_body
  pm_startingBoundaryHops :: u8
  pm_boundaryHops :: u8
  pm_mgmt_flags :: u8
  pm_tlvs :: "ptlv list"
  pm_pdu :: timestamp
  pm_host :: timespec
  pm_hwts_type :: timestamp_type
  pm_hwts_ts :: tmv_t
  pm_hwts_sw :: tmv_t
  pm_address :: address

definition pm_type :: "pmsg \<Rightarrow> u8" where
  "pm_type m = pm_tsmt m AND 0x0f"

definition pm_transport_specific :: "pmsg \<Rightarrow> u8" where
  "pm_transport_specific m = pm_tsmt m AND 0xf0"

definition pm_unicast :: "pmsg \<Rightarrow> bool" where
  "pm_unicast m \<longleftrightarrow> pm_flag0 m AND FLAG_UNICAST \<noteq> 0"

definition pm_sots_valid :: "pmsg \<Rightarrow> bool" where
  "pm_sots_valid m \<longleftrightarrow> \<not> tmv_is_zero (pm_hwts_ts m)"

definition pm_sots_missing :: "pmsg \<Rightarrow> bool" where
  "pm_sots_missing m \<longleftrightarrow> pm_type m \<in> {SYNC, DELAY_REQ, PDELAY_REQ, PDELAY_RESP} \<and> \<not> pm_sots_valid m"

definition source_pid_eq :: "pmsg \<Rightarrow> pmsg \<Rightarrow> bool" where
  "source_pid_eq m1 m2 = pid_eq (pm_source m1) (pm_source m2)"

text \<open>A message that \<open>msg_allocate\<close> returns is all zero.\<close>

definition zero_pid :: PortIdentity where
  "zero_pid = \<lparr>clockIdentity = replicate 8 0, portNumber = 0\<rparr>"

definition zero_msg :: pmsg where
  "zero_msg = \<lparr>pm_tsmt = 0, pm_ver = 0, pm_domainNumber = 0, pm_flag0 = 0, pm_flag1 = 0, pm_correction = 0,
     pm_source = zero_pid, pm_sequenceId = 0, pm_logMessageInterval = 0,
     pm_stamp = \<lparr>seconds_msb = 0, seconds_lsb = 0, nanoseconds = 0\<rparr>, pm_portid = zero_pid,
     pm_announce = \<lparr>an_currentUtcOffset = 0, an_grandmasterPriority1 = 0,
       an_grandmasterClockQuality = \<lparr>clockClass = 0, clockAccuracy = 0, offsetScaledLogVariance = 0\<rparr>,
       an_grandmasterPriority2 = 0, an_grandmasterIdentity = replicate 8 0, an_stepsRemoved = 0,
       an_timeSource = 0\<rparr>,
     pm_startingBoundaryHops = 0, pm_boundaryHops = 0, pm_mgmt_flags = 0, pm_tlvs = [], pm_pdu = \<lparr>sec = 0, nsec = 0\<rparr>, pm_host = \<lparr>tv_sec = 0, tv_nsec = 0\<rparr>,
     pm_hwts_type = TS_SOFTWARE, pm_hwts_ts = 0, pm_hwts_sw = 0,
     pm_address = \<lparr>addr_len = 0, addr_ss = replicate 128 0\<rparr>\<rparr>"

section \<open>The state of a port\<close>

record foreign_clock =
  fc_messages :: "pmsg list" \<comment> \<open>newest first\<close>
  fc_n_messages :: nat
  fc_dataset :: dataset

record nrate_estimator =
  nr_ratio :: rat
  nr_origin1 :: tmv_t
  nr_ingress1 :: tmv_t
  nr_max_count :: nat
  nr_count :: nat
  nr_ratio_valid :: bool

text \<open>An event message that a transparent clock has forwarded, or a message that waits for one.\<close>

record tc_txd =
  td_msg :: pmsg
  td_residence :: tmv_t
  td_ingress_port :: u16

record fault_interval =
  fi_type :: fault_tmo_type
  fi_val :: int

record unicast_master_address =
  um_portIdentity :: PortIdentity
  um_type :: transport_type
  um_state :: unicast_state
  um_address :: address
  um_granted :: u32
  um_sydymsk :: u32
  um_renewal_tmo :: int

record unicast_master_table =
  ut_addrs :: "unicast_master_address list"
  ut_logQueryInterval :: int
  ut_peer_addr :: unicast_master_address
  ut_peer_name :: "string option"

end
