(* ===== verification/Port_State.thy ===== *)
theory Port_State
  imports Port_Types
begin

text \<open>
  The record of a port (\<open>struct port\<close> of \<open>port_private.h\<close>), the calls it makes and the
  environment that answers them.
\<close>

section \<open>Calls and the environment\<close>

datatype send_kind = Transport_sendto | Transport_send | Transport_peer

datatype call =
    Timerfd_settime fd_index int int \<comment> \<open>seconds and nanoseconds; both zero disarm the timer\<close>
  | Timerfd_create
  | Close_timers
  | Msg_allocate
  | Malloc
  | Tlv_append
  | Random
  | Clock_gettime
  | Transport send_kind transport_event pmsg
  | Transport_open
  | Transport_close
  | Rtnl_open
  | Rtnl_link_query
  | Pmc_create
  | Pmc_destroy
  | Pmc_subscribe
  | Clock_synchronize tmv_t tmv_t
  | Clock_path_delay tmv_t tmv_t
  | Clock_peer_delay tmv_t tmv_t tmv_t rat
  | Clock_sync_interval int
  | Clock_request_servo_reset
  | Clock_reset_servo_on_master_disconnect
  | Clock_update_time_properties timePropertiesDS
  | Clock_update_leap_status
  | Clock_set_path "ptlv option" \<comment> \<open>the path of the parent data set is taken from this TLV\<close>
  | Clock_follow_up_info ptlv
  | Clock_send_notification notification pmsg
  | Clock_switch_phc int
  | Clock_check_ts tmv_t
  | Clock_set_sde
  | Clock_fda_changed
  | Clock_manage pmsg
  | Clock_append_timezones
  | Clock_tsproc_reset
  | Servo_reset
  | Monitor_sync PortIdentity u16 tmv_t tmv_t tmv_t
  | Monitor_delay PortIdentity u16 tmv_t tmv_t tmv_t
  | Sad_set_last_seqid int
  | Sad_append_auth_tlv
  | Sad_process_auth
  | Sad_update_auth_tlv pmsg
  | Sync_state_shm_update
  | Syncfup_get \<comment> \<open>\<open>msg_get\<close> of a message that becomes \<open>last_syncfup\<close>\<close>
  | Syncfup_put \<comment> \<open>\<open>msg_put\<close> of \<open>last_syncfup\<close>\<close>
  | Unicast_service_add
  | Unicast_service_timer
  | Transport_recv
  | Transport_txts
  | Msg_duplicate
  | Pmc_recv
  | Rtnl_link_status
  | Interface_get_ifinfo
  | Interface_set_label string
  | Interface_get_tsinfo

text \<open>What the clock answers when it is asked (\<open>clock.h\<close>).\<close>

record clock_description =
  cd_productDescription :: string
  cd_revisionData :: string
  cd_userDescription :: string
  cd_manufacturerIdentity :: "u8 list"

record clock_view =
  cv_type :: clock_type
  cv_description :: clock_description
  cv_identity :: ClockIdentity
  cv_parent_identity :: PortIdentity
  cv_parent_ds :: parent_ds
  cv_time_properties :: timePropertiesDS
  cv_domain_number :: u8
  cv_steps_removed :: u16
  cv_max_steps_removed :: nat
  cv_class_threshold :: nat
  cv_slave_only :: bool
  cv_gm_capable :: bool
  cv_servo_state :: servo_state
  cv_servo_offset_threshold :: int
  cv_rate_ratio :: rat
  cv_ingress_time :: tmv_t
  cv_current_ds :: currentDS
  cv_best_port :: "(transport_type \<times> u8 list \<times> address option) option"
    \<comment> \<open>the transport and address of \<open>clock_best_port\<close>, and the address of its best foreign master\<close>
  cv_domain1 :: bool \<comment> \<open>\<open>dds_domainNumber_get\<close> is 1\<close>
  cv_master_restart_detected :: bool
  cv_free_running :: bool
  cv_dscmp :: "dataset \<Rightarrow> dataset \<Rightarrow> int"

text \<open>A message from the network: \<open>transport_recv\<close> fails, \<open>msg_post_recv\<close> rejects the octets (theory \<open>Msg\<close>),
  or the message is seen by value.\<close>

datatype received = Recv_failed | Recv_rejected | Received pmsg

record env =
  e_ret :: "call list \<Rightarrow> int" \<comment> \<open>the value that the last call returns\<close>
  e_stamp :: "call list \<Rightarrow> tmv_t" \<comment> \<open>the transmit time stamp that the last call stored\<close>
  e_now :: "call list \<Rightarrow> timespec" \<comment> \<open>the time that the last call stored\<close>
  e_servo :: "call list \<Rightarrow> servo_state" \<comment> \<open>the servo state that the last call returns\<close>
  e_clock :: "call list \<Rightarrow> clock_view"
  e_debug :: bool \<comment> \<open>\<open>print_level\<close> is at least \<open>LOG_DEBUG\<close>\<close>
  e_hdr_ver :: u8 \<comment> \<open>\<open>ptp_hdr_ver\<close>\<close>
  e_assume_two_step :: bool
  e_physical_addr :: "u8 list" \<comment> \<open>\<open>transport_physical_addr\<close>\<close>
  e_protocol_addr :: "u8 list" \<comment> \<open>\<open>transport_protocol_addr\<close>\<close>
  e_iface_label :: "call list \<Rightarrow> string"
  e_iface_vclock :: "call list \<Rightarrow> int"
  e_iface_phc_index :: "call list \<Rightarrow> int"
  e_iface_tsinfo_valid :: "call list \<Rightarrow> bool"
  e_tsmodes_supported :: "call list \<Rightarrow> bool"
  e_ifinfo :: "call list \<Rightarrow> i64 option" \<comment> \<open>\<open>interface_bitperiod\<close>, if \<open>interface_ifinfo_valid\<close>\<close>
  e_recv :: "call list \<Rightarrow> received" \<comment> \<open>what the last \<open>transport_recv\<close> stored\<close>
  e_pmc :: "call list \<Rightarrow> pmsg option" \<comment> \<open>what the last \<open>pmc_recv\<close> returned\<close>
  e_link :: "call list \<Rightarrow> (bool \<times> string option) option"
    \<comment> \<open>the notification that the last \<open>rtnl_link_status\<close> read: link up, and the name of the time stamping interface\<close>
  e_service_add :: "call list \<Rightarrow> add_env" \<comment> \<open>what \<open>unicast_service_add\<close> reads from its environment\<close>
  e_service_timer :: "call list \<Rightarrow> bool \<times> tspec \<times> (nat \<Rightarrow> tspec option) \<times> nat"
    \<comment> \<open>what \<open>unicast_service_timer\<close> reads: failure of the timer, the time, the later readings of the clock, the memory\<close>
  e_cfg :: "string \<Rightarrow> int" \<comment> \<open>\<open>config_get_int\<close> for the port\<close>

section \<open>The port\<close>

text \<open>The members that only \<open>port_open\<close> and \<open>port_initialize\<close> write are collected in \<open>port_config\<close>.\<close>

record port_config =
  c_timestamping :: timestamp_type
  c_trp :: transport_type
  c_jbod :: bool
  c_dispatch :: clock_type \<comment> \<open>the clock type selects \<open>dispatch\<close> and \<open>event\<close>\<close>
  c_tc_spanning_tree :: bool
  c_state_machine :: "port_state \<Rightarrow> fsm_event \<Rightarrow> int \<Rightarrow> port_state"
  c_bmca :: bmca_select
  c_inhibit_announce :: bool
  c_ignore_source_id :: bool
  c_inhibit_delay_req :: bool
  c_portIdentity :: PortIdentity
  c_initialLogAnnounceInterval :: int
  c_announceReceiptTimeout :: u8
  c_announce_span :: int
  c_syncReceiptTimeout :: u8
  c_transportSpecific :: u8
  c_localPriority :: u8
  c_initialLogSyncInterval :: int
  c_operLogSyncInterval :: int
  c_logMinPdelayReqInterval :: int
  c_operLogPdelayReqInterval :: int
  c_follow_up_info :: bool
  c_freq_est_interval :: int
  c_hybrid_e2e :: bool
  c_master_only :: bool
  c_match_transport_specific :: bool
  c_msg_interval_request :: bool
  c_min_neighbor_prop_delay :: int
  c_net_sync_monitor :: bool
  c_gptp_capable_transmit :: bool
  c_path_trace_enabled :: bool
  c_rx_timestamp_offset :: i64
  c_tx_timestamp_offset :: i64
  c_unicast_req_duration :: u32
  c_flt_interval_pertype :: "fault_type \<Rightarrow> fault_interval"
  c_delay_response_timeout :: u8
  c_allowedLostResponses :: u8
  c_iface_rate_tlv :: bool
  c_inhibit_multicast_service :: bool
  c_spp :: int
  c_cmlds_port :: int

record port =
  p_cfg :: port_config
  p_log :: "call list"
  p_fd_rtnl :: int
  p_phc_index :: int
  p_phc_from_cmdline :: bool
  p_best :: "nat option"
  p_foreign_masters :: "(nat \<times> foreign_clock) list"
  p_syfu :: syfu_state
  p_last_syncfup :: pmsg
  p_tc_transmitted :: "tc_txd list"
  p_delay_req :: "pmsg list"
  p_peer_delay_req :: "pmsg option"
  p_peer_delay_resp :: "pmsg option"
  p_peer_delay_fup :: "pmsg option"
  p_peer_portid_valid :: bool
  p_peer_portid :: PortIdentity
  p_seq_announce :: u16
  p_seq_delayreq :: u16
  p_seq_signaling :: u16
  p_seq_sync :: u16
  p_peer_delay :: tmv_t
  p_tsproc :: tsproc
  p_log_sync_interval :: int
  p_nrate :: nrate_estimator
  p_pdr_missing :: nat
  p_multiple_seq_pdr_count :: nat
  p_multiple_pdr_detected :: bool
  p_state :: port_state
  p_asymmetry :: i64
  p_asCapable :: as_capable
  p_logMinDelayReqInterval :: int
  p_peerMeanPathDelay :: i64
  p_logAnnounceInterval :: int
  p_logSyncInterval :: int
  p_delayMechanism :: delay_mechanism
  p_logPdelayReqInterval :: int
  p_neighborPropDelayThresh :: u32
  p_link_status :: u8
  p_last_fault_type :: fault_type
  p_versionNumber :: u8
  p_delay_response_counter :: u8
  p_stats_rx :: "u8 \<Rightarrow> u64"
  p_stats_tx :: "u8 \<Rightarrow> u64"
  p_portAsymmetry :: i64
  p_service_stats :: PortServiceStats
  p_pwr :: ieee_c37_238_settings
  p_unicast_master_table :: "unicast_master_table option"
  p_unicast_service :: "unicast_service option"
  p_unicast_state_dirty :: bool
  p_cmlds_timer_count :: nat
  p_cmlds_last_renewal :: int
  p_cmlds_pmc :: bool
  p_last_sync_recv_time :: tmv_t
  p_sync_interval_exceed_count :: int

abbreviation "p_timestamping p \<equiv> c_timestamping (p_cfg p)"
abbreviation "p_trp p \<equiv> c_trp (p_cfg p)"
abbreviation "p_jbod p \<equiv> c_jbod (p_cfg p)"
abbreviation "p_dispatch p \<equiv> c_dispatch (p_cfg p)"
abbreviation "p_tc_spanning_tree p \<equiv> c_tc_spanning_tree (p_cfg p)"
abbreviation "p_state_machine p \<equiv> c_state_machine (p_cfg p)"
abbreviation "p_bmca p \<equiv> c_bmca (p_cfg p)"
abbreviation "p_inhibit_announce p \<equiv> c_inhibit_announce (p_cfg p)"
abbreviation "p_ignore_source_id p \<equiv> c_ignore_source_id (p_cfg p)"
abbreviation "p_inhibit_delay_req p \<equiv> c_inhibit_delay_req (p_cfg p)"
abbreviation "p_portIdentity p \<equiv> c_portIdentity (p_cfg p)"
abbreviation "p_initialLogAnnounceInterval p \<equiv> c_initialLogAnnounceInterval (p_cfg p)"
abbreviation "p_announceReceiptTimeout p \<equiv> c_announceReceiptTimeout (p_cfg p)"
abbreviation "p_announce_span p \<equiv> c_announce_span (p_cfg p)"
abbreviation "p_syncReceiptTimeout p \<equiv> c_syncReceiptTimeout (p_cfg p)"
abbreviation "p_transportSpecific p \<equiv> c_transportSpecific (p_cfg p)"
abbreviation "p_localPriority p \<equiv> c_localPriority (p_cfg p)"
abbreviation "p_initialLogSyncInterval p \<equiv> c_initialLogSyncInterval (p_cfg p)"
abbreviation "p_operLogSyncInterval p \<equiv> c_operLogSyncInterval (p_cfg p)"
abbreviation "p_logMinPdelayReqInterval p \<equiv> c_logMinPdelayReqInterval (p_cfg p)"
abbreviation "p_operLogPdelayReqInterval p \<equiv> c_operLogPdelayReqInterval (p_cfg p)"
abbreviation "p_follow_up_info p \<equiv> c_follow_up_info (p_cfg p)"
abbreviation "p_freq_est_interval p \<equiv> c_freq_est_interval (p_cfg p)"
abbreviation "p_hybrid_e2e p \<equiv> c_hybrid_e2e (p_cfg p)"
abbreviation "p_master_only p \<equiv> c_master_only (p_cfg p)"
abbreviation "p_match_transport_specific p \<equiv> c_match_transport_specific (p_cfg p)"
abbreviation "p_msg_interval_request p \<equiv> c_msg_interval_request (p_cfg p)"
abbreviation "p_min_neighbor_prop_delay p \<equiv> c_min_neighbor_prop_delay (p_cfg p)"
abbreviation "p_net_sync_monitor p \<equiv> c_net_sync_monitor (p_cfg p)"
abbreviation "p_gptp_capable_transmit p \<equiv> c_gptp_capable_transmit (p_cfg p)"
abbreviation "p_path_trace_enabled p \<equiv> c_path_trace_enabled (p_cfg p)"
abbreviation "p_rx_timestamp_offset p \<equiv> c_rx_timestamp_offset (p_cfg p)"
abbreviation "p_tx_timestamp_offset p \<equiv> c_tx_timestamp_offset (p_cfg p)"
abbreviation "p_unicast_req_duration p \<equiv> c_unicast_req_duration (p_cfg p)"
abbreviation "p_flt_interval_pertype p \<equiv> c_flt_interval_pertype (p_cfg p)"
abbreviation "p_delay_response_timeout p \<equiv> c_delay_response_timeout (p_cfg p)"
abbreviation "p_allowedLostResponses p \<equiv> c_allowedLostResponses (p_cfg p)"
abbreviation "p_iface_rate_tlv p \<equiv> c_iface_rate_tlv (p_cfg p)"
abbreviation "p_inhibit_multicast_service p \<equiv> c_inhibit_multicast_service (p_cfg p)"
abbreviation "p_spp p \<equiv> c_spp (p_cfg p)"
abbreviation "p_cmlds_port p \<equiv> c_cmlds_port (p_cfg p)"

text \<open>A new port is all zero; the zero of the function pointer \<open>state_machine\<close> is \<open>ptp_fsm\<close> here, and the
  time stamp processor, a separate object, is an argument.\<close>

definition zero_config :: port_config where
  "zero_config =
    \<lparr>c_timestamping = TS_SOFTWARE,
     c_trp = TRANS_UDS,
     c_jbod = False,
     c_dispatch = CLOCK_TYPE_ORDINARY,
     c_tc_spanning_tree = False,
     c_state_machine = ptp_fsm,
     c_bmca = BMCA_PTP,
     c_inhibit_announce = False,
     c_ignore_source_id = False,
     c_inhibit_delay_req = False,
     c_portIdentity = zero_pid,
     c_initialLogAnnounceInterval = 0,
     c_announceReceiptTimeout = 0,
     c_announce_span = 0,
     c_syncReceiptTimeout = 0,
     c_transportSpecific = 0,
     c_localPriority = 0,
     c_initialLogSyncInterval = 0,
     c_operLogSyncInterval = 0,
     c_logMinPdelayReqInterval = 0,
     c_operLogPdelayReqInterval = 0,
     c_follow_up_info = False,
     c_freq_est_interval = 0,
     c_hybrid_e2e = False,
     c_master_only = False,
     c_match_transport_specific = False,
     c_msg_interval_request = False,
     c_min_neighbor_prop_delay = 0,
     c_net_sync_monitor = False,
     c_gptp_capable_transmit = False,
     c_path_trace_enabled = False,
     c_rx_timestamp_offset = 0,
     c_tx_timestamp_offset = 0,
     c_unicast_req_duration = 0,
     c_flt_interval_pertype = \<lambda>_. \<lparr>fi_type = FTMO_LINEAR_SECONDS, fi_val = 0\<rparr>,
     c_delay_response_timeout = 0,
     c_allowedLostResponses = 0,
     c_iface_rate_tlv = False,
     c_inhibit_multicast_service = False,
     c_spp = 0,
     c_cmlds_port = 0\<rparr>"

definition zero_port :: "tsproc \<Rightarrow> port" where
  "zero_port tsp =
    \<lparr>p_cfg = zero_config,
     p_log = [],
     p_fd_rtnl = 0,
     p_phc_index = 0,
     p_phc_from_cmdline = False,
     p_best = None,
     p_foreign_masters = [],
     p_syfu = SF_EMPTY,
     p_last_syncfup = zero_msg,
     p_tc_transmitted = [],
     p_delay_req = [],
     p_peer_delay_req = None,
     p_peer_delay_resp = None,
     p_peer_delay_fup = None,
     p_peer_portid_valid = False,
     p_peer_portid = zero_pid,
     p_seq_announce = 0,
     p_seq_delayreq = 0,
     p_seq_signaling = 0,
     p_seq_sync = 0,
     p_peer_delay = 0,
     p_tsproc = tsp,
     p_log_sync_interval = 0,
     p_nrate = \<lparr>nr_ratio = 0, nr_origin1 = 0, nr_ingress1 = 0, nr_max_count = 0, nr_count = 0, nr_ratio_valid = False\<rparr>,
     p_pdr_missing = 0,
     p_multiple_seq_pdr_count = 0,
     p_multiple_pdr_detected = False,
     p_state = PS_INITIALIZING,
     p_asymmetry = 0,
     p_asCapable = NOT_CAPABLE,
     p_logMinDelayReqInterval = 0,
     p_peerMeanPathDelay = 0,
     p_logAnnounceInterval = 0,
     p_logSyncInterval = 0,
     p_delayMechanism = DM_AUTO,
     p_logPdelayReqInterval = 0,
     p_neighborPropDelayThresh = 0,
     p_link_status = 0,
     p_last_fault_type = FT_UNSPECIFIED,
     p_versionNumber = 0,
     p_delay_response_counter = 0,
     p_stats_rx = \<lambda>_. 0,
     p_stats_tx = \<lambda>_. 0,
     p_portAsymmetry = 0,
     p_service_stats = \<lparr>st_announce_timeout = 0, st_sync_timeout = 0, st_delay_timeout = 0, st_unicast_service_timeout = 0, st_unicast_request_timeout = 0, st_master_announce_timeout = 0, st_master_sync_timeout = 0, st_qualification_timeout = 0, st_sync_mismatch = 0, st_followup_mismatch = 0\<rparr>,
     p_pwr = \<lparr>pw_version = 0, pw_grandmasterID = 0, pw_grandmasterTimeInaccuracy = 0, pw_networkTimeInaccuracy = 0, pw_totalTimeInaccuracy = 0\<rparr>,
     p_unicast_master_table = None,
     p_unicast_service = None,
     p_unicast_state_dirty = False,
     p_cmlds_timer_count = 0,
     p_cmlds_last_renewal = 0,
     p_cmlds_pmc = False,
     p_last_sync_recv_time = 0,
     p_sync_interval_exceed_count = 0\<rparr>"

section \<open>A concrete environment\<close>

text \<open>An environment in which every call succeeds, for the evaluation of examples: calls return 1, the clock
  shows one second past the epoch, transmit time stamps are 1000 ns, and the best master clock
  algorithm compares the first priority only.\<close>

definition dscmp_priority1 :: "dataset \<Rightarrow> dataset \<Rightarrow> int" where
  "dscmp_priority1 a b =
    (if ds_priority1 a < ds_priority1 b then 1 else if ds_priority1 b < ds_priority1 a then -1 else 0)"

definition sample_clock :: clock_view where
  "sample_clock =
    \<lparr>cv_type = CLOCK_TYPE_ORDINARY,
     cv_description = \<lparr>cd_productDescription = [], cd_revisionData = [], cd_userDescription = [],
       cd_manufacturerIdentity = []\<rparr>,
     cv_identity = replicate 8 1, cv_parent_identity = zero_pid,
     cv_parent_ds = \<lparr>pd_parentPortIdentity = zero_pid, pd_grandmasterPriority1 = 0,
       pd_grandmasterClockQuality = \<lparr>clockClass = 0, clockAccuracy = 0, offsetScaledLogVariance = 0\<rparr>,
       pd_grandmasterPriority2 = 0, pd_grandmasterIdentity = replicate 8 0, pd_ptl = [], pd_path_length = 0\<rparr>,
     cv_time_properties = \<lparr>tp_currentUtcOffset = 37, tp_flags = 0, tp_timeSource = 0\<rparr>,
     cv_domain_number = 0, cv_steps_removed = 0, cv_max_steps_removed = 255, cv_class_threshold = 248,
     cv_slave_only = False, cv_gm_capable = True, cv_servo_state = SERVO_UNLOCKED, cv_servo_offset_threshold = 0,
     cv_rate_ratio = 1, cv_ingress_time = 0,
     cv_current_ds = \<lparr>cds_stepsRemoved = 0, cds_offsetFromMaster = 0, cds_meanPathDelay = 0\<rparr>,
     cv_best_port = None, cv_domain1 = False, cv_master_restart_detected = False, cv_free_running = False, cv_dscmp = dscmp_priority1\<rparr>"

definition sample_env :: env where
  "sample_env =
    \<lparr>e_ret = \<lambda>_. 1, e_stamp = \<lambda>_. 1000, e_now = \<lambda>_. \<lparr>tv_sec = 1, tv_nsec = 0\<rparr>, e_servo = \<lambda>_. SERVO_LOCKED,
     e_clock = \<lambda>_. sample_clock, e_debug = False, e_hdr_ver = 0x12, e_assume_two_step = False,
     e_physical_addr = [], e_protocol_addr = [], e_iface_label = \<lambda>_. [], e_iface_vclock = \<lambda>_. -1,
     e_iface_phc_index = \<lambda>_. -1, e_iface_tsinfo_valid = \<lambda>_. False, e_tsmodes_supported = \<lambda>_. True, e_ifinfo = \<lambda>_. None,
     e_recv = \<lambda>_. Recv_rejected, e_pmc = \<lambda>_. None, e_link = \<lambda>_. None,
     e_service_add = \<lambda>_. \<lparr>ae_now = None, ae_now_tmo = \<lparr>ts_sec = 0, ts_nsec = 0\<rparr>, ae_client_ok = True, ae_interval = None,
       ae_queue_ok = True, ae_fill = 0\<rparr>,
     e_service_timer = \<lambda>_. (False, \<lparr>ts_sec = 1, ts_nsec = 0\<rparr>, \<lambda>_. None, 0), e_cfg = \<lambda>_. 0\<rparr>"

definition sample_port :: port where
  "sample_port = zero_port (the (tsproc_create True True True True TSPROC_FILTER FILTER_MOVING_MEDIAN 3))"

text \<open>Records of the model are large; the examples unfold them with these facts.\<close>

lemmas sample_defs = sample_port_def sample_env_def sample_clock_def zero_port_def zero_config_def zero_msg_def zero_pid_def

end
