(* ===== verification/Port_Io.thy ===== *)
theory Port_Io
  imports Port_State
begin

text \<open>
  The functions of \<open>port.c\<close> that only make calls: timers (\<open>set_tmo_log\<close>, \<open>set_tmo_random\<close>, \<open>port_set_*_tmo\<close>),
  allocation of messages, and transmission (\<open>port_prepare_and_send\<close>, \<open>peer_prepare_and_send\<close>,
  \<open>port_forward\<close>).
\<close>

section \<open>Calls\<close>

definition do_call :: "call \<Rightarrow> port \<Rightarrow> port" where
  "do_call c p = p\<lparr>p_log := p_log p @ [c]\<rparr>"

definition ret :: "env \<Rightarrow> port \<Rightarrow> int" where
  "ret e p = e_ret e (p_log p)"

definition clk :: "env \<Rightarrow> port \<Rightarrow> clock_view" where
  "clk e p = e_clock e (p_log p)"

definition msg_allocate :: "env \<Rightarrow> port \<Rightarrow> pmsg option \<times> port" where
  "msg_allocate e p = (let p = do_call Msg_allocate p in (if ret e p = 0 then None else Some zero_msg, p))"

text \<open>\<open>msg_tlv_append\<close> returns \<open>NULL\<close> if no descriptor or no room is left.\<close>

definition tlv_append :: "env \<Rightarrow> port \<Rightarrow> pmsg \<Rightarrow> ptlv \<Rightarrow> pmsg option \<times> port" where
  "tlv_append e p m t =
    (let p = do_call Tlv_append p in (if ret e p = 0 then None else Some (m\<lparr>pm_tlvs := pm_tlvs m @ [t]\<rparr>), p))"

definition clock_gettime :: "env \<Rightarrow> port \<Rightarrow> timespec \<times> port" where
  "clock_gettime e p = (let p = do_call Clock_gettime p in (e_now e (p_log p), p))"

section \<open>Timers\<close>

definition timerfd_settime :: "env \<Rightarrow> fd_index \<Rightarrow> int \<Rightarrow> int \<Rightarrow> port \<Rightarrow> int \<times> port" where
  "timerfd_settime e fd s ns p = (let p = do_call (Timerfd_settime fd s ns) p in (ret e p, p))"

text \<open>The shift of \<open>1 << log_seconds\<close> is defined in C for exponents up to 30; the model yields 0 from 32 on.\<close>

definition set_tmo_log :: "env \<Rightarrow> fd_index \<Rightarrow> u32 \<Rightarrow> int \<Rightarrow> port \<Rightarrow> int \<times> port" where
  "set_tmo_log e fd scale log_seconds p =
    (if log_seconds < 0
     then let ns = drop_bit (nat (- log_seconds) - 1) (ucast scale * 500000000 :: u64)
          in timerfd_settime e fd (uint (ns div 1000000000)) (uint (ns mod 1000000000)) p
     else timerfd_settime e fd (uint (scale * push_bit (nat log_seconds) 1)) 0 p)"

definition set_tmo_lin :: "env \<Rightarrow> fd_index \<Rightarrow> int \<Rightarrow> port \<Rightarrow> int \<times> port" where
  "set_tmo_lin e fd seconds p = timerfd_settime e fd seconds 0 p"

text \<open>The number of nanoseconds that \<open>set_tmo_random\<close> arms, with \<open>rnd\<close> the value of \<open>random()\<close>.\<close>

definition random_ns :: "int \<Rightarrow> int \<Rightarrow> int \<Rightarrow> nat \<Rightarrow> u64" where
  "random_ns mn sp log_seconds rnd =
    (let (min_ns, span_ns) =
       (if log_seconds \<ge> 0
        then (push_bit (nat log_seconds) (of_int (mn * 1000000000)), push_bit (nat log_seconds) (of_int (sp * 1000000000)))
        else (word_of_int (mn * 1000000000 div 2 ^ nat (- log_seconds)),
              word_of_int (sp * 1000000000 div 2 ^ nat (- log_seconds))))
     in min_ns + drop_bit 15 (span_ns * of_nat (rnd mod 2 ^ 15 + 1)))"

definition set_tmo_random :: "env \<Rightarrow> fd_index \<Rightarrow> int \<Rightarrow> int \<Rightarrow> int \<Rightarrow> port \<Rightarrow> int \<times> port" where
  "set_tmo_random e fd mn sp log_seconds p =
    (let p = do_call Random p;
         value_ns = random_ns mn sp log_seconds (nat (ret e p))
     in timerfd_settime e fd (uint (value_ns div 1000000000)) (uint (value_ns mod 1000000000)) p)"

definition port_clr_tmo :: "env \<Rightarrow> fd_index \<Rightarrow> port \<Rightarrow> int \<times> port" where
  "port_clr_tmo e fd p = timerfd_settime e fd 0 0 p"

definition port_set_announce_tmo :: "env \<Rightarrow> port \<Rightarrow> int \<times> port" where
  "port_set_announce_tmo e p =
    set_tmo_random e FD_ANNOUNCE_TIMER (uint (p_announceReceiptTimeout p)) (p_announce_span p) (p_logAnnounceInterval p) p"

definition port_set_delay_tmo :: "env \<Rightarrow> port \<Rightarrow> int \<times> port" where
  "port_set_delay_tmo e p =
    (if p_inhibit_delay_req p then (0, p)
     else if p_delayMechanism p \<in> {DM_COMMON_P2P, DM_P2P}
     then set_tmo_log e FD_DELAY_TIMER 1 (p_logPdelayReqInterval p) p
     else set_tmo_random e FD_DELAY_TIMER 0 2 (p_logMinDelayReqInterval p) p)"

definition port_set_manno_tmo :: "env \<Rightarrow> port \<Rightarrow> int \<times> port" where
  "port_set_manno_tmo e p = set_tmo_log e FD_MANNO_TIMER 1 (p_logAnnounceInterval p) p"

definition port_set_qualification_tmo :: "env \<Rightarrow> port \<Rightarrow> int \<times> port" where
  "port_set_qualification_tmo e p =
    set_tmo_log e FD_QUALIFICATION_TIMER (1 + ucast (cv_steps_removed (clk e p))) (p_logAnnounceInterval p) p"

definition port_set_sync_rx_tmo :: "env \<Rightarrow> port \<Rightarrow> int \<times> port" where
  "port_set_sync_rx_tmo e p = set_tmo_log e FD_SYNC_RX_TIMER (ucast (p_syncReceiptTimeout p)) (p_logSyncInterval p) p"

definition port_set_sync_tx_tmo :: "env \<Rightarrow> port \<Rightarrow> int \<times> port" where
  "port_set_sync_tx_tmo e p = set_tmo_log e FD_SYNC_TX_TIMER 1 (p_logSyncInterval p) p"

section \<open>Transmission\<close>

definition ts_add :: "tmv_t \<Rightarrow> i64 \<Rightarrow> tmv_t" where
  "ts_add ts correction = (if correction = 0 then ts else tmv_add ts (correction_to_tmv correction))"

definition port_has_security :: "port \<Rightarrow> bool" where
  "port_has_security p \<longleftrightarrow> p_spp p \<ge> 0"

definition port_is_uds :: "port \<Rightarrow> bool" where
  "port_is_uds p \<longleftrightarrow> p_trp p = TRANS_UDS"

definition port_stats_inc_rx :: "pmsg \<Rightarrow> port \<Rightarrow> port" where
  "port_stats_inc_rx m p = p\<lparr>p_stats_rx := (p_stats_rx p)(pm_type m := p_stats_rx p (pm_type m) + 1)\<rparr>"

definition port_stats_inc_tx :: "pmsg \<Rightarrow> port \<Rightarrow> port" where
  "port_stats_inc_tx m p = p\<lparr>p_stats_tx := (p_stats_tx p)(pm_type m := p_stats_tx p (pm_type m) + 1)\<rparr>"

text \<open>\<open>msg_pre_send\<close> fails on a message of unknown type only.\<close>

definition pm_pre_send_ok :: "pmsg \<Rightarrow> bool" where
  "pm_pre_send_ok m \<longleftrightarrow> pm_type m \<in> {SYNC, DELAY_REQ, PDELAY_REQ, PDELAY_RESP, FOLLOW_UP, DELAY_RESP,
     PDELAY_RESP_FOLLOW_UP, ANNOUNCE, SIGNALING, MANAGEMENT}"

text \<open>The transports store a transmit time stamp for events (\<open>TRANS_EVENT\<close>) only.\<close>

definition send_via :: "env \<Rightarrow> port \<Rightarrow> pmsg \<Rightarrow> send_kind \<Rightarrow> transport_event \<Rightarrow> int \<times> pmsg \<times> port" where
  "send_via e p m multicast event =
    (let (cnt, p) = (if port_has_security p then let p = do_call Sad_append_auth_tlv p in (ret e p, p)
                     else (if pm_pre_send_ok m then 0 else -1, p))
     in if cnt \<noteq> 0 then (-1, m, p)
        else let p = do_call (Transport (if pm_unicast m then Transport_sendto else multicast) event m) p;
                 m = (if event = TRANS_EVENT then m\<lparr>pm_hwts_ts := e_stamp e (p_log p)\<rparr> else m)
             in if ret e p \<le> 0 then (-1, m, p)
                else let p = port_stats_inc_tx m p;
                         m = (if pm_sots_valid m then m\<lparr>pm_hwts_ts := ts_add (pm_hwts_ts m) (p_tx_timestamp_offset p)\<rparr>
                              else m)
                     in (0, m, p))"

definition port_prepare_and_send :: "env \<Rightarrow> port \<Rightarrow> pmsg \<Rightarrow> transport_event \<Rightarrow> int \<times> pmsg \<times> port" where
  "port_prepare_and_send e p m event = send_via e p m Transport_send event"

definition peer_prepare_and_send :: "env \<Rightarrow> port \<Rightarrow> pmsg \<Rightarrow> transport_event \<Rightarrow> int \<times> pmsg \<times> port" where
  "peer_prepare_and_send e p m event = send_via e p m Transport_peer event"

definition port_forward :: "env \<Rightarrow> port \<Rightarrow> pmsg \<Rightarrow> int \<times> port" where
  "port_forward e p m =
    (let p = do_call (Transport Transport_send TRANS_GENERAL m) p
     in if ret e p \<le> 0 then (-1, p) else (0, port_stats_inc_tx m p))"

definition port_forward_to :: "env \<Rightarrow> port \<Rightarrow> pmsg \<Rightarrow> int \<times> port" where
  "port_forward_to e p m =
    (let p = do_call (Transport Transport_sendto TRANS_GENERAL m) p
     in if ret e p < 0 then (ret e p, p) else if ret e p = 0 then (-5, p) else (0, port_stats_inc_tx m p))"

section \<open>What a call changes\<close>

text \<open>A function that only makes calls extends the log and leaves the rest of the port alone.\<close>

definition only_log :: "port \<Rightarrow> port \<Rightarrow> bool" where
  "only_log p q \<longleftrightarrow> (\<exists>cs. q = p\<lparr>p_log := p_log p @ cs\<rparr>)"

lemma only_log_refl [simp, intro]: "only_log p p"
  unfolding only_log_def by (intro exI [of _ "[]"]) simp

lemma only_log_trans [trans]: "only_log p q \<Longrightarrow> only_log q r \<Longrightarrow> only_log p r"
  unfolding only_log_def by auto

lemma only_log_call [simp, intro]: "only_log p (do_call c p)"
  unfolding only_log_def do_call_def by blast

lemma only_log_do_call: "only_log p q \<Longrightarrow> only_log p (do_call c q)"
  using only_log_trans by blast

lemma only_logE:
  assumes "only_log p q"
  obtains cs where "q = p\<lparr>p_log := p_log p @ cs\<rparr>"
  using assms unfolding only_log_def by blast

lemma only_log_alloc [simp, intro]:
  "only_log p (snd (msg_allocate e p))"
  "only_log p (snd (tlv_append e p m t))"
  "only_log p (snd (clock_gettime e p))"
  by (simp_all add: msg_allocate_def tlv_append_def clock_gettime_def Let_def)

lemma only_log_timers [simp, intro]:
  "only_log p (snd (timerfd_settime e fd s ns p))"
  "only_log p (snd (set_tmo_log e fd scale l p))"
  "only_log p (snd (set_tmo_random e fd mn sp l p))"
  "only_log p (snd (port_clr_tmo e fd p))"
  "only_log p (snd (port_set_announce_tmo e p))"
  "only_log p (snd (port_set_delay_tmo e p))"
  "only_log p (snd (port_set_manno_tmo e p))"
  "only_log p (snd (port_set_qualification_tmo e p))"
  "only_log p (snd (port_set_sync_rx_tmo e p))"
  "only_log p (snd (port_set_sync_tx_tmo e p))"
  by (simp_all add: timerfd_settime_def set_tmo_log_def set_tmo_random_def port_clr_tmo_def
      port_set_announce_tmo_def port_set_delay_tmo_def port_set_manno_tmo_def port_set_qualification_tmo_def
      port_set_sync_rx_tmo_def port_set_sync_tx_tmo_def only_log_do_call Let_def)

text \<open>Sending extends the log and counts the message.\<close>

definition only_tx :: "port \<Rightarrow> port \<Rightarrow> bool" where
  "only_tx p q \<longleftrightarrow> (\<exists>cs t. q = p\<lparr>p_log := p_log p @ cs, p_stats_tx := t\<rparr>)"

lemma only_txE:
  assumes "only_tx p q"
  obtains cs t where "q = p\<lparr>p_log := p_log p @ cs, p_stats_tx := t\<rparr>"
  using assms unfolding only_tx_def by blast

lemma only_txI: "q = p\<lparr>p_log := p_log p @ cs, p_stats_tx := t\<rparr> \<Longrightarrow> only_tx p q"
  unfolding only_tx_def by blast

lemma only_tx_log: "only_log p q \<Longrightarrow> only_tx p q"
  by (elim only_logE) (rule only_txI [where t = "p_stats_tx p"], simp)

lemma only_tx_trans [trans]: "only_tx p q \<Longrightarrow> only_tx q r \<Longrightarrow> only_tx p r"
  by (elim only_txE, rule only_txI) simp

lemma only_tx_step:
  "only_tx p p"
  "only_tx p q \<Longrightarrow> only_tx p (do_call c q)"
  "only_tx p q \<Longrightarrow> only_tx p (port_stats_inc_tx m q)"
proof -
  show "only_tx p p" by (simp add: only_tx_log)
  show "only_tx p (do_call c q)" if "only_tx p q"
    using that only_tx_trans only_tx_log only_log_call by blast
  have "only_tx q (port_stats_inc_tx m q)"
    unfolding port_stats_inc_tx_def by (rule only_txI [where cs = "[]"]) simp
  then show "only_tx p (port_stats_inc_tx m q)" if "only_tx p q" using that only_tx_trans by blast
qed

lemma only_tx_send [simp, intro]:
  "only_tx p (snd (snd (send_via e p m k ev)))"
  "only_tx p (snd (snd (port_prepare_and_send e p m ev)))"
  "only_tx p (snd (snd (peer_prepare_and_send e p m ev)))"
proof -
  show s: "only_tx p (snd (snd (send_via e p m k ev)))" for k
    by (simp add: send_via_def Let_def only_tx_step split: prod.splits)
  show "only_tx p (snd (snd (port_prepare_and_send e p m ev)))" "only_tx p (snd (snd (peer_prepare_and_send e p m ev)))"
    by (simp_all add: port_prepare_and_send_def peer_prepare_and_send_def s)
qed

end
