(* ===== verification/Port_Mgmt.thy ===== *)
theory Port_Mgmt
  imports Port_Io Tlv
begin

text \<open>
  Management of a port (\<open>port.c\<close>): the response to a management request (\<open>port_management_fill_response\<close>),
  the requests that change a port (\<open>port_management_set\<close>), errors, and notifications.
\<close>

abbreviation "MID_NULL_MANAGEMENT \<equiv> 0x0000 :: u16"
abbreviation "MID_LOG_ANNOUNCE_INTERVAL \<equiv> 0x2009 :: u16"
abbreviation "MID_ANNOUNCE_RECEIPT_TIMEOUT \<equiv> 0x200A :: u16"
abbreviation "MID_LOG_SYNC_INTERVAL \<equiv> 0x200B :: u16"
abbreviation "MID_VERSION_NUMBER \<equiv> 0x200C :: u16"
abbreviation "MID_UNICAST_NEGOTIATION_ENABLE \<equiv> 0x2014 :: u16"
abbreviation "MID_UNICAST_MASTER_TABLE \<equiv> 0x2018 :: u16"
abbreviation "MID_UNICAST_MASTER_MAX_TABLE_SIZE \<equiv> 0x2019 :: u16"
abbreviation "MID_ACCEPTABLE_MASTER_TABLE_ENABLED \<equiv> 0x201B :: u16"
abbreviation "MID_ALTERNATE_MASTER \<equiv> 0x201D :: u16"
abbreviation "MID_MASTER_ONLY \<equiv> 0x3001 :: u16"
abbreviation "MID_TRANSPARENT_CLOCK_PORT_DATA_SET \<equiv> 0x4001 :: u16"
abbreviation "MID_DELAY_MECHANISM \<equiv> 0x6000 :: u16"
abbreviation "MID_LOG_MIN_PDELAY_REQ_INTERVAL \<equiv> 0x6001 :: u16"
abbreviation "MID_NO_SUCH_ID \<equiv> 0x0002 :: u16"
abbreviation "MID_NOT_SUPPORTED \<equiv> 0x0006 :: u16"

abbreviation "GET \<equiv> 0 :: u8"
abbreviation "SET \<equiv> 1 :: u8"
abbreviation "RESPONSE \<equiv> 2 :: u8"
abbreviation "COMMAND \<equiv> 3 :: u8"
abbreviation "ACKNOWLEDGE \<equiv> 4 :: u8"

section \<open>Responses\<close>

definition profile_id_drr :: "u8 list" where "profile_id_drr = [0x00, 0x1B, 0x19, 0x00, 0x01, 0x00]"
definition profile_id_p2p :: "u8 list" where "profile_id_p2p = [0x00, 0x1B, 0x19, 0x00, 0x02, 0x00]"
definition profile_id_8275_1 :: "u8 list" where "profile_id_8275_1 = [0x00, 0x19, 0xA7, 0x01, 0x02, 0x03]"
definition profile_id_8275_2 :: "u8 list" where "profile_id_8275_2 = [0x00, 0x19, 0xA7, 0x02, 0x01, 0x02]"

text \<open>A text is copied only if its length fits an octet; the buffer is zero before.\<close>

definition ptp_text_set :: "string option \<Rightarrow> string" where
  "ptp_text_set src = (case src of None \<Rightarrow> [] | Some t \<Rightarrow> if length t > 255 then [] else t)"

definition address_to_portaddress :: "address \<Rightarrow> transport_type \<Rightarrow> u8 list" where
  "address_to_portaddress a networkProtocol =
    (case networkProtocol of
       TRANS_UDP_IPV4 \<Rightarrow> sin_addr a
     | TRANS_UDP_IPV6 \<Rightarrow> sin6_addr a
     | TRANS_IEEE_802_3 \<Rightarrow> sll_addr a
     | _ \<Rightarrow> [])"

definition fill_clock_description :: "env \<Rightarrow> port \<Rightarrow> mgmt_data \<times> nat" where
  "fill_clock_description e target =
    (let cd = cv_description (clk e target);
         phy = ptp_text_set (if p_trp target \<in> {TRANS_UDP_IPV4, TRANS_UDP_IPV6, TRANS_IEEE_802_3}
                             then Some ''IEEE 802.3'' else None);
         profile = (if p_delayMechanism target \<in> {DM_P2P, DM_COMMON_P2P} then profile_id_p2p
                    else if e_cfg e ''dataset_comparison'' = 1
                    then if p_trp target = TRANS_IEEE_802_3 then profile_id_8275_1 else profile_id_8275_2
                    else profile_id_drr);
         datalen = 2 + (1 + length phy) + (2 + length (e_physical_addr e)) + (4 + length (e_protocol_addr e)) +
           3 + 1 + (1 + length (cd_productDescription cd)) + (1 + length (cd_revisionData cd)) +
           (1 + length (cd_userDescription cd)) + length profile
     in (MD_CLOCK_DESCRIPTION (cv_type (clk e target)) phy (e_physical_addr e) (p_trp target) (e_protocol_addr e)
           (cd_manufacturerIdentity cd) (cd_productDescription cd) (cd_revisionData cd) (cd_userDescription cd) profile,
         datalen))"

definition visible_state :: "port \<Rightarrow> port_state" where
  "visible_state p = (if p_state p = PS_GRAND_MASTER then PS_MASTER else p_state p)"

definition visible_delayMechanism :: "port \<Rightarrow> delay_mechanism" where
  "visible_delayMechanism p = (if p_delayMechanism p = DM_AUTO then DM_E2E else p_delayMechanism p)"

definition fill_port_ds :: "port \<Rightarrow> portDS" where
  "fill_port_ds target =
    \<lparr>pds_portIdentity = p_portIdentity target, pds_portState = visible_state target,
     pds_logMinDelayReqInterval = p_logMinDelayReqInterval target,
     pds_peerMeanPathDelay = p_peerMeanPathDelay target, pds_logAnnounceInterval = p_logAnnounceInterval target,
     pds_announceReceiptTimeout = p_announceReceiptTimeout target, pds_logSyncInterval = p_logSyncInterval target,
     pds_delayMechanism = visible_delayMechanism target,
     pds_logMinPdelayReqInterval = p_logMinPdelayReqInterval target, pds_versionNumber = p_versionNumber target\<rparr>"

definition fill_master_entry :: "env \<Rightarrow> port \<Rightarrow> unicast_master_address \<Rightarrow> unicast_master_entry" where
  "fill_master_entry e target ucma =
    (let fc = List.find (\<lambda>(_, fc). pid_eq (um_portIdentity ucma) (ds_sender (fc_dataset fc))) (p_foreign_masters target)
     in \<lparr>ue_port_identity = um_portIdentity ucma,
         ue_clock_quality = (case fc of Some (_, fc) \<Rightarrow> ds_quality (fc_dataset fc)
            | None \<Rightarrow> \<lparr>clockClass = 0, clockAccuracy = 0, offsetScaledLogVariance = 0\<rparr>),
         ue_selected = pid_eq (um_portIdentity ucma) (cv_parent_identity (clk e target)),
         ue_port_state = um_state ucma,
         ue_priority1 = (case fc of Some (_, fc) \<Rightarrow> ds_priority1 (fc_dataset fc) | None \<Rightarrow> 0),
         ue_priority2 = (case fc of Some (_, fc) \<Rightarrow> ds_priority2 (fc_dataset fc) | None \<Rightarrow> 0),
         ue_networkProtocol = um_type ucma,
         ue_address = address_to_portaddress (um_address ucma) (um_type ucma)\<rparr>)"

definition fill_master_table :: "env \<Rightarrow> port \<Rightarrow> mgmt_data \<times> nat" where
  "fill_master_table e target =
    (case p_unicast_master_table target of
       None \<Rightarrow> (MD_UNICAST_MASTERS [], 2)
     | Some t \<Rightarrow>
         let es = map (fill_master_entry e target) (ut_addrs t)
         in (MD_UNICAST_MASTERS es,
             2 + sum_list (map (\<lambda>ue. sizeof unicast_master_entry_layout + length (ue_address ue)) es)))"

definition scaled_ratio :: "rat \<Rightarrow> int" where
  "scaled_ratio r =
    (let x = rnd64 (rnd64 (r * 2 ^ 41) - 2 ^ 41) in if 0 \<le> x then \<lfloor>x\<rfloor> else \<lceil>x\<rceil>)"

text \<open>The data of a response and its length; \<open>None\<close> for an id that the port does not answer.\<close>

definition mgmt_response :: "env \<Rightarrow> port \<Rightarrow> u16 \<Rightarrow> (mgmt_data \<times> nat) option" where
  "mgmt_response e target mid =
    (if mid = MID_NULL_MANAGEMENT then Some (MD_EMPTY, 0)
     else if mid = MID_CLOCK_DESCRIPTION then Some (fill_clock_description e target)
     else if mid = MID_PORT_DATA_SET then Some (MD_PORT_DS (fill_port_ds target), sizeof portDS_layout)
     else if mid = MID_LOG_ANNOUNCE_INTERVAL then Some (MD_DATUM (p_logAnnounceInterval target), 2)
     else if mid = MID_ANNOUNCE_RECEIPT_TIMEOUT then Some (MD_DATUM (uint (p_announceReceiptTimeout target)), 2)
     else if mid = MID_LOG_SYNC_INTERVAL then Some (MD_DATUM (p_logSyncInterval target), 2)
     else if mid = MID_VERSION_NUMBER then Some (MD_DATUM (uint (p_versionNumber target)), 2)
     else if mid = MID_MASTER_ONLY then Some (MD_DATUM (if p_master_only target then 1 else 0), 2)
     else if mid = MID_DELAY_MECHANISM
     then Some (MD_DATUM (case visible_delayMechanism target of
                  DM_AUTO \<Rightarrow> 0 | DM_E2E \<Rightarrow> 1 | DM_P2P \<Rightarrow> 2 | DM_COMMON_P2P \<Rightarrow> 3 | DM_NO_MECHANISM \<Rightarrow> 0xFE), 2)
     else if mid = MID_LOG_MIN_PDELAY_REQ_INTERVAL then Some (MD_DATUM (p_logMinPdelayReqInterval target), 2)
     else if mid = MID_PORT_DATA_SET_NP
     then Some (MD_PORT_DS_NP (p_neighborPropDelayThresh target) (p_asCapable target), sizeof port_ds_np_layout)
     else if mid = MID_PORT_PROPERTIES_NP
     then let label = ptp_text_set (Some (e_iface_label e (p_log target)))
          in Some (MD_PORT_PROPERTIES (p_portIdentity target) (visible_state target) (p_timestamping target) label,
                   sizeof port_properties_np_layout + length label)
     else if mid = MID_PORT_STATS_NP
     then Some (MD_PORT_STATS (p_portIdentity target) (p_stats_rx target) (p_stats_tx target), sizeof port_stats_np_layout)
     else if mid = MID_PORT_SERVICE_STATS_NP
     then Some (MD_PORT_SERVICE_STATS (p_portIdentity target) (p_service_stats target),
                sizeof port_service_stats_np_layout)
     else if mid = MID_UNICAST_MASTER_TABLE_NP then Some (fill_master_table e target)
     else if mid = MID_PORT_HWCLOCK_NP
     then Some (MD_HWCLOCK (p_portIdentity target) (p_phc_index target) (e_iface_vclock e (p_log target) \<ge> 0), sizeof port_hwclock_np_layout)
     else if mid = MID_POWER_PROFILE_SETTINGS_NP
     then Some (MD_POWER (p_pwr target), sizeof ieee_c37_238_settings_np_layout)
     else if mid = MID_CMLDS_INFO_NP
     then Some (MD_CMLDS (p_peerMeanPathDelay target) (scaled_ratio (nr_ratio (p_nrate target))) (p_asCapable target),
                sizeof cmlds_info_np_layout)
     else None)"

text \<open>The result tells whether the caller can respond. The data is padded to an even length.\<close>

definition port_management_fill_response :: "env \<Rightarrow> port \<Rightarrow> pmsg \<Rightarrow> u16 \<Rightarrow> pmsg option \<times> port" where
  "port_management_fill_response e target rsp mid =
    (let target = do_call Malloc target
     in if ret e target = 0 then (None, target)
        else case mgmt_response e target mid of
          None \<Rightarrow> (None, target)
        | Some (md, datalen) \<Rightarrow>
            (Some (rsp\<lparr>pm_tlvs := pm_tlvs rsp @ [TlvManagement mid (2 + (datalen + datalen mod 2)) md]\<rparr>), target))"

definition port_management_construct ::
  "env \<Rightarrow> PortIdentity \<Rightarrow> port \<Rightarrow> u16 \<Rightarrow> PortIdentity option \<Rightarrow> u8 \<Rightarrow> u8 \<Rightarrow> pmsg option \<times> port" where
  "port_management_construct e pid ingress sequenceId targetPortIdentity hops action =
    (case msg_allocate e ingress of
       (None, ingress) \<Rightarrow> (None, ingress)
     | (Some m, ingress) \<Rightarrow>
         (Some (m\<lparr>pm_hwts_type := p_timestamping ingress, pm_tsmt := MANAGEMENT OR p_transportSpecific ingress,
            pm_ver := e_hdr_ver e, pm_domainNumber := cv_domain_number (clk e ingress), pm_source := pid,
            pm_sequenceId := sequenceId, pm_logMessageInterval := 0x7f,
            pm_portid := (case targetPortIdentity of None \<Rightarrow> pm_portid m | Some t \<Rightarrow> t),
            pm_startingBoundaryHops := hops, pm_boundaryHops := hops,
            pm_mgmt_flags := (if action = GET \<or> action = SET then RESPONSE
                              else if action = COMMAND then ACKNOWLEDGE else pm_mgmt_flags m)\<rparr>), ingress))"

definition pm_action :: "pmsg \<Rightarrow> u8" where
  "pm_action m = pm_mgmt_flags m AND 0x0f"

definition port_management_reply :: "env \<Rightarrow> PortIdentity \<Rightarrow> port \<Rightarrow> pmsg \<Rightarrow> pmsg option \<times> port" where
  "port_management_reply e pid ingress req =
    port_management_construct e pid ingress (pm_sequenceId req) (Some (pm_source req))
      (pm_startingBoundaryHops req - pm_boundaryHops req) (pm_action req)"

definition port_management_notify :: "env \<Rightarrow> PortIdentity \<Rightarrow> port \<Rightarrow> pmsg option \<times> port" where
  "port_management_notify e pid p = port_management_construct e pid p 0 None 1 GET"

definition port_notify_event :: "env \<Rightarrow> port \<Rightarrow> notification \<Rightarrow> port" where
  "port_notify_event e p event =
    (let notify = (\<lambda>mid.
       case port_management_notify e (p_portIdentity p) p of
         (None, p) \<Rightarrow> p
       | (Some m, p) \<Rightarrow>
           (case port_management_fill_response e p m mid of
              (None, p) \<Rightarrow> p
            | (Some m, p) \<Rightarrow> if \<not> pm_pre_send_ok m then p else do_call (Clock_send_notification event m) p))
     in case event of
          NOTIFY_PORT_STATE \<Rightarrow> notify MID_PORT_DATA_SET
        | NOTIFY_CMLDS \<Rightarrow> notify MID_CMLDS_INFO_NP
        | _ \<Rightarrow> p)"

section \<open>Requests\<close>

text \<open>The target and the ingress port are the same object in these definitions: a request that
  arrives at one port of the clock and is meant for another one is answered through the ingress
  port. The id and the data of the management TLV, which \<open>clock_manage\<close> has checked to be there,
  are arguments.\<close>

definition port_management_get_response :: "env \<Rightarrow> port \<Rightarrow> u16 \<Rightarrow> pmsg \<Rightarrow> bool \<times> port" where
  "port_management_get_response e p mid req =
    (case port_management_reply e (p_portIdentity p) p req of
       (None, p) \<Rightarrow> (False, p)
     | (Some rsp, p) \<Rightarrow>
         (case port_management_fill_response e p rsp mid of
            (None, p) \<Rightarrow> (False, p)
          | (Some rsp, p) \<Rightarrow> (case port_prepare_and_send e p rsp TRANS_GENERAL of (_, _, p) \<Rightarrow> (True, p))))"

definition port_management_set :: "env \<Rightarrow> port \<Rightarrow> u16 \<Rightarrow> mgmt_data \<Rightarrow> pmsg \<Rightarrow> bool \<times> port" where
  "port_management_set e p mid md req =
    (let (respond, p) =
       (case md of
          MD_PORT_DS_NP thresh _ \<Rightarrow>
            if mid = MID_PORT_DATA_SET_NP then (True, p\<lparr>p_neighborPropDelayThresh := thresh\<rparr>) else (False, p)
        | MD_POWER pwr \<Rightarrow>
            if mid = MID_POWER_PROFILE_SETTINGS_NP \<and> pw_version pwr \<le> 2 then (True, p\<lparr>p_pwr := pwr\<rparr>) else (False, p)
        | _ \<Rightarrow> (False, p));
         p = (if respond then snd (port_management_get_response e p mid req) else p)
     in (respond, p))"

definition port_management_error :: "env \<Rightarrow> PortIdentity \<Rightarrow> port \<Rightarrow> u16 \<Rightarrow> pmsg \<Rightarrow> u16 \<Rightarrow> int \<times> port" where
  "port_management_error e pid ingress mid req error_id =
    (case port_management_reply e pid ingress req of
       (None, p) \<Rightarrow> (-1, p)
     | (Some m, p) \<Rightarrow>
         (case tlv_append e p m (TlvMgmtError error_id mid) of
            (None, p) \<Rightarrow> (-12, p)
          | (Some m, p) \<Rightarrow> (case port_prepare_and_send e p m TRANS_GENERAL of (err, _, p) \<Rightarrow> (err, p))))"

definition port_management_send_error :: "env \<Rightarrow> port \<Rightarrow> u16 \<Rightarrow> pmsg \<Rightarrow> u16 \<Rightarrow> port" where
  "port_management_send_error e p mid req error_id =
    snd (port_management_error e (p_portIdentity p) p mid req error_id)"

definition not_supported_ids :: "u16 list" where
  "not_supported_ids =
    [MID_NULL_MANAGEMENT, MID_CLOCK_DESCRIPTION, MID_PORT_DATA_SET, MID_LOG_ANNOUNCE_INTERVAL,
     MID_ANNOUNCE_RECEIPT_TIMEOUT, MID_LOG_SYNC_INTERVAL, MID_VERSION_NUMBER, MID_ENABLE_PORT, MID_DISABLE_PORT,
     MID_UNICAST_NEGOTIATION_ENABLE, MID_UNICAST_MASTER_TABLE, MID_UNICAST_MASTER_MAX_TABLE_SIZE,
     MID_ACCEPTABLE_MASTER_TABLE_ENABLED, MID_ALTERNATE_MASTER, MID_MASTER_ONLY,
     MID_TRANSPARENT_CLOCK_PORT_DATA_SET, MID_DELAY_MECHANISM, MID_LOG_MIN_PDELAY_REQ_INTERVAL]"

definition port_manage :: "env \<Rightarrow> port \<Rightarrow> u16 \<Rightarrow> mgmt_data \<Rightarrow> pmsg \<Rightarrow> int \<times> port" where
  "port_manage e p mid md m =
    (let target = portNumber (pm_portid m);
         finish = (\<lambda>p.
           if mid \<in> set not_supported_ids then (1, port_management_send_error e p mid m MID_NOT_SUPPORTED)
           else (-1, port_management_send_error e p mid m MID_NO_SUCH_ID))
     in if target \<noteq> portNumber (p_portIdentity p) \<and> target \<noteq> 0xffff then (0, p)
        else if pm_action m = GET
        then (case port_management_get_response e p mid m of (done, p) \<Rightarrow> if done then (1, p) else finish p)
        else if pm_action m = SET
        then (case port_management_set e p mid md m of (done, p) \<Rightarrow> if done then (1, p) else finish p)
        else if pm_action m = COMMAND then finish p
        else (-1, p))"

section \<open>What management changes\<close>

lemma only_log_construct:
  "only_log p (snd (port_management_construct e pid p sid tpid hops action))"
  by (auto simp: port_management_construct_def split: prod.splits option.splits) (metis only_log_alloc(1) snd_conv)+

lemma only_log_fill_response: "only_log p (snd (port_management_fill_response e p m mid))"
  by (auto simp: port_management_fill_response_def Let_def split: option.splits)

lemma only_log_notify_event [simp, intro]: "only_log p (port_notify_event e p event)"
proof -
  have "only_log p (snd (port_management_notify e (p_portIdentity p) p))"
    by (simp add: port_management_notify_def only_log_construct)
  moreover note only_log_fill_response only_log_do_call
  ultimately show ?thesis
    unfolding port_notify_event_def Let_def
    by (auto split: notification.splits prod.splits option.splits) (metis only_log_trans snd_conv)+
qed

end
