(* ===== verification/Port_Capable.thy ===== *)
theory Port_Capable
  imports Port_Mgmt
begin

text \<open>
  Whether a port of an IEEE 802.1AS network is capable of synchronizing with its neighbour
  (\<open>port_capable\<close>, \<open>port_nrate_initialize\<close>, \<open>port_nrate_calculate\<close> of \<open>port.c\<close>), and the signaling messages
  (\<open>port_signaling_construct\<close>, \<open>port_tx_interval_request\<close>, \<open>port_tx_gptp_capable\<close> of \<open>port_signaling.c\<close>).

  \<open>port_capable\<close> calls \<open>port_tx_gptp_capable\<close>, which calls \<open>port_capable\<close> in the argument of a debug
  message: the recursion is a \<open>partial_function\<close> whose value \<open>None\<close> means that it does not return.
\<close>

section \<open>Signaling\<close>

definition wildcard_pid :: PortIdentity where
  "wildcard_pid = \<lparr>clockIdentity = replicate 8 0xff, portNumber = 0xffff\<rparr>"

definition port_signaling_construct :: "env \<Rightarrow> port \<Rightarrow> PortIdentity \<Rightarrow> pmsg option \<times> port" where
  "port_signaling_construct e p tpid =
    (case msg_allocate e p of
       (None, p) \<Rightarrow> (None, p)
     | (Some m, p) \<Rightarrow>
         (Some (m\<lparr>pm_hwts_type := p_timestamping p, pm_tsmt := SIGNALING OR p_transportSpecific p, pm_ver := 0x12,
            pm_domainNumber := cv_domain_number (clk e p), pm_source := p_portIdentity p,
            pm_sequenceId := p_seq_signaling p, pm_logMessageInterval := 0x7f, pm_portid := tpid\<rparr>),
          p\<lparr>p_seq_signaling := p_seq_signaling p + 1\<rparr>))"

definition port_signaling_uc_construct :: "env \<Rightarrow> port \<Rightarrow> address \<Rightarrow> PortIdentity \<Rightarrow> pmsg option \<times> port" where
  "port_signaling_uc_construct e p addr tpid =
    (case port_signaling_construct e p tpid of
       (None, p) \<Rightarrow> (None, p)
     | (Some m, p) \<Rightarrow> (Some (m\<lparr>pm_flag0 := pm_flag0 m OR FLAG_UNICAST, pm_address := addr\<rparr>), p))"

text \<open>Append a TLV, send, and release the message: the shape of the functions that send signaling.\<close>

definition append_and_send :: "env \<Rightarrow> port \<Rightarrow> pmsg \<Rightarrow> ptlv \<Rightarrow> int \<times> port" where
  "append_and_send e p m t =
    (case tlv_append e p m t of
       (None, p) \<Rightarrow> (-1, p)
     | (Some m, p) \<Rightarrow> (case port_prepare_and_send e p m TRANS_GENERAL of (err, _, p) \<Rightarrow> (err, p)))"

section \<open>Neighbour rate\<close>

definition port_nrate_initialize :: "port \<Rightarrow> port" where
  "port_nrate_initialize p =
    (let shift = p_freq_est_interval p - p_logPdelayReqInterval p;
         shift = (if shift < 0 then 0 else if shift \<ge> 32 then 31 else nat shift)
     in p\<lparr>p_pdr_missing := unat (p_allowedLostResponses p) + 1, p_peer_portid_valid := False,
          p_nrate := (p_nrate p)\<lparr>nr_origin1 := tmv_zero, nr_ingress1 := tmv_zero, nr_max_count := 2 ^ shift,
            nr_count := 0, nr_ratio := 1, nr_ratio_valid := False\<rparr>\<rparr>)"

definition port_nrate_calculate :: "port \<Rightarrow> tmv_t \<Rightarrow> tmv_t \<Rightarrow> port" where
  "port_nrate_calculate p origin ingress =
    (let p = p\<lparr>p_pdr_missing := 0\<rparr>; n = p_nrate p
     in if tmv_is_zero (nr_ingress1 n)
        then p\<lparr>p_nrate := n\<lparr>nr_ingress1 := ingress, nr_origin1 := origin\<rparr>\<rparr>
        else let n = n\<lparr>nr_count := nr_count n + 1\<rparr>
             in if nr_count n < nr_max_count n then p\<lparr>p_nrate := n\<rparr>
                else if tmv_cmp ingress (nr_ingress1 n) = 0 then p\<lparr>p_nrate := n\<rparr>
                else p\<lparr>p_nrate := n\<lparr>
                       nr_ratio := rnd64 (tmv_dbl (tmv_sub origin (nr_origin1 n)) / tmv_dbl (tmv_sub ingress (nr_ingress1 n))),
                       nr_ingress1 := ingress, nr_origin1 := origin, nr_count := 0, nr_ratio_valid := True\<rparr>\<rparr>)"

section \<open>Capability\<close>

definition port_is_ieee8021as :: "port \<Rightarrow> bool" where
  "port_is_ieee8021as p \<longleftrightarrow> p_asCapable p \<noteq> ALWAYS_CAPABLE \<and> p_follow_up_info p"

text \<open>The six tests of \<open>port_capable\<close> that lead to \<open>not_capable\<close>, negated.\<close>

definition neighbor_ok :: "port \<Rightarrow> bool" where
  "neighbor_ok p \<longleftrightarrow>
    \<not> sint (tmv_to_nanoseconds (p_peer_delay p)) > uint (p_neighborPropDelayThresh p) \<and>
    \<not> sint (tmv_to_nanoseconds (p_peer_delay p)) < p_min_neighbor_prop_delay p \<and>
    \<not> p_pdr_missing p > unat (p_allowedLostResponses p) \<and>
    \<not> p_multiple_seq_pdr_count p > unat (p_allowedLostResponses p) \<and>
    \<not> (\<not> p_peer_portid_valid p \<and> \<not> p_multiple_pdr_detected p) \<and>
    nr_ratio_valid (p_nrate p)"

definition ieee8021_id :: "u8 list" where
  "ieee8021_id = [0x00, 0x80, 0xC2]"

definition gptp_capable_tlv :: ptlv where
  "gptp_capable_tlv = TlvOrg True ieee8021_id [0, 0, 1] [0, 0x7f]"

text \<open>\<open>port_tx_gptp_capable\<close> with the function that it calls in its debug message.\<close>

definition tx_gptp_with :: "env \<Rightarrow> (port \<Rightarrow> (bool \<times> port) option) \<Rightarrow> port \<Rightarrow> (int \<times> port) option" where
  "tx_gptp_with e capable p =
    (if \<not> port_is_ieee8021as p \<and> p_transportSpecific p \<noteq> TS_CMLDS then Some (0, p)
     else do {
       p \<leftarrow> (if e_debug e then do { (_, p) \<leftarrow> capable p; Some p } else Some p);
       Some (case port_signaling_construct e p wildcard_pid of
               (None, p) \<Rightarrow> (-1, p)
             | (Some m, p) \<Rightarrow> append_and_send e p m gptp_capable_tlv)
     })"

lemma tx_gptp_with_mono [partial_function_mono]:
  "(\<And>q. mono_option (\<lambda>f. C f q)) \<Longrightarrow> mono_option (\<lambda>f. tx_gptp_with e (C f) p)"
  unfolding tx_gptp_with_def by (auto intro!: partial_function_mono bind_mono split: prod.splits)

definition capable_with :: "env \<Rightarrow> (port \<Rightarrow> (bool \<times> port) option) \<Rightarrow> port \<Rightarrow> (bool \<times> port) option" where
  "capable_with e capable p =
    (if port_is_ieee8021as p \<and> p_delayMechanism p = DM_COMMON_P2P then Some (p_asCapable p \<noteq> NOT_CAPABLE, p)
     else if \<not> port_is_ieee8021as p \<or> neighbor_ok p
     then if p_asCapable p = NOT_CAPABLE
          then let p = port_notify_event e (p\<lparr>p_asCapable := AS_CAPABLE\<rparr>) NOTIFY_CMLDS
               in if p_gptp_capable_transmit p
                  then do { (_, p) \<leftarrow> tx_gptp_with e capable p; Some (True, p) }
                  else Some (True, p)
          else Some (True, p)
     else let p = (if p_asCapable p \<noteq> NOT_CAPABLE then port_nrate_initialize p else p);
              p = port_notify_event e (p\<lparr>p_asCapable := NOT_CAPABLE\<rparr>) NOTIFY_CMLDS
          in if p_gptp_capable_transmit p
             then do { (_, p) \<leftarrow> tx_gptp_with e capable p; Some (False, p) }
             else Some (False, p))"

lemma capable_with_mono [partial_function_mono]:
  "(\<And>q. mono_option (\<lambda>f. C f q)) \<Longrightarrow> mono_option (\<lambda>f. capable_with e (C f) p)"
  unfolding capable_with_def Let_def by (auto intro!: partial_function_mono bind_mono tx_gptp_with_mono split: prod.splits)

partial_function (option) port_capable :: "env \<Rightarrow> port \<Rightarrow> (bool \<times> port) option" where
  "port_capable e p = capable_with e (\<lambda>q. port_capable e q) p"

definition port_tx_gptp_capable :: "env \<Rightarrow> port \<Rightarrow> (int \<times> port) option" where
  "port_tx_gptp_capable e p = tx_gptp_with e (port_capable e) p"

definition interval_request_tlv :: "int \<Rightarrow> int \<Rightarrow> int \<Rightarrow> ptlv" where
  "interval_request_tlv announceInterval timeSyncInterval linkDelayInterval =
    TlvOrg False ieee8021_id [0, 0, 2]
      [of_int linkDelayInterval, of_int timeSyncInterval, of_int announceInterval, 0, 0, 0]"

definition port_tx_interval_request :: "env \<Rightarrow> port \<Rightarrow> int \<Rightarrow> int \<Rightarrow> int \<Rightarrow> (int \<times> port) option" where
  "port_tx_interval_request e p announceInterval timeSyncInterval linkDelayInterval = do {
     (capable, p) \<leftarrow> port_capable e p;
     Some (if \<not> capable then (0, p)
           else case port_signaling_construct e p wildcard_pid of
             (None, p) \<Rightarrow> (-1, p)
           | (Some m, p) \<Rightarrow>
               append_and_send e p m (interval_request_tlv announceInterval timeSyncInterval linkDelayInterval))
   }"

section \<open>When the test returns\<close>

text \<open>The outcome of the test, before its effects.\<close>

definition link_capable :: "port \<Rightarrow> bool" where
  "link_capable p \<longleftrightarrow>
    (if port_is_ieee8021as p \<and> p_delayMechanism p = DM_COMMON_P2P then p_asCapable p \<noteq> NOT_CAPABLE
     else \<not> port_is_ieee8021as p \<or> neighbor_ok p)"

text \<open>The situation in which the debug message of \<open>port_tx_gptp_capable\<close> recurses.\<close>

definition capable_recurses :: "env \<Rightarrow> port \<Rightarrow> bool" where
  "capable_recurses e p \<longleftrightarrow> e_debug e \<and> p_gptp_capable_transmit p \<and> port_is_ieee8021as p \<and>
     p_delayMechanism p \<noteq> DM_COMMON_P2P \<and> \<not> neighbor_ok p"

lemma capable_recurses_step:
  assumes "capable_recurses e p"
    and "q = port_notify_event e ((if p_asCapable p \<noteq> NOT_CAPABLE then port_nrate_initialize p else p)
      \<lparr>p_asCapable := NOT_CAPABLE\<rparr>) NOTIFY_CMLDS"
  shows "capable_recurses e q"
proof -
  let ?p = "(if p_asCapable p \<noteq> NOT_CAPABLE then port_nrate_initialize p else p)\<lparr>p_asCapable := NOT_CAPABLE\<rparr>"
  have "capable_recurses e ?p"
    using assms(1)
    by (auto simp: capable_recurses_def port_is_ieee8021as_def neighbor_ok_def port_nrate_initialize_def Let_def)
  moreover obtain cs where "q = ?p\<lparr>p_log := p_log ?p @ cs\<rparr>"
    using assms(2) only_logE only_log_notify_event by metis
  ultimately show ?thesis by (simp add: capable_recurses_def port_is_ieee8021as_def neighbor_ok_def)
qed

lemma capable_recurses_None:
  assumes "capable_recurses e p"
  shows "port_capable e p = None"
proof (rule ccontr)
  assume "port_capable e p \<noteq> None"
  then obtain r where "port_capable e p = Some r" by blast
  then have "\<not> capable_recurses e p"
  proof (rule port_capable.raw_induct [rotated])
    fix f e p and r :: "bool \<times> port"
    assume ih: "\<And>e p r. f e p = Some r \<Longrightarrow> \<not> capable_recurses e p"
      and eq: "capable_with e (\<lambda>q. f e q) p = Some r"
    show "\<not> capable_recurses e p"
    proof
      assume bad: "capable_recurses e p"
      let ?q = "port_notify_event e ((if p_asCapable p \<noteq> NOT_CAPABLE then port_nrate_initialize p else p)
        \<lparr>p_asCapable := NOT_CAPABLE\<rparr>) NOTIFY_CMLDS"
      have q: "capable_recurses e ?q" using capable_recurses_step [OF bad] by simp
      then have "f e ?q = None" using ih by (meson not_None_eq)
      then have "tx_gptp_with e (f e) ?q = None" using q by (simp add: tx_gptp_with_def capable_recurses_def)
      then show False
        using eq bad q by (auto simp: capable_with_def capable_recurses_def Let_def split: if_splits)
    qed
  qed
  then show False using assms by contradiction
qed

text \<open>What the test may change: the capability itself, the neighbour rate, and what sending changes.\<close>

definition hide_cap :: "port \<Rightarrow> port" where
  "hide_cap p = p\<lparr>p_log := [], p_stats_tx := \<lambda>_. 0, p_asCapable := NOT_CAPABLE, p_pdr_missing := 0,
     p_peer_portid_valid := False, p_nrate := p_nrate p\<lparr>nr_ratio := 0, nr_origin1 := 0, nr_ingress1 := 0,
       nr_max_count := 0, nr_count := 0, nr_ratio_valid := False\<rparr>, p_seq_signaling := 0\<rparr>"

definition only_cap :: "port \<Rightarrow> port \<Rightarrow> bool" where
  "only_cap p q \<longleftrightarrow> hide_cap q = hide_cap p \<and> (\<exists>cs. p_log q = p_log p @ cs)"

lemma only_capE:
  assumes "only_cap p q"
  obtains cs t a x v n s where "q = p\<lparr>p_log := p_log p @ cs, p_stats_tx := t, p_asCapable := a,
     p_pdr_missing := x, p_peer_portid_valid := v, p_nrate := n, p_seq_signaling := s\<rparr>"
proof -
  have "q = p\<lparr>p_log := p_log q, p_stats_tx := p_stats_tx q, p_asCapable := p_asCapable q,
     p_pdr_missing := p_pdr_missing q, p_peer_portid_valid := p_peer_portid_valid q, p_nrate := p_nrate q,
     p_seq_signaling := p_seq_signaling q\<rparr>"
    using assms by (cases p, cases q) (simp add: only_cap_def hide_cap_def)
  then show thesis using assms that unfolding only_cap_def by metis
qed

lemma only_cap_tx: "only_tx p q \<Longrightarrow> only_cap p q"
  by (elim only_txE) (simp add: only_cap_def hide_cap_def)

lemma only_cap_log: "only_log p q \<Longrightarrow> only_cap p q"
  by (simp add: only_cap_tx only_tx_log)

lemma only_cap_trans [trans]: "only_cap p q \<Longrightarrow> only_cap q r \<Longrightarrow> only_cap p r"
  by (auto simp: only_cap_def)

lemma only_cap_update:
  "only_cap p q \<Longrightarrow> only_cap p (q\<lparr>p_seq_signaling := s\<rparr>)"
  "only_cap p q \<Longrightarrow> only_cap p (q\<lparr>p_asCapable := a\<rparr>)"
  "only_cap p q \<Longrightarrow> only_cap p (port_nrate_initialize q)"
  by (simp_all add: only_cap_def hide_cap_def port_nrate_initialize_def Let_def)

lemma only_cap_signaling [simp, intro]: "only_cap p (snd (port_signaling_construct e p tpid))"
proof -
  obtain r q where a: "msg_allocate e p = (r, q)" by fastforce
  then have "only_cap p q" using only_cap_log only_log_alloc(1) by (metis snd_conv)
  then show ?thesis using a by (auto simp: port_signaling_construct_def only_cap_update split: option.splits)
qed

lemma only_cap_append_and_send [simp, intro]: "only_cap p (snd (append_and_send e p m t))"
proof -
  obtain r q where a: "tlv_append e p m t = (r, q)" by fastforce
  then have q: "only_cap p q" using only_cap_log only_log_alloc(2) by (metis snd_conv)
  show ?thesis
  proof (cases r)
    case (Some m')
    obtain err m'' q' where s: "port_prepare_and_send e q m' TRANS_GENERAL = (err, m'', q')" by (metis prod.exhaust)
    then have "only_cap q q'" using only_cap_tx only_tx_send(2) by (metis snd_conv)
    then show ?thesis using a q s Some only_cap_trans by (simp add: append_and_send_def)
  qed (use a q in \<open>simp add: append_and_send_def\<close>)
qed

lemma tx_gptp_returns:
  assumes "\<not> e_debug e \<or> (\<exists>b r. capable p = Some (b, r) \<and> only_cap p r)"
  obtains err q where "tx_gptp_with e capable p = Some (err, q)" and "only_cap p q"
proof -
  have "\<exists>r. (if e_debug e then do { (_, p) \<leftarrow> capable p; Some p } else Some p) = Some r \<and> only_cap p r"
    using assms only_cap_log [OF only_log_refl] by auto
  then obtain r where r: "(if e_debug e then do { (_, p) \<leftarrow> capable p; Some p } else Some p) = Some r" "only_cap p r" by blast
  obtain mo s where c: "port_signaling_construct e r wildcard_pid = (mo, s)" by fastforce
  then have s: "only_cap p s" using r(2) only_cap_signaling only_cap_trans by (metis snd_conv)
  show thesis
  proof (cases "\<not> port_is_ieee8021as p \<and> p_transportSpecific p \<noteq> TS_CMLDS")
    case True
    then show thesis using that [of 0 p] only_cap_log [OF only_log_refl] by (simp add: tx_gptp_with_def)
  next
    case False
    then have t: "tx_gptp_with e capable p =
        Some (case mo of None \<Rightarrow> (-1, s) | Some m \<Rightarrow> append_and_send e s m gptp_capable_tlv)"
      using r(1) c by (auto simp: tx_gptp_with_def)
    show thesis
    proof (cases mo)
      case None
      then show thesis using that [of "-1" s] s t by simp
    next
      case (Some m)
      then show thesis
        using that [of "fst (append_and_send e s m gptp_capable_tlv)" "snd (append_and_send e s m gptp_capable_tlv)"]
          t s only_cap_append_and_send only_cap_trans by (simp, blast?)
    qed
  qed
qed

lemma port_capable_returns:
  assumes "\<not> capable_recurses e p"
  obtains q where "port_capable e p = Some (link_capable p, q)" and "only_cap p q"
proof -
  consider (common) "port_is_ieee8021as p \<and> p_delayMechanism p = DM_COMMON_P2P"
    | (ok) "\<not> (port_is_ieee8021as p \<and> p_delayMechanism p = DM_COMMON_P2P)" "\<not> port_is_ieee8021as p \<or> neighbor_ok p"
    | (bad) "p_delayMechanism p \<noteq> DM_COMMON_P2P" "port_is_ieee8021as p" "\<not> neighbor_ok p"
    by blast
  then show thesis
  proof cases
    case common
    then have "port_capable e p = Some (link_capable p, p)"
      by (subst port_capable.simps) (simp add: capable_with_def link_capable_def)
    then show thesis using that only_cap_log [OF only_log_refl] by blast
  next
    case ok
    then have lc: "link_capable p" by (auto simp: link_capable_def)
    define q where "q = port_notify_event e (p\<lparr>p_asCapable := AS_CAPABLE\<rparr>) NOTIFY_CMLDS"
    obtain cs where cs: "q = (p\<lparr>p_asCapable := AS_CAPABLE\<rparr>)\<lparr>p_log := p_log p @ cs\<rparr>"
      using only_logE [OF only_log_notify_event [of "p\<lparr>p_asCapable := AS_CAPABLE\<rparr>" e NOTIFY_CMLDS]]
      unfolding q_def by auto
    have q: "only_cap p q" by (simp add: cs only_cap_def hide_cap_def)
    show thesis
    proof (cases "p_asCapable p = NOT_CAPABLE")
      case False
      then have "port_capable e p = Some (True, p)" using ok by (subst port_capable.simps) (auto simp: capable_with_def)
      then show thesis using that [of p] lc only_cap_log [OF only_log_refl] by simp
    next
      case True
      then have "port_capable e q = Some (True, q)"
        using ok by (subst port_capable.simps) (auto simp: capable_with_def cs port_is_ieee8021as_def neighbor_ok_def)
      then obtain err r where "tx_gptp_with e (\<lambda>q. port_capable e q) q = Some (err, r)" "only_cap q r"
        using tx_gptp_returns [of e "\<lambda>q. port_capable e q" q] only_cap_log [OF only_log_refl] by blast
      moreover have "port_capable e p = (if p_gptp_capable_transmit q
          then do { (_, p) \<leftarrow> tx_gptp_with e (\<lambda>q. port_capable e q) q; Some (True, p) } else Some (True, q))"
        using ok True by (subst port_capable.simps) (auto simp: capable_with_def q_def Let_def)
      ultimately show thesis using that [of q] that [of r] lc q only_cap_trans by (auto split: if_splits)
    qed
  next
    case bad
    then have lc: "\<not> link_capable p" by (auto simp: link_capable_def)
    define q where "q = port_notify_event e ((if p_asCapable p \<noteq> NOT_CAPABLE then port_nrate_initialize p else p)
        \<lparr>p_asCapable := NOT_CAPABLE\<rparr>) NOTIFY_CMLDS"
    have q: "only_cap p q"
      unfolding q_def
      by (rule only_cap_trans [OF _ only_cap_log [OF only_log_notify_event]]) (simp add: only_cap_update only_cap_log)
    obtain cs where "p_cfg q = p_cfg p" using q by (elim only_capE) simp
    then have nd: "p_gptp_capable_transmit q \<Longrightarrow> \<not> e_debug e" using assms bad by (auto simp: capable_recurses_def)
    have c: "port_capable e p = (if p_gptp_capable_transmit q
        then do { (_, p) \<leftarrow> tx_gptp_with e (\<lambda>q. port_capable e q) q; Some (False, p) } else Some (False, q))"
      using bad by (subst port_capable.simps) (auto simp: capable_with_def q_def Let_def)
    show thesis
    proof (cases "p_gptp_capable_transmit q")
      case True
      then obtain err r where "tx_gptp_with e (\<lambda>q. port_capable e q) q = Some (err, r)" "only_cap q r"
        using tx_gptp_returns nd by metis
      then show thesis using that [of r] c True lc q only_cap_trans by auto
    qed (use that [of q] c lc q in simp)
  qed
qed

text \<open>The capability test, completely: it fails to return exactly when debug messages are printed, the
  port announces its capability and its neighbour is not capable (\<open>capable_recurses\<close>); otherwise it returns
  the outcome of the tests on delay, lost and multiple responses, peer identity and rate ratio, and changes
  nothing of the port but the capability, the neighbour rate and the counters of sent messages.\<close>

theorem port_capable_spec:
  "case port_capable e p of
     None \<Rightarrow> capable_recurses e p
   | Some (b, q) \<Rightarrow> \<not> capable_recurses e p \<and> b = link_capable p \<and> only_cap p q"
proof (cases "capable_recurses e p")
  case True
  then show ?thesis using capable_recurses_None by simp
next
  case False
  then obtain q where "port_capable e p = Some (link_capable p, q)" "only_cap p q" by (rule port_capable_returns)
  then show ?thesis using False by simp
qed

text \<open>The recursion is real: a port that has just been initialized as an IEEE 802.1AS port with the peer
  delay mechanism and the default \<open>gptp_capable_transmit\<close> is not capable yet, and the first test
  with debug messages enabled never returns (in C, it exhausts the stack).\<close>

theorem port_capable_debug_recursion:
  assumes "e_debug e" and "p_gptp_capable_transmit p" and "p_follow_up_info p"
    and "p_asCapable p \<noteq> ALWAYS_CAPABLE" and "p_delayMechanism p \<noteq> DM_COMMON_P2P"
  shows "port_capable e (port_nrate_initialize p) = None"
  using assms
  by (intro capable_recurses_None)
    (auto simp: capable_recurses_def port_is_ieee8021as_def neighbor_ok_def port_nrate_initialize_def Let_def)

theorem port_capable_debug_recursion_witness:
  "port_capable (sample_env\<lparr>e_debug := True\<rparr>) (port_nrate_initialize (sample_port\<lparr>p_delayMechanism := DM_P2P,
     p_cfg := zero_config\<lparr>c_gptp_capable_transmit := True, c_follow_up_info := True\<rparr>\<rparr>)) = None"
  by (rule port_capable_debug_recursion) (simp_all add: sample_defs)

end
