(* ===== verification/Port_Unicast.thy ===== *)
theory Port_Unicast
  imports Port_Capable
begin

text \<open>
  The unicast client of \<open>unicast_client.c\<close>: the requests to the masters of its table, the grants and
  cancellations it receives, and the renewal of subscriptions.

  A master of the table is given by its index; \<open>set_master\<close> stores its new value.
\<close>

definition E2E_SYDY_MASK :: u32 where "E2E_SYDY_MASK = type_mask ANNOUNCE OR type_mask SYNC OR type_mask DELAY_RESP"
definition P2P_SYDY_MASK :: u32 where "P2P_SYDY_MASK = type_mask ANNOUNCE OR type_mask SYNC"
definition E2E_SY_MASK :: u32 where "E2E_SY_MASK = type_mask ANNOUNCE OR type_mask SYNC"

abbreviation "UNICAST_CANCEL_ALL \<equiv> type_mask ANNOUNCE OR type_mask SYNC OR type_mask DELAY_RESP"
abbreviation "UNICAST_CANCEL_SYDY \<equiv> type_mask SYNC OR type_mask DELAY_RESP"
abbreviation "CANCEL_UNICAST_MAINTAIN_REQUEST \<equiv> 1 :: u8"
abbreviation "CANCEL_UNICAST_MAINTAIN_GRANT \<equiv> 2 :: u8"

definition unicast_client_enabled :: "port \<Rightarrow> bool" where
  "unicast_client_enabled p \<longleftrightarrow> p_unicast_master_table p \<noteq> None"

definition masters :: "port \<Rightarrow> unicast_master_address list" where
  "masters p = (case p_unicast_master_table p of None \<Rightarrow> [] | Some t \<Rightarrow> ut_addrs t)"

definition set_master :: "nat \<Rightarrow> unicast_master_address \<Rightarrow> port \<Rightarrow> port" where
  "set_master i ucma p =
    p\<lparr>p_unicast_master_table := map_option (\<lambda>t. t\<lparr>ut_addrs := (ut_addrs t)[i := ucma]\<rparr>) (p_unicast_master_table p)\<rparr>"

definition set_peer :: "unicast_master_address \<Rightarrow> port \<Rightarrow> port" where
  "set_peer peer p = p\<lparr>p_unicast_master_table := map_option (\<lambda>t. t\<lparr>ut_peer_addr := peer\<rparr>) (p_unicast_master_table p)\<rparr>"

section \<open>Building requests\<close>

definition attach_ack :: "env \<Rightarrow> port \<Rightarrow> pmsg \<Rightarrow> u8 \<Rightarrow> pmsg option \<times> port" where
  "attach_ack e p m message_type_flags = tlv_append e p m (TlvAckCancel message_type_flags)"

definition attach_request :: "env \<Rightarrow> port \<Rightarrow> pmsg \<Rightarrow> int \<Rightarrow> u8 \<Rightarrow> u32 \<Rightarrow> pmsg option \<times> port" where
  "attach_request e p m log_period message_type duration =
    tlv_append e p m (TlvRequest (push_bit 4 message_type) log_period duration)"

definition attach_cancel :: "env \<Rightarrow> port \<Rightarrow> pmsg \<Rightarrow> u8 \<Rightarrow> pmsg option \<times> port" where
  "attach_cancel e p m message_type = tlv_append e p m (TlvCancel (push_bit 4 message_type))"

text \<open>Attach one request for each message type and interval; \<open>None\<close> as soon as one fails.\<close>

fun attach_requests :: "env \<Rightarrow> port \<Rightarrow> pmsg \<Rightarrow> (int \<times> u8) list \<Rightarrow> pmsg option \<times> port" where
  "attach_requests e p m [] = (Some m, p)"
| "attach_requests e p m ((log_period, mtype) # rs) =
    (case attach_request e p m log_period mtype (p_unicast_req_duration p) of
       (None, p) \<Rightarrow> (None, p)
     | (Some m, p) \<Rightarrow> attach_requests e p m rs)"

definition send_requests :: "env \<Rightarrow> port \<Rightarrow> unicast_master_address \<Rightarrow> (int \<times> u8) list \<Rightarrow> int \<times> port" where
  "send_requests e p dst rs =
    (case port_signaling_uc_construct e p (um_address dst) (um_portIdentity dst) of
       (None, p) \<Rightarrow> (-1, p)
     | (Some m, p) \<Rightarrow>
         (case attach_requests e p m rs of
            (None, p) \<Rightarrow> (-1, p)
          | (Some m, p) \<Rightarrow> (case port_prepare_and_send e p m TRANS_GENERAL of (err, _, p) \<Rightarrow> (err, p))))"

definition unicast_client_announce :: "env \<Rightarrow> port \<Rightarrow> unicast_master_address \<Rightarrow> int \<times> port" where
  "unicast_client_announce e p dst = send_requests e p dst [(p_logAnnounceInterval p, ANNOUNCE)]"

definition sydy_requests :: "port \<Rightarrow> (int \<times> u8) list" where
  "sydy_requests p = (p_logSyncInterval p, SYNC) #
     (if p_delayMechanism p \<noteq> DM_P2P \<and> p_delayMechanism p \<noteq> DM_NO_MECHANISM
      then [(p_logMinDelayReqInterval p, DELAY_RESP)] else [])"

definition unicast_client_sydy :: "env \<Rightarrow> port \<Rightarrow> unicast_master_address \<Rightarrow> int \<times> port" where
  "unicast_client_sydy e p dst = send_requests e p dst (sydy_requests p)"

definition unicast_client_peer_renew :: "env \<Rightarrow> port \<Rightarrow> int \<times> port" where
  "unicast_client_peer_renew e p =
    (case p_unicast_master_table p of
       None \<Rightarrow> (0, p)
     | Some t \<Rightarrow>
         if ut_peer_name t = None then (0, p)
         else let (now, p) = clock_gettime e p; peer = ut_peer_addr t
              in if ret e p \<noteq> 0 then (ret e p, p)
                 else if sint (tv_sec now) < um_renewal_tmo peer then (0, p)
                 else let peer = peer\<lparr>um_renewal_tmo := 0\<rparr>; p = set_peer peer p
                      in send_requests e p peer [(p_logPdelayReqInterval p, PDELAY_RESP)])"

definition unicast_client_renew :: "env \<Rightarrow> port \<Rightarrow> nat \<Rightarrow> int \<times> port" where
  "unicast_client_renew e p i =
    (let (now, p) = clock_gettime e p; dst = masters p ! i
     in if ret e p \<noteq> 0 then (ret e p, p)
        else if sint (tv_sec now) < um_renewal_tmo dst then (0, p)
        else let dst = dst\<lparr>um_renewal_tmo := 0\<rparr>; p = set_master i dst p
             in send_requests e p dst ((p_logAnnounceInterval p, ANNOUNCE) #
                  (if um_state dst = UC_HAVE_SYDY then sydy_requests p else [])))"

definition unicast_client_set_renewal ::
  "env \<Rightarrow> port \<Rightarrow> unicast_master_address \<Rightarrow> int \<Rightarrow> unicast_master_address \<times> port" where
  "unicast_client_set_renewal e p master duration =
    (let (now, p) = clock_gettime e p
     in if ret e p \<noteq> 0 then (master, p)
        else let tmo = sint (tv_sec now) + (3 * duration) div 4
             in if um_renewal_tmo master = 0 \<or> tmo < um_renewal_tmo master
                then (master\<lparr>um_renewal_tmo := tmo\<rparr>, p) else (master, p))"

section \<open>Cancellations\<close>

definition clear_granted :: "u8 \<Rightarrow> unicast_master_address \<Rightarrow> unicast_master_address" where
  "clear_granted mtype dst = dst\<lparr>um_granted := um_granted dst AND NOT (type_mask mtype)\<rparr>"

text \<open>The three blocks of \<open>unicast_client_tx_cancel\<close>, one per message type.\<close>

fun attach_cancels ::
  "env \<Rightarrow> port \<Rightarrow> unicast_master_address \<Rightarrow> pmsg \<Rightarrow> u32 \<Rightarrow> u8 list \<Rightarrow> pmsg option \<times> unicast_master_address \<times> port"
where
  "attach_cancels e p dst m bitmask [] = (Some m, dst, p)"
| "attach_cancels e p dst m bitmask (mtype # ts) =
    (if um_granted dst AND (bitmask AND type_mask mtype) \<noteq> 0
     then (case attach_cancel e p m mtype of
             (None, p) \<Rightarrow> (None, dst, p)
           | (Some m, p) \<Rightarrow> attach_cancels e p (clear_granted mtype dst) m bitmask ts)
     else attach_cancels e p dst m bitmask ts)"

definition unicast_client_tx_cancel ::
  "env \<Rightarrow> port \<Rightarrow> unicast_master_address \<Rightarrow> u32 \<Rightarrow> int \<times> unicast_master_address \<times> port" where
  "unicast_client_tx_cancel e p dst bitmask =
    (if um_granted dst AND bitmask = 0 then (0, dst, p)
     else case port_signaling_uc_construct e p (um_address dst) (um_portIdentity dst) of
       (None, p) \<Rightarrow> (-1, dst, p)
     | (Some m, p) \<Rightarrow>
         (case attach_cancels e p dst m bitmask [ANNOUNCE, SYNC, DELAY_RESP] of
            (None, dst, p) \<Rightarrow> (-1, dst, p)
          | (Some m, dst, p) \<Rightarrow>
              (case port_prepare_and_send e p m TRANS_GENERAL of (err, _, p) \<Rightarrow> (err, dst, p))))"

definition index_of :: "('a \<Rightarrow> bool) \<Rightarrow> 'a list \<Rightarrow> nat option" where
  "index_of P xs = List.find (\<lambda>i. P (xs ! i)) [0..<length xs]"

definition unicast_client_ok :: "port \<Rightarrow> pmsg \<Rightarrow> nat option" where
  "unicast_client_ok p m =
    (if \<not> unicast_client_enabled p then None
     else index_of (\<lambda>ucma. addreq (p_trp p) (um_address ucma) (pm_address m)) (masters p))"

definition unicast_client_msg_is_from_master_table_entry :: "port \<Rightarrow> pmsg \<Rightarrow> bool" where
  "unicast_client_msg_is_from_master_table_entry p m \<longleftrightarrow>
    unicast_client_enabled p \<and>
    (\<exists>ucma \<in> set (masters p). addreq (p_trp p) (um_address ucma) (pm_address m))"

definition unicast_client_cancel :: "env \<Rightarrow> port \<Rightarrow> pmsg \<Rightarrow> u8 \<Rightarrow> int \<times> port" where
  "unicast_client_cancel e p m message_type_flags =
    (case unicast_client_ok p m of
       None \<Rightarrow> (0, p)
     | Some i \<Rightarrow>
         let mtype = drop_bit 4 message_type_flags
         in if mtype \<notin> {ANNOUNCE, SYNC, DELAY_RESP} then (0, p)
            else if message_type_flags AND CANCEL_UNICAST_MAINTAIN_GRANT \<noteq> 0 then (0, p)
            else let ucma = masters p ! i;
                     ucma = clear_granted mtype (ucma\<lparr>um_state := unicast_fsm (um_state ucma) UC_EV_CANCEL\<rparr>);
                     p = do_call Clock_set_sde (set_master i ucma p)
                 in case port_signaling_uc_construct e p (um_address ucma) (um_portIdentity ucma) of
                      (None, p) \<Rightarrow> (-1, p)
                    | (Some r, p) \<Rightarrow>
                        (case attach_ack e p r message_type_flags of
                           (None, p) \<Rightarrow> (-1, p)
                         | (Some r, p) \<Rightarrow> (case port_prepare_and_send e p r TRANS_GENERAL of (err, _, p) \<Rightarrow> (err, p))))"

definition port_cancel_unicast :: "env \<Rightarrow> port \<Rightarrow> port" where
  "port_cancel_unicast e p =
    (if \<not> unicast_client_enabled p then p
     else foldl (\<lambda>p i. case unicast_client_tx_cancel e p (masters p ! i) UNICAST_CANCEL_ALL of
                         (_, ucma, p) \<Rightarrow> set_master i ucma p) p [0..<length (masters p)])"

section \<open>Grants\<close>

definition set_renewal :: "env \<Rightarrow> nat \<Rightarrow> int \<Rightarrow> port \<Rightarrow> port" where
  "set_renewal e i duration p =
    (case unicast_client_set_renewal e p (masters p ! i) duration of (ucma, p) \<Rightarrow> set_master i ucma p)"

text \<open>The last \<open>switch\<close> of \<open>unicast_client_grant\<close>, on the state of the master.\<close>

definition grant_state :: "env \<Rightarrow> port \<Rightarrow> pmsg \<Rightarrow> nat \<Rightarrow> u8 \<Rightarrow> int \<Rightarrow> int \<Rightarrow> port" where
  "grant_state e p m i mtype period duration =
    (let ucma = masters p ! i;
         complete = (um_granted ucma AND um_sydymsk ucma = um_sydymsk ucma);
         sydy = (if complete then ucma\<lparr>um_state := unicast_fsm (um_state ucma) UC_EV_GRANT_SYDY\<rparr> else ucma)
     in case um_state ucma of
          UC_WAIT \<Rightarrow>
            if mtype = ANNOUNCE
            then set_renewal e i duration (set_master i
                   (ucma\<lparr>um_state := unicast_fsm (um_state ucma) UC_EV_GRANT_ANN, um_portIdentity := pm_source m\<rparr>) p)
            else p
        | UC_HAVE_ANN \<Rightarrow>
            if mtype = ANNOUNCE
            then set_renewal e i duration (set_master i
                   (ucma\<lparr>um_state := unicast_fsm (um_state ucma) UC_EV_GRANT_ANN, um_portIdentity := pm_source m\<rparr>) p)
            else p
        | UC_NEED_SYDY \<Rightarrow>
            if mtype = DELAY_RESP
            then (set_renewal e i duration (set_master i sydy p))\<lparr>p_logMinDelayReqInterval := period\<rparr>
            else if mtype = SYNC
            then snd (port_set_sync_rx_tmo e (do_call (Clock_sync_interval period)
                   (set_renewal e i duration (set_master i sydy p))))
            else p
        | UC_HAVE_SYDY \<Rightarrow>
            if mtype \<in> {ANNOUNCE, DELAY_RESP, SYNC} then set_renewal e i duration p else p)"

definition unicast_client_grant :: "env \<Rightarrow> port \<Rightarrow> pmsg \<Rightarrow> u8 \<Rightarrow> int \<Rightarrow> u32 \<Rightarrow> port" where
  "unicast_client_grant e p m message_type period duration =
    (case unicast_client_ok p m of
       None \<Rightarrow> p
     | Some i \<Rightarrow>
         let mtype = drop_bit 4 message_type
         in if duration = 0
            then if mtype \<noteq> PDELAY_RESP
                 then do_call Clock_set_sde (set_master i ((masters p ! i)\<lparr>um_state := UC_WAIT\<rparr>) p)
                 else p
            else if \<bar>period\<bar> > 30 then p
            else if p_delayMechanism p = DM_P2P \<and> mtype = DELAY_RESP then p
            else if p_delayMechanism p = DM_P2P \<and> mtype = PDELAY_RESP
            then (case p_unicast_master_table p of
                    None \<Rightarrow> p
                  | Some t \<Rightarrow>
                      (case unicast_client_set_renewal e p ((ut_peer_addr t)\<lparr>um_portIdentity := pm_source m\<rparr>)
                              (uint duration) of
                         (peer, p) \<Rightarrow> (set_peer peer p)\<lparr>p_logPdelayReqInterval := period\<rparr>))
            else let ucma = (masters p ! i)\<lparr>um_granted := um_granted (masters p ! i) OR type_mask mtype\<rparr>
                 in grant_state e (set_master i ucma p) m i mtype period (uint duration))"

section \<open>Timer and selection\<close>

definition unicast_client_set_tmo :: "env \<Rightarrow> port \<Rightarrow> int \<times> port" where
  "unicast_client_set_tmo e p =
    (case p_unicast_master_table p of
       None \<Rightarrow> (0, p)
     | Some t \<Rightarrow> set_tmo_log e FD_UNICAST_REQ_TIMER 1 (ut_logQueryInterval t) p)"

definition state_changed_step :: "env \<Rightarrow> PortIdentity \<Rightarrow> port \<Rightarrow> nat \<Rightarrow> port" where
  "state_changed_step e pid p i =
    (let ucma = masters p ! i
     in if pid_eq (um_portIdentity ucma) pid
        then set_master i (ucma\<lparr>um_state := unicast_fsm (um_state ucma) UC_EV_SELECTED\<rparr>) p
        else let next = unicast_fsm (um_state ucma) UC_EV_UNSELECTED; ucma' = ucma\<lparr>um_state := next\<rparr>;
                 p = set_master i ucma' p
             in if um_state ucma \<noteq> next \<and> um_state ucma = UC_HAVE_SYDY
                then (case unicast_client_tx_cancel e p ucma' UNICAST_CANCEL_SYDY of (_, ucma, p) \<Rightarrow> set_master i ucma p)
                else p)"

definition unicast_client_state_changed :: "env \<Rightarrow> port \<Rightarrow> port" where
  "unicast_client_state_changed e p =
    (if \<not> unicast_client_enabled p then p
     else foldl (state_changed_step e (cv_parent_identity (clk e p))) p [0..<length (masters p)])"

definition timer_step :: "env \<Rightarrow> int \<times> port \<Rightarrow> nat \<Rightarrow> int \<times> port" where
  "timer_step e r i =
    (let (err, p) = r; master = masters p ! i
     in if um_type master \<noteq> p_trp p then (err, p)
        else let (err, p) =
               (case um_state master of
                  UC_WAIT \<Rightarrow> unicast_client_announce e p master
                | UC_HAVE_ANN \<Rightarrow> unicast_client_renew e p i
                | UC_NEED_SYDY \<Rightarrow> unicast_client_sydy e p master
                | UC_HAVE_SYDY \<Rightarrow> unicast_client_renew e p i)
             in (err, if p_delayMechanism p = DM_P2P then snd (unicast_client_peer_renew e p) else p))"

definition unicast_client_timer :: "env \<Rightarrow> port \<Rightarrow> int \<times> port" where
  "unicast_client_timer e p =
    (case foldl (timer_step e) (0, p) [0..<length (masters p)] of
       (err, p) \<Rightarrow> (err, snd (unicast_client_set_tmo e p)))"

text \<open>The masks of the masters depend on the delay mechanism; \<open>table\<close> is the clone of the configured table.\<close>

definition unicast_client_initialize ::
  "port \<Rightarrow> int \<Rightarrow> unicast_master_table option \<Rightarrow> bool \<Rightarrow> bool \<Rightarrow> u32 \<Rightarrow> int \<times> port" where
  "unicast_client_initialize p table_id table mem peer_ok duration =
    (if table_id = 0 then (0, p)
     else case table of
       None \<Rightarrow> (-1, p)
     | Some t \<Rightarrow>
         if \<not> mem then (-1, p)
         else if ut_peer_name t \<noteq> None \<and> \<not> peer_ok then (-1, p)
         else let msk = (if p_delayMechanism p = DM_P2P then P2P_SYDY_MASK
                         else if p_delayMechanism p = DM_NO_MECHANISM then E2E_SY_MASK else E2E_SYDY_MASK)
              in (0, p\<lparr>p_unicast_master_table :=
                         Some (t\<lparr>ut_addrs := map (\<lambda>master. master\<lparr>um_sydymsk := msk\<rparr>) (ut_addrs t)\<rparr>),
                       p_cfg := (p_cfg p)\<lparr>c_unicast_req_duration := duration\<rparr>\<rparr>))"

section \<open>Replies of the unicast service (unicast_service.c)\<close>

abbreviation "GRANT_UNICAST_RENEWAL_INVITED \<equiv> 1 :: u8"

definition attach_grant :: "env \<Rightarrow> port \<Rightarrow> pmsg \<Rightarrow> request_unicast_xmit \<Rightarrow> u32 \<Rightarrow> pmsg option \<times> port" where
  "attach_grant e p m req duration =
    tlv_append e p m (TlvGrant (rq_message_type req) (rq_logInterMessagePeriod req) duration GRANT_UNICAST_RENEWAL_INVITED)"

definition itu_t_id :: "u8 list" where
  "itu_t_id = [0x00, 0x19, 0xA7]"

definition octets_be :: "nat \<Rightarrow> u64 \<Rightarrow> u8 list" where
  "octets_be n x = map (\<lambda>i. ucast (drop_bit (8 * (n - 1 - i)) x)) [0..<n]"

definition attach_interface_rate :: "env \<Rightarrow> port \<Rightarrow> pmsg \<Rightarrow> u64 \<Rightarrow> u16 \<Rightarrow> u16 \<Rightarrow> pmsg option \<times> port" where
  "attach_interface_rate e p m period before after =
    tlv_append e p m (TlvOrg False itu_t_id [0, 0, 2]
      (octets_be 8 period @ octets_be 2 (ucast before) @ octets_be 2 (ucast after)))"

definition unicast_service_reply :: "env \<Rightarrow> port \<Rightarrow> pmsg \<Rightarrow> request_unicast_xmit \<Rightarrow> u32 \<Rightarrow> int \<times> port" where
  "unicast_service_reply e p dst req duration =
    (let send = (\<lambda>m p. case port_prepare_and_send e p m TRANS_GENERAL of (err, _, p) \<Rightarrow> (err, p))
     in case port_signaling_uc_construct e p (pm_address dst) (pm_source dst) of
          (None, p) \<Rightarrow> (-1, p)
        | (Some m, p) \<Rightarrow>
            (case attach_grant e p m req duration of
               (None, p) \<Rightarrow> (-1, p)
             | (Some m, p) \<Rightarrow>
                 (case e_ifinfo e (p_log p) of
                    Some period \<Rightarrow>
                      if p_iface_rate_tlv p \<and> sint duration > 0
                      then (case attach_interface_rate e p m period 64 720 of
                              (None, p) \<Rightarrow> (-1, p)
                            | (Some m, p) \<Rightarrow> send m p)
                      else send m p
                  | None \<Rightarrow> send m p)))"

definition unicast_service_deny :: "env \<Rightarrow> port \<Rightarrow> pmsg \<Rightarrow> request_unicast_xmit \<Rightarrow> int \<times> port" where
  "unicast_service_deny e p m req = unicast_service_reply e p m req 0"

definition unicast_service_grant :: "env \<Rightarrow> port \<Rightarrow> pmsg \<Rightarrow> request_unicast_xmit \<Rightarrow> int \<times> port" where
  "unicast_service_grant e p m req = unicast_service_reply e p m req (rq_durationField req)"

section \<open>Properties\<close>

lemma length_masters_set [simp]: "length (masters (set_master i u p)) = length (masters p)"
  by (auto simp: masters_def set_master_def split: option.splits)

end
