(* ===== verification/Port_Foreign.thy ===== *)
theory Port_Foreign
  imports Port_Unicast
begin

text \<open>
  Foreign masters (\<open>port.c\<close>, \<open>foreign.h\<close>): the Announce messages of every master a port hears, their
  expiry, the qualification threshold, and the choice of the best master.

  The list of foreign clocks maps the address of each to its contents, so that \<open>p_best\<close>, a pointer into
  the list in C, is an address.
\<close>

section \<open>Announce messages\<close>

text \<open>\<open>announce_compare\<close> compares octets and its callers test the result against zero.\<close>

definition announce_compare :: "pmsg \<Rightarrow> pmsg \<Rightarrow> bool" where
  "announce_compare m1 m2 \<longleftrightarrow>
    (let a = pm_announce m1; b = pm_announce m2
     in \<not> (an_grandmasterPriority1 a = an_grandmasterPriority1 b \<and>
          an_grandmasterClockQuality a = an_grandmasterClockQuality b \<and>
          an_grandmasterPriority2 a = an_grandmasterPriority2 b \<and>
          an_grandmasterIdentity a = an_grandmasterIdentity b \<and> an_stepsRemoved a = an_stepsRemoved b))"

definition announce_to_dataset :: "pmsg \<Rightarrow> port \<Rightarrow> dataset" where
  "announce_to_dataset m p =
    (let a = pm_announce m
     in \<lparr>ds_priority1 = an_grandmasterPriority1 a, ds_identity = an_grandmasterIdentity a,
         ds_quality = an_grandmasterClockQuality a, ds_priority2 = an_grandmasterPriority2 a,
         ds_localPriority = p_localPriority p, ds_stepsRemoved = an_stepsRemoved a,
         ds_sender = pm_source m, ds_receiver = p_portIdentity p\<rparr>)"

definition timespec_ns :: "timespec \<Rightarrow> i64" where
  "timespec_ns t = tv_sec t * 1000000000 + tv_nsec t"

definition msg_current :: "pmsg \<Rightarrow> timespec \<Rightarrow> bool" where
  "msg_current m now =
    (let l = pm_logMessageInterval m;
         tmo = (if l \<le> -31 then 0 else if l \<ge> 31 then 2 ^ 63 - 1
                else if l < 0 then 4 * 1000000000 div 2 ^ nat (- l) else 4 * 2 ^ nat l * 1000000000)
     in sint (timespec_ns now - timespec_ns (pm_host m)) < tmo)"

definition msg_source_equal :: "pmsg \<Rightarrow> foreign_clock \<Rightarrow> bool" where
  "msg_source_equal m fc \<longleftrightarrow> pm_source m = ds_sender (fc_dataset fc)"

section \<open>The messages of a foreign clock\<close>

definition fc_remove_last :: "foreign_clock \<Rightarrow> foreign_clock" where
  "fc_remove_last fc = fc\<lparr>fc_messages := butlast (fc_messages fc), fc_n_messages := fc_n_messages fc - 1\<rparr>"

definition fc_insert_head :: "pmsg \<Rightarrow> foreign_clock \<Rightarrow> foreign_clock" where
  "fc_insert_head m fc = fc\<lparr>fc_messages := m # fc_messages fc, fc_n_messages := fc_n_messages fc + 1\<rparr>"

function fc_clear :: "foreign_clock \<Rightarrow> foreign_clock" where
  "fc_clear fc = (if fc_n_messages fc = 0 then fc else fc_clear (fc_remove_last fc))"
  by pat_completeness auto
termination by (relation "measure fc_n_messages") (auto simp: fc_remove_last_def)

text \<open>The two loops of \<open>fc_prune\<close>: surplus messages, then messages that have expired.\<close>

function fc_prune_surplus :: "foreign_clock \<Rightarrow> foreign_clock" where
  "fc_prune_surplus fc =
    (if fc_n_messages fc > FOREIGN_MASTER_THRESHOLD then fc_prune_surplus (fc_remove_last fc) else fc)"
  by pat_completeness auto
termination by (relation "measure fc_n_messages") (auto simp: fc_remove_last_def)

function fc_prune_expired :: "timespec \<Rightarrow> foreign_clock \<Rightarrow> foreign_clock" where
  "fc_prune_expired now fc =
    (if fc_messages fc = [] then fc
     else if msg_current (last (fc_messages fc)) now then fc
     else fc_prune_expired now (fc_remove_last fc))"
  by pat_completeness auto
termination by (relation "measure (\<lambda>(now, fc). length (fc_messages fc))") (auto simp: fc_remove_last_def)

declare fc_clear.simps [simp del] fc_prune_surplus.simps [simp del] fc_prune_expired.simps [simp del]

definition fc_prune :: "timespec \<Rightarrow> foreign_clock \<Rightarrow> foreign_clock" where
  "fc_prune now fc = fc_prune_expired now (fc_prune_surplus fc)"

section \<open>The list of foreign clocks\<close>

definition fc_get :: "port \<Rightarrow> nat \<Rightarrow> foreign_clock option" where
  "fc_get p k = map_of (p_foreign_masters p) k"

definition fc_set :: "nat \<Rightarrow> foreign_clock \<Rightarrow> port \<Rightarrow> port" where
  "fc_set k fc p = p\<lparr>p_foreign_masters := map (\<lambda>(j, x). (j, if j = k then fc else x)) (p_foreign_masters p)\<rparr>"

text \<open>The address of a new foreign clock differs from those in use.\<close>

definition fresh_fc :: "port \<Rightarrow> nat" where
  "fresh_fc p = Suc (foldr max (map fst (p_foreign_masters p)) 0)"

definition zero_dataset :: dataset where
  "zero_dataset = \<lparr>ds_priority1 = 0, ds_identity = replicate 8 0,
     ds_quality = \<lparr>clockClass = 0, clockAccuracy = 0, offsetScaledLogVariance = 0\<rparr>, ds_priority2 = 0,
     ds_localPriority = 0, ds_stepsRemoved = 0, ds_sender = zero_pid, ds_receiver = zero_pid\<rparr>"

definition port_unicast_message_valid :: "env \<Rightarrow> port \<Rightarrow> pmsg \<Rightarrow> bool \<times> port" where
  "port_unicast_message_valid e p m =
    (if \<not> unicast_client_msg_is_from_master_table_entry p m
     then let master = \<lparr>um_portIdentity = pm_source m, um_type = TRANS_UDS, um_state = UC_WAIT,
                um_address = pm_address m, um_granted = 0, um_sydymsk = 0, um_renewal_tmo = 0\<rparr>
          in case unicast_client_tx_cancel e p master (type_mask (pm_type m)) of (_, _, p) \<Rightarrow> (False, p)
     else (True, p))"

text \<open>The first message of a new master is not counted. The result tells whether the message is
  different from the last one or makes the master qualified.\<close>

definition add_foreign_master :: "env \<Rightarrow> port \<Rightarrow> pmsg \<Rightarrow> bool \<times> port" where
  "add_foreign_master e p m =
    (case List.find (\<lambda>(_, fc). msg_source_equal m fc) (p_foreign_masters p) of
       None \<Rightarrow>
         (let (valid, p) = (if unicast_client_enabled p then port_unicast_message_valid e p m else (True, p))
          in if \<not> valid then (False, p)
             else let p = do_call Malloc p
                  in if ret e p = 0 then (False, p)
                     else (False, p\<lparr>p_foreign_masters :=
                             (fresh_fc p, \<lparr>fc_messages = [], fc_n_messages = 0,
                                fc_dataset = zero_dataset\<lparr>ds_sender := pm_source m\<rparr>\<rparr>) # p_foreign_masters p\<rparr>))
     | Some (k, fc) \<Rightarrow>
         (let (now, p) = clock_gettime e p;
              fc = fc_prune now fc;
              broke_threshold = (FOREIGN_MASTER_THRESHOLD - 1 = fc_n_messages fc);
              fc = fc_insert_head m fc;
              diff = (fc_n_messages fc > 1 \<and> announce_compare m (fc_messages fc ! 1))
          in (broke_threshold \<or> diff, fc_set k fc p)))"

text \<open>With path tracing enabled, the memory behind the Announce body is taken as a path trace TLV.\<close>

definition update_current_master :: "env \<Rightarrow> port \<Rightarrow> pmsg \<Rightarrow> bool \<times> port" where
  "update_current_master e p m =
    (case p_best p of
       None \<Rightarrow> add_foreign_master e p m
     | Some k \<Rightarrow>
         (case fc_get p k of
            None \<Rightarrow> add_foreign_master e p m
          | Some fc \<Rightarrow>
              if \<not> msg_source_equal m fc then add_foreign_master e p m
              else let p = (if p_state p \<noteq> PS_PASSIVE
                            then do_call (Clock_update_time_properties
                                   \<lparr>tp_currentUtcOffset = an_currentUtcOffset (pm_announce m), tp_flags = pm_flag1 m,
                                    tp_timeSource = an_timeSource (pm_announce m)\<rparr>) p
                            else p);
                       p = (if p_path_trace_enabled p
                            then do_call (Clock_set_path (case pm_tlvs m of [] \<Rightarrow> None | t # _ \<Rightarrow> Some t)) p else p);
                       p = snd (port_set_announce_tmo e p);
                       (now, p) = clock_gettime e p;
                       fc = fc_insert_head m (fc_prune now fc)
                   in (fc_n_messages fc > 1 \<and> announce_compare m (fc_messages fc ! 1), fc_set k fc p)))"

definition process_announce :: "env \<Rightarrow> port \<Rightarrow> pmsg \<Rightarrow> bool \<times> port" where
  "process_announce e p m =
    (if unat (an_stepsRemoved (pm_announce m)) \<ge> cv_max_steps_removed (clk e p) then (False, p)
     else if unat (clockClass (an_grandmasterClockQuality (pm_announce m))) > cv_class_threshold (clk e p) then (False, p)
     else case p_state p of
       PS_INITIALIZING \<Rightarrow> (False, p)
     | PS_FAULTY \<Rightarrow> (False, p)
     | PS_DISABLED \<Rightarrow> (False, p)
     | PS_LISTENING \<Rightarrow> add_foreign_master e p m
     | PS_PRE_MASTER \<Rightarrow> add_foreign_master e p m
     | PS_MASTER \<Rightarrow> add_foreign_master e p m
     | PS_GRAND_MASTER \<Rightarrow> add_foreign_master e p m
     | PS_PASSIVE \<Rightarrow> update_current_master e p m
     | PS_UNCALIBRATED \<Rightarrow> update_current_master e p m
     | PS_SLAVE \<Rightarrow> update_current_master e p m)"

section \<open>The best foreign master\<close>

text \<open>One turn of the loop, on the foreign clock at \<open>k\<close>.\<close>

definition compute_best_step :: "env \<Rightarrow> (dataset \<Rightarrow> dataset \<Rightarrow> int) \<Rightarrow> port \<Rightarrow> nat \<Rightarrow> port" where
  "compute_best_step e clk_dscmp p k =
    (case fc_get p k of
       None \<Rightarrow> p
     | Some fc \<Rightarrow>
         (case fc_messages fc of
            [] \<Rightarrow> p
          | tmp # _ \<Rightarrow>
              (let (now, p) = clock_gettime e p;
                   fc = fc_prune now (fc\<lparr>fc_dataset := announce_to_dataset tmp p\<rparr>);
                   p = fc_set k fc p
               in if fc_n_messages fc < FOREIGN_MASTER_THRESHOLD then p
                  else case p_best p of
                    None \<Rightarrow> p\<lparr>p_best := Some k\<rparr>
                  | Some b \<Rightarrow>
                      (case fc_get p b of
                         None \<Rightarrow> p
                       | Some best \<Rightarrow>
                           if clk_dscmp (fc_dataset fc) (fc_dataset best) > 0 then p\<lparr>p_best := Some k\<rparr>
                           else fc_set k (fc_clear fc) p))))"

definition port_compute_best :: "env \<Rightarrow> port \<Rightarrow> port" where
  "port_compute_best e p =
    (let clk_dscmp = cv_dscmp (clk e p); p = p\<lparr>p_best := None\<rparr>
     in if p_master_only p then p
        else foldl (compute_best_step e clk_dscmp) p (map fst (p_foreign_masters p)))"

definition port_best_foreign :: "port \<Rightarrow> dataset option" where
  "port_best_foreign p = Option.bind (p_best p) (\<lambda>k. map_option fc_dataset (fc_get p k))"

definition free_foreign_masters :: "port \<Rightarrow> port" where
  "free_foreign_masters p = p\<lparr>p_foreign_masters := []\<rparr>"

section \<open>The loops in closed form\<close>

definition fc_counted :: "foreign_clock \<Rightarrow> bool" where
  "fc_counted fc \<longleftrightarrow> fc_n_messages fc = length (fc_messages fc)"

lemma fc_clear_eq: "fc_counted fc \<Longrightarrow> fc_clear fc = fc\<lparr>fc_messages := [], fc_n_messages := 0\<rparr>"
proof (induction fc rule: fc_clear.induct)
  case (1 fc)
  show ?case
  proof (cases "fc_n_messages fc = 0")
    case True
    then show ?thesis using 1(2) by (subst fc_clear.simps) (simp add: fc_counted_def)
  next
    case False
    then have "fc_counted (fc_remove_last fc)" using 1(2) by (simp add: fc_counted_def fc_remove_last_def)
    then show ?thesis using 1(1) False by (subst fc_clear.simps) (simp add: fc_remove_last_def)
  qed
qed

lemma fc_prune_surplus_eq:
  "fc_counted fc \<Longrightarrow> fc_prune_surplus fc = fc\<lparr>fc_messages := take 2 (fc_messages fc), fc_n_messages := min 2 (fc_n_messages fc)\<rparr>"
proof (induction fc rule: fc_prune_surplus.induct)
  case (1 fc)
  show ?case
  proof (cases "fc_n_messages fc > 2")
    case False
    then show ?thesis using 1(2) by (subst fc_prune_surplus.simps) (simp add: fc_counted_def)
  next
    case True
    then have "fc_counted (fc_remove_last fc)" using 1(2) by (auto simp: fc_counted_def fc_remove_last_def)
    moreover have "take 2 (butlast (fc_messages fc)) = take 2 (fc_messages fc)"
      using True 1(2) by (simp add: fc_counted_def take_butlast)
    ultimately show ?thesis using 1(1) True by (subst fc_prune_surplus.simps) (simp add: fc_remove_last_def)
  qed
qed

definition unexpired :: "timespec \<Rightarrow> pmsg list \<Rightarrow> pmsg list" where
  "unexpired now ms = rev (dropWhile (\<lambda>m. \<not> msg_current m now) (rev ms))"

lemma fc_prune_expired_eq:
  "fc_counted fc \<Longrightarrow> fc_prune_expired now fc =
     fc\<lparr>fc_messages := unexpired now (fc_messages fc), fc_n_messages := length (unexpired now (fc_messages fc))\<rparr>"
proof (induction now fc rule: fc_prune_expired.induct)
  case (1 now fc)
  show ?case
  proof (cases "fc_messages fc = []")
    case True
    then show ?thesis using 1(2) by (subst fc_prune_expired.simps) (simp add: fc_counted_def unexpired_def)
  next
    case False
    then obtain ms m where ms: "fc_messages fc = ms @ [m]" by (metis append_butlast_last_id)
    then have "fc_counted (fc_remove_last fc)" using 1(2) by (simp add: fc_counted_def fc_remove_last_def)
    then show ?thesis
      using 1 ms by (subst fc_prune_expired.simps) (auto simp: fc_remove_last_def fc_counted_def unexpired_def)
  qed
qed

lemma fc_prune_eq:
  assumes "fc_counted fc"
  shows "fc_prune now fc = fc\<lparr>fc_messages := unexpired now (take 2 (fc_messages fc)),
     fc_n_messages := length (unexpired now (take 2 (fc_messages fc)))\<rparr>"
  using assms by (simp add: fc_prune_def fc_prune_surplus_eq fc_prune_expired_eq fc_counted_def min_def)

lemma set_unexpired: "set (unexpired now ms) \<subseteq> set ms"
  using set_dropWhileD by (fastforce simp: unexpired_def)

lemma length_unexpired: "length (unexpired now ms) \<le> length ms"
  by (simp add: unexpired_def length_dropWhile_le [of _ "rev ms", simplified])

section \<open>The invariant of the foreign masters\<close>

definition fc_inv :: "foreign_clock \<Rightarrow> bool" where
  "fc_inv fc \<longleftrightarrow> fc_counted fc \<and> length (fc_messages fc) \<le> FOREIGN_MASTER_THRESHOLD + 1 \<and>
     (\<forall>m \<in> set (fc_messages fc). pm_source m = ds_sender (fc_dataset fc))"

definition foreign_inv :: "port \<Rightarrow> bool" where
  "foreign_inv p \<longleftrightarrow> distinct (map fst (p_foreign_masters p)) \<and>
     distinct (map (\<lambda>(_, fc). ds_sender (fc_dataset fc)) (p_foreign_masters p)) \<and>
     (\<forall>(k, fc) \<in> set (p_foreign_masters p). fc_inv fc) \<and>
     (\<forall>k. p_best p = Some k \<longrightarrow> k \<in> fst ` set (p_foreign_masters p))"

lemma fc_inv_prune: "fc_inv fc \<Longrightarrow> fc_inv (fc_prune now fc) \<and> length (fc_messages (fc_prune now fc)) \<le> 2"
  using set_unexpired [of now "take 2 (fc_messages fc)"] length_unexpired [of now "take 2 (fc_messages fc)"]
  by (auto simp: fc_inv_def fc_prune_eq fc_counted_def dest: in_set_takeD)

lemma sender_prune [simp]: "fc_counted fc \<Longrightarrow> fc_dataset (fc_prune now fc) = fc_dataset fc"
  by (simp add: fc_prune_eq)

lemma fc_inv_insert:
  "fc_inv fc \<Longrightarrow> length (fc_messages fc) \<le> 2 \<Longrightarrow> pm_source m = ds_sender (fc_dataset fc) \<Longrightarrow> fc_inv (fc_insert_head m fc)"
  by (simp add: fc_inv_def fc_counted_def fc_insert_head_def)

lemma fc_inv_clear: "fc_inv fc \<Longrightarrow> fc_inv (fc_clear fc)"
  by (simp add: fc_inv_def fc_clear_eq) (simp add: fc_counted_def)

lemma fresh_fc_notin: "fresh_fc p \<notin> fst ` set (p_foreign_masters p)"
proof -
  have "x \<le> foldr max xs 0" if "x \<in> set xs" for x and xs :: "nat list"
    using that by (induction xs) (auto simp: max_def)
  then show ?thesis unfolding fresh_fc_def by (metis Suc_n_not_le_n image_set)
qed

lemma fc_get_set:
  "fc_get (fc_set k fc p) j = (if j = k then map_option (\<lambda>_. fc) (fc_get p k) else fc_get p j)"
proof -
  have "map_of (map (\<lambda>(j, x). (j, if j = k then fc else x)) xs) j =
      (if j = k then map_option (\<lambda>_. fc) (map_of xs k) else map_of xs j)" for xs
    by (induction xs) auto
  then show ?thesis by (simp add: fc_get_def fc_set_def)
qed

lemma fc_set_frame [simp]:
  "map fst (p_foreign_masters (fc_set k fc p)) = map fst (p_foreign_masters p)"
  "p_best (fc_set k fc p) = p_best p" "p_cfg (fc_set k fc p) = p_cfg p"
  by (auto simp: fc_set_def comp_def split_def)

lemma foreign_inv_fc_set:
  assumes "foreign_inv p" and "fc_get p k = Some fc" and "fc_inv fc'"
    and "ds_sender (fc_dataset fc') = ds_sender (fc_dataset fc)"
  shows "foreign_inv (fc_set k fc' p)"
proof -
  have uniq: "x = fc" if "(k, x) \<in> set (p_foreign_masters p)" for x
    using assms(1,2) that by (auto simp: foreign_inv_def fc_get_def map_of_eq_Some_iff dest: map_of_is_SomeI)
  then have "map (\<lambda>(_, fc). ds_sender (fc_dataset fc)) (p_foreign_masters (fc_set k fc' p)) =
      map (\<lambda>(_, fc). ds_sender (fc_dataset fc)) (p_foreign_masters p)"
    using assms(4) by (auto simp: fc_set_def)
  moreover have "fst ` set (p_foreign_masters (fc_set k fc' p)) = fst ` set (p_foreign_masters p)"
    using fc_set_frame(1) by (metis image_set)
  moreover have "\<forall>(k, fc) \<in> set (p_foreign_masters (fc_set k fc' p)). fc_inv fc"
    using assms(1,3) by (auto simp: fc_set_def foreign_inv_def)
  ultimately show ?thesis using assms(1) unfolding foreign_inv_def fc_set_frame by simp
qed

lemma foreign_inv_get: "foreign_inv p \<Longrightarrow> fc_get p k = Some fc \<Longrightarrow> fc_inv fc"
  using map_of_SomeD by (fastforce simp: foreign_inv_def fc_get_def)

lemma foreign_inv_only_log: "only_log p q \<Longrightarrow> foreign_inv q = foreign_inv p \<and> fc_get q = fc_get p \<and> p_best q = p_best p"
  by (elim only_logE) (simp add: foreign_inv_def fc_get_def fun_eq_iff)

lemma find_source:
  assumes "foreign_inv p" and "List.find (\<lambda>(_, fc). msg_source_equal m fc) (p_foreign_masters p) = Some (k, fc)"
  shows "fc_get p k = Some fc" and "msg_source_equal m fc"
  using assms by (auto simp: find_Some_iff foreign_inv_def fc_get_def intro!: map_of_is_SomeI) (metis nth_mem)

lemma find_no_source:
  "List.find (\<lambda>(_, fc). msg_source_equal m fc) (p_foreign_masters p) = None \<Longrightarrow>
    pm_source m \<notin> (\<lambda>(_, fc). ds_sender (fc_dataset fc)) ` set (p_foreign_masters p)"
  by (auto simp: find_None_iff msg_source_equal_def)

lemma unicast_message_valid_unchanged: "port_unicast_message_valid e p m = (fst (port_unicast_message_valid e p m), p)"
  by (simp add: port_unicast_message_valid_def unicast_client_tx_cancel_def)

lemma foreign_inv_count_message:
  assumes "foreign_inv p" and "fc_get p k = Some fc" and "msg_source_equal m fc" and "only_log p q"
  shows "foreign_inv (fc_set k (fc_insert_head m (fc_prune now fc)) q)"
proof -
  have inv: "fc_inv fc" using assms(1,2) by (rule foreign_inv_get)
  then have "fc_counted fc" by (simp add: fc_inv_def)
  moreover have "fc_inv (fc_insert_head m (fc_prune now fc))"
    using fc_inv_prune [OF inv, of now] assms(3) \<open>fc_counted fc\<close>
    by (intro fc_inv_insert) (auto simp: msg_source_equal_def)
  ultimately show ?thesis
    using assms foreign_inv_only_log [OF assms(4)]
    by (intro foreign_inv_fc_set) (auto simp: fc_insert_head_def)
qed

lemma foreign_inv_new:
  assumes "foreign_inv p" and "pm_source m \<notin> (\<lambda>(_, fc). ds_sender (fc_dataset fc)) ` set (p_foreign_masters p)"
  shows "foreign_inv (p\<lparr>p_foreign_masters := (fresh_fc p, \<lparr>fc_messages = [], fc_n_messages = 0,
     fc_dataset = zero_dataset\<lparr>ds_sender := pm_source m\<rparr>\<rparr>) # p_foreign_masters p\<rparr>)"
  using assms fresh_fc_notin [of p] unfolding foreign_inv_def by (auto simp: fc_inv_def fc_counted_def image_iff)

lemma foreign_inv_add:
  assumes "foreign_inv p"
  shows "foreign_inv (snd (add_foreign_master e p m))"
proof (cases "List.find (\<lambda>(_, fc). msg_source_equal m fc) (p_foreign_masters p)")
  case None
  have "foreign_inv (do_call Malloc p)" "p_foreign_masters (do_call Malloc p) = p_foreign_masters p"
    using assms foreign_inv_only_log [OF only_log_call] by (auto simp: do_call_def)
  then have "foreign_inv ((do_call Malloc p)\<lparr>p_foreign_masters := (fresh_fc (do_call Malloc p),
      \<lparr>fc_messages = [], fc_n_messages = 0, fc_dataset = zero_dataset\<lparr>ds_sender := pm_source m\<rparr>\<rparr>) #
      p_foreign_masters (do_call Malloc p)\<rparr>)"
    using find_no_source [OF None] by (intro foreign_inv_new) simp_all
  then show ?thesis
    using None assms \<open>foreign_inv (do_call Malloc p)\<close> unicast_message_valid_unchanged [of e p m]
    by (auto simp: add_foreign_master_def Let_def split: prod.splits)
next
  case (Some r)
  obtain k fc where r: "r = (k, fc)" by fastforce
  obtain now q where t: "clock_gettime e p = (now, q)" by fastforce
  then have "only_log p q" using only_log_alloc(3) by (metis snd_conv)
  then have "foreign_inv (fc_set k (fc_insert_head m (fc_prune now fc)) q)"
    using foreign_inv_count_message [OF assms] find_source [OF assms Some [unfolded r]] by blast
  then show ?thesis using Some r t by (simp add: add_foreign_master_def Let_def)
qed

lemma foreign_inv_update:
  assumes "foreign_inv p"
  shows "foreign_inv (snd (update_current_master e p m))"
proof (cases "\<exists>k fc. p_best p = Some k \<and> fc_get p k = Some fc \<and> msg_source_equal m fc")
  case False
  then show ?thesis using foreign_inv_add [OF assms] by (auto simp: update_current_master_def split: option.splits)
next
  case True
  then obtain k fc where k: "p_best p = Some k" "fc_get p k = Some fc" "msg_source_equal m fc" by blast
  define q where "q = snd (port_set_announce_tmo e
    (let p = (if p_state p \<noteq> PS_PASSIVE
              then do_call (Clock_update_time_properties
                     \<lparr>tp_currentUtcOffset = an_currentUtcOffset (pm_announce m), tp_flags = pm_flag1 m,
                      tp_timeSource = an_timeSource (pm_announce m)\<rparr>) p else p)
     in if p_path_trace_enabled p
        then do_call (Clock_set_path (case pm_tlvs m of [] \<Rightarrow> None | t # _ \<Rightarrow> Some t)) p else p))"
  have "only_log p q"
    unfolding q_def by (rule only_log_trans [OF _ only_log_timers(5)]) (simp add: Let_def only_log_do_call)
  moreover obtain now r where t: "clock_gettime e q = (now, r)" by fastforce
  ultimately have "only_log p r" using only_log_alloc(3) only_log_trans by (metis snd_conv)
  then show ?thesis
    using foreign_inv_count_message [OF assms k(2,3)] k t
    by (simp add: update_current_master_def q_def [unfolded Let_def, symmetric] Let_def)
qed

lemma foreign_inv_process_announce:
  "foreign_inv p \<Longrightarrow> foreign_inv (snd (process_announce e p m))"
  by (simp add: process_announce_def foreign_inv_add foreign_inv_update split: port_state.splits)

section \<open>Optimality of the best master\<close>

text \<open>What the choice needs of the comparison of data sets, whose code is outside the tree: no data set is
  better than itself, and what is not better than a worse one is not better than a better one.\<close>

definition dataset_order :: "(dataset \<Rightarrow> dataset \<Rightarrow> int) \<Rightarrow> bool" where
  "dataset_order cmp \<longleftrightarrow> (\<forall>a. cmp a a \<le> 0) \<and> (\<forall>a b c. cmp a b > 0 \<longrightarrow> cmp c b \<le> 0 \<longrightarrow> cmp c a \<le> 0)"

definition qualifies :: "port \<Rightarrow> nat \<Rightarrow> foreign_clock \<Rightarrow> bool" where
  "qualifies p k fc \<longleftrightarrow> fc_get p k = Some fc \<and> fc_n_messages fc \<ge> FOREIGN_MASTER_THRESHOLD"

text \<open>A master that is sure to be a candidate: its last two messages are current at every reading of the clock.
  Its data set is that of its last message.\<close>

definition candidate :: "env \<Rightarrow> port \<Rightarrow> nat \<Rightarrow> dataset \<Rightarrow> bool" where
  "candidate e p k d \<longleftrightarrow> (\<exists>fc m1 m2 ms. fc_get p k = Some fc \<and> fc_messages fc = m1 # m2 # ms \<and>
     (\<forall>cs. msg_current m2 (e_now e cs)) \<and> d = announce_to_dataset m1 p)"

text \<open>The state of the loop when the foreign clocks in \<open>D\<close> have been looked at and the data sets \<open>G\<close> have
  been compared.\<close>

definition best_inv :: "(dataset \<Rightarrow> dataset \<Rightarrow> int) \<Rightarrow> nat set \<Rightarrow> dataset set \<Rightarrow> port \<Rightarrow> bool" where
  "best_inv cmp D G p \<longleftrightarrow> foreign_inv p \<and>
    (case p_best p of
       None \<Rightarrow> G = {}
     | Some b \<Rightarrow> b \<in> D \<and> (\<exists>best. qualifies p b best \<and> (\<forall>d \<in> G. cmp d (fc_dataset best) \<le> 0)))"

lemma best_inv_keep:
  assumes "best_inv cmp D G p" and "k \<notin> D" and "foreign_inv q"
    and "p_best q = p_best p" and "\<And>j. j \<noteq> k \<Longrightarrow> fc_get q j = fc_get p j"
  shows "best_inv cmp (insert k D) G q"
proof -
  have "fc_get q b = fc_get p b" if "b \<in> D" for b using that assms(2) by (intro assms(5)) auto
  then show ?thesis
    using assms(1,3,4) unfolding best_inv_def qualifies_def by (cases "p_best p") auto
qed

lemma best_inv_add:
  assumes "best_inv cmp D G p" and "p_best p = Some b" and "fc_get p b = Some best" and "cmp d (fc_dataset best) \<le> 0"
  shows "best_inv cmp D (insert d G) p"
  using assms unfolding best_inv_def qualifies_def by auto

lemma best_inv_new_best:
  assumes "best_inv cmp D G p" and "dataset_order cmp" and "foreign_inv q" and "qualifies q k fc"
    and "\<forall>b best. p_best p = Some b \<longrightarrow> fc_get p b = Some best \<longrightarrow> cmp (fc_dataset fc) (fc_dataset best) > 0"
  shows "best_inv cmp (insert k D) (insert (fc_dataset fc) G) (q\<lparr>p_best := Some k\<rparr>)"
proof -
  let ?q = "q\<lparr>p_best := Some k\<rparr>"
  have qual: "qualifies ?q = qualifies q" by (simp add: qualifies_def fc_get_def fun_eq_iff)
  have "k \<in> fst ` set (p_foreign_masters q)"
    using assms(4) by (force simp: qualifies_def fc_get_def dest: map_of_SomeD)
  then have inv: "foreign_inv ?q" using assms(3) by (simp add: foreign_inv_def)
  have "cmp d (fc_dataset fc) \<le> 0" if "d \<in> insert (fc_dataset fc) G" for d
  proof (cases "d = fc_dataset fc")
    case True
    then show ?thesis using assms(2) by (simp add: dataset_order_def)
  next
    case False
    then have "d \<in> G" using that by simp
    then obtain b best where b: "p_best p = Some b" "qualifies p b best" "cmp d (fc_dataset best) \<le> 0"
      using assms(1) unfolding best_inv_def by (fastforce split: option.splits)
    then have "cmp (fc_dataset fc) (fc_dataset best) > 0" using assms(5) by (simp add: qualifies_def)
    then show ?thesis using b(3) assms(2) unfolding dataset_order_def by blast
  qed
  then show ?thesis using inv assms(4) unfolding best_inv_def qual by auto
qed

text \<open>What one turn looks at: \<open>fc'\<close> is the clock at \<open>k\<close> with its data set renewed and its messages pruned,
  \<open>q\<close> the port with \<open>fc'\<close> stored; and how the turn ends.\<close>

definition examined :: "env \<Rightarrow> port \<Rightarrow> nat \<Rightarrow> pmsg \<Rightarrow> pmsg list \<Rightarrow> foreign_clock \<Rightarrow> port \<Rightarrow> bool" where
  "examined e p k tmp ms fc' q \<longleftrightarrow>
    fc_inv fc' \<and> foreign_inv q \<and> p_best q = p_best p \<and> p_cfg q = p_cfg p \<and> fc_get q k = Some fc' \<and>
    (\<forall>j. j \<noteq> k \<longrightarrow> fc_get q j = fc_get p j) \<and> fc_dataset fc' = announce_to_dataset tmp p \<and>
    (\<forall>m2 ms'. ms = m2 # ms' \<longrightarrow> (\<forall>cs. msg_current m2 (e_now e cs)) \<longrightarrow> fc_n_messages fc' = 2)"

definition best_outcome :: "(dataset \<Rightarrow> dataset \<Rightarrow> int) \<Rightarrow> nat \<Rightarrow> foreign_clock \<Rightarrow> port \<Rightarrow> port" where
  "best_outcome cmp k fc' q =
    (if fc_n_messages fc' < FOREIGN_MASTER_THRESHOLD then q
     else case p_best q of None \<Rightarrow> q\<lparr>p_best := Some k\<rparr>
       | Some b \<Rightarrow> (case fc_get q b of None \<Rightarrow> q
           | Some best \<Rightarrow> if cmp (fc_dataset fc') (fc_dataset best) > 0 then q\<lparr>p_best := Some k\<rparr>
               else fc_set k (fc_clear fc') q))"

lemma examine:
  assumes "foreign_inv p" and "fc_get p k = Some fc" and "fc_messages fc = tmp # ms"
  shows "\<exists>fc' q. examined e p k tmp ms fc' q \<and> compute_best_step e cmp p k = best_outcome cmp k fc' q"
proof -
  have fci: "fc_inv fc" using assms(1,2) by (rule foreign_inv_get)
  define p0 where "p0 = do_call Clock_gettime p"
  define now where "now = e_now e (p_log p0)"
  have t: "clock_gettime e p = (now, p0)" by (simp add: clock_gettime_def p0_def now_def Let_def)
  have p0: "foreign_inv p0" "fc_get p0 = fc_get p" "p_best p0 = p_best p" "p_cfg p0 = p_cfg p"
    using foreign_inv_only_log [OF only_log_call] assms(1) by (auto simp: p0_def do_call_def)
  have ad: "announce_to_dataset tmp p0 = announce_to_dataset tmp p" by (simp add: announce_to_dataset_def p0(4))
  define fc0 where "fc0 = fc\<lparr>fc_dataset := announce_to_dataset tmp p0\<rparr>"
  have fc0: "fc_inv fc0" "ds_sender (fc_dataset fc0) = ds_sender (fc_dataset fc)" "fc_counted fc0"
    using fci assms(3) by (auto simp: fc0_def fc_inv_def fc_counted_def announce_to_dataset_def Let_def)
  define fc' where "fc' = fc_prune now fc0"
  have fc': "fc_inv fc'" "fc_dataset fc' = fc_dataset fc0"
    using fc_inv_prune [OF fc0(1), of now] fc0(3) by (simp_all add: fc'_def)
  define q where "q = fc_set k fc' p0"
  have q: "foreign_inv q" "p_best q = p_best p" "p_cfg q = p_cfg p" "fc_get q k = Some fc'"
      "\<And>j. j \<noteq> k \<Longrightarrow> fc_get q j = fc_get p j"
    using foreign_inv_fc_set [OF p0(1), of k fc fc'] p0 assms(2) fc' fc0 by (simp_all add: q_def fc_get_set)
  have two: "fc_n_messages fc' = 2" if "ms = m2 # ms'" "\<forall>cs. msg_current m2 (e_now e cs)" for m2 ms'
    using that assms(3) fc0(3) by (simp add: fc'_def fc_prune_eq unexpired_def now_def) (simp add: fc0_def)
  have "examined e p k tmp ms fc' q"
    using fc' q ad two unfolding examined_def by (simp add: fc0_def)
  moreover have "compute_best_step e cmp p k = best_outcome cmp k fc' q"
    unfolding q_def fc'_def fc0_def using assms(2,3) t by (simp add: compute_best_step_def best_outcome_def Let_def)
  ultimately show ?thesis by blast
qed

lemma unexamined:
  assumes "\<not> (\<exists>fc tmp ms. fc_get p k = Some fc \<and> fc_messages fc = tmp # ms)"
  shows "compute_best_step e cmp p k = p" and "\<not> candidate e p k d"
  using assms by (auto simp: compute_best_step_def candidate_def split: option.splits list.splits)

lemma examined_candidate:
  assumes "fc_get p k = Some fc" and "fc_messages fc = tmp # ms" and "examined e p k tmp ms fc' q" and "candidate e p k d"
  shows "d = fc_dataset fc'" and "fc_n_messages fc' = 2"
  using assms by (auto simp: examined_def candidate_def)

text \<open>A turn touches only the clock it looks at.\<close>

lemma compute_best_step_frame:
  assumes "foreign_inv p"
  shows "p_cfg (compute_best_step e cmp p k) = p_cfg p" (is ?c)
    and "j \<noteq> k \<Longrightarrow> fc_get (compute_best_step e cmp p k) j = fc_get p j" (is "PROP ?g")
proof -
  have "?c \<and> (\<forall>j. j \<noteq> k \<longrightarrow> fc_get (compute_best_step e cmp p k) j = fc_get p j)"
  proof (cases "\<exists>fc tmp ms. fc_get p k = Some fc \<and> fc_messages fc = tmp # ms")
    case False
    then show ?thesis by (simp add: unexamined(1))
  next
    case True
    then obtain tmp ms fc' q where ex: "examined e p k tmp ms fc' q"
      and step: "compute_best_step e cmp p k = best_outcome cmp k fc' q"
      using examine [OF assms] by metis
    have "p_cfg (best_outcome cmp k fc' q) = p_cfg q \<and> (\<forall>j. j \<noteq> k \<longrightarrow> fc_get (best_outcome cmp k fc' q) j = fc_get q j)"
      by (auto simp: best_outcome_def fc_get_set fc_get_def [of "_\<lparr>p_best := _\<rparr>"] fc_get_def [symmetric] split: option.splits)
    then show ?thesis using ex step by (simp add: examined_def)
  qed
  then show ?c and "PROP ?g" by auto
qed

lemma best_inv_step:
  assumes "best_inv cmp D G p" and "dataset_order cmp" and "k \<notin> D"
  shows "\<exists>G'. G \<subseteq> G' \<and> (\<forall>d. candidate e p k d \<longrightarrow> d \<in> G') \<and>
    best_inv cmp (insert k D) G' (compute_best_step e cmp p k)"
proof (cases "\<exists>fc tmp ms. fc_get p k = Some fc \<and> fc_messages fc = tmp # ms")
  case False
  then have "best_inv cmp (insert k D) G (compute_best_step e cmp p k)"
    using best_inv_keep [OF assms(1,3), of p] assms(1) by (simp add: unexamined(1) best_inv_def)
  then show ?thesis using unexamined(2) [OF False] by blast
next
  case True
  have inv: "foreign_inv p" using assms(1) by (simp add: best_inv_def)
  obtain fc tmp ms where fc: "fc_get p k = Some fc" "fc_messages fc = tmp # ms" using True by blast
  obtain fc' q where ex: "examined e p k tmp ms fc' q" and step: "compute_best_step e cmp p k = best_outcome cmp k fc' q"
    using examine [OF inv fc] by blast
  note cand = examined_candidate [OF fc ex]
  have q: "fc_inv fc'" "foreign_inv q" "p_best q = p_best p" "fc_get q k = Some fc'" "\<And>j. j \<noteq> k \<Longrightarrow> fc_get q j = fc_get p j"
    using ex by (auto simp: examined_def)
  have old: "b \<in> D \<and> b \<noteq> k \<and> (\<exists>best. fc_get p b = Some best)" if "p_best p = Some b" for b
    using that assms(1,3) by (auto simp: best_inv_def qualifies_def)
  consider (few) "fc_n_messages fc' < 2"
    | (new) "\<not> fc_n_messages fc' < 2"
        "\<forall>b best. p_best p = Some b \<longrightarrow> fc_get p b = Some best \<longrightarrow> cmp (fc_dataset fc') (fc_dataset best) > 0"
    | (worse) b best where "\<not> fc_n_messages fc' < 2" "p_best p = Some b" "fc_get p b = Some best"
        "cmp (fc_dataset fc') (fc_dataset best) \<le> 0"
    by force
  then show ?thesis
  proof cases
    case few
    then have "best_inv cmp (insert k D) G (compute_best_step e cmp p k)"
      using step best_inv_keep [OF assms(1,3) q(2,3,5)] by (simp add: best_outcome_def)
    then show ?thesis using few cand(2) by fastforce
  next
    case new
    then have "compute_best_step e cmp p k = q\<lparr>p_best := Some k\<rparr>"
      using step q(3,5) old by (cases "p_best p") (auto simp: best_outcome_def)
    moreover have "qualifies q k fc'" using new(1) q(4) by (simp add: qualifies_def)
    ultimately show ?thesis using best_inv_new_best [OF assms(1,2) q(2) _ new(2)] cand(1) by (metis insertI1 subset_insertI)
  next
    case worse
    define r where "r = fc_set k (fc_clear fc') q"
    have "fc_clear fc' = fc'\<lparr>fc_messages := [], fc_n_messages := 0\<rparr>"
      using q(1) by (intro fc_clear_eq) (simp add: fc_inv_def)
    then have r: "foreign_inv r" "p_best r = p_best p" "\<And>j. j \<noteq> k \<Longrightarrow> fc_get r j = fc_get p j"
      using foreign_inv_fc_set [OF q(2,4) fc_inv_clear [OF q(1)]] q by (auto simp: r_def fc_get_set)
    have "compute_best_step e cmp p k = r"
      using step worse q(3,5) old [OF worse(2)] by (simp add: r_def best_outcome_def)
    moreover have "best_inv cmp (insert k D) (insert (fc_dataset fc') G) r"
      using best_inv_add [OF best_inv_keep [OF assms(1,3) r]] r(2,3) worse old [OF worse(2)] by simp
    ultimately show ?thesis using cand(1) by (metis insertI1 subset_insertI)
  qed
qed

lemma best_inv_foldl:
  assumes "best_inv cmp D G p" and "dataset_order cmp" and "distinct ks" and "set ks \<inter> D = {}"
  shows "\<exists>G'. G \<subseteq> G' \<and> (\<forall>k \<in> set ks. \<forall>d. candidate e p k d \<longrightarrow> d \<in> G') \<and>
    best_inv cmp (D \<union> set ks) G' (foldl (compute_best_step e cmp) p ks)"
  using assms
proof (induction ks arbitrary: D G p)
  case (Cons k ks)
  let ?p = "compute_best_step e cmp p k"
  have k: "k \<notin> D" using Cons.prems by auto
  obtain G1 where G1: "G \<subseteq> G1" "\<forall>d. candidate e p k d \<longrightarrow> d \<in> G1" "best_inv cmp (insert k D) G1 ?p"
    using best_inv_step [OF Cons.prems(1,2) k, of e] by blast
  obtain G2 where G2: "G1 \<subseteq> G2" "\<forall>j \<in> set ks. \<forall>d. candidate e ?p j d \<longrightarrow> d \<in> G2"
      "best_inv cmp (insert k D \<union> set ks) G2 (foldl (compute_best_step e cmp) ?p ks)"
    using Cons.IH [OF G1(3)] Cons.prems by auto
  have "candidate e ?p j d = candidate e p j d" if "j \<in> set ks" for j d
  proof -
    have "foreign_inv p" and "j \<noteq> k" using Cons.prems that by (auto simp: best_inv_def)
    then have "fc_get ?p j = fc_get p j" and "p_cfg ?p = p_cfg p" by (auto simp: compute_best_step_frame)
    then show ?thesis by (simp add: candidate_def announce_to_dataset_def)
  qed
  then show ?case using G1 G2 by (intro exI [of _ G2]) auto
qed auto

text \<open>Whatever Announce messages arrive, the bookkeeping of foreign masters stays sound: no two records for
  the same sender, the count of each record is the number of its messages, never more than three of them,
  all from the sender of the record, and the best master is one of the records.\<close>

theorem process_announce_invariant:
  assumes "foreign_inv p"
  shows "foreign_inv (snd (process_announce e p m))"
  using assms by (rule foreign_inv_process_announce)

theorem process_announce_invariant_witness:
  "foreign_inv (snd (process_announce sample_env (sample_port\<lparr>p_state := PS_LISTENING\<rparr>) zero_msg))"
  by (rule process_announce_invariant) (simp add: foreign_inv_def sample_defs)

text \<open>C11. The best master is best: with a sane comparison of data sets, the choice keeps the bookkeeping of
  foreign masters intact; a port that may be a slave chooses a master if there is a candidate,
  the one it chooses has at least two messages, and no candidate is better than it.\<close>

theorem port_compute_best_optimal:
  assumes "foreign_inv p" and "dataset_order (cv_dscmp (clk e p))" and "\<not> p_master_only p"
    and "q = port_compute_best e p"
  shows "foreign_inv q \<and>
    (\<forall>k d. candidate e p k d \<longrightarrow> (\<exists>b best. p_best q = Some b \<and> qualifies q b best \<and>
       cv_dscmp (clk e p) d (fc_dataset best) \<le> 0))"
proof -
  let ?cmp = "cv_dscmp (clk e p)" and ?p = "p\<lparr>p_best := None\<rparr>" and ?ks = "map fst (p_foreign_masters p)"
  have "best_inv ?cmp {} {} ?p" using assms(1) by (simp add: best_inv_def foreign_inv_def)
  then obtain G where G: "\<forall>k \<in> set ?ks. \<forall>d. candidate e ?p k d \<longrightarrow> d \<in> G"
      "best_inv ?cmp (set ?ks) G (foldl (compute_best_step e ?cmp) ?p ?ks)"
    using best_inv_foldl [of ?cmp "{}" "{}" ?p ?ks e] assms(1,2) by (auto simp: foreign_inv_def)
  have q: "q = foldl (compute_best_step e ?cmp) ?p ?ks"
    using assms(3,4) by (simp add: port_compute_best_def Let_def)
  have "d \<in> G" if "candidate e p k d" for k d
  proof -
    have "candidate e ?p k d" using that by (simp add: candidate_def fc_get_def announce_to_dataset_def)
    moreover have "k \<in> set ?ks" using that by (force simp: candidate_def fc_get_def dest: map_of_SomeD)
    ultimately show ?thesis using G(1) by blast
  qed
  then show ?thesis using G(2) unfolding best_inv_def q by (fastforce split: option.splits)
qed

text \<open>Two masters with two messages each.\<close>

definition sample_announce :: "u8 \<Rightarrow> pmsg" where
  "sample_announce prio = zero_msg\<lparr>pm_source := zero_pid\<lparr>portNumber := ucast prio\<rparr>,
     pm_announce := (pm_announce zero_msg)\<lparr>an_grandmasterPriority1 := prio\<rparr>\<rparr>"

definition sample_fc :: "u8 \<Rightarrow> foreign_clock" where
  "sample_fc prio = \<lparr>fc_messages = [sample_announce prio, sample_announce prio], fc_n_messages = 2,
     fc_dataset = zero_dataset\<lparr>ds_sender := zero_pid\<lparr>portNumber := ucast prio\<rparr>\<rparr>\<rparr>"

definition two_masters :: port where
  "two_masters = sample_port\<lparr>p_foreign_masters := [(1, sample_fc 10), (2, sample_fc 5)]\<rparr>"

theorem port_compute_best_optimal_witness:
  "\<exists>b best. p_best (port_compute_best sample_env two_masters) = Some b \<and>
     qualifies (port_compute_best sample_env two_masters) b best \<and>
     cv_dscmp (clk sample_env two_masters) (announce_to_dataset (sample_announce 5) two_masters) (fc_dataset best) \<le> 0"
proof -
  have inv: "foreign_inv two_masters"
    by (simp add: foreign_inv_def two_masters_def fc_inv_def fc_counted_def sample_fc_def sample_announce_def sample_defs)
  have ord: "dataset_order (cv_dscmp (clk sample_env two_masters))"
    by (auto simp: dataset_order_def dscmp_priority1_def clk_def sample_env_def sample_clock_def)
  have "candidate sample_env two_masters 2 (announce_to_dataset (sample_announce 5) two_masters)"
    by (simp add: candidate_def two_masters_def fc_get_def sample_fc_def msg_current_def timespec_ns_def)
      (simp add: sample_announce_def sample_defs)
  moreover have "\<not> p_master_only two_masters" by (simp add: two_masters_def sample_defs)
  ultimately show ?thesis using port_compute_best_optimal [OF inv ord _ refl] by blast
qed

text \<open>A unicast message from a master that is not in the table is meant to be answered with a cancellation:
  \<open>port_unicast_message_valid\<close> calls \<open>unicast_client_tx_cancel\<close> for it. The master record that it passes has
  no grants, so that the call returns at once, and no message ever leaves the port.\<close>

theorem stray_master_never_cancelled:
  "snd (port_unicast_message_valid e p m) = p"
  by (simp add: port_unicast_message_valid_def unicast_client_tx_cancel_def)

end
