(* ===== verification/Port_Fsm.thy ===== *)
theory Port_Fsm
  imports Port_Foreign
begin

text \<open>
  The life cycle of a port: \<open>port_initialize\<close> and \<open>port_disable\<close>, the update of its state
  (\<open>port_state_update\<close>), the effects of a transition (\<open>port_e2e_transition\<close>, \<open>port_p2p_transition\<close>), the
  three dispatchers (\<open>bc_dispatch\<close> of \<open>port.c\<close>, \<open>p2p_dispatch\<close> of \<open>p2p_tc.c\<close>, \<open>e2e_dispatch\<close> of \<open>e2e_tc.c\<close>), and link status
  changes.

  A dispatch is an option: \<open>None\<close> means that it does not return, because the capability test does not (theory
  \<open>Port_Capable\<close>) or because \<open>bc_dispatch\<close> calls itself for ever.
\<close>

section \<open>Faults\<close>

definition clear_fault_asap :: "fault_interval \<Rightarrow> bool" where
  "clear_fault_asap faint =
    (case fi_type faint of
       FTMO_LINEAR_SECONDS \<Rightarrow> fi_val faint = 0
     | FTMO_LOG2_SECONDS \<Rightarrow> fi_val faint = FRI_ASAP
     | FTMO_CNT \<Rightarrow> False)"

definition fault_interval :: "port \<Rightarrow> fault_type \<Rightarrow> fault_interval" where
  "fault_interval p ft = p_flt_interval_pertype p ft"

definition port_link_status_get :: "port \<Rightarrow> bool" where
  "port_link_status_get p \<longleftrightarrow> p_link_status p AND LINK_UP \<noteq> 0"

definition port_is_enabled :: "port \<Rightarrow> bool" where
  "port_is_enabled p \<longleftrightarrow> p_state p \<notin> {PS_INITIALIZING, PS_FAULTY, PS_DISABLED}"

section \<open>Disabling a port\<close>

definition flush_last_sync :: "port \<Rightarrow> port" where
  "flush_last_sync p = (if p_syfu p \<noteq> SF_EMPTY then (do_call Syncfup_put p)\<lparr>p_syfu := SF_EMPTY\<rparr> else p)"

definition flush_delay_req :: "port \<Rightarrow> port" where
  "flush_delay_req p = p\<lparr>p_delay_req := []\<rparr>"

definition flush_peer_delay :: "port \<Rightarrow> port" where
  "flush_peer_delay p = p\<lparr>p_peer_delay_req := None, p_peer_delay_resp := None, p_peer_delay_fup := None\<rparr>"

definition tc_flush :: "port \<Rightarrow> port" where
  "tc_flush q = q\<lparr>p_tc_transmitted := []\<rparr>"

definition port_disable :: "port \<Rightarrow> port" where
  "port_disable p =
    (let p = flush_peer_delay (flush_delay_req (flush_last_sync (tc_flush p)));
         p = free_foreign_masters (p\<lparr>p_best := None\<rparr>);
         p = do_call Close_timers (do_call Transport_close p);
         p = (if p_cmlds_pmc p then (do_call Pmc_destroy p)\<lparr>p_cmlds_pmc := False\<rparr> else p)
     in do_call Clock_fda_changed (p\<lparr>p_last_sync_recv_time := tmv_zero, p_sync_interval_exceed_count := 0\<rparr>))"

section \<open>Initializing a port\<close>

definition port_cmlds_renew :: "env \<Rightarrow> port \<Rightarrow> int \<Rightarrow> int \<times> port" where
  "port_cmlds_renew e p now =
    (let p = do_call Pmc_subscribe p
     in if ret e p \<noteq> 0 then (ret e p, p) else (0, p\<lparr>p_cmlds_last_renewal := now\<rparr>))"

definition port_cmlds_initialize :: "env \<Rightarrow> port \<Rightarrow> int \<times> port" where
  "port_cmlds_initialize e p =
    (let nr = e_cfg e ''cmlds.port'';
         nr = (if nr = 0 then uint (portNumber (p_portIdentity p)) else nr);
         p = do_call Pmc_create (p\<lparr>p_cfg := (p_cfg p)\<lparr>c_cmlds_port := nr\<rparr>\<rparr>)
     in if ret e p = 0 then (-1, p\<lparr>p_cmlds_pmc := False\<rparr>)
        else let (now, p) = clock_gettime e (p\<lparr>p_cmlds_pmc := True, p_cmlds_timer_count := 0\<rparr>)
             in port_cmlds_renew e p (sint (tv_sec now)))"

text \<open>The conversion of a configuration value to \<open>Integer8\<close>.\<close>

definition int8 :: "int \<Rightarrow> int" where
  "int8 x = sint (word_of_int x :: 8 word)"

definition initialize_config :: "env \<Rightarrow> port_config \<Rightarrow> port_config" where
  "initialize_config e c =
    c\<lparr>c_initialLogAnnounceInterval := int8 (e_cfg e ''logAnnounceInterval''),
      c_inhibit_announce := e_cfg e ''inhibit_announce'' \<noteq> 0,
      c_ignore_source_id := e_cfg e ''ignore_source_id'' \<noteq> 0,
      c_announceReceiptTimeout := of_int (e_cfg e ''announceReceiptTimeout''),
      c_syncReceiptTimeout := of_int (e_cfg e ''syncReceiptTimeout''),
      c_transportSpecific := push_bit 4 (of_int (e_cfg e ''transportSpecific'')),
      c_match_transport_specific := e_cfg e ''ignore_transport_specific'' = 0,
      c_localPriority := of_int (e_cfg e ''G.8275.portDS.localPriority''),
      c_initialLogSyncInterval := int8 (e_cfg e ''logSyncInterval''),
      c_operLogSyncInterval := int8 (e_cfg e ''operLogSyncInterval''),
      c_logMinPdelayReqInterval := int8 (e_cfg e ''logMinPdelayReqInterval''),
      c_operLogPdelayReqInterval := int8 (e_cfg e ''operLogPdelayReqInterval''),
      c_min_neighbor_prop_delay := e_cfg e ''min_neighbor_prop_delay'',
      c_delay_response_timeout := of_int (e_cfg e ''delay_response_timeout''),
      c_iface_rate_tlv := e_cfg e ''interface_rate_tlv'' \<noteq> 0,
      c_inhibit_delay_req := e_cfg e ''inhibit_delay_req'' \<noteq> 0\<rparr>"

definition initialize_fields :: "env \<Rightarrow> port \<Rightarrow> port" where
  "initialize_fields e p =
    (let p = p\<lparr>p_cfg := initialize_config e (p_cfg p)\<rparr>
     in p\<lparr>p_multiple_seq_pdr_count := 0, p_multiple_pdr_detected := False, p_last_fault_type := FT_UNSPECIFIED,
          p_logMinDelayReqInterval := int8 (e_cfg e ''logMinDelayReqInterval''), p_peerMeanPathDelay := 0,
          p_logAnnounceInterval := p_initialLogAnnounceInterval p, p_logSyncInterval := p_initialLogSyncInterval p,
          p_logPdelayReqInterval := p_logMinPdelayReqInterval p,
          p_neighborPropDelayThresh := of_int (e_cfg e ''neighborPropDelayThresh''),
          p_asCapable := (if e_cfg e ''asCapable'' = 0 then ALWAYS_CAPABLE else NOT_CAPABLE)\<rparr>)"

fun create_timers :: "env \<Rightarrow> nat \<Rightarrow> port \<Rightarrow> bool \<times> port" where
  "create_timers e 0 p = (True, p)"
| "create_timers e (Suc n) p =
    (let p = do_call Timerfd_create p in if ret e p < 0 then (False, p) else create_timers e n p)"

abbreviation "N_TIMER_FDS \<equiv> 8 :: nat"

text \<open>The calls that lead to \<open>no_tmo\<close> if they fail.\<close>

definition initialize_timers :: "env \<Rightarrow> port \<Rightarrow> bool \<times> port" where
  "initialize_timers e p =
    (case port_set_announce_tmo e p of (err, p) \<Rightarrow>
      if err \<noteq> 0 then (False, p)
      else case if unicast_client_enabled p then unicast_client_set_tmo e p else (0, p) of (err, p) \<Rightarrow>
        if err \<noteq> 0 then (False, p)
        else if p_delayMechanism p = DM_COMMON_P2P
        then case port_cmlds_initialize e p of (err, p) \<Rightarrow> (err = 0, p)
        else (True, p))"

definition initialize_finish :: "env \<Rightarrow> port \<Rightarrow> port" where
  "initialize_finish e p =
    (let p = (if port_is_uds p then p
              else let p = (if p_bmca p = BMCA_NOOP then snd (port_set_delay_tmo e p) else p);
                       p = (if p_fd_rtnl p = -1 then let p = do_call Rtnl_open p in p\<lparr>p_fd_rtnl := ret e p\<rparr> else p)
                   in if p_fd_rtnl p \<ge> 0 then do_call Rtnl_link_query p else p);
         p = (port_nrate_initialize p)\<lparr>p_last_sync_recv_time := tmv_zero, p_sync_interval_exceed_count := 0\<rparr>
     in do_call Clock_fda_changed p)"

definition port_initialize :: "env \<Rightarrow> port \<Rightarrow> int \<times> port" where
  "port_initialize e p =
    (let p = initialize_fields e p
     in if p_inhibit_delay_req p \<and> p_asCapable p \<noteq> ALWAYS_CAPABLE then (-1, p)
        else let p = (if p_delayMechanism p = DM_NO_MECHANISM
                      then p\<lparr>p_cfg := (p_cfg p)\<lparr>c_inhibit_delay_req := True\<rparr>\<rparr> else p)
             in case create_timers e N_TIMER_FDS p of (created, p) \<Rightarrow>
                  if \<not> created then (-1, do_call Close_timers p)
                  else let p = do_call Transport_open p
                       in if ret e p \<noteq> 0 then (-1, do_call Close_timers p)
                          else case initialize_timers e p of (ok, p) \<Rightarrow>
                            if \<not> ok then (-1, do_call Close_timers (do_call Transport_close p))
                            else (0, initialize_finish e p))"

definition port_renew_transport :: "env \<Rightarrow> port \<Rightarrow> int \<times> port" where
  "port_renew_transport e p =
    (if \<not> port_is_enabled p then (0, p)
     else if p_trp p = TRANS_IEEE_802_3 then (0, p)
     else let p = do_call Transport_open (do_call Transport_close p); res = ret e p
          in (res, do_call Clock_fda_changed p))"

section \<open>State changes\<close>

definition port_state_update :: "env \<Rightarrow> port \<Rightarrow> fsm_event \<Rightarrow> int \<Rightarrow> bool \<times> port" where
  "port_state_update e p event mdiff =
    (let next = p_state_machine p (p_state p) event mdiff;
         next = (if next = PS_FAULTY \<and> port_link_status_get p \<and> clear_fault_asap (fault_interval p (p_last_fault_type p))
                 then p_state_machine p next EV_FAULT_CLEARED 0 else next);
         (next, p) = (if next = PS_INITIALIZING
                      then let p = (if port_is_enabled p then port_disable p else p);
                               (err, p) = port_initialize e p
                           in (p_state_machine p next (if err \<noteq> 0 then EV_FAULT_DETECTED else EV_INIT_COMPLETE) 0, p)
                      else (next, p));
         p = (if mdiff \<noteq> 0 then p\<lparr>p_unicast_state_dirty := True\<rparr> else p)
     in if next \<noteq> p_state p
        then (True, (port_notify_event e (p\<lparr>p_state := next\<rparr>) NOTIFY_PORT_STATE)\<lparr>p_unicast_state_dirty := True\<rparr>)
        else (False, p))"

fun clr_tmos :: "env \<Rightarrow> fd_index list \<Rightarrow> port \<Rightarrow> port" where
  "clr_tmos e [] p = p"
| "clr_tmos e (fd # fds) p = clr_tmos e fds (snd (port_clr_tmo e fd p))"

definition sad_reset :: "port \<Rightarrow> port" where
  "sad_reset p = do_call (Sad_set_last_seqid (-1)) p"

text \<open>The branch of the master states, which the two transitions share.\<close>

definition master_timers :: "env \<Rightarrow> port \<Rightarrow> port" where
  "master_timers e p =
    (let p = (if p_inhibit_announce p then p else snd (set_tmo_log e FD_MANNO_TIMER 1 (-10) p))
     in sad_reset (snd (port_set_sync_tx_tmo e p)))"

definition port_e2e_transition :: "env \<Rightarrow> port \<Rightarrow> port_state \<Rightarrow> port" where
  "port_e2e_transition e p next =
    (let p = clr_tmos e [FD_ANNOUNCE_TIMER, FD_SYNC_RX_TIMER, FD_DELAY_TIMER, FD_QUALIFICATION_TIMER, FD_MANNO_TIMER,
               FD_SYNC_TX_TIMER] p;
         slave = (\<lambda>p. snd (port_set_delay_tmo e (snd (port_set_announce_tmo e p))))
     in case next of
          PS_INITIALIZING \<Rightarrow> p
        | PS_FAULTY \<Rightarrow> sad_reset (port_disable p)
        | PS_DISABLED \<Rightarrow> sad_reset (port_disable p)
        | PS_LISTENING \<Rightarrow> snd (port_set_announce_tmo e p)
        | PS_PRE_MASTER \<Rightarrow> snd (port_set_qualification_tmo e p)
        | PS_MASTER \<Rightarrow> master_timers e p
        | PS_GRAND_MASTER \<Rightarrow> master_timers e p
        | PS_PASSIVE \<Rightarrow> snd (port_set_announce_tmo e p)
        | PS_UNCALIBRATED \<Rightarrow> slave (sad_reset (flush_delay_req (flush_last_sync p)))
        | PS_SLAVE \<Rightarrow> slave p)"

definition port_p2p_transition :: "env \<Rightarrow> port \<Rightarrow> port_state \<Rightarrow> port option" where
  "port_p2p_transition e p next =
    (let p = clr_tmos e [FD_ANNOUNCE_TIMER, FD_SYNC_RX_TIMER, FD_QUALIFICATION_TIMER, FD_MANNO_TIMER, FD_SYNC_TX_TIMER] p
     in case next of
          PS_INITIALIZING \<Rightarrow> Some p
        | PS_FAULTY \<Rightarrow> Some (sad_reset (port_disable p))
        | PS_DISABLED \<Rightarrow> Some (sad_reset (port_disable p))
        | PS_LISTENING \<Rightarrow>
            (let p = snd (port_set_delay_tmo e (snd (port_set_announce_tmo e p)))
             in if p_gptp_capable_transmit p then map_option snd (port_tx_gptp_capable e p) else Some p)
        | PS_PRE_MASTER \<Rightarrow> Some (snd (port_set_qualification_tmo e p))
        | PS_MASTER \<Rightarrow> Some (master_timers e p)
        | PS_GRAND_MASTER \<Rightarrow> Some (master_timers e p)
        | PS_PASSIVE \<Rightarrow> Some (snd (port_set_announce_tmo e p))
        | PS_UNCALIBRATED \<Rightarrow>
            Some (snd (port_set_announce_tmo e (sad_reset (flush_peer_delay (flush_last_sync p)))))
        | PS_SLAVE \<Rightarrow> Some (snd (port_set_announce_tmo e p)))"

definition bc_transition :: "env \<Rightarrow> port \<Rightarrow> port option" where
  "bc_transition e p =
    (if p_delayMechanism p \<in> {DM_COMMON_P2P, DM_P2P} then port_p2p_transition e p (p_state p)
     else Some (port_e2e_transition e p (p_state p)))"

partial_function (option) bc_dispatch :: "env \<Rightarrow> port \<Rightarrow> fsm_event \<Rightarrow> int \<Rightarrow> port option" where
  "bc_dispatch e p event mdiff =
    (case port_state_update e p event mdiff of (changed, p) \<Rightarrow>
      if \<not> changed then Some p
      else Option.bind (bc_transition e p) (\<lambda>p.
        if p_jbod p \<and> p_state p = PS_UNCALIBRATED \<and> p_phc_index p \<ge> 0
        then let p = do_call (Clock_switch_phc (p_phc_index p)) p
             in if ret e p \<noteq> 0 then bc_dispatch e (p\<lparr>p_last_fault_type := FT_SWITCH_PHC\<rparr>) EV_FAULT_DETECTED 0
                else Some (do_call (Clock_sync_interval (p_log_sync_interval p)) p)
        else Some p))"

section \<open>The dispatchers of transparent clocks\<close>

definition tc_timers :: "port_state \<Rightarrow> env \<Rightarrow> (port \<Rightarrow> port) \<Rightarrow> port \<Rightarrow> port" where
  "tc_timers next e flush p =
    (let p = clr_tmos e [FD_ANNOUNCE_TIMER, FD_SYNC_RX_TIMER, FD_QUALIFICATION_TIMER, FD_MANNO_TIMER, FD_SYNC_TX_TIMER] p
     in case next of
          PS_INITIALIZING \<Rightarrow> p
        | PS_FAULTY \<Rightarrow> sad_reset (port_disable p)
        | PS_DISABLED \<Rightarrow> sad_reset (port_disable p)
        | PS_LISTENING \<Rightarrow> snd (port_set_delay_tmo e (snd (port_set_announce_tmo e p)))
        | PS_PRE_MASTER \<Rightarrow> snd (port_set_qualification_tmo e p)
        | PS_MASTER \<Rightarrow> sad_reset p
        | PS_GRAND_MASTER \<Rightarrow> sad_reset p
        | PS_PASSIVE \<Rightarrow> snd (port_set_announce_tmo e p)
        | PS_UNCALIBRATED \<Rightarrow> snd (port_set_announce_tmo e (sad_reset (flush p)))
        | PS_SLAVE \<Rightarrow> snd (port_set_announce_tmo e p))"

definition e2e_dispatch :: "env \<Rightarrow> port \<Rightarrow> fsm_event \<Rightarrow> int \<Rightarrow> port" where
  "e2e_dispatch e p event mdiff =
    (case port_state_update e p event mdiff of (changed, p) \<Rightarrow>
      if \<not> changed then p
      else if portNumber (p_portIdentity p) = 0 then p
      else tc_timers (p_state p) e (\<lambda>p. flush_delay_req (flush_last_sync p)) p)"

definition p2p_dispatch :: "env \<Rightarrow> port \<Rightarrow> fsm_event \<Rightarrow> int \<Rightarrow> port" where
  "p2p_dispatch e p event mdiff =
    (case port_state_update e p event mdiff of (changed, p) \<Rightarrow>
      if \<not> changed then p
      else if portNumber (p_portIdentity p) = 0 then p
      else tc_timers (p_state p) e (\<lambda>p. p) p)"

definition port_dispatch :: "env \<Rightarrow> port \<Rightarrow> fsm_event \<Rightarrow> int \<Rightarrow> port option" where
  "port_dispatch e p event mdiff =
    (case p_dispatch p of
       CLOCK_TYPE_ORDINARY \<Rightarrow> bc_dispatch e p event mdiff
     | CLOCK_TYPE_BOUNDARY \<Rightarrow> bc_dispatch e p event mdiff
     | CLOCK_TYPE_P2P \<Rightarrow> Some (p2p_dispatch e p event mdiff)
     | CLOCK_TYPE_E2E \<Rightarrow> Some (e2e_dispatch e p event mdiff)
     | CLOCK_TYPE_MANAGEMENT \<Rightarrow> None)"

section \<open>Link status\<close>

definition port_change_phc :: "env \<Rightarrow> port \<Rightarrow> port option" where
  "port_change_phc e p =
    (let phc = e_iface_phc_index e (p_log p)
     in if p_link_status p AND LINK_UP = 0 \<or> p_phc_index p < 0 \<or> \<not> e_iface_tsinfo_valid e (p_log p) \<or>
           e_iface_vclock e (p_log p) \<ge> 0 \<or> phc < 0 \<or> p_phc_index p = phc
        then Some p
        else if \<not> e_tsmodes_supported e (p_log p) then Some (p\<lparr>p_link_status := LINK_DOWN OR LINK_STATE_CHANGED\<rparr>)
        else if p_phc_from_cmdline p then Some p
        else let p = do_call (Clock_switch_phc phc) (p\<lparr>p_phc_index := phc\<rparr>)
             in if ret e p \<noteq> 0 then port_dispatch e (p\<lparr>p_last_fault_type := FT_SWITCH_PHC\<rparr>) EV_FAULT_DETECTED 0
                else Some (do_call (Clock_sync_interval (p_log_sync_interval p)) p))"

definition port_link_status :: "env \<Rightarrow> port \<Rightarrow> bool \<Rightarrow> string option \<Rightarrow> port option" where
  "port_link_status e p linkup ts_label =
    (let link_state = (if linkup then LINK_UP else LINK_DOWN);
         p = (if p_link_status p AND link_state \<noteq> 0 then p\<lparr>p_link_status := link_state\<rparr>
              else let p = p\<lparr>p_link_status := link_state OR LINK_STATE_CHANGED\<rparr>
                   in if linkup then do_call Interface_get_ifinfo p else p);
         p = (case ts_label of
                Some l \<Rightarrow> if e_iface_label e (p_log p) \<noteq> l
                          then (do_call (Interface_set_label l) p)\<lparr>p_link_status := p_link_status p OR TS_LABEL_CHANGED\<rparr>
                          else p
              | None \<Rightarrow> p)
     in map_option (\<lambda>p. if p_link_status p AND LINK_DOWN \<noteq> 0 then do_call Clock_set_sde p else p)
          (port_change_phc e (do_call Interface_get_tsinfo p)))"

definition port_update_unicast_state :: "env \<Rightarrow> port \<Rightarrow> port" where
  "port_update_unicast_state e p =
    (if p_unicast_state_dirty p then (unicast_client_state_changed e p)\<lparr>p_unicast_state_dirty := False\<rparr> else p)"

definition port_set_fault_timer_log :: "env \<Rightarrow> port \<Rightarrow> u32 \<Rightarrow> int \<Rightarrow> int \<times> port" where
  "port_set_fault_timer_log e p scale log_seconds = set_tmo_log e FD_FAULT scale log_seconds p"

definition port_set_fault_timer_lin :: "env \<Rightarrow> port \<Rightarrow> int \<Rightarrow> int \<times> port" where
  "port_set_fault_timer_lin e p seconds = set_tmo_lin e FD_FAULT seconds p"

end
