(* ===== verification/Port_Sync.thy ===== *)
theory Port_Sync
  imports Port_Fsm
begin

text \<open>
  Synchronization of a slave port (\<open>port.c\<close>): \<open>process_sync\<close>, \<open>process_follow_up\<close>, the automaton \<open>port_syfufsm\<close> that pairs
  the two messages in either order, and \<open>port_synchronize\<close>, which hands a measurement to the clock.

  The references to \<open>last_syncfup\<close> that the automaton takes and releases are calls of the log
  (\<open>Syncfup_get\<close>, \<open>Syncfup_put\<close>).
\<close>

section \<open>Handing over a measurement\<close>

definition check_source_identity :: "env \<Rightarrow> port \<Rightarrow> pmsg \<Rightarrow> bool" where
  "check_source_identity e p m \<longleftrightarrow>
    \<not> p_ignore_source_id p \<and> \<not> pid_eq (cv_parent_identity (clk e p)) (pm_source m)"

definition message_interval_request :: "env \<Rightarrow> port \<Rightarrow> servo_state \<Rightarrow> int \<Rightarrow> port option" where
  "message_interval_request e p last_state sync_interval =
    (if \<not> p_msg_interval_request p then Some p
     else if last_state = SERVO_LOCKED
     then let p = p\<lparr>p_logPdelayReqInterval := p_operLogPdelayReqInterval p, p_logSyncInterval := p_operLogSyncInterval p\<rparr>
          in do { (_, p) \<leftarrow> port_tx_interval_request e p SIGNAL_NO_CHANGE (p_logSyncInterval p) SIGNAL_NO_CHANGE;
                  port_dispatch e p EV_MASTER_CLOCK_SELECTED 0 }
     else if sync_interval \<noteq> p_operLogSyncInterval p
     then port_dispatch e (do_call Servo_reset p) EV_SYNCHRONIZATION_FAULT 0
     else Some p)"

text \<open>The part of \<open>port_synchronize\<close> before the \<open>switch\<close>: the port after the call of \<open>clock_synchronize\<close>, the
  servo state before it, and the one it returned.\<close>

definition synchronize_clock ::
  "env \<Rightarrow> port \<Rightarrow> u16 \<Rightarrow> tmv_t \<Rightarrow> timestamp \<Rightarrow> i64 \<Rightarrow> i64 \<Rightarrow> servo_state \<times> servo_state \<times> port" where
  "synchronize_clock e p seqid ingress_ts origin_ts correction1 correction2 =
    (let p = snd (port_set_sync_rx_tmo e p);
         t1 = timestamp_to_tmv origin_ts;
         t2 = ingress_ts;
         c1 = correction_to_tmv correction1;
         c2 = correction_to_tmv correction2;
         t1c = tmv_add t1 (tmv_add c1 c2);
         p = (if p_state p \<in> {PS_UNCALIBRATED, PS_SLAVE}
              then do_call (Monitor_sync (cv_parent_identity (clk e p)) seqid t1 (tmv_add c1 c2) t2) p else p);
         p = do_call (Sad_set_last_seqid (uint seqid)) p;
         last_state = cv_servo_state (clk e p);
         p = do_call (Clock_synchronize t2 t1c) p
     in (last_state, e_servo e (p_log p), p))"

definition port_synchronize ::
  "env \<Rightarrow> port \<Rightarrow> u16 \<Rightarrow> tmv_t \<Rightarrow> timestamp \<Rightarrow> i64 \<Rightarrow> i64 \<Rightarrow> int \<Rightarrow> port option" where
  "port_synchronize e p seqid ingress_ts origin_ts correction1 correction2 sync_interval =
    (case synchronize_clock e p seqid ingress_ts origin_ts correction1 correction2 of (last_state, state, p) \<Rightarrow>
      (case state of
         SERVO_UNLOCKED \<Rightarrow> do {
           p \<leftarrow> port_dispatch e p EV_SYNCHRONIZATION_FAULT 0;
           if cv_servo_offset_threshold (clk e p) \<noteq> 0 \<and> sync_interval \<noteq> p_initialLogSyncInterval p
           then let p = p\<lparr>p_logPdelayReqInterval := p_logMinPdelayReqInterval p, p_logSyncInterval := p_initialLogSyncInterval p\<rparr>
                in map_option snd (port_tx_interval_request e p SIGNAL_NO_CHANGE SIGNAL_SET_INITIAL SIGNAL_NO_CHANGE)
           else Some p }
       | SERVO_JUMP \<Rightarrow> do {
           p \<leftarrow> port_dispatch e p EV_SYNCHRONIZATION_FAULT 0;
           Some ((flush_delay_req p)\<lparr>p_peer_delay_req := None\<rparr>) }
       | SERVO_LOCKED \<Rightarrow> port_dispatch e p EV_MASTER_CLOCK_SELECTED 0
       | SERVO_LOCKED_STABLE \<Rightarrow> do {
           p \<leftarrow> message_interval_request e p last_state sync_interval;
           port_dispatch e p EV_MASTER_CLOCK_SELECTED 0 }))"

section \<open>Pairing Sync and Follow_Up\<close>

definition keep_syncfup :: "pmsg \<Rightarrow> port \<Rightarrow> port" where
  "keep_syncfup m p = (do_call Syncfup_get p)\<lparr>p_last_syncfup := m\<rparr>"

definition replace_syncfup :: "pmsg \<Rightarrow> port \<Rightarrow> port" where
  "replace_syncfup m p = keep_syncfup m (do_call Syncfup_put p)"

definition count_sync_mismatch :: "port \<Rightarrow> port" where
  "count_sync_mismatch p = p\<lparr>p_service_stats := (p_service_stats p)\<lparr>st_sync_mismatch := st_sync_mismatch (p_service_stats p) + 1\<rparr>\<rparr>"

definition count_followup_mismatch :: "port \<Rightarrow> port" where
  "count_followup_mismatch p =
    p\<lparr>p_service_stats := (p_service_stats p)\<lparr>st_followup_mismatch := st_followup_mismatch (p_service_stats p) + 1\<rparr>\<rparr>"

definition release_syncfup :: "port \<Rightarrow> port" where
  "release_syncfup p = (do_call Syncfup_put p)\<lparr>p_syfu := SF_EMPTY\<rparr>"

definition port_syfufsm :: "env \<Rightarrow> port \<Rightarrow> syfu_event \<Rightarrow> pmsg \<Rightarrow> port option" where
  "port_syfufsm e p event m =
    (case p_syfu p of
       SF_EMPTY \<Rightarrow>
         (case event of
            SYNC_MISMATCH \<Rightarrow> Some ((keep_syncfup m p)\<lparr>p_syfu := SF_HAVE_SYNC\<rparr>)
          | FUP_MISMATCH \<Rightarrow> Some ((keep_syncfup m p)\<lparr>p_syfu := SF_HAVE_FUP\<rparr>)
          | SYNC_MATCH \<Rightarrow> Some p
          | FUP_MATCH \<Rightarrow> Some p)
     | SF_HAVE_SYNC \<Rightarrow>
         (case event of
            SYNC_MISMATCH \<Rightarrow> Some (count_sync_mismatch (replace_syncfup m p))
          | SYNC_MATCH \<Rightarrow> Some p
          | FUP_MISMATCH \<Rightarrow> Some (count_followup_mismatch ((replace_syncfup m p)\<lparr>p_syfu := SF_HAVE_FUP\<rparr>))
          | FUP_MATCH \<Rightarrow>
              (let syn = p_last_syncfup p
               in map_option release_syncfup
                    (port_synchronize e p (pm_sequenceId syn) (pm_hwts_ts syn) (pm_pdu m) (pm_correction syn)
                       (pm_correction m) (pm_logMessageInterval m))))
     | SF_HAVE_FUP \<Rightarrow>
         (case event of
            SYNC_MISMATCH \<Rightarrow> Some (count_sync_mismatch ((replace_syncfup m p)\<lparr>p_syfu := SF_HAVE_SYNC\<rparr>))
          | SYNC_MATCH \<Rightarrow>
              (let fup = p_last_syncfup p
               in map_option release_syncfup
                    (port_synchronize e p (pm_sequenceId fup) (pm_hwts_ts m) (pm_pdu fup) (pm_correction m)
                       (pm_correction fup) (pm_logMessageInterval m)))
          | FUP_MISMATCH \<Rightarrow> Some (count_followup_mismatch (replace_syncfup m p))
          | FUP_MATCH \<Rightarrow> Some p))"

definition fup_sync_ok :: "pmsg \<Rightarrow> pmsg \<Rightarrow> bool" where
  "fup_sync_ok fup sync \<longleftrightarrow> \<not> tmv_cmp (pm_hwts_sw fup) (pm_hwts_sw sync) < 0"

definition pm_one_step :: "env \<Rightarrow> pmsg \<Rightarrow> bool" where
  "pm_one_step e m \<longleftrightarrow> \<not> e_assume_two_step e \<and> pm_flag0 m AND FLAG_TWO_STEP = 0"

text \<open>The organization id of the TLV is not compared.\<close>

definition follow_up_info_extract :: "pmsg \<Rightarrow> ptlv option" where
  "follow_up_info_extract m =
    List.find (\<lambda>t. case t of TlvOrg False _ subtype d \<Rightarrow> length d = 22 \<and> subtype = [0, 0, 1] | _ \<Rightarrow> False) (pm_tlvs m)"

definition process_follow_up :: "env \<Rightarrow> port \<Rightarrow> pmsg \<Rightarrow> port option" where
  "process_follow_up e p m =
    (if p_state p \<notin> {PS_UNCALIBRATED, PS_SLAVE} then Some p
     else if check_source_identity e p m then Some p
     else if p_follow_up_info p \<and> follow_up_info_extract m = None then Some p
     else let p = (case follow_up_info_extract m of
                     Some fui \<Rightarrow> if p_follow_up_info p then do_call (Clock_follow_up_info fui) p else p
                   | None \<Rightarrow> p);
              event = (if p_syfu p = SF_HAVE_SYNC \<and> pm_sequenceId (p_last_syncfup p) = pm_sequenceId m
                       then FUP_MATCH else FUP_MISMATCH)
          in port_syfufsm e p event m)"

section \<open>Sync\<close>

text \<open>The supervision of the intervals between Sync messages.\<close>

definition check_sync_gap :: "port \<Rightarrow> pmsg \<Rightarrow> port" where
  "check_sync_gap p m =
    (if \<not> pm_sots_valid m then p
     else let current_sync_time = pm_hwts_ts m;
              p = (if tmv_is_zero (p_last_sync_recv_time p) then p
                   else let interval_ns = tmv_to_nanoseconds (tmv_sub current_sync_time (p_last_sync_recv_time p))
                        in if sint interval_ns > 500000000
                           then let p = p\<lparr>p_sync_interval_exceed_count := p_sync_interval_exceed_count p + 1\<rparr>
                                in if p_sync_interval_exceed_count p \<ge> 5 then do_call Clock_request_servo_reset p else p
                           else p\<lparr>p_sync_interval_exceed_count := 0\<rparr>)
          in p\<lparr>p_last_sync_recv_time := current_sync_time\<rparr>)"

definition check_sync_interval :: "port \<Rightarrow> pmsg \<Rightarrow> port" where
  "check_sync_interval p m =
    (let l = pm_logMessageInterval m
     in if \<not> pm_unicast m \<and> l \<noteq> p_log_sync_interval p
        then if l < -10 \<or> l > 22 then p else do_call (Clock_sync_interval l) (p\<lparr>p_log_sync_interval := l\<rparr>)
        else p)"

definition process_sync :: "env \<Rightarrow> port \<Rightarrow> pmsg \<Rightarrow> port option" where
  "process_sync e p m =
    (if p_state p \<notin> {PS_UNCALIBRATED, PS_SLAVE} then Some p
     else if check_source_identity e p m then Some p
     else let p = check_sync_interval (check_sync_gap p m) m;
              m = m\<lparr>pm_correction := pm_correction m + p_asymmetry p\<rparr>
          in if pm_one_step e m
             then map_option flush_last_sync
                    (port_synchronize e p (pm_sequenceId m) (pm_hwts_ts m) (pm_pdu m) (pm_correction m) 0
                       (pm_logMessageInterval m))
             else let event = (if p_syfu p = SF_HAVE_FUP \<and> fup_sync_ok (p_last_syncfup p) m \<and>
                                  pm_sequenceId (p_last_syncfup p) = pm_sequenceId m
                               then SYNC_MATCH else SYNC_MISMATCH)
                  in port_syfufsm e p event m)"

section \<open>Order of arrival\<close>

lemma bind_SomeE:
  assumes "Option.bind x f = Some y"
  obtains a where "x = Some a" and "f a = Some y"
  using assms by (cases x) auto

text \<open>The measurement of a Sync and its Follow_Up: sequence number, time of arrival, time of origin, and the two
  corrections, the first with the asymmetry of the port.\<close>

definition pair_measurement :: "port \<Rightarrow> pmsg \<Rightarrow> pmsg \<Rightarrow> u16 \<times> tmv_t \<times> timestamp \<times> i64 \<times> i64" where
  "pair_measurement p syn fup =
    (pm_sequenceId syn, pm_hwts_ts syn, pm_pdu fup, pm_correction syn + p_asymmetry p, pm_correction fup)"

definition hand_over :: "env \<Rightarrow> port \<Rightarrow> u16 \<times> tmv_t \<times> timestamp \<times> i64 \<times> i64 \<Rightarrow> int \<Rightarrow> port option" where
  "hand_over e p = (\<lambda>(seqid, ingress, origin, c1, c2) l. map_option release_syncfup (port_synchronize e p seqid ingress origin c1 c2 l))"

text \<open>The message comes from the master that the clock follows.\<close>

definition from_parent :: "env \<Rightarrow> port \<Rightarrow> pmsg \<Rightarrow> bool" where
  "from_parent e p m \<longleftrightarrow> p_ignore_source_id p \<or> (\<forall>cs. pid_eq (cv_parent_identity (e_clock e cs)) (pm_source m))"

definition no_measurement :: "port \<Rightarrow> port \<Rightarrow> bool" where
  "no_measurement p q \<longleftrightarrow> (\<exists>cs. p_log q = p_log p @ cs \<and> (\<forall>t2 t1c. Clock_synchronize t2 t1c \<notin> set cs))"

lemma check_sync_frame [simp]:
  "p_state (check_sync_interval (check_sync_gap p m) m) = p_state p"
  "p_cfg (check_sync_interval (check_sync_gap p m) m) = p_cfg p"
  "p_syfu (check_sync_interval (check_sync_gap p m) m) = p_syfu p"
  "p_last_syncfup (check_sync_interval (check_sync_gap p m) m) = p_last_syncfup p"
  "p_asymmetry (check_sync_interval (check_sync_gap p m) m) = p_asymmetry p"
  by (simp_all add: check_sync_interval_def check_sync_gap_def do_call_def Let_def)

lemma no_measurement_check: "no_measurement p (check_sync_interval (check_sync_gap p m) m)"
  by (auto simp: no_measurement_def check_sync_interval_def check_sync_gap_def do_call_def Let_def)

lemma one_step_correction [simp]: "pm_one_step e (m\<lparr>pm_correction := c\<rparr>) = pm_one_step e m"
  by (simp add: pm_one_step_def)

lemma from_parent_check: "from_parent e p m \<Longrightarrow> p_cfg q = p_cfg p \<Longrightarrow> \<not> check_source_identity e q m"
  by (auto simp: from_parent_def check_source_identity_def clk_def)

text \<open>A port that is waiting for nothing keeps a Sync, and a Follow_Up.\<close>

lemma process_sync_keep:
  assumes "p_state p \<in> {PS_UNCALIBRATED, PS_SLAVE}" and "from_parent e p m" and "\<not> pm_one_step e m" and "p_syfu p = SF_EMPTY"
  shows "process_sync e p m = Some ((keep_syncfup (m\<lparr>pm_correction := pm_correction m + p_asymmetry p\<rparr>)
    (check_sync_interval (check_sync_gap p m) m))\<lparr>p_syfu := SF_HAVE_SYNC\<rparr>)"
  using assms(1,3,4) from_parent_check [OF assms(2) refl]
  by (simp add: process_sync_def port_syfufsm_def Let_def)

definition note_follow_up :: "pmsg \<Rightarrow> port \<Rightarrow> port" where
  "note_follow_up m p = (case follow_up_info_extract m of
     Some fui \<Rightarrow> if p_follow_up_info p then do_call (Clock_follow_up_info fui) p else p | None \<Rightarrow> p)"

lemma note_follow_up_frame [simp]:
  "p_state (note_follow_up m p) = p_state p" "p_cfg (note_follow_up m p) = p_cfg p" "p_syfu (note_follow_up m p) = p_syfu p"
  "p_last_syncfup (note_follow_up m p) = p_last_syncfup p" "p_asymmetry (note_follow_up m p) = p_asymmetry p"
  by (auto simp: note_follow_up_def do_call_def split: option.splits)

lemma process_follow_up_run:
  assumes "p_state p \<in> {PS_UNCALIBRATED, PS_SLAVE}" and "from_parent e p m"
    and "p_follow_up_info p \<longrightarrow> follow_up_info_extract m \<noteq> None"
  shows "process_follow_up e p m = port_syfufsm e (note_follow_up m p)
    (if p_syfu p = SF_HAVE_SYNC \<and> pm_sequenceId (p_last_syncfup p) = pm_sequenceId m then FUP_MATCH else FUP_MISMATCH) m"
  using assms(1,3) from_parent_check [OF assms(2) refl]
  by (auto simp: process_follow_up_def note_follow_up_def [symmetric] Let_def)

text \<open>C12. Sync and Follow_Up may arrive in either order: on a slave port that waits for nothing, a two-step Sync and
  the Follow_Up with its sequence number are handed over as the same measurement (sequence number, times of arrival and
  origin, both corrections and the asymmetry) whichever comes first, and nothing is handed over before the
  pair is complete. The two runs differ in the interval they report, that of the message that came last.\<close>

theorem sync_follow_up_order:
  assumes "p_state p \<in> {PS_UNCALIBRATED, PS_SLAVE}" and "p_syfu p = SF_EMPTY"
    and "from_parent e p syn" and "from_parent e p fup" and "\<not> pm_one_step e syn"
    and "p_follow_up_info p \<longrightarrow> follow_up_info_extract fup \<noteq> None"
    and "pm_sequenceId fup = pm_sequenceId syn" and "fup_sync_ok fup syn"
  shows "\<exists>q1 q2. no_measurement p q1 \<and> no_measurement p q2 \<and>
    Option.bind (process_sync e p syn) (\<lambda>r. process_follow_up e r fup) =
      hand_over e q1 (pair_measurement p syn fup) (pm_logMessageInterval fup) \<and>
    Option.bind (process_follow_up e p fup) (\<lambda>r. process_sync e r syn) =
      hand_over e q2 (pair_measurement p syn fup) (pm_logMessageInterval syn)"
proof -
  let ?chk = "\<lambda>p. check_sync_interval (check_sync_gap p syn) syn"
    and ?syn = "syn\<lparr>pm_correction := pm_correction syn + p_asymmetry p\<rparr>"
  define r1 where "r1 = (keep_syncfup ?syn (?chk p))\<lparr>p_syfu := SF_HAVE_SYNC\<rparr>"
  have sync: "process_sync e p syn = Some r1"
    unfolding r1_def by (rule process_sync_keep) (use assms in auto)
  have r1: "p_state r1 = p_state p" "p_cfg r1 = p_cfg p" "p_syfu r1 = SF_HAVE_SYNC" "p_last_syncfup r1 = ?syn"
    by (simp_all add: r1_def keep_syncfup_def do_call_def)
  have "process_follow_up e r1 fup = port_syfufsm e (note_follow_up fup r1) FUP_MATCH fup"
    using process_follow_up_run [of r1 e fup] assms(1,4,6,7) r1 by (auto simp: from_parent_def)
  then have fup_last: "process_follow_up e r1 fup =
      hand_over e (note_follow_up fup r1) (pair_measurement p syn fup) (pm_logMessageInterval fup)"
    using r1 by (simp add: port_syfufsm_def hand_over_def pair_measurement_def Let_def)
  define r2 where "r2 = (keep_syncfup fup (note_follow_up fup p))\<lparr>p_syfu := SF_HAVE_FUP\<rparr>"
  have fup: "process_follow_up e p fup = Some r2"
    using process_follow_up_run [OF assms(1,4,6)] assms(2) by (simp add: port_syfufsm_def r2_def)
  have r2: "p_state r2 = p_state p" "p_cfg r2 = p_cfg p" "p_syfu r2 = SF_HAVE_FUP" "p_last_syncfup r2 = fup"
      "p_asymmetry r2 = p_asymmetry p"
    by (simp_all add: r2_def keep_syncfup_def do_call_def)
  then have "process_sync e r2 syn = port_syfufsm e (?chk r2) SYNC_MATCH ?syn"
    using assms from_parent_check [OF assms(3), of r2] by (auto simp: process_sync_def Let_def fup_sync_ok_def)
  then have sync_last: "process_sync e r2 syn = hand_over e (?chk r2) (pair_measurement p syn fup) (pm_logMessageInterval syn)"
    using r2 assms(7) by (simp add: port_syfufsm_def hand_over_def pair_measurement_def Let_def)
  have "no_measurement p (note_follow_up fup r1)"
    using no_measurement_check [of p syn]
    by (auto simp: no_measurement_def r1_def keep_syncfup_def note_follow_up_def do_call_def split: option.splits)
  moreover have "no_measurement p (?chk r2)"
    using no_measurement_check [of r2 syn]
    by (auto simp: no_measurement_def r2_def keep_syncfup_def note_follow_up_def do_call_def split: option.splits)
  ultimately show ?thesis using sync fup fup_last sync_last by (metis bind.bind_lunit)
qed

text \<open>A slave port, a two-step Sync and its Follow_Up.\<close>

definition sample_slave :: port where
  "sample_slave = sample_port\<lparr>p_state := PS_SLAVE\<rparr>"

definition sample_sync :: pmsg where
  "sample_sync = zero_msg\<lparr>pm_flag0 := FLAG_TWO_STEP, pm_sequenceId := 7, pm_hwts_ts := 5000\<rparr>"

definition sample_follow_up :: pmsg where
  "sample_follow_up = zero_msg\<lparr>pm_tsmt := FOLLOW_UP, pm_sequenceId := 7, pm_pdu := \<lparr>sec = 0, nsec = 4000\<rparr>\<rparr>"

theorem sync_follow_up_order_witness:
  "\<exists>q1 q2. no_measurement sample_slave q1 \<and> no_measurement sample_slave q2 \<and>
    Option.bind (process_sync sample_env sample_slave sample_sync) (\<lambda>r. process_follow_up sample_env r sample_follow_up) =
      hand_over sample_env q1 (7, 5000, \<lparr>sec = 0, nsec = 4000\<rparr>, 0, 0) 0 \<and>
    Option.bind (process_follow_up sample_env sample_slave sample_follow_up) (\<lambda>r. process_sync sample_env r sample_sync) =
      hand_over sample_env q2 (7, 5000, \<lparr>sec = 0, nsec = 4000\<rparr>, 0, 0) 0"
proof -
  have "pair_measurement sample_slave sample_sync sample_follow_up = (7, 5000, \<lparr>sec = 0, nsec = 4000\<rparr>, 0, 0)"
      "pm_logMessageInterval sample_follow_up = 0" "pm_logMessageInterval sample_sync = 0"
    by (simp_all add: pair_measurement_def sample_slave_def sample_sync_def sample_follow_up_def sample_defs)
  then show ?thesis
    using sync_follow_up_order [of sample_slave sample_env sample_sync sample_follow_up]
    by (simp add: from_parent_def pm_one_step_def fup_sync_ok_def tmv_cmp_def pid_eq_def cid_eq_def
        sample_slave_def sample_sync_def sample_follow_up_def sample_defs)
qed

text \<open>A reference is released twice: when the servo jumps on the measurement of a pair, \<open>port_synchronize\<close> makes
  the slave port uncalibrated, which flushes \<open>last_syncfup\<close>; then \<open>port_syfufsm\<close> releases the same message again. On this run
  the port releases two references and takes none.\<close>

theorem syncfup_released_twice:
  "\<exists>q. process_follow_up (sample_env\<lparr>e_servo := \<lambda>_. SERVO_JUMP\<rparr>)
      (sample_slave\<lparr>p_syfu := SF_HAVE_SYNC, p_last_syncfup := sample_sync, p_delayMechanism := DM_E2E\<rparr>) sample_follow_up = Some q \<and>
    count_list (p_log q) Syncfup_put = 2 \<and> count_list (p_log q) Syncfup_get = 0"
proof -
  let ?e = "sample_env\<lparr>e_servo := \<lambda>_. SERVO_JUMP\<rparr>"
  let ?p = "sample_slave\<lparr>p_syfu := SF_HAVE_SYNC, p_last_syncfup := sample_sync, p_delayMechanism := DM_E2E\<rparr>"
  have run: "process_follow_up ?e ?p sample_follow_up = map_option release_syncfup (port_synchronize ?e ?p 7 5000 \<lparr>sec = 0, nsec = 4000\<rparr> 0 0 0)"
    by (simp add: process_follow_up_def check_source_identity_def port_syfufsm_def clk_def follow_up_info_extract_def pid_eq_def
        cid_eq_def sample_slave_def sample_sync_def sample_follow_up_def sample_defs)
  obtain q0 where q0: "synchronize_clock ?e ?p 7 5000 \<lparr>sec = 0, nsec = 4000\<rparr> 0 0 = (SERVO_UNLOCKED, SERVO_JUMP, q0)"
      "p_state q0 = PS_SLAVE" "p_cfg q0 = zero_config" "p_syfu q0 = SF_HAVE_SYNC" "p_delayMechanism q0 = DM_E2E"
      "count_list (p_log q0) Syncfup_put = 0" "count_list (p_log q0) Syncfup_get = 0"
    by (simp add: synchronize_clock_def port_set_sync_rx_tmo_def set_tmo_log_def timerfd_settime_def do_call_def clk_def Let_def
        sample_slave_def sample_sync_def sample_follow_up_def sample_defs)
  have fsm: "ptp_fsm PS_SLAVE EV_SYNCHRONIZATION_FAULT 0 = PS_UNCALIBRATED" by code_simp
  obtain q1 where q1: "port_state_update ?e q0 EV_SYNCHRONIZATION_FAULT 0 = (True, q1)"
      "p_state q1 = PS_UNCALIBRATED" "p_cfg q1 = zero_config" "p_syfu q1 = SF_HAVE_SYNC" "p_delayMechanism q1 = DM_E2E"
      "count_list (p_log q1) Syncfup_put = 0" "count_list (p_log q1) Syncfup_get = 0"
    using q0(2-) fsm
    by (simp add: port_state_update_def port_notify_event_def port_management_notify_def port_management_construct_def
        port_management_fill_response_def mgmt_response_def msg_allocate_def ret_def do_call_def Let_def pm_pre_send_ok_def pm_type_def
        sample_env_def sample_clock_def zero_config_def zero_msg_def)
  define q2 where "q2 = port_e2e_transition ?e q1 PS_UNCALIBRATED"
  have q2: "p_state q2 = PS_UNCALIBRATED" "p_cfg q2 = zero_config" 
      "count_list (p_log q2) Syncfup_put = 1" "count_list (p_log q2) Syncfup_get = 0"
    using q1(2-)
    by (simp_all add: q2_def port_e2e_transition_def port_clr_tmo_def port_set_announce_tmo_def port_set_delay_tmo_def set_tmo_random_def
       timerfd_settime_def sad_reset_def flush_last_sync_def flush_delay_req_def do_call_def Let_def zero_config_def)
  have "bc_dispatch ?e q0 EV_SYNCHRONIZATION_FAULT 0 = Some q2"
    using q1 q2(1,2) by (subst bc_dispatch.simps) (simp add: bc_transition_def q2_def [symmetric] zero_config_def)
  then have "port_dispatch ?e q0 EV_SYNCHRONIZATION_FAULT 0 = Some q2" using q0(3) by (simp add: port_dispatch_def zero_config_def)
  then have "port_synchronize ?e ?p 7 5000 \<lparr>sec = 0, nsec = 4000\<rparr> 0 0 0 = Some ((flush_delay_req q2)\<lparr>p_peer_delay_req := None\<rparr>)"
    by (simp add: port_synchronize_def q0(1))
  then show ?thesis using run q2(3,4) by (simp add: release_syncfup_def flush_delay_req_def do_call_def)
qed

end
