(* ===== verification/Port_Delay.thy ===== *)
theory Port_Delay
  imports Port_Sync
begin

text \<open>
  Delay measurement of a port (\<open>port.c\<close>): requests and responses of the end-to-end mechanism
  (\<open>port_delay_request\<close>, \<open>process_delay_req\<close>, \<open>process_delay_resp\<close>) and of the peer-to-peer mechanism (\<open>port_pdelay_request\<close>,
  \<open>process_pdelay_req\<close>, \<open>process_pdelay_resp\<close>, \<open>process_pdelay_resp_fup\<close>, \<open>port_peer_delay\<close>), and the
  transmission of Announce and Sync (\<open>port_tx_announce\<close>, \<open>port_tx_sync\<close>).

  \<open>None\<close> also stands for the dereference of a null pointer.
\<close>

section \<open>Requests\<close>

definition timespec_diff_ns :: "timespec \<Rightarrow> timespec \<Rightarrow> int" where
  "timespec_diff_ns now t = sint (timespec_ns now - timespec_ns t)"

definition delay_req_current :: "pmsg \<Rightarrow> timespec \<Rightarrow> bool" where
  "delay_req_current m now \<longleftrightarrow> timespec_diff_ns now (pm_host m) < 5 * 1000000000"

function delay_req_prune_loop :: "timespec \<Rightarrow> pmsg list \<Rightarrow> pmsg list" where
  "delay_req_prune_loop now ms =
    (if ms = [] then ms else if delay_req_current (last ms) now then ms else delay_req_prune_loop now (butlast ms))"
  by pat_completeness auto
termination by (relation "measure (\<lambda>(now, ms). length ms)") auto

declare delay_req_prune_loop.simps [simp del]

definition delay_req_prune :: "env \<Rightarrow> port \<Rightarrow> port" where
  "delay_req_prune e p =
    (case clock_gettime e p of (now, p) \<Rightarrow> p\<lparr>p_delay_req := delay_req_prune_loop now (p_delay_req p)\<rparr>)"

text \<open>The header that the messages of a port share.\<close>

definition own_header :: "env \<Rightarrow> port \<Rightarrow> u8 \<Rightarrow> pmsg \<Rightarrow> pmsg" where
  "own_header e p mtype m =
    m\<lparr>pm_hwts_type := p_timestamping p, pm_tsmt := mtype OR p_transportSpecific p, pm_ver := e_hdr_ver e,
      pm_domainNumber := cv_domain_number (clk e p), pm_source := p_portIdentity p\<rparr>"

definition to_address :: "address \<Rightarrow> pmsg \<Rightarrow> pmsg" where
  "to_address a m = m\<lparr>pm_address := a, pm_flag0 := pm_flag0 m OR FLAG_UNICAST\<rparr>"

definition port_pdelay_request :: "env \<Rightarrow> port \<Rightarrow> (int \<times> port) option" where
  "port_pdelay_request e p =
    (let p = (if \<not> p_multiple_pdr_detected p then p\<lparr>p_multiple_seq_pdr_count := 0\<rparr> else p);
         p = p\<lparr>p_multiple_pdr_detected := False\<rparr>
     in case msg_allocate e p of
          (None, p) \<Rightarrow> Some (-1, p)
        | (Some m, p) \<Rightarrow>
            let m = (own_header e p PDELAY_REQ m)
                      \<lparr>pm_correction := - p_asymmetry p, pm_sequenceId := p_seq_delayreq p,
                       pm_logMessageInterval := (if port_is_ieee8021as p then p_logPdelayReqInterval p else 0x7f)\<rparr>;
                p = p\<lparr>p_seq_delayreq := p_seq_delayreq p + 1\<rparr>;
                m = (case p_unicast_master_table p of
                       Some t \<Rightarrow> if ut_peer_name t \<noteq> None then to_address (um_address (ut_peer_addr t)) m else m
                     | None \<Rightarrow> m)
            in case peer_prepare_and_send e p m TRANS_EVENT of (err, m, p) \<Rightarrow>
                 if err \<noteq> 0 then Some (-1, p)
                 else if pm_sots_missing m then Some (-1, p)
                 else do {
                   p \<leftarrow> (case p_peer_delay_req p of
                           None \<Rightarrow> Some p
                         | Some _ \<Rightarrow> do { (capable, p) \<leftarrow> port_capable e p;
                                          Some (if capable then p\<lparr>p_pdr_missing := p_pdr_missing p + 1\<rparr> else p) });
                   Some (0, p\<lparr>p_peer_delay_req := Some m\<rparr>)
                 })"

text \<open>In hybrid mode the request goes to the sender of the newest message of the best master.\<close>

definition best_message :: "port \<Rightarrow> pmsg option" where
  "best_message p = (case Option.bind (p_best p) (fc_get p) of
     Some fc \<Rightarrow> (case fc_messages fc of m # _ \<Rightarrow> Some m | [] \<Rightarrow> None) | None \<Rightarrow> None)"

definition port_delay_request :: "env \<Rightarrow> port \<Rightarrow> (int \<times> port) option" where
  "port_delay_request e p =
    (let p = p\<lparr>p_peer_delay_resp := None, p_peer_delay_fup := None\<rparr>
     in if p_delayMechanism p = DM_P2P then port_pdelay_request e p
        else case msg_allocate e p of
          (None, p) \<Rightarrow> Some (-1, p)
        | (Some m, p) \<Rightarrow>
            let m = (own_header e p DELAY_REQ m)
                      \<lparr>pm_correction := - p_asymmetry p, pm_sequenceId := p_seq_delayreq p, pm_logMessageInterval := 0x7f\<rparr>;
                p = p\<lparr>p_seq_delayreq := p_seq_delayreq p + 1\<rparr>
            in do {
                 m \<leftarrow> (if p_hybrid_e2e p then do { dst \<leftarrow> best_message p; Some (to_address (pm_address dst) m) } else Some m);
                 Some (case port_prepare_and_send e p m TRANS_EVENT of (err, m, p) \<Rightarrow>
                         if err \<noteq> 0 then (-1, p)
                         else if pm_sots_missing m then (-1, p)
                         else (0, p\<lparr>p_delay_req := m # p_delay_req p\<rparr>))
               })"

section \<open>Announce and Sync\<close>

abbreviation "PATH_TRACE_MAX \<equiv> 179 :: nat"

definition path_trace_append :: "env \<Rightarrow> port \<Rightarrow> pmsg \<Rightarrow> parent_ds \<Rightarrow> pmsg \<times> port" where
  "path_trace_append e p m dad =
    (let len = 1 + pd_path_length dad
     in if len > PATH_TRACE_MAX then (m, p)
        else case tlv_append e p m (TlvPathTrace (8 * len) (take (pd_path_length dad) (pd_ptl dad) @ [cv_identity (clk e p)])) of
          (None, p) \<Rightarrow> (m, p) | (Some m, p) \<Rightarrow> (m, p))"

definition ieeec37_238_id :: "u8 list" where
  "ieeec37_238_id = [0x1C, 0x12, 0x9D]"

definition ieee_c37_238_append :: "env \<Rightarrow> port \<Rightarrow> pmsg \<Rightarrow> pmsg \<times> port" where
  "ieee_c37_238_append e p m =
    (let w = p_pwr p;
         append = (\<lambda>t. case tlv_append e p m t of (None, p) \<Rightarrow> (m, p) | (Some m, p) \<Rightarrow> (m, p))
     in if pw_version w = 1
        then append (TlvOrg False ieeec37_238_id [0, 0, 1]
               (octets_be 2 (ucast (pw_grandmasterID w)) @ octets_be 4 (ucast (pw_grandmasterTimeInaccuracy w)) @
                octets_be 4 (ucast (pw_networkTimeInaccuracy w)) @ [0, 0]))
        else if pw_version w = 2
        then append (TlvOrg False ieeec37_238_id [0, 0, 2]
               (octets_be 2 (ucast (pw_grandmasterID w)) @ [0, 0, 0, 0] @ octets_be 4 (ucast (pw_totalTimeInaccuracy w)) @
                [0, 0]))
        else (m, p))"

definition announce_message :: "env \<Rightarrow> port \<Rightarrow> address option \<Rightarrow> u16 \<Rightarrow> pmsg \<Rightarrow> pmsg" where
  "announce_message e p dst sequence_id m =
    (let tp = cv_time_properties (clk e p); dad = cv_parent_ds (clk e p);
         m = (own_header e p ANNOUNCE m)\<lparr>pm_sequenceId := sequence_id, pm_logMessageInterval := p_logAnnounceInterval p,
               pm_flag1 := tp_flags tp\<rparr>;
         m = (case dst of Some a \<Rightarrow> to_address a m | None \<Rightarrow> m)
     in m\<lparr>pm_announce :=
          \<lparr>an_currentUtcOffset = tp_currentUtcOffset tp,
           an_grandmasterPriority1 = pd_grandmasterPriority1 dad,
           an_grandmasterClockQuality = pd_grandmasterClockQuality dad,
           an_grandmasterPriority2 = pd_grandmasterPriority2 dad,
           an_grandmasterIdentity = pd_grandmasterIdentity dad,
           an_stepsRemoved = cv_steps_removed (clk e p),
           an_timeSource = tp_timeSource tp\<rparr>\<rparr>)"

definition port_tx_announce :: "env \<Rightarrow> port \<Rightarrow> address option \<Rightarrow> u16 \<Rightarrow> (int \<times> port) option" where
  "port_tx_announce e p dst sequence_id =
    (if p_inhibit_multicast_service p \<and> dst = None then Some (0, p)
     else do {
       (capable, p) \<leftarrow> port_capable e p;
       Some (if \<not> capable then (0, p)
             else case msg_allocate e p of
               (None, p) \<Rightarrow> (-1, p)
             | (Some m, p) \<Rightarrow>
                 let dad = cv_parent_ds (clk e p);
                     m = announce_message e p dst sequence_id m;
                     (m, p) = (if p_path_trace_enabled p then path_trace_append e p m dad else (m, p));
                     (m, p) = ieee_c37_238_append e p m;
                     p = do_call Clock_append_timezones p
                 in case port_prepare_and_send e p m TRANS_GENERAL of (err, _, p) \<Rightarrow> (err, p))
     })"

definition port_sync_incapable :: "env \<Rightarrow> port \<Rightarrow> bool" where
  "port_sync_incapable e p \<longleftrightarrow>
    port_is_ieee8021as p \<and> \<not> cv_gm_capable (clk e p) \<and>
    cid_eq (cv_identity (clk e p)) (clockIdentity (cv_parent_identity (clk e p)))"

definition follow_up_info_append :: "env \<Rightarrow> port \<Rightarrow> pmsg \<Rightarrow> pmsg option \<times> port" where
  "follow_up_info_append e p m = tlv_append e p m (TlvOrg False ieee8021_id [0, 0, 1] (replicate 22 0))"

definition sync_event :: "timestamp_type \<Rightarrow> transport_event" where
  "sync_event ts = (case ts of TS_ONESTEP \<Rightarrow> TRANS_ONESTEP | TS_P2P1STEP \<Rightarrow> TRANS_P2P1STEP | _ \<Rightarrow> TRANS_EVENT)"

abbreviation "one_step_port p \<equiv> p_timestamping p = TS_ONESTEP \<or> p_timestamping p = TS_P2P1STEP"

text \<open>The Follow_Up of a Sync that was sent at \<open>sent\<close>.\<close>

definition send_follow_up :: "env \<Rightarrow> port \<Rightarrow> address option \<Rightarrow> u16 \<Rightarrow> tmv_t \<Rightarrow> pmsg \<Rightarrow> int \<times> port" where
  "send_follow_up e p dst sequence_id sent fup =
    (let fup = (own_header e p FOLLOW_UP fup)\<lparr>pm_sequenceId := sequence_id, pm_logMessageInterval := p_logSyncInterval p,
                 pm_stamp := tmv_to_Timestamp sent\<rparr>;
         fup = (case dst of Some a \<Rightarrow> to_address a fup | None \<Rightarrow> fup);
         (fup, p) = (if p_follow_up_info p then follow_up_info_append e p fup else (Some fup, p))
     in case fup of
          None \<Rightarrow> (-1, p)
        | Some fup \<Rightarrow> (case port_prepare_and_send e p fup TRANS_GENERAL of (err, _, p) \<Rightarrow> (err, p)))"

definition send_sync :: "env \<Rightarrow> port \<Rightarrow> address option \<Rightarrow> u16 \<Rightarrow> pmsg \<Rightarrow> pmsg \<Rightarrow> int \<times> port" where
  "send_sync e p dst sequence_id m fup =
    (let m = (own_header e p SYNC m)\<lparr>pm_sequenceId := sequence_id, pm_logMessageInterval := p_logSyncInterval p\<rparr>;
         m = (if one_step_port p then m else m\<lparr>pm_flag0 := pm_flag0 m OR FLAG_TWO_STEP\<rparr>);
         m = (case dst of Some a \<Rightarrow> (to_address a m)\<lparr>pm_logMessageInterval := 0x7f\<rparr> | None \<Rightarrow> m)
     in case port_prepare_and_send e p m (sync_event (p_timestamping p)) of (err, m, p) \<Rightarrow>
          if err \<noteq> 0 then (err, p)
          else if one_step_port p then (0, p)
          else if pm_sots_missing m then (-1, p)
          else send_follow_up e p dst sequence_id (pm_hwts_ts m) fup)"

definition port_tx_sync :: "env \<Rightarrow> port \<Rightarrow> address option \<Rightarrow> u16 \<Rightarrow> (int \<times> port) option" where
  "port_tx_sync e p dst sequence_id =
    (if p_inhibit_multicast_service p \<and> dst = None then Some (0, p)
     else do {
       (capable, p) \<leftarrow> port_capable e p;
       Some (if \<not> capable then (0, p)
             else if port_sync_incapable e p then (0, p)
             else case msg_allocate e p of
               (None, p) \<Rightarrow> (-1, p)
             | (Some m, p) \<Rightarrow>
                 (case msg_allocate e p of
                    (None, p) \<Rightarrow> (-1, p)
                  | (Some fup, p) \<Rightarrow> send_sync e p dst sequence_id m fup))
     })"

section \<open>End-to-end responses\<close>

definition port_nsm_reply :: "port \<Rightarrow> pmsg \<Rightarrow> bool" where
  "port_nsm_reply p m \<longleftrightarrow> p_net_sync_monitor p \<and> p_hybrid_e2e p \<and> pm_unicast m \<and> TlvPtpmonReq \<in> set (pm_tlvs m)"

text \<open>The address of the parent, as a network protocol and octets.\<close>

definition nsm_parent_address :: "env \<Rightarrow> port \<Rightarrow> transport_type \<times> u8 list" where
  "nsm_parent_address e p =
    (let pid = clockIdentity (pd_parentPortIdentity (cv_parent_ds (clk e p)))
     in case cv_best_port (clk e p) of
          Some (trp, protocol_addr, best) \<Rightarrow>
            if \<not> cid_eq (cv_identity (clk e p)) pid
            then (trp, case best of Some a \<Rightarrow> address_to_portaddress a trp | None \<Rightarrow> protocol_addr)
            else (p_trp p, e_protocol_addr e)
        | None \<Rightarrow> (p_trp p, e_protocol_addr e))"

definition net_sync_resp_append :: "env \<Rightarrow> port \<Rightarrow> pmsg \<Rightarrow> pmsg option \<times> port" where
  "net_sync_resp_append e p m =
    (let c = clk e p; (protocol, address) = nsm_parent_address e p
     in tlv_append e p m (TlvPtpmonResp (visible_state p) protocol address (cv_parent_ds c) (cv_current_ds c)
          (cv_time_properties c) (tmv_to_Timestamp (cv_ingress_time c))))"

definition process_delay_req :: "env \<Rightarrow> port \<Rightarrow> pmsg \<Rightarrow> (int \<times> port) option" where
  "process_delay_req e p m =
    (let nsm = port_nsm_reply p m
     in if \<not> nsm \<and> p_state p \<noteq> PS_MASTER \<and> p_state p \<noteq> PS_GRAND_MASTER then Some (0, p)
        else if p_delayMechanism p \<in> {DM_P2P, DM_COMMON_P2P} then Some (0, p)
        else case msg_allocate e p of
          (None, p) \<Rightarrow> Some (-1, p)
        | (Some r, p) \<Rightarrow>
            let r = (own_header e p DELAY_RESP r)
                      \<lparr>pm_domainNumber := pm_domainNumber m, pm_correction := pm_correction m, pm_sequenceId := pm_sequenceId m,
                       pm_logMessageInterval := p_logMinDelayReqInterval p, pm_stamp := tmv_to_Timestamp (pm_hwts_ts m),
                       pm_portid := pm_source m\<rparr>;
                r = (if p_hybrid_e2e p \<and> pm_unicast m then (to_address (pm_address m) r)\<lparr>pm_logMessageInterval := 0x7f\<rparr> else r)
            in case if nsm then net_sync_resp_append e p r else (Some r, p) of
                 (None, p) \<Rightarrow> Some (-1, p)
               | (Some r, p) \<Rightarrow>
                   (case port_prepare_and_send e p r TRANS_GENERAL of (err, _, p) \<Rightarrow>
                      if err \<noteq> 0 then Some (err, p)
                      else if nsm then port_tx_sync e p (Some (pm_address m)) (pm_sequenceId m)
                      else Some (0, p)))"

definition process_delay_resp :: "env \<Rightarrow> port \<Rightarrow> pmsg \<Rightarrow> port" where
  "process_delay_resp e p m =
    (if p_state p \<noteq> PS_UNCALIBRATED \<and> p_state p \<noteq> PS_SLAVE then p
     else if \<not> pid_eq (pm_portid m) (p_portIdentity p) then p
     else if check_source_identity e p m then p
     else case List.find (\<lambda>req. pm_sequenceId m = pm_sequenceId req) (p_delay_req p) of
       None \<Rightarrow> p
     | Some req \<Rightarrow>
         let p = p\<lparr>p_delay_response_counter := 0\<rparr>;
             c3 = correction_to_tmv (pm_correction m);
             t3 = pm_hwts_ts req;
             t4 = timestamp_to_tmv (pm_pdu m);
             t4c = tmv_sub t4 c3;
             p = do_call (Monitor_delay (cv_parent_identity (clk e p)) (pm_sequenceId m) t3 c3 t4) p;
             p = do_call (Clock_path_delay t3 t4c) p;
             p = p\<lparr>p_delay_req := remove1 req (p_delay_req p)\<rparr>;
             l = pm_logMessageInterval m
         in if p_logMinDelayReqInterval p = l then p
            else if pm_unicast m then p
            else if l < -10 \<or> l > 22 then p
            else snd (port_set_delay_tmo e (p\<lparr>p_logMinDelayReqInterval := l\<rparr>)))"

section \<open>Peer delay\<close>

text \<open>The comparison of the sender with the known peer, shared by requests and responses.\<close>

definition check_peer :: "env \<Rightarrow> port \<Rightarrow> pmsg \<Rightarrow> port option" where
  "check_peer e p m =
    (if p_peer_portid_valid p
     then if \<not> pid_eq (p_peer_portid p) (pm_source m)
          then map_option snd (port_capable e (p\<lparr>p_peer_portid_valid := False\<rparr>))
          else Some p
     else Some (p\<lparr>p_peer_portid_valid := True, p_peer_portid := pm_source m\<rparr>))"

definition pdelay_response :: "env \<Rightarrow> port \<Rightarrow> pmsg \<Rightarrow> pmsg \<Rightarrow> pmsg" where
  "pdelay_response e p m rsp =
    (let rsp = rsp\<lparr>pm_hwts_type := p_timestamping p, pm_tsmt := (pm_tsmt m AND 0xf0) OR PDELAY_RESP, pm_ver := e_hdr_ver e,
                 pm_domainNumber := pm_domainNumber m, pm_source := p_portIdentity p, pm_sequenceId := pm_sequenceId m,
                 pm_logMessageInterval := 0x7f\<rparr>;
         rsp = (if p_timestamping p = TS_P2P1STEP
                then rsp\<lparr>pm_correction := pm_correction m + p_tx_timestamp_offset p + p_rx_timestamp_offset p\<rparr>
                else rsp\<lparr>pm_flag0 := pm_flag0 rsp OR FLAG_TWO_STEP, pm_stamp := tmv_to_Timestamp (pm_hwts_ts m)\<rparr>);
         rsp = rsp\<lparr>pm_portid := pm_source m\<rparr>
     in if pm_unicast m then to_address (pm_address m) rsp else rsp)"

definition pdelay_response_fup :: "env \<Rightarrow> port \<Rightarrow> pmsg \<Rightarrow> tmv_t \<Rightarrow> pmsg \<Rightarrow> pmsg" where
  "pdelay_response_fup e p m sent fup =
    (let fup = fup\<lparr>pm_hwts_type := p_timestamping p, pm_tsmt := PDELAY_RESP_FOLLOW_UP OR p_transportSpecific p,
                 pm_ver := e_hdr_ver e, pm_domainNumber := pm_domainNumber m, pm_correction := pm_correction m,
                 pm_source := p_portIdentity p, pm_sequenceId := pm_sequenceId m, pm_logMessageInterval := 0x7f,
                 pm_portid := pm_source m, pm_stamp := tmv_to_Timestamp sent\<rparr>
     in if pm_unicast m then to_address (pm_address m) fup else fup)"

definition process_pdelay_req :: "env \<Rightarrow> port \<Rightarrow> pmsg \<Rightarrow> (int \<times> port) option" where
  "process_pdelay_req e p m =
    (let event = (if p_timestamping p = TS_P2P1STEP then TRANS_P2P1STEP else TRANS_EVENT)
     in if p_delayMechanism p = DM_COMMON_P2P then Some (0, p)
        else if p_delayMechanism p = DM_E2E then Some (0, p)
        else let p = (if p_delayMechanism p = DM_AUTO then snd (port_set_delay_tmo e (p\<lparr>p_delayMechanism := DM_P2P\<rparr>)) else p)
             in do {
                  p \<leftarrow> check_peer e p m;
                  Some (case msg_allocate e p of
                          (None, p) \<Rightarrow> (-1, p)
                        | (Some rsp, p) \<Rightarrow>
                            (case msg_allocate e p of
                               (None, p) \<Rightarrow> (-1, p)
                             | (Some fup, p) \<Rightarrow>
                                 (case peer_prepare_and_send e p (pdelay_response e p m rsp) event of (err, rsp, p) \<Rightarrow>
                                    if err \<noteq> 0 then (err, p)
                                    else if p_timestamping p = TS_P2P1STEP then (0, p)
                                    else if pm_sots_missing rsp then (-1, p)
                                    else case peer_prepare_and_send e p
                                                (pdelay_response_fup e p m (pm_hwts_ts rsp) fup) TRANS_GENERAL of
                                           (err, _, p) \<Rightarrow> (err, p))))
                })"

text \<open>The four time stamps of a complete exchange and the corrections: \<open>None\<close> while it is not complete.\<close>

definition peer_exchange :: "env \<Rightarrow> port \<Rightarrow> pmsg \<Rightarrow> (tmv_t \<times> tmv_t \<times> tmv_t \<times> tmv_t) option" where
  "peer_exchange e p req =
    (case p_peer_delay_resp p of
       None \<Rightarrow> None
     | Some rsp \<Rightarrow>
         if \<not> pid_eq (pm_portid rsp) (p_portIdentity p) then None
         else if pm_sequenceId rsp \<noteq> pm_sequenceId req then None
         else let t1 = pm_hwts_ts req; t4 = pm_hwts_ts rsp;
                  c1 = correction_to_tmv (pm_correction rsp + p_asymmetry p);
                  calc = (\<lambda>t2 t3 c2.
                    (t1, t2, if p_transportSpecific p = TS_IEEE_8021AS then tmv_add t3 (tmv_sub c2 c1)
                             else tmv_add t3 (tmv_add c1 c2), t4))
              in if pm_one_step e rsp then Some (calc tmv_zero tmv_zero tmv_zero)
                 else case p_peer_delay_fup p of
                   None \<Rightarrow> None
                 | Some fup \<Rightarrow>
                     if \<not> pid_eq (pm_portid fup) (p_portIdentity p) then None
                     else if pm_sequenceId fup \<noteq> pm_sequenceId rsp then None
                     else if \<not> source_pid_eq fup rsp then None
                     else Some (calc (timestamp_to_tmv (pm_pdu rsp)) (timestamp_to_tmv (pm_pdu fup))
                                  (correction_to_tmv (pm_correction fup))))"

definition port_peer_delay :: "env \<Rightarrow> port \<Rightarrow> pmsg \<Rightarrow> port" where
  "port_peer_delay e p req =
    (case peer_exchange e p req of
       None \<Rightarrow> p
     | Some (ts1, ts2, ts3, ts4) \<Rightarrow>
         let p = (if p_follow_up_info p then port_nrate_calculate p ts3 ts4 else p);
             tsp = tsproc_set_clock_rate_ratio (p_tsproc p) (rnd64 (nr_ratio (p_nrate p) * cv_rate_ratio (clk e p)));
             tsp = tsproc_down_ts (tsproc_up_ts tsp ts1 ts2) ts3 ts4
         in case tsproc_update_delay tsp True of
              (_, None, tsp) \<Rightarrow> p\<lparr>p_tsproc := tsp\<rparr>
            | (_, Some d, tsp) \<Rightarrow>
                let p = p\<lparr>p_tsproc := tsp, p_peer_delay := d, p_peerMeanPathDelay := tmv_to_TimeInterval d\<rparr>;
                    p = (if p_state p = PS_UNCALIBRATED \<or> p_state p = PS_SLAVE
                         then do_call (Clock_peer_delay d ts1 ts2 (nr_ratio (p_nrate p))) p else p)
                in port_notify_event e (p\<lparr>p_peer_delay_req := None\<rparr>) NOTIFY_CMLDS)"

definition process_pdelay_resp :: "env \<Rightarrow> port \<Rightarrow> pmsg \<Rightarrow> (int \<times> port) option" where
  "process_pdelay_resp e p m =
    (if p_delayMechanism p = DM_COMMON_P2P then Some (0, p)
     else let p = (if p_peer_delay_resp p \<noteq> None \<and> \<not> p_multiple_pdr_detected p
                   then p\<lparr>p_multiple_pdr_detected := True, p_multiple_seq_pdr_count := p_multiple_seq_pdr_count p + 1\<rparr> else p)
          in if p_peer_delay_resp p \<noteq> None \<and> p_multiple_seq_pdr_count p > unat (p_allowedLostResponses p)
             then Some (-1, p\<lparr>p_last_fault_type := FT_BAD_PEER_NETWORK\<rparr>)
             else case p_peer_delay_req p of
               None \<Rightarrow> Some (-1, p)
             | Some req \<Rightarrow> do {
                 p \<leftarrow> check_peer e p m;
                 Some (0, port_peer_delay e (p\<lparr>p_peer_delay_resp := Some m\<rparr>) req)
               })"

definition process_pdelay_resp_fup :: "env \<Rightarrow> port \<Rightarrow> pmsg \<Rightarrow> port" where
  "process_pdelay_resp_fup e p m =
    (case p_peer_delay_req p of
       None \<Rightarrow> p
     | Some req \<Rightarrow> port_peer_delay e (p\<lparr>p_peer_delay_fup := Some m\<rparr>) req)"

section \<open>A complete end-to-end exchange\<close>

lemma pm_type_own_header:
  assumes "p_transportSpecific p AND 0x0f = 0" and "mtype AND 0x0f = mtype"
  shows "pm_type (own_header e p mtype m) = mtype"
  using assms by (simp add: pm_type_def own_header_def bit.conj_disj_distrib2)

text \<open>Sending keeps the message but for its transmit time stamp.\<close>

lemma send_via_message:
  "fst (snd (send_via e p m k ev)) = m\<lparr>pm_hwts_ts := pm_hwts_ts (fst (snd (send_via e p m k ev)))\<rparr>"
  by (simp add: send_via_def Let_def split: prod.splits)

lemma send_via_elim:
  assumes "send_via e p m k ev = (err, m', q)"
  obtains ts cs t where "m' = m\<lparr>pm_hwts_ts := ts\<rparr>" and "q = p\<lparr>p_log := p_log p @ cs, p_stats_tx := t\<rparr>"
proof -
  have "only_tx p q" using assms only_tx_send(1) by (metis snd_conv)
  then show thesis using that send_via_message [of e p m k ev] assms by (elim only_txE) auto
qed

definition delay_request :: "env \<Rightarrow> port \<Rightarrow> pmsg \<Rightarrow> pmsg" where
  "delay_request e p m = (own_header e p DELAY_REQ m)
     \<lparr>pm_correction := - p_asymmetry p, pm_sequenceId := p_seq_delayreq p, pm_logMessageInterval := 0x7f\<rparr>"

lemma delay_request_sent:
  assumes "port_delay_request e p = Some (0, q)" and "p_delayMechanism p \<noteq> DM_P2P" and "p_transportSpecific p AND 0x0f = 0"
  obtains req where "p_delay_req q = req # p_delay_req p" and "pm_type req = DELAY_REQ"
    and "pm_sequenceId req = p_seq_delayreq p" and "pm_source req = p_portIdentity p" and "pm_correction req = - p_asymmetry p"
    and "pm_hwts_ts req \<noteq> 0" and "p_state q = p_state p" and "p_cfg q = p_cfg p" and "p_seq_delayreq q = p_seq_delayreq p + 1"
proof -
  define p1 where "p1 = do_call Msg_allocate (p\<lparr>p_peer_delay_resp := None, p_peer_delay_fup := None\<rparr>)"
  let ?m = "delay_request e p1 zero_msg" and ?p = "p1\<lparr>p_seq_delayreq := p_seq_delayreq p1 + 1\<rparr>"
  have al: "msg_allocate e (p\<lparr>p_peer_delay_resp := None, p_peer_delay_fup := None\<rparr>) = (if ret e p1 = 0 then None else Some zero_msg, p1)"
    by (simp add: msg_allocate_def p1_def Let_def)
  have p1: "p_delay_req p1 = p_delay_req p" "p_seq_delayreq p1 = p_seq_delayreq p" "p_cfg p1 = p_cfg p" "p_state p1 = p_state p"
      "p_asymmetry p1 = p_asymmetry p" "p_delayMechanism p1 = p_delayMechanism p"
    by (simp_all add: p1_def do_call_def)
  let ?A = "if p_hybrid_e2e ?p then do { dst \<leftarrow> best_message ?p; Some (to_address (pm_address dst) ?m) } else Some ?m"
    and ?S = "\<lambda>a. case port_prepare_and_send e ?p a TRANS_EVENT of (err, m, p) \<Rightarrow>
        if err \<noteq> 0 then (-1 :: int, p) else if pm_sots_missing m then (-1, p) else (0, p\<lparr>p_delay_req := m # p_delay_req p\<rparr>)"
  have "ret e p1 \<noteq> 0" using assms(1,2) al by (auto simp: port_delay_request_def Let_def)
  then have run: "port_delay_request e p = Option.bind ?A (\<lambda>a. Some (?S a))"
    using assms(2) al by (simp add: port_delay_request_def delay_request_def [symmetric] Let_def)
  have "Option.bind ?A (\<lambda>a. Some (?S a)) = Some (0, q)" by (rule trans [OF run [symmetric] assms(1)])
  then obtain a where A: "?A = Some a" and S: "Some (?S a) = Some (0, q)" by (rule bind_SomeE)
  have send: "?S a = (0, q)" by (rule option.inject [THEN iffD1, OF S])
  have a: "pm_type a = DELAY_REQ" "pm_sequenceId a = p_seq_delayreq p" "pm_source a = p_portIdentity p" "pm_correction a = - p_asymmetry p"
    using A pm_type_own_header [of p1 DELAY_REQ e zero_msg] assms(3) p1
    by (auto simp: delay_request_def to_address_def pm_type_def own_header_def split: if_splits bind_splits)
  obtain err m r where s: "send_via e ?p a Transport_send TRANS_EVENT = (err, m, r)" by (metis prod.exhaust)
  then have q: "q = r\<lparr>p_delay_req := m # p_delay_req r\<rparr>" "\<not> pm_sots_missing m"
    using send by (auto simp: port_prepare_and_send_def split: if_splits)
  obtain ts cs t where m: "m = a\<lparr>pm_hwts_ts := ts\<rparr>" "r = ?p\<lparr>p_log := p_log ?p @ cs, p_stats_tx := t\<rparr>" by (rule send_via_elim [OF s])
  have "ts \<noteq> 0" using q(2) a(1) by (simp add: m(1) pm_sots_missing_def pm_sots_valid_def pm_type_def tmv_is_zero_def)
  then show thesis using that [of m] a q(1) m p1 by (simp add: pm_type_def)
qed

text \<open>The path delay measurements that are handed to the clock, in their order.\<close>

primrec path_delays :: "call list \<Rightarrow> (tmv_t \<times> tmv_t) list" where
  "path_delays [] = []"
| "path_delays (c # cs) = (case c of Clock_path_delay a b \<Rightarrow> (a, b) # path_delays cs | _ \<Rightarrow> path_delays cs)"

lemma path_delays_append [simp]: "path_delays (cs @ ds) = path_delays cs @ path_delays ds"
  by (induction cs) (auto split: call.splits)

lemma path_delays_set_delay_tmo [simp]: "path_delays (p_log (snd (port_set_delay_tmo e p))) = path_delays (p_log p)"
  by (simp add: port_set_delay_tmo_def set_tmo_log_def set_tmo_random_def timerfd_settime_def do_call_def Let_def)

lemma find_newest:
  assumes "\<forall>n \<in> set newer. pm_sequenceId n \<noteq> s" and "pm_sequenceId req = s"
  shows "List.find (\<lambda>n. s = pm_sequenceId n) (newer @ req # older) = Some req"
    and "remove1 req (newer @ req # older) = newer @ older"
  using assms by (induction newer) auto

text \<open>What a response does once its request is found.\<close>

lemma process_delay_resp_found:
  assumes "p_state r \<in> {PS_UNCALIBRATED, PS_SLAVE}" and "from_parent e r m" and "pid_eq (pm_portid m) (p_portIdentity r)"
    and "List.find (\<lambda>req. pm_sequenceId m = pm_sequenceId req) (p_delay_req r) = Some req"
  shows "p_delay_req (process_delay_resp e r m) = remove1 req (p_delay_req r)"
    and "path_delays (p_log (process_delay_resp e r m)) = path_delays (p_log r) @
      [(pm_hwts_ts req, tmv_sub (timestamp_to_tmv (pm_pdu m)) (correction_to_tmv (pm_correction m)))]"
proof -
  let ?c = "Clock_path_delay (pm_hwts_ts req) (tmv_sub (timestamp_to_tmv (pm_pdu m)) (correction_to_tmv (pm_correction m)))"
  define q where "q = (do_call ?c (do_call (Monitor_delay (cv_parent_identity (clk e r)) (pm_sequenceId m) (pm_hwts_ts req)
      (correction_to_tmv (pm_correction m)) (timestamp_to_tmv (pm_pdu m))) (r\<lparr>p_delay_response_counter := 0\<rparr>)))
      \<lparr>p_delay_req := remove1 req (p_delay_req r)\<rparr>"
  let ?l = "pm_logMessageInterval m"
  let ?t = "snd (port_set_delay_tmo e (q\<lparr>p_logMinDelayReqInterval := ?l\<rparr>))"
  have run: "process_delay_resp e r m = (if p_logMinDelayReqInterval r = ?l then q else if pm_unicast m then q
      else if ?l < -10 \<or> ?l > 22 then q else ?t)"
    using assms(1,3,4) from_parent_check [OF assms(2), of r]
    by (auto simp: process_delay_resp_def q_def do_call_def clk_def Let_def)
  have q: "p_delay_req q = remove1 req (p_delay_req r)" "path_delays (p_log q) = path_delays (p_log r) @
      [(pm_hwts_ts req, tmv_sub (timestamp_to_tmv (pm_pdu m)) (correction_to_tmv (pm_correction m)))]"
    by (simp_all add: q_def do_call_def)
  have "only_log (q\<lparr>p_logMinDelayReqInterval := ?l\<rparr>) ?t" by simp
  then have t: "p_delay_req ?t = p_delay_req q" by (elim only_logE) simp
  show "p_delay_req (process_delay_resp e r m) = remove1 req (p_delay_req r)" using q(1) t by (simp add: run)
  show "path_delays (p_log (process_delay_resp e r m)) = path_delays (p_log r) @
      [(pm_hwts_ts req, tmv_sub (timestamp_to_tmv (pm_pdu m)) (correction_to_tmv (pm_correction m)))]"
    using q(2) by (simp add: run)
qed

lemma process_delay_resp_unmatched:
  "pm_sequenceId m \<notin> pm_sequenceId ` set (p_delay_req r) \<Longrightarrow> process_delay_resp e r m = r"
  by (simp add: process_delay_resp_def find_None_iff image_iff [THEN iffD1] split: option.splits) (auto simp: find_Some_iff)

text \<open>C14. An end-to-end delay measurement: a port has sent a delay request, and later more of them with other sequence numbers,
  which may still be outstanding. The response of the master with the sequence number of the first makes
  the clock compute one path delay, from exactly the time at which this very request was sent and the time of its
  arrival at the master less the correction of the response; of the outstanding requests this one and no other is removed.
  A response to none of the outstanding requests changes nothing.\<close>

theorem delay_exchange_measured:
  assumes "port_delay_request e p = Some (0, q)" and "p_delayMechanism p \<noteq> DM_P2P" and "p_transportSpecific p AND 0x0f = 0"
    and "p_delay_req r = newer @ p_delay_req q" and "\<forall>n \<in> set newer. pm_sequenceId n \<noteq> p_seq_delayreq p"
    and "p_state r \<in> {PS_UNCALIBRATED, PS_SLAVE}" and "from_parent e r m" and "pid_eq (pm_portid m) (p_portIdentity r)"
    and "r' = process_delay_resp e r m"
  shows "\<exists>req. p_delay_req q = req # p_delay_req p \<and> pm_type req = DELAY_REQ \<and> pm_sequenceId req = p_seq_delayreq p \<and>
    pm_hwts_ts req \<noteq> 0 \<and>
    (pm_sequenceId m = p_seq_delayreq p \<longrightarrow>
      p_delay_req r' = newer @ p_delay_req p \<and>
      path_delays (p_log r') = path_delays (p_log r) @
        [(pm_hwts_ts req, tmv_sub (timestamp_to_tmv (pm_pdu m)) (correction_to_tmv (pm_correction m)))]) \<and>
    (pm_sequenceId m \<notin> pm_sequenceId ` set (p_delay_req r) \<longrightarrow> r' = r)"
proof -
  obtain req where req: "p_delay_req q = req # p_delay_req p" "pm_type req = DELAY_REQ" "pm_sequenceId req = p_seq_delayreq p"
      "pm_hwts_ts req \<noteq> 0"
    by (rule delay_request_sent [OF assms(1-3)])
  have r: "p_delay_req r = newer @ req # p_delay_req p" using assms(4) req(1) by simp
  note newest = find_newest [OF assms(5) req(3)]
  note found = process_delay_resp_found [OF assms(6-8), of req]
  have "pm_sequenceId m = p_seq_delayreq p \<Longrightarrow>
      p_delay_req r' = newer @ p_delay_req p \<and> path_delays (p_log r') = path_delays (p_log r) @
        [(pm_hwts_ts req, tmv_sub (timestamp_to_tmv (pm_pdu m)) (correction_to_tmv (pm_correction m)))]"
    using found newest r assms(9) by simp
  then show ?thesis using req process_delay_resp_unmatched assms(9) by blast
qed

definition sample_requester :: port where
  "sample_requester = sample_port\<lparr>p_state := PS_SLAVE, p_delayMechanism := DM_E2E, p_cfg := zero_config\<lparr>c_spp := -1\<rparr>\<rparr>"

definition sample_ether :: env where
  "sample_ether = sample_env\<lparr>e_stamp := (\<lambda>cs. if length cs < 3 then 1000 else 2000)\<rparr>"

text \<open>Two requests, sent at 1000 and 2000, before the first response arrives.\<close>

lemma sample_requests:
  "\<exists>q r. port_delay_request sample_ether sample_requester = Some (0, q) \<and> port_delay_request sample_ether q = Some (0, r) \<and>
    map pm_sequenceId (p_delay_req q) = [0] \<and> map pm_hwts_ts (p_delay_req q) = [1000] \<and>
    tl (p_delay_req r) = p_delay_req q \<and> map pm_sequenceId (p_delay_req r) = [1, 0] \<and> map pm_hwts_ts (p_delay_req r) = [2000, 1000] \<and>
    p_state r = PS_SLAVE \<and> from_parent sample_ether r zero_msg \<and> p_portIdentity r = p_portIdentity sample_port \<and>
    path_delays (p_log r) = []"
  by (simp add: sample_ether_def port_delay_request_def port_prepare_and_send_def send_via_def msg_allocate_def port_has_security_def
      pm_pre_send_ok_def pm_sots_missing_def pm_sots_valid_def pm_unicast_def pm_type_def own_header_def ret_def do_call_def ts_add_def
      port_stats_inc_tx_def tmv_is_zero_def Let_def from_parent_def pid_eq_def cid_eq_def sample_requester_def sample_defs)

theorem delay_exchange_measured_witness:
  "\<exists>q r. port_delay_request sample_ether sample_requester = Some (0, q) \<and> port_delay_request sample_ether q = Some (0, r) \<and>
    map pm_sequenceId (p_delay_req r) = [1, 0] \<and>
    map pm_sequenceId (p_delay_req (process_delay_resp sample_ether r (zero_msg\<lparr>pm_pdu := \<lparr>sec = 0, nsec = 1350\<rparr>\<rparr>))) = [1] \<and>
    path_delays (p_log (process_delay_resp sample_ether r (zero_msg\<lparr>pm_pdu := \<lparr>sec = 0, nsec = 1350\<rparr>\<rparr>))) = [(1000, 1350)] \<and>
    process_delay_resp sample_ether r (zero_msg\<lparr>pm_sequenceId := 7\<rparr>) = r"
proof -
  obtain q r where q: "port_delay_request sample_ether sample_requester = Some (0, q)" "port_delay_request sample_ether q = Some (0, r)"
    and ids: "map pm_sequenceId (p_delay_req q) = [0]" "map pm_hwts_ts (p_delay_req q) = [1000]" "tl (p_delay_req r) = p_delay_req q"
      "map pm_sequenceId (p_delay_req r) = [1, 0]" "p_state r = PS_SLAVE" "from_parent sample_ether r zero_msg"
      "p_portIdentity r = p_portIdentity sample_port" "path_delays (p_log r) = []"
    using sample_requests by (elim exE conjE) (rule that)
  then obtain n where n: "p_delay_req r = [n] @ p_delay_req q" "pm_sequenceId n = 1" by (cases "p_delay_req r") auto
  have p: "p_seq_delayreq sample_requester = 0" "p_transportSpecific sample_requester AND 0x0f = 0"
      "p_delayMechanism sample_requester \<noteq> DM_P2P" "p_delay_req sample_requester = []"
    by (simp_all add: sample_requester_def sample_defs)
  have m: "from_parent sample_ether r (zero_msg\<lparr>pm_pdu := t\<rparr>)" "from_parent sample_ether r (zero_msg\<lparr>pm_sequenceId := s\<rparr>)"
      "pid_eq (pm_portid (zero_msg\<lparr>pm_pdu := t\<rparr>)) (p_portIdentity r)"
      "pid_eq (pm_portid (zero_msg\<lparr>pm_sequenceId := s\<rparr>)) (p_portIdentity r)" for t s
    using ids(6,7) by (simp_all add: from_parent_def pid_eq_def cid_eq_def sample_defs)
  note exchange = delay_exchange_measured [OF q(1) p(3,2) n(1) _ _ _ _ refl]
  have "tmv_sub (timestamp_to_tmv \<lparr>sec = 0, nsec = 1350\<rparr>) (correction_to_tmv 0) = 1350"
    by (simp add: timestamp_to_tmv_def correction_to_tmv_def tmv_sub_def)
  then show ?thesis
    using exchange [of "zero_msg\<lparr>pm_pdu := \<lparr>sec = 0, nsec = 1350\<rparr>\<rparr>"] exchange [of "zero_msg\<lparr>pm_sequenceId := 7\<rparr>"]
      p m n q ids by (auto simp: zero_msg_def)
qed

section \<open>A complete peer-to-peer exchange\<close>

text \<open>The two answers of the neighbour to a request, as the port receives them.\<close>

definition pdelay_answers :: "env \<Rightarrow> port \<Rightarrow> pmsg \<Rightarrow> pmsg \<Rightarrow> pmsg \<Rightarrow> bool" where
  "pdelay_answers e p req rsp fup \<longleftrightarrow>
    pid_eq (pm_portid rsp) (p_portIdentity p) \<and> pm_sequenceId rsp = pm_sequenceId req \<and> \<not> pm_one_step e rsp \<and>
    pid_eq (pm_portid fup) (p_portIdentity p) \<and> pm_sequenceId fup = pm_sequenceId rsp \<and> source_pid_eq fup rsp \<and>
    pm_correction rsp = - p_asymmetry p \<and> pm_correction fup = 0 \<and>
    p_peer_portid_valid p \<and> pid_eq (p_peer_portid p) (pm_source rsp)"

text \<open>A link with delay \<open>d\<close> to a neighbour whose clock is ahead by \<open>off\<close>: the request arrives \<open>d\<close> after it was sent and
  so does the response.\<close>

definition symmetric_link :: "tmv_t \<Rightarrow> tmv_t \<Rightarrow> pmsg \<Rightarrow> pmsg \<Rightarrow> pmsg \<Rightarrow> bool" where
  "symmetric_link d off req rsp fup \<longleftrightarrow>
    - (2 ^ 62) \<le> sint d \<and> sint d < 2 ^ 62 \<and> pm_hwts_ts req \<noteq> 0 \<and> pm_hwts_ts rsp \<noteq> 0 \<and>
    timestamp_to_tmv (pm_pdu rsp) = pm_hwts_ts req + d + off \<and>
    pm_hwts_ts rsp = timestamp_to_tmv (pm_pdu fup) + d - off"

text \<open>The neighbour's clock runs at the rate of ours.\<close>

definition equal_rates :: "env \<Rightarrow> port \<Rightarrow> bool" where
  "equal_rates e p \<longleftrightarrow> \<not> p_follow_up_info p \<and> nr_ratio (p_nrate p) = 1 \<and> (\<forall>cs. cv_rate_ratio (e_clock e cs) = 1)"

text \<open>What a port measures when its processor of time stamps has seen the raw delay \<open>d\<close>: the delay itself in the raw modes,
  in the others the value of the filter after this sample.\<close>

definition measured :: "tsproc \<Rightarrow> tmv_t \<Rightarrow> port \<Rightarrow> bool" where
  "measured tsp d q \<longleftrightarrow> p_peer_delay_req q = None \<and> delay_filter (p_tsproc q) = snd (filter_sample (delay_filter tsp) d) \<and>
     p_peer_delay q = (if tsp_mode tsp \<in> {TSPROC_RAW, TSPROC_RAW_WEIGHT} then d else fst (filter_sample (delay_filter tsp) d))"

lemma peer_delay_measured:
  assumes "pdelay_answers e p req rsp fup" and "symmetric_link d off req rsp fup" and "equal_rates e p"
    and "p_peer_delay_resp p = Some rsp" and "p_peer_delay_fup p = Some fup"
  shows "measured (p_tsproc p) d (port_peer_delay e p req)"
proof -
  have c: "correction_to_tmv 0 = 0" by (simp add: correction_to_tmv_def)
  have ex: "peer_exchange e p req =
      Some (pm_hwts_ts req, timestamp_to_tmv (pm_pdu rsp), timestamp_to_tmv (pm_pdu fup), pm_hwts_ts rsp)"
    using assms(1,4,5) c by (simp add: peer_exchange_def pdelay_answers_def tmv_add_def tmv_sub_def)
  define tsp where "tsp = tsproc_down_ts (tsproc_up_ts (tsproc_set_clock_rate_ratio (p_tsproc p) 1) (pm_hwts_ts req)
    (timestamp_to_tmv (pm_pdu rsp))) (timestamp_to_tmv (pm_pdu fup)) (pm_hwts_ts rsp)"
  have "get_raw_delay tsp = tmv_div (d + d) 2"
    using assms(2) by (simp add: get_raw_delay_def tsp_def tsproc_down_ts_def tsproc_up_ts_def tsproc_set_clock_rate_ratio_def
        symmetric_link_def tmv_add_def tmv_sub_def algebra_simps)
  also have "\<dots> = d" using assms(2) by (intro tmv_div_2_double) (auto simp: symmetric_link_def)
  finally have raw: "get_raw_delay tsp = d" .
  have t: "t2 tsp \<noteq> 0" "t3 tsp \<noteq> 0" "tsp_mode tsp = tsp_mode (p_tsproc p)" "delay_filter tsp = delay_filter (p_tsproc p)"
    using assms(2) by (auto simp: tsp_def tsproc_down_ts_def tsproc_up_ts_def tsproc_set_clock_rate_ratio_def symmetric_link_def)
  obtain fd f where fs: "filter_sample (delay_filter (p_tsproc p)) d = (fd, f)" by fastforce
  obtain tsp' where upd: "tsproc_update_delay tsp True =
      (0, Some (if tsp_mode (p_tsproc p) \<in> {TSPROC_RAW, TSPROC_RAW_WEIGHT} then d else fd), tsp')" "delay_filter tsp' = f"
    using t raw fs by (cases "tsp_mode tsp") (auto simp: tsproc_update_delay_def tmv_is_zero_def)
  have one: "rnd64 1 = 1" using rnd64_of_int [of 1] by simp
  obtain q where run: "port_peer_delay e p req = port_notify_event e (q\<lparr>p_peer_delay_req := None\<rparr>) NOTIFY_CMLDS"
      "measured (p_tsproc p) d (q\<lparr>p_peer_delay_req := None\<rparr>)"
    using assms(3) ex upd one fs
    by (simp add: port_peer_delay_def equal_rates_def clk_def tsp_def [symmetric] measured_def Let_def do_call_def)
  then show ?thesis
    using only_log_notify_event [of "q\<lparr>p_peer_delay_req := None\<rparr>" e NOTIFY_CMLDS] by (auto simp: only_log_def measured_def)
qed

lemma process_pdelay_resp_first:
  assumes "pdelay_answers e p req rsp fup" and "p_peer_delay_req p = Some req" and "p_peer_delay_resp p = None"
    and "p_delayMechanism p \<noteq> DM_COMMON_P2P"
  shows "process_pdelay_resp e p rsp = Some (0, port_peer_delay e (p\<lparr>p_peer_delay_resp := Some rsp\<rparr>) req)"
  using assms by (simp add: process_pdelay_resp_def check_peer_def pdelay_answers_def)

lemma peer_delay_incomplete:
  assumes "pdelay_answers e p req rsp fup"
  shows "p_peer_delay_resp q = None \<Longrightarrow> port_peer_delay e q req = q"
    and "p_peer_delay_resp q = Some rsp \<Longrightarrow> p_peer_delay_fup q = None \<Longrightarrow> port_peer_delay e q req = q"
  using assms by (simp_all add: port_peer_delay_def peer_exchange_def pdelay_answers_def)

text \<open>C13. A peer-to-peer delay measurement: when the response of the neighbour and its follow up arrive, in either order,
  on a symmetric link with delay \<open>d\<close>, to a neighbour whose clock runs at the same rate and has any offset, the measured
  delay of the port becomes exactly \<open>d\<close> if its processor of time stamps works in a raw mode, and otherwise the value of the
  delay filter fed with exactly \<open>d\<close>; in every mode the filter has \<open>d\<close> as its new sample and the request is no longer
  outstanding.\<close>

theorem peer_exchange_measures_link:
  assumes "pdelay_answers e p req rsp fup" and "symmetric_link d off req rsp fup" and "equal_rates e p"
    and "p_peer_delay_req p = Some req" and "p_peer_delay_resp p = None" and "p_peer_delay_fup p = None"
    and "p_delayMechanism p \<noteq> DM_COMMON_P2P"
  shows "\<exists>q1 q2. process_pdelay_resp e p rsp = Some (0, q1) \<and>
    process_pdelay_resp e (process_pdelay_resp_fup e p fup) rsp = Some (0, q2) \<and>
    measured (p_tsproc p) d (process_pdelay_resp_fup e q1 fup) \<and> measured (p_tsproc p) d q2"
proof -
  let ?q1 = "p\<lparr>p_peer_delay_resp := Some rsp\<rparr>" and ?q2 = "p\<lparr>p_peer_delay_fup := Some fup\<rparr>"
  let ?r = "p\<lparr>p_peer_delay_resp := Some rsp, p_peer_delay_fup := Some fup\<rparr>"
    and ?s = "p\<lparr>p_peer_delay_fup := Some fup, p_peer_delay_resp := Some rsp\<rparr>"
  have ans: "pdelay_answers e ?r req rsp fup" "pdelay_answers e ?q2 req rsp fup" "equal_rates e ?r"
      "pdelay_answers e ?s req rsp fup" "equal_rates e ?s"
    using assms(1,3) by (simp_all add: pdelay_answers_def equal_rates_def)
  note both = peer_delay_measured [OF ans(1) assms(2) ans(3)] peer_delay_measured [OF ans(4) assms(2) ans(5)]
  have "process_pdelay_resp e p rsp = Some (0, ?q1)"
    using process_pdelay_resp_first [OF assms(1,4,5,7)] peer_delay_incomplete(2) [OF assms(1), of ?q1] assms(6) by simp
  moreover have "process_pdelay_resp_fup e ?q1 fup = port_peer_delay e ?r req"
    using assms(4) by (simp add: process_pdelay_resp_fup_def)
  moreover have "process_pdelay_resp_fup e p fup = ?q2"
    using assms(4,5) peer_delay_incomplete(1) [OF assms(1), of ?q2] by (simp add: process_pdelay_resp_fup_def)
  moreover have "process_pdelay_resp e ?q2 rsp = Some (0, port_peer_delay e ?s req)"
    using process_pdelay_resp_first [OF ans(2)] assms(4,5,7) by simp
  ultimately show ?thesis using both by simp
qed

text \<open>A port with a median filter that holds the samples 40 and 44: the exchange adds 50, and the median is 44.\<close>

definition sample_processor :: tsproc where
  "sample_processor = (let tsp = the (tsproc_create True True True True TSPROC_FILTER FILTER_MOVING_MEDIAN 3)
     in tsp\<lparr>delay_filter := snd (filter_sample (snd (filter_sample (delay_filter tsp) 40)) 44)\<rparr>)"

definition sample_peer :: port where
  "sample_peer = sample_port\<lparr>p_delayMechanism := DM_P2P, p_peer_portid_valid := True,
     p_peer_delay_req := Some (zero_msg\<lparr>pm_hwts_ts := 1000\<rparr>), p_nrate := (p_nrate sample_port)\<lparr>nr_ratio := 1\<rparr>,
     p_tsproc := sample_processor\<rparr>"

definition sample_rsp :: pmsg where
  "sample_rsp = zero_msg\<lparr>pm_flag0 := FLAG_TWO_STEP, pm_hwts_ts := 1950, pm_pdu := \<lparr>sec = 0, nsec = 1350\<rparr>\<rparr>"

definition sample_rsp_fup :: pmsg where
  "sample_rsp_fup = zero_msg\<lparr>pm_pdu := \<lparr>sec = 0, nsec = 2200\<rparr>\<rparr>"

lemma sample_processor_measures:
  "tsp_mode sample_processor = TSPROC_FILTER" "fst (filter_sample (delay_filter sample_processor) 50) = 44"
  by code_simp+

theorem peer_exchange_measures_link_witness:
  "\<exists>q1 q2. process_pdelay_resp sample_env sample_peer sample_rsp = Some (0, q1) \<and>
    process_pdelay_resp sample_env (process_pdelay_resp_fup sample_env sample_peer sample_rsp_fup) sample_rsp = Some (0, q2) \<and>
    p_peer_delay (process_pdelay_resp_fup sample_env q1 sample_rsp_fup) = 44 \<and>
    p_peer_delay_req (process_pdelay_resp_fup sample_env q1 sample_rsp_fup) = None \<and>
    p_peer_delay q2 = 44 \<and> p_peer_delay_req q2 = None"
proof -
  have "pdelay_answers sample_env sample_peer (zero_msg\<lparr>pm_hwts_ts := 1000\<rparr>) sample_rsp sample_rsp_fup"
    by (simp add: pdelay_answers_def pid_eq_def cid_eq_def pm_one_step_def source_pid_eq_def sample_peer_def sample_rsp_def
        sample_rsp_fup_def sample_defs)
  moreover have "symmetric_link 50 300 (zero_msg\<lparr>pm_hwts_ts := 1000\<rparr>) sample_rsp sample_rsp_fup"
    by (simp add: symmetric_link_def sample_rsp_def sample_rsp_fup_def timestamp_to_tmv_def)
  moreover have "equal_rates sample_env sample_peer" by (simp add: equal_rates_def sample_peer_def sample_defs)
  ultimately obtain q1 q2 where "process_pdelay_resp sample_env sample_peer sample_rsp = Some (0, q1)"
      "process_pdelay_resp sample_env (process_pdelay_resp_fup sample_env sample_peer sample_rsp_fup) sample_rsp = Some (0, q2)"
      "measured (p_tsproc sample_peer) 50 (process_pdelay_resp_fup sample_env q1 sample_rsp_fup)"
      "measured (p_tsproc sample_peer) 50 q2"
    using peer_exchange_measures_link [of sample_env sample_peer "zero_msg\<lparr>pm_hwts_ts := 1000\<rparr>" sample_rsp sample_rsp_fup 50 300]
    by (auto simp: sample_peer_def sample_defs)
  moreover have "p_tsproc sample_peer = sample_processor" by (simp add: sample_peer_def)
  ultimately show ?thesis using sample_processor_measures by (auto simp: measured_def)
qed

end
