(* ===== verification/Port_Event.thy ===== *)
theory Port_Event
  imports Port_Delay
begin

text \<open>
  Events of an ordinary or boundary clock port: signaling messages (\<open>process_signaling\<close> of \<open>port_signaling.c\<close>), the filters
  on received messages (\<open>port_ignore\<close>), the common mean link delay service (\<open>process_cmlds\<close>, \<open>port_cmlds_timeout\<close>), and the
  event handler \<open>bc_event\<close>, which serves the timers and sockets of a port.
\<close>

section \<open>Signaling\<close>

definition set_interval :: "int \<Rightarrow> int \<Rightarrow> int \<Rightarrow> int" where
  "set_interval current_interval new_interval initial_interval =
    (if new_interval = SIGNAL_NO_CHANGE then current_interval
     else if new_interval = SIGNAL_SET_INITIAL then initial_interval
     else new_interval)"

definition octet8 :: "u8 \<Rightarrow> int" where
  "octet8 b = sint b"

definition process_interval_request :: "port \<Rightarrow> u8 list \<Rightarrow> port" where
  "process_interval_request p d =
    p\<lparr>p_logAnnounceInterval := set_interval (p_logAnnounceInterval p) (octet8 (d ! 2)) (p_initialLogAnnounceInterval p),
      p_logSyncInterval := set_interval (p_logSyncInterval p) (octet8 (d ! 1)) (p_initialLogSyncInterval p),
      p_logPdelayReqInterval := set_interval (p_logPdelayReqInterval p) (octet8 (d ! 0)) (p_logMinPdelayReqInterval p)\<rparr>"

definition octets_value :: "u8 list \<Rightarrow> u64" where
  "octets_value bs = foldl (\<lambda>x b. x * 256 + ucast b) 0 bs"

definition process_interface_rate :: "env \<Rightarrow> port \<Rightarrow> u8 list \<Rightarrow> port" where
  "process_interface_rate e p d =
    (case e_ifinfo e (p_log p) of
       Some slaveBitPeriod \<Rightarrow>
         if p_iface_rate_tlv p
         then let masterBitPeriod = octets_value (take 8 d);
                  before = unat (octets_value (take 2 (drop 8 d)));
                  after = unat (octets_value (take 2 (drop 10 d)));
                  nsDelay = rnd64 (rnd64 (of_int (sint (masterBitPeriod - slaveBitPeriod))) / 2000000000);
                  delayAsymmetry = dbl_tmv (rnd64 (of_int (int after - int before) * nsDelay))
              in if delayAsymmetry \<noteq> p_portAsymmetry p
                 then p\<lparr>p_asymmetry := p_asymmetry p + push_bit 16 (delayAsymmetry - p_portAsymmetry p),
                        p_portAsymmetry := delayAsymmetry\<rparr>
                 else p
         else p
     | None \<Rightarrow> p)"

text \<open>One TLV of a signaling message; \<open>err\<close> is the result so far.\<close>

definition signaling_tlv :: "env \<Rightarrow> pmsg \<Rightarrow> int \<times> port \<Rightarrow> ptlv \<Rightarrow> int \<times> port" where
  "signaling_tlv e m = (\<lambda>(err, p) t.
    (case t of
       TlvRequest mtype period duration \<Rightarrow>
         (let req = \<lparr>rq_message_type = mtype, rq_logInterMessagePeriod = period, rq_durationField = duration\<rparr>;
              p = do_call Unicast_service_add p
          in case unicast_service_add (e_service_add e (p_log p)) (p_trp p) (pm_source m) (pm_address m) req
                    (p_unicast_service p) of
               (result, us) \<Rightarrow>
                 let p = p\<lparr>p_unicast_service := us\<rparr>
                 in case result of
                      SERVICE_GRANTED \<Rightarrow> unicast_service_grant e p m req
                    | SERVICE_DENIED \<Rightarrow> unicast_service_deny e p m req
                    | SERVICE_DISABLED \<Rightarrow> (err, p))
     | TlvGrant mtype period duration _ \<Rightarrow> (err, unicast_client_grant e p m mtype period duration)
     | TlvCancel flags \<Rightarrow>
         (case unicast_client_cancel e p m flags of (err, p) \<Rightarrow>
            (err, p\<lparr>p_unicast_service :=
                      unicast_service_remove (p_trp p) (pm_address m) flags (p_unicast_service p)\<rparr>))
     | TlvOrg dnp oui subtype d \<Rightarrow>
         if dnp then (err, p)
         else if oui = ieee8021_id \<and> subtype = [0, 0, 2] then (0, process_interval_request p d)
         else if oui = itu_t_id \<and> subtype = [0, 0, 2] then (0, process_interface_rate e p d)
         else (err, p)
     | _ \<Rightarrow> (err, p)))"

definition process_signaling :: "env \<Rightarrow> port \<Rightarrow> pmsg \<Rightarrow> int \<times> port" where
  "process_signaling e p m =
    (if p_state p \<in> {PS_INITIALIZING, PS_FAULTY, PS_DISABLED} then (0, p)
     else if \<not> pid_eq (pm_portid m) (p_portIdentity p) \<and> \<not> pid_eq (pm_portid m) wildcard_pid then (0, p)
     else foldl (signaling_tlv e m) (0, p) (pm_tlvs m))"

section \<open>Messages to ignore\<close>

definition incapable_ignore :: "env \<Rightarrow> port \<Rightarrow> pmsg \<Rightarrow> (bool \<times> port) option" where
  "incapable_ignore e p m = do {
     (capable, p) \<leftarrow> port_capable e p;
     Some (\<not> capable \<and> (pm_type m = ANNOUNCE \<or> pm_type m = SYNC), p)
   }"

definition path_trace_ignore :: "env \<Rightarrow> port \<Rightarrow> pmsg \<Rightarrow> bool" where
  "path_trace_ignore e p m \<longleftrightarrow>
    p_path_trace_enabled p \<and> pm_type m = ANNOUNCE \<and>
    list_ex (\<lambda>t. case t of
        TlvPathTrace len cids \<Rightarrow> list_ex (cid_eq (cv_identity (clk e p))) (take (len div 8) cids) | _ \<Rightarrow> False) (pm_tlvs m)"

text \<open>The tests of \<open>port_ignore\<close> after the first two.\<close>

definition foreign_message :: "env \<Rightarrow> port \<Rightarrow> pmsg \<Rightarrow> bool" where
  "foreign_message e p m \<longleftrightarrow>
    path_trace_ignore e p m \<or>
    (port_is_ieee8021as p \<and> pm_transport_specific m \<noteq> TS_IEEE_8021AS \<and> pm_transport_specific m \<noteq> TS_CMLDS) \<or>
    (p_match_transport_specific p \<and> pm_transport_specific m \<noteq> p_transportSpecific p) \<or>
    pid_eq (pm_source m) (p_portIdentity p) \<or>
    pm_domainNumber m \<noteq> cv_domain_number (clk e p) \<or>
    cid_eq (cv_identity (clk e p)) (clockIdentity (pm_source m))"

definition port_ignore :: "env \<Rightarrow> port \<Rightarrow> pmsg \<Rightarrow> (bool \<times> port) option" where
  "port_ignore e p m =
    (if port_is_uds p \<and> pm_type m \<noteq> MANAGEMENT then Some (True, p)
     else do {
       (incapable, p) \<leftarrow> incapable_ignore e p m;
       Some (incapable \<or> foreign_message e p m, p)
     })"

section \<open>Common mean link delay service\<close>

abbreviation "CMLDS_UPDATE_INTERVAL \<equiv> 30 :: int"

definition port_cmlds_timeout :: "env \<Rightarrow> port \<Rightarrow> fsm_event \<times> port" where
  "port_cmlds_timeout e p =
    (if \<not> p_cmlds_pmc p then (EV_NONE, p)
     else case clock_gettime e p of (now, p) \<Rightarrow>
       (case if sint (tv_sec now) - p_cmlds_last_renewal p > CMLDS_UPDATE_INTERVAL
             then port_cmlds_renew e p (sint (tv_sec now)) else (0, p) of
          (err, p) \<Rightarrow>
            if err \<noteq> 0 then (EV_FAULT_DETECTED, p)
            else let p = p\<lparr>p_cmlds_timer_count := p_cmlds_timer_count p + 1\<rparr>
                 in if p_cmlds_timer_count p > unat (p_allowedLostResponses p)
                    then (case port_cmlds_renew e (p\<lparr>p_asCapable := NOT_CAPABLE\<rparr>) (sint (tv_sec now)) of
                            (err, p) \<Rightarrow> (if err \<noteq> 0 then EV_FAULT_DETECTED else EV_NONE, p))
                    else (EV_NONE, p)))"

text \<open>A management message from the service; its first TLV is the management TLV.\<close>

definition process_cmlds :: "env \<Rightarrow> port \<Rightarrow> int \<times> port" where
  "process_cmlds e p =
    (let p = do_call Pmc_recv p
     in case e_pmc e (p_log p) of
          None \<Rightarrow> (-1, p)
        | Some m \<Rightarrow>
            if pm_type m \<noteq> MANAGEMENT then (-1, p)
            else case pm_tlvs m of
              TlvManagement mid len md # _ \<Rightarrow>
                if len = 2 \<and> mid \<noteq> MID_NULL_MANAGEMENT then (0, p)
                else if mid = MID_CMLDS_INFO_NP
                then if uint (portNumber (pm_source m)) \<noteq> p_cmlds_port p then (0, p)
                     else (case md of
                        MD_CMLDS meanLinkDelay scaled as_cap \<Rightarrow>
                          let p = p\<lparr>p_peer_delay := nanoseconds_to_tmv (signed_drop_bit 16 meanLinkDelay),
                                   p_peerMeanPathDelay := meanLinkDelay,
                                   p_nrate := (p_nrate p)\<lparr>nr_ratio := rnd64 (1 + rnd64 (of_int scaled / 2 ^ 41))\<rparr>,
                                   p_asCapable := as_cap, p_cmlds_timer_count := 0\<rparr>
                          in (0, if p_state p = PS_UNCALIBRATED \<or> p_state p = PS_SLAVE
                                 then do_call (Clock_peer_delay (p_peer_delay p) tmv_zero tmv_zero (nr_ratio (p_nrate p))) p
                                 else p)
                      | _ \<Rightarrow> (0, p))
                else if mid = MID_SUBSCRIBE_EVENTS_NP then (0, p)
                else (-1, p)
            | _ \<Rightarrow> (-1, p))"

section \<open>Timer events\<close>

definition count_timeout :: "(PortServiceStats \<Rightarrow> PortServiceStats) \<Rightarrow> port \<Rightarrow> port" where
  "count_timeout f p = p\<lparr>p_service_stats := f (p_service_stats p)\<rparr>"

text \<open>\<open>FD_ANNOUNCE_TIMER\<close> and \<open>FD_SYNC_RX_TIMER\<close>.\<close>

definition rx_timeout :: "env \<Rightarrow> port \<Rightarrow> fd_index \<Rightarrow> fsm_event \<times> port" where
  "rx_timeout e p fd =
    (let p = (case p_best p of None \<Rightarrow> p
                | Some k \<Rightarrow> (case fc_get p k of None \<Rightarrow> p | Some fc \<Rightarrow> fc_set k (fc_clear fc) p));
         p = (if fd = FD_SYNC_RX_TIMER then count_timeout (\<lambda>s. s\<lparr>st_sync_timeout := st_sync_timeout s + 1\<rparr>) p
              else count_timeout (\<lambda>s. s\<lparr>st_announce_timeout := st_announce_timeout s + 1\<rparr>) p);
         p = (if p_bmca p = BMCA_NOOP \<and> p_state p = PS_SLAVE \<and> fd = FD_SYNC_RX_TIMER
              then do_call Clock_reset_servo_on_master_disconnect p else p);
         p = (if p_bmca p = BMCA_NOOP then snd (port_clr_tmo e FD_SYNC_RX_TIMER p) else p);
         p = (if p_inhibit_announce p then snd (port_clr_tmo e FD_ANNOUNCE_TIMER p) else snd (port_set_announce_tmo e p));
         p = delay_req_prune e p;
         (res, p) = (if cv_slave_only (clk e p) \<and> p_delayMechanism p \<noteq> DM_P2P then port_renew_transport e p else (0, p))
     in if res \<noteq> 0 then (EV_FAULT_DETECTED, p)
        else if p_inhibit_announce p then (EV_NONE, p)
        else (EV_ANNOUNCE_RECEIPT_TIMEOUT_EXPIRES, p))"

text \<open>The part of \<open>FD_DELAY_TIMER\<close> after the request: the supervision of delay responses.\<close>

definition delay_response_check :: "port \<Rightarrow> fsm_event \<times> port" where
  "delay_response_check p =
    (if p_delay_response_timeout p \<noteq> 0 \<and> p_state p = PS_SLAVE
     then let p = p\<lparr>p_delay_response_counter := p_delay_response_counter p + 1\<rparr>
          in if p_delay_response_counter p \<ge> p_delay_response_timeout p
             then (EV_SYNCHRONIZATION_FAULT, do_call Clock_tsproc_reset (p\<lparr>p_delay_response_counter := 0\<rparr>))
             else (EV_NONE, p)
     else (EV_NONE, p))"

definition delay_timeout :: "env \<Rightarrow> port \<Rightarrow> (fsm_event \<times> port) option" where
  "delay_timeout e p =
    (let p = snd (port_set_delay_tmo e p)
     in if p_delayMechanism p = DM_COMMON_P2P then Some (port_cmlds_timeout e p)
        else let p = count_timeout (\<lambda>s. s\<lparr>st_delay_timeout := st_delay_timeout s + 1\<rparr>) (delay_req_prune e p)
             in do {
                  (err, p) \<leftarrow> port_delay_request e p;
                  Some (if err \<noteq> 0 then (EV_FAULT_DETECTED, p) else delay_response_check p)
                })"

definition fault_if :: "int \<times> port \<Rightarrow> fsm_event \<times> port" where
  "fault_if r = (if fst r \<noteq> 0 then EV_FAULT_DETECTED else EV_NONE, snd r)"

text \<open>The transmissions of the unicast service. What the service sends does not depend on the results of sending
  (\<open>unicast_service_clients_loop\<close>), which only make the timer report an error; so they follow the run of the
  service here.\<close>

definition transmit :: "env \<Rightarrow> port \<Rightarrow> transmission \<Rightarrow> (int \<times> port) option" where
  "transmit e p t = (case t of
     TxAnnounce a s \<Rightarrow> port_tx_announce e p (Some a) s
   | TxSync a s \<Rightarrow> port_tx_sync e p (Some a) s)"

fun transmit_all :: "env \<Rightarrow> int \<Rightarrow> port \<Rightarrow> transmission list \<Rightarrow> (int \<times> port) option" where
  "transmit_all e err p [] = Some (err, p)"
| "transmit_all e err p (t # ts) = do {
     (r, p) \<leftarrow> transmit e p t;
     transmit_all e (if r \<noteq> 0 then -1 else err) p ts
   }"

definition service_timeout :: "env \<Rightarrow> port \<Rightarrow> (int \<times> port) option" where
  "service_timeout e p =
    (let p = do_call Unicast_service_timer p
     in case e_service_timer e (p_log p) of (tfd, now, clock, fill) \<Rightarrow> do {
          (us, err, out) \<leftarrow> unicast_service_timer tfd (p_state p) (\<lambda>_. False) now clock fill (p_unicast_service p);
          transmit_all e (if err then -1 else 0) (p\<lparr>p_unicast_service := us\<rparr>) out
        })"

definition manno_timeout :: "env \<Rightarrow> port \<Rightarrow> (fsm_event \<times> port) option" where
  "manno_timeout e p =
    (let p = count_timeout (\<lambda>s. s\<lparr>st_master_announce_timeout := st_master_announce_timeout s + 1\<rparr>)
               (snd (port_set_manno_tmo e p));
         p = do_call Clock_update_leap_status p;
         seq = p_seq_announce p
     in map_option fault_if (port_tx_announce e (p\<lparr>p_seq_announce := seq + 1\<rparr>) None seq))"

definition sync_tx_timeout :: "env \<Rightarrow> port \<Rightarrow> (fsm_event \<times> port) option" where
  "sync_tx_timeout e p =
    (let p = count_timeout (\<lambda>s. s\<lparr>st_master_sync_timeout := st_master_sync_timeout s + 1\<rparr>)
               (snd (port_set_sync_tx_tmo e p));
         seq = p_seq_sync p
     in if cv_master_restart_detected (clk e p) then Some (EV_NONE, p)
        else map_option fault_if (port_tx_sync e (p\<lparr>p_seq_sync := seq + 1\<rparr>) None seq))"

definition rtnl_event :: "env \<Rightarrow> port \<Rightarrow> (fsm_event \<times> port) option" where
  "rtnl_event e p =
    (let p = do_call Rtnl_link_status p
     in map_option (\<lambda>p.
          (if p_link_status p = LINK_UP OR LINK_STATE_CHANGED then EV_FAULT_CLEARED
           else if p_link_status p = LINK_DOWN OR LINK_STATE_CHANGED \<or> p_link_status p AND TS_LABEL_CHANGED \<noteq> 0
           then EV_FAULT_DETECTED else EV_NONE, p))
        (case e_link e (p_log p) of
           None \<Rightarrow> Some p
         | Some (linkup, label) \<Rightarrow> port_link_status e p linkup label))"

section \<open>Received messages\<close>

definition process_message :: "env \<Rightarrow> port \<Rightarrow> pmsg \<Rightarrow> (fsm_event \<times> port) option" where
  "process_message e p m =
    (let t = pm_type m
     in if t = SYNC
        then map_option (\<lambda>p. (EV_NONE, if p_state p = PS_SLAVE \<and> cv_domain1 (clk e p)
                                       then do_call Sync_state_shm_update p else p)) (process_sync e p m)
        else if t = DELAY_REQ then map_option fault_if (process_delay_req e p m)
        else if t = PDELAY_REQ then map_option fault_if (process_pdelay_req e p m)
        else if t = PDELAY_RESP then map_option fault_if (process_pdelay_resp e p m)
        else if t = FOLLOW_UP then map_option (Pair EV_NONE) (process_follow_up e p m)
        else if t = DELAY_RESP then Some (EV_NONE, process_delay_resp e p m)
        else if t = PDELAY_RESP_FOLLOW_UP then Some (EV_NONE, process_pdelay_resp_fup e p m)
        else if t = ANNOUNCE
        then Some (case process_announce e p m of (diff, p) \<Rightarrow> (if diff then EV_STATE_DECISION_EVENT else EV_NONE, p))
        else if t = SIGNALING then Some (fault_if (process_signaling e p m))
        else if t = MANAGEMENT
        then let p = do_call (Clock_manage m) p in Some (if ret e p \<noteq> 0 then EV_STATE_DECISION_EVENT else EV_NONE, p)
        else Some (EV_NONE, p))"

text \<open>A received message after \<open>msg_post_recv\<close>.\<close>

definition receive_message :: "env \<Rightarrow> port \<Rightarrow> pmsg \<Rightarrow> (fsm_event \<times> port) option" where
  "receive_message e p m = do {
     (ignore, p) \<leftarrow> port_ignore e (port_stats_inc_rx m p) m;
     if ignore then Some (EV_NONE, p)
     else if pm_sots_missing m \<and> \<not> (p_timestamping p = TS_P2P1STEP \<and> pm_type m = PDELAY_REQ) then Some (EV_NONE, p)
     else let p = do_call Sad_process_auth p
          in if ret e p \<noteq> 0 then Some (EV_NONE, p)
             else let valid = pm_sots_valid m;
                      m = (if valid then m\<lparr>pm_hwts_ts := ts_add (pm_hwts_ts m) (- p_rx_timestamp_offset p)\<rparr> else m);
                      p = (if valid \<and> p_state p = PS_SLAVE
                           then do_call (Clock_check_ts (tmv_to_nanoseconds (pm_hwts_ts m))) p else p)
                  in process_message e p m
   }"

definition socket_event :: "env \<Rightarrow> port \<Rightarrow> (fsm_event \<times> port) option" where
  "socket_event e p =
    (case msg_allocate e p of
       (None, p) \<Rightarrow> Some (EV_FAULT_DETECTED, p)
     | (Some _, p) \<Rightarrow>
         let p = do_call Transport_recv p
         in case e_recv e (p_log p) of
              Recv_failed \<Rightarrow> Some (EV_FAULT_DETECTED, p)
            | r \<Rightarrow>
                let p = (if port_has_security p then do_call Msg_duplicate p else p)
                in if port_has_security p \<and> ret e p = 0 then Some (EV_NONE, p)
                   else case r of Received m \<Rightarrow> receive_message e p m | _ \<Rightarrow> Some (EV_NONE, p))"

definition bc_event :: "env \<Rightarrow> port \<Rightarrow> fd_index \<Rightarrow> (fsm_event \<times> port) option" where
  "bc_event e p fd =
    (case fd of
       FD_ANNOUNCE_TIMER \<Rightarrow> Some (rx_timeout e p fd)
     | FD_SYNC_RX_TIMER \<Rightarrow> Some (rx_timeout e p fd)
     | FD_DELAY_TIMER \<Rightarrow> delay_timeout e p
     | FD_QUALIFICATION_TIMER \<Rightarrow>
         Some (EV_QUALIFICATION_TIMEOUT_EXPIRES,
           count_timeout (\<lambda>s. s\<lparr>st_qualification_timeout := st_qualification_timeout s + 1\<rparr>) p)
     | FD_MANNO_TIMER \<Rightarrow> manno_timeout e p
     | FD_SYNC_TX_TIMER \<Rightarrow> sync_tx_timeout e p
     | FD_UNICAST_SRV_TIMER \<Rightarrow>
         map_option fault_if (service_timeout e
           (count_timeout (\<lambda>s. s\<lparr>st_unicast_service_timeout := st_unicast_service_timeout s + 1\<rparr>) p))
     | FD_UNICAST_REQ_TIMER \<Rightarrow>
         Some (fault_if (unicast_client_timer e
           (count_timeout (\<lambda>s. s\<lparr>st_unicast_request_timeout := st_unicast_request_timeout s + 1\<rparr>) p)))
     | FD_CMLDS \<Rightarrow> Some (fault_if (process_cmlds e p))
     | FD_RTNL \<Rightarrow> rtnl_event e p
     | _ \<Rightarrow> socket_event e p)"

end
