(* ===== verification/Tc.thy ===== *)
theory Tc
  imports Port_Event
begin

text \<open>
  Transparent clocks (\<open>tc.c\<close>, \<open>e2e_tc.c\<close>, \<open>p2p_tc.c\<close>): forwarding of messages between the ports of a clock, with
  the residence time added to the correction field.

  The ports of the clock are a list; a port is given by its index. Each port has an environment of its own. \<open>None\<close> stands
  for undefined behaviour, as before: here, also for the removal of a descriptor from a queue it is not in.
\<close>

section \<open>Matching\<close>

datatype tc_match = TC_MISMATCH | TC_SYNC_FUP | TC_FUP_SYNC | TC_DELAY_REQRESP

definition portnum :: "port \<Rightarrow> u16" where
  "portnum p = portNumber (p_portIdentity p)"

definition tc_match_delay :: "u16 \<Rightarrow> pmsg \<Rightarrow> tc_txd \<Rightarrow> tc_match" where
  "tc_match_delay ingress_port resp txd =
    (let req = td_msg txd
     in if ingress_port \<noteq> td_ingress_port txd then TC_MISMATCH
        else if pm_sequenceId req \<noteq> pm_sequenceId resp then TC_MISMATCH
        else if \<not> pid_eq (pm_source req) (pm_portid resp) then TC_MISMATCH
        else if pm_type req = DELAY_REQ \<and> pm_type resp = DELAY_RESP then TC_DELAY_REQRESP
        else TC_MISMATCH)"

definition tc_match_syfup :: "u16 \<Rightarrow> pmsg \<Rightarrow> tc_txd \<Rightarrow> tc_match" where
  "tc_match_syfup ingress_port m txd =
    (if ingress_port \<noteq> td_ingress_port txd then TC_MISMATCH
     else if pm_sequenceId m \<noteq> pm_sequenceId (td_msg txd) then TC_MISMATCH
     else if \<not> source_pid_eq m (td_msg txd) then TC_MISMATCH
     else if pm_type (td_msg txd) = SYNC \<and> pm_type m = FOLLOW_UP then TC_SYNC_FUP
     else if pm_type (td_msg txd) = FOLLOW_UP \<and> pm_type m = SYNC then TC_FUP_SYNC
     else TC_MISMATCH)"

section \<open>Blocked ports\<close>

definition ingress_blocked :: "port_state \<Rightarrow> u8 \<Rightarrow> bool" where
  "ingress_blocked s mtype =
    (case s of
       PS_MASTER \<Rightarrow> mtype \<noteq> DELAY_REQ
     | PS_GRAND_MASTER \<Rightarrow> mtype \<noteq> DELAY_REQ
     | PS_UNCALIBRATED \<Rightarrow> False
     | PS_SLAVE \<Rightarrow> False
     | _ \<Rightarrow> True)"

definition egress_blocked :: "port_state \<Rightarrow> u8 \<Rightarrow> bool" where
  "egress_blocked s mtype =
    (case s of
       PS_UNCALIBRATED \<Rightarrow> mtype \<noteq> DELAY_REQ
     | PS_SLAVE \<Rightarrow> mtype \<noteq> DELAY_REQ
     | PS_MASTER \<Rightarrow> mtype = DELAY_REQ
     | PS_GRAND_MASTER \<Rightarrow> mtype = DELAY_REQ
     | _ \<Rightarrow> True)"

definition tc_blocked :: "(nat \<Rightarrow> env) \<Rightarrow> port list \<Rightarrow> nat \<Rightarrow> nat \<Rightarrow> pmsg \<Rightarrow> bool" where
  "tc_blocked E ps q p m =
    (if q = p then True
     else if portnum (ps ! p) = 0 then True
     else if \<not> p_tc_spanning_tree (ps ! q) then False
     else if pm_domainNumber m \<noteq> cv_domain_number (clk (E p) (ps ! p)) then False
     else ingress_blocked (p_state (ps ! q)) (pm_type m) \<or> egress_blocked (p_state (ps ! p)) (pm_type m))"

section \<open>Forwarding to one port\<close>

definition port_fault :: "(nat \<Rightarrow> env) \<Rightarrow> nat \<Rightarrow> port list \<Rightarrow> port list option" where
  "port_fault E i ps = map_option (\<lambda>p. ps[i := p]) (port_dispatch (E i) (ps ! i) EV_FAULT_DETECTED 0)"

definition tc_transmit :: "(nat \<Rightarrow> env) \<Rightarrow> nat \<Rightarrow> transport_event \<Rightarrow> pmsg \<Rightarrow> port list \<Rightarrow> port list option" where
  "tc_transmit E i event m ps =
    (let p = do_call (Transport Transport_send event m) (ps ! i); ps = ps[i := p]
     in if ret (E i) p \<le> 0 then port_fault E i ps else Some ps)"

text \<open>\<open>tc_allocate\<close> and the insertion of the new descriptor at the tail.\<close>

definition tc_stash :: "(nat \<Rightarrow> env) \<Rightarrow> nat \<Rightarrow> tc_txd \<Rightarrow> port list \<Rightarrow> port list option" where
  "tc_stash E i txd ps =
    (let p = do_call Malloc (ps ! i)
     in if ret (E i) p = 0 then port_fault E i (ps[i := p])
        else Some (ps[i := p\<lparr>p_tc_transmitted := p_tc_transmitted p @ [txd]\<rparr>]))"

definition tc_release :: "nat \<Rightarrow> tc_txd \<Rightarrow> port list \<Rightarrow> port list option" where
  "tc_release i txd ps =
    (if txd \<in> set (p_tc_transmitted (ps ! i))
     then Some (ps[i := (ps ! i)\<lparr>p_tc_transmitted := remove1 txd (p_tc_transmitted (ps ! i))\<rparr>])
     else None)"

definition tc_complete_request :: "(nat \<Rightarrow> env) \<Rightarrow> nat \<Rightarrow> nat \<Rightarrow> pmsg \<Rightarrow> tmv_t \<Rightarrow> port list \<Rightarrow> port list option" where
  "tc_complete_request E q p req residence ps =
    tc_stash E p \<lparr>td_msg = req, td_residence = residence, td_ingress_port = portnum (ps ! q)\<rparr> ps"

definition update_auth :: "nat \<Rightarrow> pmsg \<Rightarrow> port list \<Rightarrow> port list" where
  "update_auth q m ps = ps[q := do_call (Sad_update_auth_tlv m) (ps ! q)]"

definition tc_complete_response :: "(nat \<Rightarrow> env) \<Rightarrow> nat \<Rightarrow> nat \<Rightarrow> pmsg \<Rightarrow> port list \<Rightarrow> port list option" where
  "tc_complete_response E q p resp ps =
    (case List.find (\<lambda>txd. tc_match_delay (portnum (ps ! p)) resp txd = TC_DELAY_REQRESP) (p_tc_transmitted (ps ! q)) of
       None \<Rightarrow> Some ps
     | Some txd \<Rightarrow>
         let resp = resp\<lparr>pm_correction := pm_correction resp + tmv_to_TimeInterval (td_residence txd)\<rparr>
         in do {
              ps \<leftarrow> tc_transmit E p TRANS_GENERAL resp (update_auth q resp ps);
              tc_release q txd ps
            })"

text \<open>The Follow_Up of a matching pair and the residence time of its Sync.\<close>

definition syfup_pair :: "u16 \<Rightarrow> pmsg \<Rightarrow> tmv_t \<Rightarrow> tc_txd \<Rightarrow> pmsg \<times> tmv_t" where
  "syfup_pair ingress_port m residence txd =
    (if tc_match_syfup ingress_port m txd = TC_SYNC_FUP then (m, td_residence txd) else (td_msg txd, residence))"

definition syfup_correction :: "port \<Rightarrow> pmsg \<Rightarrow> tmv_t \<Rightarrow> i64" where
  "syfup_correction q fup residence =
    pm_correction fup + tmv_to_TimeInterval residence + tmv_to_TimeInterval (p_peer_delay q) + p_asymmetry q"

definition tc_complete_syfup :: "(nat \<Rightarrow> env) \<Rightarrow> nat \<Rightarrow> nat \<Rightarrow> pmsg \<Rightarrow> tmv_t \<Rightarrow> port list \<Rightarrow> port list option" where
  "tc_complete_syfup E q p m residence ps =
    (let inp = portnum (ps ! q)
     in case List.find (\<lambda>txd. tc_match_syfup inp m txd \<noteq> TC_MISMATCH) (p_tc_transmitted (ps ! p)) of
          None \<Rightarrow> tc_stash E p \<lparr>td_msg = m, td_residence = residence, td_ingress_port = inp\<rparr> ps
        | Some txd \<Rightarrow>
            (case syfup_pair inp m residence txd of (fup, residence) \<Rightarrow>
               let fup = fup\<lparr>pm_correction := syfup_correction (ps ! q) fup residence\<rparr>
               in do {
                    ps \<leftarrow> tc_transmit E p TRANS_GENERAL fup (update_auth q fup ps);
                    tc_release p txd ps
                  }))"

definition tc_complete :: "(nat \<Rightarrow> env) \<Rightarrow> nat \<Rightarrow> nat \<Rightarrow> pmsg \<Rightarrow> tmv_t \<Rightarrow> port list \<Rightarrow> port list option" where
  "tc_complete E q p m residence ps =
    (if pm_type m = SYNC \<or> pm_type m = FOLLOW_UP then tc_complete_syfup E q p m residence ps
     else if pm_type m = DELAY_REQ then tc_complete_request E q p m residence ps
     else if pm_type m = DELAY_RESP then tc_complete_response E q p m ps
     else Some ps)"

section \<open>Forwarding to all ports\<close>

fun for_ports :: "(nat \<Rightarrow> 's \<Rightarrow> 's option) \<Rightarrow> nat list \<Rightarrow> 's \<Rightarrow> 's option" where
  "for_ports f [] s = Some s"
| "for_ports f (i # is) s = do { s \<leftarrow> f i s; for_ports f is s }"

definition unblocked ::
  "(nat \<Rightarrow> env) \<Rightarrow> nat \<Rightarrow> pmsg \<Rightarrow> (nat \<Rightarrow> port list \<Rightarrow> port list option) \<Rightarrow> nat \<Rightarrow> port list \<Rightarrow> port list option" where
  "unblocked E q m f p ps = (if tc_blocked E ps q p m then Some ps else f p ps)"

definition residence_time :: "env \<Rightarrow> port \<Rightarrow> tmv_t \<Rightarrow> tmv_t \<Rightarrow> tmv_t" where
  "residence_time e q ingress egress =
    (let residence = tmv_sub egress ingress; rr = cv_rate_ratio (clk e q)
     in if rr \<noteq> 1 then dbl_tmv (rnd64 (tmv_dbl residence * rr)) else residence)"

text \<open>The second loop of \<open>tc_fwd_event\<close>, on one port: the transmit time stamp replaces the receive time stamp
  \<open>ingress\<close> of the message.\<close>

definition tc_gather :: "(nat \<Rightarrow> env) \<Rightarrow> nat \<Rightarrow> pmsg \<Rightarrow> tmv_t \<Rightarrow> nat \<Rightarrow> port list \<Rightarrow> port list option" where
  "tc_gather E q m ingress p ps =
    (let pp = do_call Transport_txts (ps ! p); ps = ps[p := pp];
         m = m\<lparr>pm_hwts_ts := e_stamp (E p) (p_log pp)\<rparr>
     in if ret (E p) pp \<noteq> 0 \<or> \<not> pm_sots_valid m then port_fault E p ps
        else let egress = ts_add (pm_hwts_ts m) (p_tx_timestamp_offset pp)
             in tc_complete E q p (m\<lparr>pm_hwts_ts := egress\<rparr>) (residence_time (E q) (ps ! q) ingress egress) ps)"

text \<open>\<open>clock_gettime\<close> stores the time of arrival in the message.\<close>

definition stamp_host :: "(nat \<Rightarrow> env) \<Rightarrow> nat \<Rightarrow> pmsg \<Rightarrow> port list \<Rightarrow> pmsg \<times> port list" where
  "stamp_host E q m ps = (case clock_gettime (E q) (ps ! q) of (now, p) \<Rightarrow> (m\<lparr>pm_host := now\<rparr>, ps[q := p]))"

definition tc_fwd_event :: "(nat \<Rightarrow> env) \<Rightarrow> nat \<Rightarrow> pmsg \<Rightarrow> port list \<Rightarrow> port list option" where
  "tc_fwd_event E q m ps =
    (case stamp_host E q m ps of (m, ps) \<Rightarrow> do {
       ps \<leftarrow> for_ports (unblocked E q m (\<lambda>p. tc_transmit E p TRANS_DEFER_EVENT m)) [0..<length ps] ps;
       for_ports (unblocked E q m (tc_gather E q m (pm_hwts_ts m))) [0..<length ps] ps
     })"

definition tc_forward :: "(nat \<Rightarrow> env) \<Rightarrow> nat \<Rightarrow> pmsg \<Rightarrow> port list \<Rightarrow> port list option" where
  "tc_forward E q m ps =
    (let step = p_tc_spanning_tree (ps ! q) \<and> pm_type m = ANNOUNCE;
         m = (if step then m\<lparr>pm_announce := (pm_announce m)\<lparr>an_stepsRemoved := 1 + an_stepsRemoved (pm_announce m)\<rparr>\<rparr> else m);
         ps = (if step then update_auth q m ps else ps)
     in for_ports (unblocked E q m (\<lambda>p. tc_transmit E p TRANS_GENERAL m)) [0..<length ps] ps)"

text \<open>\<open>tc_fwd_folup\<close> and \<open>tc_fwd_response\<close> have the same body.\<close>

definition tc_fwd_folup :: "(nat \<Rightarrow> env) \<Rightarrow> nat \<Rightarrow> pmsg \<Rightarrow> port list \<Rightarrow> port list option" where
  "tc_fwd_folup E q m ps =
    (case stamp_host E q m ps of (m, ps) \<Rightarrow>
       for_ports (unblocked E q m (\<lambda>p. tc_complete E q p m tmv_zero)) [0..<length ps] ps)"

definition tc_fwd_response :: "(nat \<Rightarrow> env) \<Rightarrow> nat \<Rightarrow> pmsg \<Rightarrow> port list \<Rightarrow> port list option" where
  "tc_fwd_response E q m ps = tc_fwd_folup E q m ps"

definition tc_fwd_request :: "(nat \<Rightarrow> env) \<Rightarrow> nat \<Rightarrow> pmsg \<Rightarrow> port list \<Rightarrow> port list option" where
  "tc_fwd_request E q m ps = tc_fwd_event E q m ps"

definition one_step_follow_up :: "pmsg \<Rightarrow> pmsg \<Rightarrow> pmsg" where
  "one_step_follow_up m fup =
    fup\<lparr>pm_tsmt := FOLLOW_UP OR (pm_tsmt m AND 0xf0), pm_ver := pm_ver m, pm_domainNumber := pm_domainNumber m,
      pm_source := pm_source m, pm_sequenceId := pm_sequenceId m, pm_logMessageInterval := pm_logMessageInterval m,
      pm_stamp := pm_stamp m\<rparr>"

text \<open>The result is the return value with the ports.\<close>

definition tc_fwd_sync :: "(nat \<Rightarrow> env) \<Rightarrow> nat \<Rightarrow> pmsg \<Rightarrow> port list \<Rightarrow> (int \<times> port list) option" where
  "tc_fwd_sync E q m ps =
    (if pm_one_step (E q) m
     then case msg_allocate (E q) (ps ! q) of
            (None, p) \<Rightarrow> Some (-1, ps[q := p])
          | (Some fup, p) \<Rightarrow>
              let fup = one_step_follow_up m fup;
                  m = m\<lparr>pm_flag0 := pm_flag0 m OR FLAG_TWO_STEP\<rparr>;
                  p = do_call Sad_append_auth_tlv p;
                  ps = update_auth q m (ps[q := p])
              in do {
                   ps \<leftarrow> tc_fwd_event E q m ps;
                   ps \<leftarrow> tc_fwd_folup E q fup ps;
                   Some (0, ps)
                 }
     else map_option (Pair 0) (tc_fwd_event E q m ps))"

section \<open>Housekeeping\<close>

definition tc_ignore :: "env \<Rightarrow> port \<Rightarrow> pmsg \<Rightarrow> bool" where
  "tc_ignore e p m \<longleftrightarrow>
    (p_match_transport_specific p \<and> pm_transport_specific m \<noteq> p_transportSpecific p) \<or>
    pid_eq (pm_source m) (p_portIdentity p) \<or>
    pm_domainNumber m \<noteq> cv_domain_number (clk e p) \<or>
    cid_eq (cv_identity (clk e p)) (clockIdentity (pm_source m))"

definition tc_current :: "pmsg \<Rightarrow> timespec \<Rightarrow> bool" where
  "tc_current m now \<longleftrightarrow> timespec_diff_ns now (pm_host m) < 1000000000"

fun tc_prune_loop :: "timespec \<Rightarrow> tc_txd list \<Rightarrow> tc_txd list" where
  "tc_prune_loop now [] = []"
| "tc_prune_loop now (txd # ts) = (if tc_current (td_msg txd) now then txd # ts else tc_prune_loop now ts)"

definition tc_prune :: "env \<Rightarrow> port \<Rightarrow> port" where
  "tc_prune e q =
    (case clock_gettime e q of (now, q) \<Rightarrow> q\<lparr>p_tc_transmitted := tc_prune_loop now (p_tc_transmitted q)\<rparr>)"

section \<open>Events\<close>

definition clear_best :: "port \<Rightarrow> port" where
  "clear_best p = (case p_best p of None \<Rightarrow> p
     | Some k \<Rightarrow> (case fc_get p k of None \<Rightarrow> p | Some fc \<Rightarrow> fc_set k (fc_clear fc) p))"

definition e2e_delay_timeout :: "env \<Rightarrow> port \<Rightarrow> (fsm_event \<times> port) option" where
  "e2e_delay_timeout e p =
    (let p = tc_prune e (delay_req_prune e (snd (port_set_delay_tmo e p)))
     in if \<not> cv_free_running (clk e p) \<and> p_state p \<in> {PS_UNCALIBRATED, PS_SLAVE}
        then map_option fault_if (port_delay_request e p) else Some (EV_NONE, p))"

definition p2p_delay_request :: "env \<Rightarrow> port \<Rightarrow> (int \<times> port) option" where
  "p2p_delay_request e p =
    (if p_state p \<in> {PS_INITIALIZING, PS_FAULTY, PS_DISABLED} then Some (0, p) else port_delay_request e p)"

definition p2p_delay_timeout :: "env \<Rightarrow> port \<Rightarrow> (fsm_event \<times> port) option" where
  "p2p_delay_timeout e p = map_option fault_if (p2p_delay_request e (tc_prune e (snd (port_set_delay_tmo e p))))"

text \<open>Apply a handler to port \<open>q\<close>.\<close>

definition on_port :: "nat \<Rightarrow> (port \<Rightarrow> ('r \<times> port) option) \<Rightarrow> port list \<Rightarrow> ('r \<times> port list) option" where
  "on_port q f ps = map_option (\<lambda>(r, p). (r, ps[q := p])) (f (ps ! q))"

text \<open>What the two handlers do with the timers that a transparent clock uses; \<open>None\<close> for the sockets.\<close>

definition tc_timer_event ::
  "(env \<Rightarrow> port \<Rightarrow> (fsm_event \<times> port) option) \<Rightarrow> env \<Rightarrow> port \<Rightarrow> fd_index \<Rightarrow> (fsm_event \<times> port) option option" where
  "tc_timer_event delay e p fd =
    (if fd \<in> {FD_ANNOUNCE_TIMER, FD_SYNC_RX_TIMER}
     then Some (Some (EV_ANNOUNCE_RECEIPT_TIMEOUT_EXPIRES, snd (port_set_announce_tmo e (clear_best p))))
     else if fd = FD_DELAY_TIMER then Some (delay e p)
     else if fd = FD_QUALIFICATION_TIMER then Some (Some (EV_QUALIFICATION_TIMEOUT_EXPIRES, p))
     else if fd \<in> {FD_MANNO_TIMER, FD_SYNC_TX_TIMER, FD_UNICAST_REQ_TIMER, FD_UNICAST_SRV_TIMER} then Some (Some (EV_NONE, p))
     else if fd = FD_RTNL then Some (rtnl_event e p)
     else None)"

text \<open>The reception of a message: \<open>Inl\<close> an event if nothing is left to do, otherwise the message with the copy that the
  port itself processes, unless it is ignored. \<open>msg_duplicate\<close> fails if \<open>msg_post_recv\<close> rejects the message or a
  time stamp is missing.\<close>

definition tc_receive :: "env \<Rightarrow> port \<Rightarrow> (fsm_event + pmsg \<times> pmsg option) \<times> port" where
  "tc_receive e p =
    (case msg_allocate e p of
       (None, p) \<Rightarrow> (Inl EV_FAULT_DETECTED, p)
     | (Some _, p) \<Rightarrow>
         let p = do_call Transport_recv p
         in case e_recv e (p_log p) of
              Recv_failed \<Rightarrow> (Inl EV_FAULT_DETECTED, p)
            | Recv_rejected \<Rightarrow> (Inl EV_NONE, p)
            | Received m \<Rightarrow>
                let m = (if pm_sots_valid m then m\<lparr>pm_hwts_ts := ts_add (pm_hwts_ts m) (- p_rx_timestamp_offset p)\<rparr> else m)
                in if pm_unicast m then (Inl EV_NONE, p)
                   else let p = do_call Msg_duplicate p
                        in if ret e p = 0 \<or> pm_sots_missing m then (Inl EV_NONE, p)
                           else if tc_ignore e p m then (Inr (m, None), p)
                           else let p = do_call Sad_process_auth p
                                in if ret e p \<noteq> 0 then (Inl EV_NONE, p) else (Inr (m, Some m), p))"

text \<open>Forward, then process the copy \<open>dup\<close> by \<open>f\<close>.\<close>

definition forward_then ::
  "(int \<times> port list) option \<Rightarrow> nat \<Rightarrow> pmsg option \<Rightarrow> (pmsg \<Rightarrow> port \<Rightarrow> (fsm_event \<times> port) option) \<Rightarrow>
     (fsm_event \<times> port list) option" where
  "forward_then fwd q dup f = do {
     (err, ps) \<leftarrow> fwd;
     if err \<noteq> 0 then Some (EV_FAULT_DETECTED, ps)
     else case dup of None \<Rightarrow> Some (EV_NONE, ps) | Some d \<Rightarrow> on_port q (f d) ps
   }"

definition no_event :: "port option \<Rightarrow> (fsm_event \<times> port) option" where
  "no_event r = map_option (Pair EV_NONE) r"

definition announce_event :: "env \<Rightarrow> pmsg \<Rightarrow> port \<Rightarrow> (fsm_event \<times> port) option" where
  "announce_event e m p =
    Some (case process_announce e p m of (diff, p) \<Rightarrow> (if diff then EV_STATE_DECISION_EVENT else EV_NONE, p))"

text \<open>The messages that the two handlers treat alike.\<close>

definition tc_common_message ::
  "(nat \<Rightarrow> env) \<Rightarrow> nat \<Rightarrow> pmsg \<Rightarrow> pmsg option \<Rightarrow> port list \<Rightarrow> (fsm_event \<times> port list) option" where
  "tc_common_message E q m dup ps =
    (let t = pm_type m
     in if t = SYNC then forward_then (tc_fwd_sync E q m ps) q dup (\<lambda>d p. no_event (process_sync (E q) p d))
        else if t = FOLLOW_UP
        then forward_then (map_option (Pair 0) (tc_fwd_folup E q m ps)) q dup (\<lambda>d p. no_event (process_follow_up (E q) p d))
        else if t = ANNOUNCE
        then forward_then (map_option (Pair 0) (tc_forward E q m ps)) q dup (\<lambda>d p. announce_event (E q) d p)
        else if t = SIGNALING \<or> t = MANAGEMENT then map_option (Pair EV_NONE) (tc_forward E q m ps)
        else Some (EV_NONE, ps))"

definition e2e_message :: "(nat \<Rightarrow> env) \<Rightarrow> nat \<Rightarrow> pmsg \<Rightarrow> pmsg option \<Rightarrow> port list \<Rightarrow> (fsm_event \<times> port list) option" where
  "e2e_message E q m dup ps =
    (let t = pm_type m
     in if t = DELAY_REQ then map_option (Pair EV_NONE) (tc_fwd_request E q m ps)
        else if t = DELAY_RESP
        then forward_then (map_option (Pair 0) (tc_fwd_response E q m ps)) q dup
               (\<lambda>d p. Some (EV_NONE, process_delay_resp (E q) p d))
        else tc_common_message E q m dup ps)"

definition p2p_message :: "(nat \<Rightarrow> env) \<Rightarrow> nat \<Rightarrow> pmsg \<Rightarrow> pmsg option \<Rightarrow> port list \<Rightarrow> (fsm_event \<times> port list) option" where
  "p2p_message E q m dup ps =
    (let t = pm_type m; own = (\<lambda>f. forward_then (Some (0, ps)) q dup f)
     in if t = PDELAY_REQ then own (\<lambda>d p. map_option fault_if (process_pdelay_req (E q) p d))
        else if t = PDELAY_RESP then own (\<lambda>d p. map_option fault_if (process_pdelay_resp (E q) p d))
        else if t = PDELAY_RESP_FOLLOW_UP then own (\<lambda>d p. Some (EV_NONE, process_pdelay_resp_fup (E q) p d))
        else tc_common_message E q m dup ps)"

definition tc_event ::
  "(env \<Rightarrow> port \<Rightarrow> (fsm_event \<times> port) option) \<Rightarrow>
   ((nat \<Rightarrow> env) \<Rightarrow> nat \<Rightarrow> pmsg \<Rightarrow> pmsg option \<Rightarrow> port list \<Rightarrow> (fsm_event \<times> port list) option) \<Rightarrow>
   (nat \<Rightarrow> env) \<Rightarrow> nat \<Rightarrow> fd_index \<Rightarrow> port list \<Rightarrow> (fsm_event \<times> port list) option" where
  "tc_event delay message E q fd ps =
    (case tc_timer_event delay (E q) (ps ! q) fd of
       Some r \<Rightarrow> map_option (\<lambda>(ev, p). (ev, ps[q := p])) r
     | None \<Rightarrow>
         (case tc_receive (E q) (ps ! q) of
            (Inl ev, p) \<Rightarrow> Some (ev, ps[q := p])
          | (Inr (m, dup), p) \<Rightarrow> message E q m dup (ps[q := p])))"

definition e2e_event :: "(nat \<Rightarrow> env) \<Rightarrow> nat \<Rightarrow> fd_index \<Rightarrow> port list \<Rightarrow> (fsm_event \<times> port list) option" where
  "e2e_event E q fd ps = tc_event e2e_delay_timeout e2e_message E q fd ps"

definition p2p_event :: "(nat \<Rightarrow> env) \<Rightarrow> nat \<Rightarrow> fd_index \<Rightarrow> port list \<Rightarrow> (fsm_event \<times> port list) option" where
  "p2p_event E q fd ps = tc_event p2p_delay_timeout p2p_message E q fd ps"

section \<open>The correction of a forwarded Follow_Up\<close>

text \<open>A Sync and its Follow_Up, and an egress port that keeps nothing that matches either of them.\<close>

definition sync_pair :: "pmsg \<Rightarrow> pmsg \<Rightarrow> bool" where
  "sync_pair syn fup \<longleftrightarrow> pm_type syn = SYNC \<and> pm_type fup = FOLLOW_UP \<and> pm_sequenceId fup = pm_sequenceId syn \<and>
     pm_source fup = pm_source syn"

definition unmatched :: "u16 \<Rightarrow> pmsg \<Rightarrow> tc_txd list \<Rightarrow> bool" where
  "unmatched inp m ts \<longleftrightarrow> (\<forall>txd \<in> set ts. tc_match_syfup inp m txd = TC_MISMATCH)"

lemma pid_eq_refl [simp]: "pid_eq x x"
  by (simp add: pid_eq_def cid_eq_def)

lemma match_pair:
  assumes "sync_pair syn fup"
  shows "tc_match_syfup inp fup \<lparr>td_msg = syn, td_residence = r, td_ingress_port = inp\<rparr> = TC_SYNC_FUP"
    and "tc_match_syfup inp syn \<lparr>td_msg = fup, td_residence = r, td_ingress_port = inp\<rparr> = TC_FUP_SYNC"
  using assms by (auto simp: tc_match_syfup_def sync_pair_def source_pid_eq_def)

lemma find_unmatched:
  "unmatched inp m ts \<Longrightarrow> tc_match_syfup inp m txd \<noteq> TC_MISMATCH \<Longrightarrow>
     List.find (\<lambda>t. tc_match_syfup inp m t \<noteq> TC_MISMATCH) (ts @ [txd]) = Some txd \<and> txd \<notin> set ts"
  "unmatched inp m ts \<Longrightarrow> List.find (\<lambda>t. tc_match_syfup inp m t \<noteq> TC_MISMATCH) ts = None"
  by (induction ts) (auto simp: unmatched_def)

text \<open>The first message of a pair is kept at the egress port.\<close>

lemma complete_first:
  assumes "unmatched (portnum (ps ! q)) m (p_tc_transmitted (ps ! p))" and "\<forall>cs. e_ret (E p) cs > 0"
    and "p < length ps" and "q \<noteq> p"
  obtains pp where "tc_complete_syfup E q p m r ps = Some (ps[p := pp])"
    and "p_tc_transmitted pp = p_tc_transmitted (ps ! p) @ [\<lparr>td_msg = m, td_residence = r, td_ingress_port = portnum (ps ! q)\<rparr>]"
proof -
  have "ret (E p) (do_call Malloc (ps ! p)) \<noteq> 0" using assms(2) unfolding ret_def by (metis less_irrefl)
  then show thesis
    using that find_unmatched(2) [OF assms(1)] by (simp add: tc_complete_syfup_def tc_stash_def Let_def do_call_def)
qed

text \<open>The second one completes it.\<close>

lemma complete_second:
  assumes "p_tc_transmitted (ps ! p) = ts @ [txd]" and "unmatched (portnum (ps ! q)) m ts"
    and "tc_match_syfup (portnum (ps ! q)) m txd \<noteq> TC_MISMATCH" and "\<forall>cs. e_ret (E p) cs > 0"
    and "p < length ps" and "q < length ps" and "q \<noteq> p" and "syfup_pair (portnum (ps ! q)) m r txd = (fup, residence)"
  obtains ps' cs where "tc_complete_syfup E q p m r ps = Some ps'" and "p_tc_transmitted (ps' ! p) = ts"
    and "p_log (ps' ! p) = p_log (ps ! p) @
      [Transport Transport_send TRANS_GENERAL (fup\<lparr>pm_correction := syfup_correction (ps ! q) fup residence\<rparr>)]"
proof -
  let ?f = "fup\<lparr>pm_correction := syfup_correction (ps ! q) fup residence\<rparr>"
  let ?ps = "update_auth q ?f ps"
  let ?p = "do_call (Transport Transport_send TRANS_GENERAL ?f) (ps ! p)"
  have "\<not> ret (E p) ?p \<le> 0" using assms(4) unfolding ret_def by (metis not_less)
  then have send: "tc_transmit E p TRANS_GENERAL ?f ?ps = Some (?ps[p := ?p])"
    using assms(7) by (simp add: tc_transmit_def update_auth_def Let_def)
  have "txd \<notin> set ts" using find_unmatched(1) [OF assms(2,3)] by blast
  then have "remove1 txd (ts @ [txd]) = ts" by (simp add: remove1_append)
  then have rel: "tc_release p txd (?ps[p := ?p]) = Some (?ps[p := ?p\<lparr>p_tc_transmitted := ts\<rparr>])"
    using assms(1,5) by (simp add: tc_release_def update_auth_def do_call_def)
  have "tc_complete_syfup E q p m r ps = Some (?ps[p := ?p\<lparr>p_tc_transmitted := ts\<rparr>])"
    using find_unmatched(1) [OF assms(2,3)] assms(1,8) send rel by (simp add: tc_complete_syfup_def Let_def)
  then show thesis using that assms(5) by (simp add: update_auth_def do_call_def)
qed

lemma complete_pair:
  assumes "unmatched (portnum (ps ! q)) a (p_tc_transmitted (ps ! p))" and "unmatched (portnum (ps ! q)) b (p_tc_transmitted (ps ! p))"
    and "txd = \<lparr>td_msg = a, td_residence = ra, td_ingress_port = portnum (ps ! q)\<rparr>"
    and "tc_match_syfup (portnum (ps ! q)) b txd \<noteq> TC_MISMATCH" and "syfup_pair (portnum (ps ! q)) b rb txd = (fup, r)"
    and "\<forall>cs. e_ret (E p) cs > 0" and "p < length ps" and "q < length ps" and "q \<noteq> p"
  shows "\<exists>ps1 ps2. tc_complete_syfup E q p a ra ps = Some ps1 \<and> tc_complete_syfup E q p b rb ps1 = Some ps2 \<and>
    p_tc_transmitted (ps2 ! p) = p_tc_transmitted (ps ! p) \<and>
    last (p_log (ps2 ! p)) = Transport Transport_send TRANS_GENERAL (fup\<lparr>pm_correction := syfup_correction (ps ! q) fup r\<rparr>)"
proof -
  obtain pp where pp: "tc_complete_syfup E q p a ra ps = Some (ps[p := pp])"
      "p_tc_transmitted pp = p_tc_transmitted (ps ! p) @ [txd]"
    unfolding assms(3) by (rule complete_first [where E = E and p = p, OF assms(1,6,7,9)])
  let ?ps = "ps[p := pp]"
  have q: "?ps ! q = ps ! q" "?ps ! p = pp" using assms(7,9) by auto
  obtain ps2 where "tc_complete_syfup E q p b rb ?ps = Some ps2" "p_tc_transmitted (ps2 ! p) = p_tc_transmitted (ps ! p)"
      "p_log (ps2 ! p) = p_log (?ps ! p) @
        [Transport Transport_send TRANS_GENERAL (fup\<lparr>pm_correction := syfup_correction (ps ! q) fup r\<rparr>)]"
    by (rule complete_second [of ?ps p "p_tc_transmitted (ps ! p)" txd q b E rb fup r]) (use pp(2) assms q in auto)
  then show ?thesis using pp(1) by auto
qed

text \<open>C15. Residence times reach the Follow_Up: an event message that took \<open>r\<close> through the clock and its Follow_Up, whichever
  comes first, make the egress port send the Follow_Up with a correction field increased by the residence time, the
  peer delay and the asymmetry of the ingress port, and nothing of the pair is kept.\<close>

theorem tc_follow_up_correction:
  assumes "sync_pair syn fup" and "\<forall>cs. e_ret (E p) cs > 0" and "p < length ps" and "q < length ps" and "q \<noteq> p"
    and "unmatched (portnum (ps ! q)) syn (p_tc_transmitted (ps ! p))"
    and "unmatched (portnum (ps ! q)) fup (p_tc_transmitted (ps ! p))"
    and "sent = Transport Transport_send TRANS_GENERAL (fup\<lparr>pm_correction := pm_correction fup + tmv_to_TimeInterval r +
           tmv_to_TimeInterval (p_peer_delay (ps ! q)) + p_asymmetry (ps ! q)\<rparr>)"
  shows "(\<exists>ps1 ps2. tc_complete E q p syn r ps = Some ps1 \<and> tc_complete E q p fup tmv_zero ps1 = Some ps2 \<and>
      p_tc_transmitted (ps2 ! p) = p_tc_transmitted (ps ! p) \<and> last (p_log (ps2 ! p)) = sent) \<and>
    (\<exists>ps1 ps2. tc_complete E q p fup tmv_zero ps = Some ps1 \<and> tc_complete E q p syn r ps1 = Some ps2 \<and>
      p_tc_transmitted (ps2 ! p) = p_tc_transmitted (ps ! p) \<and> last (p_log (ps2 ! p)) = sent)"
proof -
  have ty: "pm_type syn = SYNC" "pm_type fup = FOLLOW_UP" using assms(1) by (simp_all add: sync_pair_def)
  let ?inp = "portnum (ps ! q)" and ?s = "\<lparr>td_msg = syn, td_residence = r, td_ingress_port = portnum (ps ! q)\<rparr>"
    and ?f = "\<lparr>td_msg = fup, td_residence = tmv_zero, td_ingress_port = portnum (ps ! q)\<rparr>"
  note matches = match_pair [OF assms(1)]
  have pair: "syfup_pair ?inp fup tmv_zero ?s = (fup, r)" "syfup_pair ?inp syn r ?f = (fup, r)"
    by (simp_all add: syfup_pair_def matches)
  have sent: "sent = Transport Transport_send TRANS_GENERAL (fup\<lparr>pm_correction := syfup_correction (ps ! q) fup r\<rparr>)"
    using assms(8) by (simp add: syfup_correction_def)
  have sf: "\<exists>ps1 ps2. tc_complete_syfup E q p syn r ps = Some ps1 \<and> tc_complete_syfup E q p fup tmv_zero ps1 = Some ps2 \<and>
      p_tc_transmitted (ps2 ! p) = p_tc_transmitted (ps ! p) \<and> last (p_log (ps2 ! p)) = sent"
    unfolding sent by (rule complete_pair [where E = E, OF assms(6,7) refl _ pair(1) assms(2-5)]) (simp add: matches)
  have fs: "\<exists>ps1 ps2. tc_complete_syfup E q p fup tmv_zero ps = Some ps1 \<and> tc_complete_syfup E q p syn r ps1 = Some ps2 \<and>
      p_tc_transmitted (ps2 ! p) = p_tc_transmitted (ps ! p) \<and> last (p_log (ps2 ! p)) = sent"
    unfolding sent by (rule complete_pair [where E = E, OF assms(7,6) refl _ pair(2) assms(2-5)]) (simp add: matches)
  show ?thesis using sf fs ty by (simp add: tc_complete_def)
qed

text \<open>A clock with two ports; the peer delay of the first one is 300 ns.\<close>

definition tc_port :: "u16 \<Rightarrow> port" where
  "tc_port n = sample_port\<lparr>p_cfg := zero_config\<lparr>c_dispatch := CLOCK_TYPE_P2P, c_portIdentity := zero_pid\<lparr>portNumber := n\<rparr>\<rparr>,
     p_state := PS_MASTER, p_peer_delay := 300, p_link_status := 0\<rparr>"

definition tc_ports :: "port list" where
  "tc_ports = [tc_port 1, tc_port 2]"

definition tc_sync :: pmsg where
  "tc_sync = zero_msg"

definition tc_fup :: pmsg where
  "tc_fup = zero_msg\<lparr>pm_tsmt := FOLLOW_UP\<rparr>"

lemma tc_example:
  "sync_pair tc_sync tc_fup" "tc_ports ! 0 = tc_port 1" "tc_ports ! 1 = tc_port 2" "tc_ports ! Suc 0 = tc_port 2" "length tc_ports = 2"
  "p_tc_transmitted (tc_port n) = []" "p_peer_delay (tc_port n) = 300" "p_asymmetry (tc_port n) = 0" "pm_correction tc_fup = 0"
  by (simp_all add: sync_pair_def pm_type_def tc_sync_def tc_fup_def tc_ports_def tc_port_def sample_defs)

theorem tc_follow_up_correction_witness:
  "\<exists>ps1 ps2. tc_complete (\<lambda>_. sample_env) 0 1 tc_sync 1000 tc_ports = Some ps1 \<and>
    tc_complete (\<lambda>_. sample_env) 0 1 tc_fup tmv_zero ps1 = Some ps2 \<and> p_tc_transmitted (ps2 ! 1) = [] \<and>
    last (p_log (ps2 ! 1)) = Transport Transport_send TRANS_GENERAL (tc_fup\<lparr>pm_correction := 85196800\<rparr>)"
proof -
  have "tmv_to_TimeInterval 1000 + tmv_to_TimeInterval 300 = 85196800" by code_simp
  moreover have "\<forall>cs. e_ret sample_env cs > 0" by (simp add: sample_env_def)
  ultimately show ?thesis
    using tc_follow_up_correction [of tc_sync tc_fup "\<lambda>_. sample_env" 1 tc_ports 0 _ 1000] tc_example by (simp add: unmatched_def)
qed

section \<open>A failure of transmission\<close>

text \<open>Disabling a port releases the descriptors that it keeps.\<close>

lemma disable_flushes: "p_tc_transmitted (sad_reset (port_disable p)) = []"
  by (simp add: sad_reset_def port_disable_def do_call_def tc_flush_def flush_last_sync_def flush_delay_req_def flush_peer_delay_def
      free_foreign_masters_def Let_def)

lemma fault_flushes:
  assumes "p_state p = PS_MASTER" and "p_state_machine p = ptp_fsm" and "p_dispatch p = CLOCK_TYPE_P2P" and "portnum p \<noteq> 0"
    and "\<not> port_link_status_get p"
  obtains r where "port_dispatch e p EV_FAULT_DETECTED 0 = Some r" and "p_tc_transmitted r = []"
proof -
  have fsm: "ptp_fsm PS_MASTER EV_FAULT_DETECTED 0 = PS_FAULTY" by code_simp
  define s where "s = port_notify_event e (p\<lparr>p_state := PS_FAULTY\<rparr>) NOTIFY_PORT_STATE"
  have "only_log (p\<lparr>p_state := PS_FAULTY\<rparr>) s" unfolding s_def by (rule only_log_notify_event)
  then have s: "p_state s = PS_FAULTY" "p_cfg s = p_cfg p" by (auto simp: only_log_def)
  have "port_state_update e p EV_FAULT_DETECTED 0 = (True, s\<lparr>p_unicast_state_dirty := True\<rparr>)"
    using assms fsm by (simp add: port_state_update_def s_def)
  then show thesis
    using that s assms(3,4) by (simp add: port_dispatch_def p2p_dispatch_def tc_timers_def disable_flushes portnum_def)
qed

text \<open>A descriptor is used after it has been released: if the egress port cannot send the Follow_Up of a matching pair, the
  fault disables the port, which releases every descriptor it keeps; \<open>tc_complete_syfup\<close> then removes its
  descriptor from the queue once more, which is undefined.\<close>

theorem tc_failure_releases_twice:
  assumes "List.find (\<lambda>txd. tc_match_syfup (portnum (ps ! q)) m txd \<noteq> TC_MISMATCH) (p_tc_transmitted (ps ! p)) = Some txd"
    and "\<forall>cs. e_ret (E p) cs \<le> 0" and "p < length ps" and "q \<noteq> p"
    and "p_state (ps ! p) = PS_MASTER" and "p_state_machine (ps ! p) = ptp_fsm" and "p_dispatch (ps ! p) = CLOCK_TYPE_P2P"
    and "portnum (ps ! p) \<noteq> 0" and "\<not> port_link_status_get (ps ! p)"
  shows "tc_complete_syfup E q p m r ps = None"
proof -
  obtain fup res where pair: "syfup_pair (portnum (ps ! q)) m r txd = (fup, res)" by fastforce
  let ?f = "fup\<lparr>pm_correction := syfup_correction (ps ! q) fup res\<rparr>"
  define ps1 where "ps1 = update_auth q ?f ps"
  define pp where "pp = do_call (Transport Transport_send TRANS_GENERAL ?f) (ps ! p)"
  have "ps1 ! p = ps ! p" "length ps1 = length ps" using assms(4) by (simp_all add: ps1_def update_auth_def)
  moreover obtain s where s: "port_dispatch (E p) pp EV_FAULT_DETECTED 0 = Some s" "p_tc_transmitted s = []"
    by (rule fault_flushes [of pp]) (use assms(5-9) in \<open>simp_all add: pp_def do_call_def portnum_def port_link_status_get_def\<close>)
  moreover have "ret (E p) pp \<le> 0" using assms(2) by (simp add: ret_def)
  ultimately have "tc_transmit E p TRANS_GENERAL ?f ps1 = Some (ps1[p := s])"
    using assms(3) by (simp add: tc_transmit_def port_fault_def pp_def [symmetric] Let_def)
  then show ?thesis
    using assms(1,3) pair s(2) \<open>length ps1 = length ps\<close>
    by (simp add: tc_complete_syfup_def ps1_def [symmetric] tc_release_def Let_def)
qed

definition tc_waiting :: "port list" where
  "tc_waiting = [tc_port 1, (tc_port 2)\<lparr>p_tc_transmitted := [\<lparr>td_msg = tc_sync, td_residence = 1000, td_ingress_port = 1\<rparr>]\<rparr>]"

theorem tc_failure_releases_twice_witness:
  "tc_complete_syfup (\<lambda>_. sample_env\<lparr>e_ret := \<lambda>_. 0\<rparr>) 0 1 tc_fup tmv_zero tc_waiting = None"
proof (rule tc_failure_releases_twice [where txd = "\<lparr>td_msg = tc_sync, td_residence = 1000, td_ingress_port = 1\<rparr>"])
  have "portnum (tc_port 1) = 1" by (simp add: portnum_def tc_port_def)
  then show "List.find (\<lambda>txd. tc_match_syfup (portnum (tc_waiting ! 0)) tc_fup txd \<noteq> TC_MISMATCH) (p_tc_transmitted (tc_waiting ! 1)) =
      Some \<lparr>td_msg = tc_sync, td_residence = 1000, td_ingress_port = 1\<rparr>"
    using match_pair(1) [OF tc_example(1), of 1 1000] by (simp add: tc_waiting_def)
qed (simp_all add: tc_waiting_def tc_port_def port_link_status_get_def portnum_def zero_config_def)

end
