(* ===== verification/Port_Invariant.thy ===== *)
theory Port_Invariant
  imports Port_Event
begin

text \<open>
  What holds of a port at all times: the records of foreign masters are sound, a port that is not
  enabled keeps no message and no record, and its state machine is one of the four. The invariant is shown for every
  operation that a boundary or ordinary clock performs on a port, and so for every reachable port.
\<close>

section \<open>Parts of the state\<close>

definition core where
  "core p = (p_foreign_masters p, p_best p, p_state p, p_state_machine p, p_syfu p, p_delay_req p, p_peer_delay_req p,
     p_peer_delay_resp p, p_peer_delay_fup p, p_tc_transmitted p, p_dispatch p)"

text \<open>The part that handlers of an enabled port keep, and that the invariant of an enabled port is about.\<close>

definition mcore where
  "mcore p = (p_foreign_masters p, p_best p, p_state p, p_state_machine p, p_dispatch p)"

lemma core_mcore: "core q = core p \<Longrightarrow> mcore q = mcore p"
  by (simp add: core_def mcore_def)

lemma core_call [simp]: "core (do_call c p) = core p"
  by (simp add: core_def do_call_def)

lemma core_only_log: "only_log p q \<Longrightarrow> core q = core p"
  by (elim only_logE) (simp add: core_def)

lemma core_only_tx: "only_tx p q \<Longrightarrow> core q = core p"
  by (elim only_txE) (simp add: core_def)

lemma core_only_cap: "only_cap p q \<Longrightarrow> core q = core p"
  by (elim only_capE) (simp add: core_def)

lemma core_io [simp]:
  "core (snd (msg_allocate e p)) = core p" "core (snd (tlv_append e p m t)) = core p" "core (snd (clock_gettime e p)) = core p"
  "core (snd (timerfd_settime e fd s ns p)) = core p" "core (snd (set_tmo_log e fd scale l p)) = core p"
  "core (snd (port_clr_tmo e fd p)) = core p" "core (snd (port_set_announce_tmo e p)) = core p"
  "core (snd (port_set_delay_tmo e p)) = core p" "core (snd (port_set_manno_tmo e p)) = core p"
  "core (snd (port_set_qualification_tmo e p)) = core p" "core (snd (port_set_sync_rx_tmo e p)) = core p"
  "core (snd (port_set_sync_tx_tmo e p)) = core p" "core (port_notify_event e p ev) = core p"
  by (auto intro!: core_only_log)

lemma core_send [simp]:
  "core (snd (snd (send_via e p m k tev))) = core p"
  "core (snd (snd (port_prepare_and_send e p m tev))) = core p"
  "core (snd (snd (peer_prepare_and_send e p m tev))) = core p"
  "core (snd (port_signaling_construct e p tpid)) = core p"
  "core (snd (append_and_send e p m t)) = core p"
  using core_only_tx core_only_cap by (blast intro: only_tx_send only_cap_signaling only_cap_append_and_send)+

lemma core_update [simp]:
  "core (p\<lparr>p_link_status := ls\<rparr>) = core p" "core (p\<lparr>p_last_fault_type := ft\<rparr>) = core p" "core (p\<lparr>p_phc_index := i\<rparr>) = core p"
  "core (p\<lparr>p_unicast_state_dirty := b\<rparr>) = core p" "core (p\<lparr>p_unicast_master_table := ut\<rparr>) = core p"
  "core (p\<lparr>p_unicast_service := us\<rparr>) = core p" "core (p\<lparr>p_logMinDelayReqInterval := l\<rparr>) = core p"
  "core (p\<lparr>p_logPdelayReqInterval := l\<rparr>) = core p" "core (p\<lparr>p_logSyncInterval := l\<rparr>) = core p" "core (p\<lparr>p_logAnnounceInterval := l\<rparr>) = core p"
  "core (p\<lparr>p_asCapable := a\<rparr>) = core p" "core (p\<lparr>p_cmlds_timer_count := n\<rparr>) = core p" "core (p\<lparr>p_cmlds_last_renewal := t\<rparr>) = core p"
  "core (p\<lparr>p_cmlds_pmc := b\<rparr>) = core p" "core (p\<lparr>p_service_stats := st\<rparr>) = core p" "core (p\<lparr>p_asymmetry := x\<rparr>) = core p"
  "core (p\<lparr>p_portAsymmetry := x\<rparr>) = core p" "core (p\<lparr>p_seq_announce := s\<rparr>) = core p" "core (p\<lparr>p_seq_sync := s\<rparr>) = core p"
  "core (p\<lparr>p_delay_response_counter := c\<rparr>) = core p" "core (p\<lparr>p_fd_rtnl := i\<rparr>) = core p"
  "core (p\<lparr>p_last_sync_recv_time := tm\<rparr>) = core p" "core (p\<lparr>p_sync_interval_exceed_count := i\<rparr>) = core p"
  "core (port_nrate_initialize p) = core p" "core (port_stats_inc_rx m p) = core p"
  by (simp_all add: core_def port_nrate_initialize_def port_stats_inc_rx_def Let_def)

section \<open>Unicast client\<close>

lemma core_masters [simp]: "core (set_master i u p) = core p" "core (set_peer u p) = core p"
  by (simp_all add: core_def set_master_def set_peer_def)

lemma core_uc_construct [simp]: "core (snd (port_signaling_uc_construct e p a tpid)) = core p"
proof -
  obtain x q where x: "port_signaling_construct e p tpid = (x, q)" by fastforce
  then have "core q = core p" using core_send(4) by (metis snd_conv)
  then show ?thesis using x by (cases x) (simp_all add: port_signaling_uc_construct_def)
qed

lemma core_attach_requests [simp]: "core (snd (attach_requests e p m rs)) = core p"
proof (induction rs arbitrary: p m)
  case (Cons r rs)
  obtain l t where r: "r = (l, t)" by fastforce
  obtain x q where x: "attach_request e p m l t (p_unicast_req_duration p) = (x, q)" by fastforce
  then have "core q = core p" using core_io(2) by (metis attach_request_def snd_conv)
  then show ?case using Cons x r by (auto split: option.split)
qed simp

text \<open>Construct a message, attach something, send: the common shape.\<close>

lemma core_sent:
  assumes "core (snd r) = core p" and "\<And>m q. core (snd (f m q)) = core q"
  shows "core (snd (case r of (None, q) \<Rightarrow> (x, q) | (Some m, q) \<Rightarrow> f m q)) = core p"
  using assms by (cases r) (auto split: option.split)

lemma core_send_requests [simp]: "core (snd (send_requests e p dst rs)) = core p"
  unfolding send_requests_def by (intro core_sent core_uc_construct core_attach_requests) (simp add: split_beta)

lemma core_client_requests [simp]:
  "core (snd (unicast_client_announce e p dst)) = core p" "core (snd (unicast_client_sydy e p dst)) = core p"
  "core (snd (unicast_client_renew e p i)) = core p" "core (snd (unicast_client_peer_renew e p)) = core p"
  by (simp_all add: unicast_client_announce_def unicast_client_sydy_def unicast_client_renew_def unicast_client_peer_renew_def
      split_beta Let_def split: option.split)

lemma core_attach_cancels [simp]: "core (snd (snd (attach_cancels e p dst m bitmask ts))) = core p"
proof (induction ts arbitrary: p dst m)
  case (Cons t ts)
  obtain x q where x: "attach_cancel e p m t = (x, q)" by fastforce
  then have "core q = core p" using core_io(2) by (metis attach_cancel_def snd_conv)
  then show ?case using Cons x by (auto split: option.split)
qed simp

lemma core_tx_cancel [simp]: "core (snd (snd (unicast_client_tx_cancel e p dst bitmask))) = core p"
proof -
  obtain x q where x: "port_signaling_uc_construct e p (um_address dst) (um_portIdentity dst) = (x, q)" by fastforce
  then have q: "core q = core p" using core_uc_construct by (metis snd_conv)
  show ?thesis
  proof (cases x)
    case (Some m)
    obtain y d r where y: "attach_cancels e q dst m bitmask [ANNOUNCE, SYNC, DELAY_RESP] = (y, d, r)" by (metis prod.exhaust)
    then have "core r = core q" using core_attach_cancels by (metis snd_conv)
    then show ?thesis
      using x q Some y by (cases y) (simp_all add: unicast_client_tx_cancel_def split_beta del: attach_cancels.simps)
  qed (use x q in \<open>simp add: unicast_client_tx_cancel_def\<close>)
qed

lemma core_client_cancel [simp]: "core (snd (unicast_client_cancel e p m flags)) = core p"
proof -
  have "core (snd (case port_signaling_uc_construct e q a tpid of (None, p) \<Rightarrow> (-1, p)
      | (Some r, p) \<Rightarrow> (case attach_ack e p r flags of (None, p) \<Rightarrow> (-1, p)
          | (Some r, p) \<Rightarrow> (case port_prepare_and_send e p r TRANS_GENERAL of (err, _, p) \<Rightarrow> (err, p))))) = core q" for q a tpid
    by (intro core_sent core_uc_construct) (simp_all add: attach_ack_def split_beta)
  then show ?thesis by (simp add: unicast_client_cancel_def Let_def split: option.split)
qed

lemma core_set_renewal [simp]:
  "core (snd (unicast_client_set_renewal e p u d)) = core p" "core (set_renewal e i d p) = core p"
proof -
  show a: "core (snd (unicast_client_set_renewal e p u d)) = core p" for u
    by (simp add: unicast_client_set_renewal_def split_beta Let_def)
  show "core (set_renewal e i d p) = core p" by (simp add: set_renewal_def split_beta a)
qed

lemma core_client_grant [simp]: "core (unicast_client_grant e p m mtype period duration) = core p"
proof -
  have "core (grant_state e q m i t per dur) = core q" for q i t per dur
    by (simp add: grant_state_def Let_def split: unicast_state.split)
  then show ?thesis by (simp add: unicast_client_grant_def split_beta Let_def split: option.split)
qed

lemma core_client_timer [simp]:
  "core (snd (unicast_client_set_tmo e p)) = core p" "core (snd (unicast_client_timer e p)) = core p"
proof -
  show t: "core (snd (unicast_client_set_tmo e p)) = core p" for p by (simp add: unicast_client_set_tmo_def split: option.split)
  have "core (snd (timer_step e r i)) = core (snd r)" for r i
    by (cases r) (simp add: timer_step_def split_beta Let_def split: unicast_state.split)
  then have "core (snd (foldl (timer_step e) r is)) = core (snd r)" for r "is" by (induction "is" arbitrary: r) auto
  then show "core (snd (unicast_client_timer e p)) = core p" by (simp add: unicast_client_timer_def split_beta t)
qed

lemma core_state_changed [simp]: "core (unicast_client_state_changed e p) = core p"
proof -
  have step: "core (state_changed_step e pid q i) = core q" for pid q i
    by (simp add: state_changed_step_def split_beta Let_def)
  have "core (foldl (state_changed_step e pid) q is) = core q" for pid q "is" by (induction "is" arbitrary: q) (auto simp: step)
  then show ?thesis by (simp add: unicast_client_state_changed_def Let_def)
qed

section \<open>Capability\<close>

lemma core_capable: "port_capable e p = Some (b, q) \<Longrightarrow> core q = core p"
  using capable_recurses_None port_capable_returns core_only_cap by (metis option.distinct(1) option.inject prod.inject)

lemma core_tx_gptp: "port_tx_gptp_capable e p = Some (r, q) \<Longrightarrow> core q = core p"
proof -
  have send: "core (snd (case port_signaling_construct e q tpid of (None, p) \<Rightarrow> (-1, p)
      | (Some m, p) \<Rightarrow> append_and_send e p m gptp_capable_tlv)) = core q" for q tpid
    by (intro core_sent) simp_all
  assume a: "port_tx_gptp_capable e p = Some (r, q)"
  show ?thesis
  proof (cases "\<not> port_is_ieee8021as p \<and> p_transportSpecific p \<noteq> TS_CMLDS")
    case True
    then show ?thesis using a by (simp add: port_tx_gptp_capable_def tx_gptp_with_def)
  next
    case False
    obtain s where s: "(if e_debug e then do { (_, p) \<leftarrow> port_capable e p; Some p } else Some p) = Some s"
      "(case port_signaling_construct e s wildcard_pid of (None, p) \<Rightarrow> (-1, p)
        | (Some m, p) \<Rightarrow> append_and_send e p m gptp_capable_tlv) = (r, q)"
      using a unfolding port_tx_gptp_capable_def tx_gptp_with_def if_not_P [OF False] by (elim bind_SomeE) simp
    have "core s = core p"
      using s(1) core_capable by (auto simp: bind_eq_Some_conv split: if_splits)
    then show ?thesis using send [of s wildcard_pid] s(2) by (metis snd_conv)
  qed
qed

lemma core_tx_interval_request: "port_tx_interval_request e p a b c = Some (r, q) \<Longrightarrow> core q = core p"
proof -
  have send: "core (snd (case port_signaling_construct e q tpid of (None, p) \<Rightarrow> (-1, p)
      | (Some m, p) \<Rightarrow> append_and_send e p m (interval_request_tlv a b c))) = core q" for q tpid
    by (intro core_sent) simp_all
  assume "port_tx_interval_request e p a b c = Some (r, q)"
  then obtain cap s where s: "port_capable e p = Some (cap, s)"
    "(if \<not> cap then (0, s) else case port_signaling_construct e s wildcard_pid of (None, p) \<Rightarrow> (-1, p)
      | (Some m, p) \<Rightarrow> append_and_send e p m (interval_request_tlv a b c)) = (r, q)"
    unfolding port_tx_interval_request_def by (auto elim!: bind_SomeE)
  show ?thesis
    using core_capable [OF s(1)] send [of s wildcard_pid] s(2) by (cases cap) (metis snd_conv, metis prod.inject)
qed

text \<open>Without debug messages the capability test returns, and so do the functions that use it.\<close>

lemma tx_gptp_no_debug: "\<not> e_debug e \<Longrightarrow> \<exists>r. port_tx_gptp_capable e p = Some r"
  by (auto simp: port_tx_gptp_capable_def tx_gptp_with_def)

section \<open>Initialization\<close>

definition idle :: "port \<Rightarrow> bool" where
  "idle p \<longleftrightarrow> core p = ([], None, p_state p, p_state_machine p, SF_EMPTY, [], None, None, None, [], p_dispatch p)"

lemma idle_core: "core q = core p \<Longrightarrow> idle q = idle p"
  by (auto simp: idle_def core_def)

lemma core_disable:
  "core (port_disable p) = ([], None, p_state p, p_state_machine p, SF_EMPTY, [], None, None, None, [], p_dispatch p)"
  by (simp add: core_def port_disable_def do_call_def tc_flush_def flush_last_sync_def flush_delay_req_def flush_peer_delay_def
      free_foreign_masters_def Let_def)

lemma idle_disable: "idle (port_disable p)"
  using core_disable [of p] by (simp add: idle_def) (simp add: core_def)

lemma core_cmlds [simp]:
  "core (snd (port_cmlds_renew e p now)) = core p" "core (snd (port_cmlds_initialize e p)) = core p"
proof -
  show r: "core (snd (port_cmlds_renew e p now)) = core p" for p now by (simp add: port_cmlds_renew_def Let_def)
  have "core (p\<lparr>p_cfg := (p_cfg p)\<lparr>c_cmlds_port := n\<rparr>\<rparr>) = core p" for n by (simp add: core_def)
  then show "core (snd (port_cmlds_initialize e p)) = core p"
    by (simp add: port_cmlds_initialize_def split_beta Let_def r)
qed

lemma core_create_timers [simp]: "core (snd (create_timers e n p)) = core p"
  by (induction n arbitrary: p) (simp_all add: Let_def)

lemma core_initialize [simp]: "core (snd (port_initialize e p)) = core p"
proof -
  have f: "core (initialize_fields e q) = core q" for q
    by (simp add: initialize_fields_def initialize_config_def core_def Let_def)
  have i: "core (q\<lparr>p_cfg := (p_cfg q)\<lparr>c_inhibit_delay_req := b\<rparr>\<rparr>) = core q" for q b by (simp add: core_def)
  have t: "core (snd (initialize_timers e q)) = core q" for q
    by (simp add: initialize_timers_def split_beta)
  have n: "core (initialize_finish e q) = core q" for q by (simp add: initialize_finish_def Let_def)
  show ?thesis by (simp add: port_initialize_def split_beta Let_def f i t n)
qed

section \<open>State changes\<close>

text \<open>What a port is configured with: the machine, and the kind of clock that it belongs to.\<close>

definition wiring where
  "wiring p = (p_state_machine p, p_dispatch p)"

definition bc_port :: "port \<Rightarrow> bool" where
  "bc_port p \<longleftrightarrow> p_state_machine p \<in> port_machines \<and> p_dispatch p \<in> {CLOCK_TYPE_ORDINARY, CLOCK_TYPE_BOUNDARY}"

lemma bc_port_wiring: "wiring q = wiring p \<Longrightarrow> bc_port q = bc_port p"
  by (simp add: wiring_def bc_port_def)

definition port_inv :: "port \<Rightarrow> bool" where
  "port_inv p \<longleftrightarrow> foreign_inv p \<and> (\<not> port_is_enabled p \<longrightarrow> idle p) \<and> bc_port p"

lemma foreign_inv_mcore: "mcore q = mcore p \<Longrightarrow> foreign_inv q = foreign_inv p"
  by (simp add: mcore_def foreign_inv_def)

lemma port_inv_core: "core q = core p \<Longrightarrow> port_inv q = port_inv p"
  using foreign_inv_mcore [OF core_mcore, of q p] by (auto simp: port_inv_def idle_def core_def port_is_enabled_def bc_port_def)

lemma port_inv_mcore: "mcore q = mcore p \<Longrightarrow> port_is_enabled p \<Longrightarrow> port_inv p \<Longrightarrow> port_inv q"
  using foreign_inv_mcore [of q p] by (auto simp: port_inv_def mcore_def port_is_enabled_def bc_port_def)

lemma idle_foreign: "idle p \<Longrightarrow> foreign_inv p"
  by (simp add: idle_def core_def foreign_inv_def)

text \<open>Initialization ends in a state of its own in each machine.\<close>

lemma machine_init:
  assumes "fsm \<in> port_machines"
  shows "fsm PS_INITIALIZING EV_FAULT_DETECTED 0 = PS_FAULTY"
    and "fsm PS_INITIALIZING EV_INIT_COMPLETE 0 \<in> {PS_LISTENING, PS_MASTER, PS_SLAVE}"
  using assms by (auto simp: port_machines_def fsm_simps)

text \<open>The port after the state has been updated, before the effects of the transition.\<close>

lemma state_update:
  assumes "port_inv p" and "port_state_update e p event mdiff = (changed, q)"
  shows "foreign_inv q \<and> wiring q = wiring p \<and>
    (if changed then p_state q \<noteq> PS_INITIALIZING else port_inv q) \<and> (changed \<longleftrightarrow> p_state q \<noteq> p_state p)"
proof -
  have m: "p_state_machine p \<in> port_machines" using assms(1) by (simp add: port_inv_def bc_port_def)
  let ?next = "p_state_machine p (p_state p) event mdiff"
  define next2 where "next2 = (if ?next = PS_FAULTY \<and> port_link_status_get p \<and> clear_fault_asap (fault_interval p (p_last_fault_type p))
    then p_state_machine p ?next EV_FAULT_CLEARED 0 else ?next)"
  define p1 where "p1 = (if port_is_enabled p then port_disable p else p)"
  define err where "err = fst (port_initialize e p1)"
  define p2 where "p2 = (if next2 = PS_INITIALIZING then snd (port_initialize e p1) else p)"
  define next3 where "next3 = (if next2 = PS_INITIALIZING
    then p_state_machine p2 next2 (if err \<noteq> 0 then EV_FAULT_DETECTED else EV_INIT_COMPLETE) 0 else next2)"
  define p3 where "p3 = (if mdiff \<noteq> 0 then p2\<lparr>p_unicast_state_dirty := True\<rparr> else p2)"
  have run: "port_state_update e p event mdiff = (if next3 \<noteq> p_state p3
      then (True, (port_notify_event e (p3\<lparr>p_state := next3\<rparr>) NOTIFY_PORT_STATE)\<lparr>p_unicast_state_dirty := True\<rparr>) else (False, p3))"
    unfolding port_state_update_def Let_def next2_def [symmetric] p1_def [symmetric] p3_def next3_def p2_def err_def
    by (cases "next2 = PS_INITIALIZING") (simp_all only: split_beta fst_conv snd_conv refl if_True if_False)
  have p1: "idle p1" "p_state p1 = p_state p" "wiring p1 = wiring p"
    using assms(1) idle_disable [of p] core_disable [of p] by (auto simp: p1_def port_inv_def core_def wiring_def)
  have "core (snd (port_initialize e p1)) = core p1" by simp
  then have i: "idle (snd (port_initialize e p1))" "p_state (snd (port_initialize e p1)) = p_state p"
      "wiring (snd (port_initialize e p1)) = wiring p"
    using p1 by (auto simp: idle_def core_def wiring_def)
  have c3: "core p3 = core p2" by (simp add: p3_def)
  have b: "bc_port p" using assms(1) by (simp add: port_inv_def)
  have p2: "port_inv p2" "p_state p2 = p_state p" "wiring p2 = wiring p"
    using i b assms(1) idle_foreign [OF i(1)] bc_port_wiring [OF i(3)] by (auto simp: p2_def port_inv_def)
  have p3: "port_inv p3" "p_state p3 = p_state p" "wiring p3 = wiring p"
    using p2 port_inv_core [OF c3] c3 by (auto simp: core_def wiring_def)
  have n3: "next3 \<noteq> PS_INITIALIZING"
    using machine_init [OF m] i(3) by (auto simp: next3_def p2_def wiring_def)
  show ?thesis
  proof (cases "next3 = p_state p3")
    case True
    then show ?thesis using run assms(2) p3 by (auto simp: port_inv_def)
  next
    case False
    let ?n = "port_notify_event e (p3\<lparr>p_state := next3\<rparr>) NOTIFY_PORT_STATE"
    have cn: "core ?n = core (p3\<lparr>p_state := next3\<rparr>)" by simp
    have q: "changed" "q = ?n\<lparr>p_unicast_state_dirty := True\<rparr>" using False run assms(2) by auto
    have "foreign_inv ?n" using p3(1) cn by (auto simp: port_inv_def foreign_inv_def core_def)
    then show ?thesis using q n3 False cn p3(2,3) by (auto simp: core_def foreign_inv_def wiring_def)
  qed
qed

lemma core_clr_tmos [simp]: "core (clr_tmos e fds p) = core p"
  by (induction fds arbitrary: p) simp_all

lemma core_sad_reset [simp]: "core (sad_reset p) = core p"
  by (simp add: sad_reset_def)

lemma core_master_timers [simp]: "core (master_timers e p) = core p"
  by (simp add: master_timers_def Let_def)

lemma mcore_flush:
  "mcore (flush_last_sync p) = mcore p" "mcore (flush_delay_req p) = mcore p" "mcore (flush_peer_delay p) = mcore p"
  by (simp_all add: mcore_def flush_last_sync_def flush_delay_req_def flush_peer_delay_def do_call_def)

lemma idle_sad_reset: "idle (sad_reset (port_disable p))"
  by (rule idle_core [THEN iffD2, OF core_sad_reset idle_disable])

text \<open>A transition leaves a sound port in the state it was given.\<close>

definition settled :: "port \<Rightarrow> port \<Rightarrow> bool" where
  "settled p q \<longleftrightarrow> port_inv q \<and> p_state q = p_state p \<and> wiring q = wiring p"

lemma settled_mcore:
  "mcore q = mcore p \<Longrightarrow> foreign_inv p \<Longrightarrow> bc_port p \<Longrightarrow> port_is_enabled p \<Longrightarrow> settled p q"
  using foreign_inv_mcore [of q p] by (simp add: settled_def port_inv_def mcore_def port_is_enabled_def wiring_def bc_port_def)

lemma settled_disabled:
  assumes "core q = core p" and "bc_port p"
  shows "settled p (sad_reset (port_disable q))"
proof -
  have "core (sad_reset (port_disable q)) = core (port_disable q)" by simp
  then have w: "p_state (sad_reset (port_disable q)) = p_state p" "wiring (sad_reset (port_disable q)) = wiring p"
    using assms(1) core_disable [of q] by (auto simp: core_def wiring_def)
  then show ?thesis
    using idle_sad_reset [of q] idle_foreign [OF idle_sad_reset, of q] assms(2) bc_port_wiring [OF w(2)]
    by (simp add: settled_def port_inv_def)
qed

lemma settled_e2e:
  assumes "foreign_inv p" and "bc_port p" and "p_state p \<noteq> PS_INITIALIZING"
  shows "settled p (port_e2e_transition e p (p_state p))"
proof (cases "port_is_enabled p")
  case True
  have m: "mcore (snd (port_set_delay_tmo e (snd (port_set_announce_tmo e (sad_reset (flush_delay_req (flush_last_sync q))))))) = mcore q" for q
    using core_mcore [of "snd (port_set_delay_tmo e (snd (port_set_announce_tmo e (sad_reset (flush_delay_req (flush_last_sync q))))))"
        "flush_delay_req (flush_last_sync q)"] mcore_flush by simp
  have c: "mcore (clr_tmos e fds p) = mcore p" for fds by (rule core_mcore) simp
  have "mcore (port_e2e_transition e p (p_state p)) = mcore p"
    using True by (cases "p_state p") (auto simp: port_e2e_transition_def Let_def m c port_is_enabled_def simp del: clr_tmos.simps intro: core_mcore)
  then show ?thesis using settled_mcore assms(1,2) True by blast
next
  case False
  then have "p_state p = PS_FAULTY \<or> p_state p = PS_DISABLED" using assms(3) by (auto simp: port_is_enabled_def)
  then show ?thesis using settled_disabled assms(2) by (auto simp: port_e2e_transition_def simp del: clr_tmos.simps)
qed

lemma settled_p2p:
  assumes "foreign_inv p" and "bc_port p" and "p_state p \<noteq> PS_INITIALIZING"
    and "port_p2p_transition e p (p_state p) = Some q"
  shows "settled p q"
proof (cases "port_is_enabled p")
  case True
  have m: "mcore (snd (port_set_announce_tmo e (sad_reset (flush_peer_delay (flush_last_sync q))))) = mcore q" for q
    using core_mcore [of "snd (port_set_announce_tmo e (sad_reset (flush_peer_delay (flush_last_sync q))))"
        "flush_peer_delay (flush_last_sync q)"] mcore_flush by simp
  have c: "mcore (clr_tmos e fds p) = mcore p" for fds by (rule core_mcore) simp
  have "mcore q = mcore p"
  proof (cases "p_state p = PS_LISTENING")
    case True
    then show ?thesis
      using assms(4)
      by (auto simp: port_p2p_transition_def Let_def simp del: clr_tmos.simps dest!: core_tx_gptp intro!: core_mcore split: if_splits)
  next
    case False
    then show ?thesis using True assms(4)
      by (cases "p_state p")
        (auto simp: port_p2p_transition_def Let_def m c port_is_enabled_def simp del: clr_tmos.simps intro: core_mcore)
  qed
  then show ?thesis using settled_mcore assms(1,2) True by blast
next
  case False
  then have "p_state p = PS_FAULTY \<or> p_state p = PS_DISABLED" using assms(3) by (auto simp: port_is_enabled_def)
  then show ?thesis using settled_disabled assms(2,4) by (auto simp: port_p2p_transition_def Let_def simp del: clr_tmos.simps)
qed

lemma settled_transition:
  assumes "foreign_inv p" and "bc_port p" and "p_state p \<noteq> PS_INITIALIZING"
    and "bc_transition e p = Some q"
  shows "settled p q"
  using assms settled_e2e [OF assms(1-3)] settled_p2p [OF assms(1-3)] by (auto simp: bc_transition_def split: if_splits)

lemma transition_no_debug: "\<not> e_debug e \<Longrightarrow> \<exists>q. bc_transition e p = Some q"
proof -
  assume "\<not> e_debug e"
  then have "\<exists>q r. port_tx_gptp_capable e s = Some (r, q)" for s using tx_gptp_no_debug [of e s] by auto
  then have "port_p2p_transition e p (p_state p) \<noteq> None"
    by (cases "p_state p") (auto simp: port_p2p_transition_def Let_def simp del: clr_tmos.simps)
  then show ?thesis by (auto simp: bc_transition_def)
qed

section \<open>Dispatch\<close>

text \<open>The first part of a dispatch: the state update and, if the state has changed, the transition.\<close>

definition state_step :: "env \<Rightarrow> port \<Rightarrow> fsm_event \<Rightarrow> int \<Rightarrow> (bool \<times> port) option" where
  "state_step e p event mdiff = (case port_state_update e p event mdiff of (changed, p) \<Rightarrow>
     if changed then map_option (Pair True) (bc_transition e p) else Some (False, p))"

lemma state_step_inv:
  assumes "port_inv p" and "state_step e p event mdiff = Some (changed, q)"
  shows "port_inv q" and "changed \<longleftrightarrow> p_state q \<noteq> p_state p"
proof -
  obtain c p1 where u: "port_state_update e p event mdiff = (c, p1)" by fastforce
  note su = state_update [OF assms(1) u]
  have m: "bc_port p1" using assms(1) su bc_port_wiring [of p1 p] by (simp add: port_inv_def)
  have "if c then changed \<and> settled p1 q else q = p1 \<and> \<not> changed"
    using su m assms(2) u settled_transition [of p1 e q] by (auto simp: state_step_def split: if_splits)
  then have q: "c = changed" "port_inv q" "p_state q = p_state p1"
    using su by (auto simp: settled_def split: if_splits)
  then show "port_inv q" "changed \<longleftrightarrow> p_state q \<noteq> p_state p"
    using su by auto
qed

lemma state_step_no_debug: "\<not> e_debug e \<Longrightarrow> \<exists>r. state_step e p event mdiff = Some r"
  using transition_no_debug [of e] by (auto simp: state_step_def split: prod.split)

text \<open>The second part: a JBOD port that has become uncalibrated switches the hardware clock, and dispatches a fault when that
  fails.\<close>

lemma dispatch_step:
  "bc_dispatch e p event mdiff = Option.bind (state_step e p event mdiff) (\<lambda>(changed, q).
     if changed \<and> p_jbod q \<and> p_state q = PS_UNCALIBRATED \<and> p_phc_index q \<ge> 0
     then let q = do_call (Clock_switch_phc (p_phc_index q)) q
          in if ret e q \<noteq> 0 then bc_dispatch e (q\<lparr>p_last_fault_type := FT_SWITCH_PHC\<rparr>) EV_FAULT_DETECTED 0
             else Some (do_call (Clock_sync_interval (p_log_sync_interval q)) q)
     else Some q)"
  by (subst bc_dispatch.simps) (auto simp: state_step_def split_beta Let_def bind_map_option comp_def)

text \<open>That fault does not make the port uncalibrated again, so the switch is tried once.\<close>

lemma dispatch_fault:
  assumes "port_inv p" and "p_state p = PS_UNCALIBRATED"
  shows "bc_dispatch e p EV_FAULT_DETECTED 0 = map_option snd (state_step e p EV_FAULT_DETECTED 0)"
proof (cases "state_step e p EV_FAULT_DETECTED 0")
  case None
  then show ?thesis by (simp add: dispatch_step [of e p])
next
  case (Some r)
  obtain changed q where r: "r = (changed, q)" by fastforce
  have "\<not> (changed \<and> p_state q = PS_UNCALIBRATED)"
    using state_step_inv(2) [OF assms(1)] Some r assms(2) by metis
  then show ?thesis using Some r by (auto simp: dispatch_step [of e p])
qed

lemma dispatch_cases:
  assumes "port_inv p"
  shows "bc_dispatch e p event mdiff = None \<and> e_debug e \<or> (\<exists>q. bc_dispatch e p event mdiff = Some q \<and> port_inv q)"
proof (cases "state_step e p event mdiff")
  case None
  then show ?thesis using state_step_no_debug [of e p event mdiff] by (auto simp: dispatch_step [of e p])
next
  case (Some r)
  obtain changed q where r: "r = (changed, q)" by fastforce
  have q: "port_inv q" using state_step_inv(1) [OF assms] Some r by blast
  let ?c = "do_call (Clock_switch_phc (p_phc_index q)) q"
  let ?f = "?c\<lparr>p_last_fault_type := FT_SWITCH_PHC\<rparr>" and ?i = "do_call (Clock_sync_interval (p_log_sync_interval ?c)) ?c"
  have c: "core ?f = core q" "core ?i = core q" by simp_all
  have i: "port_inv ?f" "port_inv ?i" using q port_inv_core [OF c(1)] port_inv_core [OF c(2)] by simp_all
  show ?thesis
  proof (cases "changed \<and> p_jbod q \<and> p_state q = PS_UNCALIBRATED \<and> p_phc_index q \<ge> 0 \<and> ret e ?c \<noteq> 0")
    case True
    then have "p_state ?f = PS_UNCALIBRATED" using c(1) by (simp add: core_def)
    then have f: "bc_dispatch e ?f EV_FAULT_DETECTED 0 = map_option snd (state_step e ?f EV_FAULT_DETECTED 0)"
      using dispatch_fault [OF i(1)] by simp
    have d: "bc_dispatch e p event mdiff = bc_dispatch e ?f EV_FAULT_DETECTED 0"
      using True Some r by (subst dispatch_step) (simp add: Let_def)
    show ?thesis
      using f d state_step_no_debug [of e ?f EV_FAULT_DETECTED 0] state_step_inv(1) [OF i(1), of e EV_FAULT_DETECTED 0]
      by (cases "state_step e ?f EV_FAULT_DETECTED 0") auto
  next
    case False
    then show ?thesis using Some r q i by (subst (1 2) dispatch_step) (auto simp: Let_def)
  qed
qed

end
