(* ===== verification/Port_Reach.thy ===== *)
theory Port_Reach
  imports Port_Invariant
begin

text \<open>
  The invariant of a port under the events of a boundary or ordinary clock. Handlers that do not change the state of the port
  keep the part \<open>mcore\<close> of it; the others end in a dispatch. From these follows the invariant of every reachable port,
  and what it excludes.
\<close>

section \<open>Handlers that keep the state\<close>

lemmas mcore_call [simp] = core_call [THEN core_mcore]
lemmas mcore_io [simp] = core_io [THEN core_mcore]
lemmas mcore_send [simp] = core_send [THEN core_mcore]
lemmas mcore_update [simp] = core_update [THEN core_mcore]
lemmas mcore_client [simp] =
  core_client_timer [THEN core_mcore] core_client_grant [THEN core_mcore] core_set_renewal [THEN core_mcore]
  core_client_cancel [THEN core_mcore] core_cmlds [THEN core_mcore] core_uc_construct [THEN core_mcore]
lemmas mcore_capable = core_capable [THEN core_mcore]

lemma mcore_messages [simp]:
  "mcore (p\<lparr>p_delay_req := ms\<rparr>) = mcore p" "mcore (p\<lparr>p_peer_delay_req := m\<rparr>) = mcore p"
  "mcore (p\<lparr>p_peer_delay_resp := m\<rparr>) = mcore p" "mcore (p\<lparr>p_peer_delay_fup := m\<rparr>) = mcore p"
  "mcore (p\<lparr>p_syfu := sf\<rparr>) = mcore p" "mcore (p\<lparr>p_last_syncfup := mm\<rparr>) = mcore p"
  "mcore (p\<lparr>p_seq_delayreq := s\<rparr>) = mcore p" "mcore (p\<lparr>p_pdr_missing := n\<rparr>) = mcore p"
  "mcore (p\<lparr>p_multiple_seq_pdr_count := n\<rparr>) = mcore p" "mcore (p\<lparr>p_multiple_pdr_detected := b\<rparr>) = mcore p"
  "mcore (p\<lparr>p_peer_portid_valid := b\<rparr>) = mcore p" "mcore (p\<lparr>p_peer_portid := pid\<rparr>) = mcore p"
  "mcore (p\<lparr>p_tsproc := tsp\<rparr>) = mcore p" "mcore (p\<lparr>p_peer_delay := d\<rparr>) = mcore p"
  "mcore (p\<lparr>p_peerMeanPathDelay := ti\<rparr>) = mcore p" "mcore (p\<lparr>p_nrate := nr\<rparr>) = mcore p"
  "mcore (p\<lparr>p_log_sync_interval := i\<rparr>) = mcore p" "mcore (p\<lparr>p_delayMechanism := dm\<rparr>) = mcore p"
  "mcore (count_timeout f p) = mcore p" "mcore (port_nrate_calculate p ts3 ts4) = mcore p"
  by (simp_all add: mcore_def count_timeout_def port_nrate_calculate_def Let_def)

lemma mcore_sent:
  assumes "mcore (snd r) = mcore p" and "\<And>m q. mcore (snd (f m q)) = mcore q"
  shows "mcore (snd (case r of (None, q) \<Rightarrow> (x, q) | (Some m, q) \<Rightarrow> f m q)) = mcore p"
  using assms by (cases r) (auto split: option.split)

lemma mcore_prune [simp]: "mcore (delay_req_prune e p) = mcore p"
  by (simp add: delay_req_prune_def split_beta)

lemma mcore_announce [simp]:
  "mcore (snd (path_trace_append e p m dad)) = mcore p" "mcore (snd (ieee_c37_238_append e p m)) = mcore p"
  by (auto simp: path_trace_append_def ieee_c37_238_append_def Let_def split_beta split: option.split)

lemma mcore_tx_announce: "port_tx_announce e p dst s = Some (r, q) \<Longrightarrow> mcore q = mcore p"
  by (auto simp: port_tx_announce_def Let_def split_beta elim!: bind_SomeE dest!: mcore_capable split: if_splits option.splits)

lemma mcore_send_follow_up [simp]: "mcore (snd (send_follow_up e p dst s sent fup)) = mcore p"
  by (auto simp: send_follow_up_def follow_up_info_append_def Let_def split_beta split: option.split)

lemma mcore_send_sync: "send_sync e p dst s m fup = (r, q) \<Longrightarrow> mcore q = mcore p"
  by (auto simp: send_sync_def Let_def split_beta split: if_splits dest: arg_cong [where f = "\<lambda>r. mcore (snd r)"])

lemma mcore_tx_sync: "port_tx_sync e p dst s = Some (r, q) \<Longrightarrow> mcore q = mcore p"
  by (auto simp: port_tx_sync_def split_beta elim!: bind_SomeE dest!: mcore_capable mcore_send_sync split: if_splits option.splits)

lemma mcore_pdelay_request: "port_pdelay_request e p = Some (r, q) \<Longrightarrow> mcore q = mcore p"
  by (auto simp: port_pdelay_request_def Let_def split_beta elim!: bind_SomeE dest!: mcore_capable split: if_splits option.splits)

lemma mcore_delay_request: "port_delay_request e p = Some (r, q) \<Longrightarrow> mcore q = mcore p"
  by (auto simp: port_delay_request_def Let_def split_beta elim!: bind_SomeE dest!: mcore_pdelay_request
      split: if_splits option.splits)

lemma mcore_nsm [simp]: "mcore (snd (net_sync_resp_append e p m)) = mcore p"
  by (simp add: net_sync_resp_append_def Let_def split_beta)

lemma mcore_delay_req: "process_delay_req e p m = Some (r, q) \<Longrightarrow> mcore q = mcore p"
  by (auto simp: process_delay_req_def Let_def split_beta dest!: mcore_tx_sync split: if_splits option.splits)

lemma mcore_delay_resp [simp]: "mcore (process_delay_resp e p m) = mcore p"
  by (auto simp: process_delay_resp_def Let_def split: option.split)

lemma mcore_check_peer: "check_peer e p m = Some q \<Longrightarrow> mcore q = mcore p"
  by (auto simp: check_peer_def dest!: mcore_capable split: if_splits)

lemma mcore_peer_delay [simp]: "mcore (port_peer_delay e p req) = mcore p"
  by (auto simp: port_peer_delay_def Let_def split: option.split prod.split)

lemma mcore_pdelay:
  "process_pdelay_req e p m = Some (r, q) \<Longrightarrow> mcore q = mcore p"
  "process_pdelay_resp e p m = Some (r, q) \<Longrightarrow> mcore q = mcore p"
  "mcore (process_pdelay_resp_fup e p m) = mcore p"
  by (auto simp: process_pdelay_req_def process_pdelay_resp_def process_pdelay_resp_fup_def Let_def split_beta elim!: bind_SomeE
      dest!: mcore_check_peer split: if_splits option.splits)

section \<open>Signaling and the common mean link delay service\<close>

lemma mcore_service_reply [simp]:
  "mcore (snd (unicast_service_grant e p m req)) = mcore p" "mcore (snd (unicast_service_deny e p m req)) = mcore p"
proof -
  have "mcore (snd (unicast_service_reply e p m req d)) = mcore p" for d
    unfolding unicast_service_reply_def Let_def attach_grant_def attach_interface_rate_def
    by (intro mcore_sent mcore_client) (auto simp: split_beta split: option.split)
  then show "mcore (snd (unicast_service_grant e p m req)) = mcore p" "mcore (snd (unicast_service_deny e p m req)) = mcore p"
    by (simp_all add: unicast_service_grant_def unicast_service_deny_def)
qed

lemma mcore_signaling_tlv [simp]: "mcore (snd (signaling_tlv e m r t)) = mcore (snd r)"
  by (cases r) (auto simp: signaling_tlv_def process_interval_request_def process_interface_rate_def Let_def split_beta
      split: ptlv.split option.split service_result.split)

lemma mcore_signaling [simp]: "mcore (snd (process_signaling e p m)) = mcore p"
proof -
  have "mcore (snd (foldl (signaling_tlv e m) r ts)) = mcore (snd r)" for r ts by (induction ts arbitrary: r) simp_all
  then show ?thesis by (simp add: process_signaling_def)
qed

lemma mcore_cmlds [simp]: "mcore (snd (process_cmlds e p)) = mcore p" "mcore (snd (port_cmlds_timeout e p)) = mcore p"
  by (auto simp: process_cmlds_def port_cmlds_timeout_def Let_def split_beta
      split: option.split list.split ptlv.split mgmt_data.split)

section \<open>Foreign masters\<close>

text \<open>The operations on foreign masters keep the state of the port.\<close>

lemma stance_only_log: "only_log p q \<Longrightarrow> p_state q = p_state p \<and> wiring q = wiring p"
  by (elim only_logE) (simp add: wiring_def)

lemma stance_fc_set [simp]: "p_state (fc_set k fc p) = p_state p" "wiring (fc_set k fc p) = wiring p"
  by (simp_all add: fc_set_def wiring_def)

lemma stance_core: "core q = core p \<Longrightarrow> p_state q = p_state p \<and> wiring q = wiring p"
  by (simp add: core_def wiring_def)

lemma stance_frame:
  "p_state (do_call c p) = p_state p" "wiring (do_call c p) = wiring p"
  "p_state (snd (clock_gettime e p)) = p_state p" "wiring (snd (clock_gettime e p)) = wiring p"
  "p_state (snd (port_set_announce_tmo e p)) = p_state p" "wiring (snd (port_set_announce_tmo e p)) = wiring p"
  "wiring (p\<lparr>p_foreign_masters := fcs\<rparr>) = wiring p" "wiring (p\<lparr>p_best := b\<rparr>) = wiring p"
  using stance_core [OF core_call, of c p] stance_core [OF core_io(3), of e p] stance_core [OF core_io(7), of e p]
  by (simp_all add: wiring_def)

lemma stance_add: "p_state (snd (add_foreign_master e p m)) = p_state p \<and> wiring (snd (add_foreign_master e p m)) = wiring p"
proof -
  have "snd (port_unicast_message_valid e p m) = p" by (metis unicast_message_valid_unchanged snd_conv)
  then show ?thesis by (auto simp: add_foreign_master_def split_beta Let_def stance_frame split: option.split)
qed

lemma stance_update: "p_state (snd (update_current_master e p m)) = p_state p \<and> wiring (snd (update_current_master e p m)) = wiring p"
  by (auto simp: update_current_master_def split_beta Let_def stance_frame stance_add split: option.split)

lemma inv_stance:
  "port_inv p \<Longrightarrow> port_is_enabled p \<Longrightarrow> foreign_inv q \<Longrightarrow> p_state q = p_state p \<Longrightarrow> wiring q = wiring p \<Longrightarrow> port_inv q"
  using bc_port_wiring [of q p] by (simp add: port_inv_def port_is_enabled_def)

lemma inv_process_announce:
  assumes "port_inv p" and "port_is_enabled p"
  shows "port_inv (snd (process_announce e p m))"
proof (rule inv_stance [OF assms])
  show "foreign_inv (snd (process_announce e p m))" using assms by (auto simp: port_inv_def intro: foreign_inv_process_announce)
  show "p_state (snd (process_announce e p m)) = p_state p" "wiring (snd (process_announce e p m)) = wiring p"
    by (auto simp: process_announce_def stance_add stance_update split: port_state.split)
qed

text \<open>Handlers are sequences of updates of the port; what each of them keeps, the sequence keeps.\<close>

lemma mcore_let:
  "mcore x = c \<Longrightarrow> (\<And>p. mcore p = c \<Longrightarrow> mcore (snd (f p)) = c) \<Longrightarrow> mcore (snd (Let x f)) = c"
  "mcore (snd y) = c \<Longrightarrow> (\<And>r p. mcore p = c \<Longrightarrow> mcore (snd (g r p)) = c) \<Longrightarrow> mcore (snd (Let y (case_prod g))) = c"
  by (simp_all add: split_beta)

lemma inv_rx_timeout:
  assumes "port_inv p" and "port_is_enabled p"
  shows "port_inv (snd (rx_timeout e p fd))"
proof -
  define q where "q = (case p_best p of None \<Rightarrow> p | Some k \<Rightarrow> (case fc_get p k of None \<Rightarrow> p | Some fc \<Rightarrow> fc_set k (fc_clear fc) p))"
  have f: "foreign_inv p" using assms(1) by (simp add: port_inv_def)
  have "foreign_inv (fc_set k (fc_clear fc) p)" if "fc_get p k = Some fc" for k fc
    using foreign_inv_get [OF f that] foreign_inv_fc_set [OF f that, of "fc_clear fc"]
    by (simp add: fc_clear_eq fc_inv_def fc_counted_def)
  then have "foreign_inv q" using f by (auto simp: q_def split: option.split)
  moreover have s: "p_state q = p_state p" "wiring q = wiring p" by (auto simp: q_def split: option.split)
  ultimately have "port_inv q" by (rule inv_stance [OF assms])
  moreover have "port_is_enabled q" using assms(2) s by (simp add: port_is_enabled_def)
  moreover have "mcore (snd (rx_timeout e p fd)) = mcore q"
    unfolding rx_timeout_def q_def [symmetric] by (intro mcore_let) (auto simp: port_renew_transport_def Let_def)
  ultimately show ?thesis using port_inv_mcore by blast
qed

section \<open>Handlers that dispatch\<close>

lemma inv_dispatch:
  assumes "port_inv p" and "port_dispatch e p event mdiff = Some q"
  shows "port_inv q"
proof -
  have "port_dispatch e p event mdiff = bc_dispatch e p event mdiff"
    using assms(1) by (auto simp: port_dispatch_def port_inv_def bc_port_def)
  then show ?thesis using dispatch_cases [OF assms(1), of e event mdiff] assms(2) by auto
qed

text \<open>What flushes messages keeps the invariant, also of a port that is not enabled.\<close>

lemma inv_flush:
  assumes "port_inv p"
  shows "port_inv (flush_last_sync p)" "port_inv (flush_delay_req p)" "port_inv (p\<lparr>p_peer_delay_req := None\<rparr>)"
    "port_inv (release_syncfup p)"
proof -
  have i: "idle p \<Longrightarrow> idle (flush_last_sync p)" "idle p \<Longrightarrow> idle (flush_delay_req p)" "idle p \<Longrightarrow> idle (p\<lparr>p_peer_delay_req := None\<rparr>)"
      "idle p \<Longrightarrow> idle (release_syncfup p)"
    by (simp_all add: idle_def core_def flush_last_sync_def flush_delay_req_def release_syncfup_def do_call_def)
  have m: "mcore (flush_last_sync p) = mcore p" "mcore (flush_delay_req p) = mcore p" "mcore (p\<lparr>p_peer_delay_req := None\<rparr>) = mcore p"
      "mcore (release_syncfup p) = mcore p"
    by (simp_all add: mcore_flush release_syncfup_def)
  have "port_inv q" if "mcore q = mcore p" "idle p \<Longrightarrow> idle q" for q
    using assms that foreign_inv_mcore [OF that(1)] by (auto simp: port_inv_def mcore_def port_is_enabled_def bc_port_def)
  then show "port_inv (flush_last_sync p)" "port_inv (flush_delay_req p)" "port_inv (p\<lparr>p_peer_delay_req := None\<rparr>)"
      "port_inv (release_syncfup p)"
    using i m by blast+
qed

lemma inv_core: "port_inv p \<Longrightarrow> core q = core p \<Longrightarrow> port_inv q"
  using port_inv_core by blast

lemma inv_tx_interval:
  assumes "port_inv p"
    and "port_tx_interval_request e (p\<lparr>p_logPdelayReqInterval := a, p_logSyncInterval := b\<rparr>) x y z = Some (i, q)"
  shows "port_inv q"
  using inv_core [OF assms(1), of q] core_tx_interval_request [OF assms(2)] by simp

lemma inv_interval_request:
  assumes "port_inv p" and "message_interval_request e p last_state sync_interval = Some q"
  shows "port_inv q"
proof -
  have "port_inv (do_call Servo_reset p)" using inv_core [OF assms(1)] by simp
  then show ?thesis
    using assms
    by (auto simp: message_interval_request_def Let_def elim!: bind_SomeE split: if_splits dest: inv_tx_interval inv_dispatch)
qed

lemma inv_synchronize:
  assumes "port_inv p" and "port_synchronize e p seqid ts o_ts c1 c2 i = Some q"
  shows "port_inv q"
proof -
  obtain l s r where r: "synchronize_clock e p seqid ts o_ts c1 c2 = (l, s, r)" by (metis prod_cases3)
  then have "core r = core p" by (auto simp: synchronize_clock_def Let_def)
  then have inv: "port_inv r" by (rule inv_core [OF assms(1)])
  note d = inv_dispatch [OF inv] and eq = assms(2) [unfolded port_synchronize_def r Let_def prod.case]
  show ?thesis
  proof (cases s)
    case SERVO_UNLOCKED
    then show ?thesis using eq by (auto elim!: bind_SomeE split: if_splits dest!: d intro: inv_tx_interval [rotated])
  next
    case SERVO_JUMP
    then show ?thesis using eq d inv_flush by (auto elim!: bind_SomeE)
  next
    case SERVO_LOCKED
    then show ?thesis using eq d by simp
  next
    case SERVO_LOCKED_STABLE
    then show ?thesis using eq by (auto elim!: bind_SomeE dest!: inv_interval_request [OF inv] dest: inv_dispatch)
  qed
qed

lemma inv_syfufsm:
  assumes "port_inv p" and "port_is_enabled p" and "port_syfufsm e p event m = Some q"
  shows "port_inv q"
proof -
  have keep: "port_inv r" if "mcore r = mcore p" for r using port_inv_mcore that assms(1,2) by blast
  have k: "mcore (keep_syncfup m r) = mcore r" "mcore (replace_syncfup m r) = mcore r" "mcore (count_sync_mismatch r) = mcore r"
      "mcore (count_followup_mismatch r) = mcore r" for r
    by (simp_all add: keep_syncfup_def replace_syncfup_def count_sync_mismatch_def count_followup_mismatch_def)
  show ?thesis
    using assms(1,3)
    by (cases "p_syfu p"; cases event)
      (auto simp: port_syfufsm_def Let_def k dest!: inv_synchronize [OF assms(1)] intro: keep inv_flush(4))
qed

lemma inv_process_sync:
  assumes "port_inv p" and "port_is_enabled p"
  shows "process_sync e p m = Some q \<Longrightarrow> port_inv q" and "process_follow_up e p m = Some q \<Longrightarrow> port_inv q"
proof -
  define r where "r = check_sync_interval (check_sync_gap p m) m"
  have r: "mcore r = mcore p" by (simp add: r_def check_sync_interval_def check_sync_gap_def Let_def)
  then have ri: "port_inv r" "port_is_enabled r"
    using port_inv_mcore assms by (blast, simp add: mcore_def port_is_enabled_def)
  show "process_sync e p m = Some q \<Longrightarrow> port_inv q"
    unfolding process_sync_def r_def [symmetric]
    using assms(1) by (auto simp: Let_def split: if_splits intro: inv_syfufsm [OF ri] dest!: inv_synchronize [OF ri(1)] intro!: inv_flush(1))
  have c: "port_inv (do_call f p)" "port_is_enabled (do_call f p)" for f
    using inv_core [OF assms(1)] stance_core [OF core_call, of f p] assms(2) by (simp_all add: port_is_enabled_def)
  show "process_follow_up e p m = Some q \<Longrightarrow> port_inv q"
    using assms(1) by (auto simp: process_follow_up_def Let_def split: if_splits option.splits
        intro: inv_syfufsm [OF assms] inv_syfufsm [OF c])
qed

lemma inv_rtnl:
  assumes "port_inv p" and "rtnl_event e p = Some (ev, q)"
  shows "port_inv q"
proof -
  have phc: "port_inv q" if "port_inv p" "port_change_phc e p = Some q" for p q
  proof -
    have "port_inv (do_call f (p\<lparr>p_phc_index := i\<rparr>))" "port_inv ((do_call f (p\<lparr>p_phc_index := i\<rparr>))\<lparr>p_last_fault_type := t\<rparr>)"
        "port_inv (do_call g (do_call f (p\<lparr>p_phc_index := i\<rparr>)))" "port_inv (p\<lparr>p_link_status := ls\<rparr>)" for f g i t ls
      using inv_core [OF that(1)] by simp_all
    then show ?thesis using that by (auto simp: port_change_phc_def Let_def split: if_splits elim: inv_dispatch [rotated])
  qed
  have link: "port_inv q" if a: "port_inv p" and b: "port_link_status e p up label = Some q" for p q up label
  proof -
    define r where "r = (let link_state = (if up then LINK_UP else LINK_DOWN)
       in if p_link_status p AND link_state \<noteq> 0 then p\<lparr>p_link_status := link_state\<rparr>
          else let p = p\<lparr>p_link_status := link_state OR LINK_STATE_CHANGED\<rparr>
               in if up then do_call Interface_get_ifinfo p else p)"
    define s where "s = (case label of
       Some l \<Rightarrow> if e_iface_label e (p_log r) \<noteq> l
                 then (do_call (Interface_set_label l) r)\<lparr>p_link_status := p_link_status r OR TS_LABEL_CHANGED\<rparr>
                 else r
     | None \<Rightarrow> r)"
    have "core r = core p" "core s = core r" by (auto simp: r_def s_def Let_def split: option.split)
    then have "port_inv (do_call Interface_get_tsinfo s)" by (intro inv_core [OF a]) simp
    note phc [OF this]
    moreover have "map_option (\<lambda>p. if p_link_status p AND LINK_DOWN \<noteq> 0 then do_call Clock_set_sde p else p)
        (port_change_phc e (do_call Interface_get_tsinfo s)) = Some q"
      using b unfolding port_link_status_def s_def r_def Let_def by (simp only:)
    ultimately show ?thesis using inv_core by (auto split: if_splits)
  qed
  have "port_inv (do_call Rtnl_link_status p)" using inv_core [OF assms(1)] by simp
  then show ?thesis using assms(2) link by (auto simp: rtnl_event_def Let_def split: option.splits)
qed

section \<open>Events\<close>

lemma mcore_delay_response [simp]: "mcore (snd (delay_response_check p)) = mcore p"
  by (simp add: delay_response_check_def Let_def)

lemma mcore_fault_if [simp]: "mcore (snd (fault_if r)) = mcore (snd r)"
  by (simp add: fault_if_def)

lemma mcore_timeouts:
  "delay_timeout e p = Some r \<Longrightarrow> mcore (snd r) = mcore p"
  "manno_timeout e p = Some r \<Longrightarrow> mcore (snd r) = mcore p"
  "sync_tx_timeout e p = Some r \<Longrightarrow> mcore (snd r) = mcore p"
  by (auto simp: delay_timeout_def manno_timeout_def sync_tx_timeout_def Let_def elim!: bind_SomeE
      dest!: mcore_delay_request mcore_tx_announce mcore_tx_sync split: if_splits)

lemma mcore_service_timeout: "service_timeout e p = Some r \<Longrightarrow> mcore (snd r) = mcore p"
proof -
  have t: "mcore (snd r) = mcore p" if "transmit_all e err p ts = Some r" for err p ts r
    using that
    by (induction ts arbitrary: err p)
      (auto simp: transmit_def elim!: bind_SomeE dest!: mcore_tx_announce mcore_tx_sync split: transmission.splits)
  show "service_timeout e p = Some r \<Longrightarrow> mcore (snd r) = mcore p"
    by (auto simp: service_timeout_def Let_def split: prod.splits elim!: bind_SomeE dest!: t)
qed

lemma enabled_mcore: "mcore q = mcore p \<Longrightarrow> port_is_enabled q = port_is_enabled p"
  by (simp add: mcore_def port_is_enabled_def)

lemma inv_process_message:
  assumes "port_inv p" and "port_is_enabled p" and "process_message e p m = Some (ev, q)"
  shows "port_inv q"
proof -
  have keep: "port_inv r" if "mcore r = mcore p" for r using port_inv_mcore that assms(1,2) by blast
  have d: "port_inv (do_call f r)" if "port_inv r" for f r using inv_core [OF that] by simp
  show ?thesis
    using assms inv_process_announce [OF assms(1,2), of e m]
    by (auto simp: process_message_def Let_def split_beta fault_if_def split: if_splits dest: inv_process_sync [OF assms(1,2)]
        intro: keep d mcore_delay_req mcore_pdelay)
qed

lemma inv_receive_message:
  assumes "port_inv p" and "port_is_enabled p" and "receive_message e p m = Some (ev, q)"
  shows "port_inv q"
proof -
  obtain ignore r where i: "port_ignore e (port_stats_inc_rx m p) m = Some (ignore, r)"
    using assms(3) by (auto simp: receive_message_def elim!: bind_SomeE)
  then have r: "mcore r = mcore p"
    by (auto simp: port_ignore_def incapable_ignore_def elim!: bind_SomeE dest!: mcore_capable split: if_splits)
  have k: "port_inv s" "port_is_enabled s" if "mcore s = mcore r" for s
  proof -
    have "mcore s = mcore p" using that r by simp
    then show "port_inv s" "port_is_enabled s" using port_inv_mcore [OF _ assms(2,1)] enabled_mcore assms(2) by blast+
  qed
  have c: "mcore (do_call f r) = mcore r" "mcore (do_call g (do_call f r)) = mcore r" for f g by simp_all
  show ?thesis
    using assms(3) i k [OF refl] k [OF c(1)] inv_process_message [OF k [OF c(1)]] inv_process_message [OF k [OF c(2)]]
    by (auto simp: receive_message_def Let_def split: if_splits)
qed

text \<open>Only the link monitor has events for a port that is not enabled: the others are closed.\<close>

lemma inv_bc_event:
  assumes "port_inv p" and "port_is_enabled p \<or> fd = FD_RTNL" and "bc_event e p fd = Some (ev, q)"
  shows "port_inv q"
proof (cases "fd = FD_RTNL")
  case True
  then show ?thesis using inv_rtnl [OF assms(1)] assms(3) by (simp add: bc_event_def)
next
  case False
  then have en: "port_is_enabled p" using assms(2) by simp
  have keep: "port_inv r" if "mcore r = mcore p" for r using port_inv_mcore that assms(1) en by blast
  have ok: "port_inv r" "port_is_enabled r" if "mcore r = mcore p" for r using keep enabled_mcore en that by blast+
  have sock: "port_inv q" if "socket_event e p = Some (ev, q)"
  proof -
    have c: "mcore (snd (msg_allocate e p)) = mcore p" "mcore (do_call f (snd (msg_allocate e p))) = mcore p"
        "mcore (do_call g (do_call f (snd (msg_allocate e p)))) = mcore p" for f g by simp_all
    show ?thesis
      using that ok(1) [OF c(1)] ok(1) [OF c(2)] ok(1) [OF c(3)] inv_receive_message [OF ok [OF c(2)]] inv_receive_message [OF ok [OF c(3)]]
      by (auto simp: socket_event_def Let_def split_beta split: option.splits received.splits if_splits)
  qed
  show ?thesis
    using assms(3) False sock inv_rx_timeout [OF assms(1) en, of e fd]
    by (cases fd) (auto simp: bc_event_def fault_if_def intro!: keep dest!: mcore_timeouts mcore_service_timeout)
qed

section \<open>What the clock does with its ports\<close>

lemma core_manage [simp]: "core (snd (port_manage e p mid md m)) = core p"
proof -
  have c: "core (snd (port_management_reply e pid q req)) = core q" for q pid req
    using only_log_construct core_only_log by (auto simp: port_management_reply_def)
  have f: "core (snd (port_management_fill_response e q r i)) = core q" for q r i
    using only_log_fill_response core_only_log by blast
  have g: "core (snd (port_management_get_response e q mid m)) = core q" for q
    unfolding port_management_get_response_def by (intro core_sent c f) (simp add: split_beta)
  have er: "core (port_management_send_error e q mid m err) = core q" for q err
    unfolding port_management_send_error_def port_management_error_def by (intro core_sent c) (simp_all add: split_beta)
  have s: "core (snd (port_management_set e q mid md m)) = core q" for q
  proof -
    have "core (q\<lparr>p_neighborPropDelayThresh := a\<rparr>) = core q" "core (q\<lparr>p_pwr := b\<rparr>) = core q" for a b by (simp_all add: core_def)
    then show ?thesis by (auto simp: port_management_set_def Let_def split_beta g split: mgmt_data.split)
  qed
  show ?thesis by (simp add: port_manage_def Let_def split_beta g s er)
qed

lemma inv_compute_best_step:
  assumes "foreign_inv p"
  shows "foreign_inv (compute_best_step e cmp p k)"
proof (cases "\<exists>fc tmp ms. fc_get p k = Some fc \<and> fc_messages fc = tmp # ms")
  case False
  then show ?thesis using assms by (simp add: unexamined(1))
next
  case True
  then obtain tmp ms fc' q where ex: "examined e p k tmp ms fc' q" and step: "compute_best_step e cmp p k = best_outcome cmp k fc' q"
    using examine [OF assms] by metis
  then have q: "foreign_inv q" "fc_get q k = Some fc'" "fc_inv fc'" by (simp_all add: examined_def)
  have "foreign_inv (fc_set k (fc_clear fc') q)"
    using q(3) foreign_inv_fc_set [OF q(1,2), of "fc_clear fc'"] by (simp add: fc_clear_eq fc_inv_def fc_counted_def)
  moreover have "k \<in> fst ` set (p_foreign_masters q)" using q(2) by (force simp: fc_get_def dest: map_of_SomeD)
  then have "foreign_inv (q\<lparr>p_best := Some k\<rparr>)" using q(1) by (simp add: foreign_inv_def)
  ultimately show ?thesis using step q(1) by (auto simp: best_outcome_def split: option.split)
qed

lemma stance_best_step:
  "p_state (compute_best_step e cmp p k) = p_state p \<and> wiring (compute_best_step e cmp p k) = wiring p"
  by (auto simp: compute_best_step_def Let_def split_beta stance_frame split: option.split list.split)

lemma inv_compute_best:
  assumes "port_inv p"
  shows "port_inv (port_compute_best e p)"
proof -
  have "foreign_inv q \<Longrightarrow> foreign_inv (foldl (compute_best_step e cmp) q ks) \<and> p_state (foldl (compute_best_step e cmp) q ks) = p_state q \<and>
      wiring (foldl (compute_best_step e cmp) q ks) = wiring q" for cmp q ks
    by (induction ks arbitrary: q) (simp_all add: inv_compute_best_step stance_best_step)
  note fold = this [of "p\<lparr>p_best := None\<rparr>"]
  have f: "foreign_inv p" "bc_port p" using assms by (simp_all add: port_inv_def)
  then have n: "foreign_inv (p\<lparr>p_best := None\<rparr>)" by (simp add: foreign_inv_def)
  have idle: "port_compute_best e p = p\<lparr>p_best := None\<rparr>" if "idle p"
    using that by (simp add: port_compute_best_def Let_def idle_def core_def)
  have i: "idle p \<Longrightarrow> idle (p\<lparr>p_best := None\<rparr>)" by (simp add: idle_def core_def)
  have "foreign_inv (port_compute_best e p) \<and> p_state (port_compute_best e p) = p_state p \<and> wiring (port_compute_best e p) = wiring p"
    using n fold [OF n] by (simp add: port_compute_best_def Let_def stance_frame)
  then show ?thesis
    using assms idle i bc_port_wiring [of "port_compute_best e p" p] by (auto simp: port_inv_def port_is_enabled_def)
qed

section \<open>Reachable ports\<close>

text \<open>The operations of the clock on a port, in any order. A port that is not enabled has no open descriptor but the one of the
  link monitor; the clock calls \<open>port_dispatch\<close> with the events it decides on.\<close>

inductive port_step :: "env \<Rightarrow> port \<Rightarrow> port \<Rightarrow> bool" for e where
  step_event: "port_is_enabled p \<or> fd = FD_RTNL \<Longrightarrow> bc_event e p fd = Some (ev, q) \<Longrightarrow> port_step e p q"
| step_dispatch: "port_dispatch e p ev mdiff = Some q \<Longrightarrow> port_step e p q"
| step_best: "port_step e p (port_compute_best e p)"
| step_unicast: "port_step e p (port_update_unicast_state e p)"
| step_manage: "port_step e p (snd (port_manage e p mid md m))"
| step_forward: "port_step e p (snd (port_forward e p m))"

inductive port_reach :: "env \<Rightarrow> port \<Rightarrow> port \<Rightarrow> bool" for e p where
  reach_start: "port_reach e p p"
| reach_step: "port_reach e p q \<Longrightarrow> port_step e q r \<Longrightarrow> port_reach e p r"

text \<open>A port as \<open>port_open\<close> returns it.\<close>

definition fresh_port :: "port \<Rightarrow> bool" where
  "fresh_port p \<longleftrightarrow> p_state p = PS_INITIALIZING \<and> idle p \<and> bc_port p"

lemma port_inv_step: "port_step e p q \<Longrightarrow> port_inv p \<Longrightarrow> port_inv q"
proof (induction rule: port_step.induct)
  case (step_forward p m)
  have "core (snd (port_forward e p m)) = core p" by (simp add: port_forward_def Let_def port_stats_inc_tx_def core_def do_call_def)
  then show ?case using inv_core step_forward by blast
next
  case (step_unicast p)
  have "core (port_update_unicast_state e p) = core p" by (simp add: port_update_unicast_state_def)
  then show ?case using inv_core step_unicast by blast
next
  case (step_manage p mid md m)
  then show ?case using inv_core [OF _ core_manage] by blast
qed (auto intro: inv_bc_event inv_dispatch inv_compute_best)

lemma port_inv_reach: "port_reach e p q \<Longrightarrow> fresh_port p \<Longrightarrow> port_inv q"
proof (induction rule: port_reach.induct)
  case reach_start
  then show ?case using idle_foreign by (simp add: fresh_port_def port_inv_def)
qed (blast intro: port_inv_step)

section \<open>Properties\<close>

text \<open>C9. In every state that a port of a boundary or ordinary clock can reach, whatever events, messages, faults and
  management requests arrive and whatever the clock and the kernel answer: the records of foreign masters are sound; and a port
  that is not enabled (initializing, faulty or disabled) holds no foreign master, no Sync or Follow_Up, no delay request and no
  peer delay message, so that nothing from before the fault can enter a measurement after it.\<close>

theorem port_reach_invariant:
  assumes "fresh_port p" and "port_reach e p q"
  shows "foreign_inv q \<and>
    (\<not> port_is_enabled q \<longrightarrow> p_foreign_masters q = [] \<and> p_best q = None \<and> p_syfu q = SF_EMPTY \<and> p_delay_req q = [] \<and>
      p_peer_delay_req q = None \<and> p_peer_delay_resp q = None \<and> p_peer_delay_fup q = None \<and> p_tc_transmitted q = [])"
  using port_inv_reach [OF assms(2,1)] by (auto simp: port_inv_def idle_def core_def)

text \<open>C10. A dispatch on a reachable port always returns, unless debug messages are on: even when the switch of the hardware clock
  fails and a fault is dispatched from inside the dispatch, the port ends in a sound state.\<close>

theorem bc_dispatch_returns:
  assumes "fresh_port p" and "port_reach e p q" and "\<not> e_debug e"
  shows "\<exists>r. bc_dispatch e q event mdiff = Some r \<and> port_reach e p r \<and> port_inv r"
proof -
  have inv: "port_inv q" using port_inv_reach assms by blast
  then obtain r where r: "bc_dispatch e q event mdiff = Some r" "port_inv r" using dispatch_cases assms(3) by blast
  have "port_dispatch e q event mdiff = bc_dispatch e q event mdiff"
    using inv by (auto simp: port_dispatch_def port_inv_def bc_port_def)
  then have "port_step e q r" using r(1) step_dispatch by metis
  then show ?thesis using r reach_step [OF assms(2)] by blast
qed

text \<open>A fresh port of an ordinary clock.\<close>

definition sample_fresh :: port where
  "sample_fresh = sample_port\<lparr>p_state := PS_INITIALIZING\<rparr>"

lemma sample_fresh: "fresh_port sample_fresh"
  by (simp add: fresh_port_def sample_fresh_def idle_def core_def bc_port_def port_machines_def sample_defs)

theorem port_reach_invariant_witness:
  "p_foreign_masters (port_compute_best sample_env sample_fresh) = [] \<and> foreign_inv (port_compute_best sample_env sample_fresh)"
proof -
  have r: "port_reach sample_env sample_fresh (port_compute_best sample_env sample_fresh)"
    by (rule reach_step [OF reach_start step_best])
  have "\<not> port_is_enabled (port_compute_best sample_env sample_fresh)"
    by (simp add: sample_fresh_def port_compute_best_def port_is_enabled_def Let_def sample_defs)
  then show ?thesis using port_reach_invariant [OF sample_fresh r] by blast
qed

theorem bc_dispatch_returns_witness:
  "\<exists>r. bc_dispatch sample_env sample_fresh EV_INITIALIZE 0 = Some r \<and> port_reach sample_env sample_fresh r \<and> port_inv r"
  by (rule bc_dispatch_returns [OF sample_fresh reach_start]) (simp add: sample_env_def)

end
