(* ===== verification/Doubles.thy ===== *)
theory Doubles
  imports Tsproc
begin

text \<open>
  Facts on the rounding \<open>rnd64\<close> of doubles that the control loops rest on: it is odd, commutes with powers of two,
  is monotone, and leaves alone what is a double already.
\<close>

section \<open>Exponents\<close>

lemma pow2_strict_mono: "a < b \<Longrightarrow> 2 * pow2 a \<le> pow2 b"
proof -
  assume "a < b"
  then have "pow2 b = pow2 (b - a - 1) * 2 * pow2 a" by (simp add: pow2_power_int power_int_diff)
  moreover have "1 \<le> pow2 (b - a - 1)" using \<open>a < b\<close> by (simp add: pow2_def)
  ultimately show ?thesis using pow2_pos [of a] by simp
qed

lemma exponent_unique:
  assumes "pow2 k \<le> \<bar>x\<bar>" and "\<bar>x\<bar> < 2 * pow2 k"
  shows "exponent x = k"
proof -
  have "0 < \<bar>x\<bar>" using pow2_pos assms(1) by (rule less_le_trans)
  then have "x \<noteq> 0" by simp
  note b = exponent_bounds [OF this]
  show ?thesis
  proof (rule linorder_cases [of "exponent x" k])
    assume "exponent x < k"
    then show ?thesis using pow2_strict_mono [of "exponent x" k] b assms by linarith
  next
    assume "k < exponent x"
    then show ?thesis using pow2_strict_mono [of k "exponent x"] b assms by linarith
  qed
qed

lemma exponent_scale: "x \<noteq> 0 \<Longrightarrow> exponent (x * pow2 k) = exponent x + k"
proof -
  assume "x \<noteq> 0"
  note b = exponent_bounds [OF this]
  have k: "0 < pow2 k" by simp
  then have "\<bar>pow2 k\<bar> = pow2 k" by (rule abs_of_pos)
  then show ?thesis
    using mult_right_mono [OF b(1) less_imp_le [OF k]] mult_strict_right_mono [OF b(2) k]
    by (intro exponent_unique) (simp_all add: pow2_add abs_mult)
qed

section \<open>Rounding\<close>

lemma round_half_even_minus: "round_half_even (- x) = - round_half_even x"
proof (cases "x \<in> \<int>")
  case True
  then obtain i where "x = of_int i" by (elim Ints_cases)
  then show ?thesis using round_half_even_of_int [of "- i"] by simp
next
  case False
  have "\<lfloor>- x\<rfloor> = - \<lfloor>x\<rfloor> - 1" using False by (simp add: floor_minus ceiling_altdef Ints_def) (metis Ints_of_int False)
  then show ?thesis by (auto simp: round_half_even_def Let_def)
qed

lemma round_half_even_mono: "x \<le> y \<Longrightarrow> round_half_even x \<le> round_half_even y"
proof (rule ccontr)
  assume le: "x \<le> y" and "\<not> round_half_even x \<le> round_half_even y"
  then have lt: "of_int (round_half_even y) + 1 \<le> (of_int (round_half_even x) :: rat)" by linarith
  have "\<bar>of_int (round_half_even x) - x\<bar> \<le> 1 / 2" "\<bar>of_int (round_half_even y) - y\<bar> \<le> 1 / 2"
    by (rule round_half_even_error)+
  then have "x = y" using le lt by linarith
  then show False using lt by simp
qed

lemma rnd64_minus [simp]: "rnd64 (- x) = - rnd64 x"
  by (simp add: rnd64_def exponent_def Let_def round_half_even_minus)

lemma rnd64_scale: "rnd64 (x * pow2 k) = rnd64 x * pow2 k"
proof (cases "x = 0")
  case False
  have "pow2 (exponent x + k - 52) = pow2 (exponent x - 52) * pow2 k" by (simp flip: pow2_add add: algebra_simps)
  then show ?thesis using False pow2_pos [of k] by (simp add: rnd64_def exponent_scale Let_def)
qed (simp add: rnd64_def)

lemma rnd64_bounds:
  assumes "0 < x"
  shows "pow2 (exponent x) \<le> rnd64 x" and "rnd64 x \<le> 2 * pow2 (exponent x)"
proof -
  define u where "u = pow2 (exponent x - 52)"
  have u: "0 < u" by (simp add: u_def)
  have p: "pow2 (exponent x) = of_int (2 ^ 52) * u" by (simp add: u_def pow2_power_int power_int_diff)
  have b: "of_int (2 ^ 52) \<le> x / u" "x / u \<le> of_int (2 ^ 53)"
    using exponent_bounds [of x] assms u unfolding p by (simp_all add: field_simps)
  have "(2 ^ 52 :: int) \<le> round_half_even (x / u)" "round_half_even (x / u) \<le> 2 ^ 53"
    using round_half_even_mono [OF b(1)] round_half_even_mono [OF b(2)] by (simp_all only: round_half_even_of_int)
  then have "of_int (2 ^ 52) * u \<le> of_int (round_half_even (x / u)) * u" "of_int (round_half_even (x / u)) * u \<le> of_int (2 ^ 53) * u"
    using u by (simp_all only: mult_le_cancel_right of_int_le_iff) auto
  then show "pow2 (exponent x) \<le> rnd64 x" "rnd64 x \<le> 2 * pow2 (exponent x)"
    using assms p by (simp_all add: rnd64_def u_def Let_def)
qed

lemma rnd64_mono_pos:
  assumes "0 < x" and "x \<le> y"
  shows "rnd64 x \<le> rnd64 y"
proof -
  have y: "0 < y" using assms by linarith
  have "\<not> exponent y < exponent x"
    using pow2_strict_mono [of "exponent y" "exponent x"] exponent_bounds [of x] exponent_bounds [of y] assms y by auto
  then consider "exponent x < exponent y" | "exponent x = exponent y" by linarith
  then show ?thesis
  proof cases
    case 1
    then show ?thesis
      using pow2_strict_mono [OF 1] rnd64_bounds(2) [OF assms(1)] rnd64_bounds(1) [OF y] by linarith
  next
    case 2
    have "round_half_even (x / pow2 (exponent y - 52)) \<le> round_half_even (y / pow2 (exponent y - 52))"
      using assms(2) by (intro round_half_even_mono divide_right_mono) (simp_all add: less_imp_le)
    then show ?thesis using 2 assms(1) y by (simp add: rnd64_def Let_def)
  qed
qed

lemma rnd64_mono: "x \<le> y \<Longrightarrow> rnd64 x \<le> rnd64 y"
proof -
  assume le: "x \<le> y"
  consider "0 < x" | "y < 0" | "x \<le> 0" "0 \<le> y" by linarith
  then show ?thesis
  proof cases
    case 1
    then show ?thesis using le by (rule rnd64_mono_pos)
  next
    case 2
    then have "rnd64 (- y) \<le> rnd64 (- x)" using le by (intro rnd64_mono_pos) auto
    then show ?thesis by simp
  next
    case 3
    then show ?thesis using rnd64_nonneg [of "- x"] rnd64_nonneg [of y] by simp
  qed
qed

text \<open>The numbers that are doubles.\<close>

definition is_double :: "rat \<Rightarrow> bool" where
  "is_double x \<longleftrightarrow> rnd64 x = x"

lemma is_double_of_int: "\<bar>i\<bar> < 2 ^ 53 \<Longrightarrow> is_double (of_int i)"
  by (simp add: is_double_def rnd64_of_int)

lemma is_double_scaled: "\<bar>i\<bar> \<le> 2 ^ 53 \<Longrightarrow> is_double (of_int i * pow2 k)"
proof -
  assume i: "\<bar>i\<bar> \<le> 2 ^ 53"
  have "rnd64 (of_int i) = of_int i"
  proof (cases "\<bar>i\<bar> = 2 ^ 53")
    case True
    then have "(of_int i :: rat) = 1 * pow2 53 \<or> (of_int i :: rat) = - (1 * pow2 53)" by (auto simp: pow2_def abs_if split: if_splits)
    then show ?thesis using rnd64_scale [of 1 53] rnd64_of_int [of 1] by auto
  next
    case False
    then show ?thesis using i by (intro rnd64_of_int) linarith
  qed
  then show ?thesis by (simp add: is_double_def rnd64_scale)
qed

lemma is_double_rnd64 [simp]: "is_double (rnd64 x)"
proof (cases "x = 0")
  case True
  then show ?thesis by (simp add: is_double_def rnd64_def)
next
  case False
  define u where "u = pow2 (exponent x - 52)"
  have "\<bar>x\<bar> / u \<le> of_int (2 ^ 53)"
    using exponent_bounds [OF False] by (simp add: u_def field_simps pow2_power_int power_int_diff)
  then have "round_half_even (\<bar>x\<bar> / u) \<le> 2 ^ 53"
    using round_half_even_mono round_half_even_of_int by metis
  moreover have "0 \<le> round_half_even (\<bar>x\<bar> / u)"
    using round_half_even_mono [of "of_int 0" "\<bar>x\<bar> / u"] round_half_even_of_int [of 0] by (simp add: u_def less_imp_le)
  moreover have "\<bar>round_half_even (x / u)\<bar> = \<bar>round_half_even (\<bar>x\<bar> / u)\<bar>"
    using round_half_even_minus [of "x / u"] by (cases "0 \<le> x") auto
  ultimately have "\<bar>round_half_even (x / u)\<bar> \<le> 2 ^ 53" by simp
  then show ?thesis using is_double_scaled False by (simp add: rnd64_def u_def Let_def)
qed

lemma rnd64_le: "is_double y \<Longrightarrow> x \<le> y \<Longrightarrow> rnd64 x \<le> y"
  using rnd64_mono [of x y] by (simp add: is_double_def)

lemma rnd64_ge: "is_double y \<Longrightarrow> y \<le> x \<Longrightarrow> y \<le> rnd64 x"
  using rnd64_mono [of y x] by (simp add: is_double_def)

lemma is_double_minus [simp]: "is_double (- x) = is_double x"
  by (simp add: is_double_def)

end
