(* ===== verification/Servo.thy ===== *)
theory Servo
  imports Doubles Port_Types
begin

text \<open>
  The clock servos: the frame of \<open>servo.c\<close> (thresholds, the counter of good offsets, the state it reports), the PI
  controller of \<open>pi.c\<close> and the null servo of \<open>nullf.c\<close>. A \<open>double\<close> is the rational number it denotes and every
  operation on doubles is rounded (\<open>rnd64\<close>, theory \<open>Tsproc\<close>), without contraction of a product and a sum. The virtual functions of
  \<open>struct servo\<close> are the constructor of \<open>servo_impl\<close>; \<open>pow\<close> of the C library is an argument.
\<close>

section \<open>Data\<close>

record pi_servo =
  pi_offset0 :: i64
  pi_offset1 :: i64
  pi_local0 :: u64
  pi_local1 :: u64
  pi_drift :: rat
  pi_kp :: rat
  pi_ki :: rat
  pi_last_freq :: rat
  pi_count :: int
  configured_pi_kp_scale :: rat
  configured_pi_kp_exponent :: rat
  configured_pi_kp_norm_max :: rat
  configured_pi_ki_scale :: rat
  configured_pi_ki_exponent :: rat
  configured_pi_ki_norm_max :: rat

datatype servo_impl = PI_servo pi_servo | Nullf_servo

record servo =
  sv_max_frequency :: rat
  sv_step_threshold :: rat
  sv_first_step_threshold :: rat
  sv_first_update :: bool
  sv_offset_threshold :: i64
  sv_num_offset_values :: int
  sv_curr_offset_values :: int
  sv_impl :: servo_impl

text \<open>The options that the servos read.\<close>

record servo_config =
  cf_step_threshold :: rat
  cf_first_step_threshold :: rat
  cf_max_frequency :: int
  cf_servo_offset_threshold :: int
  cf_servo_num_offset_values :: int
  cf_pi_proportional_const :: rat
  cf_pi_integral_const :: rat
  cf_pi_proportional_scale :: rat
  cf_pi_proportional_exponent :: rat
  cf_pi_proportional_norm_max :: rat
  cf_pi_integral_scale :: rat
  cf_pi_integral_exponent :: rat
  cf_pi_integral_norm_max :: rat

section \<open>The PI controller\<close>

definition llabs :: "i64 \<Rightarrow> i64" where
  "llabs x = (if sint x < 0 then - x else x)"

definition dbl_i64 :: "i64 \<Rightarrow> rat" where
  "dbl_i64 x = rnd64 (of_int (sint x))"

definition dbl_u64 :: "u64 \<Rightarrow> rat" where
  "dbl_u64 x = rnd64 (of_int (uint x))"

definition exceeds :: "rat \<Rightarrow> i64 \<Rightarrow> bool" where
  "exceeds threshold offset \<longleftrightarrow> threshold \<noteq> 0 \<and> threshold < dbl_i64 (llabs offset)"

definition clamp :: "rat \<Rightarrow> rat \<Rightarrow> rat" where
  "clamp m x = (if x < - m then - m else if x > m then m else x)"

text \<open>The time to wait before the frequency is estimated. With \<open>ki = 0\<close> the quotient is infinite.\<close>

definition freq_est_interval :: "rat \<Rightarrow> rat" where
  "freq_est_interval ki = (if ki = 0 then 1000 else let i = rnd64 (rnd64 (16 / 1000) / ki) in if i > 1000 then 1000 else i)"

definition local_diff :: "u64 \<Rightarrow> u64 \<Rightarrow> rat" where
  "local_diff l0 l1 = (let d = rnd64 (dbl_u64 (l1 - l0) / 1000000000) in rnd64 (d + rnd64 (d * rnd64 (1 / 1000))))"

definition estimated_drift :: "pi_servo \<Rightarrow> rat" where
  "estimated_drift s =
    rnd64 (pi_drift s +
      rnd64 (rnd64 (rnd64 (1000000000 - pi_drift s) * dbl_i64 (pi_offset1 s - pi_offset0 s)) / dbl_u64 (pi_local1 s - pi_local0 s)))"

definition pi_sample :: "servo \<Rightarrow> pi_servo \<Rightarrow> i64 \<Rightarrow> u64 \<Rightarrow> rat \<Rightarrow> rat \<times> servo_state option \<times> pi_servo" where
  "pi_sample servo s offset local_ts weight =
    (let (ppb, state, s) =
      (if pi_count s = 0
       then (pi_last_freq s, Some SERVO_UNLOCKED, s\<lparr>pi_offset0 := offset, pi_local0 := local_ts, pi_count := 1\<rparr>)
       else if pi_count s = 1
       then let s = s\<lparr>pi_offset1 := offset, pi_local1 := local_ts\<rparr>
            in if pi_local0 s \<ge> pi_local1 s then (pi_last_freq s, Some SERVO_UNLOCKED, s\<lparr>pi_count := 0\<rparr>)
               else if local_diff (pi_local0 s) (pi_local1 s) < freq_est_interval (pi_ki s)
               then (pi_last_freq s, Some SERVO_UNLOCKED, s)
               else let drift = clamp (sv_max_frequency servo) (estimated_drift s);
                        jump = (sv_first_update servo \<and> exceeds (sv_first_step_threshold servo) offset) \<or>
                               exceeds (sv_step_threshold servo) offset
                    in (drift, Some (if jump then SERVO_JUMP else SERVO_LOCKED), s\<lparr>pi_drift := drift, pi_count := 2\<rparr>)
       else if pi_count s = 2
       then if exceeds (sv_step_threshold servo) offset then (pi_last_freq s, Some SERVO_UNLOCKED, s\<lparr>pi_count := 0\<rparr>)
            else let ki_term = rnd64 (rnd64 (pi_ki s * dbl_i64 offset) * weight);
                     ppb = rnd64 (rnd64 (rnd64 (rnd64 (pi_kp s * dbl_i64 offset) * weight) + pi_drift s) + ki_term);
                     m = sv_max_frequency servo
                 in if ppb < - m then (- m, Some SERVO_LOCKED, s)
                    else if ppb > m then (m, Some SERVO_LOCKED, s)
                    else (ppb, Some SERVO_LOCKED, s\<lparr>pi_drift := rnd64 (pi_drift s + ki_term)\<rparr>)
       else (pi_last_freq s, None, s))
     in (ppb, state, s\<lparr>pi_last_freq := ppb\<rparr>))"

definition pi_gain :: "(rat \<Rightarrow> rat \<Rightarrow> rat) \<Rightarrow> rat \<Rightarrow> rat \<Rightarrow> rat \<Rightarrow> rat \<Rightarrow> rat" where
  "pi_gain pow scale expo norm_max interval =
    (let k = rnd64 (scale * pow interval expo); m = rnd64 (norm_max / interval) in if k > m then m else k)"

definition pi_sync_interval :: "(rat \<Rightarrow> rat \<Rightarrow> rat) \<Rightarrow> pi_servo \<Rightarrow> rat \<Rightarrow> pi_servo" where
  "pi_sync_interval pow s interval =
    s\<lparr>pi_kp := pi_gain pow (configured_pi_kp_scale s) (configured_pi_kp_exponent s) (configured_pi_kp_norm_max s) interval,
      pi_ki := pi_gain pow (configured_pi_ki_scale s) (configured_pi_ki_exponent s) (configured_pi_ki_norm_max s) interval\<rparr>"

definition pi_reset :: "pi_servo \<Rightarrow> pi_servo" where
  "pi_reset s = s\<lparr>pi_count := 0\<rparr>"

definition pi_servo_create :: "servo_config \<Rightarrow> rat \<Rightarrow> bool \<Rightarrow> pi_servo" where
  "pi_servo_create cfg fadj sw_ts =
    (let s = \<lparr>pi_offset0 = 0, pi_offset1 = 0, pi_local0 = 0, pi_local1 = 0, pi_drift = fadj, pi_kp = 0, pi_ki = 0,
              pi_last_freq = fadj, pi_count = 0,
              configured_pi_kp_scale = cf_pi_proportional_scale cfg,
              configured_pi_kp_exponent = cf_pi_proportional_exponent cfg,
              configured_pi_kp_norm_max = cf_pi_proportional_norm_max cfg,
              configured_pi_ki_scale = cf_pi_integral_scale cfg,
              configured_pi_ki_exponent = cf_pi_integral_exponent cfg,
              configured_pi_ki_norm_max = cf_pi_integral_norm_max cfg\<rparr>
     in if cf_pi_proportional_const cfg \<noteq> 0 \<and> cf_pi_integral_const cfg \<noteq> 0
        then s\<lparr>configured_pi_kp_scale := cf_pi_proportional_const cfg, configured_pi_ki_scale := cf_pi_integral_const cfg,
               configured_pi_kp_exponent := 0, configured_pi_ki_exponent := 0,
               configured_pi_kp_norm_max := 1, configured_pi_ki_norm_max := 2\<rparr>
        else if configured_pi_kp_scale s = 0 \<or> configured_pi_ki_scale s = 0
        then if sw_ts then s\<lparr>configured_pi_kp_scale := rnd64 (1 / 10), configured_pi_ki_scale := rnd64 (1 / 1000)\<rparr>
             else s\<lparr>configured_pi_kp_scale := rnd64 (7 / 10), configured_pi_ki_scale := rnd64 (3 / 10)\<rparr>
        else s)"

section \<open>The null servo\<close>

definition nullf_sample :: "servo \<Rightarrow> i64 \<Rightarrow> rat \<times> servo_state option" where
  "nullf_sample servo offset =
    (let abs_offset = llabs offset
     in (0, Some (if (sv_offset_threshold servo \<noteq> 0 \<and> sint abs_offset < sint (sv_offset_threshold servo)) \<or>
                     (sv_step_threshold servo \<noteq> 0 \<and> sv_step_threshold servo \<ge> dbl_i64 abs_offset)
                  then SERVO_LOCKED
                  else if (sv_first_update servo \<and> exceeds (sv_first_step_threshold servo) offset) \<or>
                          exceeds (sv_step_threshold servo) offset
                  then SERVO_JUMP else SERVO_UNLOCKED)))"

section \<open>The frame\<close>

text \<open>The servo types modelled: the other two write samples to another program and return no frequency.\<close>

datatype servo_type = CLOCK_SERVO_PI | CLOCK_SERVO_NULLF

definition threshold_ns :: "rat \<Rightarrow> rat" where
  "threshold_ns t = (if t > 0 then rnd64 (t * 1000000000) else 0)"

definition servo_create :: "servo_config \<Rightarrow> servo_type \<Rightarrow> rat \<Rightarrow> int \<Rightarrow> bool \<Rightarrow> servo" where
  "servo_create cfg type fadj max_ppb sw_ts =
    \<lparr>sv_max_frequency = of_int (if cf_max_frequency cfg \<noteq> 0 \<and> max_ppb > cf_max_frequency cfg then cf_max_frequency cfg else max_ppb),
     sv_step_threshold = threshold_ns (cf_step_threshold cfg),
     sv_first_step_threshold = threshold_ns (cf_first_step_threshold cfg),
     sv_first_update = True,
     sv_offset_threshold = word_of_int (cf_servo_offset_threshold cfg),
     sv_num_offset_values = cf_servo_num_offset_values cfg,
     sv_curr_offset_values = cf_servo_num_offset_values cfg,
     sv_impl = (case type of CLOCK_SERVO_PI \<Rightarrow> PI_servo (pi_servo_create cfg fadj sw_ts) | CLOCK_SERVO_NULLF \<Rightarrow> Nullf_servo)\<rparr>"

definition check_offset_threshold :: "servo \<Rightarrow> i64 \<Rightarrow> bool \<times> servo" where
  "check_offset_threshold s offset =
    (if sv_offset_threshold s \<noteq> 0
     then let curr = (if sint (llabs offset) < sint (sv_offset_threshold s)
                      then (if sv_curr_offset_values s \<noteq> 0 then sv_curr_offset_values s - 1 else sv_curr_offset_values s)
                      else sv_num_offset_values s)
          in (curr = 0, s\<lparr>sv_curr_offset_values := curr\<rparr>)
     else (False, s))"

text \<open>The virtual \<open>sample\<close>. A servo that does not set the state leaves the caller's value.\<close>

definition impl_sample :: "servo \<Rightarrow> i64 \<Rightarrow> u64 \<Rightarrow> rat \<Rightarrow> servo_state \<Rightarrow> rat \<times> servo_state \<times> servo" where
  "impl_sample servo offset local_ts weight state =
    (case sv_impl servo of
       PI_servo s \<Rightarrow> (case pi_sample servo s offset local_ts weight of (r, st, s) \<Rightarrow>
                        (r, case st of Some st \<Rightarrow> st | None \<Rightarrow> state, servo\<lparr>sv_impl := PI_servo s\<rparr>))
     | Nullf_servo \<Rightarrow> (case nullf_sample servo offset of (r, st) \<Rightarrow> (r, case st of Some st \<Rightarrow> st | None \<Rightarrow> state, servo)))"

definition servo_sample :: "servo \<Rightarrow> i64 \<Rightarrow> u64 \<Rightarrow> rat \<Rightarrow> servo_state \<Rightarrow> rat \<times> servo_state \<times> servo" where
  "servo_sample servo offset local_ts weight state =
    (case impl_sample servo offset local_ts weight state of (r, state, servo) \<Rightarrow>
      (case state of
         SERVO_UNLOCKED \<Rightarrow> (r, state, servo\<lparr>sv_curr_offset_values := sv_num_offset_values servo\<rparr>)
       | SERVO_JUMP \<Rightarrow> (r, state, servo\<lparr>sv_curr_offset_values := sv_num_offset_values servo, sv_first_update := False\<rparr>)
       | SERVO_LOCKED \<Rightarrow>
           (case check_offset_threshold servo offset of (good, servo) \<Rightarrow>
              (r, if good then SERVO_LOCKED_STABLE else state, servo\<lparr>sv_first_update := False\<rparr>))
       | SERVO_LOCKED_STABLE \<Rightarrow> (r, state, servo)))"

definition servo_sync_interval :: "(rat \<Rightarrow> rat \<Rightarrow> rat) \<Rightarrow> servo \<Rightarrow> rat \<Rightarrow> servo" where
  "servo_sync_interval pow servo interval =
    (case sv_impl servo of PI_servo s \<Rightarrow> servo\<lparr>sv_impl := PI_servo (pi_sync_interval pow s interval)\<rparr> | Nullf_servo \<Rightarrow> servo)"

definition servo_reset :: "servo \<Rightarrow> servo" where
  "servo_reset servo = (case sv_impl servo of PI_servo s \<Rightarrow> servo\<lparr>sv_impl := PI_servo (pi_reset s)\<rparr> | Nullf_servo \<Rightarrow> servo)"

text \<open>Neither servo has a \<open>rate_ratio\<close> or a \<open>leap\<close> function.\<close>

definition servo_rate_ratio :: "servo \<Rightarrow> rat" where
  "servo_rate_ratio servo = 1"

definition servo_leap :: "servo \<Rightarrow> int \<Rightarrow> servo" where
  "servo_leap servo leap = servo"

definition servo_offset_threshold :: "servo \<Rightarrow> i64" where
  "servo_offset_threshold servo = sv_offset_threshold servo"

section \<open>Bounds of the PI controller\<close>

lemma rnd64_zero [simp]: "rnd64 0 = 0"
  by (simp add: rnd64_def)

lemma rnd64_nonpos: "x \<le> 0 \<Longrightarrow> rnd64 x \<le> 0"
  using rnd64_mono [of x 0] by simp

lemma clamp_bounds: "0 \<le> m \<Longrightarrow> - m \<le> clamp m x \<and> clamp m x \<le> m"
  by (auto simp: clamp_def)

lemma clamp_double: "is_double m \<Longrightarrow> is_double x \<Longrightarrow> is_double (clamp m x)"
  by (simp add: clamp_def)

text \<open>The integral term and the proportional term have the sign of the offset, and rounding is monotone. So the new drift lies between
  the old one and the frequency, and cannot leave the range while the frequency is inside: the controller does not wind up.\<close>

lemma drift_bounded:
  assumes "is_double drift" and "- m \<le> drift" and "drift \<le> m" and "0 \<le> kp" and "0 \<le> ki" and "0 \<le> w"
    and "ki_term = rnd64 (rnd64 (ki * x) * w)" and "ppb = rnd64 (rnd64 (rnd64 (rnd64 (kp * x) * w) + drift) + ki_term)"
    and "- m \<le> ppb" and "ppb \<le> m"
  shows "- m \<le> rnd64 (drift + ki_term) \<and> rnd64 (drift + ki_term) \<le> m"
proof (cases "0 \<le> x")
  case True
  have k: "0 \<le> ki_term" using True assms by (auto intro!: rnd64_nonneg mult_nonneg_nonneg)
  have "0 \<le> rnd64 (rnd64 (kp * x) * w)" using True assms by (auto intro!: rnd64_nonneg mult_nonneg_nonneg)
  then have "drift \<le> rnd64 (rnd64 (rnd64 (kp * x) * w) + drift)" by (intro rnd64_ge [OF assms(1)]) simp
  then have "rnd64 (drift + ki_term) \<le> ppb" unfolding assms(8) by (intro rnd64_mono) simp
  moreover have "drift \<le> rnd64 (drift + ki_term)" using k by (intro rnd64_ge [OF assms(1)]) simp
  ultimately show ?thesis using assms by linarith
next
  case False
  have n: "rnd64 (rnd64 (g * x) * w) \<le> 0" if "0 \<le> g" for g
    using False that assms(6) by (intro rnd64_nonpos mult_nonpos_nonneg mult_nonneg_nonpos) auto
  have k: "ki_term \<le> 0" using n assms by simp
  have "rnd64 (rnd64 (rnd64 (kp * x) * w) + drift) \<le> drift" using n [OF assms(4)] by (intro rnd64_le [OF assms(1)]) simp
  then have "ppb \<le> rnd64 (drift + ki_term)" unfolding assms(8) by (intro rnd64_mono) simp
  moreover have "rnd64 (drift + ki_term) \<le> drift" using k by (intro rnd64_le [OF assms(1)]) simp
  ultimately show ?thesis using assms by linarith
qed

text \<open>The invariant of the controller, for a maximal frequency \<open>m\<close> and the frequency \<open>f\<close> that it was created with: it is locked only with
  a drift in the range, and the last frequency is in the range if it is not still \<open>f\<close>.\<close>

definition pi_inv :: "rat \<Rightarrow> rat \<Rightarrow> pi_servo \<Rightarrow> bool" where
  "pi_inv f m s \<longleftrightarrow> (pi_count s = 2 \<longrightarrow> is_double (pi_drift s) \<and> - m \<le> pi_drift s \<and> pi_drift s \<le> m) \<and>
     (pi_last_freq s = f \<or> - m \<le> pi_last_freq s \<and> pi_last_freq s \<le> m) \<and>
     0 \<le> pi_kp s \<and> 0 \<le> pi_ki s \<and> pi_count s \<in> {0, 1, 2} \<and>
     0 \<le> configured_pi_kp_scale s \<and> 0 \<le> configured_pi_ki_scale s \<and>
     0 \<le> configured_pi_kp_norm_max s \<and> 0 \<le> configured_pi_ki_norm_max s"

lemma pi_inv_sample:
  assumes "pi_inv f (sv_max_frequency sv) s" and "0 \<le> sv_max_frequency sv" and "is_double (sv_max_frequency sv)" and "0 \<le> w"
    and "pi_sample sv s offset ts w = (r, st, s')"
  shows "pi_inv f (sv_max_frequency sv) s' \<and> (r = f \<and> st = Some SERVO_UNLOCKED \<or> - sv_max_frequency sv \<le> r \<and> r \<le> sv_max_frequency sv) \<and>
    (\<exists>x. st = Some x \<and> x \<noteq> SERVO_LOCKED_STABLE)"
proof -
  let ?m = "sv_max_frequency sv"
  have e: "is_double (clamp ?m (estimated_drift t))" for t
    using assms(3) by (intro clamp_double) (simp_all add: estimated_drift_def)
  consider "pi_count s = 0" | "pi_count s = 1" | "pi_count s = 2" using assms(1) by (auto simp: pi_inv_def)
  then show ?thesis
  proof cases
    case 1
    then show ?thesis using assms(1,5) by (auto simp: pi_sample_def pi_inv_def)
  next
    case 2
    then show ?thesis
      using assms(1,5) e clamp_bounds [OF assms(2)] by (auto simp: pi_sample_def pi_inv_def Let_def split: if_splits)
  next
    case 3
    define k where "k = rnd64 (rnd64 (pi_ki s * dbl_i64 offset) * w)"
    define p where "p = rnd64 (rnd64 (rnd64 (rnd64 (pi_kp s * dbl_i64 offset) * w) + pi_drift s) + k)"
    have "- ?m \<le> rnd64 (pi_drift s + k) \<and> rnd64 (pi_drift s + k) \<le> ?m" if "- ?m \<le> p" "p \<le> ?m"
      using 3 assms(1,4) that by (intro drift_bounded [OF _ _ _ _ _ _ k_def p_def]) (auto simp: pi_inv_def)
    then show ?thesis
      using 3 assms(1,2,5) by (auto simp: pi_sample_def pi_inv_def Let_def k_def [symmetric] p_def [symmetric] split: if_splits)
  qed
qed

lemma pi_gain_nonneg:
  assumes "0 \<le> scale" and "0 \<le> norm_max" and "0 < interval" and "\<And>x y. 0 < x \<Longrightarrow> 0 \<le> pow x y"
  shows "0 \<le> pi_gain pow scale expo norm_max interval"
  using assms by (auto simp: pi_gain_def Let_def intro!: rnd64_nonneg)

section \<open>Runs\<close>

datatype servo_op = Op_sample i64 u64 rat servo_state | Op_sync_interval rat | Op_reset

text \<open>A run gives the frequency, the state and the offset of each sample.\<close>

fun servo_run :: "(rat \<Rightarrow> rat \<Rightarrow> rat) \<Rightarrow> servo \<Rightarrow> servo_op list \<Rightarrow> (rat \<times> servo_state \<times> i64) list \<times> servo" where
  "servo_run pow sv [] = ([], sv)"
| "servo_run pow sv (Op_sample offset ts w st # ops) =
    (case servo_sample sv offset ts w st of (r, st, sv) \<Rightarrow>
       (case servo_run pow sv ops of (rs, sv) \<Rightarrow> ((r, st, offset) # rs, sv)))"
| "servo_run pow sv (Op_sync_interval i # ops) = servo_run pow (servo_sync_interval pow sv i) ops"
| "servo_run pow sv (Op_reset # ops) = servo_run pow (servo_reset sv) ops"

definition servo_inv :: "rat \<Rightarrow> servo \<Rightarrow> bool" where
  "servo_inv f sv \<longleftrightarrow> 0 \<le> sv_max_frequency sv \<and> is_double (sv_max_frequency sv) \<and>
     (case sv_impl sv of PI_servo s \<Rightarrow> pi_inv f (sv_max_frequency sv) s | Nullf_servo \<Rightarrow> True)"

definition op_ok :: "servo_op \<Rightarrow> bool" where
  "op_ok op \<longleftrightarrow> (case op of Op_sample _ _ w _ \<Rightarrow> 0 \<le> w | Op_sync_interval i \<Rightarrow> 0 < i | Op_reset \<Rightarrow> True)"

lemma impl_sample_inv:
  assumes "servo_inv f sv" and "0 \<le> w" and "impl_sample sv offset ts w st = (r, st', sv')"
  shows "servo_inv f sv' \<and> sv' = sv\<lparr>sv_impl := sv_impl sv'\<rparr> \<and>
    (r = f \<and> st' = SERVO_UNLOCKED \<or> - sv_max_frequency sv \<le> r \<and> r \<le> sv_max_frequency sv) \<and> st' \<noteq> SERVO_LOCKED_STABLE"
proof (cases "sv_impl sv")
  case (PI_servo s)
  obtain r1 st1 s1 where q: "pi_sample sv s offset ts w = (r1, st1, s1)" by (metis prod_cases3)
  show ?thesis
    using assms PI_servo q pi_inv_sample [of f sv s w offset ts r1 st1 s1] by (auto simp: impl_sample_def servo_inv_def)
next
  case Nullf_servo
  then show ?thesis using assms by (auto simp: impl_sample_def nullf_sample_def servo_inv_def Let_def split: if_splits)
qed

text \<open>What a sample keeps, and what the state it reports says about the counter of offsets.\<close>

lemma servo_sample_inv:
  assumes "servo_inv f sv" and "0 \<le> w" and "servo_sample sv offset ts w st = (r, st', sv')"
  shows "servo_inv f sv' \<and> (r = f \<and> st' = SERVO_UNLOCKED \<or> - sv_max_frequency sv \<le> r \<and> r \<le> sv_max_frequency sv) \<and> sv_max_frequency sv' = sv_max_frequency sv \<and>
    sv_offset_threshold sv' = sv_offset_threshold sv \<and> sv_num_offset_values sv' = sv_num_offset_values sv"
    and "st' = SERVO_LOCKED_STABLE \<longleftrightarrow> sv_offset_threshold sv \<noteq> 0 \<and> st' \<in> {SERVO_LOCKED, SERVO_LOCKED_STABLE} \<and> sv_curr_offset_values sv' = 0"
    and "sv_offset_threshold sv \<noteq> 0 \<Longrightarrow> sv_curr_offset_values sv' =
      (if st' \<in> {SERVO_LOCKED, SERVO_LOCKED_STABLE} \<and> sint (llabs offset) < sint (sv_offset_threshold sv)
       then (if sv_curr_offset_values sv \<noteq> 0 then sv_curr_offset_values sv - 1 else 0) else sv_num_offset_values sv)"
proof -
  obtain r1 st1 sv1 where q: "impl_sample sv offset ts w st = (r1, st1, sv1)" by (metis prod_cases3)
  note i = impl_sample_inv [OF assms(1,2) q]
  have f: "sv_max_frequency sv1 = sv_max_frequency sv" "sv_offset_threshold sv1 = sv_offset_threshold sv"
      "sv_num_offset_values sv1 = sv_num_offset_values sv" "sv_curr_offset_values sv1 = sv_curr_offset_values sv"
    using i by (metis servo.select_convs servo.simps(8) servo.update_convs(8) servo.surjective)+
  have inv: "servo_inv f (sv1\<lparr>sv_curr_offset_values := c\<rparr>)" "servo_inv f (sv1\<lparr>sv_curr_offset_values := c, sv_first_update := b\<rparr>)"
      "servo_inv f (sv1\<lparr>sv_first_update := b\<rparr>)" for b c
    using i by (auto simp: servo_inv_def split: servo_impl.splits)
  show "servo_inv f sv' \<and> (r = f \<and> st' = SERVO_UNLOCKED \<or> - sv_max_frequency sv \<le> r \<and> r \<le> sv_max_frequency sv) \<and> sv_max_frequency sv' = sv_max_frequency sv \<and>
    sv_offset_threshold sv' = sv_offset_threshold sv \<and> sv_num_offset_values sv' = sv_num_offset_values sv"
    using assms(3) q i f inv
    by (cases st1) (auto simp: servo_sample_def check_offset_threshold_def Let_def split: if_splits)
  show "st' = SERVO_LOCKED_STABLE \<longleftrightarrow> sv_offset_threshold sv \<noteq> 0 \<and> st' \<in> {SERVO_LOCKED, SERVO_LOCKED_STABLE} \<and> sv_curr_offset_values sv' = 0"
    using assms(3) q i f
    by (cases st1) (auto simp: servo_sample_def check_offset_threshold_def Let_def split: if_splits)
  show "sv_offset_threshold sv \<noteq> 0 \<Longrightarrow> sv_curr_offset_values sv' =
      (if st' \<in> {SERVO_LOCKED, SERVO_LOCKED_STABLE} \<and> sint (llabs offset) < sint (sv_offset_threshold sv)
       then (if sv_curr_offset_values sv \<noteq> 0 then sv_curr_offset_values sv - 1 else 0) else sv_num_offset_values sv)"
    using assms(3) q i f
    by (cases st1) (auto simp: servo_sample_def check_offset_threshold_def Let_def split: if_splits)
qed

definition pow_ok :: "(rat \<Rightarrow> rat \<Rightarrow> rat) \<Rightarrow> bool" where
  "pow_ok pow \<longleftrightarrow> (\<forall>x y. 0 < x \<longrightarrow> 0 \<le> pow x y)"

definition servo_frame :: "servo \<Rightarrow> rat \<times> i64 \<times> int" where
  "servo_frame sv = (sv_max_frequency sv, sv_offset_threshold sv, sv_num_offset_values sv)"

lemma servo_inv_ops:
  assumes "servo_inv f sv"
  shows "servo_inv f (servo_reset sv)" and "pow_ok pow \<Longrightarrow> 0 < i \<Longrightarrow> servo_inv f (servo_sync_interval pow sv i)"
    and "servo_frame (servo_reset sv) = servo_frame sv" and "servo_frame (servo_sync_interval pow sv i) = servo_frame sv"
    and "sv_curr_offset_values (servo_reset sv) = sv_curr_offset_values sv"
    and "sv_curr_offset_values (servo_sync_interval pow sv i) = sv_curr_offset_values sv"
  using assms pi_gain_nonneg [of _ _ i pow]
  by (auto simp: servo_inv_def servo_reset_def servo_sync_interval_def servo_frame_def pi_inv_def pi_reset_def pi_sync_interval_def
      pow_ok_def split: servo_impl.splits)

lemma servo_run_bounded:
  assumes "servo_inv f sv" and "list_all op_ok ops" and "pow_ok pow" and "servo_run pow sv ops = (rs, sv')"
  shows "servo_inv f sv' \<and> servo_frame sv' = servo_frame sv \<and> list_all (\<lambda>(r, st, _). \<bar>r\<bar> \<le> sv_max_frequency sv \<or> r = f \<and> st = SERVO_UNLOCKED) rs"
  using assms
proof (induction pow sv ops arbitrary: rs rule: servo_run.induct)
  case (2 pow sv offset ts w st ops)
  obtain r st1 sv1 where q: "servo_sample sv offset ts w st = (r, st1, sv1)" by (metis prod_cases3)
  obtain rs1 where q1: "servo_run pow sv1 ops = (rs1, sv')" "rs = (r, st1, offset) # rs1"
    using "2.prems"(4) q by (auto split: prod.splits)
  have "0 \<le> w" using "2.prems"(2) by (simp add: op_ok_def)
  note i = servo_sample_inv(1) [OF "2.prems"(1) this q]
  have f: "servo_frame sv1 = servo_frame sv" using i by (simp add: servo_frame_def)
  have "servo_inv f sv' \<and> servo_frame sv' = servo_frame sv1 \<and> list_all (\<lambda>(r, st, _). \<bar>r\<bar> \<le> sv_max_frequency sv1 \<or> r = f \<and> st = SERVO_UNLOCKED) rs1"
    using "2.IH" [OF q [symmetric] refl _ _ _ q1(1)] i "2.prems" by simp
  then show ?case using i f q1(2) by (auto simp: servo_frame_def)
next
  case (3 pow sv i ops)
  then show ?case using servo_inv_ops [OF 3(2)] by (auto simp: op_ok_def servo_frame_def)
next
  case (4 pow sv ops)
  then show ?case using servo_inv_ops [OF 4(2)] by (auto simp: servo_frame_def)
qed (simp add: servo_frame_def)

text \<open>The length of the run of good samples at the end of a history.\<close>

definition good :: "i64 \<Rightarrow> rat \<times> servo_state \<times> i64 \<Rightarrow> bool" where
  "good thr = (\<lambda>(_, st, offset). st \<in> {SERVO_LOCKED, SERVO_LOCKED_STABLE} \<and> sint (llabs offset) < sint thr)"

definition streak :: "i64 \<Rightarrow> (rat \<times> servo_state \<times> i64) list \<Rightarrow> nat" where
  "streak thr hist = length (takeWhile (good thr) (rev hist))"

lemma streak_snoc [simp]: "streak thr (h @ [x]) = (if good thr x then Suc (streak thr h) else 0)"
  by (simp add: streak_def)

definition counted :: "servo \<Rightarrow> (rat \<times> servo_state \<times> i64) list \<Rightarrow> bool" where
  "counted sv hist \<longleftrightarrow> 0 \<le> sv_num_offset_values sv \<and> (sv_offset_threshold sv \<noteq> 0 \<longrightarrow>
     sv_curr_offset_values sv = max 0 (sv_num_offset_values sv - int (streak (sv_offset_threshold sv) hist)))"

lemma counted_sample:
  assumes "servo_inv f sv" and "0 \<le> w" and "servo_sample sv offset ts w st = (r, st', sv')" and "counted sv hist"
  shows "counted sv' (hist @ [(r, st', offset)])"
  using servo_sample_inv(1) [OF assms(1-3)] servo_sample_inv(3) [OF assms(1-3)] assms(4)
  by (auto simp: counted_def good_def)

lemma counted_run:
  assumes "servo_inv f sv" and "list_all op_ok ops" and "pow_ok pow" and "servo_run pow sv ops = (rs, sv')" and "counted sv hist"
  shows "counted sv' (hist @ rs)"
  using assms
proof (induction pow sv ops arbitrary: rs hist rule: servo_run.induct)
  case (2 pow sv offset ts w st ops)
  obtain r st1 sv1 where q: "servo_sample sv offset ts w st = (r, st1, sv1)" by (metis prod_cases3)
  obtain rs1 where q1: "servo_run pow sv1 ops = (rs1, sv')" "rs = (r, st1, offset) # rs1"
    using "2.prems"(4) q by (auto split: prod.splits)
  have w: "0 \<le> w" using "2.prems"(2) by (simp add: op_ok_def)
  have "counted sv' ((hist @ [(r, st1, offset)]) @ rs1)"
    using "2.IH" [OF q [symmetric] refl _ _ _ q1(1) counted_sample [OF "2.prems"(1) w q "2.prems"(5)]]
      servo_sample_inv(1) [OF "2.prems"(1) w q] "2.prems" by simp
  then show ?case using q1(2) by simp
next
  case (3 pow sv i ops)
  then show ?case using servo_inv_ops [OF 3(2)] by (auto simp: op_ok_def servo_frame_def counted_def)
next
  case (4 pow sv ops)
  then show ?case using servo_inv_ops [OF 4(2)] by (auto simp: servo_frame_def counted_def)
qed simp

section \<open>Properties\<close>

text \<open>Options in the ranges that the table of \<open>config.c\<close> allows.\<close>

definition config_ok :: "servo_config \<Rightarrow> bool" where
  "config_ok cfg \<longleftrightarrow> 0 \<le> cf_max_frequency cfg \<and> 0 \<le> cf_servo_num_offset_values cfg \<and>
     0 \<le> cf_pi_proportional_const cfg \<and> 0 \<le> cf_pi_integral_const cfg \<and>
     0 \<le> cf_pi_proportional_scale cfg \<and> 0 \<le> cf_pi_integral_scale cfg \<and>
     0 \<le> cf_pi_proportional_norm_max cfg \<and> 0 \<le> cf_pi_integral_norm_max cfg"

lemma servo_create_inv:
  assumes "config_ok cfg" and "0 \<le> max_ppb" and "max_ppb < 2 ^ 31"
  shows "servo_inv fadj (servo_create cfg type fadj max_ppb sw_ts)"
proof -
  have m: "is_double (sv_max_frequency (servo_create cfg type fadj max_ppb sw_ts))"
    using assms(1-3) by (auto simp: servo_create_def config_ok_def intro!: is_double_of_int)
  have "pi_inv fadj m (pi_servo_create cfg fadj sw_ts)" for m
    using assms(1) by (auto simp: pi_inv_def pi_servo_create_def config_ok_def Let_def abs_le_iff intro: rnd64_nonneg)
  then show ?thesis
    using m assms by (cases type) (auto simp: servo_inv_def servo_create_def config_ok_def)
qed

text \<open>C16. The PI servo and the null servo ask for no more than the maximal frequency: whatever offsets, time stamps, weights, sync
  intervals and resets they are given in their life, and whatever frequency they were created with, every frequency they return is
  within the bound chosen at their creation, and this in spite of the roundings of their double arithmetic; only while a servo is
  unlocked it may still return exactly the frequency that it was created with.\<close>

theorem servo_frequency_bounded:
  assumes "config_ok cfg" and "0 \<le> max_ppb" and "max_ppb < 2 ^ 31" and "list_all op_ok ops" and "pow_ok pow"
  shows "list_all (\<lambda>(r, st, _). \<bar>r\<bar> \<le> sv_max_frequency (servo_create cfg type fadj max_ppb sw_ts) \<or> r = fadj \<and> st = SERVO_UNLOCKED)
    (fst (servo_run pow (servo_create cfg type fadj max_ppb sw_ts) ops))"
  using servo_run_bounded [OF servo_create_inv [OF assms(1-3)] assms(4,5) prod.collapse [symmetric]] by blast

definition sample_config :: servo_config where
  "sample_config = \<lparr>cf_step_threshold = 0, cf_first_step_threshold = 1 / 50000, cf_max_frequency = 900000000,
     cf_servo_offset_threshold = 100, cf_servo_num_offset_values = 2, cf_pi_proportional_const = 0, cf_pi_integral_const = 0,
     cf_pi_proportional_scale = 0, cf_pi_proportional_exponent = - 3 / 10, cf_pi_proportional_norm_max = 7 / 10,
     cf_pi_integral_scale = 0, cf_pi_integral_exponent = 4 / 10, cf_pi_integral_norm_max = 3 / 10\<rparr>"

theorem servo_frequency_bounded_witness:
  "list_all (\<lambda>(r, st, _). \<bar>r\<bar> \<le> 500000 \<or> r = 600000 \<and> st = SERVO_UNLOCKED) (fst (servo_run (\<lambda>_ _. 1) (servo_create sample_config CLOCK_SERVO_PI 600000 500000 False)
     [Op_sync_interval 1, Op_sample 5000 1000000000 1 SERVO_UNLOCKED, Op_sample 9000 2000000000 1 SERVO_UNLOCKED,
      Op_sample 100000000 3000000000 1 SERVO_UNLOCKED]))"
proof -
  have m: "sv_max_frequency (servo_create sample_config CLOCK_SERVO_PI 600000 500000 False) = 500000"
    by (simp add: servo_create_def sample_config_def)
  show ?thesis
    by (rule servo_frequency_bounded [of sample_config 500000 _ _ CLOCK_SERVO_PI 600000 False, unfolded m])
      (simp_all add: config_ok_def sample_config_def op_ok_def pow_ok_def)
qed

text \<open>C17. The servo reports \<open>SERVO_LOCKED_STABLE\<close> exactly when a threshold is configured, the servo is locked, and the configured number of
  samples up to this one were all locked with an offset below the threshold.\<close>

theorem servo_stable_streak:
  assumes "config_ok cfg" and "0 \<le> max_ppb" and "max_ppb < 2 ^ 31" and "is_double fadj"
    and "\<bar>fadj\<bar> \<le> sv_max_frequency (servo_create cfg type fadj max_ppb sw_ts)"
    and "list_all op_ok ops" and "pow_ok pow" and "0 \<le> w"
    and "servo_run pow (servo_create cfg type fadj max_ppb sw_ts) ops = (hist, sv)"
    and "servo_sample sv offset ts w st0 = (r, st, sv')"
  shows "st = SERVO_LOCKED_STABLE \<longleftrightarrow>
    sv_offset_threshold sv \<noteq> 0 \<and> st \<in> {SERVO_LOCKED, SERVO_LOCKED_STABLE} \<and>
    cf_servo_num_offset_values cfg \<le> int (streak (sv_offset_threshold sv) (hist @ [(r, st, offset)]))"
proof -
  let ?sv = "servo_create cfg type fadj max_ppb sw_ts"
  note i = servo_create_inv [OF assms(1-3)]
  have "counted ?sv []" using assms(1) by (simp add: counted_def servo_create_def config_ok_def streak_def)
  then have c: "counted sv hist" using counted_run [OF i assms(6,7,9)] by fastforce
  note b = servo_run_bounded [OF i assms(6,7,9)]
  have inv: "servo_inv fadj sv" and n: "sv_num_offset_values sv = cf_servo_num_offset_values cfg"
    using b by (auto simp: servo_frame_def servo_create_def)
  note s = servo_sample_inv [OF inv assms(8,10)]
  show ?thesis using s counted_sample [OF inv assms(8,10) c] n by (auto simp: counted_def)
qed

theorem servo_stable_streak_witness:
  "\<exists>sv'. servo_sample (snd (servo_run (\<lambda>_ _. 1) (servo_create sample_config CLOCK_SERVO_NULLF 0 0 False)
     [Op_sample 50 1 1 SERVO_UNLOCKED])) (- 60) 2 1 SERVO_UNLOCKED = (0, SERVO_LOCKED_STABLE, sv')"
proof -
  let ?sv = "servo_create sample_config CLOCK_SERVO_NULLF 0 0 False"
  let ?ops = "[Op_sample 50 1 1 SERVO_UNLOCKED]"
  have run: "servo_run (\<lambda>_ _. 1) ?sv ?ops = ([(0, SERVO_LOCKED, 50)], ?sv\<lparr>sv_curr_offset_values := 1, sv_first_update := False\<rparr>)"
    by (simp add: servo_sample_def impl_sample_def nullf_sample_def servo_create_def sample_config_def check_offset_threshold_def llabs_def)
  let ?sv1 = "?sv\<lparr>sv_curr_offset_values := 1, sv_first_update := False\<rparr>"
  obtain r st sv' where q: "servo_sample ?sv1 (- 60) 2 1 SERVO_UNLOCKED = (r, st, sv')" by (metis prod_cases3)
  have "impl_sample ?sv1 (- 60) 2 1 SERVO_UNLOCKED = (0, SERVO_LOCKED, ?sv1)"
    by (simp add: impl_sample_def nullf_sample_def servo_create_def sample_config_def llabs_def)
  then have st: "r = 0" "st \<in> {SERVO_LOCKED, SERVO_LOCKED_STABLE}"
    using q by (auto simp: servo_sample_def split: prod.splits if_splits)
  have thr: "sv_offset_threshold ?sv1 = 100" by (simp add: servo_create_def sample_config_def)
  have two: "streak 100 ([(0, SERVO_LOCKED, 50)] @ [(r, st, - 60)]) = 2"
    using st(2) by (simp only: streak_snoc good_def) (simp add: llabs_def streak_def good_def)
  have "st = SERVO_LOCKED_STABLE \<longleftrightarrow> sv_offset_threshold ?sv1 \<noteq> 0 \<and> st \<in> {SERVO_LOCKED, SERVO_LOCKED_STABLE} \<and>
      cf_servo_num_offset_values sample_config \<le> int (streak (sv_offset_threshold ?sv1) ([(0, SERVO_LOCKED, 50)] @ [(r, st, - 60)]))"
    by (rule servo_stable_streak [OF _ _ _ _ _ _ _ _ run q])
      (simp_all add: config_ok_def sample_config_def is_double_def op_ok_def pow_ok_def servo_create_def)
  then have "st = SERVO_LOCKED_STABLE" unfolding thr two using st(2) by (simp add: sample_config_def)
  then show ?thesis using q run st(1) by auto
qed

end
