(* ===== verification/Servo_Shm.thy ===== *)
theory Servo_Shm
  imports Main
begin

text \<open>
  The shared memory of \<open>servo.c\<close>, through which the processes of several domains tell each other the state of their servo
  (\<open>servo_state_shm\<close>), that a master has restarted (\<open>master_restart_shm\<close>) and that the servo of a slave is stable
  (\<open>slave_servo_stable_shm\<close>). The three have the same functions over structures that differ in one member.

  Processes run concurrently. A step is one access to the shared object, by one process: a system call, a store or a load. Every
  system call may fail; a process may die at any point and may be started again. The object lives on, as nothing in the
  program removes it.
\<close>

section \<open>The object\<close>

datatype shm_kind = Servo_state_shm | Master_restart_shm | Slave_servo_stable_shm

text \<open>The members of the structures; \<open>F_value\<close> is \<open>state\<close>, \<open>master_restart_detected\<close> or \<open>slave_servo_stable\<close>.\<close>

datatype shm_field = F_init_complete | F_value | F_initialized | F_domain_id | F_sync_received | F_sync_domain_id

datatype sem = Sem_unset | Sem nat | Sem_destroyed

text \<open>\<open>ob_sized\<close> tells whether the object has the size of the structure: it is created empty.\<close>

record shm_object =
  ob_sized :: bool
  ob_mem :: "shm_field \<Rightarrow> int"
  ob_sem :: sem

abbreviation "SHM_INIT_MAGIC \<equiv> 0x12345678 :: int"
abbreviation "MAX_POLLS \<equiv> 5000 :: nat"

type_synonym store = "shm_field \<times> int"

definition init_stores :: "shm_kind \<Rightarrow> store list" where
  "init_stores k = [(F_init_complete, 0), (F_initialized, 0), (F_value, 0), (F_domain_id, - 1)] @
     (if k = Slave_servo_stable_shm then [(F_sync_received, 0), (F_sync_domain_id, - 1)] else [])"

definition update_stores :: "int \<Rightarrow> int \<Rightarrow> store list" where
  "update_stores v d = [(F_value, v), (F_domain_id, d), (F_initialized, 1)]"

definition sync_stores :: "int \<Rightarrow> int \<Rightarrow> store list" where
  "sync_stores v d = [(F_sync_received, v), (F_sync_domain_id, d)]"

section \<open>Processes\<close>

text \<open>The calls of the interface, with the value and the domain that is written, or the domain that is read.\<close>

datatype shm_call = Call_update int int | Call_read int | Call_sync_update int int | Call_sync_read

datatype shm_result = Res_ok | Res_error | Res_value int int | Res_sync int

text \<open>Where a process is. \<open>Storing\<close> carries the stores to come and, for an update, its value and domain.\<close>

datatype pc =
    Open | Open_excl | Open_again | Truncate | Mmap bool
  | Memset | Stores "store list" | Seminit | Publish
  | Poll nat
  | Attached "shm_result option" | Locking shm_call
  | Storing "store list" "(int \<times> int) option" | Checking int | Load_value int | Load_sync | Posting shm_result
  | Failed | Dead | Crashed | Undefined | Detached

text \<open>The functions of the interface that use the structure.\<close>

definition servo_state_shm_update :: "int \<Rightarrow> int \<Rightarrow> shm_call" where
  "servo_state_shm_update state domain_id = Call_update state domain_id"

definition servo_state_shm_read :: "int \<Rightarrow> shm_call" where
  "servo_state_shm_read domain_id = Call_read domain_id"

definition sync_state_shm_update :: "int \<Rightarrow> int \<Rightarrow> shm_call" where
  "sync_state_shm_update sync_received_state domain_id = Call_sync_update sync_received_state domain_id"

definition sync_state_shm_read :: shm_call where
  "sync_state_shm_read = Call_sync_read"

definition master_restart_shm_update :: "int \<Rightarrow> int \<Rightarrow> shm_call" where
  "master_restart_shm_update master_restart_detected domain_id = Call_update master_restart_detected domain_id"

definition master_restart_shm_read :: "int \<Rightarrow> shm_call" where
  "master_restart_shm_read domain_id = Call_read domain_id"

definition slave_servo_stable_shm_update :: "int \<Rightarrow> int \<Rightarrow> shm_call" where
  "slave_servo_stable_shm_update slave_servo_stable domain_id = Call_update slave_servo_stable domain_id"

definition slave_servo_stable_shm_read :: "int \<Rightarrow> shm_call" where
  "slave_servo_stable_shm_read domain_id = Call_read domain_id"

text \<open>What a call does between \<open>sem_wait\<close> and \<open>sem_post\<close>.\<close>

fun enter :: "shm_call \<Rightarrow> pc" where
  "enter (Call_update v d) = Storing (update_stores v d) (Some (v, d))"
| "enter (Call_read d) = Checking d"
| "enter (Call_sync_update v d) = Storing (sync_stores v d) None"
| "enter Call_sync_read = Load_sync"

definition set_mem :: "shm_field \<Rightarrow> int \<Rightarrow> shm_object \<Rightarrow> shm_object" where
  "set_mem f v b = b\<lparr>ob_mem := (ob_mem b)(f := v)\<rparr>"

text \<open>The part of the state that a step of one process sees: where it is, the object, and the last update that was completed.\<close>

type_synonym view = "pc \<times> shm_object option \<times> (int \<times> int) option"

text \<open>\<open>shm_open\<close>, \<open>ftruncate\<close>, \<open>mmap\<close> and the initialization of \<open>servo_state_shm_create\<close>,
  \<open>master_restart_shm_create\<close> and \<open>slave_servo_stable_shm_create\<close>. To read the structure in an object that is still empty
  raises a bus error.\<close>

inductive create_step :: "shm_kind \<Rightarrow> view \<Rightarrow> view \<Rightarrow> bool" for k where
  open_existing: "create_step k (Open, Some b, l) (Mmap False, Some b, l)"
| open_missing: "create_step k (Open, None, l) (Open_excl, None, l)"
| open_error: "create_step k (Open, ob, l) (Failed, ob, l)"
| excl_created: "create_step k (Open_excl, None, l) (Truncate, Some \<lparr>ob_sized = False, ob_mem = (\<lambda>_. 0), ob_sem = Sem_unset\<rparr>, l)"
| excl_exists: "create_step k (Open_excl, Some b, l) (Open_again, Some b, l)"
| excl_error: "create_step k (Open_excl, ob, l) (Failed, ob, l)"
| again_open: "create_step k (Open_again, Some b, l) (Mmap False, Some b, l)"
| again_error: "create_step k (Open_again, ob, l) (Failed, ob, l)"
| truncate: "create_step k (Truncate, Some b, l) (Mmap True, Some (b\<lparr>ob_sized := True\<rparr>), l)"
| truncate_error: "create_step k (Truncate, ob, l) (Failed, ob, l)"
| mmap_created: "create_step k (Mmap True, ob, l) (Memset, ob, l)"
| mmap_existing: "create_step k (Mmap False, ob, l) (Poll 0, ob, l)"
| mmap_error: "create_step k (Mmap c, ob, l) (Failed, ob, l)"
| memset: "create_step k (Memset, Some b, l) (Stores (init_stores k), Some (b\<lparr>ob_mem := (\<lambda>_. 0), ob_sem := Sem_unset\<rparr>), l)"
| init_store: "create_step k (Stores ((f, v) # fs), Some b, l) (Stores fs, Some (set_mem f v b), l)"
| init_stored: "create_step k (Stores [], ob, l) (Seminit, ob, l)"
| sem_init: "create_step k (Seminit, Some b, l) (Publish, Some (b\<lparr>ob_sem := Sem 1\<rparr>), l)"
| sem_init_error: "create_step k (Seminit, ob, l) (Failed, ob, l)"
| publish: "create_step k (Publish, Some b, l) (Attached None, Some (set_mem F_init_complete SHM_INIT_MAGIC b), l)"
| poll_crash: "\<not> ob_sized b \<Longrightarrow> create_step k (Poll n, Some b, l) (Crashed, Some b, l)"
| poll_ready: "ob_sized b \<Longrightarrow> ob_mem b F_init_complete = SHM_INIT_MAGIC \<Longrightarrow> create_step k (Poll n, Some b, l) (Attached None, Some b, l)"
| poll_again: "ob_sized b \<Longrightarrow> ob_mem b F_init_complete \<noteq> SHM_INIT_MAGIC \<Longrightarrow> n < MAX_POLLS \<Longrightarrow>
    create_step k (Poll n, Some b, l) (Poll (Suc n), Some b, l)"
| poll_timeout: "ob_sized b \<Longrightarrow> ob_mem b F_init_complete \<noteq> SHM_INIT_MAGIC \<Longrightarrow> \<not> n < MAX_POLLS \<Longrightarrow>
    create_step k (Poll n, Some b, l) (Failed, Some b, l)"

definition servo_state_shm_create :: "view \<Rightarrow> view \<Rightarrow> bool" where
  "servo_state_shm_create = create_step Servo_state_shm"

definition master_restart_shm_create :: "view \<Rightarrow> view \<Rightarrow> bool" where
  "master_restart_shm_create = create_step Master_restart_shm"

definition slave_servo_stable_shm_create :: "view \<Rightarrow> view \<Rightarrow> bool" where
  "slave_servo_stable_shm_create = create_step Slave_servo_stable_shm"

text \<open>The functions that use the structure, and \<open>servo_state_shm_destroy\<close> and its like. A semaphore that is not initialized or was
  destroyed must not be used. A process whose creation failed has a null pointer, for which all of them return an error at once.\<close>

inductive use_step :: "view \<Rightarrow> view \<Rightarrow> bool" where
  call: "use_step (Attached r, ob, l) (Locking c, ob, l)"
| lock: "ob_sem b = Sem (Suc n) \<Longrightarrow> use_step (Locking c, Some b, l) (enter c, Some (b\<lparr>ob_sem := Sem n\<rparr>), l)"
| lock_error: "use_step (Locking c, ob, l) (Attached (Some Res_error), ob, l)"
| lock_undefined: "ob_sem b \<in> {Sem_unset, Sem_destroyed} \<Longrightarrow> use_step (Locking c, Some b, l) (Undefined, Some b, l)"
| store: "use_step (Storing ((f, v) # fs) w, Some b, l) (Storing fs w, Some (set_mem f v b), l)"
| stored: "use_step (Storing [] w, ob, l) (Posting Res_ok, ob, case w of Some x \<Rightarrow> Some x | None \<Rightarrow> l)"
| check_fails: "ob_mem b F_initialized = 0 \<or> ob_mem b F_domain_id \<noteq> d \<Longrightarrow>
    use_step (Checking d, Some b, l) (Posting Res_error, Some b, l)"
| check: "ob_mem b F_initialized \<noteq> 0 \<Longrightarrow> ob_mem b F_domain_id = d \<Longrightarrow> use_step (Checking d, Some b, l) (Load_value d, Some b, l)"
| load_value: "use_step (Load_value d, Some b, l) (Posting (Res_value d (ob_mem b F_value)), Some b, l)"
| load_sync: "use_step (Load_sync, Some b, l) (Posting (Res_sync (ob_mem b F_sync_received)), Some b, l)"
| post: "ob_sem b = Sem n \<Longrightarrow> use_step (Posting r, Some b, l) (Attached (Some r), Some (b\<lparr>ob_sem := Sem (Suc n)\<rparr>), l)"
| post_error: "use_step (Posting r, ob, l) (Attached (Some Res_error), ob, l)"
| post_undefined: "ob_sem b \<in> {Sem_unset, Sem_destroyed} \<Longrightarrow> use_step (Posting r, Some b, l) (Undefined, Some b, l)"
| destroy: "use_step (Attached r, Some b, l) (Detached, Some (b\<lparr>ob_sem := Sem_destroyed\<rparr>), l)"

definition stopped :: "pc \<Rightarrow> bool" where
  "stopped c \<longleftrightarrow> c \<in> {Failed, Dead, Crashed, Undefined, Detached}"

inductive process_step :: "shm_kind \<Rightarrow> view \<Rightarrow> view \<Rightarrow> bool" for k where
  creates: "create_step k v v' \<Longrightarrow> process_step k v v'"
| uses: "use_step v v' \<Longrightarrow> process_step k v v'"
| dies: "process_step k (c, ob, l) (Dead, ob, l)"
| starts: "stopped c \<Longrightarrow> process_step k (c, ob, l) (Open, ob, l)"

record shm_state =
  sh_pc :: "nat \<Rightarrow> pc"
  sh_obj :: "shm_object option"
  sh_last :: "(int \<times> int) option"

inductive shm_step :: "shm_kind \<Rightarrow> shm_state \<Rightarrow> shm_state \<Rightarrow> bool" for k where
  interleave: "process_step k (sh_pc s i, sh_obj s, sh_last s) (c, ob, l) \<Longrightarrow>
    shm_step k s \<lparr>sh_pc = (sh_pc s)(i := c), sh_obj = ob, sh_last = l\<rparr>"

inductive shm_reach :: "shm_kind \<Rightarrow> shm_state \<Rightarrow> bool" for k where
  start: "shm_reach k \<lparr>sh_pc = (\<lambda>_. Open), sh_obj = None, sh_last = None\<rparr>"
| step: "shm_reach k s \<Longrightarrow> shm_step k s s' \<Longrightarrow> shm_reach k s'"

inductive_cases process_stepE: "process_step k v v'"
inductive_cases create_stepE: "create_step k v v'"
inductive_cases use_stepE: "use_step v v'"

section \<open>Invariant\<close>

fun creating :: "pc \<Rightarrow> bool" where
  "creating Truncate = True"
| "creating (Mmap c) = c"
| "creating Memset = True"
| "creating (Stores fs) = True"
| "creating Seminit = True"
| "creating Publish = True"
| "creating _ = False"

fun holding :: "pc \<Rightarrow> bool" where
  "holding (Storing fs w) = True"
| "holding (Checking d) = True"
| "holding (Load_value d) = True"
| "holding Load_sync = True"
| "holding (Posting r) = True"
| "holding _ = False"

definition ready :: "shm_object \<Rightarrow> bool" where
  "ready b \<longleftrightarrow> ob_mem b F_init_complete = SHM_INIT_MAGIC"

text \<open>The memory holds the last update, or none.\<close>

definition holds :: "(shm_field \<Rightarrow> int) \<Rightarrow> (int \<times> int) option \<Rightarrow> bool" where
  "holds mem l \<longleftrightarrow> (case l of None \<Rightarrow> mem F_initialized = 0
     | Some (v, d) \<Rightarrow> mem F_initialized = 1 \<and> mem F_value = v \<and> mem F_domain_id = d)"

definition stores :: "store list \<Rightarrow> (shm_field \<Rightarrow> int) \<Rightarrow> shm_field \<Rightarrow> int" where
  "stores fs mem = foldl (\<lambda>mem (f, v). mem(f := v)) mem fs"

text \<open>What a process relies on, by where it is.\<close>

fun relies :: "shm_object option \<Rightarrow> (int \<times> int) option \<Rightarrow> pc \<Rightarrow> bool" where
  "relies ob l Open_again = (ob \<noteq> None)"
| "relies ob l Truncate = (\<exists>b. ob = Some b \<and> \<not> ready b)"
| "relies ob l (Mmap c) = (\<exists>b. ob = Some b \<and> (c \<longrightarrow> ob_sized b \<and> \<not> ready b))"
| "relies ob l Memset = (\<exists>b. ob = Some b \<and> ob_sized b \<and> \<not> ready b)"
| "relies ob l (Stores fs) = (\<exists>b. ob = Some b \<and> ob_sized b \<and> ob_mem b F_init_complete = 0 \<and> ob_mem b F_initialized = 0 \<and>
     (\<forall>f v. (f, v) \<in> set fs \<longrightarrow> f \<in> {F_init_complete, F_initialized} \<longrightarrow> v = 0))"
| "relies ob l Seminit = (\<exists>b. ob = Some b \<and> ob_sized b \<and> \<not> ready b \<and> ob_mem b F_initialized = 0)"
| "relies ob l Publish = (\<exists>b. ob = Some b \<and> ob_sized b \<and> \<not> ready b \<and> ob_mem b F_initialized = 0 \<and> ob_sem b = Sem 1)"
| "relies ob l (Poll n) = (ob \<noteq> None)"
| "relies ob l (Attached r) = (\<exists>b. ob = Some b \<and> ready b)"
| "relies ob l (Locking c) = (\<exists>b. ob = Some b \<and> ready b)"
| "relies ob l (Storing fs w) = (\<exists>b. ob = Some b \<and> ready b \<and> F_init_complete \<notin> fst ` set fs \<and>
     (case w of Some x \<Rightarrow> holds (stores fs (ob_mem b)) (Some x)
      | None \<Rightarrow> holds (ob_mem b) l \<and> fst ` set fs \<inter> {F_value, F_domain_id, F_initialized} = {}))"
| "relies ob l (Checking d) = (\<exists>b. ob = Some b \<and> ready b \<and> holds (ob_mem b) l)"
| "relies ob l (Load_value d) = (\<exists>b. ob = Some b \<and> ready b \<and> holds (ob_mem b) l \<and> ob_mem b F_initialized \<noteq> 0 \<and> ob_mem b F_domain_id = d)"
| "relies ob l Load_sync = (\<exists>b. ob = Some b \<and> ready b \<and> holds (ob_mem b) l)"
| "relies ob l (Posting r) = (\<exists>b. ob = Some b \<and> ready b \<and> holds (ob_mem b) l \<and> (case r of Res_value d v \<Rightarrow> l = Some (v, d) | _ \<Rightarrow> True))"
| "relies ob l _ = True"

text \<open>What holds of the object, given where the processes are.\<close>

definition object_ok :: "(nat \<Rightarrow> pc) \<Rightarrow> shm_object option \<Rightarrow> (int \<times> int) option \<Rightarrow> bool" where
  "object_ok pcs ob l \<longleftrightarrow> (case ob of None \<Rightarrow> l = None
     | Some b \<Rightarrow>
         (if ready b then ob_sized b \<and> ob_sem b \<noteq> Sem_unset \<and> (\<forall>i. \<not> creating (pcs i)) else l = None) \<and>
         (\<forall>n. ob_sem b = Sem n \<longrightarrow> n \<le> 1 \<and> (n = 1 \<longrightarrow> (\<forall>i. \<not> holding (pcs i)) \<and> (ready b \<longrightarrow> holds (ob_mem b) l))))"

definition alone :: "(pc \<Rightarrow> bool) \<Rightarrow> (nat \<Rightarrow> pc) \<Rightarrow> bool" where
  "alone P pcs \<longleftrightarrow> (\<forall>i j. P (pcs i) \<longrightarrow> P (pcs j) \<longrightarrow> i = j)"

definition shm_inv :: "shm_state \<Rightarrow> bool" where
  "shm_inv s \<longleftrightarrow> (\<forall>i. relies (sh_obj s) (sh_last s) (sh_pc s i)) \<and> object_ok (sh_pc s) (sh_obj s) (sh_last s) \<and>
     alone creating (sh_pc s) \<and> alone holding (sh_pc s)"

lemma ready_set_mem [simp]: "f \<noteq> F_init_complete \<Longrightarrow> ready (set_mem f v b) = ready b"
  by (simp add: ready_def set_mem_def)

lemma ready_update [simp]: "ready (b\<lparr>ob_sem := x\<rparr>) = ready b" "ready (b\<lparr>ob_sized := z\<rparr>) = ready b"
  by (simp_all add: ready_def)

lemma set_mem_simps [simp]:
  "ob_mem (set_mem f v b) = (ob_mem b)(f := v)" "ob_sem (set_mem f v b) = ob_sem b" "ob_sized (set_mem f v b) = ob_sized b"
  by (simp_all add: set_mem_def)

text \<open>What the steps of the others leave a process: nothing changes for it while the object is being created, and afterwards only
  the semaphore, or the memory while somebody else holds the lock.\<close>

lemma relies_unready: "\<not> ready b \<Longrightarrow> \<not> creating c \<Longrightarrow> relies (Some b) l c \<Longrightarrow> relies (Some b') l' c"
  by (cases c) auto

lemma relies_missing: "relies None l c \<Longrightarrow> relies (Some b') l' c"
  by (cases c) auto

lemma relies_sem: "ready b \<Longrightarrow> relies (Some b) l c \<Longrightarrow> relies (Some (b\<lparr>ob_sem := x\<rparr>)) l c"
  by (cases c) (auto simp: ready_def split: option.splits)

lemma relies_store:
  "ready b \<Longrightarrow> \<not> holding c \<Longrightarrow> ready b' \<Longrightarrow> relies (Some b) l c \<Longrightarrow> relies (Some b') l' c"
  by (cases c) (auto simp: ready_def)

lemma others_create:
  assumes "create_step k (c, ob, l) (c', ob', l')" and "relies ob l c" and "relies ob l d" and "\<not> (creating c \<and> creating d)"
  shows "relies ob' l' d"
  using assms(1)
proof (cases rule: create_step.cases)
  case excl_created
  then show ?thesis using relies_missing assms(3) by blast
next
  case (init_store f v fs b)
  then have "\<not> ready b" "\<not> creating d" using assms(2,4) by (auto simp: ready_def)
  then show ?thesis using relies_unready assms(3) init_store by blast
qed (use assms relies_unready in \<open>auto simp: ready_def\<close>)

lemma others_use:
  assumes "use_step (c, ob, l) (c', ob', l')" and "relies ob l c" and "relies ob l d" and "\<not> (holding c \<and> holding d)"
  shows "relies ob' l' d"
  using assms(1)
proof (cases rule: use_step.cases)
  case (lock b n x)
  then show ?thesis using relies_sem assms(2,3) by auto
next
  case (store f v fs w b)
  then show ?thesis using relies_store [of b d "set_mem f v b" l l] assms(2-4) by auto
next
  case (stored w)
  then show ?thesis using relies_store [of _ d _ l l'] assms(2-4) by auto
next
  case (post b n r)
  then show ?thesis using relies_sem assms(2,3) by auto
next
  case (destroy r b)
  then show ?thesis using relies_sem assms(2,3) by auto
qed (use assms in auto)

text \<open>What a process establishes for itself.\<close>

lemma stores_Cons [simp]: "stores ((f, v) # fs) mem = stores fs (mem(f := v))"
  by (simp add: stores_def)

lemma stores_Nil [simp]: "stores [] mem = mem"
  by (simp add: stores_def)

lemma self_create:
  assumes "create_step k (c, ob, l) (c', ob', l')" and "relies ob l c" and "object_ok pcs ob l"
  shows "relies ob' l' c'"
  using assms(1)
proof (cases rule: create_step.cases)
  case (memset b)
  then show ?thesis using assms(2) by (auto simp: init_stores_def)
next
  case (init_store f v fs b)
  then show ?thesis using assms(2) by auto
qed (use assms in \<open>auto simp: ready_def object_ok_def\<close>)

lemma self_use:
  assumes "use_step (c, ob, l) (c', ob', l')" and "relies ob l c" and "object_ok pcs ob l"
  shows "relies ob' l' c'"
  using assms(1)
proof (cases rule: use_step.cases)
  case (lock b n x)
  then have "holds (ob_mem b) l" using assms(2,3) by (auto simp: object_ok_def)
  then show ?thesis
    using lock assms(2) by (cases x) (auto simp: update_stores_def sync_stores_def holds_def split: option.splits)
next
  case (store f v fs w b)
  then show ?thesis using assms(2) by (auto simp: holds_def split: option.splits)
next
  case (stored w)
  then show ?thesis using assms(2) by (auto split: option.splits)
next
  case (load_value d b)
  then show ?thesis using assms(2) by (auto simp: holds_def split: option.splits)
qed (use assms in \<open>auto simp: ready_def\<close>)

text \<open>What a step leaves of the object.\<close>

lemma object_create:
  assumes "create_step k (pcs i, ob, l) (c', ob', l')" and "relies ob l (pcs i)" and "object_ok pcs ob l" and "alone creating pcs"
    and "\<And>j. relies ob l (pcs j)"
  shows "object_ok (pcs(i := c')) ob' l'"
  using assms(1)
proof (cases rule: create_step.cases)
  case (publish b)
  have n: "\<not> creating (pcs j)" if "j \<noteq> i" for j using assms(4) publish that by (auto simp: alone_def)
  have "\<not> holding (pcs j)" for j
    using assms(5) [of j] assms(2) publish by (cases "pcs j") auto
  then show ?thesis using publish assms(2,3) n by (auto simp: object_ok_def holds_def ready_def)
next
  case (sem_init b)
  have "\<not> holding (pcs j)" for j using assms(5) [of j] assms(2) sem_init by (cases "pcs j") auto
  then show ?thesis using sem_init assms(2,3) by (auto simp: object_ok_def ready_def)
next
  case (init_store f v fs b)
  then have "\<not> ready (set_mem f v b)" using assms(2) by (auto simp: ready_def)
  moreover have "\<not> holding (pcs j)" for j using assms(5) [of j] assms(2) init_store by (cases "pcs j") (auto simp: ready_def)
  ultimately show ?thesis using init_store assms(2,3) by (auto simp: object_ok_def ready_def)
qed (use assms in \<open>auto simp: object_ok_def ready_def split: option.splits\<close>)

lemma locked:
  assumes "object_ok pcs (Some b) l" and "holding (pcs i)"
  shows "ob_sem b \<noteq> Sem (Suc 0)"
proof
  assume "ob_sem b = Sem (Suc 0)"
  then have "\<forall>i. \<not> holding (pcs i)" using assms(1) by (simp add: object_ok_def)
  then show False using assms(2) by blast
qed

lemma object_keep:
  assumes "object_ok pcs ob l" and "holding c \<Longrightarrow> holding (pcs i)" and "\<not> creating c"
  shows "object_ok (pcs(i := c)) ob l"
proof (cases ob)
  case (Some b)
  have "\<not> holding c" if "ob_sem b = Sem (Suc 0)" using assms(1,2) that locked [of pcs b l i] Some by blast
  then show ?thesis using assms(1,3) Some by (auto simp: object_ok_def)
qed (use assms in \<open>simp add: object_ok_def\<close>)

lemma object_use:
  assumes "use_step (pcs i, ob, l) (c', ob', l')" and "relies ob l (pcs i)" and "object_ok pcs ob l" and "alone holding pcs"
  shows "object_ok (pcs(i := c')) ob' l'"
  using assms(1)
proof (cases rule: use_step.cases)
  case (lock b n x)
  then show ?thesis using assms(2,3) by (cases x) (auto simp: object_ok_def)
next
  case (store f v fs w b)
  then show ?thesis using assms(2,3) locked [of pcs b l i] by (auto simp: object_ok_def)
next
  case (stored w)
  then obtain b where "ob = Some b" "ready b" using assms(2) by auto
  then show ?thesis using stored assms(2,3) locked [of pcs b l i] by (auto simp: object_ok_def split: option.splits)
next
  case (post b n r)
  have "\<not> holding (pcs j)" if "j \<noteq> i" for j using assms(4) post that by (auto simp: alone_def)
  moreover have "n \<noteq> Suc 0" using locked [of pcs b l i] assms(3) post by simp
  then have "n = 0" using assms(3) post by (auto simp: object_ok_def)
  ultimately show ?thesis using post assms(2,3) by (auto simp: object_ok_def)
next
  case (destroy r b)
  then show ?thesis using assms(2,3) by (auto simp: object_ok_def)
qed (use assms(3) in \<open>auto intro: object_keep\<close>)

lemma not_creating_enter [simp]: "\<not> creating (enter c)"
  by (cases c) auto

lemma creating_step:
  assumes "create_step k (c, ob, l) (c', ob', l')" and "creating c'" shows "creating c \<or> ob = None"
  using assms by (cases rule: create_step.cases) auto

lemma holding_step:
  assumes "use_step (c, ob, l) (c', ob', l')" and "holding c'"
  shows "holding c \<or> (\<exists>b. ob = Some b \<and> (\<exists>n. ob_sem b = Sem (Suc n)))"
  using assms by (cases rule: use_step.cases) auto

lemma alone_upd:
  assumes "alone P pcs" and "P c \<Longrightarrow> P (pcs i) \<or> (\<forall>j. \<not> P (pcs j))"
  shows "alone P (pcs(i := c))"
  using assms by (auto simp: alone_def)

lemma idle_step:
  assumes "shm_inv s" and "c = Dead \<or> c = Open"
  shows "shm_inv \<lparr>sh_pc = (sh_pc s)(i := c), sh_obj = sh_obj s, sh_last = sh_last s\<rparr>"
proof -
  have c: "relies (sh_obj s) (sh_last s) c" "\<not> creating c" "\<not> holding c" using assms(2) by auto
  then have "object_ok ((sh_pc s)(i := c)) (sh_obj s) (sh_last s)"
    using assms(1) by (intro object_keep) (auto simp: shm_inv_def)
  then show ?thesis using assms(1) c alone_upd [of _ "sh_pc s" c i] by (auto simp: shm_inv_def)
qed

lemma shm_inv_step:
  assumes "shm_inv s" and "shm_step k s s'"
  shows "shm_inv s'"
proof -
  obtain i c ob l where st: "process_step k (sh_pc s i, sh_obj s, sh_last s) (c, ob, l)"
    and s': "s' = \<lparr>sh_pc = (sh_pc s)(i := c), sh_obj = ob, sh_last = l\<rparr>"
    using assms(2) by (auto elim: shm_step.cases)
  note inv = assms(1) [unfolded shm_inv_def]
  have r: "relies (sh_obj s) (sh_last s) (sh_pc s j)" for j using inv by blast
  have ok: "object_ok (sh_pc s) (sh_obj s) (sh_last s)" and ac: "alone creating (sh_pc s)" and ah: "alone holding (sh_pc s)"
    using inv by blast+
  from st show ?thesis
  proof (cases rule: process_step.cases)
    case creates
    have "relies ob l (sh_pc s j)" if "j \<noteq> i" for j
      using others_create [OF creates r r] ac that by (auto simp: alone_def)
    moreover have "\<not> creating (sh_pc s j)" if "sh_obj s = None" for j using r [of j] that by (cases "sh_pc s j") auto
    then have "alone creating ((sh_pc s)(i := c))" using creating_step [OF creates] by (intro alone_upd [OF ac]) blast
    moreover have "\<not> holding c" using creates by (cases rule: create_step.cases) auto
    then have "alone holding ((sh_pc s)(i := c))" by (intro alone_upd [OF ah]) blast
    ultimately show ?thesis
      using self_create [OF creates r ok] object_create [of k "sh_pc s" i, OF creates r ok ac r]
      by (auto simp: s' shm_inv_def)
  next
    case uses
    have "relies ob l (sh_pc s j)" if "j \<noteq> i" for j
      using others_use [OF uses r r] ah that by (auto simp: alone_def)
    moreover have "\<not> holding (sh_pc s j)" if "sh_obj s = Some b" "ob_sem b = Sem (Suc n)" for b n j
      using ok that by (auto simp: object_ok_def)
    then have "alone holding ((sh_pc s)(i := c))" using holding_step [OF uses] by (intro alone_upd [OF ah]) blast
    moreover have "\<not> creating c" using uses by (cases rule: use_step.cases) auto
    then have "alone creating ((sh_pc s)(i := c))" by (intro alone_upd [OF ac]) blast
    ultimately show ?thesis
      using self_use [OF uses r ok] object_use [of "sh_pc s" i, OF uses r ok ah] by (auto simp: s' shm_inv_def)
  next
    case dies
    then show ?thesis using idle_step [OF assms(1), of Dead i] by (simp add: s')
  next
    case starts
    then show ?thesis using idle_step [OF assms(1), of Open i] by (simp add: s')
  qed
qed

lemma shm_inv_reach: "shm_reach k s \<Longrightarrow> shm_inv s"
proof (induction rule: shm_reach.induct)
  case start
  then show ?case by (simp add: shm_inv_def object_ok_def alone_def)
qed (rule shm_inv_step)

section \<open>Properties\<close>

fun attached :: "pc \<Rightarrow> bool" where
  "attached (Attached r) = True"
| "attached (Locking c) = True"
| "attached c = holding c"

lemma attached_relies: "attached c \<Longrightarrow> relies ob l c \<Longrightarrow> \<exists>b. ob = Some b \<and> ready b"
  by (cases c) auto

text \<open>C18. However the processes are interleaved, fail, die and start again: at most one of them is initializing the object, and a process that
  has got the shared memory finds it in full size, initialized and published, with its semaphore set up.\<close>

theorem shm_creation_safe:
  assumes "shm_reach k s"
  shows "(\<forall>i j. creating (sh_pc s i) \<longrightarrow> creating (sh_pc s j) \<longrightarrow> i = j) \<and>
    (\<forall>i. attached (sh_pc s i) \<longrightarrow> (\<exists>b. sh_obj s = Some b \<and> ob_sized b \<and> ob_mem b F_init_complete = SHM_INIT_MAGIC \<and>
      ob_sem b \<noteq> Sem_unset \<and> (\<forall>j. \<not> creating (sh_pc s j))))"
proof -
  note inv = shm_inv_reach [OF assms, unfolded shm_inv_def]
  have "\<exists>b. sh_obj s = Some b \<and> ob_sized b \<and> ob_mem b F_init_complete = SHM_INIT_MAGIC \<and> ob_sem b \<noteq> Sem_unset \<and>
      (\<forall>j. \<not> creating (sh_pc s j))" if "attached (sh_pc s i)" for i
    using attached_relies [OF that] inv by (fastforce simp: object_ok_def ready_def)
  then show ?thesis using inv by (auto simp: alone_def)
qed

text \<open>C19. The calls that read and write exclude each other, and no read is torn: a read that succeeds returns, at the moment it
  is about to release the lock, the value of the last update that was completed, and that update was made for the domain asked for.\<close>

theorem shm_read_atomic:
  assumes "shm_reach k s"
  shows "(\<forall>i j. holding (sh_pc s i) \<longrightarrow> holding (sh_pc s j) \<longrightarrow> i = j) \<and>
    (\<forall>i d v. sh_pc s i = Posting (Res_value d v) \<longrightarrow> sh_last s = Some (v, d))"
proof -
  note inv = shm_inv_reach [OF assms, unfolded shm_inv_def]
  have "sh_last s = Some (v, d)" if "sh_pc s i = Posting (Res_value d v)" for i d v
  proof -
    have "relies (sh_obj s) (sh_last s) (Posting (Res_value d v))" using inv that by metis
    then show ?thesis by auto
  qed
  then show ?thesis using inv by (auto simp: alone_def)
qed

text \<open>Runs of two processes.\<close>

definition can :: "shm_kind \<Rightarrow> pc \<Rightarrow> pc \<Rightarrow> shm_object option \<Rightarrow> bool" where
  "can k c c' ob \<longleftrightarrow> (\<exists>s. shm_reach k s \<and> sh_pc s 0 = c \<and> sh_pc s 1 = c' \<and> sh_obj s = ob \<and> sh_last s = None)"

lemma can_start: "can k Open Open None"
  using start by (force simp: can_def)

lemma can_step:
  assumes "can k c d ob"
  shows "process_step k (c, ob, None) (c', ob', None) \<Longrightarrow> can k c' d ob'"
    and "process_step k (d, ob, None) (d', ob', None) \<Longrightarrow> can k c d' ob'"
proof -
  obtain s where s: "shm_reach k s" "sh_pc s 0 = c" "sh_pc s 1 = d" "sh_obj s = ob" "sh_last s = None"
    using assms by (auto simp: can_def)
  have step: "shm_reach k \<lparr>sh_pc = (sh_pc s)(i := x), sh_obj = ob', sh_last = None\<rparr>"
    if "process_step k (sh_pc s i, ob, None) (x, ob', None)" for i x
    using shm_reach.step [OF s(1) interleave] that s(4,5) by metis
  show "process_step k (c, ob, None) (c', ob', None) \<Longrightarrow> can k c' d ob'"
    using step [of 0 c'] s unfolding can_def by (intro exI [of _ "\<lparr>sh_pc = (sh_pc s)(0 := c'), sh_obj = ob', sh_last = None\<rparr>"]) auto
  show "process_step k (d, ob, None) (d', ob', None) \<Longrightarrow> can k c d' ob'"
    using step [of 1 d'] s unfolding can_def by (intro exI [of _ "\<lparr>sh_pc = (sh_pc s)(1 := d'), sh_obj = ob', sh_last = None\<rparr>"]) auto
qed

lemmas can_first = can_step(1) [OF _ creates]
lemmas can_second = can_step(2) [OF _ creates]

definition empty_object :: shm_object where
  "empty_object = \<lparr>ob_sized = False, ob_mem = (\<lambda>_. 0), ob_sem = Sem_unset\<rparr>"

lemma can_empty: "can k Truncate Open (Some empty_object)"
  unfolding empty_object_def by (rule can_first [OF can_first [OF can_start open_missing] excl_created])

text \<open>The creation is not safe for the second process: between the creation of the object and \<open>ftruncate\<close> it can open
  and map the empty object, and its first look at \<open>init_complete\<close> is a bus error.\<close>

theorem shm_poll_bus_error: "\<exists>s. shm_reach k s \<and> sh_pc s 0 = Truncate \<and> sh_pc s 1 = Crashed"
proof -
  have "can k Truncate (Poll 0) (Some empty_object)"
    by (rule can_second [OF can_second [OF can_empty open_existing] mmap_existing])
  then have "can k Truncate Crashed (Some empty_object)"
    by (rule can_second) (rule poll_crash, simp add: empty_object_def)
  then show ?thesis by (auto simp: can_def)
qed

text \<open>The object exists but is not published, and nobody is at work on it.\<close>

definition abandoned :: "shm_state \<Rightarrow> bool" where
  "abandoned s \<longleftrightarrow> (\<exists>b. sh_obj s = Some b \<and> ob_mem b F_init_complete \<noteq> SHM_INIT_MAGIC) \<and> (\<forall>i. \<not> creating (sh_pc s i))"

lemma abandoned_step:
  assumes "shm_inv s" and "abandoned s" and "shm_step k s s'"
  shows "abandoned s'"
proof -
  obtain i c ob l where st: "process_step k (sh_pc s i, sh_obj s, sh_last s) (c, ob, l)"
    and s': "s' = \<lparr>sh_pc = (sh_pc s)(i := c), sh_obj = ob, sh_last = l\<rparr>"
    using assms(3) by (auto elim: shm_step.cases)
  obtain b where b: "sh_obj s = Some b" "\<not> ready b" and n: "\<not> creating (sh_pc s j)" for j
    using assms(2) by (auto simp: abandoned_def ready_def)
  have r: "relies (Some b) (sh_last s) (sh_pc s i)" using assms(1) b(1) by (simp add: shm_inv_def)
  have na: "\<not> attached (sh_pc s i)" using attached_relies [OF _ r] b(2) by auto
  have "ob = Some b \<and> \<not> creating c"
    using st
  proof (cases rule: process_step.cases)
    case creates
    then show ?thesis using n [of i] b(1) by (cases rule: create_step.cases) auto
  next
    case uses
    then show ?thesis using na by (cases rule: use_step.cases) auto
  qed (use b in auto)
  then show ?thesis using n b by (auto simp: s' abandoned_def ready_def)
qed

text \<open>A failed creation is permanent: when the process that created the object gives up or dies before the object is published, no
  process will ever get the shared memory again, whatever they do.\<close>

theorem shm_failed_creation_permanent:
  assumes "shm_reach k s" and "abandoned s" and "(shm_step k)\<^sup>*\<^sup>* s s'"
  shows "\<not> attached (sh_pc s' i)"
proof -
  have "shm_reach k s' \<and> abandoned s'"
    using assms(3)
  proof (induction rule: rtranclp_induct)
    case (step t u)
    then show ?case using abandoned_step [OF shm_inv_reach] shm_reach.step by blast
  qed (use assms in simp)
  then show ?thesis
    using attached_relies [of "sh_pc s' i" "sh_obj s'" "sh_last s'"] shm_inv_reach [of k s']
    by (auto simp: abandoned_def shm_inv_def ready_def)
qed

lemma reach_upd:
  assumes "shm_reach k \<lparr>sh_pc = pcs, sh_obj = ob, sh_last = l\<rparr>" and "process_step k (pcs i, ob, l) (c, ob', l')"
  shows "shm_reach k \<lparr>sh_pc = pcs(i := c), sh_obj = ob', sh_last = l'\<rparr>"
  using shm_reach.step [OF assms(1)] interleave [of k "\<lparr>sh_pc = pcs, sh_obj = ob, sh_last = l\<rparr>" i c ob' l'] assms(2) by simp

theorem shm_failed_creation_permanent_witness:
  "\<exists>s. shm_reach Servo_state_shm s \<and> abandoned s \<and> (\<forall>s' i. (shm_step Servo_state_shm)\<^sup>*\<^sup>* s s' \<longrightarrow> \<not> attached (sh_pc s' i))"
proof -
  let ?k = Servo_state_shm
  let ?t = "\<lparr>sh_pc = (\<lambda>_. Open)(0 := Failed), sh_obj = Some empty_object, sh_last = None\<rparr> :: shm_state"
  have "shm_reach ?k \<lparr>sh_pc = (\<lambda>_. Open)(0 := Open_excl), sh_obj = None, sh_last = None\<rparr>"
    by (rule reach_upd [OF start]) (simp add: creates open_missing)
  then have "shm_reach ?k \<lparr>sh_pc = ((\<lambda>_. Open)(0 := Open_excl))(0 := Truncate), sh_obj = Some empty_object, sh_last = None\<rparr>"
    by (rule reach_upd) (simp add: creates excl_created empty_object_def)
  then have "shm_reach ?k \<lparr>sh_pc = ((\<lambda>_. Open)(0 := Open_excl, 0 := Truncate))(0 := Failed), sh_obj = Some empty_object, sh_last = None\<rparr>"
    by (rule reach_upd) (simp add: creates truncate_error)
  then have t: "shm_reach ?k ?t" by simp
  moreover have a: "abandoned ?t" by (auto simp: abandoned_def empty_object_def)
  ultimately show ?thesis using shm_failed_creation_permanent [OF t a] by blast
qed

text \<open>A run in which the first process creates the object and the second attaches to it.\<close>

lemma can_stores:
  "can k (Stores fs) d (Some b) \<Longrightarrow> ob_sized b \<Longrightarrow> \<exists>b'. can k Seminit d (Some b') \<and> ob_sized b'"
proof (induction fs arbitrary: b)
  case Nil
  then show ?case using can_first [OF _ init_stored] by blast
next
  case (Cons x fs)
  then show ?case using can_first [OF _ init_store] by (cases x) fastforce
qed

lemma can_attach: "\<exists>b. can k (Attached None) (Attached None) (Some b) \<and> ob_sem b = Sem 1"
proof -
  have "can k Memset Open (Some (empty_object\<lparr>ob_sized := True\<rparr>))"
    by (rule can_first [OF can_first [OF can_empty truncate] mmap_created])
  from can_stores [OF can_first [OF this memset]] obtain b where b: "can k Seminit Open (Some b)" "ob_sized b" by auto
  let ?b = "set_mem F_init_complete SHM_INIT_MAGIC (b\<lparr>ob_sem := Sem 1\<rparr>)"
  have "can k (Attached None) (Poll 0) (Some ?b)"
    by (rule can_second [OF can_second [OF can_first [OF can_first [OF b(1) sem_init] publish] open_existing] mmap_existing])
  then have "can k (Attached None) (Attached None) (Some ?b)"
    by (rule can_second) (rule poll_ready, simp_all add: b(2))
  then show ?thesis by (intro exI [of _ ?b]) simp
qed

text \<open>A process that detaches breaks the others: it destroys the semaphore that they share with it, and the next call of a process
  that is still attached uses a semaphore that no longer exists.\<close>

theorem shm_destroy_breaks_others: "\<exists>s. shm_reach k s \<and> sh_pc s 0 = Detached \<and> sh_pc s 1 = Undefined"
proof -
  obtain b where "can k (Attached None) (Attached None) (Some b)" using can_attach by blast
  then have "can k Detached (Locking (Call_read 0)) (Some (b\<lparr>ob_sem := Sem_destroyed\<rparr>))"
    using can_step(2) [OF can_step(1) [OF _ uses [OF destroy]] uses [OF call]] by blast
  then have "can k Detached Undefined (Some (b\<lparr>ob_sem := Sem_destroyed\<rparr>))"
    by (rule can_step(2)) (rule uses, rule lock_undefined, simp)
  then show ?thesis by (auto simp: can_def)
qed

text \<open>Both invariants are about runs that exist: the state with two attached processes.\<close>

theorem shm_creation_safe_witness:
  "\<exists>s b. shm_reach Servo_state_shm s \<and> attached (sh_pc s 0) \<and> attached (sh_pc s 1) \<and> sh_obj s = Some b \<and> ob_sized b"
proof -
  obtain s where s: "shm_reach Servo_state_shm s" "sh_pc s 0 = Attached None" "sh_pc s 1 = Attached None"
    using can_attach by (auto simp: can_def)
  then show ?thesis using shm_creation_safe [OF s(1)] by (metis attached.simps(1))
qed

theorem shm_read_atomic_witness:
  "\<exists>s. shm_reach Servo_state_shm s \<and> holding (sh_pc s 0) \<and> \<not> holding (sh_pc s 1)"
proof -
  obtain b where b: "can Servo_state_shm (Attached None) (Attached None) (Some b)" "ob_sem b = Sem (Suc 0)"
    using can_attach by auto
  have "can Servo_state_shm (enter (Call_read 0)) (Attached None) (Some (b\<lparr>ob_sem := Sem 0\<rparr>))"
    by (rule can_step(1) [OF can_step(1) [OF b(1) uses [OF call]] uses [OF lock]]) (rule b(2))
  then obtain s where s: "shm_reach Servo_state_shm s" "sh_pc s 0 = Checking 0" by (auto simp: can_def)
  then show ?thesis using shm_read_atomic [OF s(1)] by (metis holding.simps(2) zero_neq_one)
qed

end
