(* ===== verification/Cstring.thy ===== *)
theory Cstring
  imports Doubles
begin

text \<open>
  The parts of the C library that the configuration code calls on text: character classes, comparison without case,
  bounded formatting and copying, the number scanners \<open>strtol\<close>, \<open>strtoul\<close> and \<open>strtod\<close>, the conversions of
  \<open>sscanf\<close>, and the functions \<open>get_ranged_int\<close>, \<open>get_ranged_uint\<close>, \<open>get_ranged_double\<close> and \<open>get_arg_val_*\<close> of \<open>util.c\<close>.
  A C string is the list of the characters before its terminating zero.
\<close>

section \<open>Characters\<close>

definition cstr :: "string \<Rightarrow> string" where
  "cstr = takeWhile (\<lambda>c. c \<noteq> CHR 0x00)"

definition isspace :: "char \<Rightarrow> bool" where
  "isspace c \<longleftrightarrow> c \<in> {CHR 0x20, CHR 0x09, CHR 0x0A, CHR 0x0B, CHR 0x0C, CHR 0x0D}"

definition tolower :: "char \<Rightarrow> char" where
  "tolower c = (let n = of_char c :: nat in if 65 \<le> n \<and> n \<le> 90 then char_of (n + 32) else c)"

definition strcaseeq :: "string \<Rightarrow> string \<Rightarrow> bool" where
  "strcaseeq a b \<longleftrightarrow> map tolower a = map tolower b"

definition skip_space :: "string \<Rightarrow> string" where
  "skip_space = dropWhile isspace"

text \<open>\<open>snprintf (buf, n, \<dots>)\<close> stores at most \<open>n - 1\<close> characters; the caller sees the length of the whole text.\<close>

definition stored :: "nat \<Rightarrow> string \<Rightarrow> string" where
  "stored n s = take (n - 1) s"

text \<open>The value of a character as a digit; 36 stands for a character that is no digit in any base.\<close>

definition digit_value :: "char \<Rightarrow> nat" where
  "digit_value c =
    (let n = of_char c in
     if 48 \<le> n \<and> n \<le> 57 then n - 48
     else if 97 \<le> n \<and> n \<le> 122 then n - 87
     else if 65 \<le> n \<and> n \<le> 90 then n - 55
     else 36)"

definition digits :: "nat \<Rightarrow> string \<Rightarrow> string" where
  "digits base = takeWhile (\<lambda>c. digit_value c < base)"

definition number :: "nat \<Rightarrow> string \<Rightarrow> int" where
  "number base = foldl (\<lambda>a c. a * int base + int (digit_value c)) 0"

section \<open>Integers\<close>

definition scan_sign :: "string \<Rightarrow> bool \<times> string" where
  "scan_sign s =
    (case s of c # r \<Rightarrow> if c = CHR ''-'' then (True, r) else if c = CHR ''+'' then (False, r) else (False, s)
     | [] \<Rightarrow> (False, []))"

text \<open>A prefix \<open>0x\<close> counts only when a hexadecimal digit follows it.\<close>

definition hex_prefix :: "string \<Rightarrow> bool" where
  "hex_prefix s \<longleftrightarrow> map tolower (take 2 s) = ''0x''"

definition scan_unsigned :: "nat \<Rightarrow> string \<Rightarrow> (int \<times> string) option" where
  "scan_unsigned base s =
    (if (base = 0 \<or> base = 16) \<and> hex_prefix s \<and> digits 16 (drop 2 s) \<noteq> []
     then let d = digits 16 (drop 2 s) in Some (number 16 d, drop (2 + length d) s)
     else let b = if base = 0 then (if take 1 s = ''0'' then 8 else 10) else base;
              d = digits b s
          in if d = [] then None else Some (number b d, drop (length d) s))"

definition scan_integer :: "nat \<Rightarrow> string \<Rightarrow> (bool \<times> int \<times> string) option" where
  "scan_integer base s =
    (let (neg, r) = scan_sign (skip_space s)
     in case scan_unsigned base r of None \<Rightarrow> None | Some (m, rest) \<Rightarrow> Some (neg, m, rest))"

abbreviation "LONG_MAX \<equiv> 2 ^ 63 - 1 :: int"
abbreviation "LONG_MIN \<equiv> - (2 ^ 63) :: int"
abbreviation "ULONG_MAX \<equiv> 2 ^ 64 - 1 :: int"

text \<open>The result of a scanner: no conversion, or the value, whether \<open>errno\<close> became \<open>ERANGE\<close>, and the rest.\<close>

definition strtol :: "nat \<Rightarrow> string \<Rightarrow> (int \<times> bool \<times> string) option" where
  "strtol base s =
    (case scan_integer base s of
       None \<Rightarrow> None
     | Some (neg, m, rest) \<Rightarrow>
         let v = if neg then - m else m
         in Some (max LONG_MIN (min LONG_MAX v), v < LONG_MIN \<or> LONG_MAX < v, rest))"

definition strtoul :: "nat \<Rightarrow> string \<Rightarrow> (int \<times> bool \<times> string) option" where
  "strtoul base s =
    (case scan_integer base s of
       None \<Rightarrow> None
     | Some (neg, m, rest) \<Rightarrow>
         Some (if ULONG_MAX < m then (ULONG_MAX, True, rest)
               else ((if neg then - m else m) mod 2 ^ 64, False, rest)))"

section \<open>Doubles\<close>

text \<open>A double is a number, an infinity (with its sign) or not a number. The two zeros are one value.\<close>

datatype dbl = Fin rat | Inf bool | NaN

abbreviation "DBL_MAX \<equiv> (2 - 1 / 2 ^ 52) * 2 ^ 1023 :: rat"
abbreviation "DBL_MIN \<equiv> 1 / 2 ^ 1022 :: rat"

text \<open>C comparison with a number: every comparison with a NaN is false.\<close>

definition dbl_lt :: "dbl \<Rightarrow> rat \<Rightarrow> bool" where
  "dbl_lt d m = (case d of Fin r \<Rightarrow> r < m | Inf neg \<Rightarrow> neg | NaN \<Rightarrow> False)"

definition dbl_gt :: "dbl \<Rightarrow> rat \<Rightarrow> bool" where
  "dbl_gt d m = (case d of Fin r \<Rightarrow> m < r | Inf neg \<Rightarrow> \<not> neg | NaN \<Rightarrow> False)"

text \<open>The double nearest to a rational, and whether \<open>errno\<close> becomes \<open>ERANGE\<close>: on overflow, and on a result below
  the normal range that is not exact.\<close>

definition to_double :: "rat \<Rightarrow> dbl \<times> bool" where
  "to_double r =
    (let d = rnd64 r in
     if pow2 1024 \<le> \<bar>d\<bar> then (Inf (r < 0), True)
     else if r \<noteq> 0 \<and> \<bar>d\<bar> < pow2 (- 1022)
     then let q = of_int (round_half_even (r / pow2 (- 1074))) * pow2 (- 1074) in (Fin q, q \<noteq> r)
     else (Fin d, False))"

text \<open>Digits with an optional point, as (digits, number of digits after the point, rest).\<close>

definition scan_mantissa :: "nat \<Rightarrow> string \<Rightarrow> (int \<times> nat \<times> string) option" where
  "scan_mantissa base s =
    (let a = digits base s; r = drop (length a) s;
         b = if take 1 r = ''.'' then digits base (drop 1 r) else [];
         rest = if take 1 r = ''.'' then drop (1 + length b) r else r
     in if a = [] \<and> b = [] then None else Some (number base (a @ b), length b, rest))"

text \<open>An exponent counts only when digits follow its letter.\<close>

definition scan_exponent :: "char \<Rightarrow> string \<Rightarrow> int \<times> string" where
  "scan_exponent letter s =
    (if map tolower (take 1 s) = [letter]
     then let (neg, r) = scan_sign (drop 1 s); d = digits 10 r
          in if d = [] then (0, s) else ((if neg then - number 10 d else number 10 d), drop (length d) r)
     else (0, s))"

definition pow10 :: "int \<Rightarrow> rat" where
  "pow10 e = (if 0 \<le> e then 10 ^ nat e else 1 / 10 ^ nat (- e))"

definition nan_payload :: "string \<Rightarrow> string" where
  "nan_payload s =
    (if take 1 s = ''('' then
       let p = takeWhile (\<lambda>c. digit_value c < 36 \<or> c = CHR ''_'') (drop 1 s); r = drop (1 + length p) s
       in if take 1 r = '')'' then drop 1 r else s
     else s)"

definition scan_double :: "string \<Rightarrow> (dbl \<times> bool \<times> string) option" where
  "scan_double s0 =
    (let (neg, s) = scan_sign (skip_space s0); sg = \<lambda>x :: rat. if neg then - x else x in
     if map tolower (take 8 s) = ''infinity'' then Some (Inf neg, False, drop 8 s)
     else if map tolower (take 3 s) = ''inf'' then Some (Inf neg, False, drop 3 s)
     else if map tolower (take 3 s) = ''nan'' then Some (NaN, False, nan_payload (drop 3 s))
     else case (if hex_prefix s then scan_mantissa 16 (drop 2 s) else None) of
       Some (m, f, r) \<Rightarrow>
         let (e, rest) = scan_exponent (CHR ''p'') r; (d, er) = to_double (sg (of_int m * pow2 (e - 4 * int f)))
         in Some (d, er, rest)
     | None \<Rightarrow>
         (case scan_mantissa 10 s of
            None \<Rightarrow> None
          | Some (m, f, r) \<Rightarrow>
              let (e, rest) = scan_exponent (CHR ''e'') r; (d, er) = to_double (sg (of_int m * pow10 (e - int f)))
              in Some (d, er, rest)))"

section \<open>Values with a range (util.c)\<close>

datatype parser_result = PARSED_OK | NOT_PARSED | BAD_VALUE | MALFORMED | OUT_OF_RANGE

text \<open>\<open>Inr v\<close> is \<open>PARSED_OK\<close> with \<open>*result = v\<close>; \<open>Inl r\<close> is the result \<open>r\<close>, and \<open>*result\<close> keeps its value.\<close>

definition get_ranged_int :: "string \<Rightarrow> int \<Rightarrow> int \<Rightarrow> parser_result + int" where
  "get_ranged_int str_val mn mx =
    (case strtol 0 str_val of
       None \<Rightarrow> Inl MALFORMED
     | Some (parsed_val, erange, rest) \<Rightarrow>
         if rest \<noteq> [] then Inl MALFORMED
         else if erange \<or> parsed_val < mn \<or> mx < parsed_val then Inl OUT_OF_RANGE
         else Inr parsed_val)"

definition get_ranged_uint :: "string \<Rightarrow> int \<Rightarrow> int \<Rightarrow> parser_result + int" where
  "get_ranged_uint str_val mn mx =
    (case strtoul 0 str_val of
       None \<Rightarrow> Inl MALFORMED
     | Some (parsed_val, erange, rest) \<Rightarrow>
         if rest \<noteq> [] then Inl MALFORMED
         else if erange \<or> parsed_val < mn \<or> mx < parsed_val then Inl OUT_OF_RANGE
         else Inr parsed_val)"

definition get_ranged_double :: "string \<Rightarrow> rat \<Rightarrow> rat \<Rightarrow> parser_result + dbl" where
  "get_ranged_double str_val mn mx =
    (case scan_double str_val of
       None \<Rightarrow> Inl MALFORMED
     | Some (parsed_val, erange, rest) \<Rightarrow>
         if rest \<noteq> [] then Inl MALFORMED
         else if erange \<or> dbl_lt parsed_val mn \<or> dbl_gt parsed_val mx then Inl OUT_OF_RANGE
         else Inr parsed_val)"

text \<open>The command line variants: \<open>None\<close> is the return value -1.\<close>

definition arg_val :: "(parser_result + 'a) \<Rightarrow> 'a option" where
  "arg_val r = (case r of Inr v \<Rightarrow> Some v | Inl _ \<Rightarrow> None)"

definition get_arg_val_i :: "string \<Rightarrow> int \<Rightarrow> int \<Rightarrow> int option" where
  "get_arg_val_i optarg mn mx = arg_val (get_ranged_int optarg mn mx)"

definition get_arg_val_ui :: "string \<Rightarrow> int \<Rightarrow> int \<Rightarrow> int option" where
  "get_arg_val_ui optarg mn mx = arg_val (get_ranged_uint optarg mn mx)"

definition get_arg_val_d :: "string \<Rightarrow> rat \<Rightarrow> rat \<Rightarrow> dbl option" where
  "get_arg_val_d optarg mn mx = arg_val (get_ranged_double optarg mn mx)"

section \<open>Conversions of sscanf\<close>

text \<open>A blank in the format matches any white space, a literal itself. \<open>%d\<close> converts as \<open>strtol\<close> does and stores the
  low 32 bits; \<open>%<n>s\<close> takes up to \<open>n\<close> characters that are not white space.\<close>

definition scan_literal :: "string \<Rightarrow> string \<Rightarrow> string option" where
  "scan_literal l s = (if take (length l) s = l then Some (drop (length l) s) else None)"

definition scan_d :: "string \<Rightarrow> (int \<times> string) option" where
  "scan_d s = (case strtol 10 s of None \<Rightarrow> None | Some (v, _, rest) \<Rightarrow> Some (signed_take_bit 31 v, rest))"

definition scan_s :: "nat \<Rightarrow> string \<Rightarrow> (string \<times> string) option" where
  "scan_s n s =
    (let r = skip_space s; w = takeWhile (\<lambda>c. \<not> isspace c) (take n r)
     in if w = [] then None else Some (w, drop (length w) r))"

section \<open>Reading lines\<close>

text \<open>\<open>fgets\<close> into a buffer of \<open>n\<close> characters: the piece it stores, up to a newline, and the rest of the file.\<close>

definition fgets :: "nat \<Rightarrow> string \<Rightarrow> string \<times> string" where
  "fgets n tx = (let k = min (n - 1) (Suc (length (takeWhile (\<lambda>c. c \<noteq> CHR 0x0A) tx))) in (take k tx, drop k tx))"

end
