(* ===== verification/Hash.thy ===== *)
theory Hash
  imports Ptp_Prelude
begin

text \<open>
  \<open>hash.c\<close>: a table of 200 chains. A chain is a list of (key, data) nodes, the newest first. The contract that the
  configuration relies on is the locale \<open>dictionary\<close>; its lemmas on loading a list of entries are the ones
  \<open>config_create\<close> needs.
\<close>

abbreviation "HASH_TABLE_SIZE \<equiv> 200 :: nat"

type_synonym 'd chain = "(string \<times> 'd) list"
type_synonym 'd hash = "'d chain list"

text \<open>A plain \<open>char\<close> is signed: it is extended with its sign before the unsigned addition.\<close>

definition promote :: "char \<Rightarrow> u32" where
  "promote c = word_of_int (signed_take_bit 7 (of_char c))"

primrec hash_sum :: "u32 \<Rightarrow> string \<Rightarrow> u32" where
  "hash_sum i [] = i"
| "hash_sum i (c # s) = hash_sum (131 * i + promote c) s"

definition hash_function :: "string \<Rightarrow> nat" where
  "hash_function s = unat (hash_sum 0 s mod 200)"

definition hash_create :: "'d hash" where
  "hash_create = replicate HASH_TABLE_SIZE []"

primrec chain_find :: "'d chain \<Rightarrow> string \<Rightarrow> 'd option" where
  "chain_find [] key = None"
| "chain_find (n # c) key = (if fst n = key then Some (snd n) else chain_find c key)"

definition hash_lookup :: "'d hash \<Rightarrow> string \<Rightarrow> 'd option" where
  "hash_lookup ht key = chain_find (ht ! hash_function key) key"

text \<open>\<open>node_mem\<close> and \<open>key_mem\<close> tell whether \<open>calloc\<close> and \<open>strdup\<close> succeed.\<close>

definition hash_insert :: "bool \<Rightarrow> bool \<Rightarrow> 'd hash \<Rightarrow> string \<Rightarrow> 'd \<Rightarrow> int \<times> 'd hash" where
  "hash_insert node_mem key_mem ht key data =
    (let h = hash_function key in
     if chain_find (ht ! h) key \<noteq> None then (- 1, ht)
     else if \<not> node_mem then (- 1, ht)
     else if \<not> key_mem then (- 1, ht)
     else (0, ht[h := (key, data) # ht ! h]))"

text \<open>The data that \<open>hash_destroy\<close> hands to its callback, in order.\<close>

definition hash_destroy :: "'d hash \<Rightarrow> 'd list" where
  "hash_destroy ht = concat (map (map snd) ht)"

section \<open>The contract\<close>

text \<open>Inserting a list of entries one after the other, up to the first one that fails.\<close>

primrec load :: "(nat \<Rightarrow> 'h \<Rightarrow> string \<Rightarrow> 'd \<Rightarrow> int \<times> 'h) \<Rightarrow> nat \<Rightarrow> 'h \<Rightarrow> (string \<times> 'd) list \<Rightarrow> 'h option" where
  "load ins n h [] = Some h"
| "load ins n h (e # es) = (case ins n h (fst e) (snd e) of (r, h') \<Rightarrow> if truthy r then None else load ins (Suc n) h' es)"

locale dictionary =
  fixes empty :: 'h
    and insert :: "bool \<Rightarrow> bool \<Rightarrow> 'h \<Rightarrow> string \<Rightarrow> 'd \<Rightarrow> int \<times> 'h"
    and lookup :: "'h \<Rightarrow> string \<Rightarrow> 'd option"
    and inv :: "'h \<Rightarrow> bool"
  assumes inv_empty: "inv empty"
    and lookup_empty: "lookup empty k = None"
    and inv_insert: "inv h \<Longrightarrow> inv (snd (insert m n h k d))"
    and insert_iff: "inv h \<Longrightarrow> fst (insert m n h k d) = 0 \<longleftrightarrow> m \<and> n \<and> lookup h k = None"
    and lookup_insert: "inv h \<Longrightarrow>
      lookup (snd (insert m n h k d)) = (if fst (insert m n h k d) = 0 then (lookup h)(k \<mapsto> d) else lookup h)"
begin

lemma load_iff:
  assumes "inv h"
  shows "load (\<lambda>i. insert (f i) (g i)) n h es \<noteq> None \<longleftrightarrow>
    (\<forall>i < length es. f (n + i) \<and> g (n + i)) \<and> distinct (map fst es) \<and> (\<forall>k \<in> fst ` set es. lookup h k = None)"
  using assms
proof (induction es arbitrary: h n)
  case (Cons e es)
  define h' where "h' = snd (insert (f n) (g n) h (fst e) (snd e))"
  have s: "insert (f n) (g n) h (fst e) (snd e) = (fst (insert (f n) (g n) h (fst e) (snd e)), h')" by (simp add: h'_def)
  note ok = insert_iff [OF Cons.prems, of "f n" "g n" "fst e" "snd e"]
  show ?case
  proof (cases "f n \<and> g n \<and> lookup h (fst e) = None")
    case True
    then have z: "fst (insert (f n) (g n) h (fst e) (snd e)) = 0" using ok by simp
    have l: "lookup h' = (lookup h)(fst e \<mapsto> snd e)" using lookup_insert [OF Cons.prems] z by (simp add: h'_def)
    have i: "inv h'" unfolding h'_def by (rule inv_insert [OF Cons.prems])
    have "load (\<lambda>i. insert (f i) (g i)) n h (e # es) = load (\<lambda>i. insert (f i) (g i)) (Suc n) h' es"
      using s z by simp
    then show ?thesis
      using Cons.IH [OF i, of "Suc n"] True l by (auto simp: All_less_Suc2 image_iff)
  next
    case False
    then have "fst (insert (f n) (g n) h (fst e) (snd e)) \<noteq> 0" using ok by blast
    then have "load (\<lambda>i. insert (f i) (g i)) n h (e # es) = None" by (simp add: case_prod_beta)
    then show ?thesis using False by (auto simp: All_less_Suc2)
  qed
qed simp

lemma load_lookup:
  assumes "inv h" and "load (\<lambda>i. insert (f i) (g i)) n h es = Some h'"
  shows "inv h' \<and> lookup h' = lookup h ++ map_of es"
  using assms
proof (induction es arbitrary: h n)
  case (Cons e es)
  let ?r = "insert (f n) (g n) h (fst e) (snd e)"
  have z: "fst ?r = 0" and r: "load (\<lambda>i. insert (f i) (g i)) (Suc n) (snd ?r) es = Some h'"
    using Cons.prems(2) by (simp_all add: case_prod_beta split: if_splits)
  have d: "fst e \<notin> fst ` set es"
    using load_iff [OF Cons.prems(1), of f g n "e # es"] Cons.prems(2) by auto
  have "lookup (snd ?r) = (lookup h)(fst e \<mapsto> snd e)" using lookup_insert [OF Cons.prems(1)] z by simp
  moreover have "map_of es (fst e) = None" using d by (simp add: map_of_eq_None_iff)
  ultimately show ?case
    using Cons.IH [OF inv_insert [OF Cons.prems(1)] r] by (cases e) (auto simp: map_add_def fun_eq_iff split: option.split)
qed simp

end

section \<open>The hash table meets the contract\<close>

definition hash_inv :: "'d hash \<Rightarrow> bool" where
  "hash_inv ht \<longleftrightarrow> length ht = HASH_TABLE_SIZE \<and>
    (\<forall>h < HASH_TABLE_SIZE. distinct (map fst (ht ! h)) \<and> (\<forall>n \<in> set (ht ! h). hash_function (fst n) = h))"

lemma hash_function_less [simp]: "hash_function s < 200"
proof -
  have "unat (hash_sum 0 s mod 200) = unat (hash_sum 0 s) mod 200" by (simp add: unat_mod)
  then show ?thesis by (simp add: hash_function_def)
qed

lemma chain_find_map_of: "chain_find c k = map_of c k"
  by (induction c) auto

lemma chain_find_None: "chain_find c k = None \<longleftrightarrow> k \<notin> fst ` set c"
  by (simp add: chain_find_map_of map_of_eq_None_iff)

interpretation ht: dictionary hash_create hash_insert hash_lookup hash_inv
proof (unfold_locales, goal_cases)
  case (3 h m n k d)
  then show ?case
    by (auto simp: hash_insert_def Let_def hash_inv_def nth_list_update chain_find_None)
next
  case (5 h m n k d)
  then show ?case
    by (auto simp: hash_insert_def Let_def hash_inv_def hash_lookup_def fun_eq_iff nth_list_update)
qed (auto simp: hash_create_def hash_inv_def hash_lookup_def hash_insert_def Let_def)

text \<open>The callback of \<open>hash_destroy\<close> sees every entry once.\<close>

lemma lookup_in_table:
  assumes "hash_inv ht"
  shows "hash_lookup ht k = Some d \<longleftrightarrow> (k, d) \<in> set (concat ht)"
proof -
  have "(k, d) \<in> set (concat ht) \<longleftrightarrow> (k, d) \<in> set (ht ! hash_function k)"
  proof
    assume "(k, d) \<in> set (concat ht)"
    then obtain h where "h < 200" and "(k, d) \<in> set (ht ! h)" using assms
      unfolding set_concat hash_inv_def by (metis UN_E in_set_conv_nth)
    then show "(k, d) \<in> set (ht ! hash_function k)" using assms by (force simp: hash_inv_def)
  qed (use assms in \<open>force simp: hash_inv_def in_set_conv_nth\<close>)
  moreover have "distinct (map fst (ht ! hash_function k))" using assms by (simp add: hash_inv_def)
  ultimately show ?thesis by (simp add: hash_lookup_def chain_find_map_of map_of_eq_Some_iff)
qed

lemma distinct_concat_nth:
  assumes "\<forall>i < length xs. distinct (xs ! i)"
    and "\<forall>i < length xs. \<forall>j < length xs. i \<noteq> j \<longrightarrow> set (xs ! i) \<inter> set (xs ! j) = {}"
  shows "distinct (concat xs)"
  using assms
proof (induction xs)
  case (Cons x xs)
  have "\<forall>i < length xs. set x \<inter> set (xs ! i) = {}" using Cons.prems(2) [rule_format, of 0 "Suc i" for i] by fastforce
  then have "set x \<inter> set (concat xs) = {}" by (fastforce simp: in_set_conv_nth)
  moreover have "distinct (concat xs)"
    by (rule Cons.IH; intro allI impI) (use Cons.prems in \<open>force+\<close>)
  ultimately show ?case using Cons.prems(1) by fastforce
qed simp

lemma hash_destroy_complete:
  assumes "hash_inv ht"
  shows "hash_destroy ht = map snd (concat ht) \<and> distinct (map fst (concat ht)) \<and> map_of (concat ht) = hash_lookup ht"
proof -
  have c: "map fst (concat ht) = concat (map (map fst) ht)" by (simp add: map_concat)
  have k: "hash_function (fst n) = i" if "i < length ht" "n \<in> set (ht ! i)" for i n
    using assms that by (simp add: hash_inv_def)
  have "distinct (map fst (concat ht))"
    unfolding c
  proof (rule distinct_concat_nth; intro allI impI)
    fix i j assume "i < length (map (map fst) ht)" "j < length (map (map fst) ht)" "i \<noteq> j"
    then have "set (map fst (ht ! i)) \<inter> set (map fst (ht ! j)) = {}" using k [of i] k [of j] by fastforce
    then show "set (map (map fst) ht ! i) \<inter> set (map (map fst) ht ! j) = {}"
      using \<open>i < _\<close> \<open>j < _\<close> by simp
  qed (use assms in \<open>simp add: hash_inv_def\<close>)
  moreover from this have "map_of (concat ht) k = hash_lookup ht k" for k
    using lookup_in_table [OF assms, of k] map_of_eq_Some_iff [OF \<open>distinct _\<close>, of k] by (metis not_None_eq)
  ultimately show ?thesis by (auto simp: hash_destroy_def map_concat)
qed

end
