(* ===== verification/Config_Table.thy ===== *)
theory Config_Table
  imports Cstring Hash
begin

text \<open>
  The options of \<open>config.c\<close>: \<open>struct config_item\<close>, the tables of enumerated values and \<open>config_tab\<close> with the default and the
  range of each option. The members of the flag word are four truth values. The enumerations of \<open>clock.h\<close> and \<open>bmc.h\<close>
  are not in the tree: their values are the fields of \<open>ext_values\<close>, a parameter of the table.
\<close>

section \<open>Items\<close>

datatype config_type = CFG_TYPE_INT | CFG_TYPE_DOUBLE | CFG_TYPE_ENUM | CFG_TYPE_STRING | CFG_TYPE_UINT

text \<open>The union \<open>any_t\<close>, with the member that was stored last. A pointer to a string may be \<open>NULL\<close>.\<close>

datatype any_t = I (any_i: int) | D (any_d: dbl) | S (any_s: "string option") | U (any_u: int)

type_synonym enum_tab = "(string \<times> int) list"

record config_item =
  ci_label :: string
  ci_type :: config_type
  ci_tab :: "enum_tab option" \<comment> \<open>\<open>None\<close> is \<open>NULL\<close>\<close>
  ci_static :: bool
  ci_locked :: bool
  ci_port :: bool
  ci_dynstr :: bool
  ci_val :: any_t
  ci_min :: any_t
  ci_max :: any_t

record ext_values =
  ct_ordinary :: int
  ct_boundary :: int
  ct_p2p :: int
  ct_e2e :: int
  ds_cmp_ieee1588 :: int
  ds_cmp_g8275 :: int

text \<open>What \<open>calloc\<close> leaves in the union, read as the member that belongs to the type.\<close>

primrec zero_val :: "config_type \<Rightarrow> any_t" where
  "zero_val CFG_TYPE_INT = I 0"
| "zero_val CFG_TYPE_DOUBLE = D (Fin 0)"
| "zero_val CFG_TYPE_ENUM = I 0"
| "zero_val CFG_TYPE_STRING = S None"
| "zero_val CFG_TYPE_UINT = U 0"

definition config_item :: "string \<Rightarrow> config_type \<Rightarrow> config_item" where
  "config_item l ty = \<lparr>ci_label = l, ci_type = ty, ci_tab = None, ci_static = False, ci_locked = False, ci_port = False,
     ci_dynstr = False, ci_val = zero_val ty, ci_min = zero_val ty, ci_max = zero_val ty\<rparr>"

definition CONFIG_ITEM_DBL :: "string \<Rightarrow> bool \<Rightarrow> rat \<Rightarrow> rat \<Rightarrow> rat \<Rightarrow> config_item" where
  "CONFIG_ITEM_DBL l p d mn mx = (config_item l CFG_TYPE_DOUBLE)
     \<lparr>ci_port := p, ci_val := D (Fin d), ci_min := D (Fin mn), ci_max := D (Fin mx)\<rparr>"

definition CONFIG_ITEM_ENUM :: "string \<Rightarrow> bool \<Rightarrow> int \<Rightarrow> enum_tab \<Rightarrow> config_item" where
  "CONFIG_ITEM_ENUM l p d t = (config_item l CFG_TYPE_ENUM)\<lparr>ci_port := p, ci_tab := Some t, ci_val := I d\<rparr>"

definition CONFIG_ITEM_INT :: "string \<Rightarrow> bool \<Rightarrow> int \<Rightarrow> int \<Rightarrow> int \<Rightarrow> config_item" where
  "CONFIG_ITEM_INT l p d mn mx = (config_item l CFG_TYPE_INT)\<lparr>ci_port := p, ci_val := I d, ci_min := I mn, ci_max := I mx\<rparr>"

definition CONFIG_ITEM_UINT :: "string \<Rightarrow> bool \<Rightarrow> int \<Rightarrow> int \<Rightarrow> int \<Rightarrow> config_item" where
  "CONFIG_ITEM_UINT l p d mn mx = (config_item l CFG_TYPE_UINT)\<lparr>ci_port := p, ci_val := U d, ci_min := U mn, ci_max := U mx\<rparr>"

definition CONFIG_ITEM_STRING :: "string \<Rightarrow> bool \<Rightarrow> string option \<Rightarrow> config_item" where
  "CONFIG_ITEM_STRING l p d = (config_item l CFG_TYPE_STRING)\<lparr>ci_port := p, ci_val := S d\<rparr>"

abbreviation "GLOB_ITEM_DBL l \<equiv> CONFIG_ITEM_DBL l False"
abbreviation "GLOB_ITEM_ENU l \<equiv> CONFIG_ITEM_ENUM l False"
abbreviation "GLOB_ITEM_INT l \<equiv> CONFIG_ITEM_INT l False"
abbreviation "GLOB_ITEM_UIN l \<equiv> CONFIG_ITEM_UINT l False"
abbreviation "GLOB_ITEM_STR l \<equiv> CONFIG_ITEM_STRING l False"
abbreviation "PORT_ITEM_DBL l \<equiv> CONFIG_ITEM_DBL l True"
abbreviation "PORT_ITEM_ENU l \<equiv> CONFIG_ITEM_ENUM l True"
abbreviation "PORT_ITEM_INT l \<equiv> CONFIG_ITEM_INT l True"
abbreviation "PORT_ITEM_UIN l \<equiv> CONFIG_ITEM_UINT l True"
abbreviation "PORT_ITEM_STR l \<equiv> CONFIG_ITEM_STRING l True"

section \<open>Enumerated values\<close>

definition clock_servo_enu :: "enum_tab" where
  "clock_servo_enu = [(''pi'', 0), (''linreg'', 1), (''ntpshm'', 2), (''nullf'', 3), (''refclock_sock'', 4)]"

definition clock_type_enu :: "ext_values \<Rightarrow> enum_tab" where
  "clock_type_enu c = [(''OC'', ct_ordinary c), (''BC'', ct_boundary c), (''P2P_TC'', ct_p2p c), (''E2E_TC'', ct_e2e c)]"

definition dataset_comp_enu :: "ext_values \<Rightarrow> enum_tab" where
  "dataset_comp_enu c = [(''ieee1588'', ds_cmp_ieee1588 c), (''G.8275.x'', ds_cmp_g8275 c)]"

definition delay_filter_enu :: "enum_tab" where
  "delay_filter_enu = [(''moving_average'', 0), (''moving_median'', 1)]"

definition delay_mech_enu :: "enum_tab" where
  "delay_mech_enu = [(''Auto'', 0), (''COMMON_P2P'', 3), (''E2E'', 1), (''P2P'', 2), (''NONE'', 254)]"

definition extts_polarity_enu :: "enum_tab" where
  "extts_polarity_enu = [(''rising'', 2), (''falling'', 4), (''both'', 6)]"

definition hwts_filter_enu :: "enum_tab" where
  "hwts_filter_enu = [(''normal'', 0), (''check'', 1), (''full'', 2)]"

definition ieee_c37_238_enu :: "enum_tab" where
  "ieee_c37_238_enu = [(''none'', 0), (''2011'', 1), (''2017'', 2)]"

definition nw_trans_enu :: "enum_tab" where
  "nw_trans_enu = [(''L2'', 3), (''UDPv4'', 1), (''UDPv6'', 2)]"

definition timestamping_enu :: "enum_tab" where
  "timestamping_enu = [(''hardware'', 1), (''software'', 0), (''legacy'', 2), (''onestep'', 3), (''p2p1step'', 4)]"

definition tsproc_enu :: "enum_tab" where
  "tsproc_enu = [(''filter'', 0), (''raw'', 1), (''filter_weight'', 2), (''raw_weight'', 3)]"

definition as_capable_enu :: "enum_tab" where
  "as_capable_enu = [(''true'', 0), (''auto'', 1)]"

definition bmca_enu :: "enum_tab" where
  "bmca_enu = [(''ptp'', 0), (''noop'', 1)]"

section \<open>The table\<close>

definition config_tab :: "ext_values \<Rightarrow> config_item list" where
  "config_tab c = [
    PORT_ITEM_UIN ''active_key_id'' 0 0 4294967295,
    PORT_ITEM_INT ''allow_unauth'' 0 0 2,
    PORT_ITEM_INT ''allowedLostResponses'' 3 1 255,
    PORT_ITEM_INT ''announceReceiptTimeout'' 3 2 255,
    PORT_ITEM_ENU ''asCapable'' 1 as_capable_enu,
    GLOB_ITEM_INT ''assume_two_step'' 0 0 1,
    PORT_ITEM_INT ''boundary_clock_jbod'' 0 0 1,
    PORT_ITEM_ENU ''BMCA'' 0 bmca_enu,
    GLOB_ITEM_INT ''check_fup_sync'' 0 0 1,
    GLOB_ITEM_INT ''clientOnly'' 0 0 1,
    GLOB_ITEM_INT ''clockAccuracy'' 254 0 255,
    GLOB_ITEM_INT ''clockClass'' 248 0 255,
    GLOB_ITEM_STR ''clockIdentity'' (Some ''000000.0000.000000''),
    GLOB_ITEM_INT ''clock_class_threshold'' 248 6 248,
    GLOB_ITEM_ENU ''clock_servo'' 0 clock_servo_enu,
    GLOB_ITEM_ENU ''clock_type'' (ct_ordinary c) (clock_type_enu c),
    PORT_ITEM_STR ''cmlds.client_address'' (Some ''/var/run/cmlds_client''),
    PORT_ITEM_INT ''cmlds.domainNumber'' 0 0 255,
    PORT_ITEM_INT ''cmlds.majorSdoId'' 2 0 15,
    PORT_ITEM_INT ''cmlds.port'' 0 0 65535,
    PORT_ITEM_STR ''cmlds.server_address'' (Some ''/var/run/cmlds_server''),
    GLOB_ITEM_ENU ''dataset_comparison'' (ds_cmp_ieee1588 c) (dataset_comp_enu c),
    PORT_ITEM_INT ''delayAsymmetry'' 0 (-2147483648) 2147483647,
    PORT_ITEM_ENU ''delay_filter'' 1 delay_filter_enu,
    PORT_ITEM_INT ''delay_filter_length'' 10 1 2147483647,
    PORT_ITEM_ENU ''delay_mechanism'' 1 delay_mech_enu,
    PORT_ITEM_INT ''delay_response_timeout'' 0 0 255,
    GLOB_ITEM_INT ''dscp_event'' 0 0 63,
    GLOB_ITEM_INT ''dscp_general'' 0 0 63,
    GLOB_ITEM_INT ''domainNumber'' 0 0 255,
    PORT_ITEM_INT ''egressLatency'' 0 (-2147483648) 2147483647,
    PORT_ITEM_INT ''fault_badpeernet_interval'' 16 (-2147483648) 2147483647,
    PORT_ITEM_INT ''fault_reset_interval'' 4 (-128) 127,
    GLOB_ITEM_DBL ''first_step_threshold'' (rnd64 (2 / 100000)) 0 DBL_MAX,
    PORT_ITEM_INT ''follow_up_info'' 0 0 1,
    GLOB_ITEM_INT ''free_running'' 0 0 1,
    PORT_ITEM_INT ''freq_est_interval'' 1 (-2147483648) 2147483647,
    GLOB_ITEM_INT ''G.8275.defaultDS.localPriority'' 128 1 255,
    PORT_ITEM_INT ''G.8275.portDS.localPriority'' 128 1 255,
    GLOB_ITEM_INT ''gmCapable'' 1 0 1,
    GLOB_ITEM_ENU ''hwts_filter'' 0 hwts_filter_enu,
    PORT_ITEM_INT ''hybrid_e2e'' 0 0 1,
    PORT_ITEM_INT ''ignore_source_id'' 0 0 1,
    PORT_ITEM_INT ''ignore_transport_specific'' 0 0 1,
    PORT_ITEM_INT ''ingressLatency'' 0 (-2147483648) 2147483647,
    PORT_ITEM_INT ''inhibit_announce'' 0 0 1,
    PORT_ITEM_INT ''inhibit_delay_req'' 0 0 1,
    PORT_ITEM_INT ''inhibit_multicast_service'' 0 0 1,
    GLOB_ITEM_INT ''initial_delay'' 0 0 2147483647,
    PORT_ITEM_INT ''interface_rate_tlv'' 0 0 1,
    GLOB_ITEM_INT ''kernel_leap'' 1 0 1,
    GLOB_ITEM_STR ''leapfile'' None,
    PORT_ITEM_INT ''logAnnounceInterval'' 1 (-128) 127,
    PORT_ITEM_INT ''logMinDelayReqInterval'' 0 (-128) 127,
    PORT_ITEM_INT ''logMinPdelayReqInterval'' 0 (-128) 127,
    PORT_ITEM_INT ''logSyncInterval'' 0 (-128) 127,
    GLOB_ITEM_INT ''logging_level'' 6 0 7,
    PORT_ITEM_INT ''masterOnly'' 0 0 1,
    GLOB_ITEM_INT ''maxStepsRemoved'' 255 2 255,
    GLOB_ITEM_STR ''message_tag'' None,
    GLOB_ITEM_STR ''manufacturerIdentity'' (Some ''00:00:00''),
    GLOB_ITEM_INT ''max_frequency'' 900000000 0 2147483647,
    PORT_ITEM_INT ''min_neighbor_prop_delay'' (-20000000) (-2147483648) (-1),
    PORT_ITEM_INT ''msg_interval_request'' 0 0 1,
    PORT_ITEM_INT ''gptp_capable_transmit'' 1 0 1,
    PORT_ITEM_INT ''neighborPropDelayThresh'' 20000000 0 2147483647,
    PORT_ITEM_INT ''net_sync_monitor'' 0 0 1,
    PORT_ITEM_ENU ''network_transport'' 1 nw_trans_enu,
    GLOB_ITEM_INT ''ntpshm_segment'' 0 (-2147483648) 2147483647,
    GLOB_ITEM_INT ''offsetScaledLogVariance'' 65535 0 65535,
    PORT_ITEM_INT ''operLogPdelayReqInterval'' 0 (-128) 127,
    PORT_ITEM_INT ''operLogSyncInterval'' 0 (-128) 127,
    PORT_ITEM_STR ''p2p_dst_ipv4'' (Some ''224.0.0.107''),
    PORT_ITEM_STR ''p2p_dst_ipv6'' (Some ''FF02:0:0:0:0:0:0:6B''),
    PORT_ITEM_STR ''p2p_dst_mac'' (Some ''01:80:C2:00:00:0E''),
    PORT_ITEM_INT ''path_trace_enabled'' 0 0 1,
    PORT_ITEM_INT ''phc_index'' (-1) (-1) 2147483647,
    GLOB_ITEM_DBL ''pi_integral_const'' 0 0 DBL_MAX,
    GLOB_ITEM_DBL ''pi_integral_exponent'' (rnd64 (4 / 10)) (- DBL_MAX) DBL_MAX,
    GLOB_ITEM_DBL ''pi_integral_norm_max'' (rnd64 (3 / 10)) DBL_MIN 2,
    GLOB_ITEM_DBL ''pi_integral_scale'' 0 0 DBL_MAX,
    GLOB_ITEM_DBL ''pi_proportional_const'' 0 0 DBL_MAX,
    GLOB_ITEM_DBL ''pi_proportional_exponent'' (rnd64 (- 3 / 10)) (- DBL_MAX) DBL_MAX,
    GLOB_ITEM_DBL ''pi_proportional_norm_max'' (rnd64 (7 / 10)) DBL_MIN 1,
    GLOB_ITEM_DBL ''pi_proportional_scale'' 0 0 DBL_MAX,
    PORT_ITEM_ENU ''power_profile.version'' 0 ieee_c37_238_enu,
    PORT_ITEM_INT ''power_profile.2011.grandmasterTimeInaccuracy'' (-1) (-1) 2147483647,
    PORT_ITEM_INT ''power_profile.2011.networkTimeInaccuracy'' (-1) (-1) 2147483647,
    PORT_ITEM_INT ''power_profile.2017.totalTimeInaccuracy'' (-1) (-1) 2147483647,
    PORT_ITEM_INT ''power_profile.grandmasterID'' 0 0 65535,
    GLOB_ITEM_INT ''priority1'' 128 0 255,
    GLOB_ITEM_INT ''priority2'' 128 0 255,
    GLOB_ITEM_STR ''productDescription'' (Some '';;''),
    PORT_ITEM_STR ''ptp_dst_ipv4'' (Some ''224.0.1.129''),
    PORT_ITEM_STR ''ptp_dst_ipv6'' (Some ''FF0E:0:0:0:0:0:0:181''),
    PORT_ITEM_STR ''ptp_dst_mac'' (Some ''01:1B:19:00:00:00''),
    GLOB_ITEM_INT ''ptp_minor_version'' 1 0 1,
    GLOB_ITEM_STR ''refclock_sock_address'' (Some ''/var/run/refclock.ptp.sock''),
    GLOB_ITEM_STR ''revisionData'' (Some '';;''),
    GLOB_ITEM_STR ''sa_file'' None,
    GLOB_ITEM_INT ''sanity_freq_limit'' 200000000 0 2147483647,
    PORT_ITEM_INT ''serverOnly'' 0 0 1,
    GLOB_ITEM_INT ''servo_num_offset_values'' 10 0 2147483647,
    GLOB_ITEM_INT ''servo_offset_threshold'' 0 0 2147483647,
    GLOB_ITEM_STR ''slave_event_monitor'' (Some []),
    GLOB_ITEM_INT ''slaveOnly'' 0 0 1,
    GLOB_ITEM_INT ''socket_priority'' 0 0 15,
    PORT_ITEM_INT ''spp'' (-1) (-1) 255,
    GLOB_ITEM_DBL ''step_threshold'' 0 0 DBL_MAX,
    GLOB_ITEM_INT ''step_window'' 0 0 2147483647,
    GLOB_ITEM_INT ''summary_interval'' 0 (-2147483648) 2147483647,
    PORT_ITEM_INT ''syncReceiptTimeout'' 0 0 255,
    GLOB_ITEM_INT ''tc_spanning_tree'' 0 0 1,
    GLOB_ITEM_INT ''timeSource'' 160 16 254,
    GLOB_ITEM_ENU ''time_stamping'' 1 timestamping_enu,
    PORT_ITEM_INT ''transportSpecific'' 0 0 15,
    PORT_ITEM_INT ''ts2phc.channel'' 0 0 2147483647,
    PORT_ITEM_INT ''ts2phc.extts_correction'' 0 (-2147483648) 2147483647,
    PORT_ITEM_ENU ''ts2phc.extts_polarity'' 2 extts_polarity_enu,
    PORT_ITEM_INT ''ts2phc.holdover'' 0 0 2147483647,
    PORT_ITEM_INT ''ts2phc.master'' 0 0 1,
    PORT_ITEM_INT ''ts2phc.nmea_baudrate'' 9600 300 2147483647,
    PORT_ITEM_INT ''ts2phc.nmea_delay'' 0 (-2147483648) 2147483647,
    GLOB_ITEM_STR ''ts2phc.nmea_remote_host'' (Some []),
    GLOB_ITEM_STR ''ts2phc.nmea_remote_port'' (Some []),
    GLOB_ITEM_STR ''ts2phc.nmea_serialport'' (Some ''/dev/ttyS0''),
    PORT_ITEM_INT ''ts2phc.perout_phase'' (-1) 0 999999999,
    PORT_ITEM_INT ''ts2phc.pin_index'' 0 0 2147483647,
    GLOB_ITEM_INT ''ts2phc.pulsewidth'' 500000000 1000000 999000000,
    GLOB_ITEM_STR ''ts2phc.tod_source'' (Some ''generic''),
    PORT_ITEM_ENU ''tsproc_mode'' 0 tsproc_enu,
    GLOB_ITEM_INT ''twoStepFlag'' 1 0 1,
    GLOB_ITEM_INT ''tx_timestamp_timeout'' 10 1 2147483647,
    PORT_ITEM_INT ''udp_ttl'' 1 1 255,
    PORT_ITEM_INT ''udp6_scope'' 14 0 15,
    GLOB_ITEM_STR ''uds_address'' (Some ''/var/run/ptp4l''),
    PORT_ITEM_INT ''uds_file_mode'' 432 0 511,
    GLOB_ITEM_STR ''uds_ro_address'' (Some ''/var/run/ptp4lro''),
    PORT_ITEM_INT ''uds_ro_file_mode'' 438 0 511,
    PORT_ITEM_INT ''unicast_listen'' 0 0 1,
    PORT_ITEM_INT ''unicast_master_table'' 0 0 2147483647,
    PORT_ITEM_INT ''unicast_req_duration'' 3600 10 2147483647,
    GLOB_ITEM_INT ''use_syslog'' 1 0 1,
    GLOB_ITEM_STR ''userDescription'' (Some []),
    GLOB_ITEM_INT ''utc_offset'' 37 0 2147483647,
    GLOB_ITEM_INT ''verbose'' 0 0 1,
    GLOB_ITEM_INT ''write_phase_mode'' 0 0 1]"

section \<open>Facts on the table\<close>

lemmas config_item_defs = config_item_def CONFIG_ITEM_DBL_def CONFIG_ITEM_ENUM_def CONFIG_ITEM_INT_def CONFIG_ITEM_UINT_def
  CONFIG_ITEM_STRING_def

lemma config_item_sels [simp]:
  "ci_label (CONFIG_ITEM_DBL l p d mn mx) = l" "ci_label (CONFIG_ITEM_ENUM l p i t) = l" "ci_label (CONFIG_ITEM_INT l p i a b) = l"
  "ci_label (CONFIG_ITEM_UINT l p i a b) = l" "ci_label (CONFIG_ITEM_STRING l p s) = l"
  "ci_port (CONFIG_ITEM_DBL l p d mn mx) = p" "ci_port (CONFIG_ITEM_ENUM l p i t) = p" "ci_port (CONFIG_ITEM_INT l p i a b) = p"
  "ci_port (CONFIG_ITEM_UINT l p i a b) = p" "ci_port (CONFIG_ITEM_STRING l p s) = p"
  by (simp_all add: config_item_defs)

definition config_labels :: "(string \<times> bool) list" where
  "config_labels = [
    (''active_key_id'', True), (''allow_unauth'', True), (''allowedLostResponses'', True),
    (''announceReceiptTimeout'', True), (''asCapable'', True), (''assume_two_step'', False),
    (''boundary_clock_jbod'', True), (''BMCA'', True), (''check_fup_sync'', False), (''clientOnly'', False),
    (''clockAccuracy'', False), (''clockClass'', False), (''clockIdentity'', False),
    (''clock_class_threshold'', False), (''clock_servo'', False), (''clock_type'', False),
    (''cmlds.client_address'', True), (''cmlds.domainNumber'', True), (''cmlds.majorSdoId'', True),
    (''cmlds.port'', True), (''cmlds.server_address'', True), (''dataset_comparison'', False),
    (''delayAsymmetry'', True), (''delay_filter'', True), (''delay_filter_length'', True),
    (''delay_mechanism'', True), (''delay_response_timeout'', True), (''dscp_event'', False),
    (''dscp_general'', False), (''domainNumber'', False), (''egressLatency'', True),
    (''fault_badpeernet_interval'', True), (''fault_reset_interval'', True), (''first_step_threshold'', False),
    (''follow_up_info'', True), (''free_running'', False), (''freq_est_interval'', True),
    (''G.8275.defaultDS.localPriority'', False), (''G.8275.portDS.localPriority'', True), (''gmCapable'', False),
    (''hwts_filter'', False), (''hybrid_e2e'', True), (''ignore_source_id'', True),
    (''ignore_transport_specific'', True), (''ingressLatency'', True), (''inhibit_announce'', True),
    (''inhibit_delay_req'', True), (''inhibit_multicast_service'', True), (''initial_delay'', False),
    (''interface_rate_tlv'', True), (''kernel_leap'', False), (''leapfile'', False), (''logAnnounceInterval'', True),
    (''logMinDelayReqInterval'', True), (''logMinPdelayReqInterval'', True), (''logSyncInterval'', True),
    (''logging_level'', False), (''masterOnly'', True), (''maxStepsRemoved'', False), (''message_tag'', False),
    (''manufacturerIdentity'', False), (''max_frequency'', False), (''min_neighbor_prop_delay'', True),
    (''msg_interval_request'', True), (''gptp_capable_transmit'', True), (''neighborPropDelayThresh'', True),
    (''net_sync_monitor'', True), (''network_transport'', True), (''ntpshm_segment'', False),
    (''offsetScaledLogVariance'', False), (''operLogPdelayReqInterval'', True), (''operLogSyncInterval'', True),
    (''p2p_dst_ipv4'', True), (''p2p_dst_ipv6'', True), (''p2p_dst_mac'', True), (''path_trace_enabled'', True),
    (''phc_index'', True), (''pi_integral_const'', False), (''pi_integral_exponent'', False),
    (''pi_integral_norm_max'', False), (''pi_integral_scale'', False), (''pi_proportional_const'', False),
    (''pi_proportional_exponent'', False), (''pi_proportional_norm_max'', False), (''pi_proportional_scale'', False),
    (''power_profile.version'', True), (''power_profile.2011.grandmasterTimeInaccuracy'', True),
    (''power_profile.2011.networkTimeInaccuracy'', True), (''power_profile.2017.totalTimeInaccuracy'', True),
    (''power_profile.grandmasterID'', True), (''priority1'', False), (''priority2'', False),
    (''productDescription'', False), (''ptp_dst_ipv4'', True), (''ptp_dst_ipv6'', True), (''ptp_dst_mac'', True),
    (''ptp_minor_version'', False), (''refclock_sock_address'', False), (''revisionData'', False),
    (''sa_file'', False), (''sanity_freq_limit'', False), (''serverOnly'', True),
    (''servo_num_offset_values'', False), (''servo_offset_threshold'', False), (''slave_event_monitor'', False),
    (''slaveOnly'', False), (''socket_priority'', False), (''spp'', True), (''step_threshold'', False),
    (''step_window'', False), (''summary_interval'', False), (''syncReceiptTimeout'', True),
    (''tc_spanning_tree'', False), (''timeSource'', False), (''time_stamping'', False),
    (''transportSpecific'', True), (''ts2phc.channel'', True), (''ts2phc.extts_correction'', True),
    (''ts2phc.extts_polarity'', True), (''ts2phc.holdover'', True), (''ts2phc.master'', True),
    (''ts2phc.nmea_baudrate'', True), (''ts2phc.nmea_delay'', True), (''ts2phc.nmea_remote_host'', False),
    (''ts2phc.nmea_remote_port'', False), (''ts2phc.nmea_serialport'', False), (''ts2phc.perout_phase'', True),
    (''ts2phc.pin_index'', True), (''ts2phc.pulsewidth'', False), (''ts2phc.tod_source'', False),
    (''tsproc_mode'', True), (''twoStepFlag'', False), (''tx_timestamp_timeout'', False), (''udp_ttl'', True),
    (''udp6_scope'', True), (''uds_address'', False), (''uds_file_mode'', True), (''uds_ro_address'', False),
    (''uds_ro_file_mode'', True), (''unicast_listen'', True), (''unicast_master_table'', True),
    (''unicast_req_duration'', True), (''use_syslog'', False), (''userDescription'', False), (''utc_offset'', False),
    (''verbose'', False), (''write_phase_mode'', False)]"

lemma config_labels_eq: "map (\<lambda>ci. (ci_label ci, ci_port ci)) (config_tab c) = config_labels"
  by (simp add: config_tab_def config_labels_def)

text \<open>The parts of a label that follow a dot.\<close>

fun dot_suffixes :: "string \<Rightarrow> string list" where
  "dot_suffixes [] = []"
| "dot_suffixes (c # s) = (if c = CHR ''.'' then s # dot_suffixes s else dot_suffixes s)"

lemma dot_suffix_iff: "x \<in> set (dot_suffixes s) \<longleftrightarrow> (\<exists>p. s = p @ ''.'' @ x)"
proof (induction s)
  case (Cons c s)
  show ?case
  proof (cases "c = CHR ''.'' \<and> x = s")
    case False
    then show ?thesis using Cons by (auto simp: Cons_eq_append_conv)
  qed auto
qed simp

text \<open>Strings are compared through the numbers that their characters spell.\<close>

definition string_key :: "string \<Rightarrow> int" where
  "string_key = foldl (\<lambda>a c. 256 * a + of_char c) 0"

fun ascending :: "int list \<Rightarrow> bool" where
  "ascending (x # y # r) \<longleftrightarrow> x < y \<and> ascending (y # r)"
| "ascending _ \<longleftrightarrow> True"

fun apart :: "int list \<Rightarrow> int list \<Rightarrow> bool" where
  "apart [] ys \<longleftrightarrow> True"
| "apart (x # xs) ys \<longleftrightarrow> x \<notin> set ys \<and> apart xs ys"

lemma ascending_distinct: "ascending xs \<Longrightarrow> distinct xs"
proof -
  assume "ascending xs"
  then have "sorted_wrt (<) xs" by (induction xs rule: ascending.induct) auto
  then show ?thesis using strict_sorted_iff by blast
qed

lemma apart_iff: "apart xs ys \<longleftrightarrow> set xs \<inter> set ys = {}"
  by (induction xs) auto

lemma labels_ascending: "ascending (sort (map (string_key \<circ> fst) config_labels))"
  by code_simp

lemma labels_apart: "apart (map string_key (concat (map (dot_suffixes \<circ> fst) config_labels)))
    (map (string_key \<circ> fst) (filter snd config_labels))"
  by code_simp

lemma labels_distinct: "distinct (map fst config_labels)"
proof -
  have "distinct (map string_key (map fst config_labels))" using ascending_distinct [OF labels_ascending] by simp
  then show ?thesis unfolding distinct_map [of string_key] by blast
qed

lemma labels_short: "list_all (\<lambda>l. length (fst l) < 48) config_labels"
  by code_simp

text \<open>No label ends, behind a dot, in the label of an option that may appear in a port section.\<close>

lemma labels_no_port_suffix:
  assumes "(p @ ''.'' @ x, b) \<in> set config_labels"
  shows "(x, True) \<notin> set config_labels"
proof
  assume "(x, True) \<in> set config_labels"
  then have "string_key x \<in> set (map (string_key \<circ> fst) (filter snd config_labels))" by force
  moreover have "x \<in> set (concat (map (dot_suffixes \<circ> fst) config_labels))"
    using assms dot_suffix_iff [of x "p @ ''.'' @ x"] by force
  then have "string_key x \<in> set (map string_key (concat (map (dot_suffixes \<circ> fst) config_labels)))" by simp
  ultimately show False using labels_apart unfolding apart_iff by blast
qed

end
