(* ===== verification/Util.thy ===== *)
theory Util
  imports Cstring Fsm Ptp_Types "HOL-Library.Monad_Syntax"
begin

text \<open>
  \<open>util.c\<close>: text forms of clock and port identities, addresses from text, the decoding of base 64 keys, growing pointer arrays
  and the treatment of leap seconds.
  The functions \<open>inet_aton\<close> and \<open>inet_pton\<close> of the system and \<open>sk_interface_macaddr\<close> are arguments.
\<close>

unbundle bit_operations_syntax

section \<open>Numbers as text\<close>

definition hex_digit :: "nat \<Rightarrow> char" where
  "hex_digit n = ''0123456789abcdef'' ! n"

definition hex2 :: "u8 \<Rightarrow> string" where \<comment> \<open>\<open>%02x\<close>\<close>
  "hex2 b = [hex_digit (unat b div 16), hex_digit (unat b mod 16)]"

fun decimal :: "nat \<Rightarrow> string" where \<comment> \<open>\<open>%u\<close>\<close>
  "decimal n = (if n < 10 then [hex_digit n] else decimal (n div 10) @ [hex_digit (n mod 10)])"

declare decimal.simps [simp del]

text \<open>\<open>%hhx\<close> of \<open>sscanf\<close>, with a width (0: none). As the C standard has it, the input item is the longest piece of input that
  starts a number, so a prefix \<open>0x\<close> without digits is a failure.\<close>

definition scan_hhx :: "nat \<Rightarrow> string \<Rightarrow> (u8 \<times> string) option" where
  "scan_hhx w s =
    (let r = skip_space s; (neg, f) = scan_sign (if w = 0 then r else take w r);
         d = digits 16 (if hex_prefix f then drop 2 f else f); n = number 16 d;
         used = (length (if w = 0 then r else take w r) - length f) + (if hex_prefix f then 2 else 0) + length d
     in if d = [] then None
        else Some (word_of_int (if ULONG_MAX < n then ULONG_MAX else if neg then - n else n), drop used r))"

definition scan_hu :: "string \<Rightarrow> (u16 \<times> string) option" where
  "scan_hu s = (case strtoul 10 s of None \<Rightarrow> None | Some (v, _, rest) \<Rightarrow> Some (word_of_int v, rest))"

section \<open>Identities\<close>

definition cid2str :: "ClockIdentity \<Rightarrow> string" where
  "cid2str p = hex2 (p ! 0) @ hex2 (p ! 1) @ hex2 (p ! 2) @ ''.'' @ hex2 (p ! 3) @ hex2 (p ! 4) @ ''.'' @
     hex2 (p ! 5) @ hex2 (p ! 6) @ hex2 (p ! 7)"

definition pid2str :: "PortIdentity \<Rightarrow> string" where
  "pid2str p = cid2str (clockIdentity p) @ ''-'' @ decimal (unat (portNumber p))"

definition scan_cid :: "string \<Rightarrow> (ClockIdentity \<times> string) option" where
  "scan_cid s = do {
     (a, s) \<leftarrow> scan_hhx 2 (skip_space s); (b, s) \<leftarrow> scan_hhx 2 s; (c, s) \<leftarrow> scan_hhx 2 s; s \<leftarrow> scan_literal ''.'' s;
     (d, s) \<leftarrow> scan_hhx 2 s; (e, s) \<leftarrow> scan_hhx 2 s; s \<leftarrow> scan_literal ''.'' s;
     (f, s) \<leftarrow> scan_hhx 2 s; (g, s) \<leftarrow> scan_hhx 2 s; (h, s) \<leftarrow> scan_hhx 2 s;
     Some ([a, b, c, d, e, f, g, h], s) }"

text \<open>\<open>None\<close> is the return value -1; what follows the last conversion is not looked at.\<close>

definition str2cid :: "string \<Rightarrow> ClockIdentity option" where
  "str2cid s = do { (cid, _) \<leftarrow> scan_cid s; Some cid }"

definition str2pid :: "string \<Rightarrow> PortIdentity option" where
  "str2pid s = do {
     (cid, s) \<leftarrow> scan_cid s; s \<leftarrow> scan_literal ''-'' s; (n, _) \<leftarrow> scan_hu s;
     Some \<lparr>clockIdentity = cid, portNumber = n\<rparr> }"

definition generate_clock_identity :: "(string \<Rightarrow> (nat \<times> u8 list) option) \<Rightarrow> string \<Rightarrow> ClockIdentity option" where
  "generate_clock_identity sk_interface_macaddr name =
    (case sk_interface_macaddr name of
       None \<Rightarrow> None
     | Some (halen, a) \<Rightarrow>
         if halen = 6 then Some [a ! 0, a ! 1, a ! 2, 0xFF, 0xFE, a ! 3, a ! 4, a ! 5]
         else if halen = 8 then Some [a ! 0, a ! 1, a ! 2, a ! 3, a ! 4, a ! 5, a ! 6, a ! 7]
         else None)"

definition port_state_normalize :: "port_state \<Rightarrow> port_state" where
  "port_state_normalize s = (if s \<in> {PS_MASTER, PS_SLAVE, PS_PRE_MASTER, PS_UNCALIBRATED} then s else PS_DISABLED)"

section \<open>Addresses\<close>

definition str2mac :: "string \<Rightarrow> u8 list option" where
  "str2mac s = do {
     (a, s) \<leftarrow> scan_hhx 0 s; s \<leftarrow> scan_literal '':'' s; (b, s) \<leftarrow> scan_hhx 0 s; s \<leftarrow> scan_literal '':'' s;
     (c, s) \<leftarrow> scan_hhx 0 s; s \<leftarrow> scan_literal '':'' s; (d, s) \<leftarrow> scan_hhx 0 s; s \<leftarrow> scan_literal '':'' s;
     (e, s) \<leftarrow> scan_hhx 0 s; s \<leftarrow> scan_literal '':'' s; (f, s) \<leftarrow> scan_hhx 0 s;
     Some [a, b, c, d, e, f] }"

definition overlay :: "u8 list \<Rightarrow> nat \<Rightarrow> u8 list \<Rightarrow> u8 list" where
  "overlay m off bs = take off m @ bs @ drop (off + length bs) m"

text \<open>The families are \<open>AF_INET\<close> = 2, \<open>AF_INET6\<close> = 10 and \<open>AF_PACKET\<close> = 17, in the byte order of the host (little endian).\<close>

definition str2addr ::
    "(string \<Rightarrow> u8 list option) \<Rightarrow> (string \<Rightarrow> u8 list option) \<Rightarrow> transport_type \<Rightarrow> string \<Rightarrow> address option" where
  "str2addr inet_aton inet_pton6 ty s =
    (let zero = replicate 128 0 in
     case ty of
       TRANS_UDP_IPV4 \<Rightarrow> do { a \<leftarrow> inet_aton s; Some \<lparr>addr_len = 16, addr_ss = overlay (overlay zero 0 [2, 0]) 4 a\<rparr> }
     | TRANS_UDP_IPV6 \<Rightarrow> do { a \<leftarrow> inet_pton6 s; Some \<lparr>addr_len = 28, addr_ss = overlay (overlay zero 0 [10, 0]) 8 a\<rparr> }
     | TRANS_IEEE_802_3 \<Rightarrow>
         do { a \<leftarrow> str2mac s; Some \<lparr>addr_len = 20, addr_ss = overlay (overlay (overlay zero 0 [17, 0]) 11 [6]) 12 a\<rparr> }
     | _ \<Rightarrow> None)"

section \<open>Base 64\<close>

text \<open>The array \<open>B64\<close> maps the characters from \<open>+\<close> to \<open>z\<close> to their six bits.\<close>

definition B64 :: "int list" where
  "B64 = [62, -1, -1, -1, 63, 52, 53, 54, 55, 56, 57, 58, 59, 60, 61, -1, -1, -1, -1, -1, -1, -1, 0, 1, 2, 3, 4, 5, 6, 7, 8, 9, 10,
     11, 12, 13, 14, 15, 16, 17, 18, 19, 20, 21, 22, 23, 24, 25, -1, -1, -1, -1, -1, -1, 26, 27, 28, 29, 30, 31, 32, 33, 34,
     35, 36, 37, 38, 39, 40, 41, 42, 43, 44, 45, 46, 47, 48, 49, 50, 51]"

definition parseB64 :: "u8 \<Rightarrow> int" where
  "parseB64 c = (if sint c < 43 \<or> 122 < sint c then - 1 else B64 ! nat (sint c - 43))"

definition base64_len :: "u8 list \<Rightarrow> int" where
  "base64_len str =
    (let len = length str in
     if len < 2 then 0
     else if len mod 4 = 0
     then int (len div 4) * 3 - (if str ! (len - 1) = 61 then 1 else 0) - (if str ! (len - 2) = 61 then 1 else 0)
     else int (len div 4) * 3 + (if 2 < len mod 4 then 2 else 1))"

text \<open>The decoder reads and writes one memory, since its caller decodes a key in place. \<open>d i\<close> are the six bits of the
  four characters, as octets.\<close>

definition quad_bytes :: "u8 \<Rightarrow> u8 \<Rightarrow> u8 \<Rightarrow> u8 \<Rightarrow> u8 list" where
  "quad_bytes d0 d1 d2 d3 =
    [(push_bit 2 d0 AND 0xfc) OR (drop_bit 4 d1 AND 0x03),
     (push_bit 4 d1 AND 0xf0) OR (drop_bit 2 d2 AND 0x0f),
     (push_bit 6 d2 AND 0xc0) OR (d3 AND 0x3f)]"

definition read_b64 :: "u8 list \<Rightarrow> nat \<Rightarrow> nat \<Rightarrow> u8 list option" where
  "read_b64 m pos n =
    (let r = map (\<lambda>i. parseB64 (m ! (pos + i))) [0..<n] in if list_ex (\<lambda>x. x < 0) r then None else Some (map word_of_int r))"

text \<open>Storing the octets for which there is room; the result is the memory, the next place and the room left.\<close>

fun put_bytes :: "u8 list \<Rightarrow> nat \<Rightarrow> nat \<Rightarrow> u8 list \<Rightarrow> u8 list \<times> nat \<times> nat" where
  "put_bytes m cur len [] = (m, cur, len)"
| "put_bytes m cur len (b # bs) = (if len = 0 then put_bytes m cur len bs else put_bytes (m[cur := b]) (Suc cur) (len - 1) bs)"

fun b64_loop :: "u8 list \<Rightarrow> nat \<Rightarrow> nat \<Rightarrow> nat \<Rightarrow> nat \<Rightarrow> (u8 list \<times> nat \<times> nat \<times> nat \<times> nat) option" where
  "b64_loop m inp in_len cur len =
    (if in_len \<le> 4 then Some (m, inp, in_len, cur, len)
     else case read_b64 m inp 4 of
       None \<Rightarrow> None
     | Some d \<Rightarrow>
         let (m, cur, len) = put_bytes m cur len (quad_bytes (d ! 0) (d ! 1) (d ! 2) (d ! 3))
         in b64_loop m (inp + 4) (in_len - 4) cur len)"

declare b64_loop.simps [simp del]

definition unpadded :: "u8 list \<Rightarrow> nat \<Rightarrow> nat \<Rightarrow> nat" where
  "unpadded m inp in_len =
    (let in_len = if in_len = 4 \<and> m ! (inp + 3) = 61 then in_len - 1 else in_len
     in if in_len = 3 \<and> m ! (inp + 2) = 61 then in_len - 1 else in_len)"

text \<open>\<open>None\<close> is \<open>false\<close>; otherwise the memory and the number of octets stored. \<open>in_len\<close> is positive.\<close>

definition base64_decode :: "u8 list \<Rightarrow> nat \<Rightarrow> nat \<Rightarrow> nat \<Rightarrow> nat \<Rightarrow> (u8 list \<times> nat) option" where
  "base64_decode m inp in_len out out_len =
    (case b64_loop m inp in_len out out_len of
       None \<Rightarrow> None
     | Some (m, inp, in_len, cur, len) \<Rightarrow>
         if in_len < 2 then None
         else let in_len = unpadded m inp in_len in
           case read_b64 m inp in_len of
             None \<Rightarrow> None
           | Some d \<Rightarrow>
               let (m, cur, len) = put_bytes m cur len (take (in_len - 1)
                     (quad_bytes (d ! 0) (d ! 1) (if 2 < in_len then d ! 2 else 0) (if in_len = 4 then d ! 3 else 0)))
               in Some (m, out_len - len))"

section \<open>Pointer arrays\<close>

text \<open>An array of pointers that ends with \<open>NULL\<close>, in a block of memory: the list is the block. \<open>None\<close>, as a result, is an
  access outside of the block or an overflow of the size, a signed integer. Cells of a grown block hold \<open>junk\<close>.\<close>

definition parray_new :: "'p option list" where
  "parray_new = [None]"

fun first_null :: "'p option list \<Rightarrow> nat option" where
  "first_null [] = None"
| "first_null (None # a) = Some 0"
| "first_null (Some _ # a) = map_option Suc (first_null a)"

function double_until :: "nat \<Rightarrow> nat \<Rightarrow> nat option" where
  "double_until alloced n =
    (if n \<le> alloced then Some alloced else if alloced = 0 \<or> 2 ^ 30 \<le> alloced then None else double_until (2 * alloced) n)"
  by pat_completeness auto
termination by (relation "measure (\<lambda>(a, n). n - a)") auto

declare double_until.simps [simp del]

fun write_at :: "'p option list \<Rightarrow> nat \<Rightarrow> 'p option list \<Rightarrow> 'p option list option" where
  "write_at a i [] = Some a"
| "write_at a i (p # ps) = (if i < length a then write_at (a[i := p]) (Suc i) ps else None)"

definition xrealloc :: "(nat \<Rightarrow> 'p option) \<Rightarrow> 'p option list \<Rightarrow> nat \<Rightarrow> 'p option list" where
  "xrealloc junk a n = take n a @ map junk [length a..<n]"

definition parray_extend :: "(nat \<Rightarrow> 'p option) \<Rightarrow> 'p option list \<Rightarrow> 'p list \<Rightarrow> 'p option list option" where
  "parray_extend junk a ps = do {
     k \<leftarrow> first_null a;
     alloced \<leftarrow> double_until 1 (Suc k);
     size \<leftarrow> (if alloced < Suc k + length ps then double_until alloced (Suc k + length ps) else Some (length a));
     let a = (if alloced < Suc k + length ps then xrealloc junk a size else a);
     write_at a k (map Some ps @ [None]) }"

definition parray_append :: "(nat \<Rightarrow> 'p option) \<Rightarrow> 'p option list \<Rightarrow> 'p \<Rightarrow> 'p option list option" where
  "parray_append junk a p = parray_extend junk a [p]"

section \<open>Leap seconds\<close>

abbreviation "NS_PER_HOUR \<equiv> 3600 * NS_PER_SEC :: u64"
abbreviation "NS_PER_DAY \<equiv> 24 * NS_PER_HOUR :: u64"

definition is_utc_ambiguous :: "u64 \<Rightarrow> bool" where
  "is_utc_ambiguous ts \<longleftrightarrow> NS_PER_DAY - ts mod NS_PER_DAY \<le> NS_PER_SEC"

text \<open>The result is the status, \<open>*leap\<close> and \<open>*utc_offset\<close>.\<close>

definition leap_second_status :: "u64 \<Rightarrow> int \<Rightarrow> int \<Rightarrow> int \<Rightarrow> int \<times> int \<times> int" where
  "leap_second_status ts leap_set leap utc_offset =
    (let leap_status = if 6 * NS_PER_HOUR < ts mod NS_PER_DAY then (if \<not> truthy leap_set then leap else leap_set) else 0
     in if \<not> truthy leap \<and> truthy leap_status then (leap_status, leap_status, utc_offset - leap_status)
        else if truthy leap \<and> \<not> truthy leap_status then (leap_status, leap_status, utc_offset + leap)
        else (leap_status, leap, utc_offset))"

end
