(* ===== verification/Config.thy ===== *)
theory Config
  imports Config_Table Util Port_Types
begin

text \<open>
  \<open>config.c\<close> and \<open>interface.c\<close>: look-up of options, the command line, configuration files, unicast master tables and
  the accessors that the other components call.

  The items live in a store: a pointer to a \<open>struct config_item\<close> is an index into \<open>items\<close>, the elements of \<open>config_tab\<close>
  first. The static variable \<open>current_uc_mtab\<close> is a field of the state and points into \<open>unicast_master_tables\<close>.
  \<open>mem n\<close> tells whether the \<open>n\<close>-th allocation of the process succeeds. A result \<open>None\<close> of an operation that
  returns an option of its C value stands for a call that does not return: the process exits, or it
  dereferences \<open>NULL\<close> or reads a variable that was never set. Messages to the user are left out.
\<close>

section \<open>Interfaces (interface.c)\<close>

abbreviation "MAX_IFNAME_SIZE \<equiv> 108 :: nat"

record sk_ts_info =
  ts_valid :: int
  ts_phc_index :: int
  so_timestamping :: u32
  tx_types :: u32
  rx_filters :: u32

record sk_if_info =
  if_valid :: bool
  if_speed :: u32
  iface_bit_period :: u64

record interface =
  if_name :: string
  if_ts_label :: string
  if_remote :: string
  if_ts_info :: sk_ts_info
  if_if_info :: sk_if_info
  if_vclock :: int

definition zero_ts_info :: sk_ts_info where
  "zero_ts_info = \<lparr>ts_valid = 0, ts_phc_index = 0, so_timestamping = 0, tx_types = 0, rx_filters = 0\<rparr>"

definition zero_if_info :: sk_if_info where
  "zero_if_info = \<lparr>if_valid = False, if_speed = 0, iface_bit_period = 0\<rparr>"

definition interface_create :: "bool \<Rightarrow> string \<Rightarrow> string option \<Rightarrow> interface option" where
  "interface_create m name remote =
    (if \<not> m then None
     else Some \<lparr>if_name = take MAX_IFNAME_SIZE name, if_ts_label = take MAX_IFNAME_SIZE name,
       if_remote = (case remote of None \<Rightarrow> [] | Some r \<Rightarrow> take MAX_IFNAME_SIZE r),
       if_ts_info = zero_ts_info, if_if_info = zero_if_info, if_vclock = - 1\<rparr>)"

definition interface_get_tsinfo :: "(string \<Rightarrow> int \<times> sk_ts_info) \<Rightarrow> interface \<Rightarrow> int \<times> interface" where
  "interface_get_tsinfo sk_get_ts_info iface =
    (let (r, info) = sk_get_ts_info (if_ts_label iface) in (r, iface\<lparr>if_ts_info := info\<rparr>))"

definition interface_get_ifinfo :: "(string \<Rightarrow> int \<times> sk_if_info) \<Rightarrow> interface \<Rightarrow> int \<times> interface" where
  "interface_get_ifinfo sk_get_if_info iface =
    (let (r, info) = sk_get_if_info (if_ts_label iface) in (r, iface\<lparr>if_if_info := info\<rparr>))"

definition interface_tsinfo_valid :: "interface \<Rightarrow> bool" where
  "interface_tsinfo_valid iface \<longleftrightarrow> truthy (ts_valid (if_ts_info iface))"

definition interface_ifinfo_valid :: "interface \<Rightarrow> bool" where
  "interface_ifinfo_valid iface = if_valid (if_if_info iface)"

definition interface_tsmodes_supported :: "interface \<Rightarrow> u32 \<Rightarrow> bool" where
  "interface_tsmodes_supported iface modes \<longleftrightarrow> and (so_timestamping (if_ts_info iface)) modes = modes"

definition interface_set_label :: "interface \<Rightarrow> string \<Rightarrow> interface" where
  "interface_set_label iface lab = iface\<lparr>if_ts_label := take MAX_IFNAME_SIZE lab\<rparr>"

definition interface_set_vclock :: "interface \<Rightarrow> int \<Rightarrow> interface" where
  "interface_set_vclock iface vclock = iface\<lparr>if_vclock := vclock\<rparr>"

section \<open>State\<close>

abbreviation "CONFIG_LABEL_SIZE \<equiv> 64 :: nat"

record cfg_mtab = unicast_master_table +
  table_index :: int
  ut_count :: int
  ut_port :: int

record config =
  interfaces :: "interface list"
  n_interfaces :: int
  opts :: "string list"
  htab :: "nat hash"
  items :: "config_item list"
  unicast_master_tables :: "cfg_mtab list"
  current_uc_mtab :: "nat option"
  allocs :: nat

datatype config_section = GLOBAL_SECTION | UC_MTAB_SECTION | PORT_SECTION | UNKNOWN_SECTION

definition alloc :: "(nat \<Rightarrow> bool) \<Rightarrow> config \<Rightarrow> bool \<times> config" where
  "alloc mem cfg = (mem (allocs cfg), cfg\<lparr>allocs := Suc (allocs cfg)\<rparr>)"

text \<open>\<open>hash_insert\<close> on the table of the configuration; it makes up to two allocations.\<close>

definition config_insert :: "(nat \<Rightarrow> bool) \<Rightarrow> config \<Rightarrow> string \<Rightarrow> nat \<Rightarrow> int \<times> config" where
  "config_insert mem cfg key p =
    (let (r, ht) = hash_insert (mem (allocs cfg)) (mem (Suc (allocs cfg))) (htab cfg) key p
     in (r, cfg\<lparr>htab := ht, allocs := allocs cfg + 2\<rparr>))"

definition set_item :: "config \<Rightarrow> nat \<Rightarrow> config_item \<Rightarrow> config" where
  "set_item cfg p ci = cfg\<lparr>items := (items cfg)[p := ci]\<rparr>"

section \<open>Items\<close>

definition config_key :: "string \<Rightarrow> string \<Rightarrow> string" where
  "config_key section name = section @ ''.'' @ name"

definition config_section_item :: "config \<Rightarrow> string \<Rightarrow> string \<Rightarrow> nat option" where
  "config_section_item cfg section name =
    (if CONFIG_LABEL_SIZE + MAX_IFNAME_SIZE \<le> length (config_key section name) then None
     else hash_lookup (htab cfg) (config_key section name))"

definition config_global_item :: "config \<Rightarrow> string \<Rightarrow> nat option" where
  "config_global_item cfg name = config_section_item cfg ''global'' name"

definition config_find_item :: "config \<Rightarrow> string option \<Rightarrow> string \<Rightarrow> nat option" where
  "config_find_item cfg section name =
    (case section of
       None \<Rightarrow> config_global_item cfg name
     | Some s \<Rightarrow> (case config_section_item cfg s name of Some p \<Rightarrow> Some p | None \<Rightarrow> config_global_item cfg name))"

definition config_item_alloc ::
    "(nat \<Rightarrow> bool) \<Rightarrow> config \<Rightarrow> string \<Rightarrow> string \<Rightarrow> config_type \<Rightarrow> nat option \<times> config" where
  "config_item_alloc mem cfg section name ty =
    (let (ok, cfg) = alloc mem cfg in
     if \<not> ok then (None, cfg)
     else let ci = config_item (take (CONFIG_LABEL_SIZE - 1) name) ty;
              buf = stored (CONFIG_LABEL_SIZE + MAX_IFNAME_SIZE) (config_key section (ci_label ci));
              p = length (items cfg);
              (r, cfg) = config_insert mem cfg buf p
          in if truthy r then (None, cfg) else (Some p, cfg\<lparr>items := items cfg @ [ci]\<rparr>))"

text \<open>What \<open>config_item_free\<close> frees: the string of the item, and the item itself.\<close>

definition config_item_free :: "config \<Rightarrow> nat \<Rightarrow> bool \<times> bool" where
  "config_item_free cfg p = (let ci = items cfg ! p in (ci_type ci = CFG_TYPE_STRING \<and> ci_dynstr ci, \<not> ci_static ci))"

section \<open>Setting values\<close>

definition config_set_double :: "config \<Rightarrow> string \<Rightarrow> dbl \<Rightarrow> int \<times> config" where
  "config_set_double cfg option val =
    (case config_find_item cfg None option of
       None \<Rightarrow> (- 1, cfg)
     | Some p \<Rightarrow>
         let ci = items cfg ! p in
         if ci_type ci \<noteq> CFG_TYPE_DOUBLE then (- 1, cfg)
         else (0, set_item cfg p (ci\<lparr>ci_locked := True, ci_val := D val\<rparr>)))"

definition config_set_section_int ::
    "(nat \<Rightarrow> bool) \<Rightarrow> config \<Rightarrow> string option \<Rightarrow> string \<Rightarrow> int \<Rightarrow> int \<times> config" where
  "config_set_section_int mem cfg section option val =
    (case config_find_item cfg None option of
       None \<Rightarrow> (- 1, cfg)
     | Some p \<Rightarrow>
         let cgi = items cfg ! p in
         if ci_type cgi \<in> {CFG_TYPE_DOUBLE, CFG_TYPE_STRING, CFG_TYPE_UINT} then (- 1, cfg)
         else case section of
           None \<Rightarrow> (0, set_item cfg p (cgi\<lparr>ci_locked := True, ci_val := I val\<rparr>))
         | Some s \<Rightarrow>
             (case (case config_section_item cfg s option of
                      Some q \<Rightarrow> (Some q, cfg)
                    | None \<Rightarrow> config_item_alloc mem cfg s option (ci_type cgi)) of
                (None, cfg) \<Rightarrow> (- 1, cfg)
              | (Some q, cfg) \<Rightarrow> (0, set_item cfg q ((items cfg ! q)\<lparr>ci_val := I val\<rparr>))))"

definition config_set_int :: "(nat \<Rightarrow> bool) \<Rightarrow> config \<Rightarrow> string \<Rightarrow> int \<Rightarrow> int \<times> config" where
  "config_set_int mem cfg option val = config_set_section_int mem cfg None option val"

definition config_set_uint :: "config \<Rightarrow> string \<Rightarrow> int \<Rightarrow> int \<times> config" where
  "config_set_uint cfg option val =
    (case config_find_item cfg None option of
       None \<Rightarrow> (- 1, cfg)
     | Some p \<Rightarrow>
         let ci = items cfg ! p in
         if ci_type ci \<noteq> CFG_TYPE_UINT then (- 1, cfg)
         else (0, set_item cfg p (ci\<lparr>ci_locked := True, ci_val := U val\<rparr>)))"

definition config_set_string :: "(nat \<Rightarrow> bool) \<Rightarrow> config \<Rightarrow> string \<Rightarrow> string \<Rightarrow> int \<times> config" where
  "config_set_string mem cfg option val =
    (case config_find_item cfg None option of
       None \<Rightarrow> (- 1, cfg)
     | Some p \<Rightarrow>
         let ci = (items cfg ! p)\<lparr>ci_locked := True\<rparr> in
         if ci_type ci \<noteq> CFG_TYPE_STRING then (- 1, cfg)
         else let (ok, cfg) = alloc mem cfg in
              if \<not> ok then (- 1, set_item cfg p (ci\<lparr>ci_val := S None\<rparr>))
              else (0, set_item cfg p (ci\<lparr>ci_val := S (Some val), ci_dynstr := True\<rparr>)))"

section \<open>Reading values\<close>

definition config_get_double :: "config \<Rightarrow> string option \<Rightarrow> string \<Rightarrow> dbl option" where
  "config_get_double cfg section option =
    (case config_find_item cfg section option of
       None \<Rightarrow> None
     | Some p \<Rightarrow> let ci = items cfg ! p in if ci_type ci \<noteq> CFG_TYPE_DOUBLE then None else Some (any_d (ci_val ci)))"

definition config_get_int :: "config \<Rightarrow> string option \<Rightarrow> string \<Rightarrow> int option" where
  "config_get_int cfg section option =
    (case config_find_item cfg section option of
       None \<Rightarrow> None
     | Some p \<Rightarrow>
         let ci = items cfg ! p in
         if ci_type ci \<in> {CFG_TYPE_DOUBLE, CFG_TYPE_STRING, CFG_TYPE_UINT} then None else Some (any_i (ci_val ci)))"

definition config_get_uint :: "config \<Rightarrow> string option \<Rightarrow> string \<Rightarrow> int option" where
  "config_get_uint cfg section option =
    (case config_find_item cfg section option of
       None \<Rightarrow> None
     | Some p \<Rightarrow> let ci = items cfg ! p in if ci_type ci \<noteq> CFG_TYPE_UINT then None else Some (any_u (ci_val ci)))"

definition config_get_string :: "config \<Rightarrow> string option \<Rightarrow> string \<Rightarrow> string option option" where
  "config_get_string cfg section option =
    (case config_find_item cfg section option of
       None \<Rightarrow> None
     | Some p \<Rightarrow> let ci = items cfg ! p in if ci_type ci \<noteq> CFG_TYPE_STRING then None else Some (any_s (ci_val ci)))"

text \<open>\<open>TS_SOFTWARE\<close> to \<open>TS_P2P1STEP\<close> are 0 to 4.\<close>

definition config_harmonize_onestep :: "(nat \<Rightarrow> bool) \<Rightarrow> config \<Rightarrow> (int \<times> config) option" where
  "config_harmonize_onestep mem cfg =
    (case (config_get_int cfg None ''time_stamping'', config_get_int cfg None ''twoStepFlag'') of
       (Some tstype, Some two_step_flag) \<Rightarrow>
         Some (if tstype = 0 \<or> tstype = 2 then (if \<not> truthy two_step_flag then (- 1, cfg) else (0, cfg))
               else if tstype = 1 then
                 (if \<not> truthy two_step_flag
                  then let (r, cfg) = config_set_int mem cfg ''time_stamping'' 3 in (if truthy r then - 1 else 0, cfg)
                  else (0, cfg))
               else if tstype = 3 \<or> tstype = 4 then
                 (if truthy two_step_flag
                  then let (r, cfg) = config_set_int mem cfg ''twoStepFlag'' 0 in (if truthy r then - 1 else 0, cfg)
                  else (0, cfg))
               else (0, cfg))
     | _ \<Rightarrow> None)"

section \<open>Parsing an option\<close>

definition check_deprecated_options :: "string \<Rightarrow> string" where
  "check_deprecated_options option =
    (if option = ''pi_offset_const'' then ''step_threshold''
     else if option = ''pi_f_offset_const'' then ''first_step_threshold''
     else if option = ''pi_max_frequency'' then ''max_frequency''
     else if option = ''masterOnly'' then ''serverOnly''
     else if option = ''slaveOnly'' then ''clientOnly''
     else option)"

definition parse_fault_interval ::
    "(nat \<Rightarrow> bool) \<Rightarrow> config \<Rightarrow> string option \<Rightarrow> string \<Rightarrow> string \<Rightarrow> (parser_result \<times> config) option" where
  "parse_fault_interval mem cfg section option value =
    (if \<not> strcaseeq ''ASAP'' value then Some (NOT_PARSED, cfg)
     else case map_of [(''fault_badpeernet_interval'', 0), (''fault_reset_interval'', FRI_ASAP)] option of
       None \<Rightarrow> Some (NOT_PARSED, cfg)
     | Some val \<Rightarrow>
         (case config_set_section_int mem cfg section option val of
            (r, cfg) \<Rightarrow> if truthy r then None else Some (PARSED_OK, cfg)))"

text \<open>The value of an option by the type and the range of its global item; \<open>None\<close> when the table of an enumeration is
  \<open>NULL\<close>.\<close>

definition parse_value :: "config_item \<Rightarrow> string \<Rightarrow> (parser_result + any_t) option" where
  "parse_value cgi value =
    (case ci_type cgi of
       CFG_TYPE_INT \<Rightarrow> Some (map_sum id I (get_ranged_int value (any_i (ci_min cgi)) (any_i (ci_max cgi))))
     | CFG_TYPE_DOUBLE \<Rightarrow>
         (case (ci_min cgi, ci_max cgi) of
            (D (Fin mn), D (Fin mx)) \<Rightarrow> Some (map_sum id D (get_ranged_double value mn mx))
          | _ \<Rightarrow> None)
     | CFG_TYPE_ENUM \<Rightarrow>
         (case ci_tab cgi of
            None \<Rightarrow> None
          | Some t \<Rightarrow>
              (case find (\<lambda>cte. strcaseeq (fst cte) value) t of
                 None \<Rightarrow> Some (Inl BAD_VALUE)
               | Some cte \<Rightarrow> Some (Inr (I (snd cte)))))
     | CFG_TYPE_STRING \<Rightarrow> Some (Inr (S (Some value)))
     | CFG_TYPE_UINT \<Rightarrow> Some (map_sum id U (get_ranged_uint value (any_u (ci_min cgi)) (any_u (ci_max cgi)))))"

text \<open>The assignment to \<open>dst->val\<close>, by the type of \<open>dst\<close>; \<open>None\<close> when the variable it reads was not set.\<close>

definition store_value ::
    "(nat \<Rightarrow> bool) \<Rightarrow> config \<Rightarrow> nat \<Rightarrow> any_t \<Rightarrow> string \<Rightarrow> (parser_result \<times> config) option" where
  "store_value mem cfg p v value =
    (let dst = items cfg ! p in
     case (ci_type dst, v) of
       (CFG_TYPE_INT, I i) \<Rightarrow> Some (PARSED_OK, set_item cfg p (dst\<lparr>ci_val := I i\<rparr>))
     | (CFG_TYPE_ENUM, I i) \<Rightarrow> Some (PARSED_OK, set_item cfg p (dst\<lparr>ci_val := I i\<rparr>))
     | (CFG_TYPE_DOUBLE, D d) \<Rightarrow> Some (PARSED_OK, set_item cfg p (dst\<lparr>ci_val := D d\<rparr>))
     | (CFG_TYPE_UINT, U u) \<Rightarrow> Some (PARSED_OK, set_item cfg p (dst\<lparr>ci_val := U u\<rparr>))
     | (CFG_TYPE_STRING, _) \<Rightarrow>
         (let (ok, cfg) = alloc mem cfg in
          Some (if \<not> ok then (NOT_PARSED, set_item cfg p (dst\<lparr>ci_val := S None\<rparr>))
                else (PARSED_OK, set_item cfg p (dst\<lparr>ci_val := S (Some value), ci_dynstr := True\<rparr>))))
     | _ \<Rightarrow> None)"

definition lock_item :: "config \<Rightarrow> nat \<Rightarrow> config" where
  "lock_item cfg p = set_item cfg p ((items cfg ! p)\<lparr>ci_locked := True\<rparr>)"

definition parse_item ::
    "(nat \<Rightarrow> bool) \<Rightarrow> config \<Rightarrow> bool \<Rightarrow> string option \<Rightarrow> string \<Rightarrow> string \<Rightarrow> (parser_result \<times> config) option" where
  "parse_item mem cfg commandline section option value =
    (case parse_fault_interval mem cfg section option value of
       None \<Rightarrow> None
     | Some (r, cfg) \<Rightarrow>
         if r \<noteq> NOT_PARSED then Some (r, cfg)
         else case config_global_item cfg option of
           None \<Rightarrow> Some (NOT_PARSED, cfg)
         | Some g \<Rightarrow>
             let cgi = items cfg ! g;
                 update = (\<lambda>cfg p v. case store_value mem cfg p v value of
                     None \<Rightarrow> None
                   | Some (r, cfg) \<Rightarrow> Some (r, if r = PARSED_OK \<and> commandline then lock_item cfg p else cfg))
             in case parse_value cgi value of
               None \<Rightarrow> None
             | Some (Inl r) \<Rightarrow> Some (r, cfg)
             | Some (Inr v) \<Rightarrow>
                 (case section of
                    Some s \<Rightarrow>
                      if \<not> ci_port cgi then Some (NOT_PARSED, cfg)
                      else (case (case config_section_item cfg s option of
                                    Some p \<Rightarrow> (Some p, cfg)
                                  | None \<Rightarrow> config_item_alloc mem cfg s option (ci_type cgi)) of
                              (None, cfg) \<Rightarrow> Some (NOT_PARSED, cfg)
                            | (Some p, cfg) \<Rightarrow> update cfg p v)
                  | None \<Rightarrow> if \<not> commandline \<and> ci_locked cgi then Some (PARSED_OK, cfg) else update cfg g v))"

definition config_parse_option :: "(nat \<Rightarrow> bool) \<Rightarrow> config \<Rightarrow> string \<Rightarrow> string \<Rightarrow> (int \<times> config) option" where
  "config_parse_option mem cfg opt val =
    (case parse_item mem cfg True None (check_deprecated_options opt) val of
       None \<Rightarrow> None
     | Some (r, cfg) \<Rightarrow> Some (if r = PARSED_OK then 0 else - 1, cfg))"

section \<open>Unicast master tables\<close>

record parser_libs =
  lib_inet_aton :: "string \<Rightarrow> u8 list option"
  lib_inet_pton6 :: "string \<Rightarrow> u8 list option"

definition wildcard_port :: PortIdentity where
  "wildcard_port = \<lparr>clockIdentity = replicate 8 0xff, portNumber = 0xffff\<rparr>"

definition blank_master :: "transport_type \<Rightarrow> address \<Rightarrow> unicast_master_address" where
  "blank_master ty a = \<lparr>um_portIdentity = wildcard_port, um_type = ty, um_state = UC_WAIT, um_address = a, um_granted = 0,
     um_sydymsk = 0, um_renewal_tmo = 0\<rparr>"

definition config_switch_unicast_mtab :: "(nat \<Rightarrow> bool) \<Rightarrow> config \<Rightarrow> int \<Rightarrow> int \<times> config" where
  "config_switch_unicast_mtab mem cfg idx =
    (if idx < 1 then (- 1, cfg)
     else if list_ex (\<lambda>t. table_index t = idx) (unicast_master_tables cfg) then (- 1, cfg)
     else let (ok, cfg) = alloc mem cfg in
       if \<not> ok then (- 1, cfg)
       else let t = \<lparr>ut_addrs = [], ut_logQueryInterval = 0,
              ut_peer_addr = blank_master TRANS_UDS \<lparr>addr_len = 0, addr_ss = replicate 128 0\<rparr>,
              ut_peer_name = None, table_index = idx, ut_count = 0, ut_port = 0\<rparr>
            in (0, cfg\<lparr>unicast_master_tables := unicast_master_tables cfg @ [t],
                      current_uc_mtab := Some (length (unicast_master_tables cfg))\<rparr>))"

definition set_mtab :: "config \<Rightarrow> nat \<Rightarrow> cfg_mtab \<Rightarrow> config" where
  "set_mtab cfg t tab = cfg\<lparr>unicast_master_tables := (unicast_master_tables cfg)[t := tab]\<rparr>"

definition config_unicast_mtab_address ::
    "parser_libs \<Rightarrow> (nat \<Rightarrow> bool) \<Rightarrow> config \<Rightarrow> transport_type \<Rightarrow> string \<Rightarrow> int \<times> config" where
  "config_unicast_mtab_address lib mem cfg ty addr =
    (case current_uc_mtab cfg of
       None \<Rightarrow> (- 1, cfg)
     | Some t \<Rightarrow>
         let (ok, cfg) = alloc mem cfg in
         if \<not> ok then (- 1, cfg)
         else case str2addr (lib_inet_aton lib) (lib_inet_pton6 lib) ty addr of
           None \<Rightarrow> (- 1, cfg)
         | Some a \<Rightarrow>
             let tab = unicast_master_tables cfg ! t
             in (0, set_mtab cfg t (tab\<lparr>ut_addrs := ut_addrs tab @ [blank_master ty a], ut_count := ut_count tab + 1\<rparr>)))"

definition config_unicast_mtab_peer :: "(nat \<Rightarrow> bool) \<Rightarrow> config \<Rightarrow> string \<Rightarrow> int \<times> config" where
  "config_unicast_mtab_peer mem cfg addr =
    (case current_uc_mtab cfg of
       None \<Rightarrow> (- 1, cfg)
     | Some t \<Rightarrow>
         let (ok, cfg) = alloc mem cfg; tab = unicast_master_tables cfg ! t
         in if \<not> ok then (- 1, set_mtab cfg t (tab\<lparr>ut_peer_name := None\<rparr>))
            else (0, set_mtab cfg t (tab\<lparr>ut_peer_name := Some addr\<rparr>)))"

definition config_unicast_mtab_query_interval :: "config \<Rightarrow> int \<Rightarrow> int \<times> config" where
  "config_unicast_mtab_query_interval cfg lqi =
    (case current_uc_mtab cfg of
       None \<Rightarrow> (- 1, cfg)
     | Some t \<Rightarrow>
         if lqi < - 128 \<or> 127 < lqi then (- 1, cfg)
         else (0, set_mtab cfg t ((unicast_master_tables cfg ! t)\<lparr>ut_logQueryInterval := lqi\<rparr>)))"

text \<open>The formats of \<open>sscanf\<close>: a blank skips white space, also none.\<close>

definition scan_word_int :: "string \<Rightarrow> string \<Rightarrow> int option" where
  "scan_word_int word line = do {
     r \<leftarrow> scan_literal word (skip_space line); (v, _) \<leftarrow> scan_d (skip_space r); Some v }"

definition transport_of :: "string \<Rightarrow> transport_type" where
  "transport_of name =
    (case find (\<lambda>cte. strcaseeq (fst cte) name) nw_trans_enu of
       None \<Rightarrow> TRANS_UDS
     | Some cte \<Rightarrow> (if snd cte = 1 then TRANS_UDP_IPV4 else if snd cte = 2 then TRANS_UDP_IPV6 else TRANS_IEEE_802_3))"

definition parse_unicast_mtab_line :: "parser_libs \<Rightarrow> (nat \<Rightarrow> bool) \<Rightarrow> config \<Rightarrow> string \<Rightarrow> int \<times> config" where
  "parse_unicast_mtab_line lib mem cfg line =
    (case scan_word_int ''table_id'' line of
       Some table_id \<Rightarrow> config_switch_unicast_mtab mem cfg table_id
     | None \<Rightarrow>
       (case scan_word_int ''logQueryInterval'' line of
          Some lqi \<Rightarrow> config_unicast_mtab_query_interval cfg lqi
        | None \<Rightarrow>
          (case do { r \<leftarrow> scan_literal ''peer_address'' (skip_space line); scan_s 64 r } of
             Some (addr, _) \<Rightarrow> config_unicast_mtab_peer mem cfg addr
           | None \<Rightarrow>
             (case do { (tr, r) \<leftarrow> scan_s 16 line; (addr, _) \<leftarrow> scan_s 64 r; Some (tr, addr) } of
                None \<Rightarrow> (- 1, cfg)
              | Some (tr, addr) \<Rightarrow> config_unicast_mtab_address lib mem cfg (transport_of tr) addr))))"

section \<open>Configuration files\<close>

definition config_create_interface :: "(nat \<Rightarrow> bool) \<Rightarrow> config \<Rightarrow> string \<Rightarrow> interface option \<times> config" where
  "config_create_interface mem cfg name =
    (case find (\<lambda>i. take MAX_IFNAME_SIZE name = take MAX_IFNAME_SIZE (if_name i)) (interfaces cfg) of
       Some i \<Rightarrow> (Some i, cfg)
     | None \<Rightarrow>
         let (ok, cfg) = alloc mem cfg in
         case interface_create ok name None of
           None \<Rightarrow> (None, cfg)
         | Some i \<Rightarrow> (Some i, cfg\<lparr>interfaces := interfaces cfg @ [i], n_interfaces := n_interfaces cfg + 1\<rparr>))"

text \<open>\<open>None\<close> is \<open>NOT_PARSED\<close>; otherwise the section, the line with its brackets blanked, and the configuration.\<close>

definition parse_section_line :: "config \<Rightarrow> string \<Rightarrow> (config_section \<times> string \<times> config) option" where
  "parse_section_line cfg s =
    (if strcaseeq s ''[global]'' then Some (GLOBAL_SECTION, s, cfg)
     else if strcaseeq s ''[unicast_master_table]'' then Some (UC_MTAB_SECTION, s, cfg\<lparr>current_uc_mtab := None\<rparr>)
     else if take 1 s = ''['' then
       Some (PORT_SECTION, map (\<lambda>c. if c = CHR ''['' \<or> c = CHR '']'' then CHR '' '' else c) s, cfg)
     else None)"

definition parse_setting_line :: "string \<Rightarrow> (string \<times> string) option" where
  "parse_setting_line line =
    (let option = takeWhile (\<lambda>c. \<not> isspace c) line; r = drop (length option) line
     in if r = [] then None else Some (option, skip_space r))"

text \<open>The line from its first character that is no white space, without the white space at its end; \<open>None\<close> for an empty
  line or a comment.\<close>

definition trim_line :: "string \<Rightarrow> string option" where
  "trim_line buf =
    (case skip_space (cstr buf) of
       [] \<Rightarrow> None
     | c # r \<Rightarrow> if c = CHR ''#'' then None else Some (c # rev (dropWhile isspace (rev r))))"

record read_state =
  rs_cfg :: config
  rs_section :: config_section
  rs_port :: "string option" \<comment> \<open>the name of \<open>current_port\<close>\<close>

text \<open>One turn of the loop; the truth value is whether the loop goes on.\<close>

definition config_line :: "parser_libs \<Rightarrow> (nat \<Rightarrow> bool) \<Rightarrow> read_state \<Rightarrow> string \<Rightarrow> (bool \<times> read_state) option" where
  "config_line lib mem rs buf =
    (case trim_line buf of
       None \<Rightarrow> Some (True, rs)
     | Some line \<Rightarrow>
       (case parse_section_line (rs_cfg rs) line of
          Some (sct, line, cfg) \<Rightarrow>
            let rs = rs\<lparr>rs_cfg := cfg, rs_section := sct\<rparr> in
            if sct = PORT_SECTION then
              (case scan_s 128 line of
                 None \<Rightarrow> Some (False, rs)
               | Some (port, _) \<Rightarrow>
                   (case config_create_interface mem cfg port of
                      (None, cfg) \<Rightarrow> Some (False, rs\<lparr>rs_cfg := cfg\<rparr>)
                    | (Some i, cfg) \<Rightarrow> Some (True, rs\<lparr>rs_cfg := cfg, rs_port := Some (if_name i)\<rparr>)))
            else Some (True, rs)
        | None \<Rightarrow>
          (case rs_section rs of
             UC_MTAB_SECTION \<Rightarrow>
               let (r, cfg) = parse_unicast_mtab_line lib mem (rs_cfg rs) line in Some (\<not> truthy r, rs\<lparr>rs_cfg := cfg\<rparr>)
           | UNKNOWN_SECTION \<Rightarrow> Some (False, rs)
           | sct \<Rightarrow>
               (case parse_setting_line line of
                  None \<Rightarrow> Some (False, rs)
                | Some (option, value) \<Rightarrow>
                    (case parse_item mem (rs_cfg rs) False (if sct = GLOBAL_SECTION then None else rs_port rs)
                            (check_deprecated_options option) value of
                       None \<Rightarrow> None
                     | Some (r, cfg) \<Rightarrow> Some (r = PARSED_OK, rs\<lparr>rs_cfg := cfg\<rparr>))))))"

function config_loop :: "parser_libs \<Rightarrow> (nat \<Rightarrow> bool) \<Rightarrow> read_state \<Rightarrow> string \<Rightarrow> (bool \<times> read_state) option" where
  "config_loop lib mem rs tx =
    (if tx = [] then Some (True, rs)
     else case config_line lib mem rs (fst (fgets 1024 tx)) of
       None \<Rightarrow> None
     | Some (True, rs) \<Rightarrow> config_loop lib mem rs (snd (fgets 1024 tx))
     | Some (False, rs) \<Rightarrow> Some (False, rs))"
  by pat_completeness auto
termination by (relation "measure (\<lambda>(l, m, r, tx). length tx)") (auto simp: fgets_def Let_def)

declare config_loop.simps [simp del]

text \<open>\<open>file\<close> is the text of the file, \<open>None\<close> when it cannot be opened.\<close>

definition config_read :: "parser_libs \<Rightarrow> (nat \<Rightarrow> bool) \<Rightarrow> string option \<Rightarrow> config \<Rightarrow> (int \<times> config) option" where
  "config_read lib mem file cfg =
    (case file of
       None \<Rightarrow> Some (- 1, cfg)
     | Some tx \<Rightarrow>
         (case config_loop lib mem \<lparr>rs_cfg = cfg, rs_section = UNKNOWN_SECTION, rs_port = None\<rparr> tx of
            None \<Rightarrow> None
          | Some (ok, rs) \<Rightarrow> Some (if ok then 0 else - 2, rs_cfg rs)))"

section \<open>Creation and destruction\<close>

definition config_alloc_longopts :: "ext_values \<Rightarrow> string list" where
  "config_alloc_longopts c = map ci_label (config_tab c)"

text \<open>The first three allocations are the configuration, the long options and the hash table.\<close>

definition config_create :: "ext_values \<Rightarrow> (nat \<Rightarrow> bool) \<Rightarrow> config option" where
  "config_create c mem =
    (if \<not> (mem 0 \<and> mem 1 \<and> mem 2) then None
     else let its = map (ci_static_update (\<lambda>_. True)) (config_tab c);
              keys = map (\<lambda>ci. config_key ''global'' (ci_label ci)) its
          in if list_ex (\<lambda>k. CONFIG_LABEL_SIZE + 8 \<le> length k) keys then None
             else case load (\<lambda>i. hash_insert (mem (2 * i + 3)) (mem (2 * i + 4))) 0 hash_create (zip keys [0..<length keys]) of
               None \<Rightarrow> None
             | Some ht \<Rightarrow>
                 let cfg = \<lparr>interfaces = [], n_interfaces = 0, opts = config_alloc_longopts c, htab = ht, items = its,
                       unicast_master_tables = [], current_uc_mtab = None, allocs = 3 + 2 * length its\<rparr>
                 in if list_all (\<lambda>i. config_global_item cfg (ci_label (its ! i)) = Some i) [0..<length its]
                    then Some cfg else None)"

text \<open>The items that \<open>config_destroy\<close> frees, and the items whose strings it frees.\<close>

definition config_destroy :: "config \<Rightarrow> nat list \<times> nat list" where
  "config_destroy cfg = (filter (\<lambda>p. snd (config_item_free cfg p)) (hash_destroy (htab cfg)),
     filter (\<lambda>p. fst (config_item_free cfg p)) (hash_destroy (htab cfg)))"

end
