(* ===== verification/Config_Inv.thy ===== *)
theory Config_Inv
  imports Config
begin

text \<open>
  What holds of a configuration at all times. The keys of the hash table are unambiguous although a key is
  just the section, a dot and the label, and labels contain dots; the elements of \<open>config_tab\<close> stay where they are; an
  item of a port section has the type of the global item; the union of an item holds the member that its type names.
  Interface names that are \<open>global\<close> or start with \<open>global.\<close> are excluded (\<open>plain\<close>): their keys are those of global options.
\<close>

section \<open>Keys\<close>

definition plain :: "string \<Rightarrow> bool" where
  "plain s \<longleftrightarrow> s \<noteq> ''global'' \<and> take 7 s \<noteq> ''global.''"

lemma key_unambiguous:
  assumes n: "(n, True) \<in> set config_labels" and m: "(m, b) \<in> set config_labels"
    and k: "config_key s n = config_key t m" and t: "b \<or> t = ''global''"
  shows "s = t \<and> n = m"
proof -
  from k consider (same) "s = t" "n = m" | (left) x where "s = t @ ''.'' @ x" "m = x @ ''.'' @ n"
    | (right) x where "t = s @ ''.'' @ x" "n = x @ ''.'' @ m"
    by (auto simp: config_key_def append_eq_append_conv2 append_eq_Cons_conv Cons_eq_append_conv)
  then show ?thesis
  proof cases
    case left
    then show ?thesis using labels_no_port_suffix m n by blast
  next
    case right
    then have "CHR ''.'' \<in> set t" by simp
    then have "b" using t by auto
    then show ?thesis using labels_no_port_suffix [of x m True] right(2) m n by simp
  qed simp
qed

lemma plain_key: "plain s \<Longrightarrow> config_key s m \<noteq> config_key ''global'' n"
  by (auto simp: plain_def config_key_def append_eq_Cons_conv)

lemma config_key_inj [simp]: "config_key s n = config_key s m \<longleftrightarrow> n = m"
  by (simp add: config_key_def)

section \<open>The table\<close>

fun fits :: "config_type \<Rightarrow> any_t \<Rightarrow> bool" where
  "fits CFG_TYPE_INT (I _) = True"
| "fits CFG_TYPE_ENUM (I _) = True"
| "fits CFG_TYPE_DOUBLE (D _) = True"
| "fits CFG_TYPE_STRING (S _) = True"
| "fits CFG_TYPE_UINT (U _) = True"
| "fits _ _ = False"

lemma fits_zero [simp]: "fits ty (zero_val ty)"
  by (cases ty) auto

fun is_number :: "any_t \<Rightarrow> bool" where
  "is_number (D (Fin _)) = True"
| "is_number _ = False"

definition tab_item :: "config_item \<Rightarrow> bool" where
  "tab_item ci \<longleftrightarrow> fits (ci_type ci) (ci_val ci) \<and> \<not> ci_locked ci \<and> \<not> ci_dynstr ci \<and>
    (ci_type ci = CFG_TYPE_DOUBLE \<longrightarrow> is_number (ci_min ci) \<and> is_number (ci_max ci)) \<and>
    (ci_type ci = CFG_TYPE_ENUM \<longrightarrow> ci_tab ci \<noteq> None)"

lemma tab_item_intros [simp]:
  "tab_item (CONFIG_ITEM_DBL l p d mn mx)" "tab_item (CONFIG_ITEM_ENUM l p i t)" "tab_item (CONFIG_ITEM_INT l p i a b)"
  "tab_item (CONFIG_ITEM_UINT l p i a b)" "tab_item (CONFIG_ITEM_STRING l p s)"
  by (simp_all add: tab_item_def config_item_defs)

lemma config_tab_items: "list_all tab_item (config_tab c)"
  by (simp add: config_tab_def)

lemma length_config_labels: "length config_labels = 147"
  by (simp add: config_labels_def)

lemma length_config_tab [simp]: "length (config_tab c) = 147"
  using length_config_labels config_labels_eq [of c] by (metis length_map)

lemma tab_nth: "i < 147 \<Longrightarrow> tab_item (config_tab c ! i)"
  using config_tab_items [of c] by (simp add: list_all_length)

abbreviation "tab_label c i \<equiv> ci_label (config_tab c ! i)"

lemma label_in: "i < 147 \<Longrightarrow> (tab_label c i, ci_port (config_tab c ! i)) \<in> set config_labels"
  unfolding config_labels_eq [of c, symmetric] by simp

lemma tab_label_eq: "i < 147 \<Longrightarrow> j < 147 \<Longrightarrow> tab_label c i = tab_label c j \<longleftrightarrow> i = j"
proof -
  have "map ci_label (config_tab c) = map fst config_labels" unfolding config_labels_eq [of c, symmetric] by simp
  then have "distinct (map ci_label (config_tab c))" using labels_distinct by simp
  then show "i < 147 \<Longrightarrow> j < 147 \<Longrightarrow> tab_label c i = tab_label c j \<longleftrightarrow> i = j"
    using nth_eq_iff_index_eq [of "map ci_label (config_tab c)" i j] by simp
qed

lemma tab_label_short: "i < 147 \<Longrightarrow> length (tab_label c i) < 48"
  using label_in [of i c] labels_short by (auto simp: list_all_iff)

section \<open>The invariant\<close>

definition same_item :: "config_item \<Rightarrow> config_item \<Rightarrow> bool" where
  "same_item a b \<longleftrightarrow> ci_label a = ci_label b \<and> ci_type a = ci_type b \<and> ci_tab a = ci_tab b \<and> ci_port a = ci_port b \<and>
     ci_min a = ci_min b \<and> ci_max a = ci_max b"

definition section_item :: "ext_values \<Rightarrow> config_item \<Rightarrow> bool" where
  "section_item c ci \<longleftrightarrow> \<not> ci_static ci \<and> (\<exists>i < 147. ci_label ci = tab_label c i \<and> ci_port (config_tab c ! i) \<and>
     ci_type ci = ci_type (config_tab c ! i))"

text \<open>\<open>key_of c cfg k p\<close>: the key \<open>k\<close> is right for the item at \<open>p\<close>.\<close>

definition key_of :: "ext_values \<Rightarrow> config \<Rightarrow> string \<Rightarrow> nat \<Rightarrow> bool" where
  "key_of c cfg k p \<longleftrightarrow> p < length (items cfg) \<and>
    (if p < 147 then k = config_key ''global'' (tab_label c p)
     else \<exists>s. plain s \<and> k = config_key s (ci_label (items cfg ! p)))"

definition item_ok :: "ext_values \<Rightarrow> nat \<Rightarrow> config_item \<Rightarrow> bool" where
  "item_ok c p ci \<longleftrightarrow> fits (ci_type ci) (ci_val ci) \<and>
     (if p < 147 then same_item ci (config_tab c ! p) \<and> ci_static ci else section_item c ci)"

definition config_inv :: "ext_values \<Rightarrow> config \<Rightarrow> bool" where
  "config_inv c cfg \<longleftrightarrow> hash_inv (htab cfg) \<and> 147 \<le> length (items cfg) \<and>
    (\<forall>p < length (items cfg). item_ok c p (items cfg ! p) \<and> (\<exists>k. hash_lookup (htab cfg) k = Some p)) \<and>
    (\<forall>k p. hash_lookup (htab cfg) k = Some p \<longrightarrow> key_of c cfg k p) \<and>
    (\<forall>k l p. hash_lookup (htab cfg) k = Some p \<longrightarrow> hash_lookup (htab cfg) l = Some p \<longrightarrow> k = l) \<and>
    (\<forall>t. current_uc_mtab cfg = Some t \<longrightarrow> t < length (unicast_master_tables cfg))"

lemma config_invD:
  assumes "config_inv c cfg"
  shows "hash_inv (htab cfg)" "147 \<le> length (items cfg)" "hash_lookup (htab cfg) k = Some p \<Longrightarrow> key_of c cfg k p"
    and "p < length (items cfg) \<Longrightarrow> fits (ci_type (items cfg ! p)) (ci_val (items cfg ! p))"
    and "p < length (items cfg) \<Longrightarrow> \<not> p < 147 \<Longrightarrow> section_item c (items cfg ! p)"
    and "p < 147 \<Longrightarrow> same_item (items cfg ! p) (config_tab c ! p)"
    and "p < 147 \<Longrightarrow> ci_static (items cfg ! p)"
    and "p < length (items cfg) \<Longrightarrow> \<exists>k. hash_lookup (htab cfg) k = Some p"
    and "current_uc_mtab cfg = Some t \<Longrightarrow> t < length (unicast_master_tables cfg)"
  using assms unfolding config_inv_def item_ok_def by auto

lemma key_of_global: "key_of c cfg (config_key ''global'' n) p \<longleftrightarrow> p < 147 \<and> p < length (items cfg) \<and> tab_label c p = n"
proof -
  have "plain s \<Longrightarrow> config_key ''global'' n \<noteq> config_key s m" for s m using plain_key by metis
  then show ?thesis unfolding key_of_def by (metis config_key_inj)
qed

lemma lookup_global:
  assumes "config_inv c cfg" and "i < 147"
  shows "hash_lookup (htab cfg) (config_key ''global'' (tab_label c i)) = Some i"
proof -
  obtain k where k: "hash_lookup (htab cfg) k = Some i"
    using config_invD(8) [OF assms(1), of i] config_invD(2) [OF assms(1)] assms(2) by auto
  then have "k = config_key ''global'' (tab_label c i)" using config_invD(3) [OF assms(1) k] assms(2) by (simp add: key_of_def)
  then show ?thesis using k by simp
qed

lemma global_item_iff:
  assumes "config_inv c cfg"
  shows "config_global_item cfg n = Some p \<longleftrightarrow> p < 147 \<and> tab_label c p = n"
proof
  assume "config_global_item cfg n = Some p"
  then have "hash_lookup (htab cfg) (config_key ''global'' n) = Some p"
    by (simp add: config_global_item_def config_section_item_def split: if_splits)
  then show "p < 147 \<and> tab_label c p = n" using config_invD(3) [OF assms] key_of_global by blast
next
  assume p: "p < 147 \<and> tab_label c p = n"
  then have "length (config_key ''global'' n) < 172" using tab_label_short [of p c] by (simp add: config_key_def)
  then show "config_global_item cfg n = Some p"
    using p lookup_global [OF assms, of p] by (simp add: config_global_item_def config_section_item_def)
qed

text \<open>An item that a port section finds under the label of a port option is its own item, of the right type.\<close>

lemma section_item_iff:
  assumes inv: "config_inv c cfg" and "plain s" and i: "i < 147" "ci_port (config_tab c ! i)"
    and l: "hash_lookup (htab cfg) (config_key s (tab_label c i)) = Some p"
  shows "147 \<le> p \<and> p < length (items cfg) \<and> ci_label (items cfg ! p) = tab_label c i \<and>
    ci_type (items cfg ! p) = ci_type (config_tab c ! i)"
proof -
  have k: "key_of c cfg (config_key s (tab_label c i)) p" using config_invD(3) [OF inv l] .
  have g: "\<not> p < 147" using k plain_key [OF \<open>plain s\<close>] by (auto simp: key_of_def)
  then obtain t where p: "p < length (items cfg)" and t: "config_key s (tab_label c i) = config_key t (ci_label (items cfg ! p))"
    using k by (auto simp: key_of_def)
  obtain j where j: "j < 147" "ci_label (items cfg ! p) = tab_label c j" "ci_port (config_tab c ! j)"
      "ci_type (items cfg ! p) = ci_type (config_tab c ! j)"
    using config_invD(5) [OF inv p g] by (auto simp: section_item_def)
  have "tab_label c i = tab_label c j"
    using key_unambiguous [of "tab_label c i" "tab_label c j" True s t] label_in [of i c] label_in [of j c] i j t by simp
  then have "i = j" using tab_label_eq i(1) j(1) by blast
  then show ?thesis using g p j by simp
qed

section \<open>Slots\<close>

text \<open>A slot is a place where an option can have a value: the global one, or the one of a port section.\<close>

definition valid_slot :: "ext_values \<Rightarrow> string option \<Rightarrow> nat \<Rightarrow> bool" where
  "valid_slot c sct i \<longleftrightarrow> i < 147 \<and> (\<forall>s. sct = Some s \<longrightarrow> plain s \<and> length s \<le> 108 \<and> ci_port (config_tab c ! i))"

definition slot :: "ext_values \<Rightarrow> config \<Rightarrow> string option \<Rightarrow> nat \<Rightarrow> nat option" where
  "slot c cfg sct i = (case sct of None \<Rightarrow> Some i | Some s \<Rightarrow> config_section_item cfg s (tab_label c i))"

definition entry :: "ext_values \<Rightarrow> config \<Rightarrow> string option \<Rightarrow> nat \<Rightarrow> config_item option" where
  "entry c cfg sct i = map_option ((!) (items cfg)) (slot c cfg sct i)"

definition slot_key :: "ext_values \<Rightarrow> string option \<Rightarrow> nat \<Rightarrow> string" where
  "slot_key c sct i = config_key (case sct of None \<Rightarrow> ''global'' | Some s \<Rightarrow> s) (tab_label c i)"

lemma slot_key_short: "valid_slot c sct i \<Longrightarrow> length (slot_key c sct i) < 172"
  using tab_label_short [of i c] by (auto simp: valid_slot_def slot_key_def config_key_def split: option.split)

lemma slot_lookup: "config_inv c cfg \<Longrightarrow> valid_slot c sct i \<Longrightarrow> slot c cfg sct i = hash_lookup (htab cfg) (slot_key c sct i)"
  using slot_key_short [of c sct i] lookup_global [of c cfg i]
  by (auto simp: slot_def slot_key_def valid_slot_def config_section_item_def split: option.split)

lemma slot_key_inj:
  assumes "valid_slot c s i" "valid_slot c t j" "slot_key c s i = slot_key c t j"
  shows "s = t \<and> i = j"
proof (cases s)
  case None
  then have "t = None" using assms plain_key [of _ "tab_label c j" "tab_label c i"]
    by (auto simp: valid_slot_def slot_key_def split: option.splits)
  then show ?thesis using None assms tab_label_eq [of i j c] by (simp add: valid_slot_def slot_key_def)
next
  case (Some a)
  then have i: "(tab_label c i, True) \<in> set config_labels" and "i < 147"
    using assms(1) label_in [of i c] by (auto simp: valid_slot_def)
  have j: "(tab_label c j, ci_port (config_tab c ! j)) \<in> set config_labels" and "j < 147"
    using assms(2) label_in [of j c] by (auto simp: valid_slot_def)
  have "a = (case t of None \<Rightarrow> ''global'' | Some s \<Rightarrow> s) \<and> tab_label c i = tab_label c j"
    using assms(2,3) Some
    by (intro key_unambiguous [OF i j]) (auto simp: slot_key_def valid_slot_def split: option.split)
  moreover have "a \<noteq> ''global''" using assms(1) Some by (auto simp: valid_slot_def plain_def)
  ultimately show ?thesis using Some tab_label_eq [of i j c] \<open>i < 147\<close> \<open>j < 147\<close> by (auto split: option.splits)
qed

lemma slot_inj:
  assumes "config_inv c cfg" "valid_slot c s i" "valid_slot c t j" "slot c cfg s i = Some p" "slot c cfg t j = Some p"
  shows "s = t \<and> i = j"
proof -
  have "slot_key c s i = slot_key c t j"
    using assms slot_lookup [OF assms(1)] unfolding config_inv_def by metis
  then show ?thesis using slot_key_inj assms(2,3) by blast
qed

lemma slot_item:
  assumes "config_inv c cfg" "valid_slot c sct i" "slot c cfg sct i = Some p"
  shows "p < length (items cfg) \<and> ci_label (items cfg ! p) = tab_label c i \<and> ci_type (items cfg ! p) = ci_type (config_tab c ! i)"
proof (cases sct)
  case None
  then show ?thesis using assms config_invD(2) [OF assms(1)] config_invD(6) [OF assms(1), of i]
    by (auto simp: valid_slot_def slot_def same_item_def)
next
  case (Some s)
  then have "hash_lookup (htab cfg) (config_key s (tab_label c i)) = Some p"
    using assms slot_lookup [OF assms(1,2)] by (simp add: slot_key_def)
  then show ?thesis using section_item_iff [OF assms(1)] Some assms(2) by (auto simp: valid_slot_def)
qed

section \<open>Changes\<close>

text \<open>An operation leaves every slot alone but one.\<close>

definition others_kept :: "ext_values \<Rightarrow> string option \<Rightarrow> nat \<Rightarrow> config \<Rightarrow> config \<Rightarrow> bool" where
  "others_kept c sct i cfg cfg' \<longleftrightarrow> (\<forall>t j. valid_slot c t j \<longrightarrow> (t, j) \<noteq> (sct, i) \<longrightarrow> entry c cfg' t j = entry c cfg t j)"

lemma allocs_simps [simp]:
  "config_inv c (cfg\<lparr>allocs := n\<rparr>) = config_inv c cfg" "slot c (cfg\<lparr>allocs := n\<rparr>) = slot c cfg"
  "entry c (cfg\<lparr>allocs := n\<rparr>) = entry c cfg" "config_section_item (cfg\<lparr>allocs := n\<rparr>) s l = config_section_item cfg s l"
  by (simp_all add: config_inv_def key_of_def slot_def entry_def fun_eq_iff config_section_item_def split: option.split)

lemma interfaces_simps [simp]:
  "config_inv c (cfg\<lparr>interfaces := is\<rparr>) = config_inv c cfg" "slot c (cfg\<lparr>interfaces := is\<rparr>) = slot c cfg"
  "config_inv c (cfg\<lparr>n_interfaces := m\<rparr>) = config_inv c cfg" "slot c (cfg\<lparr>n_interfaces := m\<rparr>) = slot c cfg"
  "entry c (cfg\<lparr>interfaces := is\<rparr>) = entry c cfg" "entry c (cfg\<lparr>n_interfaces := m\<rparr>) = entry c cfg"
  by (simp_all add: config_inv_def key_of_def slot_def entry_def fun_eq_iff config_section_item_def split: option.split)

lemma set_item_simps [simp]:
  "htab (set_item cfg p ci) = htab cfg" "items (set_item cfg p ci) = (items cfg)[p := ci]"
  "current_uc_mtab (set_item cfg p ci) = current_uc_mtab cfg" "interfaces (set_item cfg p ci) = interfaces cfg"
  "unicast_master_tables (set_item cfg p ci) = unicast_master_tables cfg" "allocs (set_item cfg p ci) = allocs cfg"
  by (simp_all add: set_item_def)

lemma set_item_slot [simp]: "slot c (set_item cfg p ci) = slot c cfg"
  by (simp add: slot_def set_item_def fun_eq_iff config_section_item_def split: option.split)

lemma inv_set_item:
  assumes "config_inv c cfg" and "p < length (items cfg)" and "same_item ci (items cfg ! p)"
    and "ci_static ci = ci_static (items cfg ! p)" and "fits (ci_type ci) (ci_val ci)"
  shows "config_inv c (set_item cfg p ci)"
proof -
  have k: "key_of c (set_item cfg p ci) k q" if "key_of c cfg k q" for k q
    using that assms(2,3) by (auto simp: key_of_def same_item_def nth_list_update)
  have "item_ok c p (items cfg ! p)" using assms(1,2) by (simp add: config_inv_def)
  then have "item_ok c p ci"
    using assms(3-5) by (auto simp: item_ok_def same_item_def section_item_def split: if_splits)
  then have "item_ok c q ((items cfg)[p := ci] ! q)" if "q < length (items cfg)" for q
    using that assms(1) by (cases "q = p") (simp_all add: config_inv_def)
  then show ?thesis using assms(1) k unfolding config_inv_def by simp
qed

lemma set_item_entry:
  assumes "config_inv c cfg" and "valid_slot c sct i" and "slot c cfg sct i = Some p"
  shows "entry c (set_item cfg p ci) sct i = Some ci" and "others_kept c sct i cfg (set_item cfg p ci)"
proof -
  have p: "p < length (items cfg)" using slot_item [OF assms] by simp
  then show "entry c (set_item cfg p ci) sct i = Some ci" by (simp add: entry_def assms(3))
  show "others_kept c sct i cfg (set_item cfg p ci)"
    unfolding others_kept_def
  proof (intro allI impI)
    fix t j assume v: "valid_slot c t j" and n: "(t, j) \<noteq> (sct, i)"
    then have "slot c cfg t j \<noteq> Some p" using slot_inj [OF assms(1) v assms(2) _ assms(3)] by blast
    then show "entry c (set_item cfg p ci) t j = entry c cfg t j"
      by (cases "slot c cfg t j") (auto simp: entry_def)
  qed
qed

lemma config_item_sel [simp]:
  "ci_label (config_item l ty) = l" "ci_type (config_item l ty) = ty" "ci_val (config_item l ty) = zero_val ty"
  "\<not> ci_static (config_item l ty)" "\<not> ci_locked (config_item l ty)"
  by (simp_all add: config_item_def)

lemma inv_new_item:
  assumes inv: "config_inv c cfg" and v: "valid_slot c (Some s) i"
    and n: "hash_lookup (htab cfg) (slot_key c (Some s) i) = None" and ht: "hash_inv ht"
    and l: "hash_lookup ht = (hash_lookup (htab cfg))(slot_key c (Some s) i \<mapsto> length (items cfg))"
    and cfg': "cfg' = cfg\<lparr>htab := ht, items := items cfg @ [config_item (tab_label c i) (ci_type (config_tab c ! i))]\<rparr>"
  shows "config_inv c cfg'"
proof -
  let ?n = "length (items cfg)"
  have big: "147 \<le> ?n" using config_invD(2) [OF inv] .
  have old: "key_of c cfg' k p" if "hash_lookup (htab cfg) k = Some p" for k p
    using config_invD(3) [OF inv that] by (auto simp: cfg' key_of_def nth_append)
  have new: "key_of c cfg' (slot_key c (Some s) i) ?n"
    using big v by (auto simp: cfg' key_of_def slot_key_def valid_slot_def)
  have fresh: "hash_lookup (htab cfg) k \<noteq> Some ?n" for k
    using config_invD(3) [OF inv, of k ?n] by (auto simp: key_of_def)
  have "item_ok c p (items cfg' ! p) \<and> (\<exists>k. hash_lookup ht k = Some p)" if "p < Suc ?n" for p
  proof (cases "p = ?n")
    case True
    have "section_item c (config_item (tab_label c i) (ci_type (config_tab c ! i)))"
      using v by (auto simp: section_item_def valid_slot_def)
    then show ?thesis using True big l by (auto simp: item_ok_def cfg')
  next
    case False
    then have "p < ?n" using that by simp
    then obtain k where k: "hash_lookup (htab cfg) k = Some p" using config_invD(8) [OF inv] by blast
    then have "k \<noteq> slot_key c (Some s) i" using n by auto
    then have "hash_lookup ht k = Some p" using k by (simp add: l)
    moreover have "item_ok c p (items cfg' ! p)" using inv \<open>p < ?n\<close> by (simp add: config_inv_def cfg' nth_append)
    ultimately show ?thesis by blast
  qed
  moreover have "k = m" if "hash_lookup ht k = Some p" "hash_lookup ht m = Some p" for k m p
    using that fresh inv unfolding config_inv_def l by (auto split: if_splits)
  moreover have "key_of c cfg' k p" if "hash_lookup ht k = Some p" for k p
    using that old new by (auto simp: l split: if_splits)
  moreover have "\<forall>t. current_uc_mtab cfg' = Some t \<longrightarrow> t < length (unicast_master_tables cfg')"
    using config_invD(9) [OF inv] by (simp add: cfg')
  ultimately show ?thesis using ht big unfolding config_inv_def by (simp add: cfg')
qed

lemma new_item_entry:
  assumes inv: "config_inv c cfg" and v: "valid_slot c (Some s) i"
    and n: "hash_lookup (htab cfg) (slot_key c (Some s) i) = None" and ht: "hash_inv ht"
    and l: "hash_lookup ht = (hash_lookup (htab cfg))(slot_key c (Some s) i \<mapsto> length (items cfg))"
    and cfg': "cfg' = cfg\<lparr>htab := ht, items := items cfg @ [config_item (tab_label c i) (ci_type (config_tab c ! i))]\<rparr>"
  shows "slot c cfg' (Some s) i = Some (length (items cfg))" and "others_kept c (Some s) i cfg cfg'"
proof -
  have inv': "config_inv c cfg'" using inv_new_item [OF assms] .
  show "slot c cfg' (Some s) i = Some (length (items cfg))"
    using slot_lookup [OF inv' v] by (simp add: cfg' l)
  show "others_kept c (Some s) i cfg cfg'"
    unfolding others_kept_def
  proof (intro allI impI)
    fix t j assume w: "valid_slot c t j" and ne: "(t, j) \<noteq> (Some s, i)"
    then have "slot_key c t j \<noteq> slot_key c (Some s) i" using slot_key_inj v by blast
    then have sl: "slot c cfg' t j = slot c cfg t j"
      using slot_lookup [OF inv' w] slot_lookup [OF inv w] by (simp add: cfg' l)
    show "entry c cfg' t j = entry c cfg t j"
      using sl slot_item [OF inv w] by (cases "slot c cfg t j") (auto simp: entry_def cfg' nth_append)
  qed
qed

lemma hash_insert_result:
  assumes "hash_inv h"
  shows "fst (hash_insert m n h k d) = 0 \<Longrightarrow> hash_lookup (snd (hash_insert m n h k d)) = (hash_lookup h)(k \<mapsto> d)"
    and "truthy (fst (hash_insert m n h k d)) \<Longrightarrow> snd (hash_insert m n h k d) = h"
  using ht.lookup_insert [OF assms, of m n k d] by (simp_all add: hash_insert_def Let_def split: if_splits)

lemma item_alloc:
  assumes inv: "config_inv c cfg" and v: "valid_slot c (Some s) i" and sl: "slot c cfg (Some s) i = None"
    and r: "config_item_alloc mem cfg s (tab_label c i) (ci_type (config_tab c ! i)) = (r, cfg')"
  shows "config_inv c cfg'" and "others_kept c (Some s) i cfg cfg'" and "slot c cfg' (Some s) i = r"
    and "r = Some p \<Longrightarrow> items cfg' ! p = config_item (tab_label c i) (ci_type (config_tab c ! i))"
    and "r = None \<Longrightarrow> \<exists>n. \<not> mem n"
proof -
  let ?ci = "config_item (tab_label c i) (ci_type (config_tab c ! i))"
  let ?cfg = "cfg\<lparr>allocs := Suc (allocs cfg)\<rparr>"
  have n: "hash_lookup (htab cfg) (slot_key c (Some s) i) = None" using slot_lookup [OF inv v] sl by simp
  have "i < 147" using v by (simp add: valid_slot_def)
  then have t: "take 63 (tab_label c i) = tab_label c i" using tab_label_short [of i c] by simp
  have st: "stored 172 (config_key s (tab_label c i)) = slot_key c (Some s) i"
    using slot_key_short [OF v] by (simp add: stored_def slot_key_def)
  have "config_inv c cfg' \<and> others_kept c (Some s) i cfg cfg' \<and> slot c cfg' (Some s) i = r \<and>
    (\<forall>p. r = Some p \<longrightarrow> items cfg' ! p = ?ci) \<and> (r = None \<longrightarrow> (\<exists>n. \<not> mem n))"
  proof (cases "mem (allocs cfg)")
    case False
    then have "r = None" "cfg' = ?cfg" using r by (simp_all add: config_item_alloc_def alloc_def)
    then show ?thesis using False inv sl by (auto simp: others_kept_def)
  next
    case True
    let ?h = "hash_insert (mem (Suc (allocs cfg))) (mem (Suc (Suc (allocs cfg)))) (htab cfg) (slot_key c (Some s) i) (length (items cfg))"
    have hi: "hash_inv (htab cfg)" using config_invD(1) [OF inv] .
    have r': "(r, cfg') = (if truthy (fst ?h) then (None, ?cfg\<lparr>htab := snd ?h, allocs := Suc (Suc (Suc (allocs cfg)))\<rparr>)
        else (Some (length (items cfg)), ?cfg\<lparr>htab := snd ?h, items := items cfg @ [?ci], allocs := Suc (Suc (Suc (allocs cfg)))\<rparr>))"
      using r True by (auto simp: config_item_alloc_def alloc_def config_insert_def case_prod_beta Let_def t st
        cong: if_cong split: if_splits)
    show ?thesis
    proof (cases "truthy (fst ?h)")
      case True
      then have "r = None" "cfg' = cfg\<lparr>allocs := Suc (Suc (Suc (allocs cfg)))\<rparr>"
        using r' hash_insert_result(2) [OF hi True] by simp_all
      moreover have "\<exists>n. \<not> mem n" using True ht.insert_iff [OF hi] n by blast
      ultimately show ?thesis using inv sl by (simp add: others_kept_def)
    next
      case False
      define cfg1 where "cfg1 = cfg\<lparr>htab := snd ?h, items := items cfg @ [?ci]\<rparr>"
      have "r = Some (length (items cfg))" "cfg' = cfg1\<lparr>allocs := Suc (Suc (Suc (allocs cfg)))\<rparr>"
        using r' False by (simp_all add: cfg1_def)
      moreover note new_item_entry [OF inv v n ht.inv_insert [OF hi] hash_insert_result(1) [OF hi] cfg1_def]
        inv_new_item [OF inv v n ht.inv_insert [OF hi] hash_insert_result(1) [OF hi] cfg1_def]
      ultimately show ?thesis using False by (simp add: others_kept_def cfg1_def nth_append)
    qed
  qed
  then show "config_inv c cfg'" "others_kept c (Some s) i cfg cfg'" "slot c cfg' (Some s) i = r"
    "r = Some p \<Longrightarrow> items cfg' ! p = ?ci" "r = None \<Longrightarrow> \<exists>n. \<not> mem n" by blast+
qed

end
