(* ===== verification/Config_Parse.thy ===== *)
theory Config_Parse
  imports Config_Inv
begin

text \<open>
  The effect of parsing one option, as an update of one slot: \<open>parse_item\<close> either leaves every slot as it is or gives one
  slot, that of the option in the section, the value of the text.
\<close>

section \<open>Finding or creating the item\<close>

definition section_dst :: "(nat \<Rightarrow> bool) \<Rightarrow> config \<Rightarrow> string \<Rightarrow> string \<Rightarrow> config_type \<Rightarrow> nat option \<times> config" where
  "section_dst mem cfg s option ty =
    (case config_section_item cfg s option of Some q \<Rightarrow> (Some q, cfg) | None \<Rightarrow> config_item_alloc mem cfg s option ty)"

lemma others_kept_refl [simp]: "others_kept c s i cfg cfg"
  by (simp add: others_kept_def)

lemma others_kept_trans [trans]: "others_kept c s i a b \<Longrightarrow> others_kept c s i b d \<Longrightarrow> others_kept c s i a d"
  by (simp add: others_kept_def)

lemma others_kept_allocs [simp]: "others_kept c s i cfg (cfg'\<lparr>allocs := n\<rparr>) = others_kept c s i cfg cfg'"
  by (simp add: others_kept_def)

lemma section_dst:
  assumes inv: "config_inv c cfg" and v: "valid_slot c (Some s) i"
    and r: "section_dst mem cfg s (tab_label c i) (ci_type (config_tab c ! i)) = (r, cfg')"
  shows "config_inv c cfg'" and "others_kept c (Some s) i cfg cfg'" and "slot c cfg' (Some s) i = r"
    and "r = None \<Longrightarrow> \<exists>n. \<not> mem n"
proof -
  have "config_inv c cfg' \<and> others_kept c (Some s) i cfg cfg' \<and> slot c cfg' (Some s) i = r \<and> (r = None \<longrightarrow> (\<exists>n. \<not> mem n))"
  proof (cases "slot c cfg (Some s) i")
    case None
    then have "config_item_alloc mem cfg s (tab_label c i) (ci_type (config_tab c ! i)) = (r, cfg')"
      using r by (simp add: section_dst_def slot_def)
    note a = item_alloc [OF inv v None this]
    show ?thesis using a(1,2,3,5) by blast
  qed (use r inv in \<open>auto simp: section_dst_def slot_def\<close>)
  then show "config_inv c cfg'" "others_kept c (Some s) i cfg cfg'" "slot c cfg' (Some s) i = r"
    "r = None \<Longrightarrow> \<exists>n. \<not> mem n" by blast+
qed

section \<open>Storing\<close>

text \<open>Writing an item that keeps its identity into the slot where it is.\<close>

lemma write_slot:
  assumes inv: "config_inv c cfg" and v: "valid_slot c sct i" and sl: "slot c cfg sct i = Some p"
    and "same_item ci (items cfg ! p)" "ci_static ci = ci_static (items cfg ! p)" "fits (ci_type ci) (ci_val ci)"
  shows "config_inv c (set_item cfg p ci)" and "others_kept c sct i cfg (set_item cfg p ci)"
    and "entry c (set_item cfg p ci) sct i = Some ci"
  using inv_set_item [OF inv _ assms(4-6)] slot_item [OF inv v sl] set_item_entry [OF inv v sl] by simp_all

lemma same_item_upd [simp]:
  "same_item (ci\<lparr>ci_val := x\<rparr>) ci" "same_item (ci\<lparr>ci_locked := b\<rparr>) ci" "same_item (ci\<lparr>ci_locked := b, ci_val := x\<rparr>) ci"
  "same_item (ci\<lparr>ci_val := x, ci_dynstr := d\<rparr>) ci" "same_item (ci\<lparr>ci_locked := b, ci_val := x, ci_dynstr := d\<rparr>) ci"
  "same_item (ci\<lparr>ci_locked := b, ci_dynstr := d, ci_val := x\<rparr>) ci" "same_item (ci\<lparr>ci_dynstr := d, ci_val := x\<rparr>) ci"
  by (simp_all add: same_item_def)

lemma store_value_total:
  assumes "fits (ci_type (items cfg ! p)) v"
  shows "store_value mem cfg p v value =
    (if ci_type (items cfg ! p) = CFG_TYPE_STRING
     then if mem (allocs cfg)
       then Some (PARSED_OK, set_item (cfg\<lparr>allocs := Suc (allocs cfg)\<rparr>) p
         ((items cfg ! p)\<lparr>ci_val := S (Some value), ci_dynstr := True\<rparr>))
       else Some (NOT_PARSED, set_item (cfg\<lparr>allocs := Suc (allocs cfg)\<rparr>) p ((items cfg ! p)\<lparr>ci_val := S None\<rparr>))
     else Some (PARSED_OK, set_item cfg p ((items cfg ! p)\<lparr>ci_val := v\<rparr>)))"
  using assms by (cases "ci_type (items cfg ! p)"; cases v) (auto simp: store_value_def alloc_def Let_def)

text \<open>The value that \<open>store_value\<close> leaves.\<close>

definition stored_value :: "config_type \<Rightarrow> any_t \<Rightarrow> string \<Rightarrow> any_t" where
  "stored_value ty v value = (if ty = CFG_TYPE_STRING then S (Some value) else v)"

lemma store_value:
  assumes inv: "config_inv c cfg" and v: "valid_slot c sct i" and sl: "slot c cfg sct i = Some p"
    and f: "fits (ci_type (config_tab c ! i)) w"
  obtains r cfg' ci where "store_value mem cfg p w value = Some (r, cfg')" "config_inv c cfg'" "others_kept c sct i cfg cfg'"
    "entry c cfg' sct i = Some ci" "slot c cfg' sct i = Some p" "ci_locked ci = ci_locked (items cfg ! p)"
    "r = PARSED_OK \<and> ci_val ci = stored_value (ci_type (config_tab c ! i)) w value \<or>
      r = NOT_PARSED \<and> (\<exists>n. \<not> mem n) \<and> ci_type (config_tab c ! i) = CFG_TYPE_STRING"
proof -
  have ty: "ci_type (items cfg ! p) = ci_type (config_tab c ! i)" using slot_item [OF inv v sl] by simp
  note tot = store_value_total [of cfg p w mem "value", unfolded ty, OF f]
  let ?cfg = "cfg\<lparr>allocs := Suc (allocs cfg)\<rparr>"
  have inv2: "config_inv c ?cfg" and sl2: "slot c ?cfg sct i = Some p" using inv sl by simp_all
  show ?thesis
  proof (cases "ci_type (config_tab c ! i) = CFG_TYPE_STRING")
    case False
    note w = write_slot [OF inv v sl, of "(items cfg ! p)\<lparr>ci_val := w\<rparr>"]
    show ?thesis
      by (rule that [of PARSED_OK "set_item cfg p ((items cfg ! p)\<lparr>ci_val := w\<rparr>)" "(items cfg ! p)\<lparr>ci_val := w\<rparr>"])
        (use False tot w f ty sl in \<open>simp_all add: stored_value_def\<close>)
  next
    case True
    define ci where "ci = (if mem (allocs cfg) then (items cfg ! p)\<lparr>ci_val := S (Some value), ci_dynstr := True\<rparr>
      else (items cfg ! p)\<lparr>ci_val := S None\<rparr>)"
    have ci: "same_item ci (items ?cfg ! p)" "ci_static ci = ci_static (items ?cfg ! p)" "fits (ci_type ci) (ci_val ci)"
      using True ty by (simp_all add: ci_def)
    note w = write_slot [OF inv2 v sl2 ci]
    have "others_kept c sct i cfg (set_item ?cfg p ci)" using w(2) by (simp add: others_kept_def)
    then show ?thesis
      by (intro that [of "if mem (allocs cfg) then PARSED_OK else NOT_PARSED" "set_item ?cfg p ci" ci])
        (use True tot w sl in \<open>auto simp: stored_value_def ci_def\<close>)
  qed
qed

lemma set_section_int:
  assumes inv: "config_inv c cfg" and v: "valid_slot c sct i" and ty: "ci_type (config_tab c ! i) \<in> {CFG_TYPE_INT, CFG_TYPE_ENUM}"
    and r: "config_set_section_int mem cfg sct (tab_label c i) val = (r, cfg')"
  shows "config_inv c cfg'" and "others_kept c sct i cfg cfg'"
    and "r = 0 \<and> (\<exists>ci. entry c cfg' sct i = Some ci \<and> ci_val ci = I val \<and> (sct = None \<longrightarrow> ci_locked ci)) \<or> r = - 1 \<and> (\<exists>n. \<not> mem n)"
proof -
  have i: "i < 147" using v by (simp add: valid_slot_def)
  have g: "config_global_item cfg (tab_label c i) = Some i" using global_item_iff [OF inv] i by simp
  have t: "ci_type (items cfg ! i) = ci_type (config_tab c ! i)" using config_invD(6) [OF inv i] by (simp add: same_item_def)
  have fi: "fits (ci_type (config_tab c ! i)) (I val)" using ty by auto
  have "config_inv c cfg' \<and> others_kept c sct i cfg cfg' \<and>
    (r = 0 \<and> (\<exists>ci. entry c cfg' sct i = Some ci \<and> ci_val ci = I val \<and> (sct = None \<longrightarrow> ci_locked ci)) \<or> r = - 1 \<and> (\<exists>n. \<not> mem n))"
  proof (cases sct)
    case None
    let ?ci = "(items cfg ! i)\<lparr>ci_locked := True, ci_val := I val\<rparr>"
    have "r = 0" "cfg' = set_item cfg i ?ci"
      using r g t ty None by (auto simp: config_set_section_int_def config_find_item_def Let_def)
    moreover have "slot c cfg sct i = Some i" using None by (simp add: slot_def)
    note write_slot [OF inv v this, of ?ci]
    ultimately show ?thesis using fi t by simp
  next
    case (Some s)
    obtain q cfg1 where d: "section_dst mem cfg s (tab_label c i) (ci_type (config_tab c ! i)) = (q, cfg1)" by fastforce
    note dst = section_dst [OF inv v [unfolded Some] d]
    have r': "(r, cfg') = (case q of None \<Rightarrow> (- 1, cfg1) | Some q \<Rightarrow> (0, set_item cfg1 q ((items cfg1 ! q)\<lparr>ci_val := I val\<rparr>)))"
      using r g t ty Some d
      by (auto simp: config_set_section_int_def config_find_item_def Let_def section_dst_def split: option.splits prod.splits)
    show ?thesis
    proof (cases q)
      case None
      then show ?thesis using r' dst Some by simp
    next
      case (Some p)
      let ?ci = "(items cfg1 ! p)\<lparr>ci_val := I val\<rparr>"
      have sl: "slot c cfg1 sct i = Some p" using dst(3) Some \<open>sct = Some s\<close> by simp
      have "r = 0" "cfg' = set_item cfg1 p ?ci" using r' Some by simp_all
      moreover note write_slot [OF dst(1) v sl, of ?ci]
      moreover have "others_kept c sct i cfg cfg1" using dst(2) \<open>sct = Some s\<close> by simp
      ultimately show ?thesis
        using fi slot_item [OF dst(1) v sl] others_kept_trans \<open>sct = Some s\<close> by auto
    qed
  qed
  then show "config_inv c cfg'" "others_kept c sct i cfg cfg'"
    "r = 0 \<and> (\<exists>ci. entry c cfg' sct i = Some ci \<and> ci_val ci = I val \<and> (sct = None \<longrightarrow> ci_locked ci)) \<or> r = - 1 \<and> (\<exists>n. \<not> mem n)"
    by blast+
qed

section \<open>Values\<close>

definition asap_value :: "string \<Rightarrow> string \<Rightarrow> int option" where
  "asap_value option value =
    (if strcaseeq ''ASAP'' value then map_of [(''fault_badpeernet_interval'', 0), (''fault_reset_interval'', FRI_ASAP)] option
     else None)"

lemma fault_options: "list_ex (\<lambda>ci. ci_label ci = ''fault_badpeernet_interval'' \<and> ci_type ci = CFG_TYPE_INT \<and> ci_port ci) (config_tab c)"
  "list_ex (\<lambda>ci. ci_label ci = ''fault_reset_interval'' \<and> ci_type ci = CFG_TYPE_INT \<and> ci_port ci) (config_tab c)"
  by (simp_all add: config_tab_def CONFIG_ITEM_INT_def)

lemma asap_option:
  assumes "asap_value option value = Some v"
  obtains i where "i < 147" "tab_label c i = option" "ci_type (config_tab c ! i) = CFG_TYPE_INT" "ci_port (config_tab c ! i)"
proof -
  have "option = ''fault_badpeernet_interval'' \<or> option = ''fault_reset_interval''"
    using assms by (auto simp: asap_value_def split: if_splits)
  then have "list_ex (\<lambda>ci. ci_label ci = option \<and> ci_type ci = CFG_TYPE_INT \<and> ci_port ci) (config_tab c)"
    using fault_options [of c] by blast
  then show ?thesis using that by (auto simp: list_ex_length)
qed

text \<open>The value that a text gives to an option, or why it gives none.\<close>

definition option_value :: "ext_values \<Rightarrow> nat \<Rightarrow> string \<Rightarrow> parser_result + any_t" where
  "option_value c i value =
    (case asap_value (tab_label c i) value of Some v \<Rightarrow> Inr (I v) | None \<Rightarrow> the (parse_value (config_tab c ! i) value))"

lemma parse_value_total:
  assumes "tab_item ci"
  obtains x where "parse_value ci value = Some x" "\<And>v. x = Inr v \<Longrightarrow> fits (ci_type ci) v"
    "\<And>v. x = Inr v \<Longrightarrow> stored_value (ci_type ci) v value = v" "x \<noteq> Inl PARSED_OK"
proof (cases "ci_type ci")
  case CFG_TYPE_INT
  then show ?thesis
    by (intro that [of "map_sum id I (get_ranged_int value (any_i (ci_min ci)) (any_i (ci_max ci)))"])
      (auto simp: parse_value_def stored_value_def get_ranged_int_def split: sum.splits option.splits if_splits)
next
  case CFG_TYPE_DOUBLE
  then obtain mn mx where m: "ci_min ci = D (Fin mn)" "ci_max ci = D (Fin mx)"
    using assms by (cases "ci_min ci" rule: is_number.cases; cases "ci_max ci" rule: is_number.cases) (auto simp: tab_item_def)
  then show ?thesis using CFG_TYPE_DOUBLE
    by (intro that [of "map_sum id D (get_ranged_double value mn mx)"])
      (auto simp: parse_value_def stored_value_def get_ranged_double_def split: sum.splits option.splits if_splits)
next
  case CFG_TYPE_ENUM
  then obtain t where t: "ci_tab ci = Some t" using assms by (auto simp: tab_item_def)
  then show ?thesis using CFG_TYPE_ENUM
    by (intro that [of "case find (\<lambda>cte. strcaseeq (fst cte) value) t of None \<Rightarrow> Inl BAD_VALUE | Some cte \<Rightarrow> Inr (I (snd cte))"])
      (auto simp: parse_value_def stored_value_def split: option.splits)
next
  case CFG_TYPE_STRING
  then show ?thesis by (intro that [of "Inr (S (Some value))"]) (auto simp: parse_value_def stored_value_def)
next
  case CFG_TYPE_UINT
  then show ?thesis
    by (intro that [of "map_sum id U (get_ranged_uint value (any_u (ci_min ci)) (any_u (ci_max ci)))"])
      (auto simp: parse_value_def stored_value_def get_ranged_uint_def split: sum.splits option.splits if_splits)
qed

lemma parse_value_same: "same_item a b \<Longrightarrow> parse_value a value = parse_value b value"
  by (cases "ci_type b") (simp_all add: parse_value_def same_item_def)

section \<open>The effect of an option\<close>

definition unchanged :: "ext_values \<Rightarrow> config \<Rightarrow> config \<Rightarrow> bool" where
  "unchanged c cfg cfg' \<longleftrightarrow> (\<forall>t j. valid_slot c t j \<longrightarrow> entry c cfg' t j = entry c cfg t j)"

text \<open>What \<open>parse_item\<close> may do to a configuration: nothing, or an update of the slot of the option.\<close>

definition parse_effect ::
    "ext_values \<Rightarrow> (nat \<Rightarrow> bool) \<Rightarrow> bool \<Rightarrow> string option \<Rightarrow> string \<Rightarrow> string \<Rightarrow> config \<Rightarrow> parser_result \<Rightarrow> config \<Rightarrow> bool" where
  "parse_effect c mem cl sct option value cfg r cfg' \<longleftrightarrow> config_inv c cfg' \<and>
    (unchanged c cfg cfg' \<and> (r = PARSED_OK \<longrightarrow> sct = None \<and> \<not> cl \<and> (\<exists>i < 147. tab_label c i = option \<and> ci_locked (items cfg ! i)))
     \<or> (\<exists>i. valid_slot c sct i \<and> tab_label c i = option \<and> others_kept c sct i cfg cfg' \<and>
          (sct = None \<longrightarrow> \<not> cl \<longrightarrow> ci_locked (items cfg ! i) \<longrightarrow> asap_value option value \<noteq> None) \<and>
          (r = PARSED_OK \<and> (\<exists>ci. option_value c i value = Inr (ci_val ci) \<and> entry c cfg' sct i = Some ci \<and> (cl \<and> sct = None \<longrightarrow> ci_locked ci))
           \<or> r = NOT_PARSED \<and> (\<exists>n. \<not> mem n) \<and> (entry c cfg' sct i = None \<or> ci_type (config_tab c ! i) = CFG_TYPE_STRING))))"

lemma parse_effect_update:
  assumes "config_inv c cfg'" "valid_slot c sct i" "tab_label c i = option" "others_kept c sct i cfg cfg'"
    and "sct = None \<Longrightarrow> \<not> cl \<Longrightarrow> ci_locked (items cfg ! i) \<Longrightarrow> asap_value option value \<noteq> None"
    and "option_value c i value = Inr (ci_val ci)" "entry c cfg' sct i = Some ci" "cl \<Longrightarrow> sct = None \<Longrightarrow> ci_locked ci"
  shows "parse_effect c mem cl sct option value cfg PARSED_OK cfg'"
  unfolding parse_effect_def by (rule conjI [OF assms(1)], rule disjI2, rule exI [of _ i]) (use assms in auto)

lemma parse_effect_entry:
  assumes "parse_effect c mem cl sct option value cfg r cfg'" and "valid_slot c t j" and "entry c cfg' t j \<noteq> entry c cfg t j"
  shows "t = sct \<and> tab_label c j = option \<and>
    (sct = None \<longrightarrow> \<not> cl \<longrightarrow> ci_locked (items cfg ! j) \<longrightarrow> asap_value option value \<noteq> None) \<and>
    (\<forall>ci. entry c cfg' t j = Some ci \<longrightarrow> option_value c j value = Inr (ci_val ci) \<or> ci_type (config_tab c ! j) = CFG_TYPE_STRING)"
proof -
  from assms obtain i where i: "others_kept c sct i cfg cfg'" "tab_label c i = option"
      "sct = None \<longrightarrow> \<not> cl \<longrightarrow> ci_locked (items cfg ! i) \<longrightarrow> asap_value option value \<noteq> None"
      "(\<exists>ci. option_value c i value = Inr (ci_val ci) \<and> entry c cfg' sct i = Some ci) \<or>
        entry c cfg' sct i = None \<or> ci_type (config_tab c ! i) = CFG_TYPE_STRING"
    unfolding parse_effect_def unchanged_def by blast
  then have "(t, j) = (sct, i)" using assms(2,3) unfolding others_kept_def by blast
  then show ?thesis using i by auto
qed

lemma parse_fault_cases:
  "parse_fault_interval mem cfg sct option value =
    (case asap_value option value of
       None \<Rightarrow> Some (NOT_PARSED, cfg)
     | Some v \<Rightarrow> (case config_set_section_int mem cfg sct option v of (r, cfg) \<Rightarrow> if truthy r then None else Some (PARSED_OK, cfg)))"
  by (simp add: parse_fault_interval_def asap_value_def)

lemma parse_fault_effect:
  assumes inv: "config_inv c cfg" and sct: "\<And>s. sct = Some s \<Longrightarrow> plain s \<and> length s \<le> 108"
    and a: "asap_value option value = Some v"
  shows "(case parse_item mem cfg cl sct option value of None \<Rightarrow> \<exists>n. \<not> mem n
    | Some (r, cfg') \<Rightarrow> parse_effect c mem cl sct option value cfg r cfg')"
proof -
  obtain i where i: "i < 147" "tab_label c i = option" "ci_type (config_tab c ! i) = CFG_TYPE_INT" "ci_port (config_tab c ! i)"
    using asap_option [OF a] .
  have vs: "valid_slot c sct i" using i sct by (auto simp: valid_slot_def)
  obtain r cfg' where s: "config_set_section_int mem cfg sct (tab_label c i) v = (r, cfg')" by fastforce
  note e = set_section_int [OF inv vs _ s]
  have p: "parse_item mem cfg cl sct option value = (if truthy r then None else Some (PARSED_OK, cfg'))"
    using s by (simp add: parse_item_def parse_fault_cases a i(2))
  show ?thesis
  proof (cases "r = 0")
    case True
    have "option_value c i value = Inr (I v)" using a i(2) by (simp add: option_value_def)
    moreover obtain ci where "entry c cfg' sct i = Some ci" "ci_val ci = I v" "sct = None \<longrightarrow> ci_locked ci"
      using e(3) i(3) True by auto
    ultimately have "parse_effect c mem cl sct option value cfg PARSED_OK cfg'"
      using e(1,2) i vs a by (intro parse_effect_update [of c cfg' sct i]) auto
    then show ?thesis using p True by simp
  qed (use p e i in auto)
qed

text \<open>Storing a parsed value into the slot where the item is, and locking it.\<close>

definition update_item :: "(nat \<Rightarrow> bool) \<Rightarrow> bool \<Rightarrow> string \<Rightarrow> config \<Rightarrow> nat \<Rightarrow> any_t \<Rightarrow> (parser_result \<times> config) option" where
  "update_item mem cl value cfg p v =
    (case store_value mem cfg p v value of
       None \<Rightarrow> None
     | Some (r, cfg) \<Rightarrow> Some (r, if r = PARSED_OK \<and> cl then lock_item cfg p else cfg))"

lemma update_item_effect:
  assumes inv: "config_inv c cfg1" and v: "valid_slot c sct i" and l: "tab_label c i = option" and sl: "slot c cfg1 sct i = Some p"
    and kept: "others_kept c sct i cfg cfg1" and w: "option_value c i value = Inr w" "fits (ci_type (config_tab c ! i)) w"
    and st: "stored_value (ci_type (config_tab c ! i)) w value = w"
    and lk: "sct = None \<Longrightarrow> \<not> cl \<Longrightarrow> ci_locked (items cfg ! i) \<Longrightarrow> asap_value option value \<noteq> None"
  shows "\<exists>r cfg'. update_item mem cl value cfg1 p w = Some (r, cfg') \<and> parse_effect c mem cl sct option value cfg r cfg'"
proof -
  obtain r cfg2 ci where s: "store_value mem cfg1 p w value = Some (r, cfg2)" "config_inv c cfg2" "others_kept c sct i cfg1 cfg2"
      "entry c cfg2 sct i = Some ci" "slot c cfg2 sct i = Some p"
      "r = PARSED_OK \<and> ci_val ci = stored_value (ci_type (config_tab c ! i)) w value \<or>
        r = NOT_PARSED \<and> (\<exists>n. \<not> mem n) \<and> ci_type (config_tab c ! i) = CFG_TYPE_STRING"
    using store_value [OF inv v sl w(2)] by metis
  have k2: "others_kept c sct i cfg cfg2" using kept s(3) by (rule others_kept_trans)
  show ?thesis
  proof (cases "r = PARSED_OK")
    case False
    then have "update_item mem cl value cfg1 p w = Some (r, cfg2)" using s(1) by (simp add: update_item_def)
    moreover have "parse_effect c mem cl sct option value cfg r cfg2"
      unfolding parse_effect_def using False s v l k2 lk by blast
    ultimately show ?thesis by blast
  next
    case True
    have c2: "items cfg2 ! p = ci" using s(4,5) by (simp add: entry_def)
    have fc: "fits (ci_type ci) (ci_val ci)" using config_invD(4) [OF s(2), of p] slot_item [OF s(2) v s(5)] c2 by simp
    define ci' where "ci' = (if cl then ci\<lparr>ci_locked := True\<rparr> else ci)"
    define cfg' where "cfg' = (if cl then lock_item cfg2 p else cfg2)"
    have cfg': "cfg' = set_item cfg2 p ci'"
      using c2 by (simp add: cfg'_def ci'_def lock_item_def) (simp add: set_item_def flip: c2)
    have "same_item ci' (items cfg2 ! p)" "ci_static ci' = ci_static (items cfg2 ! p)" "fits (ci_type ci') (ci_val ci')"
      using c2 fc by (simp_all add: ci'_def same_item_def)
    note e = write_slot [OF s(2) v s(5) this, folded cfg']
    have "parse_effect c mem cl sct option value cfg PARSED_OK cfg'"
      by (rule parse_effect_update [OF e(1) v l others_kept_trans [OF k2 e(2)] lk _ e(3)])
        (use s(6) True w(1) st in \<open>simp_all add: ci'_def\<close>)
    moreover have "update_item mem cl value cfg1 p w = Some (PARSED_OK, cfg')"
      using True s(1) by (simp add: update_item_def cfg'_def)
    ultimately show ?thesis by blast
  qed
qed

lemma parse_item_unfold:
  assumes "asap_value option value = None"
  shows "parse_item mem cfg cl sct option value =
    (case config_global_item cfg option of
       None \<Rightarrow> Some (NOT_PARSED, cfg)
     | Some g \<Rightarrow>
         (case parse_value (items cfg ! g) value of
            None \<Rightarrow> None
          | Some (Inl r) \<Rightarrow> Some (r, cfg)
          | Some (Inr v) \<Rightarrow>
              (case sct of
                 Some s \<Rightarrow>
                   if \<not> ci_port (items cfg ! g) then Some (NOT_PARSED, cfg)
                   else (case section_dst mem cfg s option (ci_type (items cfg ! g)) of
                           (None, cfg) \<Rightarrow> Some (NOT_PARSED, cfg)
                         | (Some p, cfg) \<Rightarrow> update_item mem cl value cfg p v)
               | None \<Rightarrow> if \<not> cl \<and> ci_locked (items cfg ! g) then Some (PARSED_OK, cfg) else update_item mem cl value cfg g v)))"
  unfolding parse_item_def parse_fault_cases assms section_dst_def update_item_def Let_def by simp

lemma unchanged_refl [simp]: "unchanged c cfg cfg"
  by (simp add: unchanged_def)

lemma global_effect:
  assumes inv: "config_inv c cfg" and i: "i < 147" "tab_label c i = option"
    and w: "option_value c i value = Inr w" "fits (ci_type (config_tab c ! i)) w"
      "stored_value (ci_type (config_tab c ! i)) w value = w"
  shows "\<exists>r cfg'. (if \<not> cl \<and> ci_locked (items cfg ! i) then Some (PARSED_OK, cfg) else update_item mem cl value cfg i w) =
    Some (r, cfg') \<and> parse_effect c mem cl None option value cfg r cfg'"
proof (cases "\<not> cl \<and> ci_locked (items cfg ! i)")
  case True
  then show ?thesis using inv i by (auto simp: parse_effect_def)
next
  case False
  have v: "valid_slot c None i" and sl: "slot c cfg None i = Some i" using i(1) by (simp_all add: valid_slot_def slot_def)
  have "\<exists>r cfg'. update_item mem cl value cfg i w = Some (r, cfg') \<and> parse_effect c mem cl None option value cfg r cfg'"
    by (rule update_item_effect [OF inv v i(2) sl others_kept_refl w]) (use False in auto)
  then show ?thesis using False by auto
qed

lemma section_effect:
  assumes inv: "config_inv c cfg" and s: "plain s" "length s \<le> 108" and i: "i < 147" "tab_label c i = option"
    and w: "option_value c i value = Inr w" "fits (ci_type (config_tab c ! i)) w"
      "stored_value (ci_type (config_tab c ! i)) w value = w"
  shows "\<exists>r cfg'. (if \<not> ci_port (config_tab c ! i) then Some (NOT_PARSED, cfg)
    else (case section_dst mem cfg s option (ci_type (config_tab c ! i)) of
            (None, cfg) \<Rightarrow> Some (NOT_PARSED, cfg)
          | (Some p, cfg) \<Rightarrow> update_item mem cl value cfg p w)) = Some (r, cfg') \<and>
    parse_effect c mem cl (Some s) option value cfg r cfg'"
proof (cases "ci_port (config_tab c ! i)")
  case False
  then show ?thesis using inv by (simp add: parse_effect_def)
next
  case True
  then have v: "valid_slot c (Some s) i" using s i(1) by (simp add: valid_slot_def)
  obtain q cfg1 where d: "section_dst mem cfg s option (ci_type (config_tab c ! i)) = (q, cfg1)" by fastforce
  note dst = section_dst [OF inv v d [folded i(2)]]
  show ?thesis
  proof (cases q)
    case None
    then have "parse_effect c mem cl (Some s) option value cfg NOT_PARSED cfg1"
      unfolding parse_effect_def entry_def using dst v i(2) by fastforce
    then show ?thesis using True d None by simp
  next
    case (Some p)
    then have sl: "slot c cfg1 (Some s) i = Some p" using dst(3) by simp
    have "\<exists>r cfg'. update_item mem cl value cfg1 p w = Some (r, cfg') \<and> parse_effect c mem cl (Some s) option value cfg r cfg'"
      by (rule update_item_effect [OF dst(1) v i(2) sl dst(2) w]) simp
    then show ?thesis using True d Some by simp
  qed
qed

lemma parse_item_effect:
  assumes inv: "config_inv c cfg" and sct: "\<And>s. sct = Some s \<Longrightarrow> plain s \<and> length s \<le> 108"
  shows "(case parse_item mem cfg cl sct option value of None \<Rightarrow> \<exists>n. \<not> mem n
    | Some (r, cfg') \<Rightarrow> parse_effect c mem cl sct option value cfg r cfg')"
proof (cases "asap_value option value")
  case None
  have same: "parse_effect c mem cl sct option value cfg r cfg" if "r \<noteq> PARSED_OK" for r
    using that inv by (simp add: parse_effect_def)
  show ?thesis
  proof (cases "config_global_item cfg option")
    case (Some i)
    then have i: "i < 147" "tab_label c i = option" using global_item_iff [OF inv] by blast+
    have it: "same_item (items cfg ! i) (config_tab c ! i)" using config_invD(6) [OF inv i(1)] .
    then have eq: "ci_type (items cfg ! i) = ci_type (config_tab c ! i)" "ci_port (items cfg ! i) = ci_port (config_tab c ! i)"
      by (simp_all add: same_item_def)
    obtain x where x: "parse_value (config_tab c ! i) value = Some x" "\<And>v. x = Inr v \<Longrightarrow> fits (ci_type (config_tab c ! i)) v"
        "\<And>v. x = Inr v \<Longrightarrow> stored_value (ci_type (config_tab c ! i)) v value = v" "x \<noteq> Inl PARSED_OK"
      using parse_value_total [OF tab_nth [OF i(1)]] by blast
    note pi = parse_item_unfold [OF None, of mem cfg cl sct, unfolded Some option.case parse_value_same [OF it] x(1) eq]
    show ?thesis
    proof (cases x)
      case (Inl r)
      then show ?thesis using pi same [of r] x(4) by simp
    next
      case (Inr w)
      have ov: "option_value c i value = Inr w" using None i(2) x(1) Inr by (simp add: option_value_def)
      note w = ov x(2,3) [OF Inr]
      show ?thesis
      proof (cases sct)
        case None
        then show ?thesis using pi Inr global_effect [OF inv i w, of cl mem] by auto
      next
        case (Some s)
        then have "plain s" "length s \<le> 108" using sct by blast+
        then show ?thesis using pi Inr Some section_effect [OF inv _ _ i w, of s mem cl] by auto
      qed
    qed
  next
    case n: None
    then show ?thesis using parse_item_unfold [OF None] same [of NOT_PARSED] by simp
  qed
next
  case (Some v)
  then show ?thesis using parse_fault_effect [OF inv sct] by blast
qed

end
