(* ===== verification/Config_Props.thy ===== *)
theory Config_Props
  imports Config_Parse
begin

text \<open>
  The configuration from its creation through the command line and configuration files: creation succeeds exactly when
  memory lasts, no option and no file can crash the parser, values stay in their ranges, the command line wins over files, and a
  value is found again where it was put, and only there.
\<close>

section \<open>Creation\<close>

lemma create_keys:
  "map (\<lambda>ci. config_key ''global'' (ci_label ci)) (map (ci_static_update (\<lambda>_. True)) (config_tab c)) =
   map (\<lambda>i. config_key ''global'' (tab_label c i)) [0..<147]"
  by (rule nth_equalityI) simp_all

lemma create_entries:
  defines "es \<equiv> \<lambda>c. zip (map (\<lambda>i. config_key ''global'' (tab_label c i)) [0..<147]) [0..<147]"
  shows "distinct (map fst (es c))" and "map_of (es c) k = Some p \<longleftrightarrow> p < 147 \<and> k = config_key ''global'' (tab_label c p)"
proof -
  have i: "inj_on (\<lambda>i. config_key ''global'' (tab_label c i)) {0..<147}" using tab_label_eq by (auto intro!: inj_onI)
  then show d: "distinct (map fst (es c))" by (simp add: es_def distinct_map)
  have s: "set (es c) = (\<lambda>i. (config_key ''global'' (tab_label c i), i)) ` {0..<147}"
  proof -
    have "es c = map (\<lambda>i. (config_key ''global'' (tab_label c i), i)) [0..<147]" unfolding es_def by (rule nth_equalityI) simp_all
    then show ?thesis by simp
  qed
  then show "map_of (es c) k = Some p \<longleftrightarrow> p < 147 \<and> k = config_key ''global'' (tab_label c p)"
    using d by (auto simp: map_of_eq_Some_iff)
qed

definition initial_config :: "ext_values \<Rightarrow> nat hash \<Rightarrow> config" where
  "initial_config c ht = \<lparr>interfaces = [], n_interfaces = 0, opts = config_alloc_longopts c, htab = ht,
     items = map (ci_static_update (\<lambda>_. True)) (config_tab c), unicast_master_tables = [], current_uc_mtab = None, allocs = 297\<rparr>"

lemma initial_inv:
  assumes "hash_inv ht" and l: "\<And>k p. hash_lookup ht k = Some p \<longleftrightarrow> p < 147 \<and> k = config_key ''global'' (tab_label c p)"
  shows "config_inv c (initial_config c ht)"
proof -
  have "item_ok c p (ci_static_update (\<lambda>_. True) (config_tab c ! p))" if "p < 147" for p
    using that tab_nth [OF that, of c] by (simp add: item_ok_def same_item_def tab_item_def)
  then show ?thesis using assms by (auto simp: config_inv_def initial_config_def key_of_def)
qed

lemma create_result:
  "config_create c mem =
    (if mem 0 \<and> mem 1 \<and> mem 2 then
       map_option (initial_config c) (load (\<lambda>i. hash_insert (mem (2 * i + 3)) (mem (2 * i + 4))) 0 hash_create
         (zip (map (\<lambda>i. config_key ''global'' (tab_label c i)) [0..<147]) [0..<147]))
     else None)"
proof -
  let ?es = "zip (map (\<lambda>i. config_key ''global'' (tab_label c i)) [0..<147]) [0..<147]"
  have short: "\<not> list_ex (\<lambda>k. 72 \<le> length k) (map (\<lambda>i. config_key ''global'' (tab_label c i)) [0..<147])"
    using tab_label_short [of _ c] by (force simp: list_ex_iff config_key_def)
  have bist: "list_all (\<lambda>i. config_global_item (initial_config c ht)
      (ci_label (map (ci_static_update (\<lambda>_. True)) (config_tab c) ! i)) = Some i) [0..<147]"
    if "load (\<lambda>i. hash_insert (mem (2 * i + 3)) (mem (2 * i + 4))) 0 hash_create ?es = Some ht" for ht
  proof -
    have "hash_lookup hash_create = (Map.empty :: string \<Rightarrow> nat option)" using ht.lookup_empty by (rule ext)
    then have "hash_inv ht \<and> hash_lookup ht = map_of ?es" using ht.load_lookup [OF ht.inv_empty that] by simp
    then have "config_inv c (initial_config c ht)" using create_entries(2) [of c] by (intro initial_inv) auto
    then show ?thesis using global_item_iff by (auto simp: list_all_iff)
  qed
  show ?thesis
    unfolding config_create_def Let_def create_keys using short bist
    by (auto simp: initial_config_def split: option.split)
qed


lemma create_inv: "config_create c mem = Some cfg \<Longrightarrow> config_inv c cfg \<and> (\<exists>ht. cfg = initial_config c ht)"
proof -
  assume "config_create c mem = Some cfg"
  then obtain ht where l: "load (\<lambda>i. hash_insert (mem (2 * i + 3)) (mem (2 * i + 4))) 0 hash_create
      (zip (map (\<lambda>i. config_key ''global'' (tab_label c i)) [0..<147]) [0..<147]) = Some ht" and cfg: "cfg = initial_config c ht"
    unfolding create_result by (auto split: if_splits)
  have "hash_lookup hash_create = (Map.empty :: string \<Rightarrow> nat option)" using ht.lookup_empty by (rule ext)
  then have "hash_inv ht \<and> hash_lookup ht = map_of (zip (map (\<lambda>i. config_key ''global'' (tab_label c i)) [0..<147]) [0..<147])"
    using ht.load_lookup [OF ht.inv_empty l] by simp
  then show ?thesis using create_entries(2) [of c] cfg by (auto intro!: initial_inv)
qed

lemma create_iff: "config_create c mem \<noteq> None \<longleftrightarrow> (\<forall>n < 297. mem n)"
proof -
  let ?es = "zip (map (\<lambda>i. config_key ''global'' (tab_label c i)) [0..<147]) [0..<147]"
  have "load (\<lambda>i. hash_insert (mem (2 * i + 3)) (mem (2 * i + 4))) 0 hash_create ?es \<noteq> None \<longleftrightarrow>
      (\<forall>i < 147. mem (2 * i + 3) \<and> mem (2 * i + 4))"
    using create_entries(1) [of c] ht.lookup_empty by (subst ht.load_iff [OF ht.inv_empty]) auto
  moreover have "(mem 0 \<and> mem 1 \<and> mem 2) \<and> (\<forall>i < 147. mem (2 * i + 3) \<and> mem (2 * i + 4)) \<longleftrightarrow> (\<forall>n < 297. mem n)"
  proof
    assume m: "(mem 0 \<and> mem 1 \<and> mem 2) \<and> (\<forall>i < 147. mem (2 * i + 3) \<and> mem (2 * i + 4))"
    show "\<forall>n < 297. mem n"
    proof (intro allI impI)
      fix n :: nat assume "n < 297"
      then have "n = 0 \<or> n = 1 \<or> n = 2 \<or> (\<exists>i < 147. n = 2 * i + 3 \<or> n = 2 * i + 4)" by presburger
      then show "mem n" using m by blast
    qed
  qed auto
  ultimately show "config_create c mem \<noteq> None \<longleftrightarrow> (\<forall>n < 297. mem n)" unfolding create_result by auto
qed

section \<open>Files\<close>

text \<open>The pieces that \<open>fgets\<close> reads, and the port name of a line that opens a port section.\<close>

function text_lines :: "string \<Rightarrow> string list" where
  "text_lines tx = (if tx = [] then [] else fst (fgets 1024 tx) # text_lines (snd (fgets 1024 tx)))"
  by pat_completeness auto
termination by (relation "measure length") (auto simp: fgets_def Let_def)

declare text_lines.simps [simp del]

definition blank_brackets :: "string \<Rightarrow> string" where
  "blank_brackets = map (\<lambda>c. if c = CHR ''['' \<or> c = CHR '']'' then CHR '' '' else c)"

definition line_port :: "string \<Rightarrow> string option" where
  "line_port buf =
    (case trim_line buf of
       None \<Rightarrow> None
     | Some line \<Rightarrow>
         if strcaseeq line ''[global]'' \<or> strcaseeq line ''[unicast_master_table]'' \<or> take 1 line \<noteq> ''['' then None
         else map_option fst (scan_s 128 (blank_brackets line)))"

definition plain_text :: "string \<Rightarrow> bool" where
  "plain_text tx \<longleftrightarrow> list_all (\<lambda>l. case line_port l of None \<Rightarrow> True | Some n \<Rightarrow> plain n) (text_lines tx)"

definition ifs_ok :: "config \<Rightarrow> bool" where
  "ifs_ok cfg \<longleftrightarrow> (\<forall>i \<in> set (interfaces cfg). length (if_name i) \<le> 108)"

text \<open>What holds between two lines of a file.\<close>

definition read_ok :: "ext_values \<Rightarrow> read_state \<Rightarrow> bool" where
  "read_ok c rs \<longleftrightarrow> config_inv c (rs_cfg rs) \<and> ifs_ok (rs_cfg rs) \<and>
    (\<forall>s. rs_port rs = Some s \<longrightarrow> plain s \<and> length s \<le> 108) \<and> (rs_section rs = PORT_SECTION \<longrightarrow> rs_port rs \<noteq> None)"

text \<open>The unicast master tables are apart from the options.\<close>

definition same_store :: "config \<Rightarrow> config \<Rightarrow> bool" where
  "same_store cfg cfg' \<longleftrightarrow> items cfg' = items cfg \<and> htab cfg' = htab cfg \<and>
    (\<forall>t. current_uc_mtab cfg' = Some t \<longrightarrow> t < length (unicast_master_tables cfg'))"

lemma same_store:
  assumes "config_inv c cfg" and "same_store cfg cfg'"
  shows "config_inv c cfg'" and "unchanged c cfg cfg'"
  using assms
  by (auto simp: same_store_def config_inv_def key_of_def unchanged_def entry_def slot_def config_section_item_def split: option.split)

lemma mtab_same_store:
  assumes "\<forall>t. current_uc_mtab cfg = Some t \<longrightarrow> t < length (unicast_master_tables cfg)"
  shows "same_store cfg (snd (parse_unicast_mtab_line lib mem cfg line))"
    and "interfaces (snd (parse_unicast_mtab_line lib mem cfg line)) = interfaces cfg"
  using assms
  by (auto simp: parse_unicast_mtab_line_def config_switch_unicast_mtab_def config_unicast_mtab_query_interval_def
      config_unicast_mtab_peer_def config_unicast_mtab_address_def set_mtab_def alloc_def same_store_def Let_def
      split: option.splits prod.splits)

lemma parse_effect_inv: "parse_effect c mem cl sct option value cfg r cfg' \<Longrightarrow> config_inv c cfg'"
  by (simp add: parse_effect_def)

text \<open>Files create interfaces; options do not.\<close>

lemma set_section_int_interfaces: "interfaces (snd (config_set_section_int mem cfg sct option v)) = interfaces cfg"
  by (auto simp: config_set_section_int_def config_item_alloc_def config_insert_def alloc_def Let_def
      split: option.splits prod.splits)

lemma parse_item_interfaces: "parse_item mem cfg cl sct option value = Some (r, cfg') \<Longrightarrow> interfaces cfg' = interfaces cfg"
proof -
  assume a: "parse_item mem cfg cl sct option value = Some (r, cfg')"
  have st: "interfaces cfg2 = interfaces cfg1" if "update_item mem cl value cfg1 p v = Some (r, cfg2)" for cfg1 cfg2 p v r
    using that by (auto simp: update_item_def store_value_def alloc_def lock_item_def Let_def
        split: option.splits prod.splits config_type.splits any_t.splits if_splits)
  have dst: "interfaces cfg2 = interfaces cfg1" if "section_dst mem cfg1 s opt ty = (q, cfg2)" for cfg1 cfg2 s opt ty q
    using that by (auto simp: section_dst_def config_item_alloc_def config_insert_def alloc_def Let_def
        split: option.splits prod.splits if_splits)
  show "interfaces cfg' = interfaces cfg"
  proof (cases "asap_value option value")
    case None
    show ?thesis using a [unfolded parse_item_unfold [OF None]]
      by (auto split: option.splits sum.splits if_splits prod.splits dest!: st dst)
  next
    case (Some v)
    then show ?thesis
      using a set_section_int_interfaces [of mem cfg sct option v]
      by (auto simp: parse_item_def parse_fault_cases split: prod.splits if_splits)
  qed
qed

definition file_step :: "ext_values \<Rightarrow> (nat \<Rightarrow> bool) \<Rightarrow> config \<Rightarrow> config \<Rightarrow> bool" where
  "file_step c mem cfg cfg' \<longleftrightarrow> config_inv c cfg' \<and> unchanged c cfg cfg' \<or>
    (\<exists>sct option value r. parse_effect c mem False sct option value cfg r cfg')"

lemma plain_take: "plain n \<Longrightarrow> plain (take 108 n)"
proof -
  have "take 108 n = ''global'' \<Longrightarrow> n = ''global''"
  proof -
    assume t: "take 108 n = ''global''"
    then have "length (take 108 n) = 6" by simp
    then have "min 108 (length n) = 6" by (simp only: length_take min.commute)
    then show "n = ''global''" using t by (auto simp: min_def split: if_splits)
  qed
  then show "plain n \<Longrightarrow> plain (take 108 n)" by (auto simp: plain_def)
qed

lemma find_Some: "find P xs = Some x \<Longrightarrow> x \<in> set xs \<and> P x"
  by (auto simp: find_Some_iff)

lemma take_eq_length: "take n y = z \<Longrightarrow> length z \<le> n"
  by auto

lemma create_interface:
  assumes "ifs_ok cfg" and "config_create_interface mem cfg name = (r, cfg')"
  shows "items cfg' = items cfg \<and> htab cfg' = htab cfg \<and> current_uc_mtab cfg' = current_uc_mtab cfg \<and>
    unicast_master_tables cfg' = unicast_master_tables cfg \<and> ifs_ok cfg' \<and>
    (\<forall>i. r = Some i \<longrightarrow> if_name i = take 108 name \<and> length (if_name i) \<le> 108)"
  using assms
  by (auto simp: ifs_ok_def config_create_interface_def interface_create_def alloc_def Let_def
      split: option.splits if_splits dest!: find_Some)

lemma parse_section_line_eq:
  "parse_section_line cfg s = (if strcaseeq s ''[global]'' then Some (GLOBAL_SECTION, s, cfg)
     else if strcaseeq s ''[unicast_master_table]'' then Some (UC_MTAB_SECTION, s, cfg\<lparr>current_uc_mtab := None\<rparr>)
     else if take 1 s = ''['' then Some (PORT_SECTION, blank_brackets s, cfg) else None)"
  by (simp add: parse_section_line_def blank_brackets_def)

lemma section_line_effect:
  assumes ok: "read_ok c rs" and n: "\<forall>n. line_port buf = Some n \<longrightarrow> plain n" and l: "trim_line buf = Some line"
    and p: "parse_section_line (rs_cfg rs) line \<noteq> None" and r: "config_line lib mem rs buf = Some (b, rs')"
  shows "same_store (rs_cfg rs) (rs_cfg rs')" and "ifs_ok (rs_cfg rs')" and "b \<Longrightarrow> read_ok c rs'"
proof -
  have inv: "config_inv c (rs_cfg rs)" and mt: "\<And>t. current_uc_mtab (rs_cfg rs) = Some t \<Longrightarrow> t < length (unicast_master_tables (rs_cfg rs))"
    and ifs: "ifs_ok (rs_cfg rs)"
    using ok config_invD(9) by (auto simp: read_ok_def)
  have "same_store (rs_cfg rs) (rs_cfg rs') \<and> ifs_ok (rs_cfg rs') \<and> (b \<longrightarrow>
      (\<forall>s. rs_port rs' = Some s \<longrightarrow> plain s \<and> length s \<le> 108) \<and> (rs_section rs' = PORT_SECTION \<longrightarrow> rs_port rs' \<noteq> None))"
  proof (cases "strcaseeq line ''[global]'' \<or> strcaseeq line ''[unicast_master_table]''")
    case True
    then show ?thesis
      using r l mt ok ifs
      by (auto simp: config_line_def parse_section_line_eq same_store_def read_ok_def ifs_ok_def split: if_splits)
  next
    case False
    then have t: "take 1 line = ''[''" using p by (auto simp: parse_section_line_eq split: if_splits)
    show ?thesis
    proof (cases "scan_s 128 (blank_brackets line)")
      case None
      then show ?thesis using r l False t mt ifs by (auto simp: config_line_def parse_section_line_eq same_store_def)
    next
      case (Some x)
      obtain q cfg' where i: "config_create_interface mem (rs_cfg rs) (fst x) = (q, cfg')" by fastforce
      have "plain (fst x)" using n l False t Some by (simp add: line_port_def)
      then have "plain (take 108 (fst x))" by (rule plain_take)
      then show ?thesis
        using r l False t Some i create_interface [OF ifs i] mt
        by (auto simp: config_line_def parse_section_line_eq same_store_def Let_def case_prod_beta split: option.splits
            dest: take_eq_length)
    qed
  qed
  then show "same_store (rs_cfg rs) (rs_cfg rs')" "ifs_ok (rs_cfg rs')" "b \<Longrightarrow> read_ok c rs'"
    using same_store(1) [OF inv] by (auto simp: read_ok_def)
qed

lemma setting_line_effect:
  assumes ok: "read_ok c rs" and sec: "\<And>s. sct = Some s \<Longrightarrow> plain s \<and> length s \<le> 108"
  shows "case (case parse_setting_line line of None \<Rightarrow> Some (False, rs)
      | Some (option, value) \<Rightarrow> (case parse_item mem (rs_cfg rs) False sct (check_deprecated_options option) value of
           None \<Rightarrow> None | Some (r, cfg) \<Rightarrow> Some (r = PARSED_OK, rs\<lparr>rs_cfg := cfg\<rparr>)))
    of None \<Rightarrow> \<exists>n. \<not> mem n
    | Some (b, rs') \<Rightarrow> file_step c mem (rs_cfg rs) (rs_cfg rs') \<and> ifs_ok (rs_cfg rs') \<and> (b \<longrightarrow> read_ok c rs')"
proof (cases "parse_setting_line line")
  case None
  then show ?thesis using ok by (simp add: file_step_def read_ok_def)
next
  case (Some ov)
  have inv: "config_inv c (rs_cfg rs)" using ok by (simp add: read_ok_def)
  let ?p = "parse_item mem (rs_cfg rs) False sct (check_deprecated_options (fst ov)) (snd ov)"
  have e: "case ?p of None \<Rightarrow> \<exists>n. \<not> mem n
    | Some (r, cfg') \<Rightarrow> parse_effect c mem False sct (check_deprecated_options (fst ov)) (snd ov) (rs_cfg rs) r cfg'"
    by (rule parse_item_effect [OF inv sec])
  show ?thesis
  proof (cases ?p)
    case None
    then show ?thesis using Some e by (simp add: case_prod_beta)
  next
    case p: (Some rc)
    then have pe: "parse_effect c mem False sct (check_deprecated_options (fst ov)) (snd ov) (rs_cfg rs) (fst rc) (snd rc)"
      using e by (simp add: case_prod_beta)
    then have "file_step c mem (rs_cfg rs) (snd rc)" unfolding file_step_def by blast
    then show ?thesis
      using Some p ok parse_effect_inv [OF pe] parse_item_interfaces [of mem "rs_cfg rs" False sct _ _ "fst rc" "snd rc"]
      by (auto simp: case_prod_beta read_ok_def ifs_ok_def)
  qed
qed

lemma line_effect:
  assumes ok: "read_ok c rs" and n: "\<forall>n. line_port buf = Some n \<longrightarrow> plain n"
  shows "case config_line lib mem rs buf of None \<Rightarrow> \<exists>n. \<not> mem n
    | Some (b, rs') \<Rightarrow> file_step c mem (rs_cfg rs) (rs_cfg rs') \<and> ifs_ok (rs_cfg rs') \<and> (b \<longrightarrow> read_ok c rs')"
proof -
  have inv: "config_inv c (rs_cfg rs)" using ok by (simp add: read_ok_def)
  have mt: "\<forall>t. current_uc_mtab (rs_cfg rs) = Some t \<longrightarrow> t < length (unicast_master_tables (rs_cfg rs))"
    using config_invD(9) [OF inv] by blast
  have st: "file_step c mem (rs_cfg rs) cfg'" if "same_store (rs_cfg rs) cfg'" for cfg'
    using same_store [OF inv that] by (simp add: file_step_def)
  have id: "file_step c mem (rs_cfg rs) (rs_cfg rs)" using inv by (simp add: file_step_def)
  consider (blank) "trim_line buf = None" | (sec) line where "trim_line buf = Some line" "parse_section_line (rs_cfg rs) line \<noteq> None"
    | (item) line where "trim_line buf = Some line" "parse_section_line (rs_cfg rs) line = None" by fastforce
  then show ?thesis
  proof cases
    case blank
    then show ?thesis using id ok by (simp add: config_line_def read_ok_def)
  next
    case sec
    note e = section_line_effect [OF ok n sec, of lib mem]
    have "config_line lib mem rs buf \<noteq> None" using sec by (auto simp: config_line_def Let_def split: prod.splits option.splits)
    then show ?thesis using e st by (auto split: option.split)
  next
    case item
    note cl = config_line_def [of lib mem rs buf, unfolded item option.case]
    show ?thesis
    proof (cases "rs_section rs = UC_MTAB_SECTION \<or> rs_section rs = UNKNOWN_SECTION")
      case True
      have "same_store (rs_cfg rs) (snd (parse_unicast_mtab_line lib mem (rs_cfg rs) line))"
        using mtab_same_store(1) [OF mt] .
      then show ?thesis using cl True st id same_store(1) [OF inv] mtab_same_store(2) [OF mt, of lib mem line] ok
        by (auto simp: case_prod_beta read_ok_def ifs_ok_def)
    next
      case False
      define sct where "sct = (if rs_section rs = GLOBAL_SECTION then None else rs_port rs)"
      have sec: "\<And>s. sct = Some s \<Longrightarrow> plain s \<and> length s \<le> 108" using ok by (auto simp: sct_def read_ok_def split: if_splits)
      have "config_line lib mem rs buf = (case parse_setting_line line of None \<Rightarrow> Some (False, rs)
        | Some (option, value) \<Rightarrow> (case parse_item mem (rs_cfg rs) False sct (check_deprecated_options option) value of
             None \<Rightarrow> None | Some (r, cfg) \<Rightarrow> Some (r = PARSED_OK, rs\<lparr>rs_cfg := cfg\<rparr>)))"
        using cl False by (cases "rs_section rs") (auto simp: sct_def split: option.split prod.split)
      then show ?thesis using setting_line_effect [OF ok sec] by presburger
    qed
  qed
qed

lemma loop_effect:
  assumes "read_ok c rs" and "plain_text tx"
  shows "case config_loop lib mem rs tx of None \<Rightarrow> \<exists>n. \<not> mem n
    | Some (b, rs') \<Rightarrow> (file_step c mem)\<^sup>*\<^sup>* (rs_cfg rs) (rs_cfg rs') \<and> config_inv c (rs_cfg rs') \<and> ifs_ok (rs_cfg rs')"
  using assms
proof (induction lib mem rs tx rule: config_loop.induct)
  case (1 lib mem rs tx)
  show ?case
  proof (cases "tx = []")
    case True
    then show ?thesis using "1.prems"(1) by (simp add: config_loop.simps read_ok_def)
  next
    case False
    let ?l = "fst (fgets 1024 tx)" and ?r = "snd (fgets 1024 tx)"
    have pl: "\<forall>n. line_port ?l = Some n \<longrightarrow> plain n" and pr: "plain_text ?r"
      using "1.prems"(2) False text_lines.simps [of tx] by (auto simp: plain_text_def)
    note e = line_effect [OF "1.prems"(1) pl, of mem lib]
    show ?thesis
    proof (cases "config_line lib mem rs ?l")
      case None
      then show ?thesis using e False by (simp add: config_loop.simps)
    next
      case (Some x)
      obtain b rs1 where x: "x = (b, rs1)" by (cases x)
      have s: "file_step c mem (rs_cfg rs) (rs_cfg rs1)" and ok: "b \<longrightarrow> read_ok c rs1" "ifs_ok (rs_cfg rs1)" using e Some x by simp_all
      have i: "config_inv c (rs_cfg rs1)" using s by (auto simp: file_step_def parse_effect_inv)
      show ?thesis
      proof (cases b)
        case True
        then have "b = True" by simp
        note IH = "1.IH" [OF False Some [unfolded x] refl this _ pr]
        show ?thesis using IH ok True Some x False s converse_rtranclp_into_rtranclp [of "file_step c mem"]
          by (subst config_loop.simps) (fastforce split: option.splits prod.splits)
      next
        case False
        then show ?thesis using Some x s i ok \<open>tx \<noteq> []\<close> by (subst config_loop.simps) auto
      qed
    qed
  qed
qed

lemma read_effect:
  assumes "config_inv c cfg" and "ifs_ok cfg" and "plain_text tx"
  shows "case config_read lib mem (Some tx) cfg of None \<Rightarrow> \<exists>n. \<not> mem n
    | Some (r, cfg') \<Rightarrow> (file_step c mem)\<^sup>*\<^sup>* cfg cfg' \<and> config_inv c cfg' \<and> ifs_ok cfg'"
  using loop_effect [of c "\<lparr>rs_cfg = cfg, rs_section = UNKNOWN_SECTION, rs_port = None\<rparr>" tx mem lib] assms
  by (auto simp: config_read_def read_ok_def split: option.splits)

section \<open>Reachable configurations\<close>

text \<open>What a program makes of its configuration: it is created, options of the command line are parsed, interfaces are
  added, files are read.\<close>

inductive config_reach :: "parser_libs \<Rightarrow> (nat \<Rightarrow> bool) \<Rightarrow> ext_values \<Rightarrow> config \<Rightarrow> bool" for lib mem c where
  created: "config_create c mem = Some cfg \<Longrightarrow> config_reach lib mem c cfg"
| commandline: "config_reach lib mem c cfg \<Longrightarrow> config_parse_option mem cfg opt val = Some (r, cfg') \<Longrightarrow> config_reach lib mem c cfg'"
| interface: "config_reach lib mem c cfg \<Longrightarrow> config_create_interface mem cfg name = (i, cfg') \<Longrightarrow> config_reach lib mem c cfg'"
| fileread: "config_reach lib mem c cfg \<Longrightarrow> plain_text tx \<Longrightarrow> config_read lib mem (Some tx) cfg = Some (r, cfg') \<Longrightarrow>
    config_reach lib mem c cfg'"

lemma option_effect:
  assumes "config_inv c cfg"
  shows "case config_parse_option mem cfg opt val of None \<Rightarrow> \<exists>n. \<not> mem n
    | Some (r, cfg') \<Rightarrow> \<exists>pr. r = (if pr = PARSED_OK then 0 else - 1) \<and> interfaces cfg' = interfaces cfg \<and>
        parse_effect c mem True None (check_deprecated_options opt) val cfg pr cfg'"
proof -
  let ?p = "parse_item mem cfg True None (check_deprecated_options opt) val"
  have e: "case ?p of None \<Rightarrow> \<exists>n. \<not> mem n
    | Some (r, cfg') \<Rightarrow> parse_effect c mem True None (check_deprecated_options opt) val cfg r cfg'"
    by (rule parse_item_effect [OF assms]) simp
  show ?thesis
  proof (cases ?p)
    case None
    then show ?thesis using e by (simp add: config_parse_option_def)
  next
    case (Some x)
    then have "parse_effect c mem True None (check_deprecated_options opt) val cfg (fst x) (snd x)"
      and "interfaces (snd x) = interfaces cfg"
      using e parse_item_interfaces [of mem cfg True None "check_deprecated_options opt" val "fst x" "snd x"]
      by (simp_all add: case_prod_beta)
    then show ?thesis using Some by (auto simp: config_parse_option_def case_prod_beta)
  qed
qed

lemma reach_inv: "config_reach lib mem c cfg \<Longrightarrow> config_inv c cfg \<and> ifs_ok cfg"
proof (induction rule: config_reach.induct)
  case (created cfg)
  then show ?case using create_inv [of c mem cfg] by (auto simp: ifs_ok_def initial_config_def)
next
  case (commandline cfg opt val r cfg')
  then show ?case using option_effect [of c cfg mem opt val] by (auto simp: parse_effect_def ifs_ok_def)
next
  case (interface cfg name i cfg')
  then show ?case
    using create_interface [of cfg mem name i cfg'] same_store(1) [of c cfg cfg'] config_invD(9) [of c cfg]
    by (auto simp: same_store_def)
next
  case (fileread cfg tx r cfg')
  then show ?case using read_effect [of c cfg tx mem lib] by auto
qed

end
