(* ===== verification/Config_Spec.thy ===== *)
theory Config_Spec
  imports Config_Props
begin

text \<open>
  The theorems on the configuration: creation, absence of crashes, types, ranges, precedence of the command line, and what one
  option does to the others; and three ways in which the code departs from what it means.
\<close>

section \<open>Creation and destruction\<close>

text \<open>\<open>config_create\<close> succeeds exactly when its 297 allocations do: the built-in self test passes, because no two options
  have the same label, and no label is too long. Every option then has its default value, and the long options of the command line
  are the options of the table.\<close>

theorem config_create_correct:
  "(config_create c mem \<noteq> None \<longleftrightarrow> (\<forall>n < 297. mem n)) \<and>
   (case config_create c mem of None \<Rightarrow> True
    | Some cfg \<Rightarrow> opts cfg = map ci_label (config_tab c) \<and> (\<forall>i < length (config_tab c). \<exists>p.
        config_find_item cfg None (opts cfg ! i) = Some p \<and> ci_val (items cfg ! p) = ci_val (config_tab c ! i)))"
proof (intro conjI)
  show "config_create c mem \<noteq> None \<longleftrightarrow> (\<forall>n < 297. mem n)" by (rule create_iff)
  show "case config_create c mem of None \<Rightarrow> True
    | Some cfg \<Rightarrow> opts cfg = map ci_label (config_tab c) \<and> (\<forall>i < length (config_tab c). \<exists>p.
        config_find_item cfg None (opts cfg ! i) = Some p \<and> ci_val (items cfg ! p) = ci_val (config_tab c ! i))"
  proof (cases "config_create c mem")
    case (Some cfg)
    then obtain ht where inv: "config_inv c cfg" and cfg: "cfg = initial_config c ht" using create_inv by blast
    have "config_find_item cfg None (tab_label c i) = Some i" if "i < 147" for i
      using that global_item_iff [OF inv] by (simp add: config_find_item_def)
    then show ?thesis using Some by (auto simp: cfg initial_config_def config_alloc_longopts_def)
  qed simp
qed

text \<open>A sample: some values for the enumerations that are not in the tree, enough memory, no addresses.\<close>

definition sample_values :: ext_values where
  "sample_values = \<lparr>ct_ordinary = 1, ct_boundary = 2, ct_p2p = 3, ct_e2e = 4, ds_cmp_ieee1588 = 0, ds_cmp_g8275 = 1\<rparr>"

theorem config_create_correct_witness:
  "\<exists>cfg. config_create sample_values (\<lambda>_. True) = Some cfg \<and>
    (\<exists>p. config_find_item cfg None (opts cfg ! 146) = Some p \<and> ci_val (items cfg ! p) = ci_val (config_tab sample_values ! 146))"
  using config_create_correct [of sample_values "\<lambda>_. True"] by auto

definition sample_libs :: parser_libs where
  "sample_libs = \<lparr>lib_inet_aton = (\<lambda>_. None), lib_inet_pton6 = (\<lambda>_. None)\<rparr>"

abbreviation "enough \<equiv> \<lambda>_ :: nat. True"

lemma sample_created: "\<exists>cfg. config_create sample_values enough = Some cfg"
  using create_iff [of sample_values enough] by auto

text \<open>\<open>config_destroy\<close> frees every item that was allocated for a port section, each exactly once, and none of the static
  table.\<close>

theorem config_destroy_exact:
  assumes "config_reach lib mem c cfg"
  shows "distinct (fst (config_destroy cfg)) \<and> set (fst (config_destroy cfg)) = {length (config_tab c)..<length (items cfg)}"
proof -
  have inv: "config_inv c cfg" using reach_inv [OF assms] by blast
  let ?h = "concat (htab cfg)"
  note h = hash_destroy_complete [OF config_invD(1) [OF inv]]
  have m: "map_of ?h k = Some p \<longleftrightarrow> (k, p) \<in> set ?h" for k p using h map_of_eq_Some_iff [of ?h k p] by blast
  have u: "k = l" if "(k, p) \<in> set ?h" "(l, p) \<in> set ?h" for k l p
    using that m h inv unfolding config_inv_def by metis
  have "distinct ?h" using h distinct_map [of fst ?h] by blast
  then have d: "distinct (hash_destroy (htab cfg))"
    using h u unfolding inj_on_def by (metis (no_types, lifting) distinct_map inj_onI prod.collapse)
  have "p \<in> set (hash_destroy (htab cfg)) \<longleftrightarrow> p < length (items cfg)" for p
  proof
    assume "p \<in> set (hash_destroy (htab cfg))"
    then have "p \<in> snd ` set ?h" using h by simp
    then obtain k where "(k, p) \<in> set ?h" by (metis imageE prod.collapse)
    then have "hash_lookup (htab cfg) k = Some p" using m h by metis
    then show "p < length (items cfg)" using config_invD(3) [OF inv] by (auto simp: key_of_def)
  next
    assume "p < length (items cfg)"
    then obtain k where "hash_lookup (htab cfg) k = Some p" using config_invD(8) [OF inv] by blast
    then have "(k, p) \<in> set ?h" using m h by metis
    then have "p \<in> snd ` set ?h" by (metis imageI snd_conv)
    then show "p \<in> set (hash_destroy (htab cfg))" using h by simp
  qed
  moreover have "ci_static (items cfg ! p) \<longleftrightarrow> p < 147" if "p < length (items cfg)" for p
    using config_invD(7) [OF inv] config_invD(5) [OF inv that] by (auto simp: section_item_def)
  ultimately show ?thesis using d by (auto simp: config_destroy_def config_item_free_def Let_def)
qed

theorem config_destroy_exact_witness:
  "\<exists>cfg. config_reach sample_libs enough sample_values cfg \<and> distinct (fst (config_destroy cfg)) \<and>
     set (fst (config_destroy cfg)) = {length (config_tab sample_values)..<length (items cfg)}"
  using sample_created config_destroy_exact config_reach.created by metis

section \<open>Safety and types\<close>

text \<open>C20. No option on the command line and no configuration file, however malformed, makes the parser dereference a null pointer,
  read a variable that was not set or exit, as long as memory lasts: it always returns a result. The only condition on the file
  is that no port section is named \<open>global\<close> or \<open>global.\<close> and something.\<close>

theorem config_never_crashes:
  assumes "config_reach lib mem c cfg"
  shows "(config_parse_option mem cfg opt val = None \<longrightarrow> (\<exists>n. \<not> mem n)) \<and>
    (plain_text tx \<longrightarrow> config_read lib mem (Some tx) cfg = None \<longrightarrow> (\<exists>n. \<not> mem n))"
proof -
  have inv: "config_inv c cfg" "ifs_ok cfg" using reach_inv [OF assms] by blast+
  then show ?thesis
    using option_effect [OF inv(1), of mem opt val] read_effect [OF inv, of tx mem lib] by auto
qed

definition sample_file :: string where
  "sample_file = ''[global]'' @ CHR 0x0A # ''priority1 5'' @ CHR 0x0A # ''[eth0]'' @ CHR 0x0A # ''delay_mechanism P2P'' @ [CHR 0x0A]"

lemma sample_lines: "text_lines sample_file = [''[global]'' @ [CHR 0x0A], ''priority1 5'' @ [CHR 0x0A], ''[eth0]'' @ [CHR 0x0A],
    ''delay_mechanism P2P'' @ [CHR 0x0A]]"
  by (simp add: sample_file_def text_lines.simps fgets_def)

lemma sample_plain: "plain_text sample_file"
  unfolding plain_text_def sample_lines by code_simp

theorem config_never_crashes_witness:
  "\<exists>cfg. config_create sample_values enough = Some cfg \<and> config_parse_option enough cfg ''priority1'' ''1'' \<noteq> None \<and>
     config_read sample_libs enough (Some sample_file) cfg \<noteq> None"
proof -
  obtain cfg where cfg: "config_create sample_values enough = Some cfg" using sample_created by blast
  then have "config_reach sample_libs enough sample_values cfg" by (rule config_reach.created)
  then show ?thesis using config_never_crashes [of sample_libs enough sample_values cfg "''priority1''" "''1''" sample_file]
      cfg sample_plain by auto
qed

text \<open>Where \<open>config_find_item\<close> looks, the slot of the section before the global one.\<close>

lemma find_slot:
  assumes inv: "config_inv c cfg" and v: "valid_slot c sct i" and p: "config_find_item cfg sct (tab_label c i) = Some p"
  shows "slot c cfg sct i = Some p \<or> slot c cfg sct i = None \<and> slot c cfg None i = Some p"
  using p v global_item_iff [OF inv, of "tab_label c i" p] tab_label_eq [of p i c]
  by (auto simp: config_find_item_def slot_def valid_slot_def split: option.splits)

lemma find_total: "config_inv c cfg \<Longrightarrow> valid_slot c sct i \<Longrightarrow> config_find_item cfg sct (tab_label c i) \<noteq> None"
  using global_item_iff [of c cfg "tab_label c i" i]
  by (auto simp: config_find_item_def valid_slot_def split: option.splits)

lemma find_typed:
  assumes inv: "config_inv c cfg" and v: "valid_slot c sct i"
  obtains p where "config_find_item cfg sct (tab_label c i) = Some p" "p < length (items cfg)"
    "ci_type (items cfg ! p) = ci_type (config_tab c ! i)" "fits (ci_type (config_tab c ! i)) (ci_val (items cfg ! p))"
proof -
  obtain p where p: "config_find_item cfg sct (tab_label c i) = Some p" using find_total [OF assms] by blast
  have v0: "valid_slot c None i" using v by (simp add: valid_slot_def)
  have "p < length (items cfg) \<and> ci_type (items cfg ! p) = ci_type (config_tab c ! i)"
    using find_slot [OF inv v p] slot_item [OF inv v, of p] slot_item [OF inv v0, of p] by blast
  then show ?thesis using p config_invD(4) [OF inv, of p] by (intro that [of p]) auto
qed

definition typed_get :: "config \<Rightarrow> string option \<Rightarrow> string \<Rightarrow> config_type \<Rightarrow> any_t option" where
  "typed_get cfg sct option ty =
    (case ty of
       CFG_TYPE_INT \<Rightarrow> map_option I (config_get_int cfg sct option)
     | CFG_TYPE_ENUM \<Rightarrow> map_option I (config_get_int cfg sct option)
     | CFG_TYPE_DOUBLE \<Rightarrow> map_option D (config_get_double cfg sct option)
     | CFG_TYPE_STRING \<Rightarrow> map_option S (config_get_string cfg sct option)
     | CFG_TYPE_UINT \<Rightarrow> map_option U (config_get_uint cfg sct option))"

lemma typed_get_item:
  assumes "config_find_item cfg sct option = Some p" "ci_type (items cfg ! p) = ty" "fits ty (ci_val (items cfg ! p))"
  shows "typed_get cfg sct option ty = Some (ci_val (items cfg ! p))"
  using assms
  by (cases ty; cases "ci_val (items cfg ! p)")
    (auto simp: typed_get_def config_get_int_def config_get_double_def config_get_string_def config_get_uint_def Let_def)

text \<open>C23. Types. In every reachable configuration the accessor that fits the type of an option finds a value, globally
  and for every interface, and the value has that type: no accessor called with an option of its type ends the program.\<close>

theorem config_get_typed:
  assumes "config_reach lib mem c cfg" and "i < length (config_tab c)"
    and "\<forall>s. sct = Some s \<longrightarrow> plain s \<and> length s \<le> 108 \<and> ci_port (config_tab c ! i)"
  shows "\<exists>p. config_find_item cfg sct (ci_label (config_tab c ! i)) = Some p \<and>
    typed_get cfg sct (ci_label (config_tab c ! i)) (ci_type (config_tab c ! i)) = Some (ci_val (items cfg ! p))"
proof -
  have inv: "config_inv c cfg" using reach_inv [OF assms(1)] by blast
  have v: "valid_slot c sct i" using assms by (simp add: valid_slot_def)
  obtain p where "config_find_item cfg sct (tab_label c i) = Some p"
    "ci_type (items cfg ! p) = ci_type (config_tab c ! i)" "fits (ci_type (config_tab c ! i)) (ci_val (items cfg ! p))"
    using find_typed [OF inv v] by blast
  then show ?thesis using typed_get_item by blast
qed

lemma sample_option: "ci_label (config_tab c ! 2) = ''allowedLostResponses''" "ci_type (config_tab c ! 2) = CFG_TYPE_INT"
  "ci_port (config_tab c ! 2)" "ci_min (config_tab c ! 2) = I 1" "ci_max (config_tab c ! 2) = I 255" "ci_val (config_tab c ! 2) = I 3"
  by (simp_all add: config_tab_def CONFIG_ITEM_INT_def)

lemma sample_eth0: "plain ''eth0''"
  by (simp add: plain_def)

theorem config_get_typed_witness:
  "\<exists>cfg. config_create sample_values enough = Some cfg \<and> config_get_int cfg (Some ''eth0'') ''allowedLostResponses'' \<noteq> None"
proof -
  obtain cfg where cfg: "config_create sample_values enough = Some cfg" using sample_created by blast
  then have "config_reach sample_libs enough sample_values cfg" by (rule config_reach.created)
  then show ?thesis
    using config_get_typed [of sample_libs enough sample_values cfg 2 "Some ''eth0''"] cfg sample_eth0 sample_option
    by (auto simp: typed_get_def)
qed

section \<open>Ranges\<close>

definition value_ok :: "config_item \<Rightarrow> any_t \<Rightarrow> bool" where
  "value_ok t v \<longleftrightarrow> v = ci_val t \<or>
    (case (ci_type t, v) of
       (CFG_TYPE_INT, I x) \<Rightarrow> any_i (ci_min t) \<le> x \<and> x \<le> any_i (ci_max t)
     | (CFG_TYPE_UINT, U x) \<Rightarrow> any_u (ci_min t) \<le> x \<and> x \<le> any_u (ci_max t)
     | (CFG_TYPE_ENUM, I x) \<Rightarrow> x \<in> snd ` set (the (ci_tab t))
     | (CFG_TYPE_DOUBLE, D d) \<Rightarrow> d = NaN \<or> \<not> dbl_lt d (case ci_min t of D (Fin m) \<Rightarrow> m | _ \<Rightarrow> 0) \<and>
         \<not> dbl_gt d (case ci_max t of D (Fin m) \<Rightarrow> m | _ \<Rightarrow> 0)
     | (CFG_TYPE_STRING, S _) \<Rightarrow> True
     | _ \<Rightarrow> False)"

lemma ranged_values:
  "get_ranged_int s mn mx = Inr v \<Longrightarrow> mn \<le> v \<and> v \<le> mx" "get_ranged_uint s mn mx = Inr v \<Longrightarrow> mn \<le> v \<and> v \<le> mx"
  "get_ranged_double s a b = Inr d \<Longrightarrow> \<not> dbl_lt d a \<and> \<not> dbl_gt d b"
  by (auto simp: get_ranged_int_def get_ranged_uint_def get_ranged_double_def split: option.splits if_splits prod.splits)

lemma parse_value_ok:
  assumes "tab_item t" and "parse_value t s = Some (Inr v)"
  shows "value_ok t v"
proof (cases "ci_type t")
  case CFG_TYPE_DOUBLE
  then obtain mn mx where m: "ci_min t = D (Fin mn)" "ci_max t = D (Fin mx)"
    using assms(1) by (cases "ci_min t" rule: is_number.cases; cases "ci_max t" rule: is_number.cases) (auto simp: tab_item_def)
  then show ?thesis using CFG_TYPE_DOUBLE assms(2) ranged_values(3) [of s mn mx]
    by (cases "get_ranged_double s mn mx") (auto simp: parse_value_def value_ok_def)
next
  case CFG_TYPE_ENUM
  then show ?thesis using assms by (fastforce simp: parse_value_def value_ok_def tab_item_def image_iff split: option.splits dest!: find_Some)
next
  case CFG_TYPE_INT
  then show ?thesis using assms(2) ranged_values(1) [of s "any_i (ci_min t)" "any_i (ci_max t)"]
    by (cases "get_ranged_int s (any_i (ci_min t)) (any_i (ci_max t))") (auto simp: parse_value_def value_ok_def)
next
  case CFG_TYPE_UINT
  then show ?thesis using assms(2) ranged_values(2) [of s "any_u (ci_min t)" "any_u (ci_max t)"]
    by (cases "get_ranged_uint s (any_u (ci_min t)) (any_u (ci_max t))") (auto simp: parse_value_def value_ok_def)
qed (use assms in \<open>auto simp: parse_value_def value_ok_def\<close>)

lemma asap_ok: "list_all (\<lambda>t. (ci_label t = ''fault_badpeernet_interval'' \<longrightarrow> value_ok t (I 0)) \<and>
    (ci_label t = ''fault_reset_interval'' \<longrightarrow> value_ok t (I FRI_ASAP))) (config_tab c)"
  by (simp add: config_tab_def) (simp add: value_ok_def CONFIG_ITEM_INT_def)

lemma option_value_ok:
  assumes "i < 147" and "option_value c i s = Inr v"
  shows "value_ok (config_tab c ! i) v"
proof (cases "asap_value (tab_label c i) s")
  case None
  obtain x where "parse_value (config_tab c ! i) s = Some x" using parse_value_total [OF tab_nth [OF assms(1)]] by blast
  then show ?thesis using None assms parse_value_ok [OF tab_nth [OF assms(1)]] by (simp add: option_value_def)
next
  case (Some a)
  then have "tab_label c i = ''fault_badpeernet_interval'' \<and> v = I 0 \<or> tab_label c i = ''fault_reset_interval'' \<and> v = I FRI_ASAP"
    using assms(2) by (auto simp: option_value_def asap_value_def split: if_splits)
  then show ?thesis using asap_ok [of c] assms(1) by (auto simp: list_all_length)
qed

definition ranged :: "ext_values \<Rightarrow> config \<Rightarrow> bool" where
  "ranged c cfg \<longleftrightarrow> (\<forall>sct i ci. valid_slot c sct i \<longrightarrow> entry c cfg sct i = Some ci \<longrightarrow> value_ok (config_tab c ! i) (ci_val ci))"

lemma parse_effect_ranged:
  assumes "parse_effect c mem cl sct option value cfg r cfg'" and rg: "ranged c cfg"
  shows "ranged c cfg'"
  unfolding ranged_def
proof (intro allI impI)
  fix t j ci assume v: "valid_slot c t j" and e: "entry c cfg' t j = Some ci"
  have inv: "config_inv c cfg'" using assms(1) by (simp add: parse_effect_def)
  show "value_ok (config_tab c ! j) (ci_val ci)"
  proof (cases "entry c cfg' t j = entry c cfg t j")
    case True
    then show ?thesis using rg v e by (simp add: ranged_def)
  next
    case False
    then consider (ok) "option_value c j value = Inr (ci_val ci)" | (str) "ci_type (config_tab c ! j) = CFG_TYPE_STRING"
      using parse_effect_entry [OF assms(1) v] e by auto
    then show ?thesis
    proof cases
      case ok
      then show ?thesis using option_value_ok v by (simp add: valid_slot_def)
    next
      case str
      obtain p where "slot c cfg' t j = Some p" "items cfg' ! p = ci" using e by (auto simp: entry_def)
      then have "fits CFG_TYPE_STRING (ci_val ci)"
        using slot_item [OF inv v] config_invD(4) [OF inv, of p] str by force
      then show ?thesis using str by (cases "ci_val ci") (auto simp: value_ok_def)
    qed
  qed
qed

lemma unchanged_ranged: "unchanged c cfg cfg' \<Longrightarrow> ranged c cfg \<Longrightarrow> ranged c cfg'"
  by (simp add: unchanged_def ranged_def)

lemma steps_ranged: "(file_step c mem)\<^sup>*\<^sup>* cfg cfg' \<Longrightarrow> ranged c cfg \<Longrightarrow> ranged c cfg'"
  by (induction rule: rtranclp_induct) (auto simp: file_step_def dest: unchanged_ranged parse_effect_ranged)

lemma reach_ranged: "config_reach lib mem c cfg \<Longrightarrow> ranged c cfg"
proof (induction rule: config_reach.induct)
  case (created cfg)
  then obtain ht where cfg: "cfg = initial_config c ht" and inv: "config_inv c cfg" using create_inv by blast
  have "value_ok (config_tab c ! i) (ci_val ci)" if v: "valid_slot c sct i" and e: "entry c cfg sct i = Some ci" for sct i ci
  proof -
    obtain p where p: "slot c cfg sct i = Some p" "items cfg ! p = ci" using e by (auto simp: entry_def)
    have "p < 147" using slot_item [OF inv v p(1)] by (simp add: cfg initial_config_def)
    then have "tab_label c p = tab_label c i \<and> ci_val ci = ci_val (config_tab c ! p)"
      using slot_item [OF inv v p(1)] p(2) by (auto simp: cfg initial_config_def)
    then have "ci_val ci = ci_val (config_tab c ! i)" using tab_label_eq \<open>p < 147\<close> v by (simp add: valid_slot_def)
    then show ?thesis by (simp add: value_ok_def)
  qed
  then show ?case by (simp add: ranged_def)
next
  case (commandline cfg opt val r cfg')
  then show ?case using option_effect [of c cfg mem opt val] reach_inv [of lib mem c cfg] parse_effect_ranged by auto
next
  case (interface cfg name i cfg')
  have "config_inv c cfg" "ifs_ok cfg" using reach_inv [OF interface(1)] by blast+
  then have "unchanged c cfg cfg'"
    using create_interface [of cfg mem name i cfg'] same_store(2) [of c cfg cfg'] config_invD(9) [of c cfg] interface(2)
    by (auto simp: same_store_def)
  then show ?case using interface(3) unchanged_ranged by blast
next
  case (fileread cfg tx r cfg')
  then show ?case using read_effect [of c cfg tx mem lib] reach_inv [of lib mem c cfg] steps_ranged by auto
qed

text \<open>C22. Ranges. Whatever the command line and the files say, the value that is found for an option, globally or for an
  interface, is its default or within the range (or the list of values) of the table. A double may also be a NaN.\<close>

theorem config_values_ranged:
  assumes "config_reach lib mem c cfg" and "i < length (config_tab c)"
    and "\<forall>s. sct = Some s \<longrightarrow> plain s \<and> length s \<le> 108 \<and> ci_port (config_tab c ! i)"
    and "config_find_item cfg sct (ci_label (config_tab c ! i)) = Some p"
  shows "value_ok (config_tab c ! i) (ci_val (items cfg ! p))"
proof -
  have inv: "config_inv c cfg" using reach_inv [OF assms(1)] by blast
  have v: "valid_slot c sct i" "valid_slot c None i" using assms by (simp_all add: valid_slot_def)
  have "entry c cfg sct i = Some (items cfg ! p) \<or> entry c cfg None i = Some (items cfg ! p)"
    using find_slot [OF inv v(1) assms(4)] by (auto simp: entry_def)
  then show ?thesis using reach_ranged [OF assms(1)] v unfolding ranged_def by blast
qed

theorem config_values_ranged_witness:
  "\<exists>cfg p. config_create sample_values enough = Some cfg \<and>
     config_find_item cfg (Some ''eth0'') ''allowedLostResponses'' = Some p \<and> value_ok (config_tab sample_values ! 2) (ci_val (items cfg ! p))"
proof -
  obtain cfg where cfg: "config_create sample_values enough = Some cfg" using sample_created by blast
  have r: "config_reach sample_libs enough sample_values cfg" using cfg by (rule config_reach.created)
  have inv: "config_inv sample_values cfg" using reach_inv [OF r] by blast
  have v: "valid_slot sample_values (Some ''eth0'') 2" using sample_eth0 sample_option by (simp add: valid_slot_def)
  obtain p where p: "config_find_item cfg (Some ''eth0'') (tab_label sample_values 2) = Some p" using find_typed [OF inv v] by blast
  show ?thesis
    using config_values_ranged [OF r, of 2 "Some ''eth0''" p] p cfg sample_eth0 sample_option by auto
qed

section \<open>Precedence\<close>

definition fault_option :: "string \<Rightarrow> bool" where
  "fault_option option \<longleftrightarrow> option = ''fault_badpeernet_interval'' \<or> option = ''fault_reset_interval''"

lemma steps_keep_locked:
  assumes "(file_step c mem)\<^sup>*\<^sup>* cfg cfg'" and "i < 147" and "ci_locked (items cfg ! i)" and "\<not> fault_option (tab_label c i)"
  shows "items cfg' ! i = items cfg ! i"
  using assms(1)
proof (induction rule: rtranclp_induct)
  case (step a b)
  have v: "valid_slot c None i" using assms(2) by (simp add: valid_slot_def)
  have "asap_value (tab_label c i) value = None" for "value"
    using assms(4) by (auto simp: asap_value_def fault_option_def)
  moreover have "ci_locked (items a ! i)" using step.IH assms(3) by simp
  ultimately have "entry c b None i = entry c a None i"
    using step.hyps(2) parse_effect_entry [OF _ v] v unfolding file_step_def unchanged_def by metis
  then show ?case using step.IH by (simp add: entry_def slot_def)
qed simp

text \<open>C24. The command line wins: once an option has been set on the command line, no configuration file changes
  its global value. The two fault intervals are exempt: see the next theorem.\<close>

theorem commandline_wins:
  assumes "config_reach lib mem c cfg" and "config_parse_option mem cfg opt val = Some (0, cfg1)" and "plain_text tx"
    and "config_read lib mem (Some tx) cfg1 = Some (r, cfg2)" and "\<not> fault_option (check_deprecated_options opt)"
  shows "\<exists>i < length (config_tab c). ci_label (config_tab c ! i) = check_deprecated_options opt \<and>
    option_value c i val = Inr (ci_val (items cfg2 ! i)) \<and> config_find_item cfg2 None (check_deprecated_options opt) = Some i"
proof -
  let ?o = "check_deprecated_options opt"
  have inv: "config_inv c cfg" "ifs_ok cfg" using reach_inv [OF assms(1)] by blast+
  have r1: "config_reach lib mem c cfg1" using assms(1,2) by (rule config_reach.commandline)
  have inv1: "config_inv c cfg1" "ifs_ok cfg1" using reach_inv [OF r1] by blast+
  have "parse_effect c mem True None ?o val cfg PARSED_OK cfg1"
    using option_effect [OF inv(1), of mem opt val] assms(2) by (auto split: if_splits)
  then obtain i ci where i: "valid_slot c None i" "tab_label c i = ?o" "option_value c i val = Inr (ci_val ci)"
      "entry c cfg1 None i = Some ci" "ci_locked ci"
    unfolding parse_effect_def by auto
  have "(file_step c mem)\<^sup>*\<^sup>* cfg1 cfg2" "config_inv c cfg2" using read_effect [OF inv1 assms(3), of mem lib] assms(4) by auto
  moreover have "i < 147" "items cfg1 ! i = ci" using i by (auto simp: valid_slot_def entry_def slot_def)
  ultimately have "items cfg2 ! i = ci" "config_find_item cfg2 None ?o = Some i"
    using steps_keep_locked [of c mem cfg1 cfg2 i] i assms(5) global_item_iff [of c cfg2 ?o i] by (auto simp: config_find_item_def)
  then show ?thesis using i \<open>i < 147\<close> by auto
qed

lemma sample_parsed: "option_value c 2 ''7'' = Inr (I 7)"
proof -
  have "asap_value ''allowedLostResponses'' ''7'' = None" by (simp add: asap_value_def)
  moreover have "get_ranged_int ''7'' 1 255 = Inr 7" by code_simp
  ultimately show ?thesis by (simp add: option_value_def sample_option parse_value_def)
qed

text \<open>An option whose text has a value is accepted when memory lasts.\<close>

lemma option_accepted:
  assumes "config_inv c cfg" and "i < 147" and "option_value c i val = Inr v" and "check_deprecated_options opt = tab_label c i"
    and "\<And>n. mem n"
  shows "\<exists>cfg'. config_parse_option mem cfg opt val = Some (0, cfg')"
proof -
  let ?p = "parse_item mem cfg True None (tab_label c i) val"
  have e: "case ?p of None \<Rightarrow> \<exists>n. \<not> mem n | Some (r, cfg') \<Rightarrow> parse_effect c mem True None (tab_label c i) val cfg r cfg'"
    by (rule parse_item_effect [OF assms(1)]) simp
  have g: "config_global_item cfg (tab_label c i) = Some i" using global_item_iff [OF assms(1)] assms(2) by simp
  obtain r cfg' where p: "?p = Some (r, cfg')" using e assms(5) by (cases ?p) auto
  have "r = PARSED_OK"
  proof (cases "asap_value (tab_label c i) val")
    case None
    obtain x where "parse_value (config_tab c ! i) val = Some x" using parse_value_total [OF tab_nth [OF assms(2)]] by blast
    then have "parse_value (items cfg ! i) val = Some (Inr v)"
      using assms(3) None parse_value_same [OF config_invD(6) [OF assms(1,2)], of val] by (simp add: option_value_def)
    then have "update_item mem True val cfg i v = Some (r, cfg')" using p parse_item_unfold [OF None] g by simp
    then show ?thesis using assms(5)
      by (auto simp: update_item_def store_value_def alloc_def Let_def split: option.splits config_type.splits any_t.splits if_splits)
  next
    case (Some a)
    then show ?thesis using p by (auto simp: parse_item_def parse_fault_cases split: prod.splits if_splits)
  qed
  then show ?thesis using p assms(4) by (simp add: config_parse_option_def)
qed

theorem commandline_wins_witness:
  "\<exists>cfg cfg1 r cfg2. config_create sample_values enough = Some cfg \<and>
     config_parse_option enough cfg ''allowedLostResponses'' ''7'' = Some (0, cfg1) \<and>
     config_read sample_libs enough (Some sample_file) cfg1 = Some (r, cfg2) \<and>
     config_get_int cfg2 None ''allowedLostResponses'' = Some 7"
proof -
  obtain cfg where cfg: "config_create sample_values enough = Some cfg" using sample_created by blast
  have r: "config_reach sample_libs enough sample_values cfg" using cfg by (rule config_reach.created)
  have inv: "config_inv sample_values cfg" using reach_inv [OF r] by blast
  have dep: "check_deprecated_options ''allowedLostResponses'' = ''allowedLostResponses''" by (simp add: check_deprecated_options_def)
  obtain cfg1 where c1: "config_parse_option enough cfg ''allowedLostResponses'' ''7'' = Some (0, cfg1)"
    using option_accepted [OF inv _ sample_parsed, of "''allowedLostResponses''" enough] dep sample_option by auto
  have r1: "config_reach sample_libs enough sample_values cfg1" using r c1 by (rule config_reach.commandline)
  then have "config_inv sample_values cfg1" "ifs_ok cfg1" using reach_inv by blast+
  note e = read_effect [OF this sample_plain, of enough sample_libs]
  then obtain q cfg2 where c2: "config_read sample_libs enough (Some sample_file) cfg1 = Some (q, cfg2)"
    by (cases "config_read sample_libs enough (Some sample_file) cfg1") auto
  then have "config_inv sample_values cfg2" using e by simp
  obtain i where i: "i < 147" "tab_label sample_values i = ''allowedLostResponses''" "option_value sample_values i ''7'' = Inr (ci_val (items cfg2 ! i))"
      "config_find_item cfg2 None ''allowedLostResponses'' = Some i"
    using commandline_wins [OF r c1 sample_plain c2] dep by (auto simp: fault_option_def)
  then have "i = 2" using tab_label_eq [of i 2 sample_values] sample_option by simp
  then have "ci_val (items cfg2 ! 2) = I 7" "ci_type (items cfg2 ! 2) = CFG_TYPE_INT"
    using i sample_parsed config_invD(6) [OF \<open>config_inv sample_values cfg2\<close>, of 2] sample_option by (auto simp: same_item_def)
  then show ?thesis using cfg c1 c2 i(4) \<open>i = 2\<close> by (auto simp: config_get_int_def)
qed

section \<open>Options as a map\<close>

text \<open>The abstract configuration: a map from slots to values, where a section falls back on the global value.\<close>

definition config_abs :: "ext_values \<Rightarrow> config \<Rightarrow> string option \<times> nat \<Rightarrow> any_t option" where
  "config_abs c cfg = (\<lambda>(sct, i). if valid_slot c sct i then map_option ci_val (entry c cfg sct i) else None)"

definition abs_find :: "(string option \<times> nat \<Rightarrow> any_t option) \<Rightarrow> string option \<Rightarrow> nat \<Rightarrow> any_t option" where
  "abs_find m sct i = (case m (sct, i) of Some v \<Rightarrow> Some v | None \<Rightarrow> m (None, i))"

lemma abs_unchanged: "unchanged c cfg cfg' \<Longrightarrow> config_abs c cfg' = config_abs c cfg"
  by (auto simp: config_abs_def unchanged_def fun_eq_iff)

lemma abs_update:
  assumes "valid_slot c sct i" "others_kept c sct i cfg cfg'" "entry c cfg' sct i = Some ci"
  shows "config_abs c cfg' = (config_abs c cfg)((sct, i) \<mapsto> ci_val ci)"
  using assms by (auto simp: config_abs_def others_kept_def fun_eq_iff)

lemma typed_get_abs:
  assumes inv: "config_inv c cfg" and v: "valid_slot c sct i"
  shows "typed_get cfg sct (tab_label c i) (ci_type (config_tab c ! i)) = abs_find (config_abs c cfg) sct i"
proof -
  obtain p where p: "config_find_item cfg sct (tab_label c i) = Some p" "ci_type (items cfg ! p) = ci_type (config_tab c ! i)"
      "fits (ci_type (config_tab c ! i)) (ci_val (items cfg ! p))" using find_typed [OF assms] by blast
  have v0: "valid_slot c None i" using v by (simp add: valid_slot_def)
  have "abs_find (config_abs c cfg) sct i = Some (ci_val (items cfg ! p))"
    using find_slot [OF inv v p(1)] v v0 by (auto simp: abs_find_def config_abs_def entry_def)
  then show ?thesis using typed_get_item [OF p] by simp
qed

text \<open>C21. Refinement. The hash table of items implements a map: an accepted option updates the map at its own
  section and option and nowhere else, unless a file sets what the command line has locked; a rejected one changes nothing
  (memory permitting); and every accessor reads the map, with the fallback from a section to the global value.\<close>

theorem parse_item_refines:
  assumes "config_reach lib mem c cfg" and "\<forall>s. sct = Some s \<longrightarrow> plain s \<and> length s \<le> 108"
    and "parse_item mem cfg cl sct option value = Some (r, cfg')" and "\<forall>n. mem n"
  shows "(if r = PARSED_OK
      then (\<exists>i < length (config_tab c). ci_label (config_tab c ! i) = option \<and>
        ((\<exists>v. option_value c i value = Inr v \<and> config_abs c cfg' = (config_abs c cfg)((sct, i) \<mapsto> v)) \<or>
         sct = None \<and> \<not> cl \<and> ci_locked (items cfg ! i) \<and> config_abs c cfg' = config_abs c cfg))
      else config_abs c cfg' = config_abs c cfg) \<and>
    (\<forall>t j. valid_slot c t j \<longrightarrow>
      typed_get cfg' t (ci_label (config_tab c ! j)) (ci_type (config_tab c ! j)) = abs_find (config_abs c cfg') t j)"
proof -
  have inv: "config_inv c cfg" using reach_inv [OF assms(1)] by blast
  have "case parse_item mem cfg cl sct option value of None \<Rightarrow> \<exists>n. \<not> mem n
      | Some (r, cfg') \<Rightarrow> parse_effect c mem cl sct option value cfg r cfg'"
    by (rule parse_item_effect [OF inv]) (use assms(2) in blast)
  then have e: "parse_effect c mem cl sct option value cfg r cfg'" using assms(3) by simp
  then consider (kept) "unchanged c cfg cfg'"
      "r = PARSED_OK \<longrightarrow> sct = None \<and> \<not> cl \<and> (\<exists>i < 147. tab_label c i = option \<and> ci_locked (items cfg ! i))"
    | (set) i ci where "valid_slot c sct i" "tab_label c i = option" "others_kept c sct i cfg cfg'" "r = PARSED_OK"
        "option_value c i value = Inr (ci_val ci)" "entry c cfg' sct i = Some ci"
    unfolding parse_effect_def using assms(4) by blast
  then show ?thesis
  proof cases
    case kept
    then show ?thesis using abs_unchanged [OF kept(1)] typed_get_abs [OF parse_effect_inv [OF e]] by auto
  next
    case set
    then have "i < 147" by (simp add: valid_slot_def)
    then show ?thesis using set abs_update [OF set(1,3,6)] typed_get_abs [OF parse_effect_inv [OF e]] by auto
  qed
qed

lemma sample_section_parsed:
  assumes "config_create sample_values enough = Some cfg"
  obtains cfg' where "parse_item enough cfg False (Some ''eth0'') ''allowedLostResponses'' ''7'' = Some (PARSED_OK, cfg')"
proof -
  have inv: "config_inv sample_values cfg" using create_inv assms by blast
  have n: "asap_value ''allowedLostResponses'' ''7'' = None" by (simp add: asap_value_def)
  have it: "same_item (items cfg ! 2) (config_tab sample_values ! 2)" using config_invD(6) [OF inv] by simp
  have pv: "parse_value (items cfg ! 2) ''7'' = Some (Inr (I 7))"
  proof -
    have "get_ranged_int ''7'' 1 255 = Inr 7" by code_simp
    then show ?thesis unfolding parse_value_same [OF it] by (simp add: parse_value_def sample_option)
  qed
  have g: "config_global_item cfg ''allowedLostResponses'' = Some 2" using global_item_iff [OF inv] sample_option by simp
  have v: "valid_slot sample_values (Some ''eth0'') 2" using sample_eth0 sample_option by (simp add: valid_slot_def)
  obtain q cfg1 where d: "section_dst enough cfg ''eth0'' (tab_label sample_values 2) (ci_type (config_tab sample_values ! 2)) = (q, cfg1)"
    by fastforce
  note dst = section_dst [OF inv v d]
  then obtain p where q: "q = Some p" by auto
  then have "ci_type (items cfg1 ! p) = CFG_TYPE_INT" using slot_item [OF dst(1) v] dst(3) sample_option by simp
  then have "\<exists>cfg'. update_item enough False ''7'' cfg1 p (I 7) = Some (PARSED_OK, cfg')" by (simp add: update_item_def store_value_def)
  moreover have "parse_item enough cfg False (Some ''eth0'') ''allowedLostResponses'' ''7'' = update_item enough False ''7'' cfg1 p (I 7)"
    using d q it unfolding parse_item_unfold [OF n] g option.case pv by (simp add: same_item_def sample_option)
  ultimately show ?thesis using that by auto
qed

theorem parse_item_refines_witness:
  "\<exists>cfg cfg'. config_create sample_values enough = Some cfg \<and>
     parse_item enough cfg False (Some ''eth0'') ''allowedLostResponses'' ''7'' = Some (PARSED_OK, cfg') \<and>
     config_abs sample_values cfg' = (config_abs sample_values cfg)((Some ''eth0'', 2) \<mapsto> I 7) \<and>
     typed_get cfg' (Some ''eth0'') ''allowedLostResponses'' CFG_TYPE_INT = abs_find (config_abs sample_values cfg') (Some ''eth0'') 2"
proof -
  obtain cfg where cfg: "config_create sample_values enough = Some cfg" using sample_created by blast
  have r: "config_reach sample_libs enough sample_values cfg" using cfg by (rule config_reach.created)
  obtain cfg' where c': "parse_item enough cfg False (Some ''eth0'') ''allowedLostResponses'' ''7'' = Some (PARSED_OK, cfg')"
    using sample_section_parsed [OF cfg] .
  have v: "valid_slot sample_values (Some ''eth0'') 2" using sample_eth0 sample_option by (simp add: valid_slot_def)
  note t = parse_item_refines [OF r _ c']
  obtain i v where i: "i < 147" "tab_label sample_values i = ''allowedLostResponses''" "option_value sample_values i ''7'' = Inr v"
      "config_abs sample_values cfg' = (config_abs sample_values cfg)((Some ''eth0'', i) \<mapsto> v)"
    using t sample_eth0 by auto
  then have "i = 2" using tab_label_eq [of i 2 sample_values] sample_option by simp
  then have "v = I 7" using i(3) sample_parsed by simp
  moreover have "typed_get cfg' (Some ''eth0'') ''allowedLostResponses'' CFG_TYPE_INT =
      abs_find (config_abs sample_values cfg') (Some ''eth0'') 2"
    using t v sample_eth0 sample_option [of sample_values] by force
  ultimately show ?thesis using cfg c' i(4) \<open>i = 2\<close> by blast
qed

end
