(* ===== verification/Config_Faults.thy ===== *)
theory Config_Faults
  imports Config_Spec
begin

text \<open>
  One-step harmonization, and where the configuration code departs from its intentions: the word \<open>ASAP\<close> ignores the lock of
  the command line, NaN passes every range check, and a port section named \<open>global.x\<close> lets a later line crash the parser.
\<close>

section \<open>One-step operation\<close>

lemma step_options: "list_ex (\<lambda>ci. ci_label ci = ''time_stamping'' \<and> ci_type ci = CFG_TYPE_ENUM \<and>
    snd ` set (the (ci_tab ci)) = {0, 1, 2, 3, 4} \<and> ci_val ci = I 1) (config_tab c)"
  "list_ex (\<lambda>ci. ci_label ci = ''twoStepFlag'' \<and> ci_type ci = CFG_TYPE_INT) (config_tab c)"
  by (auto simp: config_tab_def CONFIG_ITEM_INT_def CONFIG_ITEM_ENUM_def config_item_def timestamping_enu_def)

lemma get_int_entry:
  assumes "config_inv c cfg" and "i < 147" and "ci_type (config_tab c ! i) \<in> {CFG_TYPE_INT, CFG_TYPE_ENUM}"
  obtains v where "config_get_int cfg None (tab_label c i) = Some v" "entry c cfg None i = Some (items cfg ! i)" "ci_val (items cfg ! i) = I v"
proof -
  have g: "config_global_item cfg (tab_label c i) = Some i" using global_item_iff [OF assms(1)] assms(2) by simp
  have t: "ci_type (items cfg ! i) = ci_type (config_tab c ! i)" using config_invD(6) [OF assms(1,2)] by (simp add: same_item_def)
  have "fits (ci_type (items cfg ! i)) (ci_val (items cfg ! i))" using config_invD(2,4) [OF assms(1)] assms(2) by simp
  then obtain v where "ci_val (items cfg ! i) = I v" using t assms(3) by (cases "ci_val (items cfg ! i)") auto
  then show ?thesis using that [of v] g t assms(3) by (auto simp: config_get_int_def config_find_item_def entry_def slot_def)
qed

lemma set_int_entry:
  assumes inv: "config_inv c cfg" and i: "i < 147" and ty: "ci_type (config_tab c ! i) \<in> {CFG_TYPE_INT, CFG_TYPE_ENUM}"
    and j: "j < 147" "j \<noteq> i" "ci_type (config_tab c ! j) \<in> {CFG_TYPE_INT, CFG_TYPE_ENUM}"
  obtains cfg' where "config_set_int mem cfg (tab_label c i) v = (0, cfg')" "config_inv c cfg'"
    "config_get_int cfg' None (tab_label c i) = Some v" "config_get_int cfg' None (tab_label c j) = config_get_int cfg None (tab_label c j)"
proof -
  have vs: "valid_slot c None i" "valid_slot c None j" using i j by (simp_all add: valid_slot_def)
  have g: "config_global_item cfg (tab_label c i) = Some i" using global_item_iff [OF inv] i by simp
  have "ci_type (items cfg ! i) = ci_type (config_tab c ! i)" using config_invD(6) [OF inv i] by (simp add: same_item_def)
  then obtain cfg' where s: "config_set_int mem cfg (tab_label c i) v = (0, cfg')"
    using g ty by (auto simp: config_set_int_def config_set_section_int_def config_find_item_def)
  note e = set_section_int [OF inv vs(1) ty s [unfolded config_set_int_def]]
  have "config_get_int cfg' None (tab_label c i) = Some v"
    using e(3) get_int_entry [OF e(1) i ty] by fastforce
  moreover have "entry c cfg' None j = entry c cfg None j" using e(2) vs(2) j(2) unfolding others_kept_def by blast
  then have "items cfg' ! j = items cfg ! j" by (simp add: entry_def slot_def)
  then have "config_get_int cfg' None (tab_label c j) = config_get_int cfg None (tab_label c j)"
    using get_int_entry [OF e(1) j(1,3)] get_int_entry [OF inv j(1,3)] by (metis any_t.inject(1))
  ultimately show ?thesis using that s e(1) by blast
qed

text \<open>\<open>config_harmonize_onestep\<close> fails exactly for one-step operation with software or legacy time stamps; otherwise the
  time stamping mode is a one-step mode afterwards exactly when the two-step flag is off, and two-step hardware time
  stamping is upgraded rather than refused.\<close>

theorem harmonize_onestep_consistent:
  assumes "config_reach lib mem c cfg"
  shows "\<exists>r cfg' ts two ts' two'. config_harmonize_onestep mem cfg = Some (r, cfg') \<and>
    config_get_int cfg None ''time_stamping'' = Some ts \<and> config_get_int cfg None ''twoStepFlag'' = Some two \<and>
    config_get_int cfg' None ''time_stamping'' = Some ts' \<and> config_get_int cfg' None ''twoStepFlag'' = Some two' \<and>
    (if ts \<in> {0, 2} \<and> two = 0 then r = - 1 \<and> cfg' = cfg
     else r = 0 \<and> (two' = 0 \<longleftrightarrow> ts' \<in> {3, 4}) \<and> ts' = (if ts = 1 \<and> two = 0 then 3 else ts))"
proof -
  have inv: "config_inv c cfg" using reach_inv [OF assms] by blast
  obtain i where i: "i < 147" "tab_label c i = ''time_stamping''" "ci_type (config_tab c ! i) = CFG_TYPE_ENUM"
      "snd ` set (the (ci_tab (config_tab c ! i))) = {0, 1, 2, 3, 4}" "ci_val (config_tab c ! i) = I 1"
    using step_options(1) [of c] by (auto simp: list_ex_length)
  obtain j where j: "j < 147" "tab_label c j = ''twoStepFlag''" "ci_type (config_tab c ! j) = CFG_TYPE_INT"
    using step_options(2) [of c] by (auto simp: list_ex_length)
  have ty: "ci_type (config_tab c ! i) \<in> {CFG_TYPE_INT, CFG_TYPE_ENUM}" "ci_type (config_tab c ! j) \<in> {CFG_TYPE_INT, CFG_TYPE_ENUM}"
    and ne: "j \<noteq> i" "i \<noteq> j" using i j by auto
  obtain ts where ts: "config_get_int cfg None ''time_stamping'' = Some ts" "entry c cfg None i = Some (items cfg ! i)" "ci_val (items cfg ! i) = I ts"
    using get_int_entry [OF inv i(1) ty(1)] i(2) by metis
  obtain two where two: "config_get_int cfg None ''twoStepFlag'' = Some two"
    using get_int_entry [OF inv j(1) ty(2)] j(2) by metis
  have "value_ok (config_tab c ! i) (I ts)"
    using reach_ranged [OF assms] ts(2,3) i(1) unfolding ranged_def valid_slot_def by (metis option.distinct(1))
  then have dom: "ts \<in> {0, 1, 2, 3, 4}" using i by (auto simp: value_ok_def)
  consider (err) "ts \<in> {0, 2}" "two = 0" | (up) "ts = 1" "two = 0" | (clear) "ts \<in> {3, 4}" "two \<noteq> 0"
    | (same) "ts \<in> {0, 1, 2} \<and> two \<noteq> 0 \<or> ts \<in> {3, 4} \<and> two = 0" using dom by auto
  then show ?thesis
  proof cases
    case up
    obtain cfg' where s: "config_set_int mem cfg ''time_stamping'' 3 = (0, cfg')" "config_get_int cfg' None ''time_stamping'' = Some 3"
        "config_get_int cfg' None ''twoStepFlag'' = config_get_int cfg None ''twoStepFlag''"
      using set_int_entry [OF inv i(1) ty(1) j(1) ne(1) ty(2), of mem 3] i(2) j(2) by metis
    then show ?thesis using up ts two by (auto simp: config_harmonize_onestep_def)
  next
    case clear
    obtain cfg' where s: "config_set_int mem cfg ''twoStepFlag'' 0 = (0, cfg')" "config_get_int cfg' None ''twoStepFlag'' = Some 0"
        "config_get_int cfg' None ''time_stamping'' = config_get_int cfg None ''time_stamping''"
      using set_int_entry [OF inv j(1) ty(2) i(1) ne(2) ty(1), of mem 0] i(2) j(2) by metis
    then show ?thesis using clear ts two by (auto simp: config_harmonize_onestep_def)
  qed (use ts two in \<open>auto simp: config_harmonize_onestep_def\<close>)
qed

theorem harmonize_onestep_consistent_witness:
  "\<exists>cfg r cfg'. config_create sample_values enough = Some cfg \<and> config_harmonize_onestep enough cfg = Some (r, cfg')"
proof -
  obtain cfg where cfg: "config_create sample_values enough = Some cfg" using sample_created by blast
  then have "config_reach sample_libs enough sample_values cfg" by (rule config_reach.created)
  then show ?thesis using harmonize_onestep_consistent [of sample_libs enough sample_values cfg] cfg by blast
qed

section \<open>Departures\<close>

text \<open>A configuration file overrides the command line where it says \<open>ASAP\<close> for a fault interval: after
  \<open>fault_reset_interval\<close> has been set, and so locked, on the command line, the line \<open>fault_reset_interval ASAP\<close> of a file still
  replaces its value.\<close>

theorem asap_overrides_commandline:
  assumes "config_reach lib mem c cfg" and "config_parse_option mem cfg ''fault_reset_interval'' val = Some (0, cfg1)"
  shows "\<exists>cfg2. parse_item mem cfg1 False None ''fault_reset_interval'' ''ASAP'' = Some (PARSED_OK, cfg2) \<and>
    config_get_int cfg2 None ''fault_reset_interval'' = Some FRI_ASAP"
proof -
  have inv: "config_inv c cfg1" using reach_inv config_reach.commandline [OF assms] by blast
  have a: "asap_value ''fault_reset_interval'' ''ASAP'' = Some FRI_ASAP" by (simp add: asap_value_def strcaseeq_def)
  obtain i where i: "i < 147" "tab_label c i = ''fault_reset_interval''" "ci_type (config_tab c ! i) = CFG_TYPE_INT"
    using asap_option [OF a] by blast
  have g: "config_global_item cfg1 (tab_label c i) = Some i" using global_item_iff [OF inv] i(1) by simp
  have t: "ci_type (items cfg1 ! i) = CFG_TYPE_INT" using config_invD(6) [OF inv i(1)] i(3) by (simp add: same_item_def)
  obtain cfg2 where s: "config_set_section_int mem cfg1 None (tab_label c i) FRI_ASAP = (0, cfg2)"
    using g t by (auto simp: config_set_section_int_def config_find_item_def)
  have v: "valid_slot c None i" using i(1) by (simp add: valid_slot_def)
  note e = set_section_int [OF inv v _ s]
  have "config_get_int cfg2 None (tab_label c i) = Some FRI_ASAP"
    using e(3) e(1) get_int_entry [of c cfg2 i] i(1,3) by fastforce
  then show ?thesis using s a i(2) by (simp add: parse_item_def parse_fault_cases)
qed

lemma fault_reset_parsed: "option_value c 32 ''7'' = Inr (I 7)" "tab_label c 32 = ''fault_reset_interval''"
proof -
  show l: "tab_label c 32 = ''fault_reset_interval''" by (simp add: config_tab_def)
  have "get_ranged_int ''7'' (- 128) 127 = Inr 7" by code_simp
  then show "option_value c 32 ''7'' = Inr (I 7)"
    by (simp add: option_value_def l asap_value_def strcaseeq_def)
      (simp add: config_tab_def parse_value_def CONFIG_ITEM_INT_def config_item_def)
qed

theorem asap_overrides_commandline_witness:
  "\<exists>cfg cfg1 cfg2. config_create sample_values enough = Some cfg \<and>
     config_parse_option enough cfg ''fault_reset_interval'' ''7'' = Some (0, cfg1) \<and>
     parse_item enough cfg1 False None ''fault_reset_interval'' ''ASAP'' = Some (PARSED_OK, cfg2) \<and>
     config_get_int cfg2 None ''fault_reset_interval'' = Some FRI_ASAP"
proof -
  obtain cfg where cfg: "config_create sample_values enough = Some cfg" using sample_created by blast
  have r: "config_reach sample_libs enough sample_values cfg" using cfg by (rule config_reach.created)
  obtain cfg1 where c1: "config_parse_option enough cfg ''fault_reset_interval'' ''7'' = Some (0, cfg1)"
    using option_accepted [of sample_values cfg 32 "''7''" "I 7" "''fault_reset_interval''" enough] reach_inv [OF r] fault_reset_parsed
    by (auto simp: check_deprecated_options_def)
  show ?thesis using asap_overrides_commandline [OF r c1] cfg c1 by blast
qed

text \<open>The range of an option with a fractional value does not keep out NaN: the text \<open>nan\<close> is a valid value for every
  such option, because both comparisons of \<open>get_ranged_double\<close> are false.\<close>

theorem nan_passes_ranges:
  assumes i: "i < length (config_tab c)" "ci_type (config_tab c ! i) = CFG_TYPE_DOUBLE"
  shows "option_value c i ''nan'' = Inr (D NaN)"
proof -
  obtain mn mx where m: "ci_min (config_tab c ! i) = D (Fin mn)" "ci_max (config_tab c ! i) = D (Fin mx)"
    using i tab_nth [of i c] by (cases "ci_min (config_tab c ! i)" rule: is_number.cases; cases "ci_max (config_tab c ! i)" rule: is_number.cases)
      (auto simp: tab_item_def)
  have s: "scan_double ''nan'' = Some (NaN, False, [])" by code_simp
  have "get_ranged_double ''nan'' mn mx = Inr NaN" unfolding get_ranged_double_def s by (simp add: dbl_lt_def dbl_gt_def)
  moreover have "asap_value (tab_label c i) ''nan'' = None" by (simp add: asap_value_def strcaseeq_def tolower_def)
  ultimately show ?thesis using i(2) m by (simp add: option_value_def parse_value_def)
qed

theorem nan_passes_ranges_witness:
  "ci_label (config_tab sample_values ! 33) = ''first_step_threshold'' \<and> option_value sample_values 33 ''nan'' = Inr (D NaN)"
proof -
  have "ci_label (config_tab sample_values ! 33) = ''first_step_threshold''" "ci_type (config_tab sample_values ! 33) = CFG_TYPE_DOUBLE"
    by (simp_all add: config_tab_def CONFIG_ITEM_DBL_def config_item_def)
  then show ?thesis using nan_passes_ranges [of 33 sample_values] by simp
qed

lemma delay_mechanism_option: "tab_label c 25 = ''delay_mechanism''" "ci_type (config_tab c ! 25) = CFG_TYPE_ENUM"
  "ci_port (config_tab c ! 25)" "ci_tab (config_tab c ! 25) = Some delay_mech_enu"
  by (simp_all add: config_tab_def CONFIG_ITEM_ENUM_def)

lemma no_such_label: "tab_label c p = ''x.delay_mechanism'' \<Longrightarrow> \<not> p < 147"
proof
  assume l: "tab_label c p = ''x.delay_mechanism''" and p: "p < 147"
  have "(''x'' @ ''.'' @ ''delay_mechanism'', ci_port (config_tab c ! p)) \<in> set config_labels" using label_in [OF p, of c] l by simp
  then have "(''delay_mechanism'', True) \<notin> set config_labels" by (rule labels_no_port_suffix)
  then show False using label_in [of 25 c] delay_mechanism_option [of c] by simp
qed

text \<open>A port section named \<open>global.x\<close> can crash the parser: its item for an enumerated option has the key of the global option
  \<open>x.delay_mechanism\<close>, which does not exist; a later line for that option takes the item for a global one and follows its null
  table of values.\<close>

theorem global_section_crashes:
  "\<exists>cfg cfg1. config_create sample_values enough = Some cfg \<and>
     parse_item enough cfg False (Some ''global.x'') ''delay_mechanism'' ''E2E'' = Some (PARSED_OK, cfg1) \<and>
     parse_item enough cfg1 False None ''x.delay_mechanism'' ''E2E'' = None"
proof -
  obtain cfg where cfg: "config_create sample_values enough = Some cfg" using sample_created by blast
  then obtain t where inv: "config_inv sample_values cfg" and c0: "cfg = initial_config sample_values t" using create_inv by blast
  have n147: "length (items cfg) = 147" by (simp add: c0 initial_config_def)
  let ?k = "config_key ''global'' ''x.delay_mechanism''"
  have k: "config_key ''global.x'' ''delay_mechanism'' = ?k" by (simp add: config_key_def)
  have kl: "length ?k < 172" by (simp add: config_key_def)
  have none: "hash_lookup (htab cfg) ?k = None"
    using config_invD(3) [OF inv, of ?k] key_of_global [of sample_values cfg "''x.delay_mechanism''"] no_such_label
    by (cases "hash_lookup (htab cfg) ?k") auto
  have asap: "asap_value ''delay_mechanism'' ''E2E'' = None" "asap_value ''x.delay_mechanism'' ''E2E'' = None"
    by (simp_all add: asap_value_def)
  have it: "same_item (items cfg ! 25) (config_tab sample_values ! 25)" using config_invD(6) [OF inv] by simp
  have g: "config_global_item cfg ''delay_mechanism'' = Some 25"
    using global_item_iff [OF inv, of "''delay_mechanism''" 25] delay_mechanism_option by simp
  have pv: "parse_value (items cfg ! 25) ''E2E'' = Some (Inr (I 1))"
    unfolding parse_value_same [OF it] by (simp add: parse_value_def delay_mechanism_option delay_mech_enu_def strcaseeq_def tolower_def)
  let ?ci = "config_item ''delay_mechanism'' CFG_TYPE_ENUM"
  define ht where "ht = snd (hash_insert True True (htab cfg) ?k 147)"
  have hi: "fst (hash_insert True True (htab cfg) ?k 147) = 0" using ht.insert_iff [OF config_invD(1) [OF inv]] none by blast
  then have hl: "hash_lookup ht ?k = Some 147" using hash_insert_result(1) [OF config_invD(1) [OF inv]] by (simp add: ht_def)
  define cfg1 where "cfg1 = cfg\<lparr>htab := ht, items := items cfg @ [?ci\<lparr>ci_val := I 1\<rparr>], allocs := Suc (Suc (Suc (allocs cfg)))\<rparr>"
  have "section_dst enough cfg ''global.x'' ''delay_mechanism'' CFG_TYPE_ENUM =
      (Some 147, cfg\<lparr>htab := ht, items := items cfg @ [?ci], allocs := Suc (Suc (Suc (allocs cfg)))\<rparr>)"
    using none kl hi k n147 by (simp add: section_dst_def config_section_item_def config_item_alloc_def alloc_def config_insert_def
        stored_def case_prod_beta Let_def ht_def)
  then have p1: "parse_item enough cfg False (Some ''global.x'') ''delay_mechanism'' ''E2E'' = Some (PARSED_OK, cfg1)"
    using it n147 unfolding parse_item_unfold [OF asap(1)] g option.case pv
    by (simp add: same_item_def delay_mechanism_option update_item_def store_value_def set_item_def cfg1_def nth_append list_update_append
        Let_def)
  have "config_global_item cfg1 ''x.delay_mechanism'' = Some 147"
    using hl kl by (simp add: config_global_item_def config_section_item_def cfg1_def)
  moreover have "parse_value (items cfg1 ! 147) ''E2E'' = None" using n147 by (simp add: cfg1_def nth_append parse_value_def config_item_def)
  ultimately have "parse_item enough cfg1 False None ''x.delay_mechanism'' ''E2E'' = None"
    unfolding parse_item_unfold [OF asap(2)] by simp
  then show ?thesis using cfg p1 by blast
qed

end
