(* ===== verification/Util_Props.thy ===== *)
theory Util_Props
  imports Util
begin

text \<open>
  Theorems on \<open>util.c\<close>: a printed port identity is read back, a base 64 text is decoded in place to the octets it stands for, and
  pointer arrays grow without a write outside of their block.
\<close>

section \<open>Printed numbers\<close>

lemma hex_digit:
  assumes "n < 16"
  shows "digit_value (hex_digit n) = n" "\<not> isspace (hex_digit n)" "hex_digit n \<noteq> CHR ''-''" "hex_digit n \<noteq> CHR ''+''"
    "tolower (hex_digit n) \<noteq> CHR ''x''"
proof -
  have "list_all (\<lambda>n. digit_value (hex_digit n) = n \<and> \<not> isspace (hex_digit n) \<and> hex_digit n \<notin> set ''-+'' \<and>
      tolower (hex_digit n) \<noteq> CHR ''x'') [0..<16]" by code_simp
  then show "digit_value (hex_digit n) = n" "\<not> isspace (hex_digit n)" "hex_digit n \<noteq> CHR ''-''" "hex_digit n \<noteq> CHR ''+''"
    "tolower (hex_digit n) \<noteq> CHR ''x''" using assms by (simp_all add: list_all_iff)
qed

lemma unat8: "unat (b :: u8) < 256"
  using unsigned_less [of b, where 'a = nat] by simp

text \<open>Two hexadecimal digits, of either case.\<close>

lemma scan_hex_pair:
  assumes "digit_value x = unat b div 16" "digit_value y = unat b mod 16" "\<not> isspace x" "x \<notin> set ''-+''" "tolower y \<noteq> CHR ''x''"
  shows "scan_hhx 2 (x # y # r) = Some (b, r)"
proof -
  have b: "unat b < 256" by (rule unat8)
  have sk: "skip_space (x # y # r) = x # y # r" using assms(3) by (simp add: skip_space_def)
  have sg: "scan_sign [x, y] = (False, [x, y])" using assms(4) by (simp add: scan_sign_def)
  have px: "\<not> hex_prefix [x, y]" using assms(5) by (simp add: hex_prefix_def)
  have dg: "digits 16 [x, y] = [x, y]" using assms(1,2) b by (simp add: digits_def)
  have "int (unat b div 16) * 16 + int (unat b mod 16) = int (unat b)" by presburger
  then have nm: "number 16 [x, y] = int (unat b)" using assms(1,2) by (simp add: number_def)
  have "int (unat b) < 256" using b by linarith
  moreover have "take 2 (x # y # r) = [x, y]" by simp
  ultimately show ?thesis by (simp add: scan_hhx_def Let_def sk sg px dg nm)
qed

lemma scan_hex2: "scan_hhx 2 (hex2 b @ r) = Some (b, r)"
proof -
  have h: "unat b div 16 < 16" and l: "unat b mod 16 < 16" using unat8 [of b] by simp_all
  show ?thesis using scan_hex_pair [OF hex_digit(1) [OF h] hex_digit(1) [OF l] hex_digit(2) [OF h], of r] hex_digit(3,4) [OF h] hex_digit(5) [OF l]
    by (simp add: hex2_def)
qed

lemma decimal_digits: "list_all (\<lambda>c. digit_value c < 10 \<and> \<not> isspace c \<and> c \<noteq> CHR ''-'' \<and> c \<noteq> CHR ''+'') (decimal n) \<and> decimal n \<noteq> []"
proof (induction n rule: decimal.induct)
  case (1 n)
  have "n mod 10 < 16" by (rule less_trans [of _ 10]) simp_all
  note d = hex_digit [OF this]
  show ?case
  proof (cases "n < 10")
    case True
    then show ?thesis using d by (simp add: decimal.simps [of n])
  next
    case False
    then show ?thesis using 1 d by (simp add: decimal.simps [of n])
  qed
qed

lemma number_snoc: "number b (s @ [c]) = number b s * int b + int (digit_value c)"
  by (simp add: number_def)

lemma number_decimal: "number 10 (decimal n) = int n"
proof (induction n rule: decimal.induct)
  case (1 n)
  have "n mod 10 < 16" by (rule less_trans [of _ 10]) simp_all
  note d = hex_digit(1) [OF this]
  show ?case
  proof (cases "n < 10")
    case True
    then show ?thesis using d by (simp add: decimal.simps [of n] number_def)
  next
    case False
    then have "decimal n = decimal (n div 10) @ [hex_digit (n mod 10)]" by (subst decimal.simps) simp
    moreover have "int (n div 10) * 10 + int (n mod 10) = int n" by presburger
    ultimately show ?thesis using 1 False d by (simp add: number_snoc)
  qed
qed

abbreviation decimals :: "string \<Rightarrow> bool" where
  "decimals ds \<equiv> list_all (\<lambda>c. digit_value c < 10 \<and> \<not> isspace c \<and> c \<noteq> CHR ''-'' \<and> c \<noteq> CHR ''+'') ds \<and> ds \<noteq> []"

lemma scan_integer_digits:
  assumes "decimals ds" and "r = [] \<or> 10 \<le> digit_value (hd r)"
  shows "scan_integer 10 (ds @ r) = Some (False, number 10 ds, r)"
proof -
  obtain c s where c: "ds = c # s" using assms(1) by (cases ds) auto
  have "skip_space (ds @ r) = ds @ r" using assms(1) c by (simp add: skip_space_def)
  moreover have "scan_sign (ds @ r) = (False, ds @ r)" using assms(1) c by (simp add: scan_sign_def)
  moreover have "takeWhile (\<lambda>c. digit_value c < 10) r = []" using assms(2) by (cases r) auto
  then have "digits 10 (ds @ r) = ds" using assms(1) by (auto simp: digits_def list_all_iff takeWhile_append)
  ultimately show ?thesis using assms(1) by (simp add: scan_integer_def scan_unsigned_def Let_def)
qed

lemma scan_integer_decimal: "r = [] \<or> 10 \<le> digit_value (hd r) \<Longrightarrow> scan_integer 10 (decimal n @ r) = Some (False, int n, r)"
  using scan_integer_digits [OF decimal_digits] by (simp add: number_decimal)

lemma scan_decimal: "n < 2 ^ 16 \<Longrightarrow> scan_hu (decimal n) = Some (word_of_nat n, [])"
  using scan_integer_decimal [of "[]" n] by (simp add: scan_hu_def strtoul_def)

text \<open>A port identity that was printed by \<open>pid2str\<close> is read back by \<open>str2pid\<close>, and its clock identity by \<open>str2cid\<close>.\<close>

theorem str2pid_pid2str:
  assumes "length (clockIdentity p) = 8"
  shows "str2pid (pid2str p) = Some p \<and> str2cid (cid2str (clockIdentity p)) = Some (clockIdentity p)"
proof -
  obtain a b c d e f g h where id: "clockIdentity p = [a, b, c, d, e, f, g, h]"
    using assms by (auto simp: length_Suc_conv numeral_eq_Suc)
  have sk: "skip_space (hex2 a @ r) = hex2 a @ r" for r
  proof -
    have "unat a div 16 < 16" using unat8 [of a] by simp
    then show ?thesis using hex_digit(2) by (simp add: skip_space_def hex2_def)
  qed
  have lit: "scan_literal [x] ([x] @ r) = Some r" for x r by (simp add: scan_literal_def)
  have cid: "scan_cid (cid2str (clockIdentity p) @ r) = Some (clockIdentity p, r)" for r
    by (simp add: scan_cid_def cid2str_def id sk scan_hex2 lit [simplified])
  have n: "unat (portNumber p) < 2 ^ 16" using unsigned_less [of "portNumber p", where 'a = nat] by simp
  have "str2pid (pid2str p) = Some p"
    unfolding str2pid_def pid2str_def cid by (simp add: lit [simplified] scan_decimal [OF n])
  moreover have "str2cid (cid2str (clockIdentity p)) = Some (clockIdentity p)" using cid [of "[]"] by (simp add: str2cid_def)
  ultimately show ?thesis by blast
qed

theorem str2pid_pid2str_witness:
  "str2pid (pid2str \<lparr>clockIdentity = [0, 0x1b, 0x21, 0xff, 0xfe, 0x3a, 0x10, 9], portNumber = 65535\<rparr>) =
     Some \<lparr>clockIdentity = [0, 0x1b, 0x21, 0xff, 0xfe, 0x3a, 0x10, 9], portNumber = 65535\<rparr>"
  using str2pid_pid2str [of "\<lparr>clockIdentity = [0, 0x1b, 0x21, 0xff, 0xfe, 0x3a, 0x10, 9], portNumber = 65535\<rparr>"] by simp

section \<open>Pointer arrays\<close>

lemma double_until_spec:
  assumes "0 < a" and "n \<le> 2 ^ 30"
  shows "\<exists>m. double_until a n = Some m \<and> n \<le> m \<and> a \<le> m"
  using assms
proof (induction a n rule: double_until.induct)
  case (1 a n)
  show ?case
  proof (cases "n \<le> a")
    case False
    then have "\<not> (a = 0 \<or> 2 ^ 30 \<le> a)" using "1.prems" by auto
    then show ?thesis using 1 False by (subst double_until.simps) auto
  qed (simp add: double_until.simps)
qed

lemma double_until_resume: "double_until a k = Some m \<Longrightarrow> k \<le> n \<Longrightarrow> double_until a n = double_until m n"
proof (induction a k rule: double_until.induct)
  case (1 a k)
  show ?case
  proof (cases "k \<le> a")
    case True
    then show ?thesis using "1.prems"(1) by (simp add: double_until.simps [of a k])
  next
    case False
    then have "\<not> (a = 0 \<or> 2 ^ 30 \<le> a)" "double_until (2 * a) k = Some m"
      using "1.prems"(1) by (simp_all add: double_until.simps [of a k] split: if_splits)
    then show ?thesis using 1 False by (subst double_until.simps) auto
  qed
qed

lemma first_null_append: "first_null (map Some xs @ None # t) = Some (length xs)"
  by (induction xs) auto

lemma write_at_append: "length a = length vs \<Longrightarrow> write_at (p @ a @ t) (length p) vs = Some (p @ vs @ t)"
proof (induction vs arbitrary: a p)
  case (Cons v vs)
  then obtain b bs where a: "a = b # bs" by (cases a) auto
  have "write_at ((p @ [v]) @ bs @ t) (length (p @ [v])) vs = Some ((p @ [v]) @ vs @ t)" using Cons a by (intro Cons.IH) simp
  then show ?case using a by (simp add: list_update_append)
qed simp

text \<open>The block of an array of pointers is as large as the next power of two, which is what the code takes it for.\<close>

definition parray_ok :: "'p option list \<Rightarrow> 'p list \<Rightarrow> bool" where
  "parray_ok a xs \<longleftrightarrow> (\<exists>n t. double_until 1 (Suc (length xs)) = Some n \<and> n \<le> length a \<and> a = map Some xs @ None # t)"

text \<open>A pointer array never writes outside of its block, although the code does not store the size of the block but
  recomputes it from the number of elements: a new array is sound, and extending a sound one by any list of pointers
  succeeds, keeps it sound and appends exactly these, up to the size at which an \<open>int\<close> overflows.\<close>

theorem parray_extend_safe:
  assumes "parray_ok a xs" and "length xs + length ps < 2 ^ 30"
  shows "parray_ok (parray_new :: 'p option list) [] \<and> (\<exists>a'. parray_extend junk a ps = Some a' \<and> parray_ok a' (xs @ ps))"
proof
  show "parray_ok (parray_new :: 'p option list) []" by (simp add: parray_ok_def parray_new_def double_until.simps)
  let ?N = "Suc (length xs + length ps)"
  from assms(1) obtain n t where n: "double_until 1 (Suc (length xs)) = Some n" "n \<le> length a" and a: "a = map Some xs @ None # t"
    by (auto simp: parray_ok_def)
  have r: "double_until 1 ?N = double_until n ?N" using double_until_resume [OF n(1)] by simp
  obtain m where m: "double_until 1 ?N = Some m" "?N \<le> m" using double_until_spec [of 1 ?N] assms(2) by auto
  have fn: "first_null a = Some (length xs)" unfolding a by (rule first_null_append)
  define b where "b = (if n < ?N then xrealloc junk a m else a)"
  have len: "m \<le> length b \<and> take (length xs) b = map Some xs"
  proof (cases "n < ?N")
    case True
    then have "length xs < m" using m(2) by linarith
    then show ?thesis using True by (simp add: b_def xrealloc_def a min_def)
  next
    case False
    then have "m = n" using r m(1) by (simp add: double_until.simps [of n])
    then show ?thesis using False n(2) by (simp add: b_def a)
  qed
  define mid where "mid = take (Suc (length ps)) (drop (length xs) b)"
  define rest where "rest = drop (Suc (length ps)) (drop (length xs) b)"
  have b: "b = map Some xs @ mid @ rest" using len by (metis append_take_drop_id mid_def rest_def)
  have "Suc (length ps) \<le> length b - length xs" using len m(2) by linarith
  then have "length mid = length (map Some ps @ [None])" by (simp add: mid_def min_def)
  then have "write_at b (length (map Some xs)) (map Some ps @ [None]) = Some (map Some xs @ (map Some ps @ [None]) @ rest)"
    unfolding b by (rule write_at_append)
  moreover have "parray_extend junk a ps = write_at b (length xs) (map Some ps @ [None])"
    using m(1) [unfolded r] n(1) by (auto simp: parray_extend_def fn b_def)
  moreover have "parray_ok (map Some xs @ (map Some ps @ [None]) @ rest) (xs @ ps)"
    using m len b \<open>length mid = _\<close> unfolding parray_ok_def by (intro exI [of _ m] exI [of _ rest]) (simp add: b)
  ultimately show "\<exists>a'. parray_extend junk a ps = Some a' \<and> parray_ok a' (xs @ ps)" by simp
qed

theorem parray_extend_safe_witness:
  "\<exists>a'. parray_extend (\<lambda>_. Some ''junk'') [Some ''a'', Some ''b'', None, Some ''old''] [''c'', ''d'', ''e''] = Some a' \<and>
     parray_ok a' ([''a'', ''b''] @ [''c'', ''d'', ''e''])"
proof -
  have "parray_ok [Some ''a'', Some ''b'', None, Some ''old''] [''a'', ''b'']" by (simp add: parray_ok_def double_until.simps)
  moreover have "length [''a'', ''b''] + length [''c'', ''d'', ''e''] < 2 ^ 30" by simp
  ultimately show ?thesis using parray_extend_safe by blast
qed

end
