(* ===== verification/Lstab.thy ===== *)
theory Lstab
  imports Util_Props
begin

text \<open>
  \<open>lstab.c\<close>: the table of leap seconds, from the built-in history or from a file, which is read again when it changes, and the
  offset between TAI and UTC that is looked up in it. The table is an array of 228 entries, of which \<open>length\<close> are used.
  What the system returns is an argument: the text of the file that \<open>fopen\<close> opens, or \<open>None\<close>, and the time of modification
  that \<open>stat\<close> gives.
\<close>

section \<open>Data\<close>

abbreviation "N_HISTORICAL_LEAPS \<equiv> 28 :: nat"
abbreviation "N_LEAPS \<equiv> 228 :: nat"
abbreviation "NTP_UTC_OFFSET \<equiv> 2208988800 :: u64"

record epoch_marker =
  em_offset :: int
  em_ntp :: u64
  em_tai :: u64
  em_utc :: u64

record lstab =
  marks :: "epoch_marker list"
  expiration_utc :: u64
  leapfile :: "string option"
  lsfile_mtime :: int
  ls_length :: nat

datatype lstab_result = LSTAB_OK | LSTAB_UNKNOWN | LSTAB_EXPIRED | LSTAB_AMBIGUOUS

definition expiration_date_ntp :: u64 where
  "expiration_date_ntp = 3944332800"

definition offset_table :: "(u64 \<times> u64) list" where
  "offset_table =
    [(2272060800, 10), (2287785600, 11), (2303683200, 12), (2335219200, 13), (2366755200, 14), (2398291200, 15), (2429913600, 16),
     (2461449600, 17), (2492985600, 18), (2524521600, 19), (2571782400, 20), (2603318400, 21), (2634854400, 22), (2698012800, 23),
     (2776982400, 24), (2840140800, 25), (2871676800, 26), (2918937600, 27), (2950473600, 28), (2982009600, 29), (3029443200, 30),
     (3076704000, 31), (3124137600, 32), (3345062400, 33), (3439756800, 34), (3550089600, 35), (3644697600, 36), (3692217600, 37)]"

section \<open>Initialization\<close>

definition epoch_marker_init :: "u64 \<Rightarrow> int \<Rightarrow> epoch_marker" where
  "epoch_marker_init v offset =
    \<lparr>em_offset = offset, em_ntp = v, em_tai = v - NTP_UTC_OFFSET + word_of_int offset, em_utc = v - NTP_UTC_OFFSET\<rparr>"

definition lstab_init :: "lstab \<Rightarrow> lstab" where
  "lstab_init ls = ls\<lparr>
     marks := map (\<lambda>(v, offset). epoch_marker_init v (sint (ucast offset :: 32 word))) offset_table @ drop N_HISTORICAL_LEAPS (marks ls),
     expiration_utc := expiration_date_ntp - NTP_UTC_OFFSET, ls_length := N_HISTORICAL_LEAPS\<rparr>"

section \<open>Reading a file\<close>

definition scan_lu :: "string \<Rightarrow> (u64 \<times> string) option" where
  "scan_lu s = (case strtoul 10 s of None \<Rightarrow> None | Some (v, _, rest) \<Rightarrow> Some (word_of_int v, rest))"

definition scan_expiration :: "string \<Rightarrow> u64 option" where
  "scan_expiration buf = (case scan_literal ''#@'' buf of None \<Rightarrow> None | Some r \<Rightarrow> map_option fst (scan_lu (skip_space r)))"

definition scan_epoch :: "string \<Rightarrow> (u64 \<times> int) option" where
  "scan_epoch buf =
    (case scan_lu buf of
       None \<Rightarrow> None
     | Some (v, r) \<Rightarrow> (case scan_d (skip_space r) of None \<Rightarrow> None | Some (offset, _) \<Rightarrow> Some (v, offset)))"

function lstab_lines :: "lstab \<Rightarrow> nat \<Rightarrow> string \<Rightarrow> lstab \<times> nat" where
  "lstab_lines ls index tx =
    (if N_LEAPS \<le> index \<or> tx = [] then (ls, index)
     else let buf = cstr (fst (fgets 1024 tx)); tx = snd (fgets 1024 tx)
       in case scan_expiration buf of
            Some expiration \<Rightarrow> lstab_lines (ls\<lparr>expiration_utc := expiration - NTP_UTC_OFFSET\<rparr>) index tx
          | None \<Rightarrow>
              (case scan_epoch buf of
                 Some (v, offset) \<Rightarrow> lstab_lines (ls\<lparr>marks := (marks ls)[index := epoch_marker_init v offset]\<rparr>) (Suc index) tx
               | None \<Rightarrow> lstab_lines ls index tx))"
  by pat_completeness auto
termination by (relation "measure (\<lambda>(l, i, tx). length tx)") (auto simp: fgets_def Let_def)

declare lstab_lines.simps [simp del]

definition lstab_read :: "string option \<Rightarrow> lstab \<Rightarrow> int \<times> lstab" where
  "lstab_read opened ls =
    (case opened of
       None \<Rightarrow> (- 1, ls)
     | Some tx \<Rightarrow>
         let (ls, index) = lstab_lines ls 0 tx
         in if expiration_utc ls = 0 then (- 1, ls) else (0, ls\<lparr>ls_length := index\<rparr>))"

definition zero_mark :: epoch_marker where
  "zero_mark = \<lparr>em_offset = 0, em_ntp = 0, em_tai = 0, em_utc = 0\<rparr>"

definition calloc_lstab :: lstab where
  "calloc_lstab = \<lparr>marks = replicate N_LEAPS zero_mark, expiration_utc = 0, leapfile = None, lsfile_mtime = 0, ls_length = 0\<rparr>"

definition lstab_create :: "bool \<Rightarrow> string option \<Rightarrow> string option \<Rightarrow> int option \<Rightarrow> lstab option" where
  "lstab_create mem filename opened status =
    (if \<not> mem then None
     else if filename \<noteq> None \<and> filename \<noteq> Some []
     then let (err, ls) = lstab_read opened calloc_lstab
          in if err \<noteq> 0 then None
             else (case status of None \<Rightarrow> None | Some mtime \<Rightarrow> Some (ls\<lparr>leapfile := filename, lsfile_mtime := mtime\<rparr>))
     else Some (lstab_init calloc_lstab))"

definition update_leapsecond_table :: "string option \<Rightarrow> int option \<Rightarrow> lstab \<Rightarrow> int \<times> lstab" where
  "update_leapsecond_table opened status ls =
    (if leapfile ls = None then (0, ls)
     else case status of
       None \<Rightarrow> (- 1, ls)
     | Some mtime \<Rightarrow>
         if lsfile_mtime ls = mtime then (0, ls)
         else let (err, ls) = lstab_read opened ls
              in if err \<noteq> 0 then (- 1, ls\<lparr>ls_length := 0\<rparr>) else (0, ls\<lparr>lsfile_mtime := mtime\<rparr>))"

section \<open>Lookup\<close>

text \<open>The loop that searches the last epoch that starts at or before \<open>utctime\<close>.\<close>

primrec find_epoch :: "epoch_marker list \<Rightarrow> u64 \<Rightarrow> nat \<Rightarrow> nat option" where
  "find_epoch tab utctime 0 = None"
| "find_epoch tab utctime (Suc index) = (if em_utc (tab ! index) \<le> utctime then Some index else find_epoch tab utctime index)"

text \<open>The result is the table, the code, and the offset when it is set.\<close>

definition lstab_utc2tai :: "string option \<Rightarrow> int option \<Rightarrow> lstab \<Rightarrow> u64 \<Rightarrow> lstab \<times> lstab_result \<times> int option" where
  "lstab_utc2tai opened status ls utctime =
    (let (err, ls) = update_leapsecond_table opened status ls
     in if err \<noteq> 0 then (ls, LSTAB_UNKNOWN, None)
        else case find_epoch (marks ls) utctime (ls_length ls) of
          None \<Rightarrow> (ls, LSTAB_UNKNOWN, None)
        | Some epoch \<Rightarrow>
            let tai_offset = em_offset (marks ls ! epoch); next = epoch + 1
            in (ls, if next < ls_length ls \<and> utctime = em_utc (marks ls ! next) - 1 then LSTAB_AMBIGUOUS
                    else if expiration_utc ls < utctime then LSTAB_EXPIRED else LSTAB_OK, Some tai_offset))"

section \<open>Stepwise time scales\<close>

text \<open>Times that increase: a moment lies in at most one of the intervals that they start, and in one if it is not before the first.\<close>

primrec last_step :: "(nat \<Rightarrow> int) \<Rightarrow> int \<Rightarrow> nat \<Rightarrow> nat option" where
  "last_step f x 0 = None"
| "last_step f x (Suc i) = (if f i \<le> x then Some i else last_step f x i)"

lemma last_step_cong: "(\<And>i. i < n \<Longrightarrow> f i = g i) \<Longrightarrow> last_step f x n = last_step g x n"
  by (induction n) simp_all

lemma find_epoch_step: "find_epoch tab t n = last_step (\<lambda>i. uint (em_utc (tab ! i))) (uint t) n"
  by (induction n) (simp_all add: word_le_def)

lemma last_step_Some: "last_step f x n = Some j \<longleftrightarrow> j < n \<and> f j \<le> x \<and> (\<forall>i. j < i \<and> i < n \<longrightarrow> x < f i)"
proof (induction n)
  case (Suc n)
  then show ?case by (auto simp: less_Suc_eq)
qed simp

locale increasing =
  fixes f :: "nat \<Rightarrow> int" and n :: nat
  assumes inc: "Suc i < n \<Longrightarrow> f i < f (Suc i)"
begin

lemma mono: "i < j \<Longrightarrow> j < n \<Longrightarrow> f i < f j"
proof (induction j)
  case (Suc j)
  then show ?case using inc [of j] by (cases "i = j") auto
qed simp

lemma last_step_iff: "last_step f x n = Some j \<longleftrightarrow> j < n \<and> f j \<le> x \<and> (Suc j < n \<longrightarrow> x < f (Suc j))"
proof
  assume r: "j < n \<and> f j \<le> x \<and> (Suc j < n \<longrightarrow> x < f (Suc j))"
  have "x < f i" if "j < i" "i < n" for i
    using r that mono [of "Suc j" i] by (cases "i = Suc j") auto
  then show "last_step f x n = Some j" using r by (simp add: last_step_Some)
qed (simp add: last_step_Some)

lemma last_step_defined: "0 < n \<Longrightarrow> last_step f x n \<noteq> None \<longleftrightarrow> f 0 \<le> x"
proof -
  assume "0 < n"
  moreover have "last_step f x k = None \<longleftrightarrow> (\<forall>i < k. x < f i)" for k by (induction k) (auto simp: less_Suc_eq)
  moreover have "x < f i" if "x < f 0" "i < n" for i using that mono [of 0 i] by (cases "i = 0") auto
  ultimately show ?thesis by (metis leD leI)
qed

end

section \<open>What the table means\<close>

text \<open>TAI counts seconds; UTC shows the second \<open>utc j\<close> when epoch \<open>j\<close> begins and counts with TAI, but at the end of an epoch a second
  is inserted, during which UTC shows 23:59:59 again. \<open>utc_of_tai\<close> is what UTC shows at a moment of TAI.\<close>

definition utc_of_tai :: "(nat \<Rightarrow> int) \<Rightarrow> (nat \<Rightarrow> int) \<Rightarrow> nat \<Rightarrow> int \<Rightarrow> int option" where
  "utc_of_tai utc off n \<tau> =
    map_option (\<lambda>j. let u = \<tau> - off j in if Suc j < n \<and> u = utc (Suc j) then u - 1 else u) (last_step (\<lambda>i. utc i + off i) \<tau> n)"

locale leap_scale = increasing utc n for utc :: "nat \<Rightarrow> int" and n :: nat +
  fixes off :: "nat \<Rightarrow> int"
  assumes inserted: "Suc i < n \<Longrightarrow> off (Suc i) = off i + 1"

sublocale leap_scale \<subseteq> tai: increasing "\<lambda>i. utc i + off i" n
  by unfold_locales (simp add: inc inserted add_strict_mono)

context leap_scale
begin

lemma shown_iff:
  "utc_of_tai utc off n \<tau> = Some t \<longleftrightarrow>
    (\<exists>j < n. utc j \<le> t \<and> (Suc j < n \<longrightarrow> t < utc (Suc j)) \<and> (\<tau> = t + off j \<or> Suc j < n \<and> t + 1 = utc (Suc j) \<and> \<tau> = t + off j + 1))"
  (is "_ = (\<exists>j < n. ?P j)")
proof
  assume "utc_of_tai utc off n \<tau> = Some t"
  then obtain j where j: "j < n" "utc j + off j \<le> \<tau>" "Suc j < n \<longrightarrow> \<tau> < utc (Suc j) + off (Suc j)"
      "t = (if Suc j < n \<and> \<tau> - off j = utc (Suc j) then \<tau> - off j - 1 else \<tau> - off j)"
    by (auto simp: utc_of_tai_def tai.last_step_iff Let_def)
  then have "?P j" using inc [of j] inserted [of j] by (auto split: if_splits)
  then show "\<exists>j < n. ?P j" using j(1) by blast
next
  assume "\<exists>j < n. ?P j"
  then obtain j where j: "j < n" "?P j" by blast
  then have "last_step (\<lambda>i. utc i + off i) \<tau> n = Some j" using inserted [of j] by (auto simp: tai.last_step_iff)
  then show "utc_of_tai utc off n \<tau> = Some t" using j(2) by (auto simp: utc_of_tai_def)
qed

lemma moments:
  "{\<tau>. utc_of_tai utc off n \<tau> = Some t} =
    (case last_step utc t n of
       None \<Rightarrow> {}
     | Some j \<Rightarrow> insert (t + off j) (if Suc j < n \<and> t + 1 = utc (Suc j) then {t + off j + 1} else {}))"
proof (cases "last_step utc t n")
  case None
  then have "\<not> (\<exists>j < n. utc j \<le> t \<and> (Suc j < n \<longrightarrow> t < utc (Suc j)))" using last_step_iff [of t] by auto
  then show ?thesis using None unfolding shown_iff by auto
next
  case (Some j)
  have "(\<exists>i < n. utc i \<le> t \<and> (Suc i < n \<longrightarrow> t < utc (Suc i)) \<and> Q i) \<longleftrightarrow> Q j" for Q
    using last_step_iff [of t] Some by (metis option.inject)
  then show ?thesis unfolding shown_iff Some option.case by (auto split: if_splits)
qed

end

text \<open>The conditions on a table, and the functions it denotes.\<close>

definition utc_at :: "lstab \<Rightarrow> nat \<Rightarrow> int" where
  "utc_at ls i = uint (em_utc (marks ls ! i))"

definition off_at :: "lstab \<Rightarrow> nat \<Rightarrow> int" where
  "off_at ls i = em_offset (marks ls ! i)"

definition leap_table :: "lstab \<Rightarrow> bool" where
  "leap_table ls \<longleftrightarrow> list_all (\<lambda>i. utc_at ls i < utc_at ls (Suc i) \<and> off_at ls (Suc i) = off_at ls i + 1) [0..<ls_length ls - 1]"

definition shown :: "lstab \<Rightarrow> int \<Rightarrow> int option" where
  "shown ls = utc_of_tai (utc_at ls) (off_at ls) (ls_length ls)"

lemma leap_table_scale: "leap_table ls \<Longrightarrow> leap_scale (utc_at ls) (ls_length ls) (off_at ls)"
  by unfold_locales (auto simp: leap_table_def list_all_iff)

definition built_in :: lstab where
  "built_in = lstab_init calloc_lstab"

lemma offset_table_facts:
  "length offset_table = 28"
  "list_all (\<lambda>i. sint (ucast (snd (offset_table ! i)) :: 32 word) = 10 + int i) [0..<28]"
  "list_all (\<lambda>i. uint (fst (offset_table ! i) - NTP_UTC_OFFSET) < uint (fst (offset_table ! Suc i) - NTP_UTC_OFFSET)) [0..<27]"
  by code_simp+

lemma built_in_marks:
  "i < 28 \<Longrightarrow> utc_at built_in i = uint (fst (offset_table ! i) - NTP_UTC_OFFSET)"
  "i < 28 \<Longrightarrow> off_at built_in i = 10 + int i" "ls_length built_in = 28"
  using offset_table_facts(1,2)
  by (simp_all add: built_in_def lstab_init_def utc_at_def off_at_def nth_append split_beta epoch_marker_init_def list_all_iff)

lemma built_in_table: "leap_table built_in"
  using offset_table_facts(3) by (simp add: leap_table_def built_in_marks list_all_iff)

interpretation builtin: leap_scale "utc_at built_in" "ls_length built_in" "off_at built_in"
  by (rule leap_table_scale [OF built_in_table])

lemma before_next:
  assumes "0 < uint w"
  shows "t = w - 1 \<longleftrightarrow> uint t + 1 = uint (w :: u64)"
proof -
  have "uint (w - 1) = uint w - 1" using assms by (simp add: uint_word_ariths mod_pos_pos_trivial uint_lt2p [THEN less_trans] order.strict_implies_order)
  then show ?thesis by (metis add_diff_cancel_right' diff_add_cancel word_uint_eq_iff)
qed

text \<open>C31. The contract of \<open>lstab.h\<close>, for every table of inserted leap seconds that is up to date: when the result is \<open>LSTAB_OK\<close> or
  \<open>LSTAB_EXPIRED\<close>, UTC shows the given time at exactly one moment of TAI, the time plus the offset returned; when it is
  \<open>LSTAB_AMBIGUOUS\<close>, at exactly this moment and the next one; when it is \<open>LSTAB_UNKNOWN\<close>, at none. Times after the expiration date
  are never \<open>LSTAB_OK\<close>.\<close>

theorem lstab_utc2tai_contract:
  assumes "leap_table ls" and "leapfile ls = None \<or> status = Some (lsfile_mtime ls)"
  shows "case lstab_utc2tai opened status ls t of (ls', r, k) \<Rightarrow> ls' = ls \<and> (r = LSTAB_OK \<longrightarrow> t \<le> expiration_utc ls) \<and>
    {\<tau>. shown ls \<tau> = Some (uint t)} =
      (case k of None \<Rightarrow> {} | Some off \<Rightarrow> insert (uint t + off) (if r = LSTAB_AMBIGUOUS then {uint t + off + 1} else {})) \<and>
    (k = None \<longleftrightarrow> r = LSTAB_UNKNOWN)"
proof -
  note scale = leap_table_scale [OF assms(1)]
  have u: "update_leapsecond_table opened status ls = (0, ls)" using assms(2) by (auto simp: update_leapsecond_table_def)
  have f: "find_epoch (marks ls) t (ls_length ls) = last_step (utc_at ls) (uint t) (ls_length ls)"
    unfolding find_epoch_step utc_at_def ..
  show ?thesis
  proof (cases "last_step (utc_at ls) (uint t) (ls_length ls)")
    case None
    then show ?thesis using u f leap_scale.moments [OF scale, of "uint t"] by (simp add: lstab_utc2tai_def shown_def)
  next
    case (Some j)
    have "uint t + 1 = utc_at ls (Suc j) \<longleftrightarrow> t = em_utc (marks ls ! Suc j) - 1" if "Suc j < ls_length ls"
    proof -
      have "0 \<le> utc_at ls j" by (simp add: utc_at_def)
      then have "0 < utc_at ls (Suc j)" using increasing.inc [OF leap_scale.axioms(1) [OF scale] that] by simp
      then show ?thesis using before_next [of "em_utc (marks ls ! Suc j)" t] by (simp add: utc_at_def)
    qed
    then show ?thesis using u f Some leap_scale.moments [OF scale, of "uint t"]
      by (auto simp: lstab_utc2tai_def shown_def off_at_def)
  qed
qed

theorem lstab_utc2tai_contract_witness:
  "lstab_utc2tai None None built_in 1483228799 = (built_in, LSTAB_AMBIGUOUS, Some 36) \<and>
   {\<tau>. shown built_in \<tau> = Some 1483228799} = {1483228835, 1483228836}"
proof -
  have l: "leapfile built_in = None" by (simp add: built_in_def lstab_init_def calloc_lstab_def)
  have "last_step (utc_at built_in) 1483228799 (ls_length built_in) = Some 26"
    using builtin.last_step_iff [of 1483228799 26] by (simp add: built_in_marks offset_table_def)
  then have "find_epoch (marks built_in) 1483228799 (ls_length built_in) = Some 26"
    by (simp add: find_epoch_step utc_at_def [abs_def] built_in_marks(3))
  moreover have "uint (em_utc (marks built_in ! 27)) = uint (1483228800 :: u64)"
    using built_in_marks(1) [of 27] by (simp add: utc_at_def offset_table_def)
  then have "em_utc (marks built_in ! 27) = 1483228800" by (rule word_uint_eqI)
  moreover have "em_offset (marks built_in ! 26) = 36" using built_in_marks(2) [of 26] by (simp add: off_at_def)
  ultimately have "lstab_utc2tai None None built_in 1483228799 = (built_in, LSTAB_AMBIGUOUS, Some 36)"
    using l by (simp add: lstab_utc2tai_def update_leapsecond_table_def built_in_marks(3))
  then show ?thesis using lstab_utc2tai_contract [OF built_in_table, where status = None and opened = None and t = 1483228799] l by (simp add: insert_commute)
qed

section \<open>Files\<close>

text \<open>The lines of a file of leap seconds, as the IERS publishes it: remarks, the date of expiration, and leap seconds with a remark.\<close>

datatype leap_line = Remark string | Expires nat | Leap nat nat string

fun line_text :: "leap_line \<Rightarrow> string" where
  "line_text (Remark r) = CHR ''#'' # r"
| "line_text (Expires e) = ''#@ '' @ decimal e"
| "line_text (Leap v k r) = decimal v @ '' '' @ decimal k @ '' #'' @ r"

definition file_text :: "leap_line list \<Rightarrow> string" where
  "file_text its = concat (map (\<lambda>it. line_text it @ [CHR 0x0A]) its)"

definition plain :: "string \<Rightarrow> bool" where
  "plain r \<longleftrightarrow> list_all (\<lambda>c. c \<noteq> CHR 0x0A \<and> c \<noteq> CHR 0x00) r \<and> length r < 900"

fun line_ok :: "leap_line \<Rightarrow> bool" where
  "line_ok (Remark r) \<longleftrightarrow> plain r \<and> take 1 r \<noteq> ''@''"
| "line_ok (Expires e) \<longleftrightarrow> e < 2 ^ 64"
| "line_ok (Leap v k r) \<longleftrightarrow> v < 2 ^ 64 \<and> k < 2 ^ 31 \<and> plain r"

fun is_leap :: "leap_line \<Rightarrow> bool" where
  "is_leap (Leap v k r) = True"
| "is_leap _ = False"

text \<open>What a line means for the table, of which \<open>i\<close> entries are filled.\<close>

fun line_effect :: "leap_line \<Rightarrow> lstab \<times> nat \<Rightarrow> lstab \<times> nat" where
  "line_effect (Remark r) (ls, i) = (ls, i)"
| "line_effect (Expires e) (ls, i) = (ls\<lparr>expiration_utc := of_nat e - NTP_UTC_OFFSET\<rparr>, i)"
| "line_effect (Leap v k r) (ls, i) = (ls\<lparr>marks := (marks ls)[i := epoch_marker_init (of_nat v) (int k)]\<rparr>, Suc i)"

lemma decimal_length: "n < 10 ^ k \<Longrightarrow> 0 < k \<Longrightarrow> length (decimal n) \<le> k"
proof (induction n arbitrary: k rule: decimal.induct)
  case (1 n)
  show ?case
  proof (cases "n < 10")
    case True
    then show ?thesis using 1(3) by (subst decimal.simps) simp
  next
    case False
    then have "k \<noteq> 1" using 1(2) by auto
    then have "0 < k - 1" using 1(3) by simp
    moreover have "n div 10 < 10 ^ (k - 1)" using 1(2,3) by (cases k) (auto simp: less_mult_imp_div_less)
    ultimately show ?thesis using 1(1) [OF False, of "k - 1"] 1(3) False by (subst decimal.simps) simp
  qed
qed

lemma scan_number:
  assumes "r = [] \<or> 10 \<le> digit_value (hd r)"
  shows "n < 2 ^ 64 \<Longrightarrow> scan_lu (decimal n @ r) = Some (of_nat n, r)" "n < 2 ^ 31 \<Longrightarrow> scan_d (decimal n @ r) = Some (int n, r)"
  using scan_integer_decimal [OF assms, of n]
  by (auto simp: scan_lu_def strtoul_def scan_d_def strtol_def signed_take_bit_int_eq_self)

lemma skip_decimal: "skip_space (decimal n @ r) = decimal n @ r"
  using decimal_digits [of n] by (cases "decimal n") (auto simp: skip_space_def)

lemma decimal_plain: "list_all (\<lambda>c. c \<noteq> CHR 0x0A \<and> c \<noteq> CHR 0x00) (decimal n)"
proof -
  have "digit_value (CHR 0x0A) = 36" "digit_value (CHR 0x00) = 36" by code_simp+
  then have "\<And>c. digit_value c < 10 \<Longrightarrow> c \<noteq> CHR 0x0A \<and> c \<noteq> CHR 0x00" by auto
  then show ?thesis using decimal_digits [of n] by (auto simp: list_all_iff)
qed

lemma line_fits:
  assumes "line_ok it"
  shows "list_all (\<lambda>c. c \<noteq> CHR 0x0A \<and> c \<noteq> CHR 0x00) (line_text it)" "length (line_text it) < 1000"
proof -
  have d: "length (decimal n) \<le> 20" if "n < 2 ^ 64" for n using that by (intro decimal_length) simp_all
  show "list_all (\<lambda>c. c \<noteq> CHR 0x0A \<and> c \<noteq> CHR 0x00) (line_text it)"
    using assms decimal_plain by (cases it) (auto simp: plain_def)
  show "length (line_text it) < 1000"
  proof (cases it)
    case (Leap v k r)
    then show ?thesis using assms d [of v] d [of k] by (simp add: plain_def)
  qed (use assms d in \<open>force simp: plain_def\<close>)+
qed

lemma scan_hash: "scan_lu (CHR ''#'' # s) = None"
proof -
  have "\<not> isspace CHR ''#''" "\<not> digit_value CHR ''#'' < 10" by code_simp+
  then show ?thesis
    by (simp add: scan_lu_def strtoul_def scan_integer_def skip_space_def scan_sign_def scan_unsigned_def digits_def)
qed

lemma line_scanned:
  assumes "line_ok it"
  shows "scan_expiration (line_text it @ [CHR 0x0A]) = (case it of Expires e \<Rightarrow> Some (of_nat e) | _ \<Rightarrow> None) \<and>
    scan_epoch (line_text it @ [CHR 0x0A]) = (case it of Leap v k r \<Rightarrow> Some (of_nat v, int k) | _ \<Rightarrow> None)"
proof -
  have c: "digit_value (CHR 0x0A) = 36" "digit_value CHR '' '' = 36" "\<not> digit_value CHR ''#'' < 10" "isspace CHR '' ''"
    by code_simp+
  have sp: "skip_space (CHR '' '' # s) = skip_space s" for s using c by (simp add: skip_space_def)
  show ?thesis
  proof (cases it)
    case (Remark r)
    then show ?thesis using assms
      by (cases r) (auto simp: scan_expiration_def scan_epoch_def scan_hash scan_literal_def)
  next
    case (Expires e)
    then show ?thesis using assms c
      by (simp add: scan_expiration_def scan_epoch_def scan_hash scan_literal_def sp skip_decimal scan_number(1))
  next
    case (Leap v k r)
    obtain d t where d: "decimal v = d # t" "digit_value d < 10" using decimal_digits [of v] by (cases "decimal v") auto
    then have "d \<noteq> CHR ''#''" using c by auto
    then have "scan_expiration (line_text it @ [CHR 0x0A]) = None"
      using Leap d by (simp add: scan_expiration_def scan_literal_def)
    then show ?thesis using assms c Leap
      by (simp add: scan_epoch_def scan_number sp skip_decimal)
  qed
qed

lemma fgets_line:
  assumes "list_all (\<lambda>c. c \<noteq> CHR 0x0A \<and> c \<noteq> CHR 0x00) l" "length l < 1000"
  shows "fgets 1024 (l @ CHR 0x0A # r) = (l @ [CHR 0x0A], r)" "cstr (l @ [CHR 0x0A]) = l @ [CHR 0x0A]"
proof -
  have "takeWhile (\<lambda>c. c \<noteq> CHR 0x0A) (l @ CHR 0x0A # r) = l" using assms(1) by (simp add: takeWhile_append list_all_iff)
  then show "fgets 1024 (l @ CHR 0x0A # r) = (l @ [CHR 0x0A], r)" using assms(2) by (simp add: fgets_def Let_def)
  show "cstr (l @ [CHR 0x0A]) = l @ [CHR 0x0A]" using assms(1) by (simp add: cstr_def takeWhile_append list_all_iff)
qed

lemma lines_read:
  "list_all line_ok its \<Longrightarrow> i + length (filter is_leap its) < N_LEAPS \<Longrightarrow>
    lstab_lines ls i (file_text its) = fold line_effect its (ls, i)"
proof (induction its arbitrary: ls i)
  case Nil
  show ?case by (simp add: file_text_def lstab_lines.simps)
next
  case (Cons it its)
  then have ok: "line_ok it" by simp
  have "i < N_LEAPS" using Cons.prems(2) by simp
  have "file_text (it # its) = line_text it @ CHR 0x0A # file_text its" by (simp add: file_text_def)
  then show ?case
    using Cons line_scanned [OF ok] fgets_line [OF line_fits [OF ok]] \<open>i < N_LEAPS\<close>
    by (subst lstab_lines.simps) (cases it; simp add: Let_def)
qed

text \<open>The leap seconds of a file and its last date of expiration.\<close>

fun leaps :: "leap_line list \<Rightarrow> (nat \<times> nat) list" where
  "leaps [] = []"
| "leaps (Leap v k r # its) = (v, k) # leaps its"
| "leaps (_ # its) = leaps its"

fun expiry :: "leap_line list \<Rightarrow> nat option" where
  "expiry [] = None"
| "expiry (Expires e # its) = (case expiry its of None \<Rightarrow> Some e | Some e' \<Rightarrow> Some e')"
| "expiry (_ # its) = expiry its"

abbreviation mark_of :: "nat \<times> nat \<Rightarrow> epoch_marker" where
  "mark_of p \<equiv> epoch_marker_init (of_nat (fst p)) (int (snd p))"

lemma leaps_length: "length (leaps its) = length (filter is_leap its)"
  by (induction its rule: leaps.induct) simp_all

lemma effect_fold:
  assumes "i + length (leaps its) \<le> length (marks ls)"
  shows "fold line_effect its (ls, i) =
    (ls\<lparr>marks := take i (marks ls) @ map mark_of (leaps its) @ drop (i + length (leaps its)) (marks ls),
       expiration_utc := (case expiry its of None \<Rightarrow> expiration_utc ls | Some e \<Rightarrow> of_nat e - NTP_UTC_OFFSET)\<rparr>,
     i + length (leaps its))"
  using assms
proof (induction its arbitrary: ls i rule: leaps.induct)
  case (2 v k r its)
  have "take (Suc i) ((marks ls)[i := mark_of (v, k)]) = take i (marks ls) @ [mark_of (v, k)]"
    using 2(2) by (simp add: take_Suc_conv_app_nth)
  then show ?case using 2 by (simp add: Let_def split: option.splits)
qed (auto split: option.splits)

lemma file_read:
  assumes "list_all line_ok its" "length (leaps its) < N_LEAPS" "length (marks ls) = N_LEAPS"
  shows "lstab_read (Some (file_text its)) ls =
    (let e = (case expiry its of None \<Rightarrow> expiration_utc ls | Some e \<Rightarrow> of_nat e - NTP_UTC_OFFSET);
         ls' = ls\<lparr>marks := map mark_of (leaps its) @ drop (length (leaps its)) (marks ls), expiration_utc := e\<rparr>
     in if e = 0 then (- 1, ls') else (0, ls'\<lparr>ls_length := length (leaps its)\<rparr>))"
  using lines_read [OF assms(1), of 0 ls] effect_fold [of 0 its ls] assms(2,3) by (simp add: lstab_read_def leaps_length Let_def)

text \<open>C32. A published file is understood: from its text, with any remarks, the table is created with exactly the leap seconds of the
  file, in their order, and its last date of expiration; and every later look-up at which the file has changed works with the new one.\<close>

theorem lstab_file_understood:
  assumes "list_all line_ok its" "length (leaps its) < N_LEAPS" "expiry its = Some e" "e < 2 ^ 64" "e \<noteq> 2208988800"
    and "length (marks ls0) = N_LEAPS" "leapfile ls0 \<noteq> None" "lsfile_mtime ls0 \<noteq> mtime"
  shows "(\<exists>ls. lstab_create True (Some (c # f)) (Some (file_text its)) (Some mtime) = Some ls \<and>
      take (ls_length ls) (marks ls) = map mark_of (leaps its) \<and> expiration_utc ls = of_nat e - NTP_UTC_OFFSET) \<and>
    (\<exists>ls. update_leapsecond_table (Some (file_text its)) (Some mtime) ls0 = (0, ls) \<and>
      take (ls_length ls) (marks ls) = map mark_of (leaps its) \<and> expiration_utc ls = of_nat e - NTP_UTC_OFFSET \<and> lsfile_mtime ls = mtime)"
proof -
  have e: "(of_nat e :: u64) - NTP_UTC_OFFSET \<noteq> 0"
  proof
    assume "(of_nat e :: u64) - NTP_UTC_OFFSET = 0"
    then have "unat (of_nat e :: u64) = unat NTP_UTC_OFFSET" by simp
    then show False using assms(4,5) by (simp add: unsigned_of_nat take_bit_nat_eq_self)
  qed
  then show ?thesis using file_read [OF assms(1,2), of calloc_lstab] file_read [OF assms(1,2,6)] assms(3,7,8)
    by (auto simp: lstab_create_def Let_def calloc_lstab_def update_leapsecond_table_def)
qed

text \<open>The file of 2016, abridged.\<close>

definition sample_file :: "leap_line list" where
  "sample_file = [Remark ''$ 3676924800'', Expires 3707596800, Leap 3644697600 36 '' 1 Jul 2015'', Leap 3692217600 37 '' 1 Jan 2017'']"

lemma sample_file_ok: "list_all line_ok sample_file" "leaps sample_file = [(3644697600, 36), (3692217600, 37)]"
    "expiry sample_file = Some 3707596800"
  by (simp_all add: sample_file_def plain_def)

abbreviation "old_table \<equiv> calloc_lstab\<lparr>leapfile := Some ''leap'', expiration_utc := 1\<rparr>"

theorem lstab_file_understood_witness:
  "\<exists>ls. lstab_create True (Some ''leap'') (Some (file_text sample_file)) (Some 5) = Some ls \<and>
     take (ls_length ls) (marks ls) = [epoch_marker_init 3644697600 36, epoch_marker_init 3692217600 37]"
proof -
  have "length (leaps sample_file) < N_LEAPS" "length (marks old_table) = N_LEAPS" "leapfile old_table \<noteq> None" "lsfile_mtime old_table \<noteq> 5"
    "(3707596800 :: nat) < 2 ^ 64" "(3707596800 :: nat) \<noteq> 2208988800"
    by (simp_all add: sample_file_ok calloc_lstab_def)
  from lstab_file_understood [OF sample_file_ok(1) this(1) sample_file_ok(3) this(5,6,2-4), of "CHR ''l''" "''eap''"]
  show ?thesis by (auto simp: sample_file_ok)
qed

text \<open>The check for a missing date of expiration works only once: a file without one is refused when the table is created, but
  accepted when it replaces another, and then the date of the old file goes on to hold for the new leap seconds.\<close>

theorem lstab_reload_keeps_expiration:
  assumes "list_all line_ok its" "length (leaps its) < N_LEAPS" "expiry its = None"
    and "length (marks ls) = N_LEAPS" "leapfile ls = Some (c # f)" "lsfile_mtime ls \<noteq> mtime" "expiration_utc ls \<noteq> 0"
  shows "lstab_create True (leapfile ls) (Some (file_text its)) (Some mtime) = None \<and>
    (\<exists>ls'. update_leapsecond_table (Some (file_text its)) (Some mtime) ls = (0, ls') \<and>
      take (ls_length ls') (marks ls') = map mark_of (leaps its) \<and> expiration_utc ls' = expiration_utc ls)"
  using file_read [OF assms(1,2), of ls] file_read [OF assms(1,2), of calloc_lstab] assms(3-7)
  by (auto simp: update_leapsecond_table_def lstab_create_def Let_def calloc_lstab_def)

theorem lstab_reload_keeps_expiration_witness:
  "lstab_create True (Some ''leap'') (Some (file_text [Leap 3692217600 37 []])) (Some 5) = None \<and>
   (\<exists>ls'. update_leapsecond_table (Some (file_text [Leap 3692217600 37 []])) (Some 5) old_table = (0, ls') \<and> expiration_utc ls' = 1)"
proof -
  have "list_all line_ok [Leap 3692217600 37 []]" "length (leaps [Leap 3692217600 37 []]) < N_LEAPS" "expiry [Leap 3692217600 37 []] = None"
    "length (marks old_table) = N_LEAPS" "leapfile old_table = Some (CHR ''l'' # ''eap'')" "lsfile_mtime old_table \<noteq> 5"
    "expiration_utc old_table \<noteq> 0" by (simp_all add: plain_def calloc_lstab_def)
  from lstab_reload_keeps_expiration [OF this] show ?thesis by auto
qed

section \<open>Bounds\<close>

text \<open>Whatever the files contain, the table has its 228 entries and uses no more of them.\<close>

definition lstab_inv :: "lstab \<Rightarrow> bool" where
  "lstab_inv ls \<longleftrightarrow> length (marks ls) = N_LEAPS \<and> ls_length ls \<le> N_LEAPS"

lemma lines_bounded:
  "i \<le> N_LEAPS \<Longrightarrow> snd (lstab_lines ls i tx) \<le> N_LEAPS \<and> length (marks (fst (lstab_lines ls i tx))) = length (marks ls)
    \<and> ls_length (fst (lstab_lines ls i tx)) = ls_length ls"
proof (induction ls i tx rule: lstab_lines.induct)
  case (1 ls i tx)
  then show ?case by (subst (1 2 3) lstab_lines.simps) (auto simp: Let_def split: option.splits)
qed

inductive lstab_reach :: "lstab \<Rightarrow> bool" where
  create: "lstab_create mem filename opened status = Some ls \<Longrightarrow> lstab_reach ls"
| update: "lstab_reach ls \<Longrightarrow> lstab_reach (snd (update_leapsecond_table opened status ls))"
| lookup: "lstab_reach ls \<Longrightarrow> lstab_reach (fst (lstab_utc2tai opened status ls utctime))"

lemma read_inv: "lstab_inv ls \<Longrightarrow> lstab_inv (snd (lstab_read opened ls))"
  using lines_bounded [of 0 ls] by (auto simp: lstab_read_def lstab_inv_def split_beta split: option.splits)

lemma update_inv: "lstab_inv ls \<Longrightarrow> lstab_inv (snd (update_leapsecond_table opened status ls))"
  using read_inv [of ls opened] by (auto simp: update_leapsecond_table_def lstab_inv_def split: option.splits prod.splits)

lemma lookup_table: "fst (lstab_utc2tai opened status ls t) = snd (update_leapsecond_table opened status ls)"
  by (auto simp: lstab_utc2tai_def Let_def split: option.splits prod.splits)

theorem lstab_bounded: "lstab_reach ls \<Longrightarrow> lstab_inv ls"
proof (induction rule: lstab_reach.induct)
  case (create mem filename opened status ls)
  have "lstab_inv calloc_lstab" "lstab_inv (lstab_init calloc_lstab)"
    using offset_table_facts(1) by (simp_all add: lstab_inv_def calloc_lstab_def lstab_init_def)
  then show ?case using create read_inv [of calloc_lstab opened]
    by (auto simp: lstab_create_def lstab_inv_def split: if_splits prod.splits option.splits)
qed (simp_all add: update_inv lookup_table)

end
