(* ===== verification/Nmea.thy ===== *)
theory Nmea
  imports Util_Props
begin

text \<open>
  \<open>nmea.c\<close>: the parser of the serial messages of satellite receivers. It is fed one character after the other, keeps its state
  between buffers, and yields the time of an RMC sentence whose checksum is right.
\<close>

unbundle bit_operations_syntax

section \<open>The parser\<close>

abbreviation "NMEA_MAX_LENGTH \<equiv> 256 :: nat"

datatype nmea_state = NMEA_IDLE | NMEA_HAVE_DOLLAR | NMEA_HAVE_STARTG | NMEA_HAVE_STARTX | NMEA_HAVE_BODY | NMEA_HAVE_CSUMA
  | NMEA_HAVE_CSUM_MSB | NMEA_HAVE_CSUM_LSB | NMEA_HAVE_PENULTIMATE

record nmea_parser =
  sentence :: string
  payload_checksum :: string
  nm_state :: nmea_state
  nm_checksum :: u8
  nm_offset :: nat

record nmea_rmc =
  rmc_sec :: int
  rmc_nsec :: int
  fix_valid :: bool

text \<open>\<open>memset\<close> sets every field to zero, whatever the parser was.\<close>

definition nmea_reset :: nmea_parser where
  "nmea_reset = \<lparr>sentence = replicate (NMEA_MAX_LENGTH + 1) (CHR 0x00), payload_checksum = replicate 3 (CHR 0x00), nm_state = NMEA_IDLE,
     nm_checksum = 0, nm_offset = 0\<rparr>"

text \<open>A character is in range when it is printable; the characters from 128 on are negative.\<close>

definition nmea_accumulate :: "nmea_parser \<Rightarrow> char \<Rightarrow> nmea_parser" where
  "nmea_accumulate np c =
    (let n = of_char c :: nat in
     if n < 32 \<or> 126 < n then nmea_reset
     else let np = if nm_offset np = NMEA_MAX_LENGTH then nmea_reset else np
       in np\<lparr>sentence := (sentence np)[nm_offset np := c], nm_offset := nm_offset np + 1, nm_checksum := nm_checksum np XOR of_char c\<rparr>)"

text \<open>Whether a sentence is complete, where the code returns zero, and the parser.\<close>

definition nmea_parse_symbol :: "nmea_parser \<Rightarrow> char \<Rightarrow> bool \<times> nmea_parser" where
  "nmea_parse_symbol np c =
    (case nm_state np of
       NMEA_IDLE \<Rightarrow> (False, if c = CHR ''$'' then np\<lparr>nm_state := NMEA_HAVE_DOLLAR\<rparr> else np)
     | NMEA_HAVE_DOLLAR \<Rightarrow>
         (False, if c = CHR ''G'' then nmea_accumulate (np\<lparr>nm_state := NMEA_HAVE_STARTG\<rparr>) c else nmea_reset)
     | NMEA_HAVE_STARTG \<Rightarrow> (False, nmea_accumulate (np\<lparr>nm_state := NMEA_HAVE_STARTX\<rparr>) c)
     | NMEA_HAVE_STARTX \<Rightarrow> (False, nmea_accumulate (np\<lparr>nm_state := NMEA_HAVE_BODY\<rparr>) c)
     | NMEA_HAVE_BODY \<Rightarrow> (False, if c = CHR ''*'' then np\<lparr>nm_state := NMEA_HAVE_CSUMA\<rparr> else nmea_accumulate np c)
     | NMEA_HAVE_CSUMA \<Rightarrow> (False, np\<lparr>nm_state := NMEA_HAVE_CSUM_MSB, payload_checksum := (payload_checksum np)[0 := c]\<rparr>)
     | NMEA_HAVE_CSUM_MSB \<Rightarrow> (False, np\<lparr>nm_state := NMEA_HAVE_CSUM_LSB, payload_checksum := (payload_checksum np)[1 := c]\<rparr>)
     | NMEA_HAVE_CSUM_LSB \<Rightarrow>
         if c = CHR 0x0A then (True, np)
         else (False, if c = CHR 0x0D then np\<lparr>nm_state := NMEA_HAVE_PENULTIMATE\<rparr> else nmea_reset)
     | NMEA_HAVE_PENULTIMATE \<Rightarrow> if c = CHR 0x0A then (True, np) else (False, nmea_reset))"

section \<open>Scanning a sentence\<close>

text \<open>\<open>%<w>d\<close> of \<open>sscanf\<close>: at most \<open>w\<close> characters, a sign included.\<close>

definition scan_wd :: "nat \<Rightarrow> string \<Rightarrow> (int \<times> string) option" where
  "scan_wd w s =
    (let r = skip_space s; (neg, f) = scan_sign (take w r); d = digits 10 f; n = number 10 d
     in if d = [] then None else Some (if neg then - n else n, drop (length (take w r) - length f + length d) r))"

text \<open>\<open>%c\<close>, and \<open>%2d%2d%2d\<close>.\<close>

definition scan_c :: "string \<Rightarrow> (char \<times> string) option" where
  "scan_c s = (case s of [] \<Rightarrow> None | c # r \<Rightarrow> Some (c, r))"

definition scan_2d3 :: "string \<Rightarrow> (int \<times> int \<times> int \<times> string) option" where
  "scan_2d3 s = do {
     (a, s) \<leftarrow> scan_wd 2 s;
     (b, s) \<leftarrow> scan_wd 2 s;
     (c, s) \<leftarrow> scan_wd 2 s;
     Some (a, b, c, s) }"

text \<open>The formats \<open>G%*cRMC,%2d%2d%2d.%d,%c\<close> and \<open>G%*cRMC,%2d%2d%2d,%c\<close>; the results are the time of day, the milliseconds and the
  status. When the second format matches, the first one fails at the point, and so has not set the milliseconds.\<close>

definition scan_rmc_time :: "string \<Rightarrow> (int \<times> int \<times> int \<times> string) option" where
  "scan_rmc_time s = do {
     s \<leftarrow> scan_literal ''G'' s;
     (_, s) \<leftarrow> scan_c s;
     s \<leftarrow> scan_literal ''RMC,'' s;
     scan_2d3 s }"

definition scan_rmc_point :: "string \<Rightarrow> (int \<times> int \<times> int \<times> int \<times> char) option" where
  "scan_rmc_point s = do {
     (h, m, sc, s) \<leftarrow> scan_rmc_time s;
     s \<leftarrow> scan_literal ''.'' s;
     (msec, s) \<leftarrow> scan_d s;
     s \<leftarrow> scan_literal '','' s;
     (status, _) \<leftarrow> scan_c s;
     Some (h, m, sc, msec, status) }"

definition scan_rmc_plain :: "string \<Rightarrow> (int \<times> int \<times> int \<times> int \<times> char) option" where
  "scan_rmc_plain s = do {
     (h, m, sc, s) \<leftarrow> scan_rmc_time s;
     s \<leftarrow> scan_literal '','' s;
     (status, _) \<leftarrow> scan_c s;
     Some (h, m, sc, 0, status) }"

text \<open>The text after the \<open>n\<close>-th comma.\<close>

primrec after_commas :: "nat \<Rightarrow> string \<Rightarrow> string option" where
  "after_commas 0 s = Some s"
| "after_commas (Suc n) s = (case dropWhile (\<lambda>c. c \<noteq> CHR '','') s of [] \<Rightarrow> None | c # r \<Rightarrow> after_commas n r)"

text \<open>\<open>mktime\<close> in the time zone UTC: seconds since 1970 of a broken-down time, whose fields need not be in their ranges. \<open>year\<close>
  counts from 1900, \<open>mon\<close> from 0.\<close>

definition leap_years :: "int \<Rightarrow> int" where
  "leap_years y = y div 4 - y div 100 + y div 400"

definition days_before_month :: "int \<Rightarrow> int \<Rightarrow> int" where
  "days_before_month y mon =
    [0, 31, 59, 90, 120, 151, 181, 212, 243, 273, 304, 334] ! nat mon
    + (if 2 \<le> mon \<and> (4 dvd y \<and> \<not> 100 dvd y \<or> 400 dvd y) then 1 else 0)"

definition mktime :: "int \<Rightarrow> int \<Rightarrow> int \<Rightarrow> int \<Rightarrow> int \<Rightarrow> int \<Rightarrow> int" where
  "mktime year mon mday hour minute sc =
    (let y = year + 1900 + mon div 12;
         days = 365 * (y - 1970) + leap_years (y - 1) - leap_years 1969 + days_before_month y (mon mod 12) + mday - 1
     in ((days * 24 + hour) * 60 + minute) * 60 + sc)"

definition nmea_scan_rmc :: "nmea_parser \<Rightarrow> nmea_rmc option" where
  "nmea_scan_rmc np = do {
     (checksum, _) \<leftarrow> scan_hhx 2 (cstr (payload_checksum np));
     if checksum \<noteq> nm_checksum np then None else do {
       let s = cstr (sentence np);
       (hour, minute, sc, msec, status) \<leftarrow> (case scan_rmc_point s of Some t \<Rightarrow> Some t | None \<Rightarrow> scan_rmc_plain s);
       ptr \<leftarrow> after_commas 9 s;
       (mday, mon, year, _) \<leftarrow> scan_2d3 ptr;
       let sc = (if sc = 60 then 59 else sc);
       Some \<lparr>rmc_sec = mktime (year + 100) (mon - 1) mday hour minute sc, rmc_nsec = sint (word_of_int (msec * 1000000) :: u64),
             fix_valid = (status = CHR ''A'')\<rparr> } }"

text \<open>The result is the time, if there is one, the parser, and the number of characters taken.\<close>

fun nmea_parse :: "nmea_parser \<Rightarrow> string \<Rightarrow> nmea_rmc option \<times> nmea_parser \<times> nat" where
  "nmea_parse np [] = (None, np, 0)"
| "nmea_parse np (c # buf) =
    (let (complete, np) = nmea_parse_symbol np c;
         result = if complete then nmea_scan_rmc np else None
     in case result of
          Some rmc \<Rightarrow> (Some rmc, nmea_reset, 1)
        | None \<Rightarrow>
            let (r, np, n) = nmea_parse (if complete then nmea_reset else np) buf in (r, np, n + 1))"

definition nmea_parser_create :: "bool \<Rightarrow> nmea_parser option" where
  "nmea_parser_create mem = (if mem then Some nmea_reset else None)"

section \<open>Buffers\<close>

definition printable :: "char \<Rightarrow> bool" where
  "printable c \<longleftrightarrow> 32 \<le> (of_char c :: nat) \<and> (of_char c :: nat) \<le> 126"

definition xor_of :: "string \<Rightarrow> u8" where
  "xor_of tx = foldl (\<lambda>k c. k XOR of_char c) 0 tx"

text \<open>A parser that holds the text \<open>tx\<close>: the rest of the array is zero, and the checksum is that of the text.\<close>

definition holding :: "string \<Rightarrow> char \<Rightarrow> char \<Rightarrow> nmea_state \<Rightarrow> nmea_parser" where
  "holding tx a b st = \<lparr>sentence = tx @ replicate (NMEA_MAX_LENGTH + 1 - length tx) (CHR 0x00), payload_checksum = [a, b, CHR 0x00],
     nm_state = st, nm_checksum = xor_of tx, nm_offset = length tx\<rparr>"

lemma reset_holding: "nmea_reset = holding [] (CHR 0x00) (CHR 0x00) NMEA_IDLE"
  by (simp add: nmea_reset_def holding_def xor_of_def eval_nat_numeral)

lemma holding_simps [simp]:
  "nm_state (holding tx a b st) = st" "(holding tx a b st)\<lparr>nm_state := st'\<rparr> = holding tx a b st'"
  "payload_checksum (holding tx a b st) = [a, b, CHR 0x00]"
  "(holding tx a b st)\<lparr>payload_checksum := [c, d, CHR 0x00]\<rparr> = holding tx c d st"
  by (simp_all add: holding_def)

lemma accumulate_holding:
  assumes "length tx \<le> NMEA_MAX_LENGTH"
  shows "nmea_accumulate (holding tx a b st) c =
    (if \<not> printable c then nmea_reset
     else if length tx = NMEA_MAX_LENGTH then holding [c] (CHR 0x00) (CHR 0x00) NMEA_IDLE
     else holding (tx @ [c]) a b st)"
proof -
  have "replicate (257 - length tx) (CHR 0x00) = CHR 0x00 # replicate (256 - length tx) (CHR 0x00)"
    using assms by (simp add: Suc_diff_le flip: replicate_Suc)
  moreover have "replicate 257 (CHR 0x00) = CHR 0x00 # replicate 256 (CHR 0x00)" by (simp flip: replicate_Suc)
  ultimately show ?thesis using assms
    by (auto simp: nmea_accumulate_def printable_def reset_holding holding_def xor_of_def Let_def not_le)
qed

text \<open>The invariant of the parser, under every input: the text fits into the array with its final zero, so that no access is
  outside, it is printable, and the checksum is that of the text.\<close>

definition nmea_inv :: "nmea_parser \<Rightarrow> bool" where
  "nmea_inv np \<longleftrightarrow> (\<exists>tx a b st. np = holding tx a b st \<and> length tx \<le> NMEA_MAX_LENGTH \<and> list_all printable tx)"

lemma holding_inv: "length tx \<le> NMEA_MAX_LENGTH \<Longrightarrow> list_all printable tx \<Longrightarrow> nmea_inv (holding tx a b st)"
  unfolding nmea_inv_def by blast

lemma reset_inv: "nmea_inv nmea_reset"
  by (simp add: reset_holding holding_inv)

lemma accumulate_inv: "length tx \<le> NMEA_MAX_LENGTH \<Longrightarrow> list_all printable tx \<Longrightarrow> nmea_inv (nmea_accumulate (holding tx a b st) c)"
  by (simp add: accumulate_holding reset_inv holding_inv)

lemma symbol_inv: "nmea_inv np \<Longrightarrow> nmea_inv (snd (nmea_parse_symbol np c))"
proof -
  assume "nmea_inv np"
  then obtain tx a b st where np: "np = holding tx a b st" "length tx \<le> NMEA_MAX_LENGTH" "list_all printable tx"
    unfolding nmea_inv_def by blast
  show ?thesis unfolding np(1) using np(2,3)
    by (cases st) (simp_all add: nmea_parse_symbol_def accumulate_inv reset_inv holding_inv)
qed

lemma parse_inv: "nmea_inv np \<Longrightarrow> nmea_inv (fst (snd (nmea_parse np buf)))"
proof (induction buf arbitrary: np)
  case (Cons c buf)
  then show ?case using symbol_inv [of np c] reset_inv by (auto simp: split_beta Let_def split: option.splits)
qed simp

text \<open>One character: a sentence is taken, or parsing goes on.\<close>

definition nmea_next :: "nmea_parser \<Rightarrow> char \<Rightarrow> nmea_rmc option \<times> nmea_parser" where
  "nmea_next np c =
    (let (complete, np) = nmea_parse_symbol np c in (if complete then nmea_scan_rmc np else None, if complete then nmea_reset else np))"

lemma parse_step:
  "nmea_parse np (c # buf) =
    (case nmea_next np c of
       (Some rmc, np) \<Rightarrow> (Some rmc, np, 1)
     | (None, np) \<Rightarrow> (case nmea_parse np buf of (r, np, k) \<Rightarrow> (r, np, k + 1)))"
  by (auto simp: nmea_next_def split_beta Let_def split: option.splits)

declare nmea_parse.simps(2) [simp del]

lemmas parse_simps = nmea_parse.simps(1) parse_step

lemma parse_append:
  "nmea_parse np buf = (None, np', n) \<Longrightarrow>
    nmea_parse np (buf @ buf') = (case nmea_parse np' buf' of (r, np'', k) \<Rightarrow> (r, np'', n + k))"
proof (induction buf arbitrary: np n)
  case (Cons c buf)
  obtain r np1 where "nmea_next np c = (r, np1)" by (cases "nmea_next np c") auto
  then show ?case using Cons by (auto simp: parse_step split: option.splits prod.splits)
qed simp

lemma parse_count: "nmea_parse np buf = (r, np', n) \<Longrightarrow> n \<le> length buf \<and> (r = None \<longrightarrow> n = length buf)"
proof (induction buf arbitrary: np r n)
  case (Cons c buf)
  obtain r1 np1 where "nmea_next np c = (r1, np1)" by (cases "nmea_next np c") auto
  then show ?case using Cons by (auto simp: parse_step split: option.splits prod.splits)
qed simp

lemma parse_found: "nmea_parse np buf = (Some rmc, np', n) \<Longrightarrow> np' = nmea_reset \<and> nmea_parse np (buf @ buf') = (Some rmc, np', n)"
proof (induction buf arbitrary: np n)
  case (Cons c buf)
  obtain r1 np1 where s: "nmea_next np c = (r1, np1)" by (cases "nmea_next np c") auto
  then have "r1 \<noteq> None \<Longrightarrow> np1 = nmea_reset" by (auto simp: nmea_next_def split: prod.splits if_splits)
  then show ?case using Cons s by (auto simp: parse_step split: option.splits prod.splits)
qed simp

section \<open>Sentences\<close>

definition two :: "nat \<Rightarrow> string" where
  "two n = [hex_digit (n div 10), hex_digit (n mod 10)]"

definition HEX2 :: "u8 \<Rightarrow> string" where
  "HEX2 b = [''0123456789ABCDEF'' ! (unat b div 16), ''0123456789ABCDEF'' ! (unat b mod 16)]"

text \<open>The text of an RMC sentence: the talker, the time with or without a fraction, the status, six fields, the date, the rest.\<close>

fun point_text :: "string option \<Rightarrow> string" where
  "point_text None = []"
| "point_text (Some ds) = CHR ''.'' # ds"

definition rmc_body :: "char \<Rightarrow> nat \<times> nat \<times> nat \<Rightarrow> string option \<Rightarrow> char \<Rightarrow> string list \<Rightarrow> nat \<times> nat \<times> nat \<Rightarrow> string \<Rightarrow> string" where
  "rmc_body talker hms fr status fs dmy rest =
    (case (hms, dmy) of ((h, m, sc), (d, mo, y)) \<Rightarrow>
      ''G'' @ [talker] @ ''RMC,'' @ two h @ two m @ two sc @ point_text fr @ '','' @ [status] @
      concat (map ((#) (CHR '','')) fs) @ '','' @ two d @ two mo @ two y @ rest)"

definition nmea_text :: "string \<Rightarrow> string" where
  "nmea_text body = ''$'' @ body @ ''*'' @ HEX2 (xor_of body) @ [CHR 0x0D, CHR 0x0A]"

lemma scan_HEX2: "scan_hhx 2 (HEX2 b) = Some (b, []) \<and> CHR 0x00 \<notin> set (HEX2 b)"
proof -
  have d: "list_all (\<lambda>n. let c = ''0123456789ABCDEF'' ! n in digit_value c = n \<and> \<not> isspace c \<and> c \<notin> set ''-+'' \<and> tolower c \<noteq> CHR ''x'' \<and>
      c \<noteq> CHR 0x00) [0..<16]" by code_simp
  have "unat b div 16 < 16" "unat b mod 16 < 16" using unat8 [of b] by simp_all
  then have "unat b div 16 \<in> set [0..<16]" "unat b mod 16 \<in> set [0..<16]" by simp_all
  with d show ?thesis using scan_hex_pair [of "''0123456789ABCDEF'' ! (unat b div 16)" b "''0123456789ABCDEF'' ! (unat b mod 16)" "[]"]
    unfolding list_all_iff Let_def HEX2_def by auto
qed

lemma next_symbol:
  "nmea_parse_symbol np c = (False, np') \<Longrightarrow> nmea_parse np (c # r) = (case nmea_parse np' r of (q, np, k) \<Rightarrow> (q, np, k + 1))"
  by (simp add: parse_step nmea_next_def)

lemma feed_body:
  "list_all (\<lambda>c. printable c \<and> c \<noteq> CHR ''*'') s \<Longrightarrow> length pre + length s \<le> NMEA_MAX_LENGTH \<Longrightarrow>
    nmea_parse (holding pre a b NMEA_HAVE_BODY) (s @ r) =
      (case nmea_parse (holding (pre @ s) a b NMEA_HAVE_BODY) r of (q, np, k) \<Rightarrow> (q, np, k + length s))"
proof (induction s arbitrary: pre)
  case (Cons c s)
  have "nmea_parse_symbol (holding pre a b NMEA_HAVE_BODY) c = (False, holding (pre @ [c]) a b NMEA_HAVE_BODY)"
    using Cons.prems by (simp add: nmea_parse_symbol_def accumulate_holding)
  then show ?case using Cons by (simp add: next_symbol split: prod.splits)
qed (simp split: prod.splits)

lemma feed_sentence:
  assumes "body = CHR ''G'' # t # u # s" "list_all printable body" "CHR ''*'' \<notin> set s" "length pre + length body \<le> NMEA_MAX_LENGTH"
  shows "nmea_parse (holding pre a b NMEA_IDLE) (nmea_text body @ r) =
    (case nmea_scan_rmc (holding (pre @ body) (HEX2 (xor_of body) ! 0) (HEX2 (xor_of body) ! 1) NMEA_HAVE_PENULTIMATE) of
       Some rmc \<Rightarrow> (Some rmc, nmea_reset, length (nmea_text body))
     | None \<Rightarrow> (case nmea_parse nmea_reset r of (q, np, k) \<Rightarrow> (q, np, k + length (nmea_text body))))"
proof -
  obtain x y where xy: "HEX2 (xor_of body) = [x, y]" by (simp add: HEX2_def)
  have s: "list_all (\<lambda>c. printable c \<and> c \<noteq> CHR ''*'') s" using assms(1-3) by (auto simp: list_all_iff)
  have head: "nmea_parse (holding pre a b NMEA_IDLE) (CHR ''$'' # CHR ''G'' # t # u # z) =
      (case nmea_parse (holding (pre @ [CHR ''G'', t, u]) a b NMEA_HAVE_BODY) z of (q, np, k) \<Rightarrow> (q, np, k + 4))" for z
    using assms(1,2,4) by (simp add: next_symbol nmea_parse_symbol_def accumulate_holding split: prod.splits)
  have tail: "nmea_parse (holding tx a b NMEA_HAVE_BODY) (CHR ''*'' # x # y # CHR 0x0D # CHR 0x0A # r) =
      (case nmea_scan_rmc (holding tx x y NMEA_HAVE_PENULTIMATE) of
         Some rmc \<Rightarrow> (Some rmc, nmea_reset, 5)
       | None \<Rightarrow> (case nmea_parse nmea_reset r of (q, np, k) \<Rightarrow> (q, np, k + 5)))" for tx
    by (simp add: parse_step nmea_next_def nmea_parse_symbol_def split: option.splits prod.splits)
  have "nmea_text body @ r = CHR ''$'' # CHR ''G'' # t # u # s @ CHR ''*'' # x # y # CHR 0x0D # CHR 0x0A # r"
    unfolding nmea_text_def xy by (simp add: assms(1))
  then show ?thesis
    using head feed_body [OF s, of "pre @ [CHR ''G'', t, u]" a b] tail assms(1,4)
    by (simp add: xy nmea_text_def split: option.splits prod.splits)
qed

section \<open>Their meaning\<close>

lemma scan_two: "n < 100 \<Longrightarrow> scan_wd 2 (two n @ r) = Some (int n, r)"
proof -
  assume "n < 100"
  then have "n div 10 < 16" "n mod 10 < 16" "n div 10 < 10" "n mod 10 < 10" by (simp_all add: less_trans [of _ 10])
  note d = hex_digit [OF this(1)] hex_digit [OF this(2)] this(3,4)
  have dg: "digits 10 (two n) = two n" using d by (simp add: digits_def two_def)
  have sg: "scan_sign (two n) = (False, two n)" using d by (simp add: scan_sign_def two_def)
  have sk: "skip_space (two n @ r) = two n @ r" using d by (simp add: skip_space_def two_def)
  have "int (n div 10) * 10 + int (n mod 10) = int n" by presburger
  then have nm: "number 10 (two n) = int n" using d by (simp add: number_def two_def)
  have "take 2 (two n @ r) = two n" "two n \<noteq> []" "length (two n) = 2" by (simp_all add: two_def)
  then show ?thesis by (simp add: scan_wd_def Let_def dg sg sk nm)
qed

lemma scan_twos: "a < 100 \<Longrightarrow> b < 100 \<Longrightarrow> c < 100 \<Longrightarrow> scan_2d3 (two a @ two b @ two c @ r) = Some (int a, int b, int c, r)"
  by (simp add: scan_2d3_def scan_two)

lemma number_bounds: "decimals ds \<Longrightarrow> 0 \<le> number 10 ds \<and> number 10 ds < 10 ^ length ds"
proof (induction ds rule: rev_induct)
  case (snoc c ds)
  show ?case
  proof (cases "ds = []")
    case True
    then show ?thesis using snoc by (simp add: number_def)
  next
    case False
    then have "0 \<le> number 10 ds" "number 10 ds < 10 ^ length ds" "digit_value c < 10" using snoc by auto
    then show ?thesis by (simp add: number_snoc)
  qed
qed simp

lemma scan_fraction:
  assumes "decimals ds" "length ds \<le> 9"
  shows "scan_d (ds @ CHR '','' # r) = Some (number 10 ds, CHR '','' # r)"
proof -
  have "digit_value CHR '','' = 36" by code_simp
  then have "scan_integer 10 (ds @ CHR '','' # r) = Some (False, number 10 ds, CHR '','' # r)"
    using scan_integer_digits [OF assms(1), of "CHR '','' # r"] by simp
  moreover have "10 ^ length ds \<le> (10 ^ 9 :: int)" using assms(2) by (intro power_increasing) simp_all
  then have "0 \<le> number 10 ds" "number 10 ds < 10 ^ 9" using number_bounds [OF assms(1)] by auto
  ultimately show ?thesis by (simp add: scan_d_def strtol_def signed_take_bit_int_eq_self)
qed

lemma after_comma: "CHR '','' \<notin> set f \<Longrightarrow> after_commas (Suc n) (f @ CHR '','' # r) = after_commas n r"
  by (simp add: dropWhile_append)

lemma after_fields:
  "list_all (\<lambda>f. CHR '','' \<notin> set f) fs \<Longrightarrow> CHR '','' \<notin> set p \<Longrightarrow>
    after_commas (Suc (length fs)) (p @ concat (map ((#) (CHR '','')) fs) @ CHR '','' # r) = Some r"
proof (induction fs arbitrary: p)
  case (Cons f fs)
  then show ?case using after_comma [of p "Suc (length fs)" "f @ concat (map ((#) (CHR '','')) fs) @ CHR '','' # r"] by simp
qed (simp add: after_comma del: after_commas.simps(2))

lemma two_plain: "n < 100 \<Longrightarrow> CHR '','' \<notin> set (two n)"
proof -
  have c: "digit_value CHR '','' = 36" by code_simp
  assume "n < 100"
  then have "n div 10 < 16" "n mod 10 < 16" by (simp_all add: less_trans [of _ 10])
  note d = hex_digit(1) [OF this(1)] hex_digit(1) [OF this(2)]
  have "digit_value (hex_digit (n div 10)) \<noteq> 36" "digit_value (hex_digit (n mod 10)) \<noteq> 36"
    using d \<open>n div 10 < 16\<close> \<open>n mod 10 < 16\<close> by simp_all
  then show ?thesis using c by (auto simp: two_def)
qed

text \<open>The conditions on the parts of a sentence, and what the parser makes of it.\<close>

definition rmc_ok :: "char \<Rightarrow> nat \<times> nat \<times> nat \<Rightarrow> string option \<Rightarrow> char \<Rightarrow> string list \<Rightarrow> nat \<times> nat \<times> nat \<Rightarrow> string \<Rightarrow> bool" where
  "rmc_ok talker hms fr status fs dmy rest \<longleftrightarrow>
    (case (hms, dmy) of ((h, m, sc), (d, mo, y)) \<Rightarrow> list_all (\<lambda>n. n < 100) [h, m, sc, d, mo, y]) \<and>
    (case fr of None \<Rightarrow> True | Some ds \<Rightarrow> decimals ds \<and> length ds \<le> 9) \<and>
    talker \<noteq> CHR '','' \<and> status \<noteq> CHR '','' \<and> length fs = 6 \<and> list_all (\<lambda>f. CHR '','' \<notin> set f) fs \<and>
    list_all (\<lambda>c. printable c \<and> c \<noteq> CHR ''*'') (rmc_body talker hms fr status fs dmy rest)"

definition rmc_result :: "nat \<times> nat \<times> nat \<Rightarrow> string option \<Rightarrow> char \<Rightarrow> nat \<times> nat \<times> nat \<Rightarrow> nmea_rmc" where
  "rmc_result hms fr status dmy =
    (case (hms, dmy) of ((h, m, sc), (d, mo, y)) \<Rightarrow>
      \<lparr>rmc_sec = mktime (int y + 100) (int mo - 1) (int d) (int h) (int m) (if sc = 60 then 59 else int sc),
       rmc_nsec = (case fr of None \<Rightarrow> 0 | Some ds \<Rightarrow> number 10 ds * 1000000), fix_valid = (status = CHR ''A'')\<rparr>)"

text \<open>The meaning of a sentence: the digits behind the point are a decimal fraction of a second.\<close>

definition rmc_meaning :: "nat \<times> nat \<times> nat \<Rightarrow> string option \<Rightarrow> char \<Rightarrow> nat \<times> nat \<times> nat \<Rightarrow> nmea_rmc" where
  "rmc_meaning hms fr status dmy =
    (case (hms, dmy) of ((h, m, sc), (d, mo, y)) \<Rightarrow>
      \<lparr>rmc_sec = mktime (int y + 100) (int mo - 1) (int d) (int h) (int m) (if sc = 60 then 59 else int sc),
       rmc_nsec = (case fr of None \<Rightarrow> 0 | Some ds \<Rightarrow> number 10 ds * 10 ^ (9 - length ds)), fix_valid = (status = CHR ''A'')\<rparr>)"

definition milliseconds :: "string option \<Rightarrow> bool" where
  "milliseconds fr \<longleftrightarrow> (case fr of None \<Rightarrow> True | Some ds \<Rightarrow> length ds = 3 \<or> number 10 ds = 0)"

lemma result_meaning: "milliseconds fr \<Longrightarrow> rmc_result hms fr status dmy = rmc_meaning hms fr status dmy"
  by (auto simp: rmc_result_def rmc_meaning_def milliseconds_def split: option.splits prod.splits)

lemma scan_time:
  assumes "h < 100" "m < 100" "sc < 100"
  shows "scan_rmc_time (CHR ''G'' # t # ''RMC,'' @ two h @ two m @ two sc @ r) = Some (int h, int m, int sc, r)"
  using assms by (simp add: scan_rmc_time_def scan_literal_def scan_c_def scan_twos)

lemma scan_front:
  assumes "h < 100" "m < 100" "sc < 100" and fr: "\<And>ds. fr = Some ds \<Longrightarrow> decimals ds \<and> length ds \<le> 9"
    and b: "b = CHR ''G'' # t # ''RMC,'' @ two h @ two m @ two sc @ point_text fr @ CHR '','' # status # r"
  shows "(case scan_rmc_point b of Some t \<Rightarrow> Some t | None \<Rightarrow> scan_rmc_plain b) =
      Some (int h, int m, int sc, (case fr of None \<Rightarrow> 0 | Some ds \<Rightarrow> number 10 ds), status)"
proof -
  have tm: "scan_rmc_time b = Some (int h, int m, int sc, point_text fr @ CHR '','' # status # r)"
    unfolding b by (rule scan_time [OF assms(1-3)])
  show ?thesis
  proof (cases fr)
    case None
    then show ?thesis using tm by (simp add: scan_rmc_point_def scan_rmc_plain_def scan_literal_def scan_c_def)
  next
    case (Some ds)
    then show ?thesis using tm fr [OF Some] by (simp add: scan_rmc_point_def scan_literal_def scan_c_def scan_fraction)
  qed
qed

lemma scan_body:
  assumes "rmc_ok talker (h, m, sc) fr status fs (d, mo, y) rest"
  defines "body \<equiv> rmc_body talker (h, m, sc) fr status fs (d, mo, y) rest"
  shows "(case scan_rmc_point body of Some t \<Rightarrow> Some t | None \<Rightarrow> scan_rmc_plain body) =
      Some (int h, int m, int sc, (case fr of None \<Rightarrow> 0 | Some ds \<Rightarrow> number 10 ds), status)"
    "after_commas 9 body = Some (two d @ two mo @ two y @ rest)"
proof -
  let ?t = "concat (map ((#) (CHR '','')) fs) @ CHR '','' # two d @ two mo @ two y @ rest"
  have lt: "h < 100" "m < 100" "sc < 100" "length fs = 6" "list_all (\<lambda>f. CHR '','' \<notin> set f) fs" "talker \<noteq> CHR '',''" "status \<noteq> CHR '',''"
    using assms(1) by (simp_all add: rmc_ok_def)
  have body: "body = CHR ''G'' # talker # ''RMC,'' @ two h @ two m @ two sc @ point_text fr @ CHR '','' # status # ?t"
    by (simp add: body_def rmc_body_def)
  have fr: "decimals ds \<and> length ds \<le> 9" if "fr = Some ds" for ds using assms(1) that by (simp add: rmc_ok_def)
  show "(case scan_rmc_point body of Some t \<Rightarrow> Some t | None \<Rightarrow> scan_rmc_plain body) =
      Some (int h, int m, int sc, (case fr of None \<Rightarrow> 0 | Some ds \<Rightarrow> number 10 ds), status)"
    by (rule scan_front [OF lt(1-3) fr body])
  have p: "CHR '','' \<notin> set (two h @ two m @ two sc @ point_text fr)"
  proof (cases fr)
    case (Some ds)
    have "digit_value CHR '','' = 36" by code_simp
    then have "\<not> digit_value CHR '','' < 10" by linarith
    moreover have "\<forall>c \<in> set ds. digit_value c < 10" using fr [OF Some] unfolding list_all_iff by blast
    ultimately have "CHR '','' \<notin> set ds" by blast
    then show ?thesis using Some two_plain lt(1-3) by simp
  qed (simp add: two_plain lt)
  let ?q = "two h @ two m @ two sc @ point_text fr"
  have g: "CHR '','' \<notin> set (CHR ''G'' # talker # ''RMC'')" and st: "CHR '','' \<notin> set [status]" using lt(6,7) by simp_all
  have b: "body = (CHR ''G'' # talker # ''RMC'') @ CHR '','' # ?q @ CHR '','' # [status] @ ?t" by (simp add: body)
  have "after_commas (Suc (Suc (Suc (length fs)))) body = Some (two d @ two mo @ two y @ rest)"
    unfolding b after_comma [OF g] after_comma [OF p] by (rule after_fields [OF lt(5) st])
  moreover have "Suc (Suc (Suc (length fs))) = 9" using lt(4) by simp
  ultimately show "after_commas 9 body = Some (two d @ two mo @ two y @ rest)" by (simp only:)
qed

lemma cstr_holding: "list_all printable tx \<Longrightarrow> cstr (sentence (holding tx a b st)) = tx"
proof -
  assume "list_all printable tx"
  then have "\<forall>c \<in> set tx. c \<noteq> CHR 0x00" by (auto simp: list_all_iff printable_def)
  moreover have "takeWhile (\<lambda>c. c \<noteq> CHR 0x00) (replicate n (CHR 0x00)) = []" for n by (cases n) simp_all
  ultimately show ?thesis by (simp add: cstr_def holding_def takeWhile_append)
qed

lemma checksum_holding:
  "scan_hhx 2 (cstr (payload_checksum (holding tx (HEX2 k ! 0) (HEX2 k ! 1) st))) = Some (k, [])" "nm_checksum (holding tx a b st) = xor_of tx"
proof -
  obtain x y where xy: "HEX2 k = [x, y]" by (simp add: HEX2_def)
  then show "scan_hhx 2 (cstr (payload_checksum (holding tx (HEX2 k ! 0) (HEX2 k ! 1) st))) = Some (k, [])"
    using scan_HEX2 [of k] by (auto simp: cstr_def)
qed (simp add: holding_def)

lemma scan_sentence:
  assumes "rmc_ok talker hms fr status fs dmy rest"
  defines "body \<equiv> rmc_body talker hms fr status fs dmy rest"
  shows "nmea_scan_rmc (holding body (HEX2 (xor_of body) ! 0) (HEX2 (xor_of body) ! 1) st) = Some (rmc_result hms fr status dmy)"
proof -
  obtain h m sc d mo y where hd: "hms = (h, m, sc)" "dmy = (d, mo, y)" by (metis prod_cases3)
  have ok: "rmc_ok talker (h, m, sc) fr status fs (d, mo, y) rest" using assms(1) by (simp add: hd)
  have pr: "list_all printable body" using assms(1) by (auto simp: rmc_ok_def body_def list_all_iff)
  have lt: "d < 100" "mo < 100" "y < 100" using ok by (simp_all add: rmc_ok_def)
  have ns: "sint (word_of_int (number 10 ds * 1000000) :: u64) = number 10 ds * 1000000" if "fr = Some ds" for ds
  proof -
    have ds: "decimals ds" "length ds \<le> 9" using ok that by (simp_all add: rmc_ok_def)
    have "10 ^ length ds \<le> (10 ^ 9 :: int)" using ds(2) by (intro power_increasing) simp_all
    then have "0 \<le> number 10 ds" "number 10 ds < 10 ^ 9" using number_bounds [OF ds(1)] by auto
    then show ?thesis unfolding signed_of_int by (simp add: signed_take_bit_int_eq_self)
  qed
  have b: "body = rmc_body talker (h, m, sc) fr status fs (d, mo, y) rest" by (simp add: body_def hd)
  show ?thesis
    unfolding nmea_scan_rmc_def checksum_holding cstr_holding [OF pr]
    using scan_body [OF ok, folded b] scan_twos [OF lt, of rest] ns
    by (cases fr) (simp_all add: rmc_result_def hd Let_def)
qed

lemma skip_idle:
  "CHR ''$'' \<notin> set junk \<Longrightarrow> nmea_parse (holding tx a b NMEA_IDLE) (junk @ r) =
    (case nmea_parse (holding tx a b NMEA_IDLE) r of (q, np, k) \<Rightarrow> (q, np, k + length junk))"
proof (induction junk)
  case (Cons c junk)
  then have "c \<noteq> CHR ''$''" by auto
  then have "nmea_parse_symbol (holding tx a b NMEA_IDLE) c = (False, holding tx a b NMEA_IDLE)" by (simp add: nmea_parse_symbol_def)
  then show ?case using Cons by (simp add: next_symbol split: prod.splits)
qed (simp split: prod.splits)

lemma body_shape:
  assumes "rmc_ok talker hms fr status fs dmy rest"
  obtains s where "rmc_body talker hms fr status fs dmy rest = CHR ''G'' # talker # CHR ''R'' # s" "CHR ''*'' \<notin> set s"
    "list_all printable (rmc_body talker hms fr status fs dmy rest)"
proof -
  have "\<exists>s. rmc_body talker hms fr status fs dmy rest = CHR ''G'' # talker # CHR ''R'' # s" by (simp add: rmc_body_def split: prod.split)
  then obtain s where s: "rmc_body talker hms fr status fs dmy rest = CHR ''G'' # talker # CHR ''R'' # s" ..
  show ?thesis
    using assms by (intro that [OF s]) (auto simp: rmc_ok_def list_all_iff s)
qed

text \<open>C33. A sentence is understood: after any characters without a dollar sign, a parser that has been reset takes from an RMC sentence of at
  most 256 characters with its checksum exactly the date and time of its text, and is reset again. The fraction of the second must
  be absent, zero, or of three digits; for others see below.\<close>

theorem nmea_sentence_understood:
  assumes "rmc_ok talker hms fr status fs dmy rest" "length (rmc_body talker hms fr status fs dmy rest) \<le> 256" "CHR ''$'' \<notin> set junk"
    and "milliseconds fr"
  shows "nmea_parse nmea_reset (junk @ nmea_text (rmc_body talker hms fr status fs dmy rest) @ buf) =
    (Some (rmc_meaning hms fr status dmy), nmea_reset, length junk + length (nmea_text (rmc_body talker hms fr status fs dmy rest)))"
proof -
  obtain s where s: "rmc_body talker hms fr status fs dmy rest = CHR ''G'' # talker # CHR ''R'' # s" "CHR ''*'' \<notin> set s"
    "list_all printable (rmc_body talker hms fr status fs dmy rest)" using body_shape [OF assms(1)] .
  show ?thesis
    using feed_sentence [OF s(1,3,2), of "[]"] skip_idle [OF assms(3), of "[]"] assms(2) scan_sentence [OF assms(1)] result_meaning [OF assms(4)]
    by (simp add: reset_holding)
qed

theorem nmea_sentence_understood_witness:
  "nmea_parse nmea_reset (''?'' @ nmea_text ''GPRMC,123519.500,A,4807.038,N,01131.000,E,022.4,084.4,230394,003.1,W'') =
    (Some \<lparr>rmc_sec = 3920186119, rmc_nsec = 500000000, fix_valid = True\<rparr>, nmea_reset,
     1 + length (nmea_text ''GPRMC,123519.500,A,4807.038,N,01131.000,E,022.4,084.4,230394,003.1,W''))"
proof -
  let ?fs = "[''4807.038'', ''N'', ''01131.000'', ''E'', ''022.4'', ''084.4'']"
  have b: "rmc_body CHR ''P'' (12, 35, 19) (Some ''500'') CHR ''A'' ?fs (23, 3, 94) '',003.1,W'' =
      ''GPRMC,123519.500,A,4807.038,N,01131.000,E,022.4,084.4,230394,003.1,W''" by code_simp
  have ok: "rmc_ok CHR ''P'' (12, 35, 19) (Some ''500'') CHR ''A'' ?fs (23, 3, 94) '',003.1,W''" by code_simp
  have f: "milliseconds (Some ''500'')" by code_simp
  have m: "rmc_meaning (12, 35, 19) (Some ''500'') CHR ''A'' (23, 3, 94) = \<lparr>rmc_sec = 3920186119, rmc_nsec = 500000000, fix_valid = True\<rparr>"
    by code_simp
  show ?thesis using nmea_sentence_understood [OF ok, of "''?''" "[]"] f unfolding b m by simp
qed

lemma xor_Cons: "xor_of (c # s) = of_char c XOR xor_of s"
proof -
  have L: "foldl (\<lambda>k c. k XOR of_char c) a s = a XOR foldl (\<lambda>k c. k XOR of_char c) 0 s" for a :: u8
  proof (induction s rule: rev_induct)
    case (snoc c s)
    show ?case by (simp only: foldl_append foldl.simps snoc xor.assoc)
  qed simp
  show ?thesis unfolding xor_of_def foldl.simps L [of "0 XOR of_char c"] by (simp only: xor.left_neutral)
qed

lemma spoiled_checksum:
  assumes "printable c"
  shows "nmea_scan_rmc (holding (c # body) (HEX2 (xor_of body) ! 0) (HEX2 (xor_of body) ! 1) st) = None"
proof -
  have "0 < (of_char c :: nat)" "(of_char c :: nat) < 256" using assms by (simp_all add: printable_def)
  moreover have "(of_char c :: u8) = of_nat (of_char c)" by (simp only: of_nat_of_char)
  then have "unat (of_char c :: u8) = take_bit 8 (of_char c)" by (simp only: unsigned_of_nat) simp
  ultimately have "unat (of_char c :: u8) \<noteq> 0" by (simp add: take_bit_nat_eq_self)
  moreover have "of_char c = (of_char c XOR xor_of body) XOR xor_of body" by (simp only: xor.assoc xor_self_eq xor.right_neutral)
  ultimately have "xor_of (c # body) \<noteq> xor_of body" using xor_Cons [of c body] by (metis xor_self_eq unsigned_0)
  then show ?thesis unfolding nmea_scan_rmc_def checksum_holding by simp
qed

text \<open>After a sentence that is too long the next one is lost: the reset at the 257th character still stores this character, so the
  text and the checksum of the following sentence begin with it, and however correct the sentence is, it is rejected.\<close>

theorem nmea_overlong_loses_next:
  assumes "rmc_ok talker hms fr status fs dmy rest" "length (rmc_body talker hms fr status fs dmy rest) \<le> 255"
    and "length long = 254" "list_all (\<lambda>c. printable c \<and> c \<noteq> CHR ''*'') (t # u # long)" "CHR ''$'' \<notin> set junk"
  shows "fst (nmea_parse nmea_reset (''$G'' @ t # u # long @ junk @ nmea_text (rmc_body talker hms fr status fs dmy rest))) = None"
proof -
  let ?b = "rmc_body talker hms fr status fs dmy rest"
  obtain s where s: "?b = CHR ''G'' # talker # CHR ''R'' # s" "CHR ''*'' \<notin> set s" "list_all printable ?b" using body_shape [OF assms(1)] .
  obtain f c where f: "long = f @ [c]" "length f = 253" using assms(3) by (cases long rule: rev_cases) auto
  have pr: "list_all (\<lambda>c. printable c \<and> c \<noteq> CHR ''*'') f" "printable c" "c \<noteq> CHR ''*''" "printable t" "printable u"
    using assms(4) by (simp_all add: f)
  have head: "nmea_parse nmea_reset (''$G'' @ t # u # z) =
      (case nmea_parse (holding (''G'' @ [t, u]) (CHR 0x00) (CHR 0x00) NMEA_HAVE_BODY) z of (q, np, k) \<Rightarrow> (q, np, k + 4))" for z
  proof -
    have "printable CHR ''G''" by code_simp
    then show ?thesis using pr(4,5)
      by (simp add: reset_holding next_symbol nmea_parse_symbol_def accumulate_holding split: prod.splits)
  qed
  have over: "nmea_parse (holding (''G'' @ [t, u] @ f) a b NMEA_HAVE_BODY) (c # z) =
      (case nmea_parse (holding [c] (CHR 0x00) (CHR 0x00) NMEA_IDLE) z of (q, np, k) \<Rightarrow> (q, np, k + 1))" for a b z
    using pr(2,3) f(2) by (simp add: next_symbol nmea_parse_symbol_def accumulate_holding)
  have "fst (nmea_parse (holding [c] (CHR 0x00) (CHR 0x00) NMEA_IDLE) (junk @ nmea_text ?b)) = None"
    using skip_idle [OF assms(5)] feed_sentence [OF s(1,3,2), of "[c]" _ _ "[]"] spoiled_checksum [OF pr(2)] assms(2)
    by (simp split: prod.splits)
  then obtain np k where "nmea_parse (holding [c] (CHR 0x00) (CHR 0x00) NMEA_IDLE) (junk @ nmea_text ?b) = (None, np, k)"
    by (metis prod.collapse)
  then show ?thesis
    using head over feed_body [OF pr(1), of "''G'' @ [t, u]"] f by simp
qed

abbreviation "sample_fields \<equiv> [''4807.038'', ''N'', ''01131.000'', ''E'', ''022.4'', ''084.4'']"

lemma sample_ok:
  "rmc_ok CHR ''P'' (12, 35, 19) (Some ''5'') CHR ''A'' sample_fields (23, 3, 94) '',003.1,W''"
  "length (rmc_body CHR ''P'' (12, 35, 19) (Some ''5'') CHR ''A'' sample_fields (23, 3, 94) '',003.1,W'') \<le> 255"
  by code_simp+

theorem nmea_overlong_loses_next_witness:
  "fst (nmea_parse nmea_reset (''$G'' @ CHR ''P'' # CHR ''X'' # replicate 254 (CHR ''7'') @ [] @
     nmea_text (rmc_body CHR ''P'' (12, 35, 19) (Some ''5'') CHR ''A'' sample_fields (23, 3, 94) '',003.1,W''))) = None"
proof (rule nmea_overlong_loses_next [OF sample_ok])
  have "printable CHR ''P''" "printable CHR ''X''" "printable CHR ''7''" by code_simp+
  then show "list_all (\<lambda>c. printable c \<and> c \<noteq> CHR ''*'') (CHR ''P'' # CHR ''X'' # replicate 254 (CHR ''7''))"
    by (simp add: list_all_iff)
qed simp_all

text \<open>The fraction of a second is taken for a number of milliseconds, whatever the number of its digits: the nanoseconds of the
  result are those of the sentence only when the fraction has three digits or is zero.\<close>

theorem nmea_fraction_digits:
  assumes "rmc_ok talker hms (Some ds) status fs dmy rest" "length (rmc_body talker hms (Some ds) status fs dmy rest) \<le> 256"
  shows "\<exists>rmc. fst (nmea_parse nmea_reset (nmea_text (rmc_body talker hms (Some ds) status fs dmy rest))) = Some rmc \<and>
    (rmc_nsec rmc = number 10 ds * 10 ^ (9 - length ds) \<longleftrightarrow> length ds = 3 \<or> number 10 ds = 0)"
proof -
  obtain s where s: "rmc_body talker hms (Some ds) status fs dmy rest = CHR ''G'' # talker # CHR ''R'' # s" "CHR ''*'' \<notin> set s"
    "list_all printable (rmc_body talker hms (Some ds) status fs dmy rest)" using body_shape [OF assms(1)] .
  have "length ds \<le> 9" using assms(1) by (simp add: rmc_ok_def)
  then have "9 - length ds = 6 \<longleftrightarrow> length ds = 3" by auto
  then have e: "number 10 ds * 1000000 = number 10 ds * 10 ^ (9 - length ds) \<longleftrightarrow> length ds = 3 \<or> number 10 ds = 0"
    using power_inject_exp [of "10 :: int" 6 "9 - length ds"] by auto
  show ?thesis
    using feed_sentence [OF s(1,3,2), of "[]" _ _ "[]"] assms(2) scan_sentence [OF assms(1)] e
    by (simp add: reset_holding rmc_result_def split: prod.splits)
qed

theorem nmea_fraction_digits_witness:
  "\<exists>rmc. fst (nmea_parse nmea_reset (nmea_text (rmc_body CHR ''P'' (12, 35, 19) (Some ''5'') CHR ''A'' sample_fields (23, 3, 94) '',003.1,W'')))
     = Some rmc \<and> rmc_nsec rmc \<noteq> 500000000"
proof -
  have "length (rmc_body CHR ''P'' (12, 35, 19) (Some ''5'') CHR ''A'' sample_fields (23, 3, 94) '',003.1,W'') \<le> 256"
    using sample_ok(2) by linarith
  moreover have "number 10 ''5'' = 5" by code_simp
  ultimately show ?thesis using nmea_fraction_digits [OF sample_ok(1)] by auto
qed

text \<open>C34. No stream of octets makes the parser write outside its arrays or lose the final zero of its text, and the cutting of the
  stream into buffers does not matter: a time that is found is found in the longer buffer, and when none is found, parsing goes on in
  the next buffer as if there had been one.\<close>

theorem nmea_stream_safe:
  assumes "nmea_inv np"
  shows "length (sentence np) = 257 \<and> sentence np ! 256 = CHR 0x00 \<and> nm_offset np \<le> 256 \<and>
    (case nmea_parse np buf of
       (Some rmc, np', n) \<Rightarrow> np' = nmea_reset \<and> n \<le> length buf \<and> nmea_parse np (buf @ buf') = (Some rmc, np', n)
     | (None, np', n) \<Rightarrow> nmea_inv np' \<and> n = length buf \<and>
         nmea_parse np (buf @ buf') = (case nmea_parse np' buf' of (r, np'', k) \<Rightarrow> (r, np'', n + k)))"
proof -
  obtain tx a b st where np: "np = holding tx a b st" "length tx \<le> 256" using assms unfolding nmea_inv_def by blast
  obtain r np' n where r: "nmea_parse np buf = (r, np', n)" by (metis prod_cases3)
  have "length (sentence np) = 257 \<and> sentence np ! 256 = CHR 0x00 \<and> nm_offset np \<le> 256"
    using np by (simp add: holding_def nth_append)
  moreover have "np' = nmea_reset \<and> n \<le> length buf \<and> nmea_parse np (buf @ buf') = (Some rmc, np', n)" if "r = Some rmc" for rmc
    using parse_found [OF r [unfolded that]] parse_count [OF r] by blast
  ultimately show ?thesis
    using r parse_inv [OF assms, of buf] parse_count [OF r] parse_append [of np buf np' n buf'] by (cases r) auto
qed

theorem nmea_stream_safe_witness: "sentence nmea_reset ! 256 = CHR 0x00 \<and> nmea_inv (fst (snd (nmea_parse nmea_reset ''$GP'')))"
  using nmea_stream_safe [OF reset_inv, of "''$GP''" "[]"]
  by (auto simp: next_symbol nmea_parse_symbol_def nmea_reset_def nmea_accumulate_def)

end
