(* ===== verification/Sad.thy ===== *)
theory Sad
  imports Msg_Safety Util
begin

text \<open>
  \<open>sad.c\<close>: security associations, and the authentication of messages by them. A message carries authentication TLVs, each with an
  integrity check value (ICV) over all octets before it. The cryptographic library is an argument (\<open>sad_nettle.c\<close> is the binding that is
  modelled): a table of named algorithms, each a function from key and data to a digest. Messages are those of \<open>Msg\<close>; \<open>None\<close> is an
  access outside of a message.
\<close>

unbundle bit_operations_syntax

section \<open>The cryptographic library\<close>

datatype integrity_alg_type = MAC_INVALID | HMAC_SHA256_128 | HMAC_SHA256 | CMAC_AES128 | CMAC_AES256

abbreviation "MAX_DIGEST_LENGTH \<equiv> 32 :: nat"

record nettle_mac =
  digest_size :: nat
  key_size :: nat
  mac_fun :: "u8 list \<Rightarrow> u8 list \<Rightarrow> u8 list"

record mac_data =
  md_mac :: nettle_mac
  md_key :: "u8 list"

definition mac_name :: "integrity_alg_type \<Rightarrow> string option" where
  "mac_name algorithm =
    (case algorithm of
       HMAC_SHA256_128 \<Rightarrow> Some ''hmac_sha256''
     | HMAC_SHA256 \<Rightarrow> Some ''hmac_sha256''
     | CMAC_AES128 \<Rightarrow> Some ''cmac_aes128''
     | CMAC_AES256 \<Rightarrow> Some ''cmac_aes256''
     | MAC_INVALID \<Rightarrow> None)"

text \<open>\<open>macs\<close> finds a usable algorithm of the library by its name; \<open>mem\<close> tells whether memory can be had.\<close>

definition sad_init_mac :: "(string \<Rightarrow> nettle_mac option) \<Rightarrow> bool \<Rightarrow> integrity_alg_type \<Rightarrow> u8 list \<Rightarrow> mac_data option" where
  "sad_init_mac macs mem algorithm key =
    (if key = [] then None
     else case mac_name algorithm of
       None \<Rightarrow> None
     | Some name \<Rightarrow>
         (case macs name of
            None \<Rightarrow> None
          | Some mac_algorithm \<Rightarrow>
              if algorithm \<in> {CMAC_AES128, CMAC_AES256} \<and> length key \<noteq> key_size mac_algorithm then None
              else if \<not> mem then None
              else Some \<lparr>md_mac = mac_algorithm, md_key = key\<rparr>))"

text \<open>The result is the number returned, which is zero for an error, and the digest.\<close>

definition sad_hash :: "mac_data \<Rightarrow> u8 list \<Rightarrow> nat \<Rightarrow> nat \<times> u8 list" where
  "sad_hash mac_data data mac_len =
    (if digest_size (md_mac mac_data) < mac_len then (0, [])
     else if MAX_DIGEST_LENGTH < mac_len then (0, [])
     else (mac_len, take mac_len (mac_fun (md_mac mac_data) (md_key mac_data) data)))"

definition sad_verify :: "mac_data \<Rightarrow> u8 list \<Rightarrow> u8 list \<Rightarrow> nat \<Rightarrow> int" where
  "sad_verify mac_data data mac mac_len =
    (let (n, digest_buf) = sad_hash mac_data data mac_len in if n = 0 then - 1 else if digest_buf = mac then 0 else 1)"

section \<open>Associations\<close>

record integrity_alg_info =
  alg_label :: string
  alg_type :: integrity_alg_type
  alg_key_len :: nat
  alg_digest_len :: nat

definition supported_algorithms :: "integrity_alg_info list" where
  "supported_algorithms =
    [\<lparr>alg_label = ''SHA256-128'', alg_type = HMAC_SHA256_128, alg_key_len = 0, alg_digest_len = 16\<rparr>,
     \<lparr>alg_label = ''SHA256'', alg_type = HMAC_SHA256, alg_key_len = 0, alg_digest_len = 32\<rparr>,
     \<lparr>alg_label = ''AES128'', alg_type = CMAC_AES128, alg_key_len = 16, alg_digest_len = 16\<rparr>,
     \<lparr>alg_label = ''AES256'', alg_type = CMAC_AES256, alg_key_len = 32, alg_digest_len = 16\<rparr>]"

record security_association_key =
  k_icv :: integrity_alg_info
  k_data :: mac_data
  k_id :: u32

text \<open>An association with the address of its object.\<close>

record security_association =
  sa_addr :: nat
  sa_spp :: u8
  sa_keys :: "security_association_key list"
  seqnum_ind :: bool
  seqnum_len :: u16
  seqid_window :: u16
  immediate_ind :: bool
  res_ind :: bool
  res_len :: u16
  sa_mutable :: bool
  last_seqid :: int

definition sad_get_association :: "security_association list \<Rightarrow> int \<Rightarrow> security_association option" where
  "sad_get_association sad spp = find (\<lambda>sa. uint (sa_spp sa) = spp) sad"

definition sad_get_key :: "security_association \<Rightarrow> nat \<Rightarrow> security_association_key option" where
  "sad_get_key sa key_id =
    (if key_id < 1 \<or> 2 ^ 32 - 1 < int key_id then None else find (\<lambda>key. unat (k_id key) = key_id) (sa_keys sa))"

definition sad_get_auth_tlv_len :: "security_association \<Rightarrow> nat \<Rightarrow> nat" where
  "sad_get_auth_tlv_len sa icv_len =
    sizeof authentication_tlv_layout + (if res_ind sa then unat (res_len sa) else 0)
    + (if seqnum_ind sa then unat (seqnum_len sa) else 0) + icv_len"

text \<open>The sequence number of the last Sync is kept in the first association with the index.\<close>

fun update_first :: "('a \<Rightarrow> bool) \<Rightarrow> ('a \<Rightarrow> 'a) \<Rightarrow> 'a list \<Rightarrow> 'a list" where
  "update_first P f [] = []"
| "update_first P f (x # xs) = (if P x then f x # xs else x # update_first P f xs)"

definition sad_set_last_seqid :: "security_association list \<Rightarrow> int \<Rightarrow> int \<Rightarrow> security_association list" where
  "sad_set_last_seqid sad spp seqid =
    (if spp < 0 then sad
     else update_first (\<lambda>sa. uint (sa_spp sa) = spp)
       (\<lambda>sa. sa\<lparr>last_seqid := (if seqid = - 1 then seqid else uint (word_of_int seqid :: u16))\<rparr>) sad)"

section \<open>Octets of a message\<close>

text \<open>A field of \<open>w\<close> octets as the little-endian host reads it, and octets written to a message.\<close>

definition rd_host :: "buf \<Rightarrow> nat \<Rightarrow> nat \<Rightarrow> nat option" where
  "rd_host b i w = (if i + w \<le> length b then Some (foldr (\<lambda>x a. a * 256 + unat x) (take w (drop i b)) 0) else None)"

definition poke :: "nat \<Rightarrow> u8 list \<Rightarrow> buf \<Rightarrow> buf option" where
  "poke i xs b = (if i + length xs \<le> length b then Some (overlay b i xs) else None)"

fun host_bytes :: "nat \<Rightarrow> nat \<Rightarrow> u8 list" where
  "host_bytes 0 v = []"
| "host_bytes (Suc w) v = of_nat (v mod 256) # host_bytes w (v div 256)"

definition octets :: "nat \<Rightarrow> nat \<Rightarrow> buf \<Rightarrow> u8 list option" where
  "octets i n b = (if i + n \<le> length b then Some (take n (drop i b)) else None)"

abbreviation "correction_at \<equiv> offsetof ptp_header_layout ''correction''"
abbreviation "no_correction \<equiv> replicate 8 0 :: u8 list"

section \<open>Outbound messages\<close>

text \<open>The ICV is written behind the \<open>icv\<close> octets that it covers; the result is the number of its octets.\<close>

definition sad_generate_icv :: "security_association \<Rightarrow> security_association_key \<Rightarrow> buf \<Rightarrow> nat \<Rightarrow> (nat \<times> buf) option" where
  "sad_generate_icv sa key b icv = do {
     correction \<leftarrow> octets correction_at 8 b;
     let restore = (sa_mutable sa \<and> correction \<noteq> no_correction);
     b \<leftarrow> (if restore then poke correction_at no_correction b else Some b);
     data \<leftarrow> octets 0 icv b;
     let (icv_len, digest) = sad_hash (k_data key) data (alg_digest_len (k_icv key));
     b \<leftarrow> poke icv digest b;
     b \<leftarrow> (if restore then poke correction_at correction b else Some b);
     Some (icv_len, b) }"

text \<open>The indicators of a TLV against those of the association.\<close>

definition sec_param_mismatch :: "security_association \<Rightarrow> u8 \<Rightarrow> bool" where
  "sec_param_mismatch sa ind \<longleftrightarrow>
    res_ind sa \<noteq> (ind AND 1 \<noteq> 0) \<or> seqnum_ind sa \<noteq> (ind AND 2 \<noteq> 0) \<or> immediate_ind sa = (ind AND 4 \<noteq> 0)"

abbreviation "auth_field \<equiv> fld authentication_tlv_layout"
abbreviation "auth_offset \<equiv> offsetof authentication_tlv_layout"

text \<open>Where the ICV of a TLV is.\<close>

definition icv_of :: "security_association \<Rightarrow> nat \<Rightarrow> nat" where
  "icv_of sa tlv =
    tlv + sizeof authentication_tlv_layout + (if seqnum_ind sa then unat (seqnum_len sa) else 0) + (if res_ind sa then unat (res_len sa) else 0)"

text \<open>The message is in network byte order. The result is the return value and the message.\<close>

fun sad_update_auth_tlv :: "security_association list \<Rightarrow> tlv_extra list \<Rightarrow> buf \<Rightarrow> (int \<times> buf) option" where
  "sad_update_auth_tlv sad [] b = Some (0, b)"
| "sad_update_auth_tlv sad (extra # l) b = do {
     let auth = te_tlv extra;
     ty \<leftarrow> rd_net b (auth_field ''type'') auth;
     if ty \<noteq> unat TLV_AUTHENTICATION then sad_update_auth_tlv sad l b
     else do {
       spp \<leftarrow> rd8 b (auth + auth_offset ''spp'');
       case sad_get_association sad (uint spp) of
         None \<Rightarrow> Some (- 1, b)
       | Some sa \<Rightarrow> do {
           ind \<leftarrow> rd8 b (auth + auth_offset ''secParamIndicator'');
           if sec_param_mismatch sa ind then Some (- 1, b)
           else do {
             keyID \<leftarrow> rd_net b (auth_field ''keyID'') auth;
             case sad_get_key sa keyID of
               None \<Rightarrow> Some (- 1, b)
             | Some key \<Rightarrow> do {
                 len \<leftarrow> rd_net b (auth_field ''length'') auth;
                 if len \<noteq> sad_get_auth_tlv_len sa (alg_digest_len (k_icv key)) - 4 then Some (- 1, b)
                 else do {
                   (n, b) \<leftarrow> sad_generate_icv sa key b (icv_of sa auth);
                   if n = 0 then Some (- 1, b) else sad_update_auth_tlv sad l b
                 }
               }
           }
         }
     }
   }"

text \<open>\<open>now\<close> and \<open>mem\<close> are the clock and the descriptors that \<open>msg_pre_send\<close> and \<open>msg_tlv_append\<close> need.\<close>

definition sad_append_auth_tlv ::
  "timespec \<Rightarrow> nat \<Rightarrow> security_association list \<Rightarrow> int \<Rightarrow> nat \<Rightarrow> ptp_message \<Rightarrow> (int \<times> ptp_message) option" where
  "sad_append_auth_tlv now mem sad spp key_id msg =
    (if spp < 0 \<or> key_id < 1 then Some (- 1, msg)
     else case sad_get_association sad spp of
       None \<Rightarrow> Some (- 1, msg)
     | Some sa \<Rightarrow>
         (case sad_get_key sa key_id of
            None \<Rightarrow> Some (- 1, msg)
          | Some key \<Rightarrow> do {
              let len = sad_get_auth_tlv_len sa (alg_digest_len (k_icv key));
              (r, msg) \<leftarrow> msg_tlv_append mem msg (int len);
              case r of
                None \<Rightarrow> Some (- 1, msg)
              | Some extra \<Rightarrow> do {
                  let auth = te_tlv extra;
                  let ind = (if res_ind sa then 1 else 0) + (if seqnum_ind sa then 2 else 0);
                  b \<leftarrow> poke (auth + auth_offset ''type'') (host_bytes 2 (unat TLV_AUTHENTICATION)) (m_buf msg);
                  b \<leftarrow> poke (auth + auth_offset ''length'') (host_bytes 2 (len - 4)) b;
                  b \<leftarrow> poke (auth + auth_offset ''spp'') [sa_spp sa] b;
                  b \<leftarrow> poke (auth + auth_offset ''secParamIndicator'') [ind] b;
                  b \<leftarrow> poke (auth + auth_offset ''keyID'') (host_bytes 4 (unat (k_id key))) b;
                  (err, msg) \<leftarrow> msg_pre_send now (msg\<lparr>m_buf := b\<rparr>);
                  if err \<noteq> 0 then Some (- 1, msg)
                  else do {
                    (n, b) \<leftarrow> sad_generate_icv sa key (m_buf msg) (icv_of sa auth);
                    Some (if n = 0 then - 1 else 0, msg\<lparr>m_buf := b\<rparr>)
                  }
                }
            }))"

section \<open>Inbound messages\<close>

definition sad_check_seqid :: "u8 \<Rightarrow> u16 \<Rightarrow> int \<Rightarrow> u16 \<Rightarrow> errno option" where
  "sad_check_seqid ty new_seqid last_id window =
    (if window < 1 then None
     else if ty = SYNC \<or> ty = FOLLOW_UP then
       if last_id < 0 then None
       else if new_seqid < word_of_int (last_id + 1) \<and>
          new_seqid + window < word_of_int (last_id + 1 + uint window) then Some EBADMSG
       else if word_of_int (last_id + uint window) < new_seqid \<and>
          word_of_int (last_id + 2 * uint window) < new_seqid + window then Some EBADMSG
       else None
     else None)"

text \<open>The loop over the TLVs: \<open>err\<close>, the number of TLVs and the type of the last one are carried along. \<open>b\<close> is the message as it was
  converted, \<open>raw\<close> as it was received. The result is the error and the raw message.\<close>

fun check_auth_loop ::
  "security_association \<Rightarrow> buf \<Rightarrow> errno option \<Rightarrow> nat \<Rightarrow> u16 \<Rightarrow> tlv_extra list \<Rightarrow> buf \<Rightarrow> (errno option \<times> buf) option" where
  "check_auth_loop sa b err tlv_count last_tlv [] raw =
    Some (if tlv_count = 0 then Some EBADMSG else if last_tlv \<noteq> TLV_AUTHENTICATION then Some EBADMSG else err, raw)"
| "check_auth_loop sa b err tlv_count last_tlv (extra # l) raw = do {
     let auth = te_tlv extra;
     ty \<leftarrow> rd16 b (auth + auth_offset ''type'');
     if ty \<noteq> TLV_AUTHENTICATION then check_auth_loop sa b err (tlv_count + 1) ty l raw
     else do {
       spp \<leftarrow> rd8 b (auth + auth_offset ''spp'');
       if sa_spp sa \<noteq> spp then Some (Some EBADMSG, raw)
       else do {
         ind \<leftarrow> rd8 b (auth + auth_offset ''secParamIndicator'');
         if sec_param_mismatch sa ind then Some (Some EBADMSG, raw)
         else do {
           keyID \<leftarrow> rd_host b (auth + auth_offset ''keyID'') 4;
           case sad_get_key sa keyID of
             None \<Rightarrow> Some (Some EBADMSG, raw)
           | Some key \<Rightarrow> do {
               len \<leftarrow> rd16 b (auth + auth_offset ''length'');
               if unat len \<noteq> sad_get_auth_tlv_len sa (alg_digest_len (k_icv key)) - 4 then Some (Some EBADMSG, raw)
               else do {
                 raw \<leftarrow> (if sa_mutable sa then poke correction_at no_correction raw else Some raw);
                 let icv = auth + sad_get_auth_tlv_len sa 0;
                 data \<leftarrow> octets 0 icv raw;
                 mac \<leftarrow> octets icv (alg_digest_len (k_icv key)) b;
                 if sad_verify (k_data key) data mac (alg_digest_len (k_icv key)) \<noteq> 0 then Some (Some EBADMSG, raw)
                 else check_auth_loop sa b None (tlv_count + 1) ty l raw
               }
             }
         }
       }
     }
   }"

definition sad_check_auth_tlv :: "security_association \<Rightarrow> ptp_message \<Rightarrow> buf \<Rightarrow> (errno option \<times> buf) option" where
  "sad_check_auth_tlv sa msg raw = check_auth_loop sa (m_buf msg) (Some EPROTO) 0 0 (m_tlv_list msg) raw"

definition sad_process_auth :: "security_association list \<Rightarrow> int \<Rightarrow> ptp_message \<Rightarrow> buf \<Rightarrow> (errno option \<times> buf) option" where
  "sad_process_auth sad spp msg raw =
    (if spp < 0 then Some (None, raw)
     else case sad_get_association sad spp of
       None \<Rightarrow> Some (Some EPROTO, raw)
     | Some sa \<Rightarrow> do {
         ty \<leftarrow> msg_type (m_buf msg);
         seqid \<leftarrow> rd16 (m_buf msg) (offsetof ptp_header_layout ''sequenceId'');
         case sad_check_seqid ty seqid (last_seqid sa) (seqid_window sa) of
           Some err \<Rightarrow> Some (Some err, raw)
         | None \<Rightarrow> sad_check_auth_tlv sa msg raw })"

end
