(* ===== verification/Sad_Config.thy ===== *)
theory Sad_Config
  imports Sad Config
begin

text \<open>
  The file of security associations (\<open>sad_create\<close> of \<open>sad.c\<close>). The database keeps the associations in their order and, with an
  address each, the pointer \<open>current_sa\<close>, which is a static variable and outlives the associations. Addresses of new associations are
  counted up. \<open>None\<close> is a use of an association that has been freed.
\<close>

record sadb =
  associations :: "security_association list"
  current_sa :: "nat option"
  next_addr :: nat

type_synonym sad_result = "(int \<times> sadb) option"

definition sad_destroy :: "sadb \<Rightarrow> sadb" where
  "sad_destroy db = db\<lparr>associations := []\<rparr>"

section \<open>Settings\<close>

definition sad_config_switch_security_association :: "bool \<Rightarrow> sadb \<Rightarrow> int \<Rightarrow> int \<times> sadb" where
  "sad_config_switch_security_association mem db spp =
    (let db = db\<lparr>current_sa := None\<rparr> in
     if spp < 0 \<or> 255 < spp then (- 1, db)
     else if list_ex (\<lambda>sa. uint (sa_spp sa) = spp) (associations db) then (- 1, db)
     else if \<not> mem then (- 1, db)
     else let sa = \<lparr>sa_addr = next_addr db, sa_spp = word_of_int spp, sa_keys = [], seqnum_ind = False, seqnum_len = 0, seqid_window = 3,
                immediate_ind = True, res_ind = False, res_len = 0, sa_mutable = False, last_seqid = - 1\<rparr>
       in (0, db\<lparr>associations := associations db @ [sa], current_sa := Some (next_addr db), next_addr := next_addr db + 1\<rparr>))"

text \<open>The association that \<open>current_sa\<close> points to, for a setting of it.\<close>

definition with_current :: "sadb \<Rightarrow> (security_association \<Rightarrow> sad_result) \<Rightarrow> sad_result" where
  "with_current db f =
    (case current_sa db of
       None \<Rightarrow> Some (- 1, db)
     | Some a \<Rightarrow> (case find (\<lambda>sa. sa_addr sa = a) (associations db) of None \<Rightarrow> None | Some sa \<Rightarrow> f sa))"

definition put_sa :: "sadb \<Rightarrow> security_association \<Rightarrow> sadb" where
  "put_sa db sa = db\<lparr>associations := map (\<lambda>x. if sa_addr x = sa_addr sa then sa else x) (associations db)\<rparr>"

definition sad_config_sa_seqnum_len :: "sadb \<Rightarrow> int \<Rightarrow> sad_result" where
  "sad_config_sa_seqnum_len db v =
    with_current db (\<lambda>sa. if 0 < v then Some (- 1, db)
      else Some (0, put_sa db (sa\<lparr>seqnum_ind := 0 < v, seqnum_len := (if 0 < v then word_of_int v else 0)\<rparr>)))"

definition sad_config_sa_seqid_window :: "sadb \<Rightarrow> int \<Rightarrow> sad_result" where
  "sad_config_sa_seqid_window db v =
    with_current db (\<lambda>sa. if v < 0 \<or> 32767 < v then Some (- 1, db)
      else Some (0, put_sa db (sa\<lparr>seqid_window := (if 0 < v then word_of_int v else 0)\<rparr>)))"

definition sad_config_sa_res_len :: "sadb \<Rightarrow> int \<Rightarrow> sad_result" where
  "sad_config_sa_res_len db v =
    with_current db (\<lambda>sa. if 0 < v then Some (- 1, db)
      else Some (0, put_sa db (sa\<lparr>res_ind := 0 < v, res_len := (if 0 < v then word_of_int v else 0)\<rparr>)))"

definition sad_config_sa_mutable :: "sadb \<Rightarrow> int \<Rightarrow> sad_result" where
  "sad_config_sa_mutable db v =
    with_current db (\<lambda>sa. if v < 0 \<or> 1 < v then Some (- 1, db) else Some (0, put_sa db (sa\<lparr>sa_mutable := 0 < v\<rparr>)))"

section \<open>Keys\<close>

definition is_delim :: "char \<Rightarrow> bool" where
  "is_delim c \<longleftrightarrow> c = CHR '' '' \<or> c = CHR 0x09"

text \<open>The first \<open>n\<close> tokens that \<open>strtok\<close> yields.\<close>

primrec strtok :: "nat \<Rightarrow> string \<Rightarrow> string list" where
  "strtok 0 s = []"
| "strtok (Suc n) s =
    (let r = dropWhile is_delim s
     in if r = [] then [] else takeWhile (\<lambda>c. \<not> is_delim c) r # strtok n (dropWhile (\<lambda>c. \<not> is_delim c) r))"

definition scan_zu :: "string \<Rightarrow> nat option" where
  "scan_zu s = map_option (nat \<circ> fst) (strtoul 10 s)"

text \<open>Identifier, type, length and text of a key; \<open>None\<close> for a line that is ignored.\<close>

definition sad_config_parse_key :: "string \<Rightarrow> (nat \<times> string \<times> nat \<times> string) option" where
  "sad_config_parse_key line =
    (case strtok 5 line of
       [a, b, c] \<Rightarrow> (case scan_zu a of None \<Rightarrow> None | Some k \<Rightarrow> Some (k, b, 0, c))
     | [a, b, c, d] \<Rightarrow>
         (case scan_zu a of
            None \<Rightarrow> None
          | Some k \<Rightarrow> (case scan_zu c of None \<Rightarrow> None | Some len \<Rightarrow> Some (k, b, len, d)))
     | _ \<Rightarrow> None)"

text \<open>\<open>strtol\<close> with base 16 on two characters, and the octet that is stored.\<close>

definition hex_octet :: "char \<Rightarrow> char \<Rightarrow> u8" where
  "hex_octet a b = (case strtol 16 (cstr [a, b]) of None \<Rightarrow> 0 | Some (v, _) \<Rightarrow> word_of_int v)"

fun hex_octets :: "string \<Rightarrow> u8 list" where
  "hex_octets (a # b # s) = hex_octet a b # hex_octets s"
| "hex_octets _ = []"

text \<open>The octets of a key, or \<open>None\<close> when its text is refused. The decoder of base 64 works in the text of the key.\<close>

definition key_octets :: "string \<Rightarrow> u8 list option" where
  "key_octets key_str =
    (if take 6 key_str = ''ASCII:'' then Some (map of_char (drop 6 key_str))
     else if take 4 key_str = ''HEX:'' then
       (let s = drop 4 key_str in if odd (length s) then None else Some (hex_octets s))
     else if take 4 key_str = ''B64:'' then
       (let m = map of_char key_str; len = length m in
        if len = 4 then Some []
        else case base64_decode m 4 (len - 4) 0 len of None \<Rightarrow> None | Some (m, n) \<Rightarrow> Some (take n m))
     else Some (map of_char key_str))"

text \<open>\<open>mem\<close> tells whether the key and then its state can be allocated.\<close>

definition sad_config_security_association_key ::
  "(string \<Rightarrow> nettle_mac option) \<Rightarrow> bool \<times> bool \<Rightarrow> sadb \<Rightarrow> nat \<Rightarrow> string \<Rightarrow> nat \<Rightarrow> string \<Rightarrow> sad_result" where
  "sad_config_security_association_key macs mem db key_id icv_str spec_len key_str =
    with_current db (\<lambda>sa.
      if key_id < 1 \<or> 2 ^ 32 - 1 < int key_id then Some (- 1, db)
      else if list_ex (\<lambda>key. unat (k_id key) = key_id) (sa_keys sa) then Some (- 1, db)
      else if \<not> fst mem then Some (- 1, db)
      else case find (\<lambda>icv. strcaseeq (alg_label icv) icv_str) supported_algorithms of
        None \<Rightarrow> Some (- 1, db)
      | Some icv \<Rightarrow>
          (case key_octets key_str of
             None \<Rightarrow> Some (- 1, db)
           | Some key \<Rightarrow>
               if 0 < spec_len \<and> length key \<noteq> spec_len then Some (- 1, db)
               else if 0 < alg_key_len icv \<and> length key \<noteq> alg_key_len icv then Some (- 1, db)
               else if length key < 1 then Some (- 1, db)
               else if MAX_DIGEST_LENGTH < alg_digest_len icv \<or> alg_digest_len icv < 2 \<or> odd (alg_digest_len icv) then Some (- 1, db)
               else case sad_init_mac macs (snd mem) (alg_type icv) key of
                 None \<Rightarrow> Some (- 1, db)
               | Some data \<Rightarrow>
                   Some (0, put_sa db (sa\<lparr>sa_keys := sa_keys sa @ [\<lparr>k_icv = icv, k_data = data, k_id = of_nat key_id\<rparr>]\<rparr>))))"

section \<open>The file\<close>

text \<open>The format \<open> name %d\<close>.\<close>

definition scan_setting :: "string \<Rightarrow> string \<Rightarrow> int option" where
  "scan_setting name line =
    (case scan_literal name (skip_space line) of None \<Rightarrow> None | Some r \<Rightarrow> map_option fst (scan_d (skip_space r)))"

definition sad_parse_security_association_line ::
  "(string \<Rightarrow> nettle_mac option) \<Rightarrow> bool \<times> bool \<Rightarrow> sadb \<Rightarrow> string \<Rightarrow> sad_result" where
  "sad_parse_security_association_line macs mem db line =
    (case scan_setting ''spp'' line of
       Some v \<Rightarrow> Some (sad_config_switch_security_association (fst mem) db v)
     | None \<Rightarrow>
     (case scan_setting ''seqnum_length'' line of
       Some v \<Rightarrow> sad_config_sa_seqnum_len db v
     | None \<Rightarrow>
     (case scan_setting ''seqid_window'' line of
       Some v \<Rightarrow> sad_config_sa_seqid_window db v
     | None \<Rightarrow>
     (case scan_setting ''res_length'' line of
       Some v \<Rightarrow> sad_config_sa_res_len db v
     | None \<Rightarrow>
     (case scan_setting ''allow_mutable'' line of
       Some v \<Rightarrow> sad_config_sa_mutable db v
     | None \<Rightarrow>
     (case sad_config_parse_key line of
       Some (key_id, key_type, key_len, key_value) \<Rightarrow>
         sad_config_security_association_key macs mem db key_id key_type key_len key_value
     | None \<Rightarrow> Some (0, db)))))))"

text \<open>One line: a failure discards the current association.\<close>

definition sad_line :: "(string \<Rightarrow> nettle_mac option) \<Rightarrow> bool \<times> bool \<Rightarrow> sadb \<Rightarrow> string \<Rightarrow> sadb option" where
  "sad_line macs mem db buf =
    (case trim_line buf of
       None \<Rightarrow> Some db
     | Some line \<Rightarrow>
         if strcaseeq line ''[security_association]'' then Some (db\<lparr>current_sa := None\<rparr>)
         else case sad_parse_security_association_line macs mem db line of
           None \<Rightarrow> None
         | Some (err, db) \<Rightarrow>
             if err = 0 then Some db
             else case current_sa db of
               None \<Rightarrow> Some db
             | Some a \<Rightarrow>
                 if \<not> list_ex (\<lambda>sa. sa_addr sa = a) (associations db) then None
                 else Some (db\<lparr>associations := filter (\<lambda>sa. sa_addr sa \<noteq> a) (associations db), current_sa := None\<rparr>))"

text \<open>\<open>mem\<close> answers the allocations of each line.\<close>

function sad_lines :: "(string \<Rightarrow> nettle_mac option) \<Rightarrow> (nat \<Rightarrow> bool \<times> bool) \<Rightarrow> nat \<Rightarrow> sadb \<Rightarrow> string \<Rightarrow> sadb option" where
  "sad_lines macs mem n db tx =
    (if tx = [] then Some db
     else case sad_line macs (mem n) db (fst (fgets 1024 tx)) of
       None \<Rightarrow> None
     | Some db \<Rightarrow> sad_lines macs mem (n + 1) db (snd (fgets 1024 tx)))"
  by pat_completeness auto
termination by (relation "measure (\<lambda>(macs, m, n, db, tx). length tx)") (auto simp: fgets_def Let_def)

declare sad_lines.simps [simp del]

text \<open>\<open>sa_file\<close> is the option of this name, \<open>opened\<close> the text of the file.\<close>

definition sad_create ::
  "(string \<Rightarrow> nettle_mac option) \<Rightarrow> (nat \<Rightarrow> bool \<times> bool) \<Rightarrow> string option \<Rightarrow> string option \<Rightarrow> sadb \<Rightarrow> sad_result" where
  "sad_create macs mem sa_file opened db =
    (if sa_file = None \<or> sa_file = Some [] then Some (0, db)
     else case opened of
       None \<Rightarrow> Some (- 1, db)
     | Some tx \<Rightarrow> map_option (\<lambda>db. (0, db)) (sad_lines macs mem 1 (sad_destroy db) tx))"

definition sad_readiness_check :: "int \<Rightarrow> nat \<Rightarrow> string option \<Rightarrow> security_association list \<Rightarrow> int" where
  "sad_readiness_check spp active_key_id sa_file sad =
    (if spp < 0 \<and> active_key_id < 1 then 0
     else if 0 \<le> spp then
       (if sa_file = None then - 1
        else if sad = [] then - 1
        else case sad_get_association sad spp of
          None \<Rightarrow> - 1
        | Some sa \<Rightarrow> if active_key_id < 1 then - 1 else if sad_get_key sa active_key_id = None then - 1 else 0)
     else if 0 < active_key_id then - 1 else 0)"

end
