(* ===== verification/Sad_Props.thy ===== *)
theory Sad_Props
  imports Sad
begin

text \<open>
  What \<open>sad.c\<close> guarantees: which messages are accepted, that octets which were signed verify, and what the window of sequence numbers
  lets through.
\<close>

unbundle bit_operations_syntax

section \<open>The window of sequence numbers\<close>

lemma mod16_cases:
  fixes x :: int
  assumes "0 \<le> x" "x < 3 * 65536"
  shows "x mod 65536 = (if x < 65536 then x else if x < 2 * 65536 then x - 65536 else x - 2 * 65536)"
proof -
  have "(x - 65536) mod 65536 = x mod 65536" "(x - 2 * 65536) mod 65536 = x mod 65536"
    using mod_mult_self1 [of x "- 2" 65536] by simp_all
  moreover have "(x - 65536) mod 65536 = x - 65536" if "\<not> x < 65536" "x < 2 * 65536"
    using that by (intro mod_pos_pos_trivial) simp_all
  moreover have "(x - 2 * 65536) mod 65536 = x - 2 * 65536" if "\<not> x < 2 * 65536"
    using that assms(2) by (intro mod_pos_pos_trivial) simp_all
  ultimately show ?thesis using assms(1) mod_pos_pos_trivial [of x 65536] by (simp only: split: if_split) blast
qed

lemma uint16_of_int: "uint (word_of_int k :: u16) = k mod 65536"
  by (simp add: unsigned_of_int take_bit_int_def)

lemma seqid_test:
  assumes "0 \<le> prev" "prev < 65536" "1 \<le> uint w" "uint w \<le> 32767" "ty = SYNC \<or> ty = FOLLOW_UP"
  shows "sad_check_seqid ty n prev w = None \<longleftrightarrow>
    \<not> (uint n < (prev + 1) mod 65536 \<and> (uint n + uint w) mod 65536 < (prev + 1 + uint w) mod 65536) \<and>
    \<not> ((prev + uint w) mod 65536 < uint n \<and> (prev + 2 * uint w) mod 65536 < (uint n + uint w) mod 65536)"
proof -
  have a: "(w < 1) = False" using assms(3) by (simp add: word_less_def)
  have p: "uint (n + w) = (uint n + uint w) mod 65536" by (simp add: uint_word_ariths)
  have t: "(ty = SYNC \<or> ty = FOLLOW_UP) = True" "(prev < 0) = False" using assms(1,5) by auto
  show ?thesis
    unfolding sad_check_seqid_def a t if_False if_True
    unfolding word_less_def uint16_of_int p by (simp split: if_split)
qed

text \<open>No message in the window is rejected: after the sequence number \<open>prev\<close>, the next \<open>w\<close> numbers are accepted, also where the
  numbers wrap around. For numbers that do not wrap, everything before and behind the window is rejected, but for the last \<open>w\<close> numbers
  of the range.\<close>

theorem seqid_window_complete:
  assumes "0 \<le> prev" "prev < 65536" "1 \<le> uint w" "uint w \<le> 32767" "ty = SYNC \<or> ty = FOLLOW_UP"
  shows "(1 \<le> d \<and> d \<le> uint w \<longrightarrow> sad_check_seqid ty (word_of_int (prev + d)) prev w = None) \<and>
    (prev + 2 * uint w < 65536 \<longrightarrow>
      (sad_check_seqid ty n prev w = None \<longleftrightarrow> prev < uint n \<and> uint n \<le> prev + uint w \<or> 65536 - uint w \<le> uint n))"
proof (intro conjI impI)
  assume d: "1 \<le> d \<and> d \<le> uint w"
  have u: "uint (word_of_int (prev + d) :: u16) = (prev + d) mod 65536" by (rule uint16_of_int)
  have m: "((prev + d) mod 65536 + uint w) mod 65536 = (prev + d + uint w) mod 65536" by (simp add: mod_simps)
  show "sad_check_seqid ty (word_of_int (prev + d)) prev w = None"
    unfolding seqid_test [OF assms] u m
    using assms(1-4) d mod16_cases [of "prev + d"] mod16_cases [of "prev + 1"] mod16_cases [of "prev + d + uint w"]
      mod16_cases [of "prev + 1 + uint w"] mod16_cases [of "prev + uint w"] mod16_cases [of "prev + 2 * uint w"]
    by (simp split: if_splits)
next
  assume l: "prev + 2 * uint w < 65536"
  have n: "0 \<le> uint n" "uint n < 65536" using uint_bounded [of n] by simp_all
  show "sad_check_seqid ty n prev w = None \<longleftrightarrow> prev < uint n \<and> uint n \<le> prev + uint w \<or> 65536 - uint w \<le> uint n"
    unfolding seqid_test [OF assms]
    using assms(1-4) l n mod16_cases [of "uint n + uint w"] by (auto split: if_splits)
qed

theorem seqid_window_complete_witness:
  "sad_check_seqid SYNC (word_of_int (65534 + 3)) 65534 3 = None \<and> (sad_check_seqid FOLLOW_UP 900 1000 3 = None \<longleftrightarrow> False)"
  using seqid_window_complete [of 65534 3 SYNC 3 0] seqid_window_complete [of 1000 3 FOLLOW_UP 1 900] by (simp del: of_int_add)

text \<open>The protection against replays has holes, because the comparisons of numbers and of shifted numbers wrap around at different
  places: the last \<open>w\<close> numbers of the range are accepted whatever has been received before them, and after the number \<open>65535 - w\<close>
  every number is.\<close>

theorem seqid_replays_accepted:
  assumes "0 \<le> prev" "1 \<le> uint w" "uint w \<le> 32767" "ty = SYNC \<or> ty = FOLLOW_UP"
  shows "(prev + 2 * uint w < 65536 \<and> 65536 - uint w \<le> uint n \<longrightarrow> sad_check_seqid ty n prev w = None) \<and>
    (prev + uint w = 65535 \<longrightarrow> sad_check_seqid ty n prev w = None)"
proof (intro conjI impI)
  assume l: "prev + 2 * uint w < 65536 \<and> 65536 - uint w \<le> uint n"
  then have "prev < 65536" using assms by linarith
  note t = seqid_test [OF assms(1) this assms(2-4)]
  have n: "uint n < 65536" using uint_bounded [of n] by simp
  then show "sad_check_seqid ty n prev w = None" unfolding t using assms l mod16_cases [of "uint n + uint w"] by (simp split: if_splits)
next
  assume l: "prev + uint w = 65535"
  then have "prev < 65536" using assms by linarith
  note t = seqid_test [OF assms(1) this assms(2-4)]
  have n: "uint n < 65536" "0 \<le> uint n" using uint_bounded [of n] by simp_all
  have "(prev + 1 + uint w) mod 65536 = 0" using l by (simp add: add.commute add.left_commute)
  moreover have "0 \<le> (uint n + uint w) mod 65536" "(prev + uint w) mod 65536 = 65535" using l by simp_all
  ultimately show "sad_check_seqid ty n prev w = None" unfolding t using l n by (intro conjI notI; elim conjE; linarith)
qed

theorem seqid_replays_accepted_witness:
  "sad_check_seqid SYNC 65534 1000 3 = None \<and> sad_check_seqid SYNC 1000 65532 3 = None"
  using seqid_replays_accepted [of 1000 3 SYNC 65534] seqid_replays_accepted [of 65532 3 SYNC 1000] by simp

section \<open>Acceptance\<close>

text \<open>The raw message as it is verified, and what is demanded of an authentication TLV at \<open>auth\<close>: index and indicators of the
  association, a key of it, the length, and the ICV of the octets before it.\<close>

definition stripped :: "security_association \<Rightarrow> buf \<Rightarrow> buf" where
  "stripped sa raw = (if sa_mutable sa then overlay raw correction_at no_correction else raw)"

definition auth_ok :: "security_association \<Rightarrow> buf \<Rightarrow> buf \<Rightarrow> nat \<Rightarrow> bool" where
  "auth_ok sa b raw auth \<longleftrightarrow>
    rd8 b (auth + 4) = Some (sa_spp sa) \<and>
    (\<exists>ind. rd8 b (auth + 5) = Some ind \<and> \<not> sec_param_mismatch sa ind) \<and>
    (\<exists>keyID key len data mac. rd_host b (auth + 6) 4 = Some keyID \<and> sad_get_key sa keyID = Some key \<and>
      rd16 b (auth + 2) = Some len \<and> unat len = sad_get_auth_tlv_len sa (alg_digest_len (k_icv key)) - 4 \<and>
      octets 0 (auth + sad_get_auth_tlv_len sa 0) raw = Some data \<and>
      octets (auth + sad_get_auth_tlv_len sa 0) (alg_digest_len (k_icv key)) b = Some mac \<and>
      sad_verify (k_data key) data mac (alg_digest_len (k_icv key)) = 0)"

definition is_auth :: "buf \<Rightarrow> tlv_extra \<Rightarrow> bool" where
  "is_auth b x \<longleftrightarrow> rd16 b (te_tlv x) = Some TLV_AUTHENTICATION"

lemma offsets [simp]:
  "correction_at = 8" "auth_offset ''type'' = 0" "auth_offset ''length'' = 2" "auth_offset ''spp'' = 4"
  "auth_offset ''secParamIndicator'' = 5" "auth_offset ''keyID'' = 6" "sizeof authentication_tlv_layout = 10"
  by (simp_all add: ptp_header_layout_def authentication_tlv_layout_def)

lemma auth_fields: "auth_field ''type'' = (0, 2)" "auth_field ''length'' = (2, 2)" "auth_field ''keyID'' = (6, 4)"
  by (simp_all add: authentication_tlv_layout_def)

lemma length_overlay2: "i + length xs \<le> length b \<Longrightarrow> length (overlay b i xs) = length b"
  by (simp add: overlay_def)

lemma overlay_twice: "i + length xs \<le> length b \<Longrightarrow> length xs = length ys \<Longrightarrow> overlay (overlay b i xs) i ys = overlay b i ys"
  by (simp add: overlay_def)

lemma stripped_simps:
  "16 \<le> length raw \<Longrightarrow> length (stripped sa raw) = length raw"
  "16 \<le> length raw \<Longrightarrow> stripped sa (stripped sa raw) = stripped sa raw"
  "16 \<le> length raw \<Longrightarrow> (if sa_mutable sa then poke correction_at no_correction raw else Some raw) = Some (stripped sa raw)"
  by (simp_all add: stripped_def length_overlay2 overlay_twice poke_def)

lemma loop_step:
  assumes "is_auth b x" "16 \<le> length raw"
  shows "check_auth_loop sa b err n t (x # l) raw = Some (None, raw') \<longleftrightarrow>
    auth_ok sa b (stripped sa raw) (te_tlv x) \<and> check_auth_loop sa b None (n + 1) TLV_AUTHENTICATION l (stripped sa raw) = Some (None, raw')"
  using assms stripped_simps(3) [OF assms(2), of sa]
  by (auto simp: is_auth_def auth_ok_def Let_def split: option.splits if_splits Option.bind_splits)

lemma loop_skip:
  assumes "\<not> is_auth b x"
  shows "check_auth_loop sa b err n t (x # l) raw = Some (None, raw') \<longleftrightarrow>
    (\<exists>ty. rd16 b (te_tlv x) = Some ty \<and> check_auth_loop sa b err (n + 1) ty l raw = Some (None, raw'))"
  using assms by (auto simp: is_auth_def Let_def split: option.splits if_splits Option.bind_splits)

lemma loop_iff:
  "16 \<le> length raw \<Longrightarrow> check_auth_loop sa b err n t l raw = Some (None, raw') \<longleftrightarrow>
    list_all (\<lambda>x. rd16 b (te_tlv x) \<noteq> None \<and> (is_auth b x \<longrightarrow> auth_ok sa b (stripped sa raw) (te_tlv x))) l \<and>
    (if l = [] then n \<noteq> 0 \<and> t = TLV_AUTHENTICATION else is_auth b (List.last l)) \<and>
    (list_ex (is_auth b) l \<or> err = None) \<and> raw' = (if list_ex (is_auth b) l then stripped sa raw else raw)"
proof (induction l arbitrary: err n t raw)
  case Nil
  then show ?case by auto
next
  case (Cons x l)
  show ?case
  proof (cases "is_auth b x")
    case True
    then have "rd16 b (te_tlv x) \<noteq> None" by (simp add: is_auth_def)
    then show ?thesis
      using Cons.IH [of "stripped sa raw" None "n + 1" TLV_AUTHENTICATION] Cons.prems True stripped_simps(1,2) [OF Cons.prems, of sa]
      unfolding loop_step [OF True Cons.prems] by auto
  next
    case False
    have l: "l = [] \<Longrightarrow> rd16 b (te_tlv x) = Some ty \<Longrightarrow> ty \<noteq> TLV_AUTHENTICATION" for ty using False by (auto simp: is_auth_def)
    then show ?thesis
      using Cons.IH [OF Cons.prems, of err "n + 1"] False unfolding loop_skip [OF False] by auto
  qed
qed

text \<open>C25. Exactly the authentic messages are accepted: with a security policy, a message passes if and only if its sequence number passes,
  its last TLV is an authentication TLV, and for every authentication TLV in it the index and the indicators are those of the association
  of the policy, the key is one of its keys, and the ICV is the digest under this key of all received octets before it, with the
  correction field zeroed when it may change on the way. The raw message is changed only in that way.\<close>

theorem sad_process_auth_iff:
  assumes "0 \<le> spp" "16 \<le> length raw"
  shows "sad_process_auth sad spp msg raw = Some (None, raw') \<longleftrightarrow>
    (\<exists>sa ty seqid. sad_get_association sad spp = Some sa \<and> msg_type (m_buf msg) = Some ty \<and> rd16 (m_buf msg) 30 = Some seqid \<and>
      sad_check_seqid ty seqid (last_seqid sa) (seqid_window sa) = None \<and>
      m_tlv_list msg \<noteq> [] \<and> is_auth (m_buf msg) (List.last (m_tlv_list msg)) \<and>
      list_all (\<lambda>x. rd16 (m_buf msg) (te_tlv x) \<noteq> None \<and>
        (is_auth (m_buf msg) x \<longrightarrow> auth_ok sa (m_buf msg) (stripped sa raw) (te_tlv x))) (m_tlv_list msg) \<and>
      raw' = stripped sa raw)"
proof -
  have s: "offsetof ptp_header_layout ''sequenceId'' = 30"
    by (simp add: ptp_header_layout_def PortIdentity_layout_def ClockIdentity_layout_def sub_def)
  have loop: "sad_check_auth_tlv sa msg raw = Some (None, raw') \<longleftrightarrow>
      m_tlv_list msg \<noteq> [] \<and> is_auth (m_buf msg) (List.last (m_tlv_list msg)) \<and>
      list_all (\<lambda>x. rd16 (m_buf msg) (te_tlv x) \<noteq> None \<and>
        (is_auth (m_buf msg) x \<longrightarrow> auth_ok sa (m_buf msg) (stripped sa raw) (te_tlv x))) (m_tlv_list msg) \<and>
      raw' = stripped sa raw" for sa
  proof -
    have "is_auth (m_buf msg) (List.last (m_tlv_list msg)) \<Longrightarrow> m_tlv_list msg \<noteq> [] \<Longrightarrow> list_ex (is_auth (m_buf msg)) (m_tlv_list msg)"
      by (auto simp: list_ex_iff)
    then show ?thesis unfolding sad_check_auth_tlv_def loop_iff [OF assms(2)] by auto
  qed
  show ?thesis
    using assms(1) loop
    by (auto simp: sad_process_auth_def s split: option.splits Option.bind_splits)
qed

section \<open>Memory safety\<close>

lemma reads:
  "i < length b \<Longrightarrow> \<exists>v. rd8 b i = Some v" "i + 2 \<le> length b \<Longrightarrow> \<exists>v. rd16 b i = Some v"
  "i + w \<le> length b \<Longrightarrow> \<exists>v. rd_host b i w = Some v" "i + n \<le> length b \<Longrightarrow> \<exists>v. octets i n b = Some v"
  by (simp_all add: rd8_def rd16_def rd_host_def octets_def)

lemma auth_len: "sad_get_auth_tlv_len sa n = sad_get_auth_tlv_len sa 0 + n" "10 \<le> sad_get_auth_tlv_len sa n"
  by (simp_all add: sad_get_auth_tlv_len_def)

text \<open>Checking a message cut off at \<open>n\<close>, with its raw copy cut off there too: when it needs nothing behind, it is the check of the
  whole message.\<close>

lemma reads_take:
  "rd8 (take n b) i = Some v \<Longrightarrow> rd8 b i = Some v" "rd16 (take n b) i = Some u \<Longrightarrow> rd16 b i = Some u"
  "rd_host (take n b) i w = Some k \<Longrightarrow> rd_host b i w = Some k" "octets i k (take n b) = Some xs \<Longrightarrow> octets i k b = Some xs"
  by (auto simp: rd8_def rd16_def rd_host_def octets_def drop_take split: if_splits)

lemma overlay_cut:
  assumes "i + length xs \<le> n" "n \<le> length b"
  shows "overlay (take n b) i xs = take n (overlay b i xs)" "drop n (overlay b i xs) = drop n b"
proof -
  have "take n (xs @ drop (i + length xs) b) = xs @ take (n - length xs) (drop (i + length xs) b)" using assms by simp
  moreover have "min n i = i" "min i n = i" using assms(1) by simp_all
  ultimately show "overlay (take n b) i xs = take n (overlay b i xs)" using assms by (simp add: overlay_def drop_take add.commute)
  show "drop n (overlay b i xs) = drop n b" using assms by (simp add: overlay_def)
qed

lemma stripped_cut:
  assumes "16 \<le> n" "n \<le> length raw"
  shows "stripped sa (take n raw) = take n (stripped sa raw)" "drop n (stripped sa raw) = drop n raw"
proof -
  have "correction_at + length no_correction \<le> n" using assms(1) by simp
  from overlay_cut [OF this assms(2)]
  show "stripped sa (take n raw) = take n (stripped sa raw)" "drop n (stripped sa raw) = drop n raw" by (simp_all only: stripped_def split: if_split) simp_all
qed

definition extends :: "u8 list \<Rightarrow> (errno option \<times> buf) option \<Rightarrow> (errno option \<times> buf) option \<Rightarrow> bool" where
  "extends d x y \<longleftrightarrow> (\<forall>e r. x = Some (e, r) \<longrightarrow> y = Some (e, r @ d))"

lemma extends_bind:
  "(\<And>v. f = Some v \<Longrightarrow> g = Some v) \<Longrightarrow> (\<And>v. f = Some v \<Longrightarrow> extends d (h v) (k v)) \<Longrightarrow> extends d (Option.bind f h) (Option.bind g k)"
  by (cases f) (simp_all add: extends_def)

lemma extends_if: "(c \<Longrightarrow> extends d x y) \<Longrightarrow> (\<not> c \<Longrightarrow> extends d x' y') \<Longrightarrow> extends d (if c then x else x') (if c then y else y')"
  by simp

lemma extends_case:
  "extends d x y \<Longrightarrow> (\<And>v. extends d (f v) (g v)) \<Longrightarrow> extends d (case z of None \<Rightarrow> x | Some v \<Rightarrow> f v) (case z of None \<Rightarrow> y | Some v \<Rightarrow> g v)"
  by (cases z) simp_all

lemma extends_some: "r' = r @ d \<Longrightarrow> extends d (Some (e, r)) (Some (e, r'))"
  by (simp add: extends_def)

lemma loop_prefix:
  "16 \<le> n \<Longrightarrow> n \<le> length raw \<Longrightarrow>
    extends (drop n raw) (check_auth_loop sa (take n b) err k t l (take n raw)) (check_auth_loop sa b err k t l raw)"
proof (induction l arbitrary: err k t raw)
  case Nil
  then show ?case by (simp add: extends_def)
next
  case (Cons x l)
  have s: "stripped sa (take n raw) = take n (stripped sa raw)" "drop n (stripped sa raw) = drop n raw" "n \<le> length (stripped sa raw)"
    using stripped_cut [OF Cons.prems] stripped_simps(1) [of raw sa] Cons.prems by simp_all
  have pk: "(if sa_mutable sa then poke correction_at no_correction (take n raw) else Some (take n raw)) = Some (take n (stripped sa raw))"
    "(if sa_mutable sa then poke correction_at no_correction raw else Some raw) = Some (stripped sa raw)"
    using stripped_simps(3) [of "take n raw" sa] stripped_simps(3) [of raw sa] Cons.prems s(1) by simp_all
  have cut: "raw = take n raw @ drop n raw" "stripped sa raw = take n (stripped sa raw) @ drop n raw"
    using append_take_drop_id [of n "stripped sa raw"] s(2) by simp_all
  note IH = Cons.IH [OF Cons.prems] Cons.IH [OF Cons.prems(1) s(3), unfolded s(2)]
  show ?case
    unfolding check_auth_loop.simps Let_def pk bind.bind_lunit
    by (intro extends_bind extends_if extends_case IH extends_some cut; erule reads_take)
qed

lemma tiles_take: "tiles p q b l \<Longrightarrow> q \<le> n \<Longrightarrow> tiles p q (take n b) l"
proof (induction p q b l rule: tiles.induct)
  case (2 p q b x l)
  then obtain ln where ln: "rd16 b (p + 2) = Some ln" "tiles (p + 4 + unat ln) q b l" by (auto split: option.splits)
  then have "rd16 (take n b) (p + 2) = Some ln" using tiles_le [OF ln(2)] 2(3) by (auto simp: rd16_def split: if_splits)
  then show ?case using 2 ln by simp
qed simp

lemma auth_lengths_take: "tiles p q b l \<Longrightarrow> q \<le> n \<Longrightarrow> auth_lengths b l \<Longrightarrow> auth_lengths (take n b) l"
proof (induction p q b l rule: tiles.induct)
  case (2 p q b x l)
  then obtain ln where ln: "te_tlv x = p" "rd16 b (p + 2) = Some ln" "tiles (p + 4 + unat ln) q b l" by (auto split: option.splits)
  then have "rd16 (take n b) (p + 2) = Some ln" using tiles_le [OF ln(3)] 2(3) by (auto simp: rd16_def split: if_splits)
  then show ?case using 2 ln reads_take(2) [of n b p] by (auto simp: auth_lengths_def)
qed (simp add: auth_lengths_def)

lemma loop_safe:
  "tiles p q b l \<Longrightarrow> auth_lengths b l \<Longrightarrow> q \<le> length b \<Longrightarrow> q \<le> length raw \<Longrightarrow> 16 \<le> length raw \<Longrightarrow>
    \<exists>r. check_auth_loop sa b err n t l raw = Some r"
proof (induction l arbitrary: p err n t raw)
  case (Cons x l)
  obtain ln where x: "te_tlv x = p" "rd16 b (p + 2) = Some ln" "tiles (p + 4 + unat ln) q b l"
    using Cons.prems(1) by (auto split: option.splits)
  then have q: "p + 4 + unat ln \<le> q" using tiles_le by blast
  have al: "auth_lengths b l" using Cons.prems(2) by (simp add: auth_lengths_def)
  have s: "length (stripped sa raw) = length raw" using stripped_simps(1) [of raw sa] Cons.prems(5) by simp
  have next1: "\<exists>r. check_auth_loop sa b err n t l raw = Some r" and next2: "\<exists>r. check_auth_loop sa b err n t l (stripped sa raw) = Some r" for err n t
    using Cons.IH [OF x(3) al Cons.prems(3-5)] Cons.IH [OF x(3) al Cons.prems(3), of "stripped sa raw"] Cons.prems(4,5) s by simp_all
  have pk: "(if sa_mutable sa then poke correction_at no_correction raw else Some raw) = Some (stripped sa raw)"
    using stripped_simps(3) Cons.prems(5) by simp
  obtain ty where ty: "rd16 b p = Some ty" using reads(2) [of p b] q Cons.prems(3) by auto
  show ?case
  proof (cases "ty = TLV_AUTHENTICATION")
    case False
    then show ?thesis using x(1) ty next1 by (simp add: Let_def)
  next
    case auth: True
    then have "10 \<le> unat ln" using Cons.prems(2) x ty by (auto simp: auth_lengths_def)
    note room = this q Cons.prems(3,4)
    obtain spp ind keyID where r: "rd8 b (p + 4) = Some spp" "rd8 b (p + 5) = Some ind" "rd_host b (p + 6) 4 = Some keyID"
      using reads(1) [of "p + 4" b] reads(1) [of "p + 5" b] reads(3) [of "p + 6" 4 b] room by auto
    have icv: "\<exists>data mac. octets 0 (p + sad_get_auth_tlv_len sa 0) (stripped sa raw) = Some data \<and> octets (p + sad_get_auth_tlv_len sa 0) dl b = Some mac"
      if "unat ln = sad_get_auth_tlv_len sa dl - 4" for dl
      using that room s auth_len(1) [of sa dl] auth_len(2) [of sa dl] reads(4) by simp
    show ?thesis
    proof (cases "sad_get_key sa keyID")
      case None
      then show ?thesis using x(1) ty r next1 by (simp add: Let_def)
    next
      case (Some key)
      then show ?thesis using x(1,2) ty r next1 next2 pk icv [of "alg_digest_len (k_icv key)"]
        by (auto simp: Let_def)
    qed
  qed
qed simp

text \<open>C26. Authentication stays in the message: when the octets received have been accepted, then, whatever they contain and whatever the
  association is, the check reads and writes nothing behind \<open>messageLength\<close>, neither in the message nor in its raw copy: on the two
  cut off there it succeeds, and with the same outcome.\<close>

theorem sad_process_auth_memory_safe:
  assumes "64 \<le> length (m_buf m)" "cnt \<le> int (length (m_buf m))" "msg_post_recv now mem m cnt = Some (None, m')" "cnt \<le> int (length raw)"
  shows "\<exists>ml err raw'. rd16 (m_buf m') 2 = Some ml \<and> int (unat ml) \<le> cnt \<and>
    sad_process_auth sad spp (m'\<lparr>m_buf := take (unat ml) (m_buf m')\<rparr>) (take (unat ml) raw) = Some (err, raw') \<and>
    sad_process_auth sad spp m' raw = Some (err, raw' @ drop (unat ml) raw)"
proof -
  have s: "offsetof ptp_header_layout ''sequenceId'' = 30" "offsetof ptp_header_layout ''tsmt'' = 0"
    by (simp_all add: ptp_header_layout_def PortIdentity_layout_def ClockIdentity_layout_def sub_def)
  obtain pl ml where m: "44 \<le> pl" "rd16 (m_buf m') 2 = Some ml" "pl \<le> unat ml" "int (unat ml) \<le> cnt"
      "tiles pl (unat ml) (m_buf m') (m_tlv_list m')" "auth_lengths (m_buf m') (m_tlv_list m')" "unat ml \<le> length (m_buf m')"
  proof -
    obtain ty pl ml where a: "msg_suffix ty = Some pl" "rd16 (m_buf m') 2 = Some ml" "pl \<le> unat ml" "unat ml \<le> nat cnt" "int pl \<le> cnt"
        "tiles pl (unat ml) (m_buf m') (m_tlv_list m')" "auth_lengths (m_buf m') (m_tlv_list m')"
        "frame (body_start ty) (nat cnt) (swl 0 hdr_fields (m_buf m)) (m_buf m')"
      by (rule msg_accept [OF assms(1-3)])
    have "34 \<le> length (m_buf m)" using assms(1) by simp
    then have "length (m_buf m') = length (m_buf m)"
      using frame_length [OF a(8)] frame_length [OF conv_frame [OF hdr_conv(2)]] by simp
    moreover have "44 \<le> pl" using a(1) by (rule msg_suffix_cases) simp_all
    moreover have "int (unat ml) \<le> cnt" "unat ml \<le> length (m_buf m)" using a(4,5) assms(2) by linarith+
    ultimately show thesis using that [OF _ a(2,3) _ a(6,7)] by simp
  qed
  let ?c = "take (unat ml) (m_buf m')" and ?n = "unat ml"
  have n: "16 \<le> ?n" "?n \<le> length raw" using m(1,3,4) assms(4) by linarith+
  obtain ty seqid where r: "msg_type ?c = Some ty" "rd16 ?c 30 = Some seqid" "msg_type (m_buf m') = Some ty" "rd16 (m_buf m') 30 = Some seqid"
  proof -
    obtain v where v: "rd8 ?c 0 = Some v" using reads(1) [of 0 ?c] m(1,3,7) by force
    obtain seqid where q: "rd16 ?c 30 = Some seqid" using reads(2) [of 30 ?c] m(1,3,7) by auto
    show ?thesis using that v q reads_take(1) [OF v] reads_take(2) [OF q] by (simp add: msg_type_def s)
  qed
  have check: "\<exists>e r. sad_check_auth_tlv sa (m'\<lparr>m_buf := ?c\<rparr>) (take ?n raw) = Some (e, r) \<and> sad_check_auth_tlv sa m' raw = Some (e, r @ drop ?n raw)" for sa
  proof -
    have "tiles pl ?n ?c (m_tlv_list m')" "auth_lengths ?c (m_tlv_list m')" "?n \<le> length ?c" "?n \<le> length (take ?n raw)" "16 \<le> length (take ?n raw)"
      using tiles_take [OF m(5), of ?n] auth_lengths_take [OF m(5) _ m(6), of ?n] m(7) n by simp_all
    from loop_safe [OF this, of sa "Some EPROTO" 0 0] obtain e r where
      c: "check_auth_loop sa ?c (Some EPROTO) 0 0 (m_tlv_list m') (take ?n raw) = Some (e, r)" by (metis prod.collapse)
    then have "check_auth_loop sa (m_buf m') (Some EPROTO) 0 0 (m_tlv_list m') raw = Some (e, r @ drop ?n raw)"
      using loop_prefix [OF n] unfolding extends_def by blast
    then show ?thesis using c by (simp add: sad_check_auth_tlv_def)
  qed
  show ?thesis
  proof (cases "spp < 0 \<or> sad_get_association sad spp = None \<or> (\<exists>sa. sad_get_association sad spp = Some sa \<and> sad_check_seqid ty seqid (last_seqid sa) (seqid_window sa) \<noteq> None)")
    case True
    then show ?thesis using r m(2,4) by (auto simp: sad_process_auth_def s)
  next
    case False
    then obtain sa where "sad_get_association sad spp = Some sa" "sad_check_seqid ty seqid (last_seqid sa) (seqid_window sa) = None" by auto
    then show ?thesis using r m(2,4) check [of sa] False by (auto simp: sad_process_auth_def s)
  qed
qed

section \<open>What was signed verifies\<close>

lemma take_overlay: "n \<le> i \<Longrightarrow> i + length xs \<le> length b \<Longrightarrow> take n (overlay b i xs) = take n b"
  by (simp add: overlay_def)

lemma overlay_same: "i + n \<le> length b \<Longrightarrow> overlay b i (take n (drop i b)) = b"
  by (simp add: overlay_def) (metis add.commute append_take_drop_id drop_drop)

lemma nth_overlay:
  "i + length xs \<le> length b \<Longrightarrow> k < length b \<Longrightarrow> overlay b i xs ! k = (if i \<le> k \<and> k < i + length xs then xs ! (k - i) else b ! k)"
  by (auto simp: overlay_def nth_append)

lemma overlay_commute:
  assumes "i + length xs \<le> j" "j + length ys \<le> length b"
  shows "overlay (overlay b j ys) i xs = overlay (overlay b i xs) j ys"
  using assms by (intro nth_equalityI) (auto simp: nth_overlay length_overlay2)

text \<open>The sender writes the digest of the stripped octets behind them and changes nothing else, and the digest verifies.\<close>

lemma generate_icv_octets:
  assumes "sad_generate_icv sa key b icv = Some (n, b')" "16 \<le> icv"
  shows "\<exists>d. sad_hash (k_data key) (take icv (stripped sa b)) (alg_digest_len (k_icv key)) = (n, d) \<and>
    icv + length d \<le> length b \<and> b' = overlay b icv d"
proof -
  obtain n' d where h: "sad_hash (k_data key) (take icv (stripped sa b)) (alg_digest_len (k_icv key)) = (n', d)"
    by (cases "sad_hash (k_data key) (take icv (stripped sa b)) (alg_digest_len (k_icv key))") auto
  have len: "16 \<le> length b" using assms(1) by (auto simp: sad_generate_icv_def octets_def split: if_splits)
  then have c: "octets correction_at 8 b = Some (take 8 (drop 8 b))" by (simp add: octets_def)
  let ?c = "take 8 (drop 8 b)"
  show ?thesis
  proof (cases "sa_mutable sa \<and> ?c \<noteq> no_correction")
    case True
    then have st: "stripped sa b = overlay b 8 no_correction" by (simp add: stripped_def)
    then have "length (stripped sa b) = length b" using len by (simp add: length_overlay2)
    moreover have "overlay (overlay (stripped sa b) icv d) 8 ?c = overlay b icv d" if r: "icv + length d \<le> length b"
    proof -
      have l: "length ?c = 8" "8 + length ?c \<le> length b" using len by simp_all
      have "overlay (overlay (stripped sa b) icv d) 8 ?c = overlay (overlay (stripped sa b) 8 ?c) icv d"
        using l r len assms(2) unfolding st by (intro overlay_commute) (simp_all add: length_overlay2)
      also have "overlay (stripped sa b) 8 ?c = b" unfolding st using l overlay_same [of 8 8 b] by (subst overlay_twice) simp_all
      finally show ?thesis .
    qed
    ultimately show ?thesis using assms(1) True c h len st [symmetric]
      by (auto simp: sad_generate_icv_def Let_def poke_def octets_def length_overlay2 split: if_splits)
  next
    case False
    then have "stripped sa b = b" using overlay_same [of 8 8 b] len by (auto simp: stripped_def)
    then show ?thesis using assms(1) False c h by (auto simp: sad_generate_icv_def Let_def poke_def octets_def split: if_splits)
  qed
qed

abbreviation lib_ok :: "mac_data \<Rightarrow> bool" where
  "lib_ok k \<equiv> \<forall>data. length (mac_fun (md_mac k) (md_key k) data) = digest_size (md_mac k)"

lemma generate_icv:
  assumes "sad_generate_icv sa key b icv = Some (n, b')" "16 \<le> icv" "n \<noteq> 0" "lib_ok (k_data key)"
  shows "n = alg_digest_len (k_icv key) \<and> icv + n \<le> length b \<and> (\<exists>d. length d = n \<and> b' = overlay b icv d) \<and>
    sad_verify (k_data key) (take icv (stripped sa b')) (take n (drop icv b')) n = 0"
proof -
  obtain d where d: "sad_hash (k_data key) (take icv (stripped sa b)) (alg_digest_len (k_icv key)) = (n, d)"
      "icv + length d \<le> length b" "b' = overlay b icv d"
    using generate_icv_octets [OF assms(1,2)] by blast
  have n: "n = alg_digest_len (k_icv key)" "length d = n" using d(1) assms(3,4) by (auto simp: sad_hash_def split: if_splits)
  have "take icv (stripped sa b') = take icv (stripped sa b)"
    using d(2,3) assms(2) overlay_commute [of 8 no_correction icv d b]
    by (simp add: stripped_def take_overlay length_overlay2)
  moreover have "take n (drop icv b') = d" using d(2,3) n(2) by (simp add: overlay_def)
  ultimately have "sad_verify (k_data key) (take icv (stripped sa b')) (take n (drop icv b')) n = 0"
    using d(1) n assms(3) by (simp add: sad_verify_def)
  then show ?thesis using n d(2,3) by auto
qed

text \<open>Octets away from a range that is all that changed.\<close>

lemma frame_slice:
  assumes "frame lo hi b c" "i + w \<le> lo \<or> hi \<le> i"
  shows "take w (drop i c) = take w (drop i b)" "length c = length b"
proof -
  show l: "length c = length b" using assms(1) by (simp add: frame_def)
  show "take w (drop i c) = take w (drop i b)"
    using assms l by (intro nth_equalityI) (auto simp: frame_def)
qed

lemma frame_reads:
  assumes "frame lo hi b c"
  shows "base + fst f + snd f \<le> lo \<or> hi \<le> base + fst f \<Longrightarrow> rd_net c f base = rd_net b f base"
    "k < lo \<or> hi \<le> k \<Longrightarrow> rd8 c k = rd8 b k" "n \<le> lo \<Longrightarrow> take n c = take n b"
  using frame_slice [OF assms, of "base + fst f" "snd f"] frame_slice [OF assms, of 0 n] frame_slice(2) [OF assms] assms
  by (auto simp: rd_net_def rd8_def frame_def split: prod.splits)

lemma frame_overlay: "i + length xs \<le> length b \<Longrightarrow> lo \<le> i \<Longrightarrow> i + length xs \<le> hi \<Longrightarrow> frame lo hi b (overlay b i xs)"
  by (auto simp: frame_def nth_overlay length_overlay2)

text \<open>TLVs in network byte order that fill the octets from \<open>p\<close> to \<open>q\<close>, and what makes one of them valid.\<close>

fun net_tiles :: "nat \<Rightarrow> nat \<Rightarrow> buf \<Rightarrow> tlv_extra list \<Rightarrow> bool" where
  "net_tiles p q b [] \<longleftrightarrow> p = q"
| "net_tiles p q b (x # l) \<longleftrightarrow> te_tlv x = p \<and>
    (case rd_net b (2, 2) p of None \<Rightarrow> False | Some n \<Rightarrow> net_tiles (p + 4 + n) q b l)"

lemma net_tiles_le: "net_tiles p q b l \<Longrightarrow> p \<le> q"
  by (induction p q b l rule: net_tiles.induct) (auto split: option.splits)

lemma net_tiles_frame: "frame lo hi b c \<Longrightarrow> hi \<le> p \<Longrightarrow> net_tiles p q c l \<longleftrightarrow> net_tiles p q b l"
proof (induction l arbitrary: p)
  case (Cons x l)
  have "rd_net c (2, 2) p = rd_net b (2, 2) p" using frame_reads(1) [OF Cons.prems(1), of p "(2, 2)"] Cons.prems(2) by simp
  then show ?case using Cons by (simp split: option.splits)
qed simp

definition signed :: "security_association list \<Rightarrow> buf \<Rightarrow> nat \<Rightarrow> bool" where
  "signed sad b auth \<longleftrightarrow>
    (rd_net b (0, 2) auth = Some (unat TLV_AUTHENTICATION) \<longrightarrow>
      (\<exists>spp sa ind keyID key. rd8 b (auth + 4) = Some spp \<and> sad_get_association sad (uint spp) = Some sa \<and>
        rd8 b (auth + 5) = Some ind \<and> \<not> sec_param_mismatch sa ind \<and>
        rd_net b (6, 4) auth = Some keyID \<and> sad_get_key sa keyID = Some key \<and>
        rd_net b (2, 2) auth = Some (sad_get_auth_tlv_len sa (alg_digest_len (k_icv key)) - 4) \<and>
        sad_verify (k_data key) (take (icv_of sa auth) (stripped sa b))
          (take (alg_digest_len (k_icv key)) (drop (icv_of sa auth) b)) (alg_digest_len (k_icv key)) = 0))"

lemma stripped_take:
  assumes "frame lo hi b c" "n \<le> lo" "16 \<le> lo" "16 \<le> length b"
  shows "take n (stripped sa c) = take n (stripped sa b)"
proof -
  have "take (n - 16) (drop 16 c) = take (n - 16) (drop 16 b)"
    using frame_slice(1) [OF assms(1), of 16 "n - 16"] assms(2) by (cases "n \<le> 16") simp_all
  moreover have "length c = length b" "take 8 c = take 8 b" "take n c = take n b"
    using frame_slice [OF assms(1), of 0 8] frame_slice [OF assms(1), of 0 n] assms(2,3) by auto
  ultimately show ?thesis using assms(4) by (simp add: stripped_def overlay_def min_absorb2)
qed

lemma icv_of_len: "icv_of sa auth = auth + sad_get_auth_tlv_len sa 0"
  by (simp add: icv_of_def sad_get_auth_tlv_len_def)

lemma signed_frame:
  assumes "frame lo hi b c" "signed sad b auth" "rd_net b (2, 2) auth = Some n" "auth + 4 + n \<le> lo" "16 \<le> auth" "lo \<le> length b"
  shows "signed sad c auth"
proof -
  have r: "rd_net c (i, w) auth = rd_net b (i, w) auth" if "auth + i + w \<le> lo" for i w
    using frame_reads(1) [OF assms(1), of auth "(i, w)"] that by simp
  have r8: "rd8 c k = rd8 b k" if "k < lo" for k using frame_reads(2) [OF assms(1)] that by simp
  show ?thesis
  proof (cases "rd_net b (0, 2) auth = Some (unat TLV_AUTHENTICATION)")
    case False
    then show ?thesis using r [of 0 2] assms(4) by (simp add: signed_def)
  next
    case True
    then obtain spp sa ind keyID key where h: "rd8 b (auth + 4) = Some spp" "sad_get_association sad (uint spp) = Some sa"
      "rd8 b (auth + 5) = Some ind" "\<not> sec_param_mismatch sa ind" "rd_net b (6, 4) auth = Some keyID" "sad_get_key sa keyID = Some key"
      "rd_net b (2, 2) auth = Some (sad_get_auth_tlv_len sa (alg_digest_len (k_icv key)) - 4)"
      "sad_verify (k_data key) (take (icv_of sa auth) (stripped sa b))
          (take (alg_digest_len (k_icv key)) (drop (icv_of sa auth) b)) (alg_digest_len (k_icv key)) = 0"
      using assms(2) unfolding signed_def by blast
    have e: "icv_of sa auth + alg_digest_len (k_icv key) \<le> lo" "auth + 10 \<le> lo"
      using assms(3,4) h(7) auth_len(1) [of sa "alg_digest_len (k_icv key)"] auth_len(2) [of sa 0] by (simp_all add: icv_of_len)
    have "take (icv_of sa auth) (stripped sa c) = take (icv_of sa auth) (stripped sa b)"
      using stripped_take [OF assms(1)] e assms(5,6) by simp
    moreover have "take (alg_digest_len (k_icv key)) (drop (icv_of sa auth) c) = take (alg_digest_len (k_icv key)) (drop (icv_of sa auth) b)"
      using frame_slice(1) [OF assms(1)] e(1) by simp
    ultimately show ?thesis
      using h True r [of 6 4] r [of 2 2] r [of 0 2] r8 [of "auth + 4"] r8 [of "auth + 5"] e(2) by (auto simp: signed_def)
  qed
qed

lemma update_step:
  assumes "rd_net b (0, 2) auth = Some (unat TLV_AUTHENTICATION)" "te_tlv x = auth" "rd_net b (2, 2) auth = Some n"
    and "sad_update_auth_tlv sad (x # l) b = Some (0, b')" "16 \<le> auth"
    and "\<forall>sa \<in> set sad. \<forall>key \<in> set (sa_keys sa). lib_ok (k_data key)"
  shows "\<exists>b1. frame auth (auth + 4 + n) b b1 \<and> length b1 = length b \<and> auth + 4 + n \<le> length b \<and> signed sad b1 auth \<and>
    rd_net b1 (2, 2) auth = Some n \<and> sad_update_auth_tlv sad l b1 = Some (0, b')"
proof -
  obtain spp sa ind keyID key m b1 where h: "rd8 b (auth + 4) = Some spp" "sad_get_association sad (uint spp) = Some sa"
    "rd8 b (auth + 5) = Some ind" "\<not> sec_param_mismatch sa ind" "rd_net b (6, 4) auth = Some keyID" "sad_get_key sa keyID = Some key"
    "n = sad_get_auth_tlv_len sa (alg_digest_len (k_icv key)) - 4"
    "sad_generate_icv sa key b (icv_of sa auth) = Some (m, b1)" "m \<noteq> 0" "sad_update_auth_tlv sad l b1 = Some (0, b')"
    using assms(1-4) by (auto simp: auth_fields Let_def split: Option.bind_splits if_splits option.splits)
  have "sa \<in> set sad" using h(2) by (auto simp: sad_get_association_def find_Some_iff)
  moreover have "key \<in> set (sa_keys sa)" using h(6) by (auto simp: sad_get_key_def find_Some_iff split: if_splits)
  ultimately have lib: "lib_ok (k_data key)" using assms(6) by blast
  have icv: "icv_of sa auth = auth + sad_get_auth_tlv_len sa 0" "auth + 10 \<le> icv_of sa auth" using auth_len(2) [of sa 0] by (simp_all add: icv_of_len)
  note g = generate_icv [OF h(8) _ h(9) lib]
  have "16 \<le> icv_of sa auth" using icv assms(5) by simp
  from g [OF this] obtain d where d: "m = alg_digest_len (k_icv key)" "icv_of sa auth + m \<le> length b" "length d = m" "b1 = overlay b (icv_of sa auth) d"
    "sad_verify (k_data key) (take (icv_of sa auth) (stripped sa b1)) (take m (drop (icv_of sa auth) b1)) m = 0" by blast
  have e: "icv_of sa auth + m = auth + 4 + n"
    using icv(1) d(1) h(7) auth_len(1) [of sa m] auth_len(2) [of sa m] by simp
  have fr: "frame (icv_of sa auth) (auth + 4 + n) b b1" unfolding d(4) using d(2,3) e by (intro frame_overlay) simp_all
  have r: "rd_net b1 (i, w) auth = rd_net b (i, w) auth" if "i + w \<le> 10" for i w
    using frame_reads(1) [OF fr, of auth "(i, w)"] that icv(2) by simp
  have r8: "rd8 b1 (auth + k) = rd8 b (auth + k)" if "k < 10" for k using frame_reads(2) [OF fr, of "auth + k"] that icv(2) by simp
  have "signed sad b1 auth" using h(1-7) d(1,5) assms(1,3) r [of 0 2] r [of 2 2] r [of 6 4] r8 [of 4] r8 [of 5] by (auto simp: signed_def)
  moreover have "frame auth (auth + 4 + n) b b1" using fr by (rule frame_mono) (use icv in simp_all)
  ultimately show ?thesis using h(10) r [of 2 2] assms(3) d(2) e fr by (intro exI [of _ b1]) (auto simp: frame_def)
qed

text \<open>C27. A transparent clock leaves a message authentic that it has changed: when updating its authentication TLVs succeeds, every one
  of them holds the digest, under the key that it names, of all octets of the final message before it; nothing else has changed.\<close>

theorem sad_update_signs_all:
  assumes "net_tiles p q b l" "16 \<le> p" "q \<le> length b" "sad_update_auth_tlv sad l b = Some (0, b')"
    and "\<forall>sa \<in> set sad. \<forall>key \<in> set (sa_keys sa). lib_ok (k_data key)"
  shows "list_all (\<lambda>x. signed sad b' (te_tlv x)) l \<and> length b' = length b \<and>
    (\<forall>k < length b. k < p \<or> q \<le> k \<longrightarrow> b' ! k = b ! k)"
proof -
  have "list_all (\<lambda>x. signed sad b' (te_tlv x)) l \<and> frame p q b b'"
    using assms(1-4)
  proof (induction l arbitrary: p b)
    case (Cons x l)
    obtain n where n: "te_tlv x = p" "rd_net b (2, 2) p = Some n" "net_tiles (p + 4 + n) q b l"
      using Cons.prems(1) by (auto split: option.splits)
    then have q: "p + 4 + n \<le> q" using net_tiles_le by blast
    obtain ty where ty: "rd_net b (0, 2) p = Some ty" using n(2) by (simp add: rd_net_def split: if_splits)
    show ?case
    proof (cases "ty = unat TLV_AUTHENTICATION")
      case True
      obtain b1 where b1: "frame p (p + 4 + n) b b1" "length b1 = length b" "signed sad b1 p" "rd_net b1 (2, 2) p = Some n"
          "sad_update_auth_tlv sad l b1 = Some (0, b')"
        using update_step [OF ty [unfolded True] n(1,2) Cons.prems(4,2) assms(5)] by blast
      have t: "net_tiles (p + 4 + n) q b1 l" using net_tiles_frame [OF b1(1) order_refl] n(3) by simp
      have ih: "list_all (\<lambda>x. signed sad b' (te_tlv x)) l" "frame (p + 4 + n) q b1 b'"
        using Cons.IH [OF t _ _ b1(5)] Cons.prems(2,3) b1(2) by simp_all
      have "signed sad b' p" using signed_frame [OF ih(2) b1(3,4)] Cons.prems(2,3) q b1(2) by simp
      moreover have "frame p q b b'"
        using frame_mono [OF b1(1), of p q] frame_mono [OF ih(2), of p q] q frame_trans by (metis le_add1 order_refl le_add2 order_trans add.assoc)
      ultimately show ?thesis using ih(1) n(1) by simp
    next
      case False
      have u: "sad_update_auth_tlv sad l b = Some (0, b')" using Cons.prems(4) ty n(1) False by (simp add: auth_fields)
      have ih: "list_all (\<lambda>x. signed sad b' (te_tlv x)) l" "frame (p + 4 + n) q b b'"
        using Cons.IH [OF n(3) _ _ u] Cons.prems(2,3) by simp_all
      have "rd_net b' (0, 2) p = rd_net b (0, 2) p" using frame_reads(1) [OF ih(2), of p "(0, 2)"] by simp
      then have "signed sad b' p" using ty False by (simp add: signed_def)
      moreover have "frame p q b b'" using ih(2) by (rule frame_mono) simp_all
      ultimately show ?thesis using ih(1) n(1) by simp
    qed
  qed simp
  then show ?thesis by (auto simp: frame_def)
qed

section \<open>An example\<close>

text \<open>An association with one key, over an algorithm that repeats the last octets, and a Sync message with an authentication TLV behind its
  44 octets.\<close>

definition echo_mac :: nettle_mac where
  "echo_mac = \<lparr>digest_size = 32, key_size = 16, mac_fun = (\<lambda>k d. take 32 (rev d @ k @ replicate 32 0))\<rparr>"

definition sample_key :: security_association_key where
  "sample_key = \<lparr>k_icv = supported_algorithms ! 0, k_data = \<lparr>md_mac = echo_mac, md_key = [5, 6, 7]\<rparr>, k_id = 1\<rparr>"

definition sample_sa :: security_association where
  "sample_sa = \<lparr>sa_addr = 0, sa_spp = 7, sa_keys = [sample_key], seqnum_ind = False, seqnum_len = 0, seqid_window = 3, immediate_ind = True,
     res_ind = False, res_len = 0, sa_mutable = False, last_seqid = - 1\<rparr>"

definition sample_head :: "bool \<Rightarrow> u8 list" where
  "sample_head net = [0, 2] @ (if net then [0, 70] else [70, 0]) @ replicate 40 0 @
     (if net then [0x80, 0x09, 0, 22, 7, 0, 0, 0, 0, 1] else [0x09, 0x80, 22, 0, 7, 0, 1, 0, 0, 0])"

definition sample_octets :: "bool \<Rightarrow> u8 list \<Rightarrow> buf" where
  "sample_octets net icv = sample_head net @ icv @ replicate 16 0"

abbreviation "sample_tlvs \<equiv> [\<lparr>te_tlv = 44, te_cd = null_cd\<rparr>]"
definition sample_icv :: "u8 list" where
  "sample_icv = [1, 0, 0, 0, 0, 7, 22, 0, 9, 0x80, 0, 0, 0, 0, 0, 0]"
abbreviation "sample_message \<equiv> (message (sample_octets False sample_icv))\<lparr>m_tlv_list := sample_tlvs\<rparr>"

lemma sample_lengths: "length (sample_head net) = 54" "length sample_icv = 16"
  by (simp_all add: sample_head_def sample_icv_def)

lemma sample_len: "length (sample_octets net icv) = 70 + length icv" "length sample_icv = 16"
  using sample_lengths by (simp_all add: sample_octets_def)

lemma sample_fields:
  "rd_net (sample_octets True icv) (0, 2) 44 = Some (unat TLV_AUTHENTICATION)" "rd_net (sample_octets True icv) (2, 2) 44 = Some 22"
  "rd_net (sample_octets True icv) (6, 4) 44 = Some 1" "rd8 (sample_octets net icv) 48 = Some 7" "rd8 (sample_octets net icv) 49 = Some 0"
  "rd16 (sample_octets False icv) 44 = Some TLV_AUTHENTICATION" "rd16 (sample_octets False icv) 46 = Some 22"
  "rd_host (sample_octets False icv) 50 4 = Some 1" "rd8 (sample_octets net icv) 0 = Some 0" "rd16 (sample_octets False icv) 30 = Some 0"
  by (simp_all add: sample_octets_def sample_head_def rd_net_def rd8_def rd16_def rd_host_def nth_append)

lemma sample_assoc:
  "sad_get_association [sample_sa] 7 = Some sample_sa" "sad_get_key sample_sa (Suc 0) = Some sample_key" "sad_get_auth_tlv_len sample_sa n = 10 + n"
  "sec_param_mismatch sample_sa 0 = False" "alg_digest_len (k_icv sample_key) = 16" "icv_of sample_sa 44 = 54"
  by (simp_all add: sad_get_association_def sad_get_key_def sad_get_auth_tlv_len_def sec_param_mismatch_def icv_of_def
    sample_sa_def sample_key_def supported_algorithms_def)

lemma sample_hash: "sad_hash (k_data sample_key) (sample_head True) 16 = (16, sample_icv)"
  by (simp add: sad_hash_def sample_key_def echo_mac_def sample_head_def sample_icv_def numeral_eq_Suc)

lemma sample_slices: "octets 0 54 (sample_octets net icv) = Some (sample_head net)"
    "length icv = 16 \<Longrightarrow> octets 54 16 (sample_octets net icv) = Some icv"
  using sample_lengths by (simp_all add: octets_def sample_octets_def)

lemma sample_flags: "sa_mutable sample_sa = False" "sa_spp sample_sa = 7" "last_seqid sample_sa = - 1" "seqid_window sample_sa = 3"
  by (simp_all add: sample_sa_def)

lemma sample_accepted: "sad_process_auth [sample_sa] 7 sample_message (sample_octets True sample_icv) = Some (None, sample_octets True sample_icv)"
proof -
  have "sad_verify (k_data sample_key) (sample_head True) sample_icv 16 = 0" by (simp add: sad_verify_def sample_hash)
  moreover have "m_buf sample_message = sample_octets False sample_icv" "m_tlv_list sample_message = sample_tlvs" by (simp_all add: message_def)
  moreover have "offsetof ptp_header_layout ''sequenceId'' = 30" "offsetof ptp_header_layout ''tsmt'' = 0"
    by (simp_all add: ptp_header_layout_def PortIdentity_layout_def ClockIdentity_layout_def sub_def)
  ultimately show ?thesis
    by (simp add: Let_def sad_process_auth_def sad_check_auth_tlv_def sample_fields sample_assoc sample_slices sample_flags sample_lengths
      msg_type_def sad_check_seqid_def)
qed

theorem sad_process_auth_iff_witness:
  "auth_ok sample_sa (sample_octets False sample_icv) (stripped sample_sa (sample_octets True sample_icv)) 44"
proof -
  have "16 \<le> length (sample_octets True sample_icv)" by (simp add: sample_octets_def sample_lengths)
  moreover have "is_auth (sample_octets False sample_icv) (hd sample_tlvs)" by (simp add: is_auth_def sample_fields)
  moreover have "m_tlv_list sample_message = sample_tlvs" "m_buf sample_message = sample_octets False sample_icv" by (simp_all add: message_def)
  ultimately show ?thesis
    using sad_process_auth_iff [of 7 "sample_octets True sample_icv" "[sample_sa]" sample_message] sample_accepted by (auto simp: sample_assoc)
qed

theorem sad_process_auth_memory_safe_witness:
  "\<exists>m' err raw'. msg_post_recv \<lparr>tv_sec = 0, tv_nsec = 0\<rparr> 8 (message (sample_octets True sample_icv)) 70 = Some (None, m') \<and>
    sad_process_auth [sample_sa] 7 (m'\<lparr>m_buf := take 70 (m_buf m')\<rparr>) (take 70 (sample_octets True sample_icv)) = Some (err, raw')"
proof -
  let ?now = "\<lparr>tv_sec = 0, tv_nsec = 0\<rparr>" and ?m = "message (sample_octets True sample_icv)"
  have "map_option (\<lambda>(e, m). (e, rd16 (m_buf m) 2)) (msg_post_recv ?now 8 ?m 70) = Some (None, Some 70)" by code_simp
  then obtain m' where m': "msg_post_recv ?now 8 ?m 70 = Some (None, m')" "rd16 (m_buf m') 2 = Some 70" by auto
  have "length (m_buf ?m) = 86" by (simp add: message_def sample_len)
  then show ?thesis
    using sad_process_auth_memory_safe [OF _ _ m'(1), of "sample_octets True sample_icv" "[sample_sa]" 7] m' by (auto simp: sample_len)
qed

lemma sample_generated:
  "sad_generate_icv sample_sa sample_key (sample_octets True (replicate 16 0)) 54 = Some (16, sample_octets True sample_icv)"
proof -
  have "octets 8 8 (sample_octets True (replicate 16 0)) = Some no_correction"
    by (simp add: octets_def sample_octets_def sample_head_def numeral_eq_Suc)
  moreover have "overlay (sample_octets True (replicate 16 0)) 54 sample_icv = sample_octets True sample_icv"
    using sample_lengths by (simp add: overlay_def sample_octets_def)
  ultimately show ?thesis
    using sample_lengths
    by (simp add: sad_generate_icv_def sample_slices sample_hash sample_assoc sample_flags poke_def) (simp add: sample_octets_def sample_lengths)
qed

lemma sample_updated: "sad_update_auth_tlv [sample_sa] sample_tlvs (sample_octets True (replicate 16 0)) = Some (0, sample_octets True sample_icv)"
  by (simp add: sample_fields sample_assoc auth_fields Let_def sample_generated)

theorem sad_update_signs_all_witness: "signed [sample_sa] (sample_octets True sample_icv) 44"
proof -
  have "net_tiles 44 70 (sample_octets True (replicate 16 0)) sample_tlvs" by (simp add: sample_fields)
  moreover have "70 \<le> length (sample_octets True (replicate 16 0))" by (simp add: sample_octets_def sample_lengths)
  moreover have "\<forall>sa \<in> set [sample_sa]. \<forall>key \<in> set (sa_keys sa). lib_ok (k_data key)"
    by (auto simp: sample_sa_def sample_key_def echo_mac_def min_def)
  ultimately show ?thesis using sad_update_signs_all [OF _ _ _ sample_updated, of 44 70] by simp
qed

end
