(* ===== verification/Base64.thy ===== *)
theory Base64
  imports Util
begin

text \<open>
  The base 64 decoder of \<open>util.c\<close> against the encoding of RFC 4648: the text of any octets, with its padding, is decoded to these
  octets, also when the result overwrites the text from its start, as \<open>sad.c\<close> has it.
\<close>

unbundle bit_operations_syntax

section \<open>The encoding\<close>

definition B64_alphabet :: "u8 list" where
  "B64_alphabet = [65, 66, 67, 68, 69, 70, 71, 72, 73, 74, 75, 76, 77, 78, 79, 80, 81, 82, 83, 84, 85, 86, 87, 88, 89, 90, 97, 98, 99,
     100, 101, 102, 103, 104, 105, 106, 107, 108, 109, 110, 111, 112, 113, 114, 115, 116, 117, 118, 119, 120, 121, 122, 48, 49, 50,
     51, 52, 53, 54, 55, 56, 57, 43, 47]"

definition enc6 :: "u8 \<Rightarrow> u8" where
  "enc6 d = B64_alphabet ! unat d"

text \<open>The sextets of three octets.\<close>

definition sextets :: "u8 \<Rightarrow> u8 \<Rightarrow> u8 \<Rightarrow> u8 list" where
  "sextets a b c = [drop_bit 2 a, push_bit 4 (a AND 3) OR drop_bit 4 b, push_bit 2 (b AND 15) OR drop_bit 6 c, c AND 63]"

fun b64_encode :: "u8 list \<Rightarrow> u8 list" where
  "b64_encode [] = []"
| "b64_encode [a] = map enc6 (take 2 (sextets a 0 0)) @ [61, 61]"
| "b64_encode [a, b] = map enc6 (take 3 (sextets a b 0)) @ [61]"
| "b64_encode (a # b # c # r) = map enc6 (sextets a b c) @ b64_encode r"

section \<open>Bits\<close>

lemma u8_eqI: "(\<And>n. n = 0 \<or> n = 1 \<or> n = 2 \<or> n = 3 \<or> n = 4 \<or> n = 5 \<or> n = 6 \<or> n = 7 \<Longrightarrow> bit a n = bit b n) \<Longrightarrow> a = (b :: u8)"
proof (rule bit_word_eqI)
  fix n assume e: "\<And>n. n = 0 \<or> n = 1 \<or> n = 2 \<or> n = 3 \<or> n = 4 \<or> n = 5 \<or> n = 6 \<or> n = 7 \<Longrightarrow> bit a n = bit b n"
  assume "n < LENGTH(8)"
  then have "n = 0 \<or> n = 1 \<or> n = 2 \<or> n = 3 \<or> n = 4 \<or> n = 5 \<or> n = 6 \<or> n = 7" by simp presburger
  then show "bit a n = bit b n" by (rule e)
qed

lemma join_bits:
  "(push_bit 2 (drop_bit 2 a) AND 0xfc) OR (drop_bit 4 (push_bit 4 (a AND 3) OR drop_bit 4 b) AND 0x03) = (a :: u8)"
  "(push_bit 4 (push_bit 4 (a AND 3) OR drop_bit 4 b) AND 0xf0) OR (drop_bit 2 (push_bit 2 (b AND 15) OR drop_bit 6 c) AND 0x0f) = (b :: u8)"
  "(push_bit 6 (push_bit 2 (b AND 15) OR drop_bit 6 c) AND 0xc0) OR ((c AND 63) AND 0x3f) = (c :: u8)"
  by (rule u8_eqI, elim disjE; simp add: bit_simps)+

lemma high_bit: "8 \<le> n \<Longrightarrow> bit (w :: u8) n = False"
  using bit_imp_le_length [of w n] by auto

lemma six_bits: "list_all (\<lambda>d. d AND 63 = d) (sextets a b c)"
proof -
  have "drop_bit 2 a AND 63 = drop_bit 2 a" "(push_bit 4 (a AND 3) OR drop_bit 4 b) AND 63 = (push_bit 4 (a AND 3) OR drop_bit 4 b)"
    "(push_bit 2 (b AND 15) OR drop_bit 6 c) AND 63 = (push_bit 2 (b AND 15) OR drop_bit 6 c)" "(c AND 63) AND 63 = c AND 63"
    by (rule u8_eqI, elim disjE; simp add: bit_simps high_bit)+
  then show ?thesis by (simp add: sextets_def)
qed

lemma six_less: "d AND 63 = d \<Longrightarrow> unat (d :: u8) < 64"
proof -
  assume "d AND 63 = d"
  moreover have "take_bit 6 d = d AND 63" by (simp add: take_bit_eq_mask mask_eq_exp_minus_1)
  ultimately have "unat d = take_bit 6 (unat d)" by (metis unsigned_take_bit_eq)
  also have "\<dots> < 2 ^ 6" by (rule take_bit_nat_less_exp)
  finally show ?thesis by simp
qed

lemma alphabet_inverse: "list_all (\<lambda>p. parseB64 (snd p) = fst p \<and> snd p \<noteq> 61) (zip [0..63] B64_alphabet)"
  by code_simp

lemma parse_enc6:
  assumes "unat d < 64"
  shows "parseB64 (enc6 d) = uint d" "enc6 d \<noteq> 61"
proof -
  have len: "length B64_alphabet = 64" by (simp add: B64_alphabet_def)
  have "int (unat d) \<le> 63" using assms by linarith
  then have u: "[0..63] ! unat d = int (unat d)" by (subst nth_upto) simp_all
  have l: "unat d < length [0..63]" "unat d < length B64_alphabet" using assms len by simp_all
  then have z: "unat d < length (zip [0..63] B64_alphabet)" by (simp only: length_zip min_less_iff_conj simp_thms)
  have "zip [0..63] B64_alphabet ! unat d = (int (unat d), enc6 d)"
    unfolding nth_zip [OF l] enc6_def u ..
  then have "(int (unat d), enc6 d) \<in> set (zip [0..63] B64_alphabet)" using nth_mem [OF z] by simp
  then show "parseB64 (enc6 d) = uint d" "enc6 d \<noteq> 61" using alphabet_inverse by (auto simp: list_all_iff)
qed

lemma sextets_parse: "d \<in> set (sextets a b c) \<Longrightarrow> parseB64 (enc6 d) = uint d \<and> enc6 d \<noteq> 61"
  using six_bits [of a b c] six_less parse_enc6 by (auto simp: list_all_iff)

lemma quad_sextets: "quad_bytes (sextets a b c ! 0) (sextets a b c ! 1) (sextets a b c ! 2) (sextets a b c ! 3) = [a, b, c]"
proof -
  have s: "sextets a b c ! 0 = drop_bit 2 a" "sextets a b c ! 1 = push_bit 4 (a AND 3) OR drop_bit 4 b"
    "sextets a b c ! 2 = push_bit 2 (b AND 15) OR drop_bit 6 c" "sextets a b c ! 3 = c AND 63" by (simp_all add: sextets_def)
  show ?thesis unfolding quad_bytes_def s join_bits ..
qed

section \<open>Memory\<close>

definition segment :: "u8 list \<Rightarrow> nat \<Rightarrow> u8 list \<Rightarrow> bool" where
  "segment m i t \<longleftrightarrow> i + length t \<le> length m \<and> take (length t) (drop i m) = t"

lemma segment_nth: "segment m i t \<Longrightarrow> k < length t \<Longrightarrow> m ! (i + k) = t ! k"
  unfolding segment_def by (metis add_leD1 nth_drop nth_take)

lemma segment_append: "segment m i (s @ t) \<longleftrightarrow> segment m i s \<and> segment m (i + length s) t"
  by (auto simp: segment_def take_add add.assoc append_eq_append_conv add.commute [of i "length s"])

lemma read_segment:
  assumes "segment m i (map enc6 ds)" and "\<And>d. d \<in> set ds \<Longrightarrow> parseB64 (enc6 d) = uint d"
  shows "read_b64 m i (length ds) = Some ds"
proof -
  have "map (\<lambda>k. parseB64 (m ! (i + k))) [0..<length ds] = map uint ds"
    using segment_nth [OF assms(1)] assms(2) by (intro nth_equalityI) simp_all
  then show ?thesis by (simp add: read_b64_def list_ex_iff o_def)
qed

lemma length_overlay [simp]: "cur + length bs \<le> length m \<Longrightarrow> length (overlay m cur bs) = length m"
  by (simp add: overlay_def)

lemma overlay_Cons: "cur < length m \<Longrightarrow> overlay (m[cur := b]) (Suc cur) bs = overlay m cur (b # bs)"
  by (simp add: overlay_def take_Suc_conv_app_nth)

lemma put_bytes_overlay:
  "length bs \<le> len \<Longrightarrow> cur + length bs \<le> length m \<Longrightarrow>
    put_bytes m cur len bs = (overlay m cur bs, cur + length bs, len - length bs)"
proof (induction bs arbitrary: m cur len)
  case Nil
  then show ?case by (simp add: overlay_def)
next
  case (Cons b bs)
  then show ?case by (simp add: overlay_Cons)
qed

lemma overlay_append:
  assumes "cur + length (s @ t) \<le> length m"
  shows "overlay (overlay m cur s) (cur + length s) t = overlay m cur (s @ t)"
  using assms by (simp add: overlay_def ac_simps)

lemma segment_overlay: "segment m i t \<Longrightarrow> cur + length bs \<le> i \<Longrightarrow> segment (overlay m cur bs) i t"
  by (simp add: segment_def overlay_def)

section \<open>Decoding\<close>

lemma length_sextets [simp]: "length (sextets a b c) = 4"
  by (simp add: sextets_def)

lemma encode_pos: "bs \<noteq> [] \<Longrightarrow> 4 \<le> length (b64_encode bs)"
  by (cases bs rule: b64_encode.cases) auto

text \<open>The loop decodes all but the last group of one to three octets.\<close>

lemma loop_decodes:
  assumes "bs \<noteq> []" "segment m inp (b64_encode bs)" "cur \<le> inp" "length bs \<le> len"
  shows "\<exists>pre lst. bs = pre @ lst \<and> lst \<noteq> [] \<and> length lst \<le> 3 \<and>
    b64_loop m inp (length (b64_encode bs)) cur len =
      Some (overlay m cur pre, inp + length (b64_encode pre), 4, cur + length pre, len - length pre) \<and>
    segment (overlay m cur pre) (inp + length (b64_encode pre)) (b64_encode lst) \<and> length pre \<le> length (b64_encode pre) \<and>
    cur + length pre \<le> length m"
  using assms
proof (induction bs arbitrary: m inp cur len rule: b64_encode.induct)
  case (4 a b c r)
  let ?q = "map enc6 (sextets a b c)"
  have seg: "segment m inp ?q" "segment m (inp + 4) (b64_encode r)"
    using "4.prems"(2) segment_append [of m inp ?q "b64_encode r"] by simp_all
  show ?case
  proof (cases "r = []")
    case True
    then show ?thesis using seg(1) "4.prems"(3)
      by (intro exI [of _ "[]"] exI [of _ "[a, b, c]"]) (simp add: b64_loop.simps overlay_def segment_def)
  next
    case False
    have rd: "read_b64 m inp 4 = Some (sextets a b c)" using read_segment [OF seg(1)] sextets_parse by force
    let ?m = "overlay m cur [a, b, c]"
    have fit: "cur + 3 \<le> length m" "3 \<le> len" using seg(1) "4.prems"(3,4) by (simp_all add: segment_def)
    have pb: "put_bytes m cur len [a, b, c] = (?m, cur + 3, len - 3)" using put_bytes_overlay [of "[a, b, c]" len cur m] fit by simp
    have step: "b64_loop m inp (4 + length (b64_encode r)) cur len = b64_loop ?m (inp + 4) (length (b64_encode r)) (cur + 3) (len - 3)"
    proof -
      have "b64_encode r \<noteq> []" using encode_pos [OF False] by auto
      then show ?thesis using rd pb quad_sextets [of a b c] by (subst b64_loop.simps) simp
    qed
    have s2: "segment ?m (inp + 4) (b64_encode r)" using segment_overlay [OF seg(2)] "4.prems"(3) by simp
    have c1: "cur + 3 \<le> inp + 4" and c2: "length r \<le> len - 3" using "4.prems"(3,4) by simp_all
    obtain pre lst where IH: "r = pre @ lst" "lst \<noteq> []" "length lst \<le> 3"
        "b64_loop ?m (inp + 4) (length (b64_encode r)) (cur + 3) (len - 3) =
          Some (overlay ?m (cur + 3) pre, inp + 4 + length (b64_encode pre), 4, cur + 3 + length pre, len - 3 - length pre)"
        "segment (overlay ?m (cur + 3) pre) (inp + 4 + length (b64_encode pre)) (b64_encode lst)" "length pre \<le> length (b64_encode pre)"
        "cur + 3 + length pre \<le> length ?m"
      using "4.IH" [OF False s2 c1 c2] by blast
    have l: "cur + 3 + length pre \<le> length m" using IH(7) fit by simp
    then have ov: "overlay ?m (cur + 3) pre = overlay m cur (a # b # c # pre)"
      using overlay_append [of cur "[a, b, c]" pre m] by (simp add: numeral_3_eq_3)
    show ?thesis
      using IH step ov l by (intro exI [of _ "a # b # c # pre"] exI [of _ lst]) (simp add: ac_simps)
  qed
next
  case (2 a)
  then show ?case by (intro exI [of _ "[]"] exI [of _ "[a]"]) (simp add: b64_loop.simps overlay_def segment_def)
next
  case (3 a b)
  then show ?case by (intro exI [of _ "[]"] exI [of _ "[a, b]"]) (simp add: b64_loop.simps overlay_def segment_def)
qed simp

text \<open>The last group.\<close>

lemma take_quad:
  "take 1 (quad_bytes (sextets a 0 0 ! 0) (sextets a 0 0 ! 1) 0 0) = [a]"
  "take 2 (quad_bytes (sextets a b 0 ! 0) (sextets a b 0 ! 1) (sextets a b 0 ! 2) 0) = [a, b]"
proof -
  have s: "sextets a b 0 ! 2 = push_bit 2 (b AND 15)" "sextets a b 0 ! 3 = 0" for a b by (simp_all add: sextets_def)
  show "take 1 (quad_bytes (sextets a 0 0 ! 0) (sextets a 0 0 ! 1) 0 0) = [a]" using quad_sextets [of a 0 0] by (simp add: s)
  show "take 2 (quad_bytes (sextets a b 0 ! 0) (sextets a b 0 ! 1) (sextets a b 0 ! 2) 0) = [a, b]" using quad_sextets [of a b 0] s(2) by simp
qed

lemma read_prefix:
  assumes "segment m i (map enc6 (take n (sextets a b c)) @ e)" "n \<le> 4"
  shows "read_b64 m i n = Some (take n (sextets a b c))"
    "k < n \<Longrightarrow> m ! (i + k) \<noteq> 61"
proof -
  have s: "segment m i (map enc6 (take n (sextets a b c)))" using assms(1) by (simp only: segment_append)
  have "\<And>d. d \<in> set (take n (sextets a b c)) \<Longrightarrow> parseB64 (enc6 d) = uint d" using sextets_parse in_set_takeD by metis
  from read_segment [OF s this] show "read_b64 m i n = Some (take n (sextets a b c))" using assms(2) by simp
  assume "k < n"
  then have "m ! (i + k) = enc6 (sextets a b c ! k)" "sextets a b c ! k \<in> set (sextets a b c)"
    using segment_nth [OF s, of k] assms(2) by simp_all
  then show "m ! (i + k) \<noteq> 61" using sextets_parse by simp
qed

lemma last_group:
  assumes "lst \<noteq> []" "length lst \<le> 3" "segment m i (b64_encode lst)"
  shows "unpadded m i 4 = Suc (length lst) \<and> (\<exists>d. read_b64 m i (Suc (length lst)) = Some d \<and> take (length lst)
       (quad_bytes (d ! 0) (d ! 1) (if 2 < Suc (length lst) then d ! 2 else 0) (if Suc (length lst) = 4 then d ! 3 else 0)) = lst)"
proof (cases lst rule: b64_encode.cases)
  case (2 a)
  have s: "segment m i (map enc6 (take 2 (sextets a 0 0)) @ [61, 61])" using assms(3) 2 by (simp only: b64_encode.simps)
  have "m ! (i + 2) = 61" "m ! (i + 3) = 61" using segment_nth [OF s, of 2] segment_nth [OF s, of 3] by (simp_all add: nth_append)
  then show ?thesis using read_prefix(1) [OF s] take_quad(1) [of a] 2 by (simp add: unpadded_def numeral_2_eq_2 [symmetric])
next
  case (3 a b)
  have s: "segment m i (map enc6 (take 3 (sextets a b 0)) @ [61])" using assms(3) 3 by (simp only: b64_encode.simps)
  have "m ! (i + 3) = 61" "m ! (i + 2) \<noteq> 61" using segment_nth [OF s, of 3] read_prefix(2) [OF s, of 2] by (simp_all add: nth_append)
  then show ?thesis using read_prefix(1) [OF s] take_quad(2) [of a b] 3 by (simp add: unpadded_def numeral_3_eq_3 [symmetric] numeral_2_eq_2)
next
  case (4 a b c r)
  then have e: "lst = [a, b, c]" using assms(2) by simp
  have s: "segment m i (map enc6 (take 4 (sextets a b c)) @ [])" using assms(3) e by simp
  have "m ! (i + 3) \<noteq> 61" using read_prefix(2) [OF s, of 3] by simp
  then show ?thesis using read_prefix(1) [OF s] quad_sextets [of a b c] e by (simp add: unpadded_def eval_nat_numeral)
qed (use assms(1) in simp)

lemma encode_len4: "length (b64_encode bs) mod 4 = 0"
  by (induction bs rule: b64_encode.induct) (simp_all add: mod_add_self1)

lemma len_encode: "base64_len (b64_encode bs) = int (length bs)"
proof (induction bs rule: b64_encode.induct)
  case (4 a b c r)
  have q: "base64_len (map enc6 (sextets a b c) @ t) = 3 + base64_len t" if "4 \<le> length t" "length t mod 4 = 0" for t
  proof -
    have "length t div 4 + 1 = (4 + length t) div 4" and "t \<noteq> []" using that by auto
    then show ?thesis using that by (simp add: base64_len_def nth_append)
  qed
  have "enc6 (sextets a b c ! k) \<noteq> 61" if "k < 4" for k using sextets_parse [of "sextets a b c ! k" a b c] that by simp
  from this [of 3] this [of 2] have "base64_len (map enc6 (sextets a b c)) = 3" by (simp add: base64_len_def)
  then show ?case using 4 q [of "b64_encode r"] encode_pos [of r] encode_len4 [of r] by (cases "r = []") simp_all
next
  case (3 a b)
  have "enc6 (sextets a b 0 ! 2) \<noteq> 61" using sextets_parse [of "sextets a b 0 ! 2" a b 0] by simp
  then show ?case by (simp add: base64_len_def nth_append)
next
  case (2 a)
  show ?case by (simp add: base64_len_def nth_append)
qed (simp add: base64_len_def)

lemma decode_encode:
  assumes "bs \<noteq> []" "segment m inp (b64_encode bs)" "out \<le> inp" "length bs \<le> out_len"
  shows "base64_decode m inp (length (b64_encode bs)) out out_len = Some (overlay m out bs, length bs)"
proof -
  obtain pre lst where L: "bs = pre @ lst" "lst \<noteq> []" "length lst \<le> 3"
    "b64_loop m inp (length (b64_encode bs)) out out_len =
      Some (overlay m out pre, inp + length (b64_encode pre), 4, out + length pre, out_len - length pre)"
    "segment (overlay m out pre) (inp + length (b64_encode pre)) (b64_encode lst)" "length pre \<le> length (b64_encode pre)"
    "out + length pre \<le> length m"
    using loop_decodes [OF assms] by blast
  let ?m = "overlay m out pre" and ?i = "inp + length (b64_encode pre)"
  obtain d where d: "read_b64 ?m ?i (Suc (length lst)) = Some d"
    "take (length lst) (quad_bytes (d ! 0) (d ! 1) (if 2 < Suc (length lst) then d ! 2 else 0)
       (if Suc (length lst) = 4 then d ! 3 else 0)) = lst"
    using last_group [OF L(2,3,5)] by blast
  have "?i + length (b64_encode lst) \<le> length m" using L(5,7) by (simp add: segment_def)
  then have fit: "out + length pre + length lst \<le> length m"
    using L(3,6) assms(3) encode_pos [OF L(2)] by linarith
  have "put_bytes ?m (out + length pre) (out_len - length pre) lst =
      (overlay m out bs, out + length bs, out_len - length bs)"
    using put_bytes_overlay [of lst "out_len - length pre" "out + length pre" ?m] overlay_append [of out pre lst m] fit L(1,7) assms(4)
    by (simp add: add.assoc)
  then show ?thesis
    using L(4) last_group [OF L(2,3,5)] d assms(4) by (simp add: base64_decode_def)
qed

text \<open>C30. Decoding inverts the encoding of RFC 4648: from the text of any octets, padding included, the decoder stores exactly these
  octets, reports their number and changes nothing else, also when the output starts at or before the text and so overwrites it, as
  when a key is decoded in place. The size computed beforehand is the number of these octets.\<close>

theorem base64_decode_encode:
  assumes "bs \<noteq> []" "segment m inp (b64_encode bs)" "out \<le> inp" "length bs \<le> out_len"
  shows "base64_decode m inp (length (b64_encode bs)) out out_len = Some (overlay m out bs, length bs)
    \<and> base64_len (b64_encode bs) = int (length bs)"
  using decode_encode [OF assms] len_encode by simp

theorem base64_decode_encode_witness:
  "base64_decode (b64_encode [76, 121, 110, 120] @ [0]) 0 8 0 6 = Some ([76, 121, 110, 120, 101, 65, 61, 61, 0], 4)"
proof -
  have e: "b64_encode [76, 121, 110, 120] = [84, 72, 108, 117, 101, 65, 61, 61]" by code_simp
  have "segment (b64_encode [76, 121, 110, 120] @ [0]) 0 (b64_encode [76, 121, 110, 120])" by (simp add: segment_def del: b64_encode.simps)
  from base64_decode_encode [OF _ this, of 0 6] show ?thesis by (simp add: e overlay_def eval_nat_numeral del: b64_encode.simps)
qed

end
