(* ===== verification/Sad_Spec.thy ===== *)
theory Sad_Spec
  imports Sad_Config Sad_Props Base64 Util_Props
begin

text \<open>
  The database of security associations: what every file leaves in it, and the texts of keys.
\<close>

unbundle bit_operations_syntax

section \<open>The database\<close>

definition key_wf :: "(string \<Rightarrow> nettle_mac option) \<Rightarrow> security_association_key \<Rightarrow> bool" where
  "key_wf macs key \<longleftrightarrow> k_icv key \<in> set supported_algorithms \<and> k_id key \<noteq> 0 \<and> md_key (k_data key) \<noteq> [] \<and>
    alg_key_len (k_icv key) \<in> {0, length (md_key (k_data key))} \<and>
    Option.bind (mac_name (alg_type (k_icv key))) macs = Some (md_mac (k_data key))"

definition sa_wf :: "(string \<Rightarrow> nettle_mac option) \<Rightarrow> security_association \<Rightarrow> bool" where
  "sa_wf macs sa \<longleftrightarrow> distinct (map k_id (sa_keys sa)) \<and> list_all (key_wf macs) (sa_keys sa) \<and> \<not> seqnum_ind sa \<and> \<not> res_ind sa \<and>
    immediate_ind sa \<and> uint (seqid_window sa) \<le> 32767 \<and> - 1 \<le> last_seqid sa \<and> last_seqid sa < 65536"

definition db_wf :: "(string \<Rightarrow> nettle_mac option) \<Rightarrow> sadb \<Rightarrow> bool" where
  "db_wf macs db \<longleftrightarrow> distinct (map sa_spp (associations db)) \<and> distinct (map sa_addr (associations db)) \<and>
    list_all (\<lambda>sa. sa_addr sa < next_addr db \<and> sa_wf macs sa) (associations db) \<and>
    (case current_sa db of None \<Rightarrow> True | Some a \<Rightarrow> a \<in> sa_addr ` set (associations db))"

lemma put_sa_wf:
  assumes "db_wf macs db" "old \<in> set (associations db)" "sa_addr sa = sa_addr old" "sa_spp sa = sa_spp old" "sa_wf macs sa"
  shows "db_wf macs (put_sa db sa)"
proof -
  have o: "x = old" if "x \<in> set (associations db)" "sa_addr x = sa_addr old" for x
    using assms(1,2) that by (auto simp: db_wf_def distinct_map dest: inj_onD)
  have m: "map f (associations (put_sa db sa)) = map f (associations db)" if "f sa = f old" for f :: "security_association \<Rightarrow> 'b"
    using o that assms(3) by (auto simp: put_sa_def)
  have "sa_addr ` set (associations (put_sa db sa)) = sa_addr ` set (associations db)"
    using arg_cong [OF m [of sa_addr], of set] assms(3) by simp
  moreover have "list_all (\<lambda>sa. sa_addr sa < next_addr db \<and> sa_wf macs sa) (associations (put_sa db sa))"
    using assms(1,2,3,5) by (auto simp: db_wf_def put_sa_def list_all_iff)
  moreover have "current_sa (put_sa db sa) = current_sa db" "next_addr (put_sa db sa) = next_addr db" by (simp_all add: put_sa_def)
  ultimately show ?thesis using assms(1,3,4) m [of sa_addr] m [of sa_spp] by (simp add: db_wf_def split: option.splits)
qed

text \<open>Every setting of the current association is made in it, or refused.\<close>

definition ok_result :: "(string \<Rightarrow> nettle_mac option) \<Rightarrow> sad_result \<Rightarrow> bool" where
  "ok_result macs r \<longleftrightarrow> (\<exists>err db. r = Some (err, db) \<and> db_wf macs db)"

lemma with_current_ok:
  assumes "db_wf macs db" "\<And>sa. sa \<in> set (associations db) \<Longrightarrow> sa_wf macs sa \<Longrightarrow> ok_result macs (f sa)"
  shows "ok_result macs (with_current db f)"
proof (cases "current_sa db")
  case None
  then show ?thesis using assms(1) by (simp add: with_current_def ok_result_def)
next
  case (Some a)
  then obtain sa where "find (\<lambda>sa. sa_addr sa = a) (associations db) = Some sa"
    using assms(1) by (cases "find (\<lambda>sa. sa_addr sa = a) (associations db)") (auto simp: db_wf_def find_None_iff)
  moreover from this have "sa \<in> set (associations db)" by (auto simp: find_Some_iff)
  moreover from this have "sa_wf macs sa" using assms(1) by (simp add: db_wf_def list_all_iff)
  ultimately show ?thesis using Some assms(2) by (simp add: with_current_def)
qed

lemma ok_fail: "db_wf macs db \<Longrightarrow> ok_result macs (Some (err, db))"
  by (simp add: ok_result_def)

lemma ok_put:
  "db_wf macs db \<Longrightarrow> old \<in> set (associations db) \<Longrightarrow> sa_addr sa = sa_addr old \<Longrightarrow> sa_spp sa = sa_spp old \<Longrightarrow> sa_wf macs sa \<Longrightarrow>
    ok_result macs (Some (err, put_sa db sa))"
  using put_sa_wf by (simp add: ok_result_def)

lemma set_ok:
  assumes "db_wf macs db"
    and "\<And>sa. sa_wf macs sa \<Longrightarrow> \<not> P sa \<Longrightarrow> sa_addr (g sa) = sa_addr sa \<and> sa_spp (g sa) = sa_spp sa \<and> sa_wf macs (g sa)"
  shows "ok_result macs (with_current db (\<lambda>sa. if P sa then Some (- 1, db) else Some (0, put_sa db (g sa))))"
proof (rule with_current_ok [OF assms(1)])
  fix sa assume "sa \<in> set (associations db)" "sa_wf macs sa"
  then show "ok_result macs (if P sa then Some (- 1, db) else Some (0, put_sa db (g sa)))"
    using assms ok_put [OF assms(1), of sa "g sa"] by (simp add: ok_fail)
qed

lemma settings_ok:
  assumes "db_wf macs db"
  shows "ok_result macs (sad_config_sa_seqnum_len db v)" "ok_result macs (sad_config_sa_seqid_window db v)"
    "ok_result macs (sad_config_sa_res_len db v)" "ok_result macs (sad_config_sa_mutable db v)"
proof -
  have w: "uint (word_of_int v :: u16) \<le> 32767" if "\<not> (v < 0 \<or> 32767 < v)"
    using that by (simp add: unsigned_of_int take_bit_int_eq_self)
  show "ok_result macs (sad_config_sa_seqnum_len db v)" unfolding sad_config_sa_seqnum_len_def
    by (rule set_ok [OF assms]) (simp add: sa_wf_def)
  show "ok_result macs (sad_config_sa_seqid_window db v)" unfolding sad_config_sa_seqid_window_def
    by (rule set_ok [OF assms]) (use w in \<open>simp add: sa_wf_def\<close>)
  show "ok_result macs (sad_config_sa_res_len db v)" unfolding sad_config_sa_res_len_def
    by (rule set_ok [OF assms]) (simp add: sa_wf_def)
  show "ok_result macs (sad_config_sa_mutable db v)" unfolding sad_config_sa_mutable_def
    by (rule set_ok [OF assms]) (simp add: sa_wf_def)
qed

lemma switch_ok:
  assumes "db_wf macs db"
  shows "ok_result macs (Some (sad_config_switch_security_association mem db spp))"
proof -
  have new: "word_of_int spp \<notin> sa_spp ` set (associations db)" if "0 \<le> spp" "spp \<le> 255" "\<forall>x \<in> set (associations db). uint (sa_spp x) \<noteq> spp"
  proof
    assume "word_of_int spp \<in> sa_spp ` set (associations db)"
    then obtain x where "x \<in> set (associations db)" "sa_spp x = word_of_int spp" by auto
    moreover from this have "uint (sa_spp x) = spp" using that(1,2) by (simp add: unsigned_of_int take_bit_int_eq_self)
    ultimately show False using that(3) by blast
  qed
  have fresh: "next_addr db \<notin> sa_addr ` set (associations db)" using assms by (auto simp: db_wf_def list_all_iff)
  show ?thesis
  proof (cases "spp < 0 \<or> 255 < spp \<or> list_ex (\<lambda>sa. uint (sa_spp sa) = spp) (associations db) \<or> \<not> mem")
    case True
    then show ?thesis using assms by (auto simp: sad_config_switch_security_association_def ok_result_def db_wf_def Let_def)
  next
    case False
    then show ?thesis using assms fresh new
      by (simp add: sad_config_switch_security_association_def ok_result_def db_wf_def Let_def list_all_iff list_ex_iff sa_wf_def less_SucI)
  qed
qed

lemma key_ok:
  assumes "db_wf macs db"
  shows "ok_result macs (sad_config_security_association_key macs mem db key_id icv_str spec_len key_str)"
proof -
  have k: "unat (of_nat key_id :: u32) = key_id" if "int key_id \<le> 2 ^ 32 - 1"
    using that by (simp add: unsigned_of_nat take_bit_nat_eq_self)
  have "key_wf macs \<lparr>k_icv = icv, k_data = data, k_id = of_nat key_id\<rparr>"
    if "find (\<lambda>icv. strcaseeq (alg_label icv) icv_str) supported_algorithms = Some icv" "sad_init_mac macs (snd mem) (alg_type icv) key = Some data"
      "\<not> (0 < alg_key_len icv \<and> length key \<noteq> alg_key_len icv)" "\<not> (key_id < 1 \<or> 2 ^ 32 - 1 < int key_id)" for icv data key
  proof -
    have "icv \<in> set supported_algorithms" using that(1) by (auto simp: find_Some_iff)
    moreover have "(of_nat key_id :: u32) \<noteq> 0" using k that(4) by (metis less_one linorder_not_le not_less_iff_gr_or_eq unsigned_0)
    ultimately show ?thesis using that(2,3)
      by (auto simp: key_wf_def sad_init_mac_def split: if_splits option.splits)
  qed
  note new = this
  show ?thesis
    unfolding sad_config_security_association_key_def
  proof (rule with_current_ok [OF assms])
    fix sa assume sa: "sa \<in> set (associations db)" "sa_wf macs sa"
    have put: "ok_result macs (Some (0, put_sa db (sa\<lparr>sa_keys := sa_keys sa @ [\<lparr>k_icv = icv, k_data = data, k_id = of_nat key_id\<rparr>]\<rparr>)))"
      if "key_wf macs \<lparr>k_icv = icv, k_data = data, k_id = of_nat key_id\<rparr>" "\<not> list_ex (\<lambda>key. unat (k_id key) = key_id) (sa_keys sa)"
        "\<not> (key_id < 1 \<or> 2 ^ 32 - 1 < int key_id)" for icv data
    proof -
      have "(of_nat key_id :: u32) \<notin> k_id ` set (sa_keys sa)" using that(2,3) k by (auto simp: list_ex_iff)
      then show ?thesis using that(1) sa(2) by (intro ok_put [OF assms sa(1)]) (auto simp: sa_wf_def)
    qed
    show "ok_result macs (if key_id < 1 \<or> 2 ^ 32 - 1 < int key_id then Some (- 1, db)
      else if list_ex (\<lambda>key. unat (k_id key) = key_id) (sa_keys sa) then Some (- 1, db)
      else if \<not> fst mem then Some (- 1, db)
      else case find (\<lambda>icv. strcaseeq (alg_label icv) icv_str) supported_algorithms of
        None \<Rightarrow> Some (- 1, db)
      | Some icv \<Rightarrow>
          (case key_octets key_str of
             None \<Rightarrow> Some (- 1, db)
           | Some key \<Rightarrow>
               if 0 < spec_len \<and> length key \<noteq> spec_len then Some (- 1, db)
               else if 0 < alg_key_len icv \<and> length key \<noteq> alg_key_len icv then Some (- 1, db)
               else if length key < 1 then Some (- 1, db)
               else if MAX_DIGEST_LENGTH < alg_digest_len icv \<or> alg_digest_len icv < 2 \<or> odd (alg_digest_len icv) then Some (- 1, db)
               else case sad_init_mac macs (snd mem) (alg_type icv) key of
                 None \<Rightarrow> Some (- 1, db)
               | Some data \<Rightarrow>
                   Some (0, put_sa db (sa\<lparr>sa_keys := sa_keys sa @ [\<lparr>k_icv = icv, k_data = data, k_id = of_nat key_id\<rparr>]\<rparr>))))"
      using new put ok_fail [OF assms] by (simp split: option.split)
  qed
qed

lemma line_ok:
  assumes "db_wf macs db"
  shows "ok_result macs (sad_parse_security_association_line macs mem db line)"
  using settings_ok [OF assms] switch_ok [OF assms] key_ok [OF assms] ok_fail [OF assms]
  by (auto simp: sad_parse_security_association_line_def split: option.splits)

lemma discard_wf:
  assumes "db_wf macs db"
  shows "db_wf macs (db\<lparr>associations := filter P (associations db), current_sa := None\<rparr>)"
  using assms by (auto simp: db_wf_def list_all_iff distinct_map_filter)

lemma sad_line_ok: "db_wf macs db \<Longrightarrow> \<exists>db'. sad_line macs mem db buf = Some db' \<and> db_wf macs db'"
proof -
  assume db: "db_wf macs db"
  show ?thesis
  proof (cases "trim_line buf")
    case None
    then show ?thesis using db by (simp add: sad_line_def)
  next
    case (Some line)
    obtain err db1 where p: "sad_parse_security_association_line macs mem db line = Some (err, db1)" "db_wf macs db1"
      using line_ok [OF db] unfolding ok_result_def by blast
    have "db_wf macs (db\<lparr>current_sa := None\<rparr>)" using db by (simp add: db_wf_def)
    moreover have "list_ex (\<lambda>sa. sa_addr sa = a) (associations db1)" if "current_sa db1 = Some a" for a
      using p(2) that by (auto simp: db_wf_def list_ex_iff)
    ultimately show ?thesis using Some p discard_wf [OF p(2)] by (auto simp: sad_line_def split: option.split)
  qed
qed

lemma sad_lines_ok: "db_wf macs db \<Longrightarrow> \<exists>db'. sad_lines macs mem n db tx = Some db' \<and> db_wf macs db'"
proof (induction macs mem n db tx rule: sad_lines.induct)
  case (1 macs mem n db tx)
  obtain db1 where "sad_line macs (mem n) db (fst (fgets 1024 tx)) = Some db1" "db_wf macs db1" using sad_line_ok [OF 1(2)] by blast
  then show ?case using 1 by (subst sad_lines.simps) auto
qed

text \<open>The line that starts a section ends the association before it.\<close>

lemma section_line: "sad_line macs mem db (''[security_association]'' @ [CHR 0x0A]) = Some (db\<lparr>current_sa := None\<rparr>)"
proof -
  have "trim_line (''[security_association]'' @ [CHR 0x0A]) = Some ''[security_association]''" by code_simp
  moreover have "strcaseeq ''[security_association]'' ''[security_association]''" by code_simp
  ultimately show ?thesis by (simp add: sad_line_def)
qed

lemma lines_step:
  "fgets 1024 tx = (l, rest) \<Longrightarrow> tx \<noteq> [] \<Longrightarrow> sad_line macs (mem n) db l = Some db' \<Longrightarrow>
    sad_lines macs mem n db tx = sad_lines macs mem (n + 1) db' rest"
  by (subst sad_lines.simps) simp

lemma section_first:
  "sad_lines macs mem n db (''[security_association]'' @ CHR 0x0A # f) = sad_lines macs mem (n + 1) (db\<lparr>current_sa := None\<rparr>) f"
proof -
  have "fgets 1024 (''[security_association]'' @ CHR 0x0A # f) = (''[security_association]'' @ [CHR 0x0A], f)"
    by (simp add: fgets_def Let_def)
  then show ?thesis by (rule lines_step) (simp_all only: section_line, simp)
qed

text \<open>C29. A file of security associations that is read when no association is current, as at the start of the program, or that begins with
  the line of a section, makes the parser use no association that has been freed, whatever else it contains and whichever allocations
  fail; it leaves at most one association per index, each with distinct keys that are not zero, of a supported
  algorithm that the library has and of the length of its cipher, without the fields that are not supported, and with a window of at
  most half of the sequence numbers. For other files that are read again see the next theorem.\<close>

theorem sad_create_wf:
  assumes "db_wf macs db" "current_sa db = None \<or> (\<exists>f. opened = Some (''[security_association]'' @ CHR 0x0A # f))"
  shows "\<exists>err db'. sad_create macs mem sa_file opened db = Some (err, db') \<and> db_wf macs db' \<and>
    (err = 0 \<longleftrightarrow> sa_file = None \<or> sa_file = Some [] \<or> opened \<noteq> None)"
proof -
  have "db_wf macs ((sad_destroy db)\<lparr>current_sa := None\<rparr>)" by (simp add: sad_destroy_def db_wf_def)
  then have none: "\<exists>db'. sad_lines macs mem n ((sad_destroy db)\<lparr>current_sa := None\<rparr>) tx = Some db' \<and> db_wf macs db'" for n tx
    by (rule sad_lines_ok)
  have "\<exists>db'. sad_lines macs mem 1 (sad_destroy db) tx = Some db' \<and> db_wf macs db'" if "opened = Some tx" for tx
  proof (cases "current_sa db")
    case None
    then have "(sad_destroy db)\<lparr>current_sa := None\<rparr> = sad_destroy db" by (simp add: sad_destroy_def)
    then show ?thesis using none by metis
  next
    case (Some a)
    then have "\<exists>f. opened = Some (''[security_association]'' @ CHR 0x0A # f)" using assms(2) by simp
    then obtain f where "opened = Some (''[security_association]'' @ CHR 0x0A # f)" by blast
    then have "tx = ''[security_association]'' @ CHR 0x0A # f" using that by simp
    then show ?thesis using none section_first by metis
  qed
  then show ?thesis using assms(1) by (force simp: sad_create_def split: option.split)
qed

definition no_sad :: sadb where
  "no_sad = \<lparr>associations = [], current_sa = None, next_addr = 0\<rparr>"

text \<open>A file with one association and one key, read twice.\<close>

definition sample_file :: string where
  "sample_file = ''[security_association]'' @ CHR 0x0A # ''spp 7'' @ CHR 0x0A # ''1 AES128 ASCII:0123456789abcdef''"

lemma sample_file_lines:
  "fgets 1024 (''spp 7'' @ CHR 0x0A # ''1 AES128 ASCII:0123456789abcdef'') = (''spp 7'' @ [CHR 0x0A], ''1 AES128 ASCII:0123456789abcdef'')"
  "fgets 1024 ''1 AES128 ASCII:0123456789abcdef'' = (''1 AES128 ASCII:0123456789abcdef'', [])"
  by (simp_all add: fgets_def Let_def)

lemma sample_spp_line: "sad_line macs (True, True) (db\<lparr>associations := [], current_sa := None\<rparr>) (''spp 7'' @ [CHR 0x0A]) =
    Some (snd (sad_config_switch_security_association True (db\<lparr>associations := [], current_sa := None\<rparr>) 7))"
proof -
  have "trim_line (''spp 7'' @ [CHR 0x0A]) = Some ''spp 7''" "\<not> strcaseeq ''spp 7'' ''[security_association]''" "scan_setting ''spp'' ''spp 7'' = Some 7"
    by code_simp+
  then show ?thesis
    by (simp add: sad_line_def sad_parse_security_association_line_def sad_config_switch_security_association_def Let_def)
qed

lemma algorithm_2: "alg_type (supported_algorithms ! 2) = CMAC_AES128" "alg_key_len (supported_algorithms ! 2) = 16" "alg_digest_len (supported_algorithms ! 2) = 16"
  by (simp_all add: supported_algorithms_def)

lemma sample_key_line:
  assumes "current_sa db = Some a" "associations db = [sa]" "sa_addr sa = a" "sa_keys sa = []"
  shows "\<exists>key. k_id key = 1 \<and> sad_line (\<lambda>_. Some echo_mac) (True, True) db ''1 AES128 ASCII:0123456789abcdef'' = Some (put_sa db (sa\<lparr>sa_keys := [key]\<rparr>))"
proof -
  have l: "trim_line ''1 AES128 ASCII:0123456789abcdef'' = Some ''1 AES128 ASCII:0123456789abcdef''"
    "\<not> strcaseeq ''1 AES128 ASCII:0123456789abcdef'' ''[security_association]''"
    "scan_setting ''spp'' ''1 AES128 ASCII:0123456789abcdef'' = None" "scan_setting ''seqnum_length'' ''1 AES128 ASCII:0123456789abcdef'' = None"
    "scan_setting ''seqid_window'' ''1 AES128 ASCII:0123456789abcdef'' = None" "scan_setting ''res_length'' ''1 AES128 ASCII:0123456789abcdef'' = None"
    "scan_setting ''allow_mutable'' ''1 AES128 ASCII:0123456789abcdef'' = None" by code_simp+
  have k: "sad_config_parse_key ''1 AES128 ASCII:0123456789abcdef'' = Some (1, ''AES128'', 0, ''ASCII:0123456789abcdef'')" by code_simp
  have o: "find (\<lambda>icv. strcaseeq (alg_label icv) ''AES128'') supported_algorithms = Some (supported_algorithms ! 2)" by code_simp
  have s: "key_octets ''ASCII:0123456789abcdef'' = Some (map of_char ''0123456789abcdef'')" by (simp add: key_octets_def)
  have "sad_init_mac (\<lambda>_. Some echo_mac) True CMAC_AES128 (map of_char ''0123456789abcdef'') =
      Some \<lparr>md_mac = echo_mac, md_key = map of_char ''0123456789abcdef''\<rparr>" by (simp add: sad_init_mac_def mac_name_def echo_mac_def)
  then show ?thesis using assms l k o s
    by (intro exI [of _ "\<lparr>k_icv = supported_algorithms ! 2, k_data = \<lparr>md_mac = echo_mac, md_key = map of_char ''0123456789abcdef''\<rparr>, k_id = 1\<rparr>"])
      (simp add: sad_line_def sad_parse_security_association_line_def sad_config_security_association_key_def with_current_def algorithm_2)
qed

lemma sample_read:
  "\<exists>db'. sad_create (\<lambda>_. Some echo_mac) (\<lambda>_. (True, True)) (Some ''sa.cfg'') (Some sample_file) db = Some (0, db') \<and>
    map sa_spp (associations db') = [7] \<and> map (map k_id \<circ> sa_keys) (associations db') = [[1]] \<and> current_sa db' \<noteq> None"
proof -
  let ?macs = "\<lambda>_. Some echo_mac" and ?mem = "\<lambda>_. (True, True)" and ?db = "(sad_destroy db)\<lparr>current_sa := None\<rparr>"
  have d: "?db = db\<lparr>associations := [], current_sa := None\<rparr>" by (simp add: sad_destroy_def)
  define db1 where "db1 = snd (sad_config_switch_security_association True ?db 7)"
  define sa where "sa = hd (associations db1)"
  have db1: "current_sa db1 = Some (sa_addr sa)" "associations db1 = [sa]" "sa_keys sa = []" "sa_spp sa = 7"
    by (simp_all add: sa_def db1_def d sad_config_switch_security_association_def Let_def)
  obtain key where key: "k_id key = 1" "sad_line ?macs (True, True) db1 ''1 AES128 ASCII:0123456789abcdef'' = Some (put_sa db1 (sa\<lparr>sa_keys := [key]\<rparr>))"
    using sample_key_line [OF db1(1,2) refl db1(3)] by blast
  have "sad_lines ?macs ?mem 1 (sad_destroy db) sample_file = Some (put_sa db1 (sa\<lparr>sa_keys := [key]\<rparr>))"
  proof -
    have "sad_lines ?macs ?mem 1 (sad_destroy db) sample_file =
        sad_lines ?macs ?mem (1 + 1) ?db (''spp 7'' @ CHR 0x0A # ''1 AES128 ASCII:0123456789abcdef'')"
      unfolding sample_file_def by (rule section_first)
    also have "\<dots> = sad_lines ?macs ?mem (1 + 1 + 1) db1 ''1 AES128 ASCII:0123456789abcdef''"
      by (rule lines_step [OF sample_file_lines(1)]) (simp_all only: sample_spp_line db1_def d, simp)
    also have "\<dots> = sad_lines ?macs ?mem (1 + 1 + 1 + 1) (put_sa db1 (sa\<lparr>sa_keys := [key]\<rparr>)) []"
      by (rule lines_step [OF sample_file_lines(2)]) (simp_all only: key(2), simp)
    finally show ?thesis by (simp add: sad_lines.simps)
  qed
  then show ?thesis using db1 key(1) by (simp add: sad_create_def put_sa_def)
qed

theorem sad_create_wf_witness:
  "\<exists>db1 db2. sad_create (\<lambda>_. Some echo_mac) (\<lambda>_. (True, True)) (Some ''sa.cfg'') (Some sample_file) no_sad = Some (0, db1) \<and>
    sad_create (\<lambda>_. Some echo_mac) (\<lambda>_. (True, True)) (Some ''sa.cfg'') (Some sample_file) db1 = Some (0, db2) \<and>
    map sa_spp (associations db2) = [7] \<and> map (map k_id \<circ> sa_keys) (associations db2) = [[1]] \<and> db_wf (\<lambda>_. Some echo_mac) db2"
proof -
  let ?macs = "\<lambda>_. Some echo_mac" and ?mem = "\<lambda>_. (True, True)"
  have f: "\<exists>f. Some sample_file = Some (''[security_association]'' @ CHR 0x0A # f)" by (simp add: sample_file_def)
  have "db_wf ?macs no_sad" by (simp add: db_wf_def no_sad_def)
  then obtain db1 where 1: "sad_create ?macs ?mem (Some ''sa.cfg'') (Some sample_file) no_sad = Some (0, db1)" "db_wf ?macs db1"
    using sad_create_wf [of ?macs no_sad "Some sample_file" ?mem "Some ''sa.cfg''"] f sample_read [of no_sad] by auto
  then show ?thesis
    using sad_create_wf [of ?macs db1 "Some sample_file" ?mem "Some ''sa.cfg''"] f sample_read [of db1] by auto
qed

text \<open>When the file is read again, \<open>current_sa\<close> still points to the association that was current at the end of the old file, which
  \<open>sad_destroy\<close> has freed: unless the new file starts with a section or an index, its first setting is written into freed memory.\<close>

theorem sad_reload_uses_freed:
  assumes "current_sa db = Some a"
  shows "sad_create macs mem (Some (c # f)) (Some ''seqid_window 5'') db = None"
proof -
  have f: "fgets 1024 ''seqid_window 5'' = (''seqid_window 5'', [])" by (simp add: fgets_def)
  have l: "trim_line ''seqid_window 5'' = Some ''seqid_window 5''" "\<not> strcaseeq ''seqid_window 5'' ''[security_association]''"
    "scan_setting ''spp'' ''seqid_window 5'' = None" "scan_setting ''seqnum_length'' ''seqid_window 5'' = None"
    "scan_setting ''seqid_window'' ''seqid_window 5'' = Some 5" by code_simp+
  have "sad_line macs (mem 1) (sad_destroy db) ''seqid_window 5'' = None"
    using assms l by (simp add: sad_line_def sad_parse_security_association_line_def sad_config_sa_seqid_window_def with_current_def sad_destroy_def)
  then show ?thesis by (simp add: sad_create_def sad_lines.simps f)
qed

theorem sad_reload_uses_freed_witness:
  "\<exists>db. sad_create (\<lambda>_. None) (\<lambda>_. (True, True)) (Some ''sa'') (Some ''spp 1'') no_sad = Some (0, db) \<and>
    sad_create (\<lambda>_. None) (\<lambda>_. (True, True)) (Some ''sa'') (Some ''seqid_window 5'') db = None"
proof -
  have f: "fgets 1024 ''spp 1'' = (''spp 1'', [])" by (simp add: fgets_def)
  have l: "trim_line ''spp 1'' = Some ''spp 1''" "\<not> strcaseeq ''spp 1'' ''[security_association]''" "scan_setting ''spp'' ''spp 1'' = Some 1"
    by code_simp+
  obtain db where db: "sad_create (\<lambda>_. None) (\<lambda>_. (True, True)) (Some ''sa'') (Some ''spp 1'') no_sad = Some (0, db)" "current_sa db = Some 0"
    using l by (auto simp: sad_create_def sad_lines.simps f sad_line_def sad_parse_security_association_line_def
      sad_config_switch_security_association_def no_sad_def sad_destroy_def Let_def)
  then show ?thesis using sad_reload_uses_freed [OF db(2)] by blast
qed

section \<open>The texts of keys\<close>

lemma hex_octet_hex2: "hex_octets (hex2 b @ s) = b # hex_octets s"
proof -
  let ?h = "hex_digit (unat b div 16)" and ?l = "hex_digit (unat b mod 16)"
  have b: "unat b < 256" by (rule unat8)
  then have h: "unat b div 16 < 16" and l: "unat b mod 16 < 16" by simp_all
  note H = hex_digit [OF h] and L = hex_digit [OF l]
  have z: "digit_value (CHR 0x00) = 36" by code_simp
  have "digit_value ?h \<noteq> digit_value (CHR 0x00)" "digit_value ?l \<noteq> digit_value (CHR 0x00)" using H(1) L(1) h l z by simp_all
  then have "?h \<noteq> CHR 0x00" "?l \<noteq> CHR 0x00" by auto
  then have "cstr [?h, ?l] = [?h, ?l]" by (simp add: cstr_def)
  moreover have "skip_space [?h, ?l] = [?h, ?l]" using H(2) by (simp add: skip_space_def)
  moreover have "scan_sign [?h, ?l] = (False, [?h, ?l])" using H(3,4) by (simp add: scan_sign_def)
  moreover have "\<not> hex_prefix [?h, ?l]" using L(5) by (simp add: hex_prefix_def)
  moreover have "digits 16 [?h, ?l] = [?h, ?l]" using H(1) L(1) h by (simp add: digits_def)
  moreover have "int (unat b div 16) * 16 + int (unat b mod 16) = int (unat b)" by presburger
  then have "number 16 [?h, ?l] = int (unat b)" using H(1) L(1) by (simp add: number_def)
  moreover have "int (unat b) < 256" using b by linarith
  moreover have "max LONG_MIN (uint b) = uint b" by (rule max_absorb2, rule order_trans [OF _ uint_ge_0]) simp
  ultimately have "hex_octet ?h ?l = b" by (simp add: hex_octet_def strtol_def scan_integer_def scan_unsigned_def Let_def)
  then show ?thesis by (simp add: hex2_def)
qed

lemma hex_octets_text: "hex_octets (concat (map hex2 bs)) = bs" "even (length (concat (map hex2 bs)))"
  by (induction bs) (simp_all add: hex_octet_hex2, simp_all add: hex2_def)

lemma encode_longer: "length bs \<le> length (b64_encode bs)"
  by (induction bs rule: b64_encode.induct) simp_all

text \<open>A key is stored as its text says: hexadecimal digits, base 64 and plain text in each of the three notations are turned into
  exactly the octets that they stand for.\<close>

theorem sad_key_formats:
  "key_octets (''HEX:'' @ concat (map hex2 bs)) = Some bs \<and>
   (map of_char t = b64_encode bs \<longrightarrow> key_octets (''B64:'' @ t) = Some bs) \<and> key_octets (''ASCII:'' @ s) = Some (map of_char s)"
proof (intro conjI impI)
  show "key_octets (''HEX:'' @ concat (map hex2 bs)) = Some bs"
    using hex_octets_text(2) [of bs] by (simp add: key_octets_def hex_octets_text Let_def)
  show "key_octets (''ASCII:'' @ s) = Some (map of_char s)" by (simp add: key_octets_def)
  assume t: "map of_char t = b64_encode bs"
  show "key_octets (''B64:'' @ t) = Some bs"
  proof (cases "bs = []")
    case True
    then show ?thesis using t by (simp add: key_octets_def)
  next
    case False
    let ?m = "map of_char (''B64:'' @ t) :: u8 list"
    have m: "?m = map of_char ''B64:'' @ b64_encode bs" "length ?m = 4 + length (b64_encode bs)" using t by (simp_all flip: t)
    have "segment ?m 4 (b64_encode bs)" by (simp add: segment_def flip: t)
    then have "base64_decode ?m 4 (length (b64_encode bs)) 0 (length ?m) = Some (overlay ?m 0 bs, length bs)"
      using encode_longer [of bs] m(2) by (intro decode_encode [OF False]) simp_all
    moreover have "take (length bs) (overlay ?m 0 bs) = bs" by (simp add: overlay_def)
    moreover have "t \<noteq> []" using t encode_pos [OF False] by auto
    then have "key_octets (''B64:'' @ t) =
        (case base64_decode ?m 4 (length ?m - 4) 0 (length ?m) of None \<Rightarrow> None | Some (m, n) \<Rightarrow> Some (take n m))"
      by (simp add: key_octets_def Let_def)
    moreover have "length ?m - 4 = length (b64_encode bs)" using m(2) by simp
    ultimately show ?thesis by (simp only: option.case prod.case)
  qed
qed

text \<open>Two digits that are none are an octet nevertheless.\<close>

lemma sad_hex_unchecked: "key_octets ''HEX:zz+1'' = Some [0, 1]"
  by code_simp

theorem sad_key_formats_witness: "key_octets ''B64:TGludXg='' = Some [76, 105, 110, 117, 120]"
proof -
  have "map of_char ''TGludXg='' = b64_encode [76, 105, 110, 117, 120]" by code_simp
  then show ?thesis using sad_key_formats [where t = "''TGludXg=''" and bs = "[76, 105, 110, 117, 120]"] by simp
qed

section \<open>Sending\<close>

lemma pre_send_tlvs: "msg_pre_send now m = Some (err, m') \<Longrightarrow> m_tlv_list m' = m_tlv_list m"
  by (auto simp: msg_pre_send_def Let_def split: Option.bind_splits if_splits)

text \<open>C28. A port that is ready for security signs what it sends: the readiness check succeeds only if the policy names an association and a
  key of it, and when a TLV has been appended with them, it is the last TLV of the message and holds the digest, under this key, of all
  octets of the final message before it.\<close>

theorem sad_append_signs:
  assumes "0 \<le> spp" "sad_readiness_check spp key_id sa_file sad = 0"
    and "sad_append_auth_tlv now mem sad spp key_id m = Some (0, m')"
    and "4 \<le> length (m_buf m)" "msg_suffix (m_buf m ! 0 AND 15) = Some p" "tiles p q (m_buf m) (m_tlv_list m)" "rd16 (m_buf m) 2 = Some ml"
    and "\<forall>sa \<in> set sad. \<forall>key \<in> set (sa_keys sa). lib_ok (k_data key)"
  shows "\<exists>sa key x. sad_get_association sad spp = Some sa \<and> sad_get_key sa key_id = Some key \<and>
    m_tlv_list m' = m_tlv_list m @ [x] \<and> te_tlv x = q \<and>
    sad_verify (k_data key) (take (icv_of sa q) (stripped sa (m_buf m')))
      (take (alg_digest_len (k_icv key)) (drop (icv_of sa q) (m_buf m'))) (alg_digest_len (k_icv key)) = 0"
proof -
  obtain sa key where k: "sad_get_association sad spp = Some sa" "sad_get_key sa key_id = Some key" "0 < key_id"
    using assms(1,2) by (auto simp: sad_readiness_check_def split: if_splits option.splits)
  let ?len = "int (sad_get_auth_tlv_len sa (alg_digest_len (k_icv key)))"
  obtain r m1 where a: "msg_tlv_append mem m ?len = Some (r, m1)" "r = None \<or> (\<exists>x. r = Some x \<and> te_tlv x = q \<and> m_tlv_list m1 = m_tlv_list m @ [x])"
    using msg_tlv_append_correct [OF assms(4-7), of mem ?len] by (auto split: if_splits)
  obtain x where x: "r = Some x" "te_tlv x = q" "m_tlv_list m1 = m_tlv_list m @ [x]"
    using a assms(1,3) k by (auto simp: sad_append_auth_tlv_def)
  obtain b m2 n b' where s: "msg_pre_send now (m1\<lparr>m_buf := b\<rparr>) = Some (0, m2)"
      "sad_generate_icv sa key (m_buf m2) (icv_of sa q) = Some (n, b')" "n \<noteq> 0" "m' = m2\<lparr>m_buf := b'\<rparr>"
    using assms(1,3) k a(1) x(1,2) by (auto simp: sad_append_auth_tlv_def Let_def split: Option.bind_splits if_splits)
  have "sa \<in> set sad" "key \<in> set (sa_keys sa)"
    using k by (auto simp: sad_get_association_def sad_get_key_def find_Some_iff split: if_splits)
  then have lib: "lib_ok (k_data key)" using assms(8) by blast
  have "34 \<le> p" using assms(5) by (auto simp: msg_suffix_def layout_simps split: if_splits)
  then have "16 \<le> icv_of sa q" using tiles_le [OF assms(6)] auth_len(2) [of sa 0] by (simp add: icv_of_len)
  from generate_icv [OF s(2) this s(3) lib] show ?thesis
    using k x s(4) pre_send_tlvs [OF s(1)] by (intro exI [of _ sa] exI [of _ key] exI [of _ x]) auto
qed

text \<open>The Sync of the example before it is signed.\<close>

definition unsigned_message :: ptp_message where
  "unsigned_message = message ([0, 2, 44, 0] @ replicate 82 0)"

lemma unsigned_appended:
  "msg_tlv_append 8 unsigned_message 26 =
    Some (Some \<lparr>te_tlv = 44, te_cd = null_cd\<rparr>, unsigned_message\<lparr>m_buf := [0, 2, 70, 0] @ replicate 82 0, m_tlv_list := sample_tlvs\<rparr>)"
  by code_simp

lemma unsigned_sent:
  "msg_pre_send now (unsigned_message\<lparr>m_tlv_list := sample_tlvs, m_buf := sample_octets False (replicate 16 0)\<rparr>) =
    Some (0, unsigned_message\<lparr>m_tlv_list := sample_tlvs, m_buf := sample_octets True (replicate 16 0)\<rparr>)"
  by code_simp

lemma host_bytes_fields: "host_bytes 2 32777 = [9, 128]" "host_bytes 2 22 = [22, 0]" "host_bytes 4 (Suc 0) = [1, 0, 0, 0]"
proof -
  have h: "host_bytes 2 v = [of_nat (v mod 256), of_nat (v div 256 mod 256)]" for v by (simp add: numeral_2_eq_2)
  then show "host_bytes 2 32777 = [9, 128]" "host_bytes 2 22 = [22, 0]" by simp_all
  have "host_bytes (Suc (Suc 2)) (Suc 0) = [1, 0, 0, 0]" by (simp only: host_bytes.simps h) simp
  then show "host_bytes 4 (Suc 0) = [1, 0, 0, 0]" by simp
qed

lemma unsigned_filled:
  "do {
     b \<leftarrow> poke 44 [9, 128] ([0, 2, 70, 0] @ replicate 82 0);
     b \<leftarrow> poke 46 [22, 0] b;
     b \<leftarrow> poke 48 [7] b;
     b \<leftarrow> poke 49 [0] b;
     poke 50 [1, 0, 0, 0] b } = Some (sample_octets False (replicate 16 0))"
  by code_simp

lemma unsigned_signed:
  "sad_append_auth_tlv now 8 [sample_sa] 7 1 unsigned_message =
    Some (0, unsigned_message\<lparr>m_tlv_list := sample_tlvs, m_buf := sample_octets True sample_icv\<rparr>)"
proof -
  have k: "k_id sample_key = 1" "res_ind sample_sa = False" "seqnum_ind sample_sa = False" by (simp_all add: sample_key_def sample_sa_def)
  have o: "auth_offset ''type'' = 0" "auth_offset ''length'' = 2" "auth_offset ''spp'' = 4" "auth_offset ''secParamIndicator'' = 5"
    "auth_offset ''keyID'' = 6" by code_simp+
  obtain x xa xb xc where p: "poke 44 [9, 128] ([0, 2, 70, 0] @ replicate 82 0) = Some x" "poke 46 [22, 0] x = Some xa"
      "poke 48 [7] xa = Some xb" "poke 49 [0] xb = Some xc" "poke 50 [1, 0, 0, 0] xc = Some (sample_octets False (replicate 16 0))"
    using unsigned_filled by (auto split: Option.bind_splits)
  show ?thesis
    using p unsigned_appended unsigned_sent [of now]
    by (simp add: sad_append_auth_tlv_def sample_assoc sample_flags k o host_bytes_fields sample_generated Let_def)
qed

theorem sad_append_signs_witness:
  "sad_verify (k_data sample_key) (sample_head True) sample_icv 16 = 0"
proof -
  let ?m = unsigned_message
  have ready: "sad_readiness_check 7 1 (Some ''sa.cfg'') [sample_sa] = 0" by (simp add: sad_readiness_check_def sample_assoc)
  have m: "4 \<le> length (m_buf ?m)" "m_buf ?m ! 0 = 0" "rd16 (m_buf ?m) 2 = Some 44" "m_tlv_list ?m = []"
    by (simp_all add: unsigned_message_def message_def rd16_def)
  moreover have "msg_suffix (0 :: u8) = Some 44" by code_simp
  moreover have "\<forall>sa \<in> set [sample_sa]. \<forall>key \<in> set (sa_keys sa). lib_ok (k_data key)"
    by (auto simp: sample_sa_def sample_key_def echo_mac_def min_def)
  moreover have "take 54 (sample_octets True sample_icv) = sample_head True" "take 16 (drop 54 (sample_octets True sample_icv)) = sample_icv"
    using sample_slices(1) [of True sample_icv] sample_slices(2) [of sample_icv True] sample_lengths by (simp_all add: octets_def split: if_splits)
  ultimately show ?thesis
    using sad_append_signs [OF _ ready unsigned_signed, of 44 44 44] by (auto simp: sample_assoc stripped_def sample_flags)
qed

end
