(* ===== verification/Spec2Isabelle.thy ===== *)
theory Spec2Isabelle
  imports Msg_Safety Tc Port_Reach Servo Servo_Shm Config_Faults Lstab Nmea Sad_Spec
begin

text \<open>
  A verification development of \<open>linuxptp\<close>, an implementation of the Precision Time Protocol (IEEE 1588). File names below
  are relative to \<open>src/linuxptp1103\<close>.

  \<^bold>\<open>The program.\<close> A daemon keeps one \<open>struct port\<close> per network interface. Octets that arrive on a socket are checked and converted by
  \<open>msg_post_recv\<close> (\<open>msg.c\<close>, \<open>tlv.c\<close>). The event handler of the port (\<open>bc_event\<close> in \<open>port.c\<close>, \<open>e2e_event\<close> and \<open>p2p_event\<close> of
  transparent clocks in \<open>e2e_tc.c\<close> and \<open>p2p_tc.c\<close>) hands the message to its processor: Announce messages feed the records of foreign
  masters, from which the best one is chosen; Sync, Follow_Up and the delay messages become time stamps for the time stamp
  processor (\<open>tsproc.c\<close>, with the filters \<open>mave.c\<close> and \<open>mmedian.c\<close>), whose offset drives a servo (\<open>servo.c\<close>, \<open>pi.c\<close>); signaling messages
  negotiate unicast service (\<open>unicast_client.c\<close>, \<open>unicast_service.c\<close> with its priority queue \<open>pqueue.c\<close>). A handler returns an
  event for the state machine of the port (\<open>fsm.c\<close>, \<open>designated_fsm.c\<close>), and \<open>port_dispatch\<close> performs the transition. Several
  processes share the state of their servos through shared memory (\<open>servo.c\<close>). All of them are set up from a table of options, the
  command line and a configuration file (\<open>config.c\<close>, with the hash table \<open>hash.c\<close> and the interfaces of \<open>interface.c\<close>). Where a policy demands it, messages
  are authenticated: \<open>sad.c\<close> reads keys from a file, checks the authentication TLVs of what is received and signs what is sent. The
  programs around the daemon need the TAI offset from the leap second table (\<open>lstab.c\<close>) and the time from the NMEA sentences of a
  satellite receiver (\<open>nmea.c\<close>).

  \<^bold>\<open>Theories.\<close>
  \<^item> \<open>Ptp_Prelude\<close>, \<open>Ptp_Types\<close>: collections of simplification rules, lemmas on words, lists and options; identities and addresses
    (\<open>ddt.h\<close>, \<open>address.h\<close>, \<open>util.h\<close>).
  \<^item> \<open>Fsm\<close>: the five transition functions, one step relation for the port machines, and the locale \<open>port_fsm\<close> of what they have in
    common, interpreted on the four of them.
  \<^item> \<open>Tmv\<close>: time values as 64-bit words and their conversions (\<open>tmv.h\<close>).
  \<^item> \<open>Pqueue\<close>, \<open>Unicast_Service\<close>: the array heap, over a locale for its comparison function, which \<open>compare_timeout\<close> interprets; the
    unicast service over a store of interval objects.
  \<^item> \<open>Wire\<close>, \<open>Layout\<close>, \<open>Tlv\<close>, \<open>Tlv_Safety\<close>, \<open>Msg\<close>, \<open>Msg_Safety\<close>: the message buffer as a list of octets of a little-endian host,
    the layouts of the wire structures, and the in-place conversions of every TLV and message. An access outside the buffer is
    \<open>None\<close>, an error of the code a value of \<open>errno\<close>.
  \<^item> \<open>Filters\<close>, \<open>Tsproc\<close>, \<open>Doubles\<close>: moving average and median, the time stamp processor, and the arithmetic of doubles: a
    double is the rational number it denotes, and operations are rounded to 53 bits, ties to even (\<open>rnd64\<close>).
  \<^item> \<open>Port_Types\<close>, \<open>Port_State\<close>, \<open>Port_Io\<close>, \<open>Port_Mgmt\<close>, \<open>Port_Capable\<close>, \<open>Port_Unicast\<close>, \<open>Port_Foreign\<close>, \<open>Port_Fsm\<close>, \<open>Port_Sync\<close>,
    \<open>Port_Delay\<close>, \<open>Port_Event\<close>: \<open>port.c\<close>, \<open>port_signaling.c\<close> and \<open>unicast_client.c\<close>. A port is a record; messages are seen by value. The
    clock, the kernel and the sockets are an environment: a port keeps the log of its calls, and what a call returns is an arbitrary
    function of the log. All theorems hold for every environment.
  \<^item> \<open>Port_Invariant\<close>, \<open>Port_Reach\<close>: what every operation keeps of a port, and the invariant of reachable ports.
  \<^item> \<open>Tc\<close>: transparent clocks (\<open>tc.c\<close>, \<open>e2e_tc.c\<close>, \<open>p2p_tc.c\<close>) over a list of ports.
  \<^item> \<open>Servo\<close>: the servo frame, the PI controller and the null servo. \<open>Servo_Shm\<close>: the shared memory of \<open>servo.c\<close> as a transition system
    of concurrent processes, one shared access per step.
  \<^item> \<open>Cstring\<close>: strings of C and the library functions that scan them, with the range checks of \<open>util.c\<close>. \<open>Hash\<close>: the hash table, over a
    locale for dictionaries, which it interprets. \<open>Config_Table\<close>, \<open>Config\<close>: the table of options and \<open>config.c\<close>: items are in a store, the
    hash table holds their places, a crash or an exit is a value. \<open>Config_Inv\<close>, \<open>Config_Parse\<close>, \<open>Config_Props\<close>, \<open>Config_Spec\<close>,
    \<open>Config_Faults\<close>: the invariant of configurations, that every operation keeps it, the abstract map it implements, and departures.
  \<^item> \<open>Util\<close>, \<open>Util_Props\<close>, \<open>Base64\<close>: identities and addresses as text, pointer arrays, base 64.
  \<^item> \<open>Sad\<close>, \<open>Sad_Props\<close>: authentication TLVs of messages, over algorithms that are an argument, and the check of sequence numbers.
    \<open>Sad_Config\<close>, \<open>Sad_Spec\<close>: the file of security associations; every object has an address, and a use of a freed one is \<open>None\<close>.
  \<^item> \<open>Lstab\<close>: the leap second table and its file. \<open>Nmea\<close>: the parser of NMEA sentences, fed one octet at a time.

  \<^bold>\<open>What is shown.\<close> Messages: receiving is memory safe on all inputs but one kind, which is shown to be unsafe, an accepted message is tiled by its TLVs, and sending it again
  restores the octets received. Machines: slave-only ports are never masters, no slave without calibration, faults are
  repaired; the unicast client refines its contracts. Ports: the invariant of reachable ports, termination of dispatching (without debug messages), optimality of
  the best master, equivalence of the orders of arrival of Sync and Follow_Up, exactness of delay measurements and the pairing of their messages, residence time
  correction. Unicast service: heap correctness, invariant, termination of its timer. Filters and processor: refinement of
  the mean and the median of the window, accuracy in spite of rounding. Servos: bounds of the frequency of the PI and the null servo for every input, and
  what a stable lock means. Shared memory: mutual exclusion, safe publication, atomic reads under every interleaving. Configuration: parsing
  never crashes, the hash table refines a map from sections and options to values, values are of their types and in their ranges (not-a-numbers apart), the
  command line wins over files. Authentication: a message passes exactly when it is authentic, checking it stays within its length, appending and
  updating TLVs sign the final message, and every file that does not touch a discarded association leaves a sound database. Leap seconds: the contract of the look-up, and files are
  read as printed. Satellite time: sentences are understood after noise (with fractions of three digits), and no stream leaves the arrays. Utilities: round
  trips of identities and of base 64, safety of pointer arrays. Where the code
  misbehaves, a theorem says so: an access outside the buffer, a timer and a recursion that never end, reference counts released
  twice, a cancellation that is never sent, a bus error and lost semaphores of the shared memory, a
  fault interval of a file that replaces the one of the command line, not-a-numbers that pass all range checks, a section of a file that
  crashes the parser, replays that pass the window of sequence numbers, a pointer to a freed association, keys of digits that are none, an
  overlong NMEA sentence that spoils the next one, an expiration date that survives its file.

  \<^bold>\<open>Bounds and termination.\<close> Loops over lists and octets are recursions with a measure. Three functions may not return and are
  partial functions into \<open>option\<close>: \<open>service_loop\<close>, \<open>port_capable\<close> and \<open>bc_dispatch\<close>; for each it is proved when they return. In
  \<open>port.c\<close> \<open>None\<close> also stands for the dereference of a null pointer. There is no fuel. A message buffer is any list of
  at least 64 octets that holds those received, without a margin behind them (the code has 1500 octets); nothing behind it is touched but in the
  case that is proved, of an alternate time offset TLV at its very end.

  \<^bold>\<open>Not modelled.\<close> \<open>clock.c\<close> and \<open>bmc.c\<close> are not in the tree: the clock is part of the environment, and the comparison of data sets an argument.
  \<open>port_open\<close> and \<open>port_close\<close> (configuration and memory). NaN, infinities and underflow of doubles in filters and servos (configured doubles have them). Linear regression and the servos that only
  pass samples on (\<open>linreg.c\<close>, \<open>ntpshm.c\<close>, \<open>refclock_sock.c\<close>). Transports, sockets and hardware clocks, which are system calls, and
  the bindings of \<open>sad_gnutls.c\<close>, \<open>sad_gnupg.c\<close> and \<open>sad_openssl.c\<close>. The port machines do not look into the result of an authentication:
  it is part of their environment. The printing of the leap second table, the rest of \<open>util.c\<close> (names for messages, signals, allocation), the management client, \<open>ts2phc\<close>, \<open>phc2sys\<close>, \<open>timemaster\<close> and the other
  programs around the daemon.
\<close>

end
